(* ===== verification/Prelude.thy ===== *)
theory Prelude
  imports Main "HOL-Library.AList" "HOL-Library.Char_ord" "HOL-Library.List_Lexorder"
begin

text \<open>
  Shared vocabulary of the development: the JavaScript run-time data the sources use
  everywhere (insertion-ordered maps and sets, stable sorting, string trimming and
  splitting, decimal text of numbers), with the lemmas and hints the components share.

  A JavaScript \<^verbatim>\<open>Map\<close> is an association list in insertion order: \<open>get\<close> is
  \<^const>\<open>map_of\<close>, \<open>set\<close> is \<^const>\<open>AList.update\<close> (an existing key keeps its
  place, a new one goes last) and \<open>delete\<close> is \<^const>\<open>AList.delete\<close>. A string is a
  \<^typ>\<open>char list\<close>: one \<^typ>\<open>char\<close> per code unit, so code units above 255 are
  outside the model.
\<close>

named_theorems store_simps "equations of store operations that every client may rewrite with"

type_synonym ('k, 'v) js_map = "('k \<times> 'v) list"

abbreviation keyed :: "('k, 'v) js_map \<Rightarrow> bool" where
  "keyed m \<equiv> distinct (map fst m)"

section \<open>Maps in insertion order\<close>

declare map_of_eq_Some_iff [simp del] Some_eq_map_of_iff [simp del]

lemma map_of_update [simp]: "map_of (AList.update k v m) = (map_of m)(k \<mapsto> v)"
  by (simp add: update_conv')

lemma map_of_delete [simp]: "map_of (AList.delete k m) = (map_of m)(k := None)"
  by (simp add: delete_conv')

lemma set_alist_update: "x \<in> set (AList.update k v m) \<Longrightarrow> x = (k, v) \<or> x \<in> set m"
  by (induction m) (auto split: if_splits)

lemma keyed_update [simp]: "keyed m \<Longrightarrow> keyed (AList.update k v m)"
  by (rule distinct_update)

lemma keyed_delete [simp]: "keyed m \<Longrightarrow> keyed (AList.delete k m)"
  by (rule distinct_delete)

lemma keyed_filter [simp]: "keyed m \<Longrightarrow> keyed (filter P m)"
  by (induction m) auto

lemma map_of_filter:
  "keyed m \<Longrightarrow> map_of (filter P m) k = (case map_of m k of None \<Rightarrow> None | Some v \<Rightarrow> if P (k, v) then Some v else None)"
proof (induction m)
  case (Cons kv m)
  obtain k' v where kv: "kv = (k', v)" by force
  with Cons.prems have "k' \<notin> dom (map_of m)" by (simp add: dom_map_of_conv_image_fst)
  then have "map_of m k' = None" by blast
  with Cons kv show ?case by auto
qed simp

lemma in_values_iff: "keyed m \<Longrightarrow> v \<in> set (map snd m) \<longleftrightarrow> (\<exists>k. map_of m k = Some v)"
  by (force simp: image_iff map_of_eq_Some_iff)

section \<open>Sets in insertion order, searching, sorting\<close>

definition js_unique :: "'a list \<Rightarrow> 'a list" where
  "js_unique xs = rev (remdups (rev xs))"

lemma set_js_unique [simp]: "set (js_unique xs) = set xs"
  by (simp add: js_unique_def)

lemma distinct_js_unique [simp]: "distinct (js_unique xs)"
  by (simp add: js_unique_def)

lemma find_SomeD: "find P xs = Some x \<Longrightarrow> x \<in> set xs \<and> P x"
  by (induction xs) (auto split: if_splits)

lemma find_NoneD: "find P xs = None \<Longrightarrow> x \<in> set xs \<Longrightarrow> \<not> P x"
  by (induction xs) (auto split: if_splits)

text \<open>\<open>indexOf\<close>: the first position, or -1.\<close>

fun index_of :: "'a list \<Rightarrow> 'a \<Rightarrow> int" where
  "index_of [] x = -1"
| "index_of (y # ys) x = (if y = x then 0 else let i = index_of ys x in if i = -1 then -1 else i + 1)"

lemma index_of_ge: "index_of xs x \<ge> -1"
  by (induction xs) (auto simp: Let_def)

lemma index_of_nonneg: "x \<in> set xs \<Longrightarrow> 0 \<le> index_of xs x"
proof (induction xs)
  case (Cons y ys)
  have "index_of ys x \<ge> -1" by (rule index_of_ge)
  with Cons show ?case by (auto simp: Let_def)
qed simp

lemma index_of_nth: "x \<in> set xs \<Longrightarrow> nat (index_of xs x) < length xs \<and> xs ! nat (index_of xs x) = x"
proof (induction xs)
  case (Cons y ys)
  show ?case
  proof (cases "y = x")
    case False
    with Cons.prems have "x \<in> set ys" by simp
    with Cons.IH index_of_nonneg [OF this] False show ?thesis
      by (auto simp: Let_def nat_add_distrib)
  qed simp
qed simp

text \<open>\<open>Array.prototype.sort\<close> is stable; \<open>le\<close> is "the comparator is not positive".\<close>

fun js_insert :: "('a \<Rightarrow> 'a \<Rightarrow> bool) \<Rightarrow> 'a \<Rightarrow> 'a list \<Rightarrow> 'a list" where
  "js_insert le x [] = [x]"
| "js_insert le x (y # ys) = (if le x y then x # y # ys else y # js_insert le x ys)"

definition js_sort :: "('a \<Rightarrow> 'a \<Rightarrow> bool) \<Rightarrow> 'a list \<Rightarrow> 'a list" where
  "js_sort le xs = foldr (js_insert le) xs []"

lemma set_js_insert [simp]: "set (js_insert le x xs) = insert x (set xs)"
  by (induction xs) auto

lemma set_js_sort [simp]: "set (js_sort le xs) = set xs"
  by (induction xs) (auto simp: js_sort_def)

lemma length_js_insert [simp]: "length (js_insert le x xs) = Suc (length xs)"
  by (induction xs) auto

lemma length_js_sort [simp]: "length (js_sort le xs) = length xs"
  by (induction xs) (auto simp: js_sort_def)

lemma js_sort_simps [simp]:
  "js_sort le [] = []" "js_sort le (x # xs) = js_insert le x (js_sort le xs)"
  by (simp_all add: js_sort_def)

lemma distinct_map_js_insert [simp]:
  "distinct (map f (js_insert le x xs)) \<longleftrightarrow> f x \<notin> f ` set xs \<and> distinct (map f xs)"
  by (induction xs) auto

lemma distinct_map_js_sort [simp]: "distinct (map f (js_sort le xs)) \<longleftrightarrow> distinct (map f xs)"
  by (induction xs) auto

lemma sorted_wrt_js_insert:
  assumes "\<And>a b. le a b \<or> le b a" and "\<And>a b c. le a b \<Longrightarrow> le b c \<Longrightarrow> le a c"
  shows "sorted_wrt le xs \<Longrightarrow> sorted_wrt le (js_insert le x xs)"
  by (induction xs) (auto dest: assms(2), use assms in blast)

lemma sorted_wrt_js_sort:
  assumes "\<And>a b. le a b \<or> le b a" and "\<And>a b c. le a b \<Longrightarrow> le b c \<Longrightarrow> le a c"
  shows "sorted_wrt le (js_sort le xs)"
proof (induction xs)
  case (Cons x xs)
  then show ?case by (simp add: sorted_wrt_js_insert [OF assms])
qed simp

lemma js_insert_first: "list_all (le x) ys \<Longrightarrow> js_insert le x ys = x # ys"
  by (cases ys) auto

lemma filter_js_insert:
  assumes "\<And>a b. le a b \<or> le b a" and "\<And>a b c. le a b \<Longrightarrow> le b c \<Longrightarrow> le a c"
  shows "sorted_wrt le ys \<Longrightarrow> filter Q (js_insert le x ys) = (if Q x then js_insert le x (filter Q ys) else filter Q ys)"
proof (induction ys)
  case (Cons y ys)
  have "list_all (le x) (filter Q (y # ys))" if "le x y" using Cons.prems that assms(2) by (auto simp: list_all_iff)
  then show ?case using Cons by (auto simp: js_insert_first)
qed simp

lemma filter_js_sort:
  assumes "\<And>a b. le a b \<or> le b a" and "\<And>a b c. le a b \<Longrightarrow> le b c \<Longrightarrow> le a c"
  shows "filter Q (js_sort le xs) = js_sort le (filter Q xs)"
  by (induction xs) (simp_all add: filter_js_insert [OF assms] sorted_wrt_js_sort [OF assms])

lemma find_sorted:
  "sorted_wrt le xs \<Longrightarrow> find P xs = Some x \<Longrightarrow> y \<in> set xs \<Longrightarrow> P y \<Longrightarrow> x = y \<or> le x y"
  by (induction xs) (auto split: if_splits)

lemma index_of_inject: "x \<in> set xs \<Longrightarrow> index_of xs x = index_of xs y \<Longrightarrow> x = y"
proof -
  assume x: "x \<in> set xs" and eq: "index_of xs x = index_of xs y"
  have "y \<in> set xs"
  proof (rule ccontr)
    assume "y \<notin> set xs"
    then have "index_of xs y = -1" by (induction xs) auto
    with eq index_of_nonneg [OF x] show False by simp
  qed
  with x eq index_of_nth [of x xs] index_of_nth [of y xs] show "x = y" by metis
qed

section \<open>Strings\<close>

text \<open>The white space \<open>trim\<close> removes, among code units below 256.\<close>

definition js_space :: "char \<Rightarrow> bool" where
  "js_space c \<longleftrightarrow> c \<in> {CHR 0x09, CHR 0x0A, CHR 0x0B, CHR 0x0C, CHR 0x0D, CHR 0x20, CHR 0xA0}"

definition js_trim :: "string \<Rightarrow> string" where
  "js_trim s = rev (dropWhile js_space (rev (dropWhile js_space s)))"

definition blank :: "string \<Rightarrow> bool" where
  "blank s \<longleftrightarrow> js_trim s = []"

lemma js_trim_subset: "set (js_trim s) \<subseteq> set s"
  unfolding js_trim_def by (metis set_dropWhileD set_rev subsetI)

lemma dropWhile_idem [simp]: "dropWhile P (dropWhile P xs) = dropWhile P xs"
  by (induction xs) auto

fun js_split :: "char \<Rightarrow> string \<Rightarrow> string list" where
  "js_split d [] = [[]]"
| "js_split d (c # cs) =
     (if c = d then [] # js_split d cs
      else case js_split d cs of [] \<Rightarrow> [[c]] | p # ps \<Rightarrow> (c # p) # ps)"

lemma js_split_nonempty [simp]: "js_split d s \<noteq> []"
  by (induction s) (auto split: list.splits)

lemma js_split_single [simp]: "d \<notin> set s \<Longrightarrow> js_split d s = [s]"
  by (induction s) auto

lemma js_split_append [simp]: "d \<notin> set s \<Longrightarrow> js_split d (s @ d # t) = s # js_split d t"
  by (induction s) auto

text \<open>A composed key is injective when its last part cannot hold the separator, or its
  first part cannot.\<close>

lemma split_at_sep: "d \<notin> set a \<Longrightarrow> takeWhile (\<lambda>x. x \<noteq> d) (a @ d # b) = a \<and> dropWhile (\<lambda>x. x \<noteq> d) (a @ d # b) = d # b"
  by (induction a) auto

lemma sep_inject_left:
  assumes "d \<notin> set a" "d \<notin> set a'"
  shows "a @ d # b = a' @ d # b' \<longleftrightarrow> a = a' \<and> b = b'"
  using split_at_sep [OF assms(1), of b] split_at_sep [OF assms(2), of b'] by (metis list.inject)

lemma sep_inject_right:
  assumes "d \<notin> set b" "d \<notin> set b'"
  shows "a @ d # b = a' @ d # b' \<longleftrightarrow> a = a' \<and> b = b'"
proof -
  have "a @ d # b = a' @ d # b' \<longleftrightarrow> rev b @ d # rev a = rev b' @ d # rev a'"
    by (metis append.assoc append_Cons append_Nil rev.simps(2) rev_append rev_rev_ident)
  also have "\<dots> \<longleftrightarrow> a = a' \<and> b = b'"
    using sep_inject_left [of d "rev b" "rev b'" "rev a" "rev a'"] assms by auto
  finally show ?thesis .
qed

text \<open>Decimal text of a natural number.\<close>

fun show_nat :: "nat \<Rightarrow> string" where
  "show_nat n = (if n < 10 then [char_of (48 + n)] else show_nat (n div 10) @ [char_of (48 + n mod 10)])"

declare show_nat.simps [simp del]

definition digit_char :: "char \<Rightarrow> bool" where
  "digit_char c \<longleftrightarrow> 48 \<le> (of_char c :: nat) \<and> (of_char c :: nat) \<le> 57"

definition read_nat :: "string \<Rightarrow> nat" where
  "read_nat s = foldl (\<lambda>n c. 10 * n + (of_char c - 48)) 0 s"

lemma read_nat_snoc: "read_nat (s @ [c]) = 10 * read_nat s + (of_char c - 48)"
  by (simp add: read_nat_def)

lemma of_char_digit: "d < 10 \<Longrightarrow> (of_char (char_of (48 + d) :: char) :: nat) = 48 + d"
  by (simp add: of_char_of)

lemma read_show_nat [simp]: "read_nat (show_nat n) = n"
proof (induction n rule: show_nat.induct)
  case (1 n)
  show ?case
  proof (cases "n < 10")
    case True
    then show ?thesis by (simp add: show_nat.simps read_nat_def of_char_digit)
  next
    case False
    with 1 have "read_nat (show_nat (n div 10)) = n div 10" by simp
    moreover have "n mod 10 < 10" by simp
    ultimately show ?thesis using False
      by (simp add: show_nat.simps [of n] read_nat_snoc of_char_digit)
  qed
qed

lemma show_nat_inject [simp]: "show_nat m = show_nat n \<longleftrightarrow> m = n"
  by (metis read_show_nat)

lemma show_nat_short: "length (show_nat n) \<le> Suc k \<longleftrightarrow> n < 10 ^ Suc k"
proof (induction k arbitrary: n)
  case 0
  show ?case
  proof (cases "n < 10")
    case False
    have "show_nat (n div 10) \<noteq> []" by (subst show_nat.simps) simp
    with False show ?thesis by (subst show_nat.simps) (cases "show_nat (n div 10)", simp_all)
  qed (simp add: show_nat.simps)
next
  case (Suc k)
  show ?case
  proof (cases "n < 10")
    case True
    moreover have "1 \<le> (10 :: nat) ^ k" by simp
    ultimately have "n < 10 ^ Suc (Suc k)" unfolding power_Suc by linarith
    with True show ?thesis by (subst show_nat.simps) simp
  next
    case False
    have "n div 10 < 10 ^ Suc k \<longleftrightarrow> n < 10 ^ Suc (Suc k)" by auto
    with False Suc.IH [of "n div 10"] show ?thesis by (subst show_nat.simps) simp
  qed
qed

lemma show_nat_nonempty [simp]: "show_nat n \<noteq> []"
  by (subst show_nat.simps) simp

lemma digit_char_of: "(d :: nat) < 10 \<Longrightarrow> digit_char (char_of (48 + d))"
  by (simp add: digit_char_def of_char_digit)

lemma show_nat_digits: "list_all digit_char (show_nat n)"
proof (induction n rule: show_nat.induct)
  case (1 n)
  have "list_all digit_char (show_nat (n div 10) @ [char_of (48 + n mod 10)])" if "\<not> n < 10"
    using 1 [OF that] by (simp add: digit_char_of del: of_nat_add)
  then show ?case by (subst show_nat.simps) (simp add: digit_char_of)
qed

section \<open>Fallible results\<close>

text \<open>A raise is the left value of a sum; running on stops at the first one.\<close>

definition bind_result :: "'e + 'a \<Rightarrow> ('a \<Rightarrow> 'e + 'b) \<Rightarrow> 'e + 'b" where
  "bind_result r f = (case r of Inl e \<Rightarrow> Inl e | Inr a \<Rightarrow> f a)"

lemma bind_result_simps [simp]:
  "bind_result (Inl e) f = Inl e" "bind_result (Inr a) f = f a"
  by (simp_all add: bind_result_def)

lemma bind_result_Inr [simp]:
  "bind_result r f = Inr b \<longleftrightarrow> (\<exists>a. r = Inr a \<and> f a = Inr b)"
  by (cases r) auto

definition ensure :: "bool \<Rightarrow> 'e \<Rightarrow> 'e + unit" where
  "ensure b e = (if b then Inr () else Inl e)"

lemma ensure_Inr [simp]: "ensure b e = Inr u \<longleftrightarrow> b"
  by (simp add: ensure_def)

end
