(* ===== verification/Org_Tree.thy ===== *)
theory Org_Tree
  imports Prelude
begin

text \<open>
  The organization tree, \<^verbatim>\<open>packages/contracts/src/authz/organization.ts\<close>: rows that
  point at their parent, the index built from them, and the two walks the resolver uses.
  The walk upwards stops on a cycle; the walk downwards has no such guard, so it is a
  partial function whose \<open>None\<close> is "does not return". The last section shows that it
  returns exactly the rows below the start whenever no row is its own ancestor.
\<close>

section \<open>Rows and their index\<close>

record organization =
  org_id :: string
  org_name :: string
  org_parent :: "string option"

datatype org_error = Empty_org_id | Empty_org_name | Own_parent string

definition createOrganization :: "string \<Rightarrow> string \<Rightarrow> string option \<Rightarrow> org_error + organization" where
  "createOrganization oid name parentOrgId =
     (if blank oid then Inl Empty_org_id
      else if blank name then Inl Empty_org_name
      else if parentOrgId = Some oid then Inl (Own_parent oid)
      else Inr \<lparr>org_id = oid, org_name = name, org_parent = parentOrgId\<rparr>)"

definition by_id :: "organization list \<Rightarrow> (string, organization) js_map" where
  "by_id orgs = foldl (\<lambda>m org. AList.update (org_id org) org m) [] orgs"

definition add_child :: "(string, string list) js_map \<Rightarrow> organization \<Rightarrow> (string, string list) js_map" where
  "add_child m org = (case org_parent org of
     None \<Rightarrow> m
   | Some p \<Rightarrow> AList.update p ((case map_of m p of None \<Rightarrow> [] | Some siblings \<Rightarrow> siblings) @ [org_id org]) m)"

definition children_by_parent :: "organization list \<Rightarrow> (string, string list) js_map" where
  "children_by_parent orgs = map (\<lambda>(p, kids). (p, sort kids)) (foldl add_child [] orgs)"

record org_index =
  index_by_id :: "(string, organization) js_map"
  index_children :: "(string, string list) js_map"

definition indexOrganizations :: "organization list \<Rightarrow> org_index" where
  "indexOrganizations orgs = \<lparr>index_by_id = by_id orgs, index_children = children_by_parent orgs\<rparr>"

section \<open>Walking up\<close>

definition parent_row :: "(string, organization) js_map \<Rightarrow> organization \<Rightarrow> organization option" where
  "parent_row m org = (case org_parent org of None \<Rightarrow> None | Some p \<Rightarrow> map_of m p)"

text \<open>The loop carries \<open>seen\<close> (a set in insertion order) and the chain built so far.\<close>

definition unseen :: "(string, organization) js_map \<Rightarrow> string list \<Rightarrow> organization option \<Rightarrow> nat" where
  "unseen m seen current = (case current of None \<Rightarrow> 0
     | Some org \<Rightarrow> Suc (card (insert (org_id org) (org_id ` set (map snd m)) - set seen)))"

lemma parent_row_in: "parent_row m org = Some p \<Longrightarrow> p \<in> set (map snd m)"
  by (force simp: parent_row_def dest: map_of_SomeD split: option.splits)

lemma unseen_decreases:
  assumes "org_id org \<notin> set seen"
  shows "unseen m (org_id org # seen) (parent_row m org) < unseen m seen (Some org)"
proof (cases "parent_row m org")
  case (Some p)
  let ?ids = "org_id ` set (map snd m)"
  have "org_id p \<in> ?ids" using parent_row_in [OF Some] by simp
  then have "insert (org_id p) ?ids - set (org_id org # seen) \<subset> insert (org_id org) ?ids - set seen"
    using assms by auto
  with Some show ?thesis by (simp add: unseen_def psubset_card_mono)
qed (simp add: unseen_def)

function ancestor_loop :: "(string, organization) js_map \<Rightarrow> string list \<Rightarrow> string list \<Rightarrow> organization option \<Rightarrow> string list" where
  "ancestor_loop m seen chain None = chain"
| "ancestor_loop m seen chain (Some org) =
     (if org_id org \<in> set seen then chain
      else ancestor_loop m (org_id org # seen) (chain @ [org_id org]) (parent_row m org))"
  by pat_completeness auto
termination
  by (relation "measure (\<lambda>(m, seen, chain, current). unseen m seen current)")
    (simp_all add: unseen_decreases)

definition ancestorOrgIdsIncludingSelf :: "organization list \<Rightarrow> string \<Rightarrow> string list" where
  "ancestorOrgIdsIncludingSelf orgs orgId =
     (let m = index_by_id (indexOrganizations orgs) in ancestor_loop m [] [] (map_of m orgId))"

definition isSameOrDescendantOf :: "organization list \<Rightarrow> string \<Rightarrow> string \<Rightarrow> bool" where
  "isSameOrDescendantOf orgs descendantId ancestorId \<longleftrightarrow>
     ancestorId \<in> set (ancestorOrgIdsIncludingSelf orgs descendantId)"

section \<open>Walking down\<close>

text \<open>The JavaScript stack is kept here with its top first, so pushing the children in
  order puts the last one on top.\<close>

definition kids :: "(string, string list) js_map \<Rightarrow> string \<Rightarrow> string list" where
  "kids c p = (case map_of c p of None \<Rightarrow> [] | Some ks \<Rightarrow> ks)"

partial_function (option) descend_loop ::
    "(string, string list) js_map \<Rightarrow> string list \<Rightarrow> string list \<Rightarrow> string list option" where
  "descend_loop c stack out = (case stack of
     [] \<Rightarrow> Some out
   | current # rest \<Rightarrow> descend_loop c (rev (kids c current) @ rest) (out @ [current]))"

definition descendantOrgIdsIncludingSelf :: "organization list \<Rightarrow> string \<Rightarrow> string list option" where
  "descendantOrgIdsIncludingSelf orgs ancestorId =
     descend_loop (index_children (indexOrganizations orgs)) [ancestorId] []"

section \<open>The index is the rows\<close>

lemma by_id_snoc [simp]: "by_id (orgs @ [org]) = AList.update (org_id org) org (by_id orgs)"
  by (simp add: by_id_def)

lemma by_id_Nil [simp]: "by_id [] = []"
  by (simp add: by_id_def)

lemma keyed_by_id [simp]: "keyed (by_id orgs)"
  by (induction orgs rule: rev_induct) simp_all

lemma by_id_key: "map_of (by_id orgs) k = Some org \<Longrightarrow> org_id org = k \<and> org \<in> set orgs"
  by (induction orgs rule: rev_induct) (auto split: if_splits)

lemma by_id_distinct:
  "distinct (map org_id orgs) \<Longrightarrow> map_of (by_id orgs) k = Some org \<longleftrightarrow> org \<in> set orgs \<and> org_id org = k"
  by (induction orgs rule: rev_induct) (auto simp: image_iff)

lemma dom_by_id [simp]: "dom (map_of (by_id orgs)) = org_id ` set orgs"
  by (induction orgs rule: rev_induct) (simp_all add: dom_if, auto)

lemma map_of_map_snd: "map_of (map (\<lambda>(k, v). (k, f v)) m) k = map_option f (map_of m k)"
  by (induction m) auto

lemma kids_children:
  "kids (children_by_parent orgs) p = sort (kids (foldl add_child [] orgs) p)"
  by (simp add: kids_def children_by_parent_def map_of_map_snd split: option.splits)

lemma kids_add_child:
  "kids (add_child m org) p = kids m p @ (if org_parent org = Some p then [org_id org] else [])"
  by (auto simp: kids_def add_child_def split: option.splits)

lemma set_kids:
  "set (kids (children_by_parent orgs) p) = {org_id org | org. org \<in> set orgs \<and> org_parent org = Some p}"
proof -
  have "set (kids (foldl add_child [] orgs) p) = {org_id org | org. org \<in> set orgs \<and> org_parent org = Some p}"
    by (induction orgs rule: rev_induct) (auto simp: kids_add_child, auto simp: kids_def)
  then show ?thesis by (simp add: kids_children)
qed

text \<open>\<open>(p, c)\<close>: the row of \<open>c\<close> names \<open>p\<close> as its parent, whether or not \<open>p\<close> has a row.\<close>

definition parent_rel :: "(string, organization) js_map \<Rightarrow> (string \<times> string) set" where
  "parent_rel m = {(p, c). \<exists>org. map_of m c = Some org \<and> org_parent org = Some p}"

abbreviation tree_rel :: "organization list \<Rightarrow> (string \<times> string) set" where
  "tree_rel orgs \<equiv> parent_rel (by_id orgs)"

definition acyclic_tree :: "organization list \<Rightarrow> bool" where
  "acyclic_tree orgs \<longleftrightarrow> wf (tree_rel orgs)"

lemma parent_rel_unique: "(p, c) \<in> parent_rel m \<Longrightarrow> (q, c) \<in> parent_rel m \<Longrightarrow> p = q"
  by (auto simp: parent_rel_def)

lemma finite_parent_rel [simp]: "finite (parent_rel m)"
proof -
  have "parent_rel m \<subseteq> (\<lambda>(k, org). (the (org_parent org), k)) ` set m"
    by (auto simp: parent_rel_def image_iff dest!: map_of_SomeD) force
  then show ?thesis by (rule finite_subset) simp
qed

lemma kid_iff:
  "distinct (map org_id orgs) \<Longrightarrow> c \<in> set (kids (children_by_parent orgs) p) \<longleftrightarrow> (p, c) \<in> tree_rel orgs"
  by (auto simp: set_kids parent_rel_def by_id_distinct)

section \<open>What the walk up returns\<close>

definition self_keyed :: "(string, organization) js_map \<Rightarrow> bool" where
  "self_keyed m \<longleftrightarrow> (\<forall>k org. map_of m k = Some org \<longrightarrow> org_id org = k)"

lemma self_keyed_by_id [simp]: "self_keyed (by_id orgs)"
  by (auto simp: self_keyed_def dest: by_id_key)

text \<open>The loop invariant: every visited row's parent row is visited or current, the visited
  rows are those of the chain, and consecutive entries of the chain are child and parent.\<close>

definition walk_inv :: "(string, organization) js_map \<Rightarrow> string \<Rightarrow> string list \<Rightarrow> string list \<Rightarrow> organization option \<Rightarrow> bool" where
  "walk_inv m x seen chain current \<longleftrightarrow>
     set seen = set chain \<and> distinct chain
   \<and> (chain = [] \<longrightarrow> map_of m x = current) \<and> (chain \<noteq> [] \<longrightarrow> hd chain = x)
   \<and> successively (\<lambda>c p. (p, c) \<in> parent_rel m) chain
   \<and> set chain \<subseteq> dom (map_of m)
   \<and> (chain \<noteq> [] \<longrightarrow> (\<exists>org. map_of m (last chain) = Some org \<and> current = parent_row m org))"

lemma walk_inv_step:
  assumes m: "self_keyed m" and inv: "walk_inv m x seen chain (Some org)" and new: "org_id org \<notin> set seen"
  shows "walk_inv m x (org_id org # seen) (chain @ [org_id org]) (parent_row m org)"
proof -
  have row: "map_of m (org_id org) = Some org"
    using m inv by (auto simp: walk_inv_def self_keyed_def parent_row_def split: option.splits)
  have edge: "chain \<noteq> [] \<Longrightarrow> (org_id org, last chain) \<in> parent_rel m"
    using m inv by (auto simp: walk_inv_def self_keyed_def parent_row_def parent_rel_def split: option.splits)
  have start: "chain = [] \<Longrightarrow> org_id org = x"
    using m inv by (auto simp: walk_inv_def self_keyed_def)
  show ?thesis
    using inv new row edge start
    by (auto simp: walk_inv_def successively_append_iff hd_append)
qed

lemma ancestor_loop_inv:
  "self_keyed m \<Longrightarrow> walk_inv m x seen chain current \<Longrightarrow>
   (\<exists>seen' current'. walk_inv m x seen' (ancestor_loop m seen chain current) current'
      \<and> (\<forall>org. current' = Some org \<longrightarrow> org_id org \<in> set seen'))"
proof (induction m seen chain current rule: ancestor_loop.induct)
  case (2 m seen chain org)
  show ?case
  proof (cases "org_id org \<in> set seen")
    case True
    with "2.prems" show ?thesis by (auto intro!: exI [of _ seen] exI [of _ "Some org"])
  next
    case False
    with "2.IH" [OF False "2.prems"(1)] walk_inv_step [OF "2.prems" False] show ?thesis by simp
  qed
next
  case (1 m seen chain)
  then show ?case by (intro exI [of _ seen] exI [of _ None]) simp
qed

definition climbs :: "(string, organization) js_map \<Rightarrow> string \<Rightarrow> string list \<Rightarrow> bool" where
  "climbs m x chain \<longleftrightarrow>
     distinct chain \<and> (chain \<noteq> [] \<longrightarrow> hd chain = x)
   \<and> successively (\<lambda>c p. (p, c) \<in> parent_rel m) chain
   \<and> set chain = {a \<in> dom (map_of m). (a, x) \<in> (parent_rel m)\<^sup>*}"

lemma chain_reaches:
  "successively (\<lambda>c p. (p, c) \<in> r) chain \<Longrightarrow> a \<in> set chain \<Longrightarrow> (a, hd chain) \<in> r\<^sup>*"
proof (induction chain)
  case (Cons c cs)
  then show ?case
    by (cases cs) (auto intro: rtrancl_into_rtrancl)
qed simp

lemma climbs_if_closed:
  assumes inv: "walk_inv m x seen chain current" and m: "self_keyed m"
    and stop: "\<And>org. current = Some org \<Longrightarrow> org_id org \<in> set seen"
  shows "climbs m x chain"
proof -
  have sub: "set chain \<subseteq> {a \<in> dom (map_of m). (a, x) \<in> (parent_rel m)\<^sup>*}"
    using inv chain_reaches [of "parent_rel m" chain] by (fastforce simp: walk_inv_def)
  have closed: "p \<in> set chain" if "(p, c) \<in> parent_rel m" "c \<in> set chain" "p \<in> dom (map_of m)" for p c
  proof (cases "c = last chain")
    case True
    with that inv m stop show ?thesis
      by (fastforce simp: walk_inv_def parent_rel_def parent_row_def self_keyed_def)
  next
    case False
    with that(2) obtain i where i: "Suc i < length chain" "chain ! i = c"
      by (metis in_set_conv_nth last_conv_nth length_pos_if_in_set One_nat_def Suc_lessI Suc_pred diff_Suc_1 less_irrefl list.size(3))
    then have "(chain ! Suc i, c) \<in> parent_rel m"
      using inv by (auto simp: walk_inv_def successively_conv_nth)
    with that(1) i(1) show ?thesis using parent_rel_unique nth_mem by metis
  qed
  have "a \<in> set chain" if "(a, x) \<in> (parent_rel m)\<^sup>*" "a \<in> dom (map_of m)" for a
    using that
  proof (induction rule: converse_rtrancl_induct)
    case base
    with inv m stop show ?case
      by (cases chain) (auto simp: walk_inv_def self_keyed_def)
  next
    case (step p c)
    then have "c \<in> dom (map_of m)" by (auto simp: parent_rel_def)
    with step show ?case by (blast intro: closed)
  qed
  with sub inv show ?thesis by (auto simp: climbs_def walk_inv_def)
qed

lemma ancestors_climb: "climbs (by_id orgs) x (ancestorOrgIdsIncludingSelf orgs x)"
proof -
  have "walk_inv (by_id orgs) x [] [] (map_of (by_id orgs) x)" by (simp add: walk_inv_def)
  from ancestor_loop_inv [OF self_keyed_by_id this] show ?thesis
    by (auto simp: ancestorOrgIdsIncludingSelf_def indexOrganizations_def Let_def intro: climbs_if_closed)
qed

lemma set_ancestors:
  "set (ancestorOrgIdsIncludingSelf orgs x) = {a \<in> org_id ` set orgs. (a, x) \<in> (tree_rel orgs)\<^sup>*}"
  using ancestors_climb [of orgs x] by (simp add: climbs_def)

lemma distinct_ancestors [simp]: "distinct (ancestorOrgIdsIncludingSelf orgs x)"
  using ancestors_climb [of orgs x] by (simp add: climbs_def)

lemma ancestors_self: "x \<in> org_id ` set orgs \<Longrightarrow> x \<in> set (ancestorOrgIdsIncludingSelf orgs x)"
  by (simp add: set_ancestors)

lemma ancestors_hd: "x \<in> org_id ` set orgs \<Longrightarrow> hd (ancestorOrgIdsIncludingSelf orgs x) = x"
  using ancestors_climb [of orgs x] ancestors_self [of x orgs] by (auto simp: climbs_def)

section \<open>What the walk down returns\<close>

definition kid_rel :: "(string, string list) js_map \<Rightarrow> (string \<times> string) set" where
  "kid_rel c = {(p, k). k \<in> set (kids c p)}"

text \<open>The subtree below \<open>x\<close> as the loop emits it, whatever is under it on the stack.\<close>

definition emits :: "(string, string list) js_map \<Rightarrow> string list \<Rightarrow> string list \<Rightarrow> bool" where
  "emits c xs out \<longleftrightarrow> (\<forall>rest acc. descend_loop c (xs @ rest) acc = descend_loop c rest (acc @ out))
     \<and> set out = (kid_rel c)\<^sup>* `` set xs"

lemma emits_Nil: "emits c [] []"
  by (simp add: emits_def)

lemma emits_append: "emits c xs u \<Longrightarrow> emits c ys v \<Longrightarrow> emits c (xs @ ys) (u @ v)"
  by (auto simp: emits_def)

lemma emits_list:
  "(\<And>x. x \<in> set xs \<Longrightarrow> \<exists>out. emits c [x] out) \<Longrightarrow> \<exists>out. emits c xs out"
proof (induction xs)
  case (Cons x xs)
  then obtain u v where "emits c [x] u" "emits c xs v" by fastforce
  from emits_append [OF this] show ?case by auto
qed (auto intro: emits_Nil)

lemma emits_node:
  assumes "x \<in> Wellfounded.acc ((kid_rel c)\<inverse>)"
  shows "\<exists>out. emits c [x] out"
  using assms
proof (induction rule: acc_induct_rule)
  case (1 x)
  have "\<exists>out. emits c (rev (kids c x)) out"
    by (rule emits_list) (use "1"(2) in \<open>auto simp: kid_rel_def\<close>)
  then obtain out where out: "emits c (rev (kids c x)) out" by blast
  have "(kid_rel c)\<^sup>* `` {x} = insert x ((kid_rel c)\<^sup>* `` set (kids c x))"
    by (auto simp: kid_rel_def elim: converse_rtranclE intro: converse_rtrancl_into_rtrancl)
  with out have "emits c [x] (x # out)"
    by (auto simp: emits_def descend_loop.simps [of _ "x # _"])
  then show ?case ..
qed

lemma descend_returns:
  assumes "x \<in> Wellfounded.acc ((kid_rel c)\<inverse>)"
  shows "\<exists>out. descend_loop c [x] [] = Some out \<and> set out = (kid_rel c)\<^sup>* `` {x}"
proof -
  from emits_node [OF assms] obtain out where "emits c [x] out" by blast
  then have "descend_loop c ([x] @ []) [] = descend_loop c [] ([] @ out)" and "set out = (kid_rel c)\<^sup>* `` {x}"
    unfolding emits_def by (blast, simp)
  then show ?thesis by (simp add: descend_loop.simps)
qed

lemma descend_only_if:
  assumes ret: "descend_loop c stack out = Some r"
  shows "set stack \<subseteq> Wellfounded.acc ((kid_rel c)\<inverse>)"
proof (rule descend_loop.raw_induct [where P = "\<lambda>c stack out r. set stack \<subseteq> Wellfounded.acc ((kid_rel c)\<inverse>)", OF _ ret])
  fix loop c stack out r
  assume IH: "\<And>c stack out r. loop c stack out = Some r \<Longrightarrow> set stack \<subseteq> Wellfounded.acc ((kid_rel c)\<inverse>)"
    and eq: "(case stack of [] \<Rightarrow> Some out
        | current # rest \<Rightarrow> loop c (rev (kids c current) @ rest) (out @ [current])) = Some r"
  show "set stack \<subseteq> Wellfounded.acc ((kid_rel c)\<inverse>)"
  proof (cases stack)
    case (Cons current rest)
    with eq IH have "set (kids c current) \<union> set rest \<subseteq> Wellfounded.acc ((kid_rel c)\<inverse>)" by force
    with Cons show ?thesis by (auto simp: kid_rel_def intro: acc.intros)
  qed simp
qed

lemma descend_returns_iff:
  "(\<exists>out. descend_loop c [x] [] = Some out) \<longleftrightarrow> x \<in> Wellfounded.acc ((kid_rel c)\<inverse>)"
  using descend_returns descend_only_if [of c "[x]" "[]"] by fastforce

lemma cycle_not_acc: "x \<in> Wellfounded.acc r \<Longrightarrow> (x, x) \<notin> r\<^sup>+"
proof (induction rule: acc_induct_rule)
  case (1 x)
  show ?case
  proof
    assume "(x, x) \<in> r\<^sup>+"
    then obtain y where y: "(y, x) \<in> r" "(x, y) \<in> r\<^sup>*" by (auto dest: tranclD2)
    then have "(y, y) \<in> r\<^sup>+" by auto
    with "1"(2) [OF y(1)] show False ..
  qed
qed

lemma kid_rel_children:
  "distinct (map org_id orgs) \<Longrightarrow> kid_rel (children_by_parent orgs) = tree_rel orgs"
  by (auto simp: kid_rel_def kid_iff)

lemma acyclic_tree_acc: "acyclic_tree orgs \<Longrightarrow> x \<in> Wellfounded.acc ((tree_rel orgs)\<inverse>)"
  by (simp add: acyclic_tree_def acc_wfD finite_acyclic_wf_converse wf_acyclic)

text \<open>On rows with distinct ids and no cycle the walk down returns, and it returns the row
  itself and every row below it.\<close>

lemma descendants_return:
  assumes "acyclic_tree orgs" and "distinct (map org_id orgs)"
  shows "\<exists>out. descendantOrgIdsIncludingSelf orgs x = Some out \<and> set out = {y. (x, y) \<in> (tree_rel orgs)\<^sup>*}"
  using descend_returns [of x "children_by_parent orgs"] assms
  by (auto simp: kid_rel_children acyclic_tree_acc descendantOrgIdsIncludingSelf_def indexOrganizations_def)

text \<open>The three rows of the examples: a root, its sub-company and the sub-company's branch.\<close>

definition sample_orgs :: "organization list" where
  "sample_orgs = [\<lparr>org_id = ''hq'', org_name = ''HQ'', org_parent = None\<rparr>,
     \<lparr>org_id = ''kw'', org_name = ''Kuwait'', org_parent = Some ''hq''\<rparr>,
     \<lparr>org_id = ''shop'', org_name = ''Shop'', org_parent = Some ''kw''\<rparr>]"

lemma distinct_sample [simp]: "distinct (map org_id sample_orgs)"
  by (simp add: sample_orgs_def)

lemma acyclic_sample [simp]: "acyclic_tree sample_orgs"
proof -
  have "tree_rel sample_orgs \<subseteq> measure (\<lambda>k. if k = ''hq'' then 0 else if k = ''kw'' then 1 else 2)"
    by (auto simp: parent_rel_def sample_orgs_def by_id_def split: if_splits)
  then show ?thesis unfolding acyclic_tree_def by (rule wf_subset [OF wf_measure])
qed

section \<open>Properties\<close>

text \<open>The ancestor chain of a known organization is its parent path: it starts at the
  organization, each entry is followed by its own parent, no entry repeats (also when the
  rows form a cycle), and it holds exactly the known organizations at or above the start.\<close>

theorem ancestor_chain_is_parent_path:
  assumes "x \<in> org_id ` set orgs"
  shows "hd (ancestorOrgIdsIncludingSelf orgs x) = x
    \<and> distinct (ancestorOrgIdsIncludingSelf orgs x)
    \<and> successively (\<lambda>c p. (p, c) \<in> tree_rel orgs) (ancestorOrgIdsIncludingSelf orgs x)
    \<and> set (ancestorOrgIdsIncludingSelf orgs x) = {a \<in> org_id ` set orgs. (a, x) \<in> (tree_rel orgs)\<^sup>*}"
  using ancestors_climb [of orgs x] assms by (simp add: ancestors_hd set_ancestors climbs_def)

theorem ancestor_chain_is_parent_path_witness:
  "hd (ancestorOrgIdsIncludingSelf sample_orgs ''shop'') = ''shop''
   \<and> ancestorOrgIdsIncludingSelf sample_orgs ''shop'' = [''shop'', ''kw'', ''hq'']"
proof -
  have "''shop'' \<in> org_id ` set sample_orgs" by (simp add: sample_orgs_def)
  from ancestor_chain_is_parent_path [OF this]
  have "hd (ancestorOrgIdsIncludingSelf sample_orgs ''shop'') = ''shop''" by simp
  moreover have "ancestorOrgIdsIncludingSelf sample_orgs ''shop'' = [''shop'', ''kw'', ''hq'']"
    by (simp add: ancestorOrgIdsIncludingSelf_def indexOrganizations_def by_id_def sample_orgs_def
        parent_row_def)
  ultimately show ?thesis by simp
qed

text \<open>C36. The walk down returns exactly when the walk below the start is well-founded, so it
  returns for every start in an acyclic tree, and it never returns from a row that is its
  own ancestor (rows with distinct ids).\<close>

theorem descendant_walk_returns_iff:
  assumes "distinct (map org_id orgs)"
  shows "((\<exists>out. descendantOrgIdsIncludingSelf orgs x = Some out) \<longleftrightarrow> x \<in> Wellfounded.acc ((tree_rel orgs)\<inverse>))
    \<and> ((x, x) \<in> (tree_rel orgs)\<^sup>+ \<longrightarrow> descendantOrgIdsIncludingSelf orgs x = None)"
proof -
  have *: "(\<exists>out. descendantOrgIdsIncludingSelf orgs x = Some out) \<longleftrightarrow> x \<in> Wellfounded.acc ((tree_rel orgs)\<inverse>)"
    using assms descend_returns_iff [of "children_by_parent orgs" x]
    by (simp add: descendantOrgIdsIncludingSelf_def indexOrganizations_def kid_rel_children)
  have "(x, x) \<in> (tree_rel orgs)\<^sup>+ \<Longrightarrow> x \<notin> Wellfounded.acc ((tree_rel orgs)\<inverse>)"
    using cycle_not_acc [of x "(tree_rel orgs)\<inverse>"] by (auto simp: trancl_converse)
  with * show ?thesis by auto
qed

theorem descendant_walk_returns_iff_witness:
  "\<not> (\<exists>out. descendantOrgIdsIncludingSelf
      [\<lparr>org_id = ''a'', org_name = ''A'', org_parent = Some ''b''\<rparr>,
       \<lparr>org_id = ''b'', org_name = ''B'', org_parent = Some ''a''\<rparr>] ''a'' = Some out)"
proof -
  let ?orgs = "[\<lparr>org_id = ''a'', org_name = ''A'', org_parent = Some ''b''\<rparr>,
       \<lparr>org_id = ''b'', org_name = ''B'', org_parent = Some ''a''\<rparr>]"
  have "(''a'', ''b'') \<in> tree_rel ?orgs" "(''b'', ''a'') \<in> tree_rel ?orgs"
    by (simp_all add: parent_rel_def by_id_def)
  then have "(''a'', ''a'') \<in> (tree_rel ?orgs)\<^sup>+" by (rule trancl.trancl_into_trancl [OF trancl.r_into_trancl])
  then show ?thesis using descendant_walk_returns_iff [of ?orgs "''a''"] by simp
qed

text \<open>The two walks agree: in an acyclic tree the rows the walk down returns from \<open>a\<close> are
  the rows whose ancestor chain holds \<open>a\<close>, the test \<open>isSameOrDescendantOf\<close> makes.\<close>

theorem walks_agree:
  assumes "acyclic_tree orgs" "distinct (map org_id orgs)"
    and "a \<in> org_id ` set orgs" "y \<in> org_id ` set orgs"
  shows "\<exists>out. descendantOrgIdsIncludingSelf orgs a = Some out
     \<and> (y \<in> set out \<longleftrightarrow> isSameOrDescendantOf orgs y a)"
  using descendants_return [OF assms(1,2), of a] assms(3,4)
  by (auto simp: isSameOrDescendantOf_def set_ancestors)

theorem walks_agree_witness:
  "\<exists>out. descendantOrgIdsIncludingSelf sample_orgs ''hq'' = Some out
     \<and> (''shop'' \<in> set out \<longleftrightarrow> isSameOrDescendantOf sample_orgs ''shop'' ''hq'')"
  by (rule walks_agree) (simp_all add: sample_orgs_def [symmetric], simp_all add: sample_orgs_def)

end
