(* ===== verification/Authz_Store.thy ===== *)
theory Authz_Store
  imports Org_Tree
begin

text \<open>
  Roles, principals, grants and the reference store that holds them:
  \<^verbatim>\<open>roles.ts\<close>, \<^verbatim>\<open>principal.ts\<close>, \<^verbatim>\<open>grants.ts\<close> and \<^verbatim>\<open>store.ts\<close>
  of \<^verbatim>\<open>packages/contracts/src/authz\<close>. The class \<open>InMemoryAuthzStore\<close> is a record
  of its private fields and every method is a function on it. \<open>grantMany\<close> writes through the
  stored array, so its model returns the new state also when it raises.
\<close>

section \<open>Roles and scopes\<close>

datatype role = Candidate | Staff | Admin | Org_owner | Recruiter | Finance

definition ROLES :: "role list" where
  "ROLES = [Candidate, Staff, Admin, Org_owner, Recruiter, Finance]"

fun role_text :: "role \<Rightarrow> string" where
  "role_text Candidate = ''candidate''"
| "role_text Staff = ''staff''"
| "role_text Admin = ''admin''"
| "role_text Org_owner = ''org-owner''"
| "role_text Recruiter = ''recruiter''"
| "role_text Finance = ''finance''"

text \<open>\<open>isRole\<close> together with the cast it licenses.\<close>

definition role_of :: "string \<Rightarrow> role option" where
  "role_of s = find (\<lambda>r. role_text r = s) ROLES"

lemma set_ROLES [simp]: "set ROLES = UNIV"
proof -
  have "r \<in> set ROLES" for r by (cases r) (simp_all add: ROLES_def)
  then show ?thesis by auto
qed

lemma role_text_inject [simp]: "role_text r = role_text r' \<longleftrightarrow> r = r'"
  by (cases r; cases r') simp_all

lemma role_of_text [simp]: "role_of (role_text r) = Some r"
  by (cases r) (simp_all add: role_of_def ROLES_def)

lemma role_of_Some: "role_of s = Some r \<longleftrightarrow> s = role_text r"
proof
  assume "role_of s = Some r"
  then show "s = role_text r" using find_SomeD [of "\<lambda>r. role_text r = s" ROLES r] by (simp add: role_of_def)
qed simp

lemma role_text_no_nul [simp]: "CHR 0x00 \<notin> set (role_text r)"
  by (cases r) simp_all

datatype grant_scope = Self | Subtree

definition scope_of :: "string \<Rightarrow> grant_scope option" where
  "scope_of s = (if s = ''self'' then Some Self else if s = ''subtree'' then Some Subtree else None)"

section \<open>Principals\<close>

record principal =
  pr_id :: string
  pr_pbuuids :: "string list"
  pr_display_name :: "string option"
  pr_email :: "string option"

datatype principal_error = Empty_principal_id | Empty_pbuuid

definition createPrincipal :: "string \<Rightarrow> string list option \<Rightarrow> string option \<Rightarrow> string option \<Rightarrow> principal_error + principal" where
  "createPrincipal pid input_pbuuids displayName email =
     (let pbuuids = js_unique (case input_pbuuids of None \<Rightarrow> [] | Some ps \<Rightarrow> ps)
      in if blank pid then Inl Empty_principal_id
         else if \<exists>p \<in> set pbuuids. blank p then Inl Empty_pbuuid
         else Inr \<lparr>pr_id = pid, pr_pbuuids = pbuuids, pr_display_name = displayName, pr_email = email\<rparr>)"

definition principalHasPbuuid :: "principal \<Rightarrow> string \<Rightarrow> bool" where
  "principalHasPbuuid p pbuuid \<longleftrightarrow> pbuuid \<in> set (pr_pbuuids p)"

section \<open>Grants\<close>

record role_grant =
  g_id :: string
  g_principal :: string
  g_org :: string
  g_role :: role
  g_scope :: grant_scope

record grant_entry =
  e_org :: string
  e_role :: string
  e_scope :: "string option"

record revoke_entry =
  v_org :: string
  v_role :: string

datatype grant_error = Empty_grant_org | Bad_grant_role string | Bad_grant_scope string

definition normalizeGrantEntry :: "grant_entry \<Rightarrow> grant_error + (string \<times> role \<times> grant_scope)" where
  "normalizeGrantEntry entry =
     (let orgId = js_trim (e_org entry)
      in if orgId = [] then Inl Empty_grant_org
         else case role_of (e_role entry) of
           None \<Rightarrow> Inl (Bad_grant_role (e_role entry))
         | Some role \<Rightarrow>
             (case e_scope entry of
                None \<Rightarrow> Inr (orgId, role, Self)
              | Some s \<Rightarrow>
                  (case scope_of s of
                     None \<Rightarrow> Inl (Bad_grant_scope s)
                   | Some scope \<Rightarrow> Inr (orgId, role, scope))))"

definition grant_key :: "string \<Rightarrow> string \<Rightarrow> string" where
  "grant_key orgId role = orgId @ CHR 0x00 # role"

definition row_key :: "role_grant \<Rightarrow> string" where
  "row_key row = grant_key (g_org row) (role_text (g_role row))"

lemma grant_key_role [simp]:
  "grant_key o1 (role_text r1) = grant_key o2 (role_text r2) \<longleftrightarrow> o1 = o2 \<and> r1 = r2"
  by (simp add: grant_key_def sep_inject_right)

section \<open>The store\<close>

record authz_state =
  st_organizations :: "(string, organization) js_map"
  st_principals :: "(string, principal) js_map"
  st_pbuuid_index :: "(string, string) js_map"
  st_grants :: "(string, role_grant list) js_map"
  st_next_grant :: nat

definition empty_authz :: authz_state where
  "empty_authz = \<lparr>st_organizations = [], st_principals = [], st_pbuuid_index = [], st_grants = [], st_next_grant = 1\<rparr>"

datatype store_error = Org_cycle string | Pbuuid_owned string string string

function cycle_loop :: "(string, organization) js_map \<Rightarrow> string list \<Rightarrow> organization option \<Rightarrow> store_error + unit" where
  "cycle_loop m seen None = Inr ()"
| "cycle_loop m seen (Some org) =
     (if org_id org \<in> set seen then Inl (Org_cycle (org_id org))
      else cycle_loop m (org_id org # seen) (parent_row m org))"
  by pat_completeness auto
termination
  by (relation "measure (\<lambda>(m, seen, current). unseen m seen current)") (simp_all add: unseen_decreases)

definition assertNoCycles :: "string \<Rightarrow> organization list \<Rightarrow> store_error + unit" where
  "assertNoCycles startId orgs = (let m = by_id orgs in cycle_loop m [] (map_of m startId))"

text \<open>A pbuuid of the principal that another principal owns: the first one, as the loop meets them.\<close>

definition owned_elsewhere :: "(string, string) js_map \<Rightarrow> string \<Rightarrow> string \<Rightarrow> bool" where
  "owned_elsewhere idx pid pbuuid = (case map_of idx pbuuid of None \<Rightarrow> False | Some owner \<Rightarrow> owner \<noteq> pid)"

definition registerPrincipal :: "authz_state \<Rightarrow> principal \<Rightarrow> store_error + authz_state" where
  "registerPrincipal st p =
     (case find (owned_elsewhere (st_pbuuid_index st) (pr_id p)) (pr_pbuuids p) of
        Some pbuuid \<Rightarrow> Inl (Pbuuid_owned pbuuid (the (map_of (st_pbuuid_index st) pbuuid)) (pr_id p))
      | None \<Rightarrow>
          (let detached = filter (\<lambda>(pbuuid, owner). owner \<noteq> pr_id p) (st_pbuuid_index st)
           in Inr (st\<lparr>st_principals := AList.update (pr_id p) p (st_principals st),
                     st_pbuuid_index := foldl (\<lambda>idx pbuuid. AList.update pbuuid (pr_id p) idx) detached (pr_pbuuids p)\<rparr>)))"

definition listOrganizations :: "authz_state \<Rightarrow> organization list" where
  "listOrganizations st = map snd (st_organizations st)"

definition getOrganization :: "authz_state \<Rightarrow> string \<Rightarrow> organization option" where
  "getOrganization st orgId = map_of (st_organizations st) orgId"

definition upsertOrganization :: "authz_state \<Rightarrow> organization \<Rightarrow> store_error + authz_state" where
  "upsertOrganization st org =
     (let siblings = filter (\<lambda>o'. org_id o' \<noteq> org_id org) (listOrganizations st)
      in bind_result (assertNoCycles (org_id org) (siblings @ [org]))
           (\<lambda>_. Inr (st\<lparr>st_organizations := AList.update (org_id org) org (st_organizations st)\<rparr>)))"

fun seed_organizations :: "organization list \<Rightarrow> organization list \<Rightarrow> authz_state \<Rightarrow> store_error + authz_state" where
  "seed_organizations all_orgs [] st = Inr st"
| "seed_organizations all_orgs (org # orgs) st =
     bind_result (assertNoCycles (org_id org) all_orgs)
       (\<lambda>_. seed_organizations all_orgs orgs (st\<lparr>st_organizations := AList.update (org_id org) org (st_organizations st)\<rparr>))"

fun seed_principals :: "principal list \<Rightarrow> authz_state \<Rightarrow> store_error + authz_state" where
  "seed_principals [] st = Inr st"
| "seed_principals (p # ps) st = bind_result (registerPrincipal st p) (seed_principals ps)"

definition newInMemoryAuthzStore :: "organization list \<Rightarrow> principal list \<Rightarrow> store_error + authz_state" where
  "newInMemoryAuthzStore orgs ps =
     bind_result (seed_organizations orgs orgs empty_authz) (seed_principals ps)"

definition listPrincipals :: "authz_state \<Rightarrow> principal list" where
  "listPrincipals st = map snd (st_principals st)"

definition getPrincipal :: "authz_state \<Rightarrow> string \<Rightarrow> principal option" where
  "getPrincipal st pid = map_of (st_principals st) pid"

definition findPrincipalByPbuuid :: "authz_state \<Rightarrow> string \<Rightarrow> principal option" where
  "findPrincipalByPbuuid st pbuuid =
     (case map_of (st_pbuuid_index st) pbuuid of None \<Rightarrow> None | Some pid \<Rightarrow> map_of (st_principals st) pid)"

definition listGrantsForPrincipal :: "authz_state \<Rightarrow> string \<Rightarrow> role_grant list" where
  "listGrantsForPrincipal st pid = (case map_of (st_grants st) pid of None \<Rightarrow> [] | Some rows \<Rightarrow> rows)"

text \<open>\<open>rows[rows.indexOf(existing)] = upgraded\<close>; where the row is absent the assignment is to
  index -1, which no read of the array sees.\<close>

fun replace_first :: "'a \<Rightarrow> 'a \<Rightarrow> 'a list \<Rightarrow> 'a list" where
  "replace_first x y [] = []"
| "replace_first x y (z # zs) = (if z = x then y # zs else z # replace_first x y zs)"

text \<open>The loop of \<open>grantMany\<close>: the rows, the next grant id, and the error that stopped it.\<close>

fun grant_loop :: "string \<Rightarrow> role_grant list \<Rightarrow> (string, role_grant) js_map \<Rightarrow> nat \<Rightarrow> grant_entry list
    \<Rightarrow> role_grant list \<times> nat \<times> grant_error option" where
  "grant_loop pid rows keys n [] = (rows, n, None)"
| "grant_loop pid rows keys n (raw # entries) =
     (case normalizeGrantEntry raw of
        Inl err \<Rightarrow> (rows, n, Some err)
      | Inr (orgId, role, scope) \<Rightarrow>
          (let key = grant_key orgId (role_text role)
           in case map_of keys key of
                Some existing \<Rightarrow>
                  (if scope = Subtree \<and> g_scope existing \<noteq> Subtree
                   then let upgraded = existing\<lparr>g_scope := Subtree\<rparr>
                        in grant_loop pid (replace_first existing upgraded rows) (AList.update key upgraded keys) n entries
                   else grant_loop pid rows keys n entries)
              | None \<Rightarrow>
                  (let row = \<lparr>g_id = ''grant-'' @ show_nat n, g_principal = pid, g_org = orgId, g_role = role, g_scope = scope\<rparr>
                   in grant_loop pid (rows @ [row]) (AList.update key row keys) (Suc n) entries)))"

definition keys_of_rows :: "role_grant list \<Rightarrow> (string, role_grant) js_map" where
  "keys_of_rows rows = foldl (\<lambda>m row. AList.update (row_key row) row m) [] rows"

text \<open>The loop mutates the array the map already holds, so a raise keeps what was written to it;
  a principal without rows has a fresh array, which a raise drops. The id counter has moved
  in both cases.\<close>

definition grantMany :: "authz_state \<Rightarrow> string \<Rightarrow> grant_entry list \<Rightarrow> authz_state \<times> (grant_error + unit)" where
  "grantMany st pid entries =
     (let rows = listGrantsForPrincipal st pid;
          (rows', n', err) = grant_loop pid rows (keys_of_rows rows) (st_next_grant st) entries
      in case err of
           None \<Rightarrow> (st\<lparr>st_grants := AList.update pid rows' (st_grants st), st_next_grant := n'\<rparr>, Inr ())
         | Some e \<Rightarrow>
             (st\<lparr>st_grants := (if map_of (st_grants st) pid = None then st_grants st
                             else AList.update pid rows' (st_grants st)),
                st_next_grant := n'\<rparr>, Inl e))"

definition revoke_keys :: "revoke_entry list \<Rightarrow> string set" where
  "revoke_keys entries = (\<lambda>e. grant_key (v_org e) (v_role e)) ` set entries"

definition revokeMany :: "authz_state \<Rightarrow> string \<Rightarrow> revoke_entry list \<Rightarrow> authz_state" where
  "revokeMany st pid entries =
     (case map_of (st_grants st) pid of
        None \<Rightarrow> st
      | Some rows \<Rightarrow>
          (let remaining = filter (\<lambda>row. row_key row \<notin> revoke_keys entries) rows
           in st\<lparr>st_grants := (if remaining = [] then AList.delete pid (st_grants st)
                             else AList.update pid remaining (st_grants st))\<rparr>))"

definition clearGrantsForPrincipal :: "authz_state \<Rightarrow> string \<Rightarrow> authz_state" where
  "clearGrantsForPrincipal st pid = st\<lparr>st_grants := AList.delete pid (st_grants st)\<rparr>"

section \<open>The organization rows stay acyclic\<close>

definition orgs_ok :: "authz_state \<Rightarrow> bool" where
  "orgs_ok st \<longleftrightarrow> keyed (st_organizations st) \<and> self_keyed (st_organizations st) \<and> wf (parent_rel (st_organizations st))"

lemma parent_rel_cong: "map_of m = map_of m' \<Longrightarrow> parent_rel m = parent_rel m'"
  by (simp add: parent_rel_def)

lemma ids_of_values: "keyed m \<Longrightarrow> self_keyed m \<Longrightarrow> map org_id (map snd m) = map fst m"
  by (auto simp: self_keyed_def map_of_eq_Some_iff)

lemma by_id_values:
  assumes "keyed m" "self_keyed m"
  shows "map_of (by_id (map snd m)) = map_of m"
proof
  fix k
  have "distinct (map org_id (map snd m))" using assms by (simp only: ids_of_values)
  then have "map_of (by_id (map snd m)) k = Some org \<longleftrightarrow> map_of m k = Some org" for org
    using assms by (simp add: by_id_distinct) (force simp: self_keyed_def map_of_eq_Some_iff)
  then show "map_of (by_id (map snd m)) k = map_of m k" by (metis not_Some_eq)
qed

lemma acc_if_no_row: "map_of m k = None \<Longrightarrow> k \<in> Wellfounded.acc (parent_rel m)"
  by (rule acc.intros) (simp add: parent_rel_def)

lemma cycle_loop_acc:
  "self_keyed m \<Longrightarrow> cycle_loop m seen current = Inr () \<Longrightarrow> current = Some org \<Longrightarrow>
   map_of m (org_id org) = Some org \<Longrightarrow> org_id org \<in> Wellfounded.acc (parent_rel m)"
proof (induction m seen current arbitrary: org rule: cycle_loop.induct)
  case (2 m seen row)
  show ?case
  proof (rule acc.intros)
    fix p assume "(p, org_id org) \<in> parent_rel m"
    with "2.prems"(4) have p: "org_parent org = Some p" by (auto simp: parent_rel_def)
    show "p \<in> Wellfounded.acc (parent_rel m)"
    proof (cases "map_of m p")
      case None
      then show ?thesis by (rule acc_if_no_row)
    next
      case (Some prow)
      with "2.prems"(1,3) p have "org_id prow = p" "parent_row m row = Some prow"
        by (simp_all add: self_keyed_def parent_row_def)
      have go: "org_id row \<notin> set seen" "cycle_loop m (org_id row # seen) (parent_row m row) = Inr ()"
        using "2.prems"(2) by (simp_all split: if_splits)
      have "map_of m (org_id prow) = Some prow" using Some \<open>org_id prow = p\<close> by simp
      from "2.IH" [OF go(1) "2.prems"(1) go(2) \<open>parent_row m row = Some prow\<close> this] \<open>org_id prow = p\<close>
      show ?thesis by simp
    qed
  qed
qed simp

lemma assertNoCycles_acc:
  assumes "assertNoCycles k orgs = Inr ()"
  shows "k \<in> Wellfounded.acc (tree_rel orgs)"
proof (cases "map_of (by_id orgs) k")
  case (Some org)
  then have k: "org_id org = k" using by_id_key by blast
  have "cycle_loop (by_id orgs) [] (Some org) = Inr ()" using assms Some by (simp only: assertNoCycles_def Let_def)
  from cycle_loop_acc [OF self_keyed_by_id this refl] Some show ?thesis by (simp only: k)
qed (rule acc_if_no_row)

lemma wf_parent_rel_update:
  assumes wf: "wf (parent_rel m)" and m': "map_of m' = (map_of m)(k \<mapsto> org)"
    and k: "k \<in> Wellfounded.acc (parent_rel m')"
  shows "wf (parent_rel m')"
proof (rule acc_wfI, rule allI)
  fix x show "x \<in> Wellfounded.acc (parent_rel m')"
    using wf
  proof (induction x rule: wf_induct_rule)
    case (less x)
    show ?case
    proof (cases "x = k")
      case False
      then have "(p, x) \<in> parent_rel m' \<Longrightarrow> (p, x) \<in> parent_rel m" for p
        by (simp add: parent_rel_def m')
      with less show ?thesis by (blast intro: acc.intros)
    qed (simp add: k)
  qed
qed

lemma upsert_rows:
  assumes ok: "keyed m" "self_keyed m"
  shows "map_of (by_id (filter (\<lambda>o'. org_id o' \<noteq> org_id org) (map snd m) @ [org])) = (map_of m)(org_id org \<mapsto> org)"
proof -
  let ?m = "filter (\<lambda>(k, _). k \<noteq> org_id org) m"
  have eq: "filter (\<lambda>o'. org_id o' \<noteq> org_id org) (map snd m) = map snd ?m"
  proof -
    have "\<forall>(k, org) \<in> set m. org_id org = k" using ok by (auto simp: self_keyed_def map_of_eq_Some_iff)
    then show ?thesis by (induction m) auto
  qed
  have "keyed ?m" "self_keyed ?m" using ok by (auto simp: self_keyed_def map_of_filter split: option.splits if_splits)
  from by_id_values [OF this] show ?thesis
    unfolding eq by_id_snoc using ok by (auto simp: fun_eq_iff map_of_filter split: option.splits)
qed

lemma upsert_orgs_ok:
  assumes ok: "orgs_ok st" and up: "upsertOrganization st org = Inr st'"
  shows "orgs_ok st'"
proof -
  let ?m = "st_organizations st"
  let ?orgs = "filter (\<lambda>o'. org_id o' \<noteq> org_id org) (map snd ?m) @ [org]"
  from up have no: "assertNoCycles (org_id org) ?orgs = Inr ()"
    and st': "st' = st\<lparr>st_organizations := AList.update (org_id org) org ?m\<rparr>"
    by (auto simp: upsertOrganization_def listOrganizations_def)
  have rows: "map_of (by_id ?orgs) = map_of (st_organizations st')"
    using ok upsert_rows [of ?m org] by (simp add: st' orgs_ok_def del: by_id_snoc)
  have "wf (parent_rel (st_organizations st'))"
  proof (rule wf_parent_rel_update)
    show "wf (parent_rel ?m)" using ok by (simp add: orgs_ok_def)
    show "map_of (st_organizations st') = (map_of ?m)(org_id org \<mapsto> org)" by (simp add: st')
    show "org_id org \<in> Wellfounded.acc (parent_rel (st_organizations st'))"
      using assertNoCycles_acc [OF no] by (simp only: parent_rel_cong [OF rows])
  qed
  with ok show ?thesis by (auto simp: orgs_ok_def st' self_keyed_def)
qed

lemma seed_organizations_rows:
  "seed_organizations all_orgs orgs st = Inr st' \<Longrightarrow>
   st' = st\<lparr>st_organizations := foldl (\<lambda>m org. AList.update (org_id org) org m) (st_organizations st) orgs\<rparr>
   \<and> (\<forall>org \<in> set orgs. assertNoCycles (org_id org) all_orgs = Inr ())"
  by (induction all_orgs orgs st rule: seed_organizations.induct) auto

lemma seed_organizations_ok:
  assumes "seed_organizations orgs orgs empty_authz = Inr st"
  shows "orgs_ok st"
proof -
  note seeded = seed_organizations_rows [OF assms]
  from seeded have st: "st_organizations st = by_id orgs" by (simp add: by_id_def empty_authz_def)
  from seeded have no: "\<And>org. org \<in> set orgs \<Longrightarrow> org_id org \<in> Wellfounded.acc (tree_rel orgs)"
    by (blast dest: assertNoCycles_acc)
  have "wf (tree_rel orgs)"
  proof (rule acc_wfI, rule allI)
    fix k show "k \<in> Wellfounded.acc (tree_rel orgs)"
      by (cases "map_of (by_id orgs) k") (auto intro: acc_if_no_row dest: by_id_key no)
  qed
  then show ?thesis by (simp add: orgs_ok_def st)
qed

section \<open>The pbuuid index is the principals' own list\<close>

definition index_ok :: "authz_state \<Rightarrow> bool" where
  "index_ok st \<longleftrightarrow> keyed (st_pbuuid_index st) \<and> keyed (st_principals st)
   \<and> (\<forall>k p. map_of (st_principals st) k = Some p \<longrightarrow> pr_id p = k)
   \<and> (\<forall>pbuuid owner. map_of (st_pbuuid_index st) pbuuid = Some owner \<longleftrightarrow>
        (\<exists>p. map_of (st_principals st) owner = Some p \<and> pbuuid \<in> set (pr_pbuuids p)))"

lemma map_of_index_fold:
  "map_of (foldl (\<lambda>idx k. AList.update k v idx) m ks) = (\<lambda>k. if k \<in> set ks then Some v else map_of m k)"
  by (induction ks arbitrary: m) auto

lemma keyed_index_fold: "keyed m \<Longrightarrow> keyed (foldl (\<lambda>idx k. AList.update k v idx) m ks)"
  by (induction ks arbitrary: m) auto

lemma registerPrincipal_InrD:
  assumes "registerPrincipal st p = Inr st'"
  shows "\<And>pbuuid owner. pbuuid \<in> set (pr_pbuuids p) \<Longrightarrow> map_of (st_pbuuid_index st) pbuuid = Some owner \<Longrightarrow> owner = pr_id p"
    and "st' = st\<lparr>st_principals := AList.update (pr_id p) p (st_principals st),
       st_pbuuid_index := foldl (\<lambda>idx pbuuid. AList.update pbuuid (pr_id p) idx)
         (filter (\<lambda>(pbuuid, owner). owner \<noteq> pr_id p) (st_pbuuid_index st)) (pr_pbuuids p)\<rparr>"
proof -
  from assms have none: "find (owned_elsewhere (st_pbuuid_index st) (pr_id p)) (pr_pbuuids p) = None"
    by (auto simp: registerPrincipal_def split: option.splits)
  show "owner = pr_id p" if "pbuuid \<in> set (pr_pbuuids p)" "map_of (st_pbuuid_index st) pbuuid = Some owner" for pbuuid owner
    using find_NoneD [OF none that(1)] that(2) by (simp add: owned_elsewhere_def)
  show "st' = st\<lparr>st_principals := AList.update (pr_id p) p (st_principals st),
       st_pbuuid_index := foldl (\<lambda>idx pbuuid. AList.update pbuuid (pr_id p) idx)
         (filter (\<lambda>(pbuuid, owner). owner \<noteq> pr_id p) (st_pbuuid_index st)) (pr_pbuuids p)\<rparr>"
    using assms none by (simp add: registerPrincipal_def)
qed

lemma registerPrincipal_lookup:
  assumes reg: "registerPrincipal st p = Inr st'" and keyed: "keyed (st_pbuuid_index st)"
  shows "map_of (st_pbuuid_index st') pbuuid = Some owner \<longleftrightarrow>
      (if pbuuid \<in> set (pr_pbuuids p) then owner = pr_id p
       else owner \<noteq> pr_id p \<and> map_of (st_pbuuid_index st) pbuuid = Some owner)"
  unfolding registerPrincipal_InrD(2) [OF reg]
  by (auto simp: map_of_index_fold map_of_filter [OF keyed] split: option.splits)

lemma registerPrincipal_index_ok:
  assumes ok: "index_ok st" and reg: "registerPrincipal st p = Inr st'"
  shows "index_ok st'"
proof -
  note own = registerPrincipal_InrD(1) [OF reg] and st' = registerPrincipal_InrD(2) [OF reg]
  have keyed: "keyed (st_pbuuid_index st)" using ok by (simp add: index_ok_def)
  have old: "map_of (st_pbuuid_index st) pbuuid = Some owner \<longleftrightarrow>
      (\<exists>q. map_of (st_principals st) owner = Some q \<and> pbuuid \<in> set (pr_pbuuids q))" for pbuuid owner
    using ok by (simp add: index_ok_def)
  have new: "st_principals st' = AList.update (pr_id p) p (st_principals st)" by (simp add: st')
  have "map_of (st_pbuuid_index st') pbuuid = Some owner \<longleftrightarrow>
        (\<exists>q. map_of (st_principals st') owner = Some q \<and> pbuuid \<in> set (pr_pbuuids q))" for pbuuid owner
  proof (cases "owner = pr_id p")
    case True
    then show ?thesis by (simp add: registerPrincipal_lookup [OF reg keyed] new)
  next
    case False
    with own [of pbuuid owner] show ?thesis
      by (auto simp: registerPrincipal_lookup [OF reg keyed] new old)
  qed
  moreover have "keyed (st_pbuuid_index st')" using keyed by (simp add: st' keyed_index_fold)
  moreover have "keyed (st_principals st')" using ok by (simp add: new index_ok_def)
  moreover have "map_of (st_principals st') k = Some q \<Longrightarrow> pr_id q = k" for k q
    using ok by (auto simp: new index_ok_def split: if_splits)
  ultimately show ?thesis by (simp add: index_ok_def)
qed

lemma find_by_pbuuid_iff:
  assumes ok: "index_ok st"
  shows "findPrincipalByPbuuid st pbuuid = Some p \<longleftrightarrow>
     getPrincipal st (pr_id p) = Some p \<and> pbuuid \<in> set (pr_pbuuids p)"
proof -
  have old: "map_of (st_pbuuid_index st) pbuuid = Some owner \<longleftrightarrow>
      (\<exists>q. map_of (st_principals st) owner = Some q \<and> pbuuid \<in> set (pr_pbuuids q))" for owner
    using ok by (simp add: index_ok_def)
  have key: "map_of (st_principals st) k = Some q \<Longrightarrow> pr_id q = k" for k q
    using ok by (simp add: index_ok_def)
  show ?thesis
  proof
    assume "findPrincipalByPbuuid st pbuuid = Some p"
    then obtain owner where owner: "map_of (st_pbuuid_index st) pbuuid = Some owner" "map_of (st_principals st) owner = Some p"
      by (auto simp: findPrincipalByPbuuid_def split: option.splits)
    from key [OF owner(2)] owner(2) old [of owner] owner(1)
    show "getPrincipal st (pr_id p) = Some p \<and> pbuuid \<in> set (pr_pbuuids p)" by (simp add: getPrincipal_def)
  next
    assume p: "getPrincipal st (pr_id p) = Some p \<and> pbuuid \<in> set (pr_pbuuids p)"
    with old [of "pr_id p"] have "map_of (st_pbuuid_index st) pbuuid = Some (pr_id p)" by (simp add: getPrincipal_def)
    with p show "findPrincipalByPbuuid st pbuuid = Some p" by (simp add: findPrincipalByPbuuid_def getPrincipal_def)
  qed
qed

section \<open>Grant rows as a map from (organization, role) to a scope\<close>

definition row_lookup :: "role_grant list \<Rightarrow> string \<Rightarrow> role_grant option" where
  "row_lookup rows k = map_of (map (\<lambda>r. (row_key r, r)) rows) k"

definition rows_ok :: "string \<Rightarrow> role_grant list \<Rightarrow> bool" where
  "rows_ok pid rows \<longleftrightarrow> distinct (map row_key rows) \<and> (\<forall>r \<in> set rows. g_principal r = pid)"

type_synonym scope_map = "string \<times> role \<Rightarrow> grant_scope option"

definition scopes_of :: "role_grant list \<Rightarrow> scope_map" where
  "scopes_of rows = (\<lambda>(orgId, role). map_option g_scope (row_lookup rows (grant_key orgId (role_text role))))"

text \<open>The specification: one scope per (organization, role), the widest ever granted.\<close>

definition grant_spec :: "scope_map \<Rightarrow> string \<times> role \<times> grant_scope \<Rightarrow> scope_map" where
  "grant_spec m = (\<lambda>(orgId, role, scope).
     m((orgId, role) \<mapsto> (if m (orgId, role) = Some Subtree then Subtree else scope)))"

fun accepted :: "grant_entry list \<Rightarrow> (string \<times> role \<times> grant_scope) list" where
  "accepted [] = []"
| "accepted (e # es) = (case normalizeGrantEntry e of Inl _ \<Rightarrow> [] | Inr g \<Rightarrow> g # accepted es)"

lemma row_lookup_Some: "row_lookup rows k = Some r \<Longrightarrow> r \<in> set rows \<and> row_key r = k"
  by (auto simp: row_lookup_def dest: map_of_SomeD)

lemma row_lookup_None: "row_lookup rows k = None \<longleftrightarrow> k \<notin> row_key ` set rows"
  by (simp add: row_lookup_def map_of_eq_None_iff image_image)

lemma row_lookup_in: "rows_ok pid rows \<Longrightarrow> r \<in> set rows \<Longrightarrow> row_lookup rows (row_key r) = Some r"
  by (auto simp: row_lookup_def rows_ok_def map_of_eq_Some_iff comp_def)

lemma scopes_of_row:
  "rows_ok pid rows \<Longrightarrow> scopes_of rows (orgId, role) = Some sc \<longleftrightarrow>
     (\<exists>r \<in> set rows. g_org r = orgId \<and> g_role r = role \<and> g_scope r = sc)"
  using row_lookup_in [of pid rows]
  by (fastforce simp: scopes_of_def row_key_def dest: row_lookup_Some)

lemma row_lookup_snoc:
  "row_lookup (rows @ [row]) k = (if row_lookup rows k = None \<and> k = row_key row then Some row else row_lookup rows k)"
  by (auto simp: row_lookup_def map_add_def split: option.splits)

lemma map_of_keys_of_rows:
  "distinct (map row_key rows) \<Longrightarrow> map_of (keys_of_rows rows) k = row_lookup rows k"
proof (induction rows rule: rev_induct)
  case (snoc row rows)
  have "k = row_key row \<Longrightarrow> row_lookup rows k = None" using snoc.prems by (auto simp: row_lookup_None)
  with snoc show ?case by (auto simp: keys_of_rows_def row_lookup_snoc)
qed (simp add: keys_of_rows_def row_lookup_def)

lemma map_other_keys: "k \<notin> f ` set xs \<Longrightarrow> map (\<lambda>x. if f x = k then y else x) xs = xs"
  by (rule map_idI) (metis imageI)

lemma replace_first_map:
  "distinct (map row_key rows) \<Longrightarrow> x \<in> set rows \<Longrightarrow>
   replace_first x y rows = map (\<lambda>r. if row_key r = row_key x then y else r) rows"
proof (induction rows)
  case (Cons r rows)
  show ?case
  proof (cases "r = x")
    case True
    with Cons.prems have "row_key x \<notin> row_key ` set rows" by simp
    then have "map (\<lambda>r. if row_key r = row_key x then y else r) rows = rows" by (rule map_other_keys)
    with True show ?thesis by simp
  qed (use Cons in auto)
qed simp

lemma row_lookup_replace:
  assumes "row_key y = row_key x" "row_key x \<in> row_key ` set rows"
  shows "row_lookup (map (\<lambda>r. if row_key r = row_key x then y else r) rows) = (row_lookup rows)(row_key x \<mapsto> y)"
  using assms(2)
proof (induction rows)
  case (Cons r rows)
  show ?case
  proof (cases "row_key x \<in> row_key ` set rows")
    case False
    then have "map (\<lambda>r. if row_key r = row_key x then y else r) rows = rows" by (rule map_other_keys)
    with False Cons.prems assms(1) show ?thesis by (auto simp: row_lookup_def fun_eq_iff)
  qed (use Cons assms(1) in \<open>auto simp: row_lookup_def fun_eq_iff\<close>)
qed simp

lemma grant_key_upgrade [simp]:
  "row_key (r\<lparr>g_scope := s\<rparr>) = row_key r"
  "row_key \<lparr>g_id = i, g_principal = p, g_org = orgId, g_role = role, g_scope = s\<rparr> = grant_key orgId (role_text role)"
  by (simp_all add: row_key_def)

text \<open>One iteration on rows that a key index describes: the rows stay well formed, the index
  still describes them, and the scopes change as the specification says.\<close>

definition rows_inv :: "string \<Rightarrow> role_grant list \<Rightarrow> (string, role_grant) js_map \<Rightarrow> scope_map \<Rightarrow> bool" where
  "rows_inv pid rows keys m \<longleftrightarrow> rows_ok pid rows \<and> map_of keys = row_lookup rows \<and> scopes_of rows = m"

lemma rows_inv_append:
  assumes inv: "rows_inv pid rows keys m" and fresh: "map_of keys (grant_key orgId (role_text role)) = None"
    and row: "row = \<lparr>g_id = i, g_principal = pid, g_org = orgId, g_role = role, g_scope = scope\<rparr>"
  shows "rows_inv pid (rows @ [row]) (AList.update (grant_key orgId (role_text role)) row keys)
           (grant_spec m (orgId, role, scope))"
proof -
  have none: "row_lookup rows (grant_key orgId (role_text role)) = None" using inv fresh by (simp add: rows_inv_def)
  then have "rows_ok pid (rows @ [row])" using inv by (auto simp: rows_inv_def rows_ok_def row row_lookup_None)
  moreover have "row_lookup (rows @ [row]) = (row_lookup rows)(grant_key orgId (role_text role) \<mapsto> row)"
    using none by (auto simp: fun_eq_iff row_lookup_snoc row)
  moreover have "m (orgId, role) = None" using inv none by (auto simp: rows_inv_def scopes_of_def)
  ultimately show ?thesis using inv none
    by (auto simp: rows_inv_def grant_spec_def scopes_of_def fun_eq_iff row)
qed

lemma rows_inv_upgrade:
  assumes inv: "rows_inv pid rows keys m"
    and old: "map_of keys (grant_key orgId (role_text role)) = Some existing" "g_scope existing \<noteq> Subtree"
  shows "rows_inv pid (replace_first existing (existing\<lparr>g_scope := Subtree\<rparr>) rows)
           (AList.update (grant_key orgId (role_text role)) (existing\<lparr>g_scope := Subtree\<rparr>) keys)
           (grant_spec m (orgId, role, Subtree))"
proof -
  let ?up = "existing\<lparr>g_scope := Subtree\<rparr>"
  let ?new = "map (\<lambda>r. if row_key r = row_key existing then ?up else r) rows"
  have ex: "existing \<in> set rows" "row_key existing = grant_key orgId (role_text role)"
    using inv old row_lookup_Some [of rows] by (auto simp: rows_inv_def)
  have eq: "replace_first existing ?up rows = ?new"
    using inv ex(1) by (intro replace_first_map) (simp_all add: rows_inv_def rows_ok_def)
  have keys: "map row_key ?new = map row_key rows" by auto
  have "rows_ok pid ?new" using inv ex(1) keys by (auto simp: rows_inv_def rows_ok_def simp del: map_map)
  moreover have "row_lookup ?new = (row_lookup rows)(grant_key orgId (role_text role) \<mapsto> ?up)"
    using row_lookup_replace [of ?up existing rows, OF _ imageI [OF ex(1)]] ex(2) by simp
  ultimately show ?thesis using inv eq
    by (auto simp: rows_inv_def grant_spec_def scopes_of_def fun_eq_iff)
qed

lemma rows_inv_keep:
  assumes inv: "rows_inv pid rows keys m"
    and old: "map_of keys (grant_key orgId (role_text role)) = Some existing"
    and wide: "scope = Subtree \<longrightarrow> g_scope existing = Subtree"
  shows "rows_inv pid rows keys (grant_spec m (orgId, role, scope))"
proof -
  have "m (orgId, role) = Some (g_scope existing)" using inv old by (auto simp: rows_inv_def scopes_of_def)
  moreover from this wide have "g_scope existing = (if m (orgId, role) = Some Subtree then Subtree else scope)"
    by (cases "g_scope existing"; cases scope) auto
  ultimately have "grant_spec m (orgId, role, scope) = m" by (auto simp: grant_spec_def fun_eq_iff)
  with inv show ?thesis by simp
qed

lemma grant_loop_spec:
  "rows_inv pid rows keys m \<Longrightarrow> grant_loop pid rows keys n entries = (rows', n', err) \<Longrightarrow>
   rows_ok pid rows' \<and> scopes_of rows' = foldl grant_spec m (accepted entries) \<and> n \<le> n'
   \<and> (err = None \<longleftrightarrow> length (accepted entries) = length entries)"
proof (induction entries arbitrary: rows keys n m)
  case Nil
  then show ?case by (auto simp: rows_inv_def)
next
  case (Cons raw entries)
  show ?case
  proof (cases "normalizeGrantEntry raw")
    case (Inl e)
    with Cons.prems show ?thesis by (auto simp: rows_inv_def)
  next
    case (Inr g)
    obtain orgId role scope where g: "g = (orgId, role, scope)" by (cases g) auto
    show ?thesis
    proof (cases "map_of keys (grant_key orgId (role_text role))")
      case None
      from Cons.IH [OF rows_inv_append [OF Cons.prems(1) None refl]] Cons.prems(2) Inr g None
      show ?thesis by (fastforce simp: Let_def)
    next
      case (Some existing)
      show ?thesis
      proof (cases "scope = Subtree \<and> g_scope existing \<noteq> Subtree")
        case True
        then have narrow: "g_scope existing \<noteq> Subtree" by simp
        from Cons.IH [OF rows_inv_upgrade [OF Cons.prems(1) Some narrow]] Cons.prems(2) Inr g Some True
        show ?thesis by (fastforce simp: Let_def)
      next
        case False
        then have "scope = Subtree \<longrightarrow> g_scope existing = Subtree" by auto
        from Cons.IH [OF rows_inv_keep [OF Cons.prems(1) Some this]] Cons.prems(2) Inr g Some False
        show ?thesis by (fastforce simp: Let_def)
      qed
    qed
  qed
qed

text \<open>The specification in closed form: it depends only on the set of accepted entries.\<close>

lemma grant_spec_apply:
  "grant_spec m (o', r', s') (orgId, role) =
     (if orgId = o' \<and> role = r' then Some (if m (o', r') = Some Subtree then Subtree else s') else m (orgId, role))"
  by (simp add: grant_spec_def)

lemma grant_spec_closed:
  "foldl grant_spec m gs (orgId, role) =
     (if m (orgId, role) = Some Subtree \<or> (orgId, role, Subtree) \<in> set gs then Some Subtree
      else if m (orgId, role) \<noteq> None \<or> (orgId, role, Self) \<in> set gs then Some Self
      else None)"
proof (induction gs arbitrary: orgId role rule: rev_induct)
  case Nil
  have "s = Self" if "s \<noteq> Subtree" for s using that by (cases s) auto
  then show ?case by auto
next
  case (snoc g gs)
  obtain o' r' s' where g: "g = (o', r', s')" by (cases g) auto
  show ?case
    by (cases s') (auto simp: snoc g grant_spec_apply)
qed

definition grants_ok :: "authz_state \<Rightarrow> bool" where
  "grants_ok st \<longleftrightarrow> keyed (st_grants st) \<and> (\<forall>pid rows. map_of (st_grants st) pid = Some rows \<longrightarrow> rows_ok pid rows)"

lemma rows_ok_Nil [simp]: "rows_ok pid []"
  by (simp add: rows_ok_def)

lemma rows_ok_filter [simp]: "rows_ok pid rows \<Longrightarrow> rows_ok pid (filter P rows)"
  by (simp add: rows_ok_def distinct_map_filter)

lemma list_rows_ok: "grants_ok st \<Longrightarrow> rows_ok pid (listGrantsForPrincipal st pid)"
  by (simp add: grants_ok_def listGrantsForPrincipal_def split: option.splits)

lemma list_update_grants [store_simps]:
  "listGrantsForPrincipal (st\<lparr>st_grants := AList.update pid rows m, st_next_grant := n\<rparr>) q =
     (if q = pid then rows else listGrantsForPrincipal (st\<lparr>st_grants := m\<rparr>) q)"
  "listGrantsForPrincipal (st\<lparr>st_grants := AList.update pid rows m\<rparr>) q =
     (if q = pid then rows else listGrantsForPrincipal (st\<lparr>st_grants := m\<rparr>) q)"
  "listGrantsForPrincipal (st\<lparr>st_grants := AList.delete pid m\<rparr>) q =
     (if q = pid then [] else listGrantsForPrincipal (st\<lparr>st_grants := m\<rparr>) q)"
  "listGrantsForPrincipal (st\<lparr>st_grants := m, st_next_grant := n\<rparr>) q = listGrantsForPrincipal (st\<lparr>st_grants := m\<rparr>) q"
  "listGrantsForPrincipal (st\<lparr>st_grants := st_grants st\<rparr>) q = listGrantsForPrincipal st q"
  "listGrantsForPrincipal (st\<lparr>st_next_grant := n\<rparr>) q = listGrantsForPrincipal st q"
  by (simp_all add: listGrantsForPrincipal_def)

lemma grantMany_cases:
  assumes ok: "grants_ok st" and run: "grantMany st pid entries = (st', r)"
  obtains rows' n' err where
    "rows_ok pid rows'" "scopes_of rows' = foldl grant_spec (scopes_of (listGrantsForPrincipal st pid)) (accepted entries)"
    "err = None \<longleftrightarrow> length (accepted entries) = length entries"
    "r = (case err of None \<Rightarrow> Inr () | Some e \<Rightarrow> Inl e)"
    "st' = st\<lparr>st_grants := (if err \<noteq> None \<and> map_of (st_grants st) pid = None then st_grants st
                            else AList.update pid rows' (st_grants st)), st_next_grant := n'\<rparr>"
proof -
  let ?rows = "listGrantsForPrincipal st pid"
  obtain rows' n' err where loop: "grant_loop pid ?rows (keys_of_rows ?rows) (st_next_grant st) entries = (rows', n', err)"
    by (metis prod_cases3)
  have "rows_inv pid ?rows (keys_of_rows ?rows) (scopes_of ?rows)"
    using list_rows_ok [OF ok, of pid] by (auto simp: rows_inv_def rows_ok_def map_of_keys_of_rows)
  from grant_loop_spec [OF this loop] run loop show ?thesis
    by (intro that [of rows' err n']) (auto simp: grantMany_def split: option.splits)
qed

lemma grantMany_grants_ok:
  assumes ok: "grants_ok st" and run: "grantMany st pid entries = (st', r)"
  shows "grants_ok st'"
  using ok run
proof (rule grantMany_cases)
qed (use ok in \<open>auto simp: grants_ok_def split: if_splits\<close>)

lemma grantMany_scopes:
  "grants_ok st \<Longrightarrow> grantMany st pid entries = (st', Inr ()) \<Longrightarrow>
   scopes_of (listGrantsForPrincipal st' pid) = foldl grant_spec (scopes_of (listGrantsForPrincipal st pid)) (accepted entries)
   \<and> length (accepted entries) = length entries"
  by (erule grantMany_cases) (auto simp: store_simps split: option.splits)

lemma grantMany_other:
  "grants_ok st \<Longrightarrow> grantMany st pid entries = (st', r) \<Longrightarrow> q \<noteq> pid \<Longrightarrow>
   listGrantsForPrincipal st' q = listGrantsForPrincipal st q"
  by (erule grantMany_cases) (auto simp: store_simps split: if_splits)

lemma grantMany_frame:
  "grantMany st pid entries = (st', r) \<Longrightarrow> st_organizations st' = st_organizations st
     \<and> st_principals st' = st_principals st \<and> st_pbuuid_index st' = st_pbuuid_index st"
  by (auto simp: grantMany_def Let_def split: prod.splits option.splits)

lemma list_revoke: "listGrantsForPrincipal (revokeMany st pid entries) q =
   (if q = pid then filter (\<lambda>row. row_key row \<notin> revoke_keys entries) (listGrantsForPrincipal st pid)
    else listGrantsForPrincipal st q)"
  by (auto simp: revokeMany_def Let_def store_simps split: option.splits)
     (auto simp: listGrantsForPrincipal_def)

lemma revoke_grants_ok: "grants_ok st \<Longrightarrow> grants_ok (revokeMany st pid entries)"
  by (auto simp: revokeMany_def Let_def grants_ok_def split: option.splits if_splits)

lemma clear_grants_ok: "grants_ok st \<Longrightarrow> grants_ok (clearGrantsForPrincipal st pid)"
  by (auto simp: clearGrantsForPrincipal_def grants_ok_def split: if_splits)

lemma list_clear: "listGrantsForPrincipal (clearGrantsForPrincipal st pid) q =
   (if q = pid then [] else listGrantsForPrincipal st q)"
  by (simp add: clearGrantsForPrincipal_def store_simps)

section \<open>The grants interface\<close>

text \<open>\<open>GrantsStore\<close> of \<^verbatim>\<open>store.ts\<close>: what a client may rely on, whichever store provides it.\<close>

locale grants_store =
  fixes grants :: "'s \<Rightarrow> string \<Rightarrow> role_grant list"
    and grant_many :: "'s \<Rightarrow> string \<Rightarrow> grant_entry list \<Rightarrow> 's \<times> (grant_error + unit)"
    and revoke_many :: "'s \<Rightarrow> string \<Rightarrow> revoke_entry list \<Rightarrow> 's"
    and clear_grants :: "'s \<Rightarrow> string \<Rightarrow> 's"
    and ok :: "'s \<Rightarrow> bool"
  assumes rows: "ok st \<Longrightarrow> rows_ok pid (grants st pid)"
    and grant_ok: "ok st \<Longrightarrow> grant_many st pid es = (st', r) \<Longrightarrow> ok st'"
    and grant_scopes: "ok st \<Longrightarrow> grant_many st pid es = (st', Inr ()) \<Longrightarrow>
      scopes_of (grants st' pid) = foldl grant_spec (scopes_of (grants st pid)) (accepted es)
      \<and> length (accepted es) = length es"
    and grant_other: "ok st \<Longrightarrow> grant_many st pid es = (st', r) \<Longrightarrow> q \<noteq> pid \<Longrightarrow> grants st' q = grants st q"
    and revoke_ok: "ok st \<Longrightarrow> ok (revoke_many st pid vs)"
    and revoke_rows: "grants (revoke_many st pid vs) q =
      (if q = pid then filter (\<lambda>row. row_key row \<notin> revoke_keys vs) (grants st pid) else grants st q)"
    and clear_ok: "ok st \<Longrightarrow> ok (clear_grants st pid)"
    and clear_rows: "grants (clear_grants st pid) q = (if q = pid then [] else grants st q)"
begin

lemma granted_scope:
  assumes "ok st" "grant_many st pid es = (st', Inr ())"
  shows "scopes_of (grants st' pid) (orgId, role) =
     (if scopes_of (grants st pid) (orgId, role) = Some Subtree \<or> (orgId, role, Subtree) \<in> set (accepted es) then Some Subtree
      else if scopes_of (grants st pid) (orgId, role) \<noteq> None \<or> (orgId, role, Self) \<in> set (accepted es) then Some Self
      else None)"
  using grant_scopes [OF assms] by (simp add: grant_spec_closed)

lemma regrant_idempotent:
  assumes "ok st" "grant_many st pid es = (st1, Inr ())" "grant_many st1 pid es' = (st2, Inr ())"
    and "set (accepted es') \<subseteq> set (accepted es)"
  shows "scopes_of (grants st2 pid) = scopes_of (grants st1 pid)"
proof (rule ext, safe)
  fix orgId role
  have "ok st1" using assms(1,2) by (rule grant_ok)
  show "scopes_of (grants st2 pid) (orgId, role) = scopes_of (grants st1 pid) (orgId, role)"
    using granted_scope [OF assms(1,2), of orgId role] granted_scope [OF \<open>ok st1\<close> assms(3), of orgId role] assms(4)
    by (auto split: if_splits)
qed

lemma revoked_scope:
  "scopes_of (grants (revoke_many st pid vs) pid) (orgId, role) =
     (if grant_key orgId (role_text role) \<in> revoke_keys vs then None else scopes_of (grants st pid) (orgId, role))"
proof -
  have "row_lookup (filter (\<lambda>row. row_key row \<notin> K) rows) k = (if k \<in> K then None else row_lookup rows k)" for rows K k
    by (induction rows) (auto simp: row_lookup_def)
  then show ?thesis by (auto simp: revoke_rows scopes_of_def)
qed

end

interpretation memory_grants: grants_store listGrantsForPrincipal grantMany revokeMany clearGrantsForPrincipal grants_ok
  by unfold_locales
    (auto simp: list_rows_ok grantMany_scopes grantMany_other revoke_grants_ok list_revoke clear_grants_ok list_clear
      intro: grantMany_grants_ok)

section \<open>Reachable stores\<close>

text \<open>Any number of calls on a store the constructor returned; a call that raises leaves the
  state its model says.\<close>

inductive store_step :: "authz_state \<Rightarrow> authz_state \<Rightarrow> bool" where
  upsert: "upsertOrganization st org = Inr st' \<Longrightarrow> store_step st st'"
| register: "registerPrincipal st p = Inr st' \<Longrightarrow> store_step st st'"
| grant: "grantMany st pid entries = (st', r) \<Longrightarrow> store_step st st'"
| revoke: "store_step st (revokeMany st pid vs)"
| clear: "store_step st (clearGrantsForPrincipal st pid)"

inductive reachable_store :: "authz_state \<Rightarrow> bool" where
  new: "newInMemoryAuthzStore orgs ps = Inr st \<Longrightarrow> reachable_store st"
| step: "reachable_store st \<Longrightarrow> store_step st st' \<Longrightarrow> reachable_store st'"

definition store_ok :: "authz_state \<Rightarrow> bool" where
  "store_ok st \<longleftrightarrow> orgs_ok st \<and> index_ok st \<and> grants_ok st"

lemma upsert_frame:
  "upsertOrganization st org = Inr st' \<Longrightarrow> st' = st\<lparr>st_organizations := AList.update (org_id org) org (st_organizations st)\<rparr>"
  by (auto simp: upsertOrganization_def)

lemma register_frame:
  assumes "registerPrincipal st p = Inr st'"
  shows "st_organizations st' = st_organizations st \<and> st_grants st' = st_grants st"
  using registerPrincipal_InrD(2) [OF assms] by simp

lemma revoke_frame: "st_organizations (revokeMany st pid vs) = st_organizations st
    \<and> st_principals (revokeMany st pid vs) = st_principals st \<and> st_pbuuid_index (revokeMany st pid vs) = st_pbuuid_index st"
  by (simp add: revokeMany_def Let_def split: option.splits)

lemma clear_frame: "st_organizations (clearGrantsForPrincipal st pid) = st_organizations st
    \<and> st_principals (clearGrantsForPrincipal st pid) = st_principals st
    \<and> st_pbuuid_index (clearGrantsForPrincipal st pid) = st_pbuuid_index st"
  by (simp add: clearGrantsForPrincipal_def)

lemma store_step_ok: "store_step st st' \<Longrightarrow> store_ok st \<Longrightarrow> store_ok st'"
proof (induction rule: store_step.induct)
  case (upsert st org st')
  with upsert_frame [OF upsert.hyps] upsert_orgs_ok [of st org st'] show ?case
    by (auto simp: store_ok_def index_ok_def grants_ok_def)
next
  case (register st p st')
  with register_frame [OF register.hyps] registerPrincipal_index_ok [of st p st'] show ?case
    by (auto simp: store_ok_def orgs_ok_def grants_ok_def)
next
  case (grant st pid entries st' r)
  with grantMany_frame [OF grant.hyps] grantMany_grants_ok [of st pid entries st' r] show ?case
    by (auto simp: store_ok_def orgs_ok_def index_ok_def)
next
  case (revoke st pid vs)
  with revoke_frame [of st pid vs] revoke_grants_ok [of st pid vs] show ?case
    by (simp add: store_ok_def orgs_ok_def index_ok_def)
next
  case (clear st pid)
  with clear_frame [of st pid] clear_grants_ok [of st pid] show ?case
    by (simp add: store_ok_def orgs_ok_def index_ok_def)
qed

lemma seed_principals_ok: "seed_principals ps st = Inr st' \<Longrightarrow> store_ok st \<Longrightarrow> store_ok st'"
proof (induction ps arbitrary: st)
  case (Cons p ps)
  from Cons.prems obtain st1 where "registerPrincipal st p = Inr st1" "seed_principals ps st1 = Inr st'" by auto
  with Cons.IH [of st1] store_step_ok [OF store_step.register] Cons.prems(2) show ?case by blast
qed simp

lemma new_store_ok: "newInMemoryAuthzStore orgs ps = Inr st \<Longrightarrow> store_ok st"
proof -
  assume "newInMemoryAuthzStore orgs ps = Inr st"
  then obtain st1 where st1: "seed_organizations orgs orgs empty_authz = Inr st1" "seed_principals ps st1 = Inr st"
    by (auto simp: newInMemoryAuthzStore_def)
  have "store_ok st1"
    using seed_organizations_ok [OF st1(1)] seed_organizations_rows [OF st1(1)]
    by (auto simp: store_ok_def index_ok_def grants_ok_def empty_authz_def)
  with st1(2) show ?thesis by (rule seed_principals_ok)
qed

lemma reachable_store_ok: "reachable_store st \<Longrightarrow> store_ok st"
  by (induction rule: reachable_store.induct) (auto intro: new_store_ok store_step_ok)

lemma reachable_acyclic:
  assumes "store_ok st"
  shows "acyclic_tree (listOrganizations st)" and "distinct (map org_id (listOrganizations st))"
    and "map_of (by_id (listOrganizations st)) = map_of (st_organizations st)"
proof -
  have ok: "keyed (st_organizations st)" "self_keyed (st_organizations st)" "wf (parent_rel (st_organizations st))"
    using assms by (auto simp: store_ok_def orgs_ok_def)
  from by_id_values [OF ok(1,2)] show rows: "map_of (by_id (listOrganizations st)) = map_of (st_organizations st)"
    by (simp add: listOrganizations_def)
  show "acyclic_tree (listOrganizations st)" using ok(3) parent_rel_cong [OF rows] by (simp add: acyclic_tree_def)
  show "distinct (map org_id (listOrganizations st))"
    unfolding listOrganizations_def ids_of_values [OF ok(1,2)] by (rule ok(1))
qed

section \<open>Examples\<close>

definition sample_principal :: principal where
  "sample_principal = \<lparr>pr_id = ''p1'', pr_pbuuids = [''ada@x.y''], pr_display_name = None, pr_email = None\<rparr>"

definition sample_store :: authz_state where
  "sample_store = (case newInMemoryAuthzStore sample_orgs [sample_principal] of Inr st \<Rightarrow> st | Inl _ \<Rightarrow> empty_authz)"

lemmas store_run = seed_organizations.simps assertNoCycles_def by_id_def parent_row_def registerPrincipal_def
  owned_elsewhere_def empty_authz_def newInMemoryAuthzStore_def

lemma sample_store_new: "newInMemoryAuthzStore sample_orgs [sample_principal] = Inr sample_store"
  by (simp add: sample_store_def store_run sample_orgs_def sample_principal_def)

lemma sample_store_fields:
  "st_organizations sample_store = map (\<lambda>o'. (org_id o', o')) sample_orgs"
  "st_principals sample_store = [(''p1'', sample_principal)]"
  "st_pbuuid_index sample_store = [(''ada@x.y'', ''p1'')]"
  "st_grants sample_store = []" "st_next_grant sample_store = 1"
  by (simp_all add: sample_store_def store_run sample_orgs_def sample_principal_def)

lemma sample_store_ok: "store_ok sample_store"
  using sample_store_new by (rule new_store_ok)

definition staff_subtree :: grant_entry where
  "staff_subtree = \<lparr>e_org = ''hq'', e_role = ''staff'', e_scope = Some ''subtree''\<rparr>"

definition granted_store :: authz_state where
  "granted_store = fst (grantMany sample_store ''p1'' [staff_subtree])"

lemma normalize_staff: "normalizeGrantEntry staff_subtree = Inr (''hq'', Staff, Subtree)"
  by (simp add: normalizeGrantEntry_def staff_subtree_def js_trim_def js_space_def role_of_def ROLES_def scope_of_def)

lemma granted_run: "grantMany sample_store ''p1'' [staff_subtree] = (granted_store, Inr ())"
  by (simp add: granted_store_def grantMany_def Let_def normalize_staff listGrantsForPrincipal_def sample_store_fields keys_of_rows_def)

lemma register_raises_iff:
  "(\<exists>e. registerPrincipal st p = Inl e) \<longleftrightarrow> (\<exists>pbuuid \<in> set (pr_pbuuids p). owned_elsewhere (st_pbuuid_index st) (pr_id p) pbuuid)"
proof (cases "find (owned_elsewhere (st_pbuuid_index st) (pr_id p)) (pr_pbuuids p)")
  case None
  then show ?thesis using find_NoneD [OF None] by (auto simp: registerPrincipal_def Let_def)
next
  case (Some pbuuid)
  then show ?thesis using find_SomeD [OF Some] by (auto simp: registerPrincipal_def)
qed

lemma owned_elsewhere_iff:
  assumes ok: "index_ok st"
  shows "owned_elsewhere (st_pbuuid_index st) pid pbuuid \<longleftrightarrow> (\<exists>q. findPrincipalByPbuuid st pbuuid = Some q \<and> pr_id q \<noteq> pid)"
proof (cases "map_of (st_pbuuid_index st) pbuuid")
  case None
  then show ?thesis by (simp add: owned_elsewhere_def findPrincipalByPbuuid_def)
next
  case (Some owner)
  with ok obtain q where q: "map_of (st_principals st) owner = Some q" by (auto simp: index_ok_def)
  moreover from this ok have "pr_id q = owner" by (simp add: index_ok_def)
  ultimately show ?thesis using Some by (auto simp: owned_elsewhere_def findPrincipalByPbuuid_def)
qed

lemma register_resolves:
  assumes ok: "index_ok st" and reg: "registerPrincipal st p = Inr st'"
  shows "findPrincipalByPbuuid st' pbuuid =
     (if pbuuid \<in> set (pr_pbuuids p) then Some p
      else case findPrincipalByPbuuid st pbuuid of
             None \<Rightarrow> None
           | Some q \<Rightarrow> if pr_id q = pr_id p then None else Some q)" (is "?new = ?expected")
proof -
  have ok': "index_ok st'" using ok reg by (rule registerPrincipal_index_ok)
  have get: "getPrincipal st' k = (if k = pr_id p then Some p else getPrincipal st k)" for k
    by (simp add: registerPrincipal_InrD(2) [OF reg] getPrincipal_def)
  have old: "?new = Some q \<Longrightarrow> pr_id q \<noteq> pr_id p \<Longrightarrow> findPrincipalByPbuuid st pbuuid = Some q" for q
    by (simp add: find_by_pbuuid_iff [OF ok'] find_by_pbuuid_iff [OF ok] get)
  have own: "?new = Some q \<Longrightarrow> pr_id q = pr_id p \<Longrightarrow> q = p \<and> pbuuid \<in> set (pr_pbuuids p)" for q
    by (auto simp: find_by_pbuuid_iff [OF ok'] get)
  show ?thesis
  proof (cases "pbuuid \<in> set (pr_pbuuids p)")
    case True
    then show ?thesis by (simp add: find_by_pbuuid_iff [OF ok'] get)
  next
    case False
    show ?thesis
    proof (cases ?new)
      case None
      have same: "pr_id q = pr_id p" if "findPrincipalByPbuuid st pbuuid = Some q" for q
      proof (rule ccontr)
        assume "pr_id q \<noteq> pr_id p"
        with that have "?new = Some q" by (simp add: find_by_pbuuid_iff [OF ok'] find_by_pbuuid_iff [OF ok] get)
        with None show False by simp
      qed
      show ?thesis
      proof (cases "findPrincipalByPbuuid st pbuuid")
        case (Some q)
        with same [OF Some] None False show ?thesis by simp
      qed (use None False in simp)
    next
      case (Some q)
      with own [OF Some] False have other: "pr_id q \<noteq> pr_id p" by blast
      from old [OF Some other] other Some False show ?thesis by simp
    qed
  qed
qed

section \<open>Properties\<close>

text \<open>C35. In every store reachable from the constructor through any calls, also ones that raise:
  no organization is its own ancestor, so every walk down returns; a pbuuid resolves to a
  principal exactly when that principal is registered and lists it; and a principal holds at
  most one grant row per (organization, role), each naming that principal.\<close>

theorem reachable_store_is_sound:
  assumes "reachable_store st"
  shows "acyclic_tree (listOrganizations st)
    \<and> (\<forall>x. \<exists>out. descendantOrgIdsIncludingSelf (listOrganizations st) x = Some out)
    \<and> (\<forall>pbuuid p. findPrincipalByPbuuid st pbuuid = Some p \<longleftrightarrow>
         getPrincipal st (pr_id p) = Some p \<and> principalHasPbuuid p pbuuid)
    \<and> (\<forall>pid. distinct (map (\<lambda>r. (g_org r, g_role r)) (listGrantsForPrincipal st pid))
         \<and> (\<forall>r \<in> set (listGrantsForPrincipal st pid). g_principal r = pid))"
proof -
  have ok: "store_ok st" using assms by (rule reachable_store_ok)
  have one: "distinct (map (\<lambda>r. (g_org r, g_role r)) rows)" if "rows_ok pid rows" for pid rows
    using that by (auto simp: rows_ok_def distinct_map inj_on_def row_key_def)
  show ?thesis
    using reachable_acyclic(1,2) [OF ok] descendants_return [OF reachable_acyclic(1,2) [OF ok]] ok
    by (auto simp: store_ok_def find_by_pbuuid_iff principalHasPbuuid_def
        dest: list_rows_ok intro: one) (auto simp: rows_ok_def dest!: list_rows_ok)
qed

theorem reachable_store_is_sound_witness:
  "acyclic_tree (listOrganizations granted_store)
   \<and> distinct (map (\<lambda>r. (g_org r, g_role r)) (listGrantsForPrincipal granted_store ''p1''))"
proof -
  have "reachable_store granted_store"
    using reachable_store.new [OF sample_store_new] store_step.grant [OF granted_run] by (rule reachable_store.step)
  from reachable_store_is_sound [OF this] show ?thesis by blast
qed

text \<open>Registering a principal is refused exactly when one of its pbuuids resolves to another
  principal; when it is accepted, its pbuuids resolve to it, the ones it had before and no
  longer lists resolve to nobody, and every other pbuuid resolves as before.\<close>

theorem registerPrincipal_resolves:
  assumes "store_ok st"
  shows "((\<exists>e. registerPrincipal st p = Inl e) \<longleftrightarrow>
           (\<exists>pbuuid \<in> set (pr_pbuuids p). \<exists>q. findPrincipalByPbuuid st pbuuid = Some q \<and> pr_id q \<noteq> pr_id p))
    \<and> (\<forall>st' pbuuid. registerPrincipal st p = Inr st' \<longrightarrow>
           findPrincipalByPbuuid st' pbuuid =
             (if pbuuid \<in> set (pr_pbuuids p) then Some p
              else case findPrincipalByPbuuid st pbuuid of
                     None \<Rightarrow> None
                   | Some q \<Rightarrow> if pr_id q = pr_id p then None else Some q))"
proof -
  have "index_ok st" using assms by (simp add: store_ok_def)
  then show ?thesis by (simp add: register_raises_iff owned_elsewhere_iff register_resolves)
qed

theorem registerPrincipal_resolves_witness:
  "(\<exists>e. registerPrincipal sample_store \<lparr>pr_id = ''p2'', pr_pbuuids = [''ada@x.y''], pr_display_name = None, pr_email = None\<rparr> = Inl e)
   \<and> (\<exists>st'. registerPrincipal sample_store (sample_principal\<lparr>pr_pbuuids := [''eve@x.y'']\<rparr>) = Inr st'
        \<and> findPrincipalByPbuuid st' ''ada@x.y'' = None)"
proof -
  let ?thief = "\<lparr>pr_id = ''p2'', pr_pbuuids = [''ada@x.y''], pr_display_name = None, pr_email = None\<rparr> :: principal"
  let ?again = "sample_principal\<lparr>pr_pbuuids := [''eve@x.y'']\<rparr>"
  have found: "findPrincipalByPbuuid sample_store ''ada@x.y'' = Some sample_principal"
    by (simp add: findPrincipalByPbuuid_def sample_store_fields)
  have "\<exists>e. registerPrincipal sample_store ?thief = Inl e"
    using registerPrincipal_resolves [OF sample_store_ok, of ?thief] found by (auto simp: sample_principal_def)
  moreover obtain st' where st': "registerPrincipal sample_store ?again = Inr st'"
    by (auto simp: registerPrincipal_def owned_elsewhere_def sample_store_fields sample_principal_def)
  moreover have "findPrincipalByPbuuid st' ''ada@x.y'' = None"
    using registerPrincipal_resolves [OF sample_store_ok, of ?again] st' found by (auto simp: sample_principal_def)
  ultimately show ?thesis by blast
qed

text \<open>A \<open>grantMany\<close> that returns accepted every entry, and afterwards the principal's scope at
  an (organization, role) is the widest of its former scope and the entries' (trimmed
  organization, missing scope read as self); other principals' rows are unchanged.\<close>

theorem grantMany_widest_scope:
  assumes "store_ok st" and "grantMany st pid entries = (st', Inr ())"
  shows "length (accepted entries) = length entries
    \<and> scopes_of (listGrantsForPrincipal st' pid) (orgId, role) =
        (if scopes_of (listGrantsForPrincipal st pid) (orgId, role) = Some Subtree
            \<or> (orgId, role, Subtree) \<in> set (accepted entries) then Some Subtree
         else if scopes_of (listGrantsForPrincipal st pid) (orgId, role) \<noteq> None
            \<or> (orgId, role, Self) \<in> set (accepted entries) then Some Self
         else None)
    \<and> (\<forall>q. q \<noteq> pid \<longrightarrow> listGrantsForPrincipal st' q = listGrantsForPrincipal st q)"
proof -
  have ok: "grants_ok st" using assms(1) by (simp add: store_ok_def)
  show ?thesis
    using memory_grants.granted_scope [OF ok assms(2), of orgId role] memory_grants.grant_scopes [OF ok assms(2)]
      memory_grants.grant_other [OF ok assms(2)] by simp
qed

theorem grantMany_widest_scope_witness:
  "scopes_of (listGrantsForPrincipal granted_store ''p1'') (''hq'', Staff) = Some Subtree
   \<and> scopes_of (listGrantsForPrincipal granted_store ''p1'') (''kw'', Staff) = None"
  using grantMany_widest_scope [OF sample_store_ok granted_run, of "''hq''" Staff]
    grantMany_widest_scope [OF sample_store_ok granted_run, of "''kw''" Staff]
  by (simp add: normalize_staff listGrantsForPrincipal_def sample_store_fields scopes_of_def row_lookup_def)

text \<open>Revocation removes exactly the listed (organization, role) pairs, whatever their scope,
  and nothing else (targets whose role text holds no NUL, as every role name does).\<close>

theorem revokeMany_exact:
  assumes "\<forall>t \<in> set targets. CHR 0x00 \<notin> set (v_role t)"
  shows "scopes_of (listGrantsForPrincipal (revokeMany st pid targets) pid) (orgId, role) =
     (if \<exists>t \<in> set targets. v_org t = orgId \<and> v_role t = role_text role then None
      else scopes_of (listGrantsForPrincipal st pid) (orgId, role))
   \<and> (\<forall>q. q \<noteq> pid \<longrightarrow> listGrantsForPrincipal (revokeMany st pid targets) q = listGrantsForPrincipal st q)"
proof -
  have "grant_key orgId (role_text role) \<in> revoke_keys targets
      \<longleftrightarrow> (\<exists>t \<in> set targets. v_org t = orgId \<and> v_role t = role_text role)"
    using assms by (auto simp: revoke_keys_def grant_key_def image_iff sep_inject_right)
  with memory_grants.revoked_scope [of st pid targets orgId role] memory_grants.revoke_rows [of st pid targets]
  show ?thesis by simp
qed

theorem revokeMany_exact_witness:
  "scopes_of (listGrantsForPrincipal (revokeMany granted_store ''p1'' [\<lparr>v_org = ''hq'', v_role = ''staff''\<rparr>]) ''p1'') (''hq'', Staff) = None"
  using revokeMany_exact [of "[\<lparr>v_org = ''hq'', v_role = ''staff''\<rparr>]" granted_store "''p1''" "''hq''" Staff] by simp

text \<open>A \<open>grantMany\<close> that raises is not all-or-nothing: for a principal that already holds rows
  the entries before the refused one stay granted, for a principal without rows none do.\<close>

theorem grantMany_partial_on_error:
  assumes "store_ok st" and "grantMany st pid entries = (st', Inl e)"
  shows "scopes_of (listGrantsForPrincipal st' pid) =
     (if map_of (st_grants st) pid = None then scopes_of (listGrantsForPrincipal st pid)
      else foldl grant_spec (scopes_of (listGrantsForPrincipal st pid)) (accepted entries))"
proof -
  have "grants_ok st" using assms(1) by (simp add: store_ok_def)
  from this assms(2) show ?thesis
    by (rule grantMany_cases) (auto simp: store_simps split: option.splits)
qed

theorem grantMany_partial_on_error_witness:
  "\<exists>st' e. grantMany granted_store ''p1''
       [\<lparr>e_org = ''kw'', e_role = ''admin'', e_scope = None\<rparr>, \<lparr>e_org = ''kw'', e_role = ''root'', e_scope = None\<rparr>] = (st', Inl e)
     \<and> scopes_of (listGrantsForPrincipal st' ''p1'') (''kw'', Admin) = Some Self
     \<and> scopes_of (listGrantsForPrincipal granted_store ''p1'') (''kw'', Admin) = None"
proof -
  let ?es = "[\<lparr>e_org = ''kw'', e_role = ''admin'', e_scope = None\<rparr>, \<lparr>e_org = ''kw'', e_role = ''root'', e_scope = None\<rparr>]"
  have ok: "store_ok granted_store" using store_step_ok [OF store_step.grant [OF granted_run] sample_store_ok] .
  have norm: "accepted ?es = [(''kw'', Admin, Self)]"
    by (simp add: normalizeGrantEntry_def js_trim_def js_space_def role_of_def ROLES_def)
  obtain st' r where run: "grantMany granted_store ''p1'' ?es = (st', r)" by force
  from ok have gok: "grants_ok granted_store" by (simp add: store_ok_def)
  have raised: "r \<noteq> Inr ()"
  proof
    assume "r = Inr ()"
    with memory_grants.grant_scopes [OF gok, of "''p1''" ?es st'] run have "length (accepted ?es) = length ?es"
      by (simp del: accepted.simps)
    then show False by (simp add: norm del: accepted.simps)
  qed
  then obtain e where r: "r = Inl e" by (cases r) auto
  have stored: "map_of (st_grants granted_store) ''p1'' \<noteq> None"
    by (simp add: granted_store_def grantMany_def Let_def normalize_staff listGrantsForPrincipal_def sample_store_fields keys_of_rows_def)
  have before: "scopes_of (listGrantsForPrincipal granted_store ''p1'') (''kw'', Admin) = None"
    using memory_grants.granted_scope [OF _ granted_run, of "''kw''" Admin] sample_store_ok
    by (simp add: store_ok_def normalize_staff listGrantsForPrincipal_def sample_store_fields scopes_of_def row_lookup_def)
  show ?thesis
    using grantMany_partial_on_error [OF ok run [unfolded r]] run stored before r
    by (auto simp: grant_spec_def norm simp del: accepted.simps)
qed

end
