(* ===== verification/Active_Context.thy ===== *)
theory Active_Context
  imports Authz_Store
begin

text \<open>
  Which organization and role a request acts as, \<^verbatim>\<open>packages/contracts/src/authz/context.ts\<close>.
  The resolver depends on the store only through five reads, a record of functions here; a
  resolution takes one such record, the reads of the store at the time of the request.
  \<open>listEffectiveContexts\<close> walks down the tree, so it and the resolver are partial: \<open>None\<close> is
  "does not return". The interface \<open>authz_service\<close> states what the resolver needs of a store;
  the reference store provides it.
\<close>

section \<open>Requests and resolutions\<close>

datatype request_identity = By_principal string | By_pbuuid string

record context_selection =
  sel_org :: "string option"
  sel_role :: "string option"

record effective_grant =
  eg_org :: string
  eg_role :: role
  eg_scope :: grant_scope
  eg_granted_by :: string
  eg_direct :: bool

record active_context =
  ac_principal :: string
  ac_org :: string
  ac_role :: role
  ac_scope :: grant_scope
  ac_granted_by :: string
  ac_direct :: bool

datatype denial_reason = Unknown_principal | No_context_at_org | Role_not_granted | Role_required | Ambiguous_context

datatype context_resolution = Authorized active_context "role list" | Denied denial_reason

record authz_reads =
  rd_principal :: "string \<Rightarrow> principal option"
  rd_by_pbuuid :: "string \<Rightarrow> principal option"
  rd_org :: "string \<Rightarrow> organization option"
  rd_orgs :: "organization list"
  rd_grants :: "string \<Rightarrow> role_grant list"

definition reads_of :: "authz_state \<Rightarrow> authz_reads" where
  "reads_of st = \<lparr>rd_principal = getPrincipal st, rd_by_pbuuid = findPrincipalByPbuuid st,
     rd_org = getOrganization st, rd_orgs = listOrganizations st, rd_grants = listGrantsForPrincipal st\<rparr>"

section \<open>The resolver\<close>

definition resolvePrincipalId :: "request_identity \<Rightarrow> authz_reads \<Rightarrow> string option" where
  "resolvePrincipalId identity rd = (case identity of
     By_principal pid \<Rightarrow> map_option pr_id (rd_principal rd pid)
   | By_pbuuid pbuuid \<Rightarrow> map_option pr_id (rd_by_pbuuid rd pbuuid))"

definition direct_grant :: "role_grant \<Rightarrow> effective_grant" where
  "direct_grant g = \<lparr>eg_org = g_org g, eg_role = g_role g, eg_scope = g_scope g, eg_granted_by = g_org g, eg_direct = True\<rparr>"

definition inherited_grant :: "string \<Rightarrow> role_grant \<Rightarrow> effective_grant" where
  "inherited_grant orgId g = \<lparr>eg_org = orgId, eg_role = g_role g, eg_scope = g_scope g, eg_granted_by = g_org g, eg_direct = False\<rparr>"

definition nearer :: "(effective_grant \<Rightarrow> string list) \<Rightarrow> effective_grant \<Rightarrow> effective_grant \<Rightarrow> bool" where
  "nearer chain a b \<longleftrightarrow> index_of (chain a) (eg_granted_by a) - index_of (chain b) (eg_granted_by b) \<le> 0"

definition effectiveGrantsForOrg :: "string \<Rightarrow> string \<Rightarrow> authz_reads \<Rightarrow> effective_grant list" where
  "effectiveGrantsForOrg pid orgId rd =
     (let grants = rd_grants rd pid;
          targets = ancestorOrgIdsIncludingSelf (rd_orgs rd) orgId;
          targetsWithSelf = orgId # targets;
          direct = map direct_grant (filter (\<lambda>g. g_org g = orgId) grants);
          inherited = map (inherited_grant orgId)
            (filter (\<lambda>g. g_org g \<noteq> orgId \<and> g_scope g = Subtree \<and> g_org g \<in> set targetsWithSelf) grants)
      in direct @ js_sort (nearer (\<lambda>_. targets)) inherited)"

text \<open>\<open>attach\<close> with the variables it closes over: the keys seen and the contexts so far.\<close>

fun attach :: "string list \<times> effective_grant list \<Rightarrow> effective_grant \<Rightarrow> string list \<times> effective_grant list" where
  "attach (seen, contexts) g =
     (let key = grant_key (eg_org g) (role_text (eg_role g))
      in if key \<in> set seen then (seen, contexts) else (key # seen, contexts @ [g]))"

fun fan_out :: "organization list \<Rightarrow> role_grant list \<Rightarrow> effective_grant list option" where
  "fan_out orgs [] = Some []"
| "fan_out orgs (g # grants) =
     (if g_scope g \<noteq> Subtree \<or> g_org g \<notin> set (map org_id orgs) then fan_out orgs grants
      else case descendantOrgIdsIncludingSelf orgs (g_org g) of
             None \<Rightarrow> None
           | Some below \<Rightarrow>
               map_option ((@) (map (\<lambda>orgId. inherited_grant orgId g) (filter (\<lambda>orgId. orgId \<noteq> g_org g) below)))
                 (fan_out orgs grants))"

definition listEffectiveContexts :: "request_identity \<Rightarrow> authz_reads \<Rightarrow> effective_grant list option" where
  "listEffectiveContexts identity rd =
     (case resolvePrincipalId identity rd of
        None \<Rightarrow> Some []
      | Some pid \<Rightarrow>
          (let grants = rd_grants rd pid;
               orgs = rd_orgs rd;
               direct = map direct_grant (filter (\<lambda>g. g_org g \<in> set (map org_id orgs)) grants)
           in map_option
                (\<lambda>inherited. snd (foldl attach (foldl attach ([], []) direct)
                   (js_sort (nearer (\<lambda>e. ancestorOrgIdsIncludingSelf orgs (eg_org e))) inherited)))
                (fan_out orgs grants)))"

definition pickRole :: "effective_grant list \<Rightarrow> string option \<Rightarrow> denial_reason + (role \<times> role list)" where
  "pickRole effective claimed =
     (let present = set (map eg_role effective);
          roles = filter (\<lambda>r. r \<in> present) ROLES
      in case claimed of
           Some c \<Rightarrow>
             (case role_of c of
                None \<Rightarrow> Inl Role_not_granted
              | Some r \<Rightarrow> if r \<in> present then Inr (r, roles) else Inl Role_not_granted)
         | None \<Rightarrow>
             (case roles of
                [r] \<Rightarrow> Inr (r, roles)
              | [] \<Rightarrow> Inl No_context_at_org
              | _ \<Rightarrow> Inl Role_required))"

definition context_of :: "string \<Rightarrow> effective_grant \<Rightarrow> active_context" where
  "context_of pid e = \<lparr>ac_principal = pid, ac_org = eg_org e, ac_role = eg_role e, ac_scope = eg_scope e,
     ac_granted_by = eg_granted_by e, ac_direct = eg_direct e\<rparr>"

definition matching_grant :: "role \<Rightarrow> effective_grant list \<Rightarrow> effective_grant option" where
  "matching_grant role effective =
     (case find (\<lambda>e. eg_role e = role \<and> eg_direct e) effective of
        Some e \<Rightarrow> Some e
      | None \<Rightarrow> find (\<lambda>e. eg_role e = role) effective)"

definition resolve_at_org :: "string \<Rightarrow> string \<Rightarrow> string option \<Rightarrow> authz_reads \<Rightarrow> context_resolution" where
  "resolve_at_org pid orgId claimed rd =
     (case rd_org rd orgId of
        None \<Rightarrow> Denied No_context_at_org
      | Some _ \<Rightarrow>
          (let effective = effectiveGrantsForOrg pid orgId rd
           in if effective = [] then Denied No_context_at_org
              else case pickRole effective claimed of
                Inl reason \<Rightarrow> Denied reason
              | Inr (role, roles) \<Rightarrow>
                  (case matching_grant role effective of
                     None \<Rightarrow> Denied Role_not_granted
                   | Some e \<Rightarrow> Authorized ((context_of pid e)\<lparr>ac_org := orgId, ac_role := role\<rparr>) roles)))"

definition resolveActiveContext :: "request_identity \<Rightarrow> context_selection option \<Rightarrow> authz_reads \<Rightarrow> context_resolution option" where
  "resolveActiveContext identity selection rd =
     (case resolvePrincipalId identity rd of
        None \<Rightarrow> Some (Denied Unknown_principal)
      | Some pid \<Rightarrow>
          (case (case selection of None \<Rightarrow> None | Some s \<Rightarrow> sel_org s) of
             Some orgId \<Rightarrow> Some (resolve_at_org pid orgId (case selection of None \<Rightarrow> None | Some s \<Rightarrow> sel_role s) rd)
           | None \<Rightarrow>
               (case listEffectiveContexts identity rd of
                  None \<Rightarrow> None
                | Some [] \<Rightarrow> Some (Denied Unknown_principal)
                | Some [only] \<Rightarrow> Some (Authorized (context_of pid only) [eg_role only])
                | Some _ \<Rightarrow> Some (Denied Ambiguous_context))))"

section \<open>The contract: which rows cover an organization\<close>

definition grant_covers :: "organization list \<Rightarrow> role_grant \<Rightarrow> string \<Rightarrow> bool" where
  "grant_covers orgs g orgId \<longleftrightarrow>
     g_org g = orgId \<or> (g_scope g = Subtree \<and> g_org g \<in> org_id ` set orgs \<and> (g_org g, orgId) \<in> (tree_rel orgs)\<^sup>*)"

definition may_act :: "authz_reads \<Rightarrow> string \<Rightarrow> string \<Rightarrow> role \<Rightarrow> bool" where
  "may_act rd pid orgId role \<longleftrightarrow>
     (\<exists>g \<in> set (rd_grants rd pid). g_role g = role \<and> grant_covers (rd_orgs rd) g orgId)"


text \<open>The one grant a role at an organization comes from: the row itself where it is direct, and
  otherwise the covering row of the nearest ancestor.\<close>

definition grant_at :: "string \<Rightarrow> role_grant \<Rightarrow> effective_grant" where
  "grant_at orgId g = (if g_org g = orgId then direct_grant g else inherited_grant orgId g)"

definition distance :: "authz_reads \<Rightarrow> string \<Rightarrow> role_grant \<Rightarrow> int" where
  "distance rd orgId g = index_of (ancestorOrgIdsIncludingSelf (rd_orgs rd) orgId) (g_org g)"

definition nearest_grant :: "authz_reads \<Rightarrow> string \<Rightarrow> string \<Rightarrow> role \<Rightarrow> role_grant \<Rightarrow> bool" where
  "nearest_grant rd pid orgId role g \<longleftrightarrow>
     g \<in> set (rd_grants rd pid) \<and> g_role g = role \<and> grant_covers (rd_orgs rd) g orgId
   \<and> (\<forall>g' \<in> set (rd_grants rd pid). g_role g' = role \<longrightarrow> grant_covers (rd_orgs rd) g' orgId \<longrightarrow>
        distance rd orgId g \<le> distance rd orgId g')"

lemma grant_at_simps [simp]:
  "eg_org (grant_at orgId g) = orgId" "eg_role (grant_at orgId g) = g_role g"
  "eg_scope (grant_at orgId g) = g_scope g" "eg_granted_by (grant_at orgId g) = g_org g"
  "eg_direct (grant_at orgId g) \<longleftrightarrow> g_org g = orgId"
  by (simp_all add: grant_at_def direct_grant_def inherited_grant_def)

lemma index_of_hd: "xs \<noteq> [] \<Longrightarrow> index_of xs (hd xs) = 0"
  by (cases xs) simp_all

lemma covering_org: "o' \<in> org_id ` set (rd_orgs rd) \<Longrightarrow> grant_covers (rd_orgs rd) g o' \<Longrightarrow>
    g_org g \<in> set (ancestorOrgIdsIncludingSelf (rd_orgs rd) o')"
  by (auto simp: grant_covers_def set_ancestors)

lemma distance_direct: "g_org g \<in> org_id ` set (rd_orgs rd) \<Longrightarrow> distance rd (g_org g) g = 0"
  using index_of_hd [of "ancestorOrgIdsIncludingSelf (rd_orgs rd) (g_org g)"] ancestors_self [of "g_org g" "rd_orgs rd"]
    ancestors_hd [of "g_org g" "rd_orgs rd"] by (metis distance_def empty_iff list.set(1))

lemma distance_nonneg: "o' \<in> org_id ` set (rd_orgs rd) \<Longrightarrow> grant_covers (rd_orgs rd) g o' \<Longrightarrow> 0 \<le> distance rd o' g"
  unfolding distance_def by (rule index_of_nonneg) (rule covering_org)

lemma nearest_direct:
  assumes "o' \<in> org_id ` set (rd_orgs rd)" "g \<in> set (rd_grants rd pid)" "g_org g = o'"
  shows "nearest_grant rd pid o' (g_role g) g"
  using assms distance_nonneg [OF assms(1)] distance_direct [of g rd] by (auto simp: nearest_grant_def grant_covers_def)

lemma nearest_unique:
  assumes org: "o' \<in> org_id ` set (rd_orgs rd)" and rows: "distinct (map row_key (rd_grants rd pid))"
    and g: "nearest_grant rd pid o' role g" and h: "nearest_grant rd pid o' role h"
  shows "g = h"
proof -
  have "distance rd o' g \<le> distance rd o' h" "distance rd o' h \<le> distance rd o' g"
    using g h unfolding nearest_grant_def by blast+
  then have "distance rd o' g = distance rd o' h" by simp
  with g covering_org [OF org, of g] have "g_org g = g_org h"
    by (auto simp: distance_def nearest_grant_def intro: index_of_inject)
  with g h have "row_key g = row_key h" by (simp add: nearest_grant_def row_key_def)
  with rows g h show ?thesis by (auto simp: nearest_grant_def distinct_map dest: inj_onD)
qed

section \<open>Grants at one organization\<close>

lemma effective_set:
  "set (effectiveGrantsForOrg pid orgId rd) = grant_at orgId ` {g \<in> set (rd_grants rd pid). grant_covers (rd_orgs rd) g orgId}"
  by (auto simp: effectiveGrantsForOrg_def Let_def set_ancestors grant_covers_def grant_at_def image_iff)

lemma effective_roles: "role \<in> eg_role ` set (effectiveGrantsForOrg pid orgId rd) \<longleftrightarrow> may_act rd pid orgId role"
  by (auto simp: effective_set may_act_def image_iff)

lemma find_append: "find P (xs @ ys) = (case find P xs of Some x \<Rightarrow> Some x | None \<Rightarrow> find P ys)"
  by (induction xs) auto

lemma find_none_if: "(\<And>x. x \<in> set xs \<Longrightarrow> \<not> P x) \<Longrightarrow> find P xs = None"
  by (induction xs) auto

lemma matching_grantD: "matching_grant role xs = Some e \<Longrightarrow> e \<in> set xs \<and> eg_role e = role"
  using find_SomeD [of "\<lambda>e. eg_role e = role \<and> eg_direct e" xs e] find_SomeD [of "\<lambda>e. eg_role e = role" xs e]
  by (cases "find (\<lambda>e. eg_role e = role \<and> eg_direct e) xs") (simp_all add: matching_grant_def)

lemma matching_nearest:
  assumes org: "orgId \<in> org_id ` set (rd_orgs rd)"
    and m: "matching_grant role (effectiveGrantsForOrg pid orgId rd) = Some e"
  shows "\<exists>g. nearest_grant rd pid orgId role g \<and> e = grant_at orgId g"
proof -
  let ?direct = "map direct_grant (filter (\<lambda>g. g_org g = orgId) (rd_grants rd pid))"
  let ?targets = "ancestorOrgIdsIncludingSelf (rd_orgs rd) orgId"
  let ?inherited = "js_sort (nearer (\<lambda>_. ?targets)) (map (inherited_grant orgId)
            (filter (\<lambda>g. g_org g \<noteq> orgId \<and> g_scope g = Subtree \<and> g_org g \<in> set (orgId # ?targets)) (rd_grants rd pid)))"
  have eff: "effectiveGrantsForOrg pid orgId rd = ?direct @ ?inherited"
    by (simp add: effectiveGrantsForOrg_def Let_def)
  have e: "e \<in> set (effectiveGrantsForOrg pid orgId rd) \<and> eg_role e = role"
    using m by (rule matching_grantD)
  then obtain g where at: "e = grant_at orgId g" "g \<in> set (rd_grants rd pid)" "grant_covers (rd_orgs rd) g orgId"
    unfolding effective_set by blast
  with e have g: "g \<in> set (rd_grants rd pid)" "grant_covers (rd_orgs rd) g orgId" "e = grant_at orgId g" "g_role g = role"
    by simp_all
  show ?thesis
  proof (cases "g_org g = orgId")
    case True
    with nearest_direct [OF org g(1)] g show ?thesis by blast
  next
    case False
    then have "\<not> eg_direct e" using g(3) by simp
    have none: "find (\<lambda>e. eg_role e = role \<and> eg_direct e) (effectiveGrantsForOrg pid orgId rd) = None"
    proof (rule ccontr)
      assume "find (\<lambda>e. eg_role e = role \<and> eg_direct e) (effectiveGrantsForOrg pid orgId rd) \<noteq> None"
      then obtain e' where e': "find (\<lambda>e. eg_role e = role \<and> eg_direct e) (effectiveGrantsForOrg pid orgId rd) = Some e'" by blast
      with m have "e' = e" by (simp add: matching_grant_def)
      with find_SomeD [OF e'] \<open>\<not> eg_direct e\<close> show False by simp
    qed
    with m have found: "find (\<lambda>e. eg_role e = role) (effectiveGrantsForOrg pid orgId rd) = Some e"
      by (simp add: matching_grant_def)
    have no_direct: "\<not> (g_role h = role \<and> g_org h = orgId)" if "h \<in> set (rd_grants rd pid)" for h
    proof
      assume h: "g_role h = role \<and> g_org h = orgId"
      with that have "grant_at orgId h \<in> set (effectiveGrantsForOrg pid orgId rd)"
        unfolding effective_set by (intro imageI) (simp add: grant_covers_def)
      from find_NoneD [OF none this] h show False by simp
    qed
    have "find (\<lambda>e. eg_role e = role) ?direct = None"
      by (rule find_none_if) (use no_direct in \<open>fastforce simp: direct_grant_def\<close>)
    then have first: "find (\<lambda>e. eg_role e = role) ?inherited = Some e"
      using found by (simp add: eff find_append)
    have sorted: "sorted_wrt (nearer (\<lambda>_. ?targets)) ?inherited"
      by (rule sorted_wrt_js_sort) (auto simp: nearer_def)
    have "distance rd orgId g \<le> distance rd orgId h"
      if h: "h \<in> set (rd_grants rd pid)" "g_role h = role" "grant_covers (rd_orgs rd) h orgId" for h
    proof -
      have "g_org h \<noteq> orgId" using no_direct h by blast
      with h have "h \<in> set (filter (\<lambda>g. g_org g \<noteq> orgId \<and> g_scope g = Subtree \<and> g_org g \<in> set (orgId # ?targets)) (rd_grants rd pid))"
        by (simp add: grant_covers_def set_ancestors)
      then have "inherited_grant orgId h \<in> set ?inherited" unfolding set_js_sort set_map by (rule imageI)
      moreover have "eg_role (inherited_grant orgId h) = role" using h(2) by (simp add: inherited_grant_def)
      ultimately have this: "inherited_grant orgId h \<in> set ?inherited" "eg_role (inherited_grant orgId h) = role" by simp_all
      from find_sorted [OF sorted first this] g(3) False show ?thesis
        by (auto simp: nearer_def distance_def grant_at_def inherited_grant_def)
    qed
    with g have "nearest_grant rd pid orgId role g" by (simp add: nearest_grant_def)
    with g(3) show ?thesis by blast
  qed
qed

lemma matching_exists:
  "may_act rd pid orgId role \<longleftrightarrow> (\<exists>e. matching_grant role (effectiveGrantsForOrg pid orgId rd) = Some e)"
proof -
  have "(\<exists>e. matching_grant role xs = Some e) \<longleftrightarrow> role \<in> eg_role ` set xs" for xs
  proof
    assume "role \<in> eg_role ` set xs"
    then obtain e where "e \<in> set xs" "eg_role e = role" by blast
    with find_NoneD [of "\<lambda>e. eg_role e = role" xs e] have "find (\<lambda>e. eg_role e = role) xs \<noteq> None" by auto
    then show "\<exists>e. matching_grant role xs = Some e" by (auto simp: matching_grant_def split: option.splits)
  qed (auto dest: matching_grantD)
  then show ?thesis by (simp add: effective_roles)
qed

section \<open>All contexts\<close>

definition eff_key :: "effective_grant \<Rightarrow> string" where
  "eff_key e = grant_key (eg_org e) (role_text (eg_role e))"

fun novel :: "string set \<Rightarrow> effective_grant list \<Rightarrow> effective_grant list" where
  "novel K [] = []"
| "novel K (g # gs) = (if eff_key g \<in> K then novel K gs else g # novel (insert (eff_key g) K) gs)"

lemma attach_novel:
  "foldl attach (seen, cs) gs = (seen', cs') \<Longrightarrow>
   cs' = cs @ novel (set seen) gs \<and> set seen' = set seen \<union> eff_key ` set gs"
proof (induction gs arbitrary: seen cs)
  case (Cons g gs)
  show ?case
  proof (cases "eff_key g \<in> set seen")
    case True
    with Cons.prems have "foldl attach (seen, cs) gs = (seen', cs')" by (simp add: eff_key_def)
    from Cons.IH [OF this] True show ?thesis by auto
  next
    case False
    with Cons.prems have "foldl attach (eff_key g # seen, cs @ [g]) gs = (seen', cs')" by (simp add: eff_key_def Let_def)
    from Cons.IH [OF this] False show ?thesis by auto
  qed
qed simp

lemma novel_outside: "e \<in> set (novel K gs) \<Longrightarrow> eff_key e \<notin> K"
  by (induction gs arbitrary: K) (auto split: if_splits)

lemma novel_first: "e \<in> set (novel K gs) \<Longrightarrow> find (\<lambda>g. eff_key g = eff_key e) gs = Some e"
  by (induction gs arbitrary: K) (auto split: if_splits dest: novel_outside)

lemma novel_keys: "eff_key ` set (novel K gs) = eff_key ` set gs - K"
  by (induction gs arbitrary: K) (auto split: if_splits)

lemma novel_distinct: "distinct (map eff_key (novel K gs))"
proof (induction gs arbitrary: K)
  case (Cons g gs)
  have "eff_key g \<notin> eff_key ` set (novel (insert (eff_key g) K) gs)" by (simp add: novel_keys)
  with Cons show ?case by simp
qed simp

lemma eff_key_grant_at [simp]: "eff_key (grant_at o1 g) = eff_key (grant_at o2 h) \<longleftrightarrow> o1 = o2 \<and> g_role g = g_role h"
  by (simp add: eff_key_def)

lemma fan_out_returns:
  assumes "acyclic_tree orgs" "distinct (map org_id orgs)"
  shows "\<exists>inherited. fan_out orgs grants = Some inherited \<and>
    set inherited = {grant_at y g | y g. g \<in> set grants \<and> g_scope g = Subtree \<and> g_org g \<in> org_id ` set orgs
       \<and> (g_org g, y) \<in> (tree_rel orgs)\<^sup>* \<and> y \<noteq> g_org g}"
proof (induction grants)
  case (Cons g grants)
  then obtain rest where rest: "fan_out orgs grants = Some rest" and set_rest:
    "set rest = {grant_at y g | y g. g \<in> set grants \<and> g_scope g = Subtree \<and> g_org g \<in> org_id ` set orgs
       \<and> (g_org g, y) \<in> (tree_rel orgs)\<^sup>* \<and> y \<noteq> g_org g}" by blast
  obtain below where below: "descendantOrgIdsIncludingSelf orgs (g_org g) = Some below"
    "set below = {y. (g_org g, y) \<in> (tree_rel orgs)\<^sup>*}" using descendants_return [OF assms] by blast
  have at: "inherited_grant y g = grant_at y g" if "y \<noteq> g_org g" for y using that by (simp add: grant_at_def)
  show ?case
  proof (cases "g_scope g \<noteq> Subtree \<or> g_org g \<notin> set (map org_id orgs)")
    case True
    then have "fan_out orgs (g # grants) = Some rest" using rest by auto
    then show ?thesis using True set_rest by (intro exI [of _ rest] conjI) (assumption, auto)
  next
    case False
    then have "fan_out orgs (g # grants) =
        Some (map (\<lambda>y. inherited_grant y g) (filter (\<lambda>y. y \<noteq> g_org g) below) @ rest)"
      using rest below(1) by auto
    moreover have "set (map (\<lambda>y. inherited_grant y g) (filter (\<lambda>y. y \<noteq> g_org g) below) @ rest)
        = (\<lambda>y. grant_at y g) ` {y. (g_org g, y) \<in> (tree_rel orgs)\<^sup>* \<and> y \<noteq> g_org g} \<union> set rest"
      using below(2) at by (auto simp: image_iff) 
    moreover have "\<dots> = {grant_at y g' | y g'. g' \<in> set (g # grants) \<and> g_scope g' = Subtree \<and> g_org g' \<in> org_id ` set orgs
       \<and> (g_org g', y) \<in> (tree_rel orgs)\<^sup>* \<and> y \<noteq> g_org g'}"
      using False by (auto simp: set_rest)
    ultimately show ?thesis by blast
  qed
qed simp


text \<open>What the list of contexts is, for the reads of a well-formed store.\<close>

definition reads_ok :: "authz_reads \<Rightarrow> bool" where
  "reads_ok rd \<longleftrightarrow> acyclic_tree (rd_orgs rd) \<and> distinct (map org_id (rd_orgs rd))
   \<and> (\<forall>k. rd_org rd k \<noteq> None \<longleftrightarrow> k \<in> org_id ` set (rd_orgs rd))
   \<and> (\<forall>pid. distinct (map row_key (rd_grants rd pid)))"

definition known_contexts :: "authz_reads \<Rightarrow> string \<Rightarrow> (string \<times> role) set" where
  "known_contexts rd pid = {(orgId, role). rd_org rd orgId \<noteq> None \<and> may_act rd pid orgId role}"

lemma reaches_known: "(a, y) \<in> (tree_rel orgs)\<^sup>* \<Longrightarrow> y \<noteq> a \<Longrightarrow> y \<in> org_id ` set orgs"
proof (erule rtranclE)
  fix p assume "(p, y) \<in> tree_rel orgs"
  then have "y \<in> dom (map_of (by_id orgs))" unfolding parent_rel_def by blast
  then show ?thesis by simp
qed simp

lemma contexts_exist:
  assumes ok: "reads_ok rd" and pid: "resolvePrincipalId identity rd = Some pid"
  shows "\<exists>inherited cs direct. listEffectiveContexts identity rd = Some cs
    \<and> cs = novel {} direct @ novel (eff_key ` set direct) inherited
    \<and> set direct = {grant_at (g_org g) g | g. g \<in> set (rd_grants rd pid) \<and> g_org g \<in> org_id ` set (rd_orgs rd)}
    \<and> set inherited = {grant_at y g | y g. g \<in> set (rd_grants rd pid) \<and> g_scope g = Subtree
         \<and> g_org g \<in> org_id ` set (rd_orgs rd) \<and> (g_org g, y) \<in> (tree_rel (rd_orgs rd))\<^sup>* \<and> y \<noteq> g_org g}
    \<and> sorted_wrt (nearer (\<lambda>e. ancestorOrgIdsIncludingSelf (rd_orgs rd) (eg_org e))) inherited"
proof -
  let ?le = "nearer (\<lambda>e. ancestorOrgIdsIncludingSelf (rd_orgs rd) (eg_org e))"
  let ?direct = "map direct_grant (filter (\<lambda>g. g_org g \<in> set (map org_id (rd_orgs rd))) (rd_grants rd pid))"
  from ok have "acyclic_tree (rd_orgs rd)" "distinct (map org_id (rd_orgs rd))" by (simp_all add: reads_ok_def)
  from fan_out_returns [OF this] obtain inh where inh: "fan_out (rd_orgs rd) (rd_grants rd pid) = Some inh"
    and set_inh: "set inh = {grant_at y g | y g. g \<in> set (rd_grants rd pid) \<and> g_scope g = Subtree
         \<and> g_org g \<in> org_id ` set (rd_orgs rd) \<and> (g_org g, y) \<in> (tree_rel (rd_orgs rd))\<^sup>* \<and> y \<noteq> g_org g}"
    by blast
  obtain s1 c1 where one: "foldl attach ([], []) ?direct = (s1, c1)" by force
  obtain s2 c2 where two: "foldl attach (s1, c1) (js_sort ?le inh) = (s2, c2)" by force
  have "c2 = novel {} ?direct @ novel (eff_key ` set ?direct) (js_sort ?le inh)"
    using attach_novel [OF one] attach_novel [OF two] by simp
  moreover have "listEffectiveContexts identity rd = Some c2"
    using pid inh one two by (simp add: listEffectiveContexts_def Let_def)
  moreover have "set ?direct = {grant_at (g_org g) g | g. g \<in> set (rd_grants rd pid) \<and> g_org g \<in> org_id ` set (rd_orgs rd)}"
    by (simp add: grant_at_def image_Collect set_filter conj_commute)
  moreover have "sorted_wrt ?le (js_sort ?le inh)"
    by (rule sorted_wrt_js_sort) (auto simp: nearer_def)
  moreover have "set (js_sort ?le inh) = {grant_at y g | y g. g \<in> set (rd_grants rd pid) \<and> g_scope g = Subtree
         \<and> g_org g \<in> org_id ` set (rd_orgs rd) \<and> (g_org g, y) \<in> (tree_rel (rd_orgs rd))\<^sup>* \<and> y \<noteq> g_org g}"
    using set_inh by simp
  ultimately show ?thesis
    by (intro exI [of _ "js_sort ?le inh"] exI [of _ c2] exI [of _ ?direct] conjI)
qed


lemma contexts_spec:
  assumes ok: "reads_ok rd" and pid: "resolvePrincipalId identity rd = Some pid"
  shows "\<exists>cs. listEffectiveContexts identity rd = Some cs
    \<and> distinct (map eff_key cs)
    \<and> (\<lambda>e. (eg_org e, eg_role e)) ` set cs = known_contexts rd pid
    \<and> (\<forall>e \<in> set cs. eg_org e \<in> org_id ` set (rd_orgs rd)
         \<and> (\<exists>g. nearest_grant rd pid (eg_org e) (eg_role e) g \<and> e = grant_at (eg_org e) g))"
proof -
  let ?ids = "org_id ` set (rd_orgs rd)" and ?grants = "set (rd_grants rd pid)" and ?tree = "tree_rel (rd_orgs rd)"
  let ?at = "\<lambda>e. (eg_org e, eg_role e)"
  obtain inh cs direct where cs: "listEffectiveContexts identity rd = Some cs"
      "cs = novel {} direct @ novel (eff_key ` set direct) inh"
    and direct: "set direct = {grant_at (g_org g) g | g. g \<in> ?grants \<and> g_org g \<in> ?ids}"
    and inh: "set inh = {grant_at y g | y g. g \<in> ?grants \<and> g_scope g = Subtree
         \<and> g_org g \<in> ?ids \<and> (g_org g, y) \<in> ?tree\<^sup>* \<and> y \<noteq> g_org g}"
    and sorted: "sorted_wrt (nearer (\<lambda>e. ancestorOrgIdsIncludingSelf (rd_orgs rd) (eg_org e))) inh"
    using contexts_exist [OF assms] by (elim exE conjE) (rule that)
  have covered: "\<exists>y g. e = grant_at y g \<and> g \<in> ?grants \<and> grant_covers (rd_orgs rd) g y \<and> y \<in> ?ids"
    if "e \<in> set direct \<union> set inh" for e
  proof -
    from that consider (own) g where "g \<in> ?grants" "g_org g \<in> ?ids" "e = grant_at (g_org g) g"
      | (above) y g where "g \<in> ?grants" "g_scope g = Subtree" "g_org g \<in> ?ids" "(g_org g, y) \<in> ?tree\<^sup>*" "y \<noteq> g_org g" "e = grant_at y g"
      unfolding direct inh by blast
    then show ?thesis
      by cases (use reaches_known in \<open>unfold grant_covers_def, blast+\<close>)
  qed
  have placed: "grant_at y h \<in> set direct \<union> set inh"
    if "y \<in> ?ids" "h \<in> ?grants" "grant_covers (rd_orgs rd) h y" for y h
  proof (cases "g_org h = y")
    case True
    with that(1,2) have "grant_at (g_org h) h \<in> set direct" unfolding direct by blast
    with True show ?thesis by simp
  next
    case False
    have "grant_at y h \<in> set inh" unfolding inh mem_Collect_eq
      by (intro exI [of _ y] exI [of _ h]) (use that False in \<open>auto simp: grant_covers_def\<close>)
    then show ?thesis ..
  qed
  have keys: "eff_key ` set cs = eff_key ` (set direct \<union> set inh)"
    unfolding cs(2) by (simp add: image_Un novel_keys)
  have sub: "set cs \<subseteq> set direct \<union> set inh"
  proof
    fix e assume "e \<in> set cs"
    then have "find (\<lambda>g. eff_key g = eff_key e) direct = Some e \<or> find (\<lambda>g. eff_key g = eff_key e) inh = Some e"
      unfolding cs(2) by (auto dest: novel_first)
    then show "e \<in> set direct \<union> set inh" by (auto dest: find_SomeD)
  qed
  have "distinct (map eff_key cs)"
    unfolding cs(2) map_append distinct_append set_map novel_keys by (simp add: novel_distinct Diff_Int_distrib2)
  moreover have "?at ` set cs = known_contexts rd pid"
  proof (intro set_eqI iffI)
    fix x assume "x \<in> ?at ` set cs"
    then obtain e where e: "e \<in> set cs" "x = ?at e" by blast
    with sub covered [of e] obtain y g where g: "e = grant_at y g" "g \<in> ?grants" "grant_covers (rd_orgs rd) g y" "y \<in> ?ids"
      by blast
    have "x = (y, g_role g)" using e(2) g(1) by simp
    moreover have "rd_org rd y \<noteq> None" using ok g(4) by (simp add: reads_ok_def)
    ultimately show "x \<in> known_contexts rd pid" using g(2,3) by (auto simp: known_contexts_def may_act_def)
  next
    fix x assume x: "x \<in> known_contexts rd pid"
    obtain orgId role where "x = (orgId, role)" by force
    with x ok obtain g where g: "x = (orgId, g_role g)" "orgId \<in> ?ids" "g \<in> ?grants" "grant_covers (rd_orgs rd) g orgId"
      by (auto simp: known_contexts_def may_act_def reads_ok_def)
    have "grant_at orgId g \<in> set direct \<union> set inh"
      using g(2-4) by (rule placed)
    with keys have "eff_key (grant_at orgId g) \<in> eff_key ` set cs" by blast
    then obtain e where "e \<in> set cs" "eff_key (grant_at orgId g) = eff_key e" by blast
    with g(1) show "x \<in> ?at ` set cs" by (auto simp: eff_key_def image_iff)
  qed
  moreover have "eg_org e \<in> ?ids \<and> (\<exists>g. nearest_grant rd pid (eg_org e) (eg_role e) g \<and> e = grant_at (eg_org e) g)"
    if e: "e \<in> set cs" for e
  proof -
    from e sub covered [of e] obtain y g where at: "e = grant_at y g" and g: "g \<in> ?grants"
      "grant_covers (rd_orgs rd) g y" "y \<in> ?ids" by blast
    have e_at [simp]: "eg_org e = y" "eg_role e = g_role g" "eg_granted_by e = g_org g" using at by simp_all
    have "nearest_grant rd pid y (g_role g) g"
    proof (cases "g_org g = y")
      case True
      with nearest_direct [OF g(3,1)] show ?thesis by simp
    next
      case False
      have "e \<notin> set direct"
      proof
        assume "e \<in> set direct"
        then obtain h where "e = grant_at (g_org h) h" unfolding direct by blast
        then have "eg_granted_by e = eg_org e" by (metis grant_at_simps(1,4))
        with False show False by simp
      qed
      then have "\<not> find (\<lambda>g. eff_key g = eff_key e) direct = Some e" by (auto dest: find_SomeD)
      with e have nov: "e \<in> set (novel (eff_key ` set direct) inh)" unfolding cs(2) by (auto dest: novel_first)
      from novel_first [OF nov] have first: "find (\<lambda>g. eff_key g = eff_key e) inh = Some e" .
      from novel_outside [OF nov] have fresh: "eff_key e \<notin> eff_key ` set direct" .
      have "distance rd y g \<le> distance rd y h"
        if h: "h \<in> ?grants" "g_role h = g_role g" "grant_covers (rd_orgs rd) h y" for h
      proof -
        have key: "eff_key (grant_at y h) = eff_key e" using h(2) by (simp add: eff_key_def)
        with fresh have "grant_at y h \<notin> set direct" by (metis imageI)
        then have "grant_at y h \<in> set inh"
          using placed [OF g(3) h(1,3)] by blast
        from find_sorted [OF sorted first this key] have "e = grant_at y h \<or> distance rd y g - distance rd y h \<le> 0"
          by (simp add: nearer_def distance_def)
        moreover have "g_org g = g_org h" if "e = grant_at y h" using that at by (metis grant_at_simps(4))
        ultimately show ?thesis by (auto simp: distance_def)
      qed
      with g show ?thesis by (simp add: nearest_grant_def)
    qed
    with g(3) at show ?thesis unfolding e_at by blast
  qed
  ultimately show ?thesis using cs(1) by blast
qed


section \<open>The resolver on well-formed reads\<close>

abbreviation roles_at :: "authz_reads \<Rightarrow> string \<Rightarrow> string \<Rightarrow> role list" where
  "roles_at rd pid orgId \<equiv> filter (may_act rd pid orgId) ROLES"

abbreviation picked :: "string option \<Rightarrow> role \<Rightarrow> role list \<Rightarrow> bool" where
  "picked claimed role roles \<equiv> (case claimed of Some c \<Rightarrow> c = role_text role | None \<Rightarrow> roles = [role])"

lemma pickRole_at:
  "pickRole (effectiveGrantsForOrg pid orgId rd) claimed =
     (case claimed of
        Some c \<Rightarrow> (case role_of c of None \<Rightarrow> Inl Role_not_granted
                  | Some r \<Rightarrow> if may_act rd pid orgId r then Inr (r, roles_at rd pid orgId) else Inl Role_not_granted)
      | None \<Rightarrow> (case roles_at rd pid orgId of [r] \<Rightarrow> Inr (r, roles_at rd pid orgId)
                  | [] \<Rightarrow> Inl No_context_at_org | _ \<Rightarrow> Inl Role_required))"
proof -
  have "r \<in> set (map eg_role (effectiveGrantsForOrg pid orgId rd)) \<longleftrightarrow> may_act rd pid orgId r" for r
    using effective_roles [of r pid orgId rd] by simp
  then show ?thesis unfolding pickRole_def Let_def by presburger
qed

lemma role_of_None_iff: "role_of s = None \<longleftrightarrow> (\<forall>r. s \<noteq> role_text r)"
  by (metis not_None_eq role_of_Some)

lemma pickRole_Inr:
  "pickRole (effectiveGrantsForOrg pid orgId rd) claimed = Inr (role, roles) \<longleftrightarrow>
     may_act rd pid orgId role \<and> roles = roles_at rd pid orgId \<and> picked claimed role roles"
proof (cases claimed)
  case None
  have "may_act rd pid orgId r" if "roles_at rd pid orgId = [r]" for r
  proof -
    have "r \<in> set (roles_at rd pid orgId)" unfolding that by simp
    then show ?thesis by simp
  qed
  moreover have "(case rs of [r] \<Rightarrow> Inr (r, rs) | [] \<Rightarrow> Inl No_context_at_org | _ \<Rightarrow> Inl Role_required) = Inr (role, roles)
      \<longleftrightarrow> roles = rs \<and> rs = [role]" for rs
    by (auto split: list.splits)
  ultimately show ?thesis unfolding pickRole_at None option.case by metis
next
  case (Some c)
  then show ?thesis by (auto simp: pickRole_at role_of_Some split: option.splits)
qed

lemma effective_empty: "effectiveGrantsForOrg pid orgId rd = [] \<longleftrightarrow> (\<forall>role. \<not> may_act rd pid orgId role)"
proof -
  have "eg_role ` set (effectiveGrantsForOrg pid orgId rd) = {r. may_act rd pid orgId r}"
    using effective_roles [of _ pid orgId rd] by blast
  moreover have "effectiveGrantsForOrg pid orgId rd = [] \<longleftrightarrow> eg_role ` set (effectiveGrantsForOrg pid orgId rd) = {}" by simp
  ultimately show ?thesis by auto
qed

lemma nearest_may_act: "nearest_grant rd pid orgId role g \<Longrightarrow> may_act rd pid orgId role"
  by (auto simp: nearest_grant_def may_act_def)

lemma reads_okD: "reads_ok rd \<Longrightarrow> rd_org rd orgId \<noteq> None \<longleftrightarrow> orgId \<in> org_id ` set (rd_orgs rd)"
  "reads_ok rd \<Longrightarrow> distinct (map row_key (rd_grants rd pid))"
  by (simp_all add: reads_ok_def)

lemma matching_iff:
  assumes ok: "reads_ok rd" and org: "rd_org rd orgId \<noteq> None"
  shows "matching_grant role (effectiveGrantsForOrg pid orgId rd) = Some e \<longleftrightarrow>
    (\<exists>g. nearest_grant rd pid orgId role g \<and> e = grant_at orgId g)" (is "?lhs \<longleftrightarrow> ?rhs")
proof
  have known: "orgId \<in> org_id ` set (rd_orgs rd)" using reads_okD(1) [OF ok] org by blast
  show "?lhs \<Longrightarrow> ?rhs" by (rule matching_nearest [OF known])
  assume ?rhs
  then obtain g where g: "nearest_grant rd pid orgId role g" "e = grant_at orgId g" by blast
  then obtain e' where e': "matching_grant role (effectiveGrantsForOrg pid orgId rd) = Some e'"
    using matching_exists nearest_may_act by blast
  from matching_nearest [OF known e'] obtain h where "nearest_grant rd pid orgId role h" "e' = grant_at orgId h" by blast
  with nearest_unique [OF known reads_okD(2) [OF ok] g(1)] g(2) e' show ?lhs by simp
qed

lemma context_at: "nearest_grant rd pid orgId role g \<Longrightarrow>
    (context_of pid (grant_at orgId g))\<lparr>ac_org := orgId, ac_role := role\<rparr> = context_of pid (grant_at orgId g)"
  by (simp add: context_of_def nearest_grant_def)

lemma resolve_at_org_Authorized:
  assumes ok: "reads_ok rd"
  shows "resolve_at_org pid orgId claimed rd = Authorized ctx roles \<longleftrightarrow>
     rd_org rd orgId \<noteq> None \<and> roles = roles_at rd pid orgId \<and> picked claimed (ac_role ctx) roles
   \<and> (\<exists>g. nearest_grant rd pid orgId (ac_role ctx) g \<and> ctx = context_of pid (grant_at orgId g))"
    (is "?lhs \<longleftrightarrow> ?rhs")
proof (cases "rd_org rd orgId = None")
  case True
  then show ?thesis by (simp add: resolve_at_org_def)
next
  case False
  note match = matching_iff [OF ok False, of _ pid]
  show ?thesis
  proof
    assume ?lhs
    then obtain role e where pick: "pickRole (effectiveGrantsForOrg pid orgId rd) claimed = Inr (role, roles)"
      and e: "matching_grant role (effectiveGrantsForOrg pid orgId rd) = Some e"
      and ctx: "ctx = (context_of pid e)\<lparr>ac_org := orgId, ac_role := role\<rparr>"
      using False by (auto simp: resolve_at_org_def Let_def split: option.splits if_splits sum.splits)
    from e match obtain g where g: "nearest_grant rd pid orgId role g" "e = grant_at orgId g" by blast
    have "ac_role ctx = role" unfolding ctx by simp
    moreover have "ctx = context_of pid (grant_at orgId g)" unfolding ctx g(2) by (rule context_at [OF g(1)])
    ultimately have "ctx = context_of pid (grant_at orgId g)" "ac_role ctx = role" by simp_all
    with g(1) pick False show ?rhs unfolding pickRole_Inr by blast
  next
    assume rhs: ?rhs
    then obtain g where g: "nearest_grant rd pid orgId (ac_role ctx) g" "ctx = context_of pid (grant_at orgId g)" by blast
    have "pickRole (effectiveGrantsForOrg pid orgId rd) claimed = Inr (ac_role ctx, roles)"
      unfolding pickRole_Inr using rhs nearest_may_act [OF g(1)] by blast
    moreover have "matching_grant (ac_role ctx) (effectiveGrantsForOrg pid orgId rd) = Some (grant_at orgId g)"
      using match g(1) by blast
    moreover have "effectiveGrantsForOrg pid orgId rd \<noteq> []"
      using nearest_may_act [OF g(1)] by (auto simp: effective_empty)
    ultimately show ?lhs using False context_at [OF g(1)] g(2) by (auto simp: resolve_at_org_def Let_def)
  qed
qed


lemma resolve_at_org_Denied:
  assumes ok: "reads_ok rd"
  shows "resolve_at_org pid orgId claimed rd = Denied reason \<longleftrightarrow>
     (if rd_org rd orgId = None \<or> (\<forall>role. \<not> may_act rd pid orgId role) then reason = No_context_at_org
      else case claimed of
             Some c \<Rightarrow> (\<forall>role. c = role_text role \<longrightarrow> \<not> may_act rd pid orgId role) \<and> reason = Role_not_granted
           | None \<Rightarrow> 2 \<le> length (roles_at rd pid orgId) \<and> reason = Role_required)"
proof (cases "rd_org rd orgId = None \<or> (\<forall>role. \<not> may_act rd pid orgId role)")
  case True
  then show ?thesis by (auto simp: resolve_at_org_def effective_empty split: option.splits)
next
  case False
  then obtain org r where org: "rd_org rd orgId = Some org" and r: "may_act rd pid orgId r" by auto
  have found: "\<exists>e. matching_grant role (effectiveGrantsForOrg pid orgId rd) = Some e" if "may_act rd pid orgId role" for role
    using that matching_exists by blast
  have "resolve_at_org pid orgId claimed rd = Denied reason \<longleftrightarrow>
      pickRole (effectiveGrantsForOrg pid orgId rd) claimed = Inl reason"
  proof (cases "pickRole (effectiveGrantsForOrg pid orgId rd) claimed")
    case (Inl reason')
    with False org show ?thesis by (auto simp: resolve_at_org_def effective_empty Let_def)
  next
    case (Inr p)
    obtain role roles where p: "p = (role, roles)" by force
    with Inr pickRole_Inr have "may_act rd pid orgId role" by blast
    with found [OF this] False org Inr p show ?thesis by (auto simp: resolve_at_org_def effective_empty Let_def)
  qed
  also have "\<dots> \<longleftrightarrow> (case claimed of
             Some c \<Rightarrow> (\<forall>role. c = role_text role \<longrightarrow> \<not> may_act rd pid orgId role) \<and> reason = Role_not_granted
           | None \<Rightarrow> 2 \<le> length (roles_at rd pid orgId) \<and> reason = Role_required)"
  proof (cases claimed)
    case None
    have "r \<in> set (roles_at rd pid orgId)" using r by simp
    moreover have "(case rs of [r] \<Rightarrow> Inr (r, rs) | [] \<Rightarrow> Inl No_context_at_org | _ \<Rightarrow> Inl Role_required) = Inl reason
      \<longleftrightarrow> 2 \<le> length rs \<and> reason = Role_required" if "r \<in> set rs" for rs
      using that by (auto split: list.splits)
    ultimately show ?thesis unfolding pickRole_at None option.case by metis
  next
    case (Some c)
    then show ?thesis by (auto simp: pickRole_at role_of_None_iff role_of_Some split: option.splits)
  qed
  finally show ?thesis unfolding if_not_P [OF False] .
qed

lemma pairs_distinct:
  assumes "distinct (map eff_key cs)"
  shows "card ((\<lambda>e. (eg_org e, eg_role e)) ` set cs) = length cs"
proof -
  have "inj_on eff_key (set cs)" "distinct cs" using assms by (auto simp: distinct_map)
  then have "inj_on (\<lambda>e. (eg_org e, eg_role e)) (set cs)"
    by (auto simp: inj_on_def eff_key_def)
  with \<open>distinct cs\<close> show ?thesis by (simp add: card_image distinct_card)
qed

abbreviation at_org :: "string \<Rightarrow> string option \<Rightarrow> context_selection option" where
  "at_org orgId claimed \<equiv> Some \<lparr>sel_org = Some orgId, sel_role = claimed\<rparr>"

abbreviation no_org :: "context_selection option \<Rightarrow> bool" where
  "no_org selection \<equiv> (case selection of None \<Rightarrow> True | Some s \<Rightarrow> sel_org s = None)"

lemma resolve_targeted:
  "resolvePrincipalId identity rd = Some pid \<Longrightarrow>
   resolveActiveContext identity (at_org orgId claimed) rd = Some (resolve_at_org pid orgId claimed rd)"
  by (simp add: resolveActiveContext_def)

lemma resolve_untargeted:
  assumes ok: "reads_ok rd" and pid: "resolvePrincipalId identity rd = Some pid" and sel: "no_org selection"
  shows "\<exists>res. resolveActiveContext identity selection rd = Some res
    \<and> (case res of
         Denied reason \<Rightarrow> card (known_contexts rd pid) \<noteq> 1
           \<and> reason = (if known_contexts rd pid = {} then Unknown_principal else Ambiguous_context)
       | Authorized ctx roles \<Rightarrow> known_contexts rd pid = {(ac_org ctx, ac_role ctx)} \<and> roles = [ac_role ctx]
           \<and> (\<exists>g. nearest_grant rd pid (ac_org ctx) (ac_role ctx) g \<and> ctx = context_of pid (grant_at (ac_org ctx) g)))"
proof -
  obtain cs where cs: "listEffectiveContexts identity rd = Some cs" "distinct (map eff_key cs)"
    and known: "(\<lambda>e. (eg_org e, eg_role e)) ` set cs = known_contexts rd pid"
    and near: "\<forall>e \<in> set cs. eg_org e \<in> org_id ` set (rd_orgs rd)
         \<and> (\<exists>g. nearest_grant rd pid (eg_org e) (eg_role e) g \<and> e = grant_at (eg_org e) g)"
    using contexts_spec [OF ok pid] by blast
  have card: "card (known_contexts rd pid) = length cs" using pairs_distinct [OF cs(2)] known by simp
  have run: "resolveActiveContext identity selection rd = Some (case cs of [] \<Rightarrow> Denied Unknown_principal
      | [only] \<Rightarrow> Authorized (context_of pid only) [eg_role only] | _ \<Rightarrow> Denied Ambiguous_context)"
    using pid sel cs(1) by (auto simp: resolveActiveContext_def split: option.splits list.splits)
  consider "cs = []" | e where "cs = [e]" | a b rest where "cs = a # b # rest"
    by (metis neq_Nil_conv)
  then show ?thesis
  proof cases
    case 1
    then show ?thesis using run known by simp
  next
    case (2 e)
    then obtain g where g: "nearest_grant rd pid (eg_org e) (eg_role e) g" "e = grant_at (eg_org e) g" using near by auto
    have "context_of pid e = context_of pid (grant_at (eg_org e) g)" using g(2) by simp
    then show ?thesis using run known 2 g(1) unfolding run by (auto simp: context_of_def)
  next
    case 3
    then have "known_contexts rd pid \<noteq> {}" using known by auto
    with 3 show ?thesis using run card by simp
  qed
qed

section \<open>The store interface\<close>

locale authz_service = grants_store grants grant_many revoke_many clear_grants ok
  for grants :: "'s \<Rightarrow> string \<Rightarrow> role_grant list"
    and grant_many :: "'s \<Rightarrow> string \<Rightarrow> grant_entry list \<Rightarrow> 's \<times> (grant_error + unit)"
    and revoke_many :: "'s \<Rightarrow> string \<Rightarrow> revoke_entry list \<Rightarrow> 's"
    and clear_grants :: "'s \<Rightarrow> string \<Rightarrow> 's"
    and ok :: "'s \<Rightarrow> bool" +
  fixes reads :: "'s \<Rightarrow> authz_reads"
  assumes reads_are_ok: "ok st \<Longrightarrow> reads_ok (reads st)"
    and reads_grants: "rd_grants (reads st) = grants st"
    and revoke_reads: "reads (revoke_many st pid vs) = (reads st)\<lparr>rd_grants := grants (revoke_many st pid vs)\<rparr>"
    and clear_reads: "reads (clear_grants st pid) = (reads st)\<lparr>rd_grants := grants (clear_grants st pid)\<rparr>"
begin

lemma revoked_reads:
  "may_act (reads (revoke_many st pid vs)) pid orgId role \<longleftrightarrow>
     (\<exists>g \<in> set (grants st pid). g_role g = role \<and> grant_covers (rd_orgs (reads st)) g orgId \<and> row_key g \<notin> revoke_keys vs)"
  by (auto simp: may_act_def revoke_reads revoke_rows)

lemma targeted:
  assumes "ok st" "resolvePrincipalId identity (reads st) = Some pid"
  shows "(\<exists>ctx roles. resolveActiveContext identity (at_org orgId (Some (role_text role))) (reads st) = Some (Authorized ctx roles))
    \<longleftrightarrow> rd_org (reads st) orgId \<noteq> None \<and> may_act (reads st) pid orgId role"
proof -
  have rd: "reads_ok (reads st)" using assms(1) by (rule reads_are_ok)
  note run = resolve_targeted [OF assms(2), of orgId "Some (role_text role)"] and spec = resolve_at_org_Authorized [OF rd]
  show ?thesis
  proof
    assume "\<exists>ctx roles. resolveActiveContext identity (at_org orgId (Some (role_text role))) (reads st) = Some (Authorized ctx roles)"
    then obtain ctx roles where "resolve_at_org pid orgId (Some (role_text role)) (reads st) = Authorized ctx roles"
      unfolding run by blast
    then obtain g where "rd_org (reads st) orgId \<noteq> None" "role = ac_role ctx" "nearest_grant (reads st) pid orgId (ac_role ctx) g"
      unfolding spec by auto
    then show "rd_org (reads st) orgId \<noteq> None \<and> may_act (reads st) pid orgId role" using nearest_may_act by blast
  next
    assume org: "rd_org (reads st) orgId \<noteq> None \<and> may_act (reads st) pid orgId role"
    then have "rd_org (reads st) orgId \<noteq> None" ..
    with org matching_iff [OF rd this] matching_exists obtain g where g: "nearest_grant (reads st) pid orgId role g" by blast
    then have "ac_role (context_of pid (grant_at orgId g)) = role" by (simp add: context_of_def nearest_grant_def)
    with g org have "resolve_at_org pid orgId (Some (role_text role)) (reads st)
        = Authorized (context_of pid (grant_at orgId g)) (roles_at (reads st) pid orgId)"
      unfolding spec by auto
    then show "\<exists>ctx roles. resolveActiveContext identity (at_org orgId (Some (role_text role))) (reads st) = Some (Authorized ctx roles)"
      unfolding run by blast
  qed
qed

lemma revoked_next_request:
  assumes ok: "ok st" and pid: "resolvePrincipalId identity (reads st) = Some pid"
  shows "(\<exists>ctx roles. resolveActiveContext identity (at_org orgId (Some (role_text role))) (reads (revoke_many st pid vs))
            = Some (Authorized ctx roles))
    \<longleftrightarrow> rd_org (reads st) orgId \<noteq> None \<and>
        (\<exists>g \<in> set (grants st pid). g_role g = role \<and> grant_covers (rd_orgs (reads st)) g orgId \<and> row_key g \<notin> revoke_keys vs)"
proof -
  have "resolvePrincipalId identity (reads (revoke_many st pid vs)) = Some pid"
    using pid by (cases identity) (simp_all add: resolvePrincipalId_def revoke_reads)
  from targeted [OF revoke_ok [OF ok] this] show ?thesis by (simp add: revoked_reads) (simp add: revoke_reads)
qed

lemma cleared_next_request:
  assumes ok: "ok st" and pid: "resolvePrincipalId identity (reads st) = Some pid"
  shows "\<exists>reason. resolveActiveContext identity selection (reads (clear_grants st pid)) = Some (Denied reason)"
proof -
  let ?rd = "reads (clear_grants st pid)"
  have none: "\<not> may_act ?rd pid orgId role" for orgId role
    by (simp add: may_act_def reads_grants clear_rows)
  have pid': "resolvePrincipalId identity ?rd = Some pid"
    using pid by (cases identity) (simp_all add: resolvePrincipalId_def clear_reads)
  show ?thesis
  proof (cases "no_org selection")
    case True
    have "known_contexts ?rd pid = {}" by (simp add: known_contexts_def none)
    with resolve_untargeted [OF reads_are_ok [OF clear_ok [OF ok]] pid' True] show ?thesis
      by (elim exE) (rename_tac res, case_tac res, auto)
  next
    case False
    then obtain sel orgId where sel: "selection = Some sel" "sel_org sel = Some orgId" by (auto split: option.splits)
    then have "resolveActiveContext identity selection ?rd = Some (resolve_at_org pid orgId (sel_role sel) ?rd)"
      by (simp add: resolveActiveContext_def pid')
    moreover have "effectiveGrantsForOrg pid orgId ?rd = []" by (simp add: effective_empty none)
    ultimately show ?thesis by (simp add: resolve_at_org_def split: option.splits)
  qed
qed

end


lemma rd_org_reads_of: "rd_org (reads_of st) = getOrganization st"
  by (simp add: reads_of_def)

lemma reads_of_ok: "store_ok st \<Longrightarrow> reads_ok (reads_of st)"
proof -
  assume ok: "store_ok st"
  have "rd_org (reads_of st) k \<noteq> None \<longleftrightarrow> k \<in> org_id ` set (rd_orgs (reads_of st))" for k
  proof -
    have "rd_org (reads_of st) k \<noteq> None \<longleftrightarrow> k \<in> dom (map_of (by_id (listOrganizations st)))"
      unfolding reachable_acyclic(3) [OF ok] by (simp add: reads_of_def getOrganization_def dom_def)
    then show ?thesis by (simp add: reads_of_def)
  qed
  moreover have "distinct (map row_key (rd_grants (reads_of st) pid))" for pid
    using ok list_rows_ok [of st pid] by (simp add: store_ok_def reads_of_def rows_ok_def)
  ultimately show ?thesis using reachable_acyclic(1,2) [OF ok] by (simp add: reads_ok_def reads_of_def)
qed

lemma grantMany_store_ok: "store_ok st \<Longrightarrow> grantMany st pid es = (st', r) \<Longrightarrow> store_ok st'"
  by (rule store_step_ok [OF store_step.grant])

lemma clear_reads_of: "reads_of (clearGrantsForPrincipal st pid) = (reads_of st)\<lparr>rd_grants := listGrantsForPrincipal (clearGrantsForPrincipal st pid)\<rparr>"
  using clear_frame [of st pid]
  by (simp add: reads_of_def getPrincipal_def findPrincipalByPbuuid_def getOrganization_def listOrganizations_def fun_eq_iff
      cong: option.case_cong)

lemma revoke_reads_of: "reads_of (revokeMany st pid vs) = (reads_of st)\<lparr>rd_grants := listGrantsForPrincipal (revokeMany st pid vs)\<rparr>"
  using revoke_frame [of st pid vs]
  by (simp add: reads_of_def getPrincipal_def findPrincipalByPbuuid_def getOrganization_def listOrganizations_def fun_eq_iff
      cong: option.case_cong)

lemma store_ok_grants: "store_ok st \<Longrightarrow> grants_ok st"
  by (simp add: store_ok_def)

interpretation memory_authz: authz_service listGrantsForPrincipal grantMany revokeMany clearGrantsForPrincipal store_ok reads_of
proof unfold_locales
  show "rd_grants (reads_of st) = listGrantsForPrincipal st" for st by (simp add: reads_of_def)
  show "store_ok st \<Longrightarrow> reads_ok (reads_of st)" for st by (rule reads_of_ok)
qed (use memory_grants.grant_scopes [OF store_ok_grants] in \<open>auto intro: store_step_ok [OF store_step.revoke]
    store_step_ok [OF store_step.clear] grantMany_store_ok memory_grants.rows [OF store_ok_grants]
    memory_grants.grant_other [OF store_ok_grants]
    simp: memory_grants.revoke_rows memory_grants.clear_rows clear_reads_of revoke_reads_of\<close>)

definition staff_row :: role_grant where
  "staff_row = \<lparr>g_id = ''grant-'' @ show_nat 1, g_principal = ''p1'', g_org = ''hq'', g_role = Staff, g_scope = Subtree\<rparr>"

lemma sample_reads:
  "resolvePrincipalId (By_pbuuid ''ada@x.y'') (reads_of granted_store) = Some ''p1''"
  "rd_org (reads_of granted_store) orgId = map_of (map (\<lambda>o'. (org_id o', o')) sample_orgs) orgId"
  "rd_orgs (reads_of granted_store) = sample_orgs"
  "rd_grants (reads_of granted_store) ''p1'' = [staff_row]"
  by (simp_all add: reads_of_def resolvePrincipalId_def findPrincipalByPbuuid_def getOrganization_def listOrganizations_def
      granted_store_def grantMany_def Let_def normalize_staff listGrantsForPrincipal_def sample_store_fields keys_of_rows_def
      sample_principal_def staff_row_def comp_def)

lemma granted_reachable: "reachable_store granted_store"
  using reachable_store.new [OF sample_store_new] store_step.grant [OF granted_run] by (rule reachable_store.step)

lemma sample_may_act: "may_act (reads_of granted_store) ''p1'' ''shop'' role \<longleftrightarrow> role = Staff"
proof -
  have "(''hq'', ''kw'') \<in> tree_rel sample_orgs" "(''kw'', ''shop'') \<in> tree_rel sample_orgs"
    by (simp_all add: parent_rel_def by_id_def sample_orgs_def)
  then have "(''hq'', ''shop'') \<in> (tree_rel sample_orgs)\<^sup>*" by (blast intro: rtrancl_trans)
  then show ?thesis by (auto simp: may_act_def sample_reads grant_covers_def sample_orgs_def staff_row_def)
qed

lemma staff_row_nearest: "nearest_grant (reads_of granted_store) ''p1'' ''shop'' Staff staff_row"
  using sample_may_act [of Staff] by (simp add: may_act_def nearest_grant_def sample_reads)

lemma shop_known: "getOrganization granted_store ''shop'' \<noteq> None"
  using sample_reads(2) [of "''shop''"] by (simp add: reads_of_def sample_orgs_def)

lemma sample_roles: "roles_at (reads_of granted_store) ''p1'' ''shop'' = [Staff]"
  by (simp add: sample_may_act ROLES_def)

section \<open>Properties\<close>

text \<open>C27. A request that targets an organization is authorized exactly when the organization is
  known and the principal holds a row covering it (attached to it, or a subtree row on a known
  organization above it) for the claimed role, or for one role only where none is claimed; it
  acts as the principal, at that organization, under the nearest covering row, direct first.\<close>

theorem targeted_authorization:
  assumes "reachable_store st" "resolvePrincipalId identity (reads_of st) = Some pid"
  shows "resolveActiveContext identity (at_org orgId claimed) (reads_of st) = Some (Authorized ctx roles) \<longleftrightarrow>
       getOrganization st orgId \<noteq> None
     \<and> roles = filter (may_act (reads_of st) pid orgId) ROLES
     \<and> (case claimed of Some c \<Rightarrow> c = role_text (ac_role ctx) | None \<Rightarrow> roles = [ac_role ctx])
     \<and> (\<exists>g. nearest_grant (reads_of st) pid orgId (ac_role ctx) g \<and> ctx = context_of pid (grant_at orgId g))"
  using resolve_at_org_Authorized [OF reads_of_ok [OF reachable_store_ok [OF assms(1)]], of pid orgId claimed ctx roles]
  unfolding resolve_targeted [OF assms(2)] option.inject rd_org_reads_of .

theorem targeted_authorization_witness:
  "\<exists>ctx. resolveActiveContext (By_pbuuid ''ada@x.y'') (at_org ''shop'' None) (reads_of granted_store) = Some (Authorized ctx [Staff])
     \<and> ac_granted_by ctx = ''hq''"
proof -
  let ?ctx = "context_of ''p1'' (grant_at ''shop'' staff_row)"
  have "ac_role ?ctx = Staff" "ac_granted_by ?ctx = ''hq''" by (simp_all add: context_of_def staff_row_def)
  then have "resolveActiveContext (By_pbuuid ''ada@x.y'') (at_org ''shop'' None) (reads_of granted_store) = Some (Authorized ?ctx [Staff])"
    using targeted_authorization [OF granted_reachable sample_reads(1), of "''shop''" None ?ctx "[Staff]"]
      sample_roles staff_row_nearest shop_known by auto
  with \<open>ac_granted_by ?ctx = ''hq''\<close> show ?thesis by blast
qed

text \<open>C34. A targeted request is denied for exactly one reason: the identity is no known principal; or
  the organization is unknown or no row of the principal covers it; or a role is claimed that no covering
  row holds; or no role is claimed and the covering rows hold several.\<close>

theorem targeted_denial:
  assumes "reachable_store st"
  shows "resolveActiveContext identity (at_org orgId claimed) (reads_of st) = Some (Denied reason) \<longleftrightarrow>
     (case resolvePrincipalId identity (reads_of st) of
        None \<Rightarrow> reason = Unknown_principal
      | Some pid \<Rightarrow>
          (if getOrganization st orgId = None \<or> (\<forall>role. \<not> may_act (reads_of st) pid orgId role)
           then reason = No_context_at_org
           else case claimed of
                  Some c \<Rightarrow> (\<forall>role. c = role_text role \<longrightarrow> \<not> may_act (reads_of st) pid orgId role) \<and> reason = Role_not_granted
                | None \<Rightarrow> 2 \<le> length (filter (may_act (reads_of st) pid orgId) ROLES) \<and> reason = Role_required))"
proof (cases "resolvePrincipalId identity (reads_of st)")
  case None
  then show ?thesis by (auto simp: resolveActiveContext_def)
next
  case (Some pid)
  show ?thesis
    using resolve_at_org_Denied [OF reads_of_ok [OF reachable_store_ok [OF assms]], of pid orgId claimed reason]
    unfolding resolve_targeted [OF Some] option.inject rd_org_reads_of Some option.case .
qed

theorem targeted_denial_witness:
  "resolveActiveContext (By_pbuuid ''ada@x.y'') (at_org ''shop'' (Some ''admin'')) (reads_of granted_store) = Some (Denied Role_not_granted)"
proof -
  have "c = role_text role \<Longrightarrow> c = ''admin'' \<Longrightarrow> role = Admin" for c role
    using role_text_inject [of role Admin] by simp
  then have "\<forall>role. ''admin'' = role_text role \<longrightarrow> \<not> may_act (reads_of granted_store) ''p1'' ''shop'' role"
    by (auto simp: sample_may_act)
  then show ?thesis
    using targeted_denial [OF granted_reachable, of "By_pbuuid ''ada@x.y''" "''shop''" "Some ''admin''" Role_not_granted] shop_known
    by (auto simp: sample_may_act sample_reads(1))
qed

text \<open>A request that names no organization is authorized exactly when the principal's rows
  make one (organization, role) pair effective in the whole tree; with none it is denied as an
  unknown principal, with several as ambiguous. The resolution always returns.\<close>

theorem untargeted_resolution:
  assumes "reachable_store st" "resolvePrincipalId identity (reads_of st) = Some pid"
    and "no_org selection"
  shows "\<exists>res. resolveActiveContext identity selection (reads_of st) = Some res
    \<and> (case res of
         Denied reason \<Rightarrow> card (known_contexts (reads_of st) pid) \<noteq> 1
           \<and> reason = (if known_contexts (reads_of st) pid = {} then Unknown_principal else Ambiguous_context)
       | Authorized ctx roles \<Rightarrow> known_contexts (reads_of st) pid = {(ac_org ctx, ac_role ctx)} \<and> roles = [ac_role ctx]
           \<and> (\<exists>g. nearest_grant (reads_of st) pid (ac_org ctx) (ac_role ctx) g \<and> ctx = context_of pid (grant_at (ac_org ctx) g)))"
  by (rule resolve_untargeted [OF reads_of_ok [OF reachable_store_ok [OF assms(1)]] assms(2,3)])

theorem untargeted_resolution_witness:
  "\<exists>reason. resolveActiveContext (By_pbuuid ''ada@x.y'') None (reads_of granted_store) = Some (Denied reason)"
proof -
  have staff: "(orgId, Staff) \<in> known_contexts (reads_of granted_store) ''p1''" if "orgId = ''shop'' \<or> orgId = ''hq''" for orgId
    using that sample_may_act [of Staff] by (auto simp: known_contexts_def may_act_def sample_reads grant_covers_def sample_orgs_def staff_row_def)
  have "known_contexts (reads_of granted_store) ''p1'' \<noteq> {(o', r)}" for o' r
    using staff [of "''shop''"] staff [of "''hq''"] by force
  then show ?thesis
    using untargeted_resolution [OF granted_reachable sample_reads(1), of None]
    by (simp, elim exE conjE) (rename_tac res, case_tac res, auto)
qed

text \<open>The two ways of asking agree: what an untargeted request is authorized to act as is
  what the same principal gets by targeting that organization, with or without that role.\<close>

theorem untargeted_agrees_with_targeted:
  assumes "reachable_store st" "no_org selection"
    and "resolveActiveContext identity selection (reads_of st) = Some (Authorized ctx roles)"
  shows "resolveActiveContext identity (at_org (ac_org ctx) None) (reads_of st) = Some (Authorized ctx roles)
    \<and> resolveActiveContext identity (at_org (ac_org ctx) (Some (role_text (ac_role ctx)))) (reads_of st) = Some (Authorized ctx roles)"
proof -
  let ?rd = "reads_of st"
  have ok: "reads_ok ?rd" by (rule reads_of_ok [OF reachable_store_ok [OF assms(1)]])
  obtain pid where pid: "resolvePrincipalId identity ?rd = Some pid"
    using assms(3) by (auto simp: resolveActiveContext_def split: option.splits)
  from resolve_untargeted [OF ok pid assms(2)] assms(3)
  have known: "known_contexts ?rd pid = {(ac_org ctx, ac_role ctx)}" and roles: "roles = [ac_role ctx]"
    and g: "\<exists>g. nearest_grant ?rd pid (ac_org ctx) (ac_role ctx) g \<and> ctx = context_of pid (grant_at (ac_org ctx) g)"
    by simp_all
  have org: "rd_org ?rd (ac_org ctx) \<noteq> None" using known by (auto simp: known_contexts_def)
  have "may_act ?rd pid (ac_org ctx) r \<longleftrightarrow> r = ac_role ctx" for r
  proof -
    have "(ac_org ctx, r) \<in> known_contexts ?rd pid \<longleftrightarrow> r = ac_role ctx" unfolding known by simp
    with org show ?thesis by (simp add: known_contexts_def)
  qed
  then have "roles_at ?rd pid (ac_org ctx) = roles"
    unfolding roles by (cases "ac_role ctx") (simp_all add: ROLES_def)
  then show ?thesis
    unfolding resolve_targeted [OF pid] option.inject resolve_at_org_Authorized [OF ok] using org g roles by simp
qed

definition lone_store :: authz_state where
  "lone_store = fst (grantMany sample_store ''p1'' [\<lparr>e_org = ''shop'', e_role = ''finance'', e_scope = None\<rparr>])"

lemma lone_run: "grantMany sample_store ''p1'' [\<lparr>e_org = ''shop'', e_role = ''finance'', e_scope = None\<rparr>] = (lone_store, Inr ())"
  by (simp add: lone_store_def grantMany_def Let_def normalizeGrantEntry_def js_trim_def js_space_def role_of_def ROLES_def
      listGrantsForPrincipal_def sample_store_fields keys_of_rows_def)

theorem untargeted_agrees_with_targeted_witness:
  "\<exists>ctx. resolveActiveContext (By_principal ''p1'') None (reads_of lone_store) = Some (Authorized ctx [Finance])
     \<and> resolveActiveContext (By_principal ''p1'') (at_org (ac_org ctx) None) (reads_of lone_store) = Some (Authorized ctx [Finance])"
proof -
  have reach: "reachable_store lone_store"
    using reachable_store.new [OF sample_store_new] store_step.grant [OF lone_run] by (rule reachable_store.step)
  have "\<exists>ctx. resolveActiveContext (By_principal ''p1'') None (reads_of lone_store) = Some (Authorized ctx [Finance])"
    by (simp add: resolveActiveContext_def listEffectiveContexts_def resolvePrincipalId_def reads_of_def getPrincipal_def
        lone_store_def grantMany_def Let_def normalizeGrantEntry_def js_trim_def js_space_def role_of_def ROLES_def
        listGrantsForPrincipal_def listOrganizations_def sample_store_fields keys_of_rows_def sample_principal_def
        sample_orgs_def direct_grant_def)
  then obtain ctx where ctx: "resolveActiveContext (By_principal ''p1'') None (reads_of lone_store) = Some (Authorized ctx [Finance])" ..
  from untargeted_agrees_with_targeted [OF reach _ ctx] ctx show ?thesis by auto
qed

text \<open>C33. A revocation governs the next request: after \<open>revokeMany\<close> a role at an organization
  is granted to a request claiming it exactly when a covering row is left that the call did not
  name, and after \<open>clearGrantsForPrincipal\<close> every request of the principal is denied (targets
  whose role text holds no NUL).\<close>

theorem revocation_governs_next_request:
  assumes "reachable_store st" "resolvePrincipalId identity (reads_of st) = Some pid"
    and "\<forall>t \<in> set targets. CHR 0x00 \<notin> set (v_role t)"
  shows "((\<exists>ctx roles. resolveActiveContext identity (at_org orgId (Some (role_text role))) (reads_of (revokeMany st pid targets))
             = Some (Authorized ctx roles))
      \<longleftrightarrow> getOrganization st orgId \<noteq> None \<and>
          (\<exists>g \<in> set (listGrantsForPrincipal st pid). g_role g = role \<and> grant_covers (listOrganizations st) g orgId
              \<and> (\<forall>t \<in> set targets. \<not> (v_org t = g_org g \<and> v_role t = role_text role))))
    \<and> (\<exists>reason. resolveActiveContext identity selection (reads_of (clearGrantsForPrincipal st pid)) = Some (Denied reason))"
proof -
  have ok: "store_ok st" using assms(1) by (rule reachable_store_ok)
  have "row_key g \<notin> revoke_keys targets \<longleftrightarrow> (\<forall>t \<in> set targets. \<not> (v_org t = g_org g \<and> v_role t = role_text (g_role g)))" for g
    using assms(3) by (auto simp: revoke_keys_def row_key_def grant_key_def image_iff sep_inject_right)
  then have "g_role g = role \<and> grant_covers (listOrganizations st) g orgId \<and> row_key g \<notin> revoke_keys targets
      \<longleftrightarrow> g_role g = role \<and> grant_covers (listOrganizations st) g orgId
              \<and> (\<forall>t \<in> set targets. \<not> (v_org t = g_org g \<and> v_role t = role_text role))" for g by metis
  then show ?thesis
    using memory_authz.revoked_next_request [OF ok assms(2), of orgId role targets]
      memory_authz.cleared_next_request [OF ok assms(2), of selection]
    unfolding rd_org_reads_of by (simp add: reads_of_def)
qed

theorem revocation_governs_next_request_witness:
  "\<not> (\<exists>ctx roles. resolveActiveContext (By_pbuuid ''ada@x.y'') (at_org ''shop'' (Some ''staff''))
        (reads_of (revokeMany granted_store ''p1'' [\<lparr>v_org = ''hq'', v_role = ''staff''\<rparr>])) = Some (Authorized ctx roles))"
proof -
  have "listGrantsForPrincipal granted_store ''p1'' = [staff_row]" using sample_reads(4) by (simp add: reads_of_def)
  then show ?thesis
    using revocation_governs_next_request [OF granted_reachable sample_reads(1),
        of "[\<lparr>v_org = ''hq'', v_role = ''staff''\<rparr>]" "''shop''" Staff] by (simp add: staff_row_def)
qed

end
