(* ===== verification/Issuer_Registry.thy ===== *)
theory Issuer_Registry
  imports Prelude
begin

text \<open>
  The issuer-key registry, \<^verbatim>\<open>packages/contracts/src/authz/registry.ts\<close>, and the resolver
  the gateway builds on it (\<open>registryKeyResolver\<close> of
  \<^verbatim>\<open>apps/gateway/src/authz-middleware.ts\<close>). A key is registered once and only ever
  moves from active to retired. The order \<open>localeCompare\<close> gives the listing depends on the
  host's locale data, so it is a parameter; nothing proved here depends on it.
\<close>

datatype key_algorithm = EdDSA | ES256 | RS256

definition algorithm_of :: "string \<Rightarrow> key_algorithm option" where
  "algorithm_of s = (if s = ''EdDSA'' then Some EdDSA else if s = ''ES256'' then Some ES256
     else if s = ''RS256'' then Some RS256 else None)"

datatype key_status = Active | Retired

record issuer_key =
  ik_issuer :: string
  ik_key_id :: string
  ik_algorithm :: key_algorithm
  ik_status :: key_status
  ik_registered_at :: string
  ik_public_key :: "string option"

record key_registration =
  kr_issuer :: string
  kr_key_id :: string
  kr_algorithm :: string
  kr_public_key :: "string option"

datatype registry_error = Blank_issuer | Blank_key_id | Bad_algorithm | No_such_key string string

type_synonym registry = "(string, (string, issuer_key) js_map) js_map"

definition assertRegistryName :: "string \<Rightarrow> registry_error \<Rightarrow> registry_error + string" where
  "assertRegistryName s err = (if blank s then Inl err else Inr s)"

definition getIssuerKey :: "registry \<Rightarrow> string \<Rightarrow> string \<Rightarrow> issuer_key option" where
  "getIssuerKey reg issuer keyId =
     (case map_of reg issuer of None \<Rightarrow> None | Some byKeyId \<Rightarrow> map_of byKeyId keyId)"

definition key_before :: "(string \<Rightarrow> string \<Rightarrow> int) \<Rightarrow> issuer_key \<Rightarrow> issuer_key \<Rightarrow> bool" where
  "key_before localeCompare a b =
     ((let c = localeCompare (ik_issuer a) (ik_issuer b)
       in if c \<noteq> 0 then c else localeCompare (ik_key_id a) (ik_key_id b)) \<le> 0)"

definition listIssuerKeys :: "(string \<Rightarrow> string \<Rightarrow> int) \<Rightarrow> registry \<Rightarrow> string option \<Rightarrow> issuer_key list" where
  "listIssuerKeys localeCompare reg issuer =
     js_sort (key_before localeCompare)
       (case issuer of
          None \<Rightarrow> concat (map (\<lambda>(_, byKeyId). map snd byKeyId) reg)
        | Some i \<Rightarrow> map snd (case map_of reg i of None \<Rightarrow> [] | Some byKeyId \<Rightarrow> byKeyId))"

text \<open>\<open>now\<close> is the text of \<open>new Date().toISOString()\<close> at the call.\<close>

definition registerKey :: "string \<Rightarrow> registry \<Rightarrow> key_registration \<Rightarrow> registry_error + (registry \<times> issuer_key)" where
  "registerKey now reg r =
     bind_result (assertRegistryName (kr_issuer r) Blank_issuer) (\<lambda>issuer.
     bind_result (assertRegistryName (kr_key_id r) Blank_key_id) (\<lambda>keyId.
       case algorithm_of (kr_algorithm r) of
         None \<Rightarrow> Inl Bad_algorithm
       | Some algorithm \<Rightarrow>
           (let byKeyId = (case map_of reg issuer of None \<Rightarrow> [] | Some m \<Rightarrow> m);
                reg1 = (if map_of reg issuer = None then AList.update issuer byKeyId reg else reg)
            in case map_of byKeyId keyId of
                 Some existing \<Rightarrow> Inr (reg1, existing)
               | None \<Rightarrow>
                   (let key = \<lparr>ik_issuer = issuer, ik_key_id = keyId, ik_algorithm = algorithm, ik_status = Active,
                               ik_registered_at = now, ik_public_key = kr_public_key r\<rparr>
                    in Inr (AList.update issuer (AList.update keyId key byKeyId) reg1, key)))))"

definition retireIssuerKey :: "registry \<Rightarrow> string \<Rightarrow> string \<Rightarrow> registry_error + (registry \<times> issuer_key)" where
  "retireIssuerKey reg issuer keyId =
     (case getIssuerKey reg issuer keyId of
        None \<Rightarrow> Inl (No_such_key issuer keyId)
      | Some existing \<Rightarrow>
          (if ik_status existing = Retired then Inr (reg, existing)
           else let retired = existing\<lparr>ik_status := Retired\<rparr>;
                    byKeyId = (case map_of reg issuer of None \<Rightarrow> [] | Some m \<Rightarrow> m)
                in Inr (AList.update issuer (AList.update keyId retired byKeyId) reg, retired)))"

text \<open>The resolver: only an active key of a known (issuer, kid), or the issuer's only active key.\<close>

definition registryKeyResolver :: "(string \<Rightarrow> string \<Rightarrow> int) \<Rightarrow> registry \<Rightarrow> string \<Rightarrow> string option \<Rightarrow> string option" where
  "registryKeyResolver localeCompare reg issuer keyId =
     (case keyId of
        Some kid \<Rightarrow>
          (case getIssuerKey reg issuer kid of
             None \<Rightarrow> None
           | Some key \<Rightarrow> if ik_status key = Active then ik_public_key key else None)
      | None \<Rightarrow>
          (case filter (\<lambda>k. ik_status k = Active) (listIssuerKeys localeCompare reg (Some issuer)) of
             [k] \<Rightarrow> ik_public_key k
           | _ \<Rightarrow> None))"

section \<open>What each operation does to the rows\<close>

lemma getIssuerKey_update:
  "getIssuerKey (AList.update issuer (AList.update keyId key (case map_of reg issuer of None \<Rightarrow> [] | Some m \<Rightarrow> m)) reg) i k =
     (if i = issuer \<and> k = keyId then Some key else getIssuerKey reg i k)"
  by (auto simp: getIssuerKey_def split: option.splits)

lemma registerKey_get:
  assumes "registerKey now reg r = Inr (reg', key)"
  shows "getIssuerKey reg' i k =
     (if i = kr_issuer r \<and> k = kr_key_id r then Some key else getIssuerKey reg i k)
   \<and> (\<forall>old. getIssuerKey reg (kr_issuer r) (kr_key_id r) = Some old \<longrightarrow> key = old)
   \<and> (getIssuerKey reg (kr_issuer r) (kr_key_id r) = None \<longrightarrow> ik_status key = Active \<and> ik_public_key key = kr_public_key r)"
proof -
  let ?m = "case map_of reg (kr_issuer r) of None \<Rightarrow> [] | Some m \<Rightarrow> m"
  let ?reg1 = "if map_of reg (kr_issuer r) = None then AList.update (kr_issuer r) ?m reg else reg"
  have get1: "getIssuerKey ?reg1 i k = getIssuerKey reg i k" for i k
    by (simp add: getIssuerKey_def split: option.splits)
  have row: "map_of ?m (kr_key_id r) = getIssuerKey reg (kr_issuer r) (kr_key_id r)"
    by (simp add: getIssuerKey_def split: option.splits)
  have m1: "?m = (case map_of ?reg1 (kr_issuer r) of None \<Rightarrow> [] | Some m \<Rightarrow> m)" by (simp split: option.splits)
  obtain algorithm where alg: "algorithm_of (kr_algorithm r) = Some algorithm"
    using assms by (auto simp: registerKey_def split: option.splits)
  have run: "(case map_of ?m (kr_key_id r) of
                 Some existing \<Rightarrow> Inr (?reg1, existing)
               | None \<Rightarrow>
                   (let key = \<lparr>ik_issuer = kr_issuer r, ik_key_id = kr_key_id r, ik_algorithm = algorithm, ik_status = Active,
                               ik_registered_at = now, ik_public_key = kr_public_key r\<rparr>
                    in Inr (AList.update (kr_issuer r) (AList.update (kr_key_id r) key ?m) ?reg1, key))) = (Inr (reg', key) :: registry_error + registry \<times> issuer_key)"
    using assms unfolding registerKey_def bind_result_Inr assertRegistryName_def alg Let_def
    by (auto split: if_splits)
  show ?thesis
  proof (cases "getIssuerKey reg (kr_issuer r) (kr_key_id r)")
    case (Some existing)
    with run have "reg' = ?reg1" "key = existing" unfolding row by (simp_all only: option.case sum.inject prod.inject)
    with Some get1 show ?thesis by simp
  next
    case None
    with run have key: "key = \<lparr>ik_issuer = kr_issuer r, ik_key_id = kr_key_id r, ik_algorithm = algorithm, ik_status = Active,
                               ik_registered_at = now, ik_public_key = kr_public_key r\<rparr>"
      and reg': "reg' = AList.update (kr_issuer r) (AList.update (kr_key_id r) key ?m) ?reg1"
      unfolding row by (auto simp only: option.case sum.inject prod.inject Let_def)
    have "getIssuerKey reg' i k = (if i = kr_issuer r \<and> k = kr_key_id r then Some key else getIssuerKey reg i k)"
      using getIssuerKey_update [of "kr_issuer r" "kr_key_id r" key ?reg1 i k, folded m1] unfolding reg' get1 .
    with None key show ?thesis by simp
  qed
qed

lemma retireIssuerKey_get:
  assumes "retireIssuerKey reg issuer keyId = Inr (reg', key)"
  shows "\<exists>old. getIssuerKey reg issuer keyId = Some old \<and> key = old\<lparr>ik_status := Retired\<rparr>
   \<and> getIssuerKey reg' i k = (if i = issuer \<and> k = keyId then Some key else getIssuerKey reg i k)"
proof -
  obtain old where old: "getIssuerKey reg issuer keyId = Some old"
    using assms by (auto simp: retireIssuerKey_def split: option.splits)
  show ?thesis
  proof (cases "ik_status old")
    case Retired
    then have "old\<lparr>ik_status := Retired\<rparr> = old" by simp
    with Retired old assms show ?thesis by (simp add: retireIssuerKey_def)
  next
    case Active
    with old assms have "key = old\<lparr>ik_status := Retired\<rparr>"
      and "reg' = AList.update issuer (AList.update keyId key (case map_of reg issuer of None \<Rightarrow> [] | Some m \<Rightarrow> m)) reg"
      by (auto simp: retireIssuerKey_def Let_def)
    with old show ?thesis by (simp only: getIssuerKey_update) simp
  qed
qed

inductive registry_step :: "registry \<Rightarrow> registry \<Rightarrow> bool" where
  register: "registerKey now reg r = Inr (reg', key) \<Longrightarrow> registry_step reg reg'"
| retire: "retireIssuerKey reg issuer keyId = Inr (reg', key) \<Longrightarrow> registry_step reg reg'"

text \<open>A row only ever ages: nothing about it changes but its status, and that only to retired.\<close>

definition aged :: "issuer_key \<Rightarrow> issuer_key \<Rightarrow> bool" where
  "aged k k' \<longleftrightarrow> k' = k \<or> k' = k\<lparr>ik_status := Retired\<rparr>"

lemma aged_trans: "aged a b \<Longrightarrow> aged b c \<Longrightarrow> aged a c"
  by (auto simp: aged_def)

lemma registry_step_aged:
  "registry_step reg reg' \<Longrightarrow> getIssuerKey reg i k = Some key \<Longrightarrow> \<exists>key'. getIssuerKey reg' i k = Some key' \<and> aged key key'"
proof (induction rule: registry_step.induct)
  case (register now reg r reg' key')
  with registerKey_get [OF register.hyps, of i k] show ?case by (auto simp: aged_def)
next
  case (retire reg issuer keyId reg' key')
  with retireIssuerKey_get [OF retire.hyps, of i k] show ?case by (auto simp: aged_def)
qed

lemma registry_steps_aged:
  "registry_step\<^sup>*\<^sup>* reg reg' \<Longrightarrow> getIssuerKey reg i k = Some key \<Longrightarrow> \<exists>key'. getIssuerKey reg' i k = Some key' \<and> aged key key'"
proof (induction rule: rtranclp_induct)
  case base
  then show ?case by (auto simp: aged_def)
next
  case (step r1 r2)
  then obtain key1 where "getIssuerKey r1 i k = Some key1" "aged key key1" by blast
  with registry_step_aged [OF step.hyps(2)] aged_trans show ?case by blast
qed

lemma resolver_kid:
  "registryKeyResolver lc reg issuer (Some kid) = Some pem \<longleftrightarrow>
     (\<exists>key. getIssuerKey reg issuer kid = Some key \<and> ik_status key = Active \<and> ik_public_key key = Some pem)"
  by (auto simp: registryKeyResolver_def split: option.splits)

lemma active_rows:
  "set (filter (\<lambda>k. ik_status k = Active) (listIssuerKeys lc reg (Some issuer))) =
     {key. key \<in> set (map snd (case map_of reg issuer of None \<Rightarrow> [] | Some m \<Rightarrow> m)) \<and> ik_status key = Active}"
  by (auto simp: listIssuerKeys_def)

lemma resolver_no_kid:
  assumes "registryKeyResolver lc reg issuer None = Some pem"
  shows "\<exists>key. ik_status key = Active \<and> ik_public_key key = Some pem
     \<and> {key. key \<in> set (map snd (case map_of reg issuer of None \<Rightarrow> [] | Some m \<Rightarrow> m)) \<and> ik_status key = Active} = {key}"
proof -
  obtain key where key: "filter (\<lambda>k. ik_status k = Active) (listIssuerKeys lc reg (Some issuer)) = [key]"
    "ik_public_key key = Some pem"
    using assms by (auto simp: registryKeyResolver_def split: list.splits)
  then have "key \<in> set (filter (\<lambda>k. ik_status k = Active) (listIssuerKeys lc reg (Some issuer)))" by simp
  then have "ik_status key = Active" by simp
  with key active_rows [of lc reg issuer] show ?thesis by auto
qed

section \<open>Properties\<close>

text \<open>Rotation is one way: once a key is retired, no sequence of registrations and
  retirements ever makes the resolver return a key for that (issuer, kid) again; and while it
  is active its algorithm, key material and registration time never change.\<close>

theorem retired_key_never_resolves:
  assumes "registry_step\<^sup>*\<^sup>* reg reg'" and "getIssuerKey reg issuer kid = Some key"
  shows "(ik_status key = Retired \<longrightarrow> registryKeyResolver lc reg' issuer (Some kid) = None)
    \<and> (\<exists>key'. getIssuerKey reg' issuer kid = Some key' \<and> ik_public_key key' = ik_public_key key
         \<and> ik_algorithm key' = ik_algorithm key \<and> ik_registered_at key' = ik_registered_at key)"
  using registry_steps_aged [OF assms] by (auto simp: registryKeyResolver_def aged_def)

definition sample_key :: issuer_key where
  "sample_key = \<lparr>ik_issuer = ''idp'', ik_key_id = ''k1'', ik_algorithm = EdDSA, ik_status = Active,
     ik_registered_at = ''t0'', ik_public_key = Some ''PEM''\<rparr>"

theorem retired_key_never_resolves_witness:
  "\<exists>reg. retireIssuerKey [(''idp'', [(''k1'', sample_key)])] ''idp'' ''k1'' = Inr (reg, sample_key\<lparr>ik_status := Retired\<rparr>)
     \<and> registryKeyResolver (\<lambda>_ _. 0) reg ''idp'' (Some ''k1'') = None"
proof -
  let ?reg = "[(''idp'', [(''k1'', sample_key\<lparr>ik_status := Retired\<rparr>)])]"
  have "getIssuerKey ?reg ''idp'' ''k1'' = Some (sample_key\<lparr>ik_status := Retired\<rparr>)" by (simp add: getIssuerKey_def)
  from retired_key_never_resolves [OF rtranclp.rtrancl_refl this, of "\<lambda>_ _. 0"]
  have "registryKeyResolver (\<lambda>_ _. 0) ?reg ''idp'' (Some ''k1'') = None" by simp
  moreover have "retireIssuerKey [(''idp'', [(''k1'', sample_key)])] ''idp'' ''k1'' = Inr (?reg, sample_key\<lparr>ik_status := Retired\<rparr>)"
    by (simp add: retireIssuerKey_def getIssuerKey_def sample_key_def Let_def)
  ultimately show ?thesis by blast
qed

end
