(* ===== verification/Json.thy ===== *)
theory Json
  imports Prelude Complex_Main "HOL-Library.Multiset"
begin

text \<open>
  JSON values as the sources see them after \<open>JSON.parse\<close>: a number is a rational, or nothing
  where it is not finite, and an object is a map in insertion order. The recursive walks over
  them that the idempotency contract makes are here.
\<close>

datatype json = JNull | JBool bool | JNum "rat option" | JStr string | JArr "json list" | JObj "(string, json) js_map"

declare map_of_eq_Some_iff [simp del] Some_eq_map_of_iff [simp del]

text \<open>\<open>isJsonValue\<close>. The \<open>seen\<close> set of the source guards against cycles and shared references,
  which values do not have.\<close>

fun isJsonValue :: "json \<Rightarrow> bool" where
  "isJsonValue (JNum n) = (n \<noteq> None)"
| "isJsonValue (JArr vs) = list_all isJsonValue vs"
| "isJsonValue (JObj m) = list_all (\<lambda>kv. isJsonValue (snd kv)) m"
| "isJsonValue _ = True"

text \<open>\<open>sortedJson\<close>: objects in the order of their keys, at every depth.\<close>

fun sortedJson :: "json \<Rightarrow> json" where
  "sortedJson (JArr vs) = JArr (map sortedJson vs)"
| "sortedJson (JObj m) = JObj (sort_key fst (map (\<lambda>(k, v). (k, sortedJson v)) m))"
| "sortedJson v = v"

text \<open>The same value up to the order of members.\<close>

inductive same_json :: "json \<Rightarrow> json \<Rightarrow> bool" where
  same_refl: "same_json v v"
| same_arr: "list_all2 same_json vs ws \<Longrightarrow> same_json (JArr vs) (JArr ws)"
| same_obj: "keyed m \<Longrightarrow> keyed n \<Longrightarrow> fst ` set m = fst ` set n \<Longrightarrow>
    (\<And>k v w. map_of m k = Some v \<Longrightarrow> map_of n k = Some w \<Longrightarrow> same_json v w) \<Longrightarrow> same_json (JObj m) (JObj n)"

lemma map_snd_keys: "map fst (map (\<lambda>(k, v). (k, f v)) m) = map fst m"
  by (induction m) auto

lemma map_snd_lookup: "map_of (map (\<lambda>(k, v). (k, f v)) m) k = map_option f (map_of m k)"
  by (induction m) auto

lemma sort_keyed_cong:
  assumes "keyed m" "keyed n" "map_of m = map_of n"
  shows "sort_key fst m = sort_key fst n"
proof -
  have "set m = set n" using assms by (metis map_of_eq_Some_iff subrelI subset_antisym)
  moreover have "distinct m" "distinct n" using assms(1,2) by (simp_all add: distinct_map)
  ultimately have "mset m = mset n" by (simp add: set_eq_iff_mset_eq_distinct)
  moreover have "inj_on fst (set m)" using assms(1) by (simp add: distinct_map)
  ultimately show ?thesis by (intro sort_key_inj_key_eq) simp_all
qed

text \<open>The canonical form does not depend on the order of members.\<close>

lemma sortedJson_same: "same_json v w \<Longrightarrow> sortedJson v = sortedJson w"
proof (induction rule: same_json.induct)
  case (same_arr vs ws)
  then have "list_all2 (\<lambda>v w. sortedJson v = sortedJson w) vs ws" by (simp add: list_all2_mono)
  then have "map sortedJson vs = map sortedJson ws" by (induction rule: list_all2_induct) auto
  then show ?case by simp
next
  case (same_obj m n)
  let ?f = "map (\<lambda>(k, v). (k, sortedJson v))"
  have "map_of (?f m) k = map_of (?f n) k" for k
  proof (cases "map_of m k")
    case None
    then have "map_of n k = None" using same_obj.hyps(3) by (simp add: map_of_eq_None_iff)
    with None show ?thesis by (simp add: map_snd_lookup)
  next
    case (Some v)
    then have "k \<in> fst ` set n" using same_obj.hyps(3) by (metis map_of_eq_None_iff option.distinct(1))
    then obtain w where w: "map_of n k = Some w" by (metis map_of_eq_None_iff not_Some_eq)
    with Some same_obj.IH [OF Some w] show ?thesis by (simp add: map_snd_lookup)
  qed
  then have "sort_key fst (?f m) = sort_key fst (?f n)"
    using same_obj.hyps(1,2) by (intro sort_keyed_cong) (simp_all only: map_snd_keys, auto)
  then show ?case by simp
qed simp

end
