(* ===== verification/Actor_Assertion.thy ===== *)
theory Actor_Assertion
  imports Json
begin

text \<open>
  The destination-bound actor assertion \<open>bawes-aa.v1\<close>,
  \<^verbatim>\<open>packages/actor-assertion/src\<close>: claims, envelope, verification and the in-memory
  replay store. What the source takes from Node is a parameter: decoding a payload
  (base64url, UTF-8 and \<open>JSON.parse\<close>), encoding one, Ed25519 signing and checking. Text of
  failure reasons is left out, the typed codes are kept.
\<close>

section \<open>Claims\<close>

record assertion_claims =
  c_iss :: string
  c_kid :: "string option"
  c_aud :: string
  c_sub :: string
  c_iat :: rat
  c_exp :: rat
  c_jti :: string
  c_act :: "(string option \<times> string option) option"

datatype assertion_code = Malformed | Bad_signature | Unknown_issuer | Expired | Future_iat | Aud_mismatch
  | Subject_format | Wrong_subject | Replayed | Unavailable

definition ENVELOPE_PREFIX :: string where
  "ENVELOPE_PREFIX = ''bawes-aa.v1''"

text \<open>\<open>^[^\s@]+@[^\s@]+\.[^\s@]+$\<close>: one @, no white space, and a dot inside the domain.\<close>

definition user_email_subject :: "string \<Rightarrow> bool" where
  "user_email_subject s = (case js_split (CHR ''@'') s of
     [local, domain] \<Rightarrow> local \<noteq> [] \<and> \<not> list_ex js_space s
        \<and> list_ex (\<lambda>i. domain ! i = CHR ''.'') [1..<length domain - 1]
   | _ \<Rightarrow> False)"

definition hashed_user_id_subject :: "string \<Rightarrow> bool" where
  "hashed_user_id_subject s = (32 \<le> length s \<and> length s \<le> 128
     \<and> list_all (\<lambda>c. digit_char c \<or> c \<in> set ''abcdef'') s)"

definition universe_subject :: "string \<Rightarrow> bool" where
  "universe_subject = user_email_subject"

definition str_member :: "(string, json) js_map \<Rightarrow> string \<Rightarrow> string option" where
  "str_member m k = (case map_of m k of Some (JStr s) \<Rightarrow> Some s | _ \<Rightarrow> None)"

definition num_member :: "(string, json) js_map \<Rightarrow> string \<Rightarrow> rat option" where
  "num_member m k = (case map_of m k of Some (JNum n) \<Rightarrow> n | _ \<Rightarrow> None)"

text \<open>An optional member: absent, or a non-empty string; anything else is refused.\<close>

definition optional_text :: "(string, json) js_map \<Rightarrow> string \<Rightarrow> string option option" where
  "optional_text m k = (case map_of m k of
     None \<Rightarrow> Some None
   | Some (JStr s) \<Rightarrow> if s = [] then None else Some (Some s)
   | Some _ \<Rightarrow> None)"

definition decode_act :: "(string, json) js_map \<Rightarrow> (string option \<times> string option) option option" where
  "decode_act m = (case map_of m ''act'' of
     None \<Rightarrow> Some None
   | Some (JObj a) \<Rightarrow>
       (case (optional_text a ''org'', optional_text a ''role'') of
          (Some org, Some role) \<Rightarrow> Some (Some (org, role))
        | _ \<Rightarrow> None)
   | Some _ \<Rightarrow> None)"

definition decode_object :: "(string, json) js_map \<Rightarrow> assertion_claims option" where
  "decode_object m =
     (if map_of m ''v'' \<noteq> Some (JNum (Some 1)) then None
      else case (str_member m ''iss'', str_member m ''aud'', str_member m ''sub'', num_member m ''iat'',
                 num_member m ''exp'', str_member m ''jti'') of
        (Some iss, Some aud, Some sub, Some iat, Some expires, Some jti) \<Rightarrow>
          (if iss = [] \<or> aud = [] \<or> jti = [] then None
           else case (optional_text m ''kid'', decode_act m) of
             (Some kid, Some act) \<Rightarrow>
               Some \<lparr>c_iss = iss, c_kid = kid, c_aud = aud, c_sub = sub, c_iat = iat, c_exp = expires, c_jti = jti, c_act = act\<rparr>
           | _ \<Rightarrow> None)
      | _ \<Rightarrow> None)"

definition decodeClaims :: "(string \<Rightarrow> json option) \<Rightarrow> string \<Rightarrow> assertion_claims option" where
  "decodeClaims parse payload = (case parse payload of Some (JObj m) \<Rightarrow> decode_object m | _ \<Rightarrow> None)"

section \<open>Signing\<close>

text \<open>\<open>JSON.stringify\<close> leaves out the members that are undefined.\<close>

definition opt_json :: "string \<Rightarrow> string option \<Rightarrow> (string, json) js_map" where
  "opt_json k v = (case v of None \<Rightarrow> [] | Some s \<Rightarrow> [(k, JStr s)])"

definition claims_json :: "assertion_claims \<Rightarrow> json" where
  "claims_json c = JObj ([(''v'', JNum (Some 1)), (''iss'', JStr (c_iss c))] @ opt_json ''kid'' (c_kid c)
     @ [(''aud'', JStr (c_aud c)), (''sub'', JStr (c_sub c)), (''iat'', JNum (Some (c_iat c))),
        (''exp'', JNum (Some (c_exp c))), (''jti'', JStr (c_jti c))]
     @ (case c_act c of None \<Rightarrow> [] | Some (org, role) \<Rightarrow> [(''act'', JObj (opt_json ''org'' org @ opt_json ''role'' role))]))"

definition signAssertion :: "(json \<Rightarrow> string) \<Rightarrow> (string \<Rightarrow> string \<Rightarrow> string) \<Rightarrow> assertion_claims \<Rightarrow> string \<Rightarrow> string" where
  "signAssertion encode sign claims privateKeyPem =
     (let payload = encode (claims_json claims);
          signingInput = ENVELOPE_PREFIX @ ''.'' @ payload
      in signingInput @ ''.'' @ sign privateKeyPem signingInput)"

section \<open>Verification\<close>

text \<open>The dependencies: decoding, the key resolver and the signature check (\<open>None\<close> where they
  throw), and the replay store (its new state, and \<open>None\<close> where it throws).\<close>

record 's verifier =
  vf_parse :: "string \<Rightarrow> json option"
  vf_resolve :: "string \<Rightarrow> string option \<Rightarrow> string option option"
  vf_check :: "string \<Rightarrow> string \<Rightarrow> string \<Rightarrow> bool option"
  vf_consume :: "'s \<Rightarrow> string \<Rightarrow> string \<Rightarrow> rat \<Rightarrow> int \<Rightarrow> 's \<times> bool option"

record verify_options =
  vo_audience :: string
  vo_subject_ok :: "string \<Rightarrow> bool"
  vo_subject :: "string option"
  vo_now :: "rat option"
  vo_skew :: "rat option"

definition default_skew :: rat where
  "default_skew = 300"

text \<open>\<open>clock\<close> is \<open>Date.now() / 1000\<close>. The first component is the replay store afterwards.\<close>

definition verifyAssertion ::
    "'s verifier \<Rightarrow> rat \<Rightarrow> 's \<Rightarrow> string \<Rightarrow> verify_options \<Rightarrow> 's \<times> (assertion_code + assertion_claims)" where
  "verifyAssertion vf clock st token opts =
     (case js_split (CHR ''.'') token of
        [prefix, version, payload, sig] \<Rightarrow>
          (if prefix \<noteq> ''bawes-aa'' \<or> version \<noteq> ''v1'' then (st, Inl Malformed)
           else case decodeClaims (vf_parse vf) payload of
             None \<Rightarrow> (st, Inl Malformed)
           | Some claims \<Rightarrow>
               (let now = \<lfloor>case vo_now opts of None \<Rightarrow> clock | Some n \<Rightarrow> n\<rfloor>;
                    skew = (case vo_skew opts of None \<Rightarrow> default_skew | Some s \<Rightarrow> s)
                in if c_exp claims \<le> of_int now then (st, Inl Expired)
                   else if c_iat claims > of_int now + skew then (st, Inl Future_iat)
                   else case vf_resolve vf (c_iss claims) (c_kid claims) of
                     None \<Rightarrow> (st, Inl Unavailable)
                   | Some None \<Rightarrow> (st, Inl Unknown_issuer)
                   | Some (Some pem) \<Rightarrow>
                       (if pem = [] then (st, Inl Unknown_issuer)
                        else case vf_check vf pem (ENVELOPE_PREFIX @ ''.'' @ payload) sig of
                          None \<Rightarrow> (st, Inl Bad_signature)
                        | Some False \<Rightarrow> (st, Inl Bad_signature)
                        | Some True \<Rightarrow>
                            (if c_aud claims \<noteq> vo_audience opts then (st, Inl Aud_mismatch)
                             else if \<not> vo_subject_ok opts (c_sub claims) then (st, Inl Subject_format)
                             else if vo_subject opts \<noteq> None \<and> vo_subject opts \<noteq> Some (c_sub claims) then (st, Inl Wrong_subject)
                             else case vf_consume vf st (c_iss claims) (c_jti claims) (c_exp claims) now of
                               (st', None) \<Rightarrow> (st', Inl Unavailable)
                             | (st', Some True) \<Rightarrow> (st', Inl Replayed)
                             | (st', Some False) \<Rightarrow> (st', Inr claims)))))
      | _ \<Rightarrow> (st, Inl Malformed))"

section \<open>The in-memory replay store\<close>

type_synonym replay_seen = "(string, rat) js_map"

definition replay_key :: "string \<Rightarrow> string \<Rightarrow> string" where
  "replay_key issuer jti = issuer @ CHR 0x00 # jti"

definition replay_consume :: "replay_seen \<Rightarrow> string \<Rightarrow> string \<Rightarrow> rat \<Rightarrow> int \<Rightarrow> replay_seen \<times> bool" where
  "replay_consume seen issuer jti expiresAt now =
     (let live = filter (\<lambda>(_, seenExp). \<not> seenExp \<le> of_int now) seen;
          key = replay_key issuer jti
      in if map_of live key \<noteq> None then (live, True) else (AList.update key expiresAt live, False))"

definition memory_consume :: "replay_seen \<Rightarrow> string \<Rightarrow> string \<Rightarrow> rat \<Rightarrow> int \<Rightarrow> replay_seen \<times> bool option" where
  "memory_consume seen issuer jti expiresAt now = map_prod id Some (replay_consume seen issuer jti expiresAt now)"


section \<open>What an accepted assertion satisfies\<close>

definition token_parts :: "string \<Rightarrow> (string \<times> string) option" where
  "token_parts token = (case js_split (CHR ''.'') token of
     [prefix, version, payload, sig] \<Rightarrow> if prefix = ''bawes-aa'' \<and> version = ''v1'' then Some (payload, sig) else None
   | _ \<Rightarrow> None)"

definition now_of :: "rat \<Rightarrow> verify_options \<Rightarrow> int" where
  "now_of clock opts = \<lfloor>case vo_now opts of None \<Rightarrow> clock | Some n \<Rightarrow> n\<rfloor>"

definition skew_of :: "verify_options \<Rightarrow> rat" where
  "skew_of opts = (case vo_skew opts of None \<Rightarrow> default_skew | Some s \<Rightarrow> s)"

text \<open>Everything checked before the replay store is asked.\<close>

definition passes :: "'s verifier \<Rightarrow> rat \<Rightarrow> string \<Rightarrow> verify_options \<Rightarrow> assertion_claims \<Rightarrow> bool" where
  "passes vf clock token opts c \<longleftrightarrow> (\<exists>payload sig pem.
     token_parts token = Some (payload, sig)
   \<and> decodeClaims (vf_parse vf) payload = Some c
   \<and> of_int (now_of clock opts) < c_exp c
   \<and> c_iat c \<le> of_int (now_of clock opts) + skew_of opts
   \<and> vf_resolve vf (c_iss c) (c_kid c) = Some (Some pem) \<and> pem \<noteq> []
   \<and> vf_check vf pem (ENVELOPE_PREFIX @ ''.'' @ payload) sig = Some True
   \<and> c_aud c = vo_audience opts \<and> vo_subject_ok opts (c_sub c)
   \<and> (vo_subject opts = None \<or> vo_subject opts = Some (c_sub c)))"

lemma passes_unique: "passes vf k1 token o1 c \<Longrightarrow> passes vf k2 token o2 c' \<Longrightarrow> c = c'"
  by (auto simp: passes_def)

definition replay_verdict :: "bool option \<Rightarrow> assertion_claims \<Rightarrow> assertion_code + assertion_claims" where
  "replay_verdict r c = (case r of None \<Rightarrow> Inl Unavailable | Some True \<Rightarrow> Inl Replayed | Some False \<Rightarrow> Inr c)"

lemma replay_verdict_Inr [simp]: "replay_verdict r c = Inr c' \<longleftrightarrow> r = Some False \<and> c' = c"
  by (auto simp: replay_verdict_def split: option.splits bool.splits)

lemma Inr_replay_verdict [simp]: "Inr c' = replay_verdict r c \<longleftrightarrow> r = Some False \<and> c' = c"
  by (metis replay_verdict_Inr)

definition checks :: "'s verifier \<Rightarrow> rat \<Rightarrow> string \<Rightarrow> string \<Rightarrow> verify_options \<Rightarrow> assertion_claims \<Rightarrow> bool" where
  "checks vf clock payload sig opts c \<longleftrightarrow>
     of_int (now_of clock opts) < c_exp c
   \<and> c_iat c \<le> of_int (now_of clock opts) + skew_of opts
   \<and> (\<exists>pem. vf_resolve vf (c_iss c) (c_kid c) = Some (Some pem) \<and> pem \<noteq> []
        \<and> vf_check vf pem (ENVELOPE_PREFIX @ ''.'' @ payload) sig = Some True)
   \<and> c_aud c = vo_audience opts \<and> vo_subject_ok opts (c_sub c)
   \<and> (vo_subject opts = None \<or> vo_subject opts = Some (c_sub c))"

lemma passes_checks: "token_parts token = Some (payload, sig) \<Longrightarrow>
    passes vf clock token opts c \<longleftrightarrow> decodeClaims (vf_parse vf) payload = Some c \<and> checks vf clock payload sig opts c"
  by (auto simp: passes_def checks_def)

lemma verify_run_parts:
  assumes "token_parts token = Some (payload, sig)" "decodeClaims (vf_parse vf) payload = Some c"
  shows "(checks vf clock payload sig opts c \<longrightarrow>
       verifyAssertion vf clock st token opts =
         map_prod id (\<lambda>r. replay_verdict r c) (vf_consume vf st (c_iss c) (c_jti c) (c_exp c) (now_of clock opts)))
    \<and> (\<not> checks vf clock payload sig opts c \<longrightarrow> (\<exists>code. code \<noteq> Replayed \<and> verifyAssertion vf clock st token opts = (st, Inl code)))"
proof -
  have split: "js_split (CHR ''.'') token = [''bawes-aa'', ''v1'', payload, sig]"
    using assms(1) by (auto simp: token_parts_def split: list.splits if_splits)
  note run = verifyAssertion_def [of vf clock st token opts, unfolded split Let_def now_of_def [symmetric] skew_of_def [symmetric]
      list.case, unfolded assms(2), simplified]
  show ?thesis
  proof (cases "vf_resolve vf (c_iss c) (c_kid c)")
    case None
    then show ?thesis by (auto simp: run checks_def)
  next
    case (Some key)
    show ?thesis
    proof (cases "key = None \<or> key = Some []")
      case True
      with Some show ?thesis by (auto simp: run checks_def)
    next
      case False
      then obtain pem where pem: "key = Some pem" "pem \<noteq> []" by auto
      show ?thesis
      proof (cases "vf_check vf pem (ENVELOPE_PREFIX @ CHR ''.'' # payload) sig = Some True")
        case True
        with Some pem show ?thesis
          by (auto simp: run checks_def replay_verdict_def not_le split: prod.splits option.splits bool.splits)
      next
        case no: False
        have "verifyAssertion vf clock st token opts = (st, Inl (if c_exp c \<le> of_int (now_of clock opts) then Expired
            else if c_iat c > of_int (now_of clock opts) + skew_of opts then Future_iat else Bad_signature))"
          using Some pem no by (auto simp: run split: option.splits bool.splits)
        moreover have "\<not> checks vf clock payload sig opts c" using Some pem no by (auto simp: checks_def)
        ultimately show ?thesis by simp
      qed
    qed
  qed
qed

lemma verify_cases:
  "(\<exists>c st' r. passes vf clock token opts c \<and> vf_consume vf st (c_iss c) (c_jti c) (c_exp c) (now_of clock opts) = (st', r)
      \<and> verifyAssertion vf clock st token opts = (st', replay_verdict r c))
   \<or> ((\<nexists>c. passes vf clock token opts c) \<and> (\<exists>code. code \<noteq> Replayed \<and> verifyAssertion vf clock st token opts = (st, Inl code)))"
proof (cases "token_parts token")
  case None
  have "verifyAssertion vf clock st token opts = (st, Inl Malformed)"
    using None unfolding verifyAssertion_def token_parts_def by (auto split: list.splits if_splits)
  with None show ?thesis by (auto simp: passes_def)
next
  case (Some ps)
  obtain payload sig where ps: "token_parts token = Some (payload, sig)" using Some by (cases ps) simp
  show ?thesis
  proof (cases "decodeClaims (vf_parse vf) payload")
    case None
    then have "verifyAssertion vf clock st token opts = (st, Inl Malformed)"
      using ps by (auto simp: verifyAssertion_def token_parts_def split: list.splits if_splits)
    with ps None show ?thesis by (auto simp: passes_checks)
  next
    case (Some c)
    obtain st' r where "vf_consume vf st (c_iss c) (c_jti c) (c_exp c) (now_of clock opts) = (st', r)" by force
    with verify_run_parts [OF ps Some, of clock opts st] ps Some show ?thesis by (auto simp: passes_checks)
  qed
qed

lemma verify_Inr:
  "verifyAssertion vf clock st token opts = (st', Inr c) \<longleftrightarrow>
     passes vf clock token opts c \<and> vf_consume vf st (c_iss c) (c_jti c) (c_exp c) (now_of clock opts) = (st', Some False)"
  using verify_cases [of vf clock token opts st]
proof (elim disjE exE conjE)
  fix c0 st1 r
  assume p: "passes vf clock token opts c0"
    and con: "vf_consume vf st (c_iss c0) (c_jti c0) (c_exp c0) (now_of clock opts) = (st1, r)"
    and run: "verifyAssertion vf clock st token opts = (st1, replay_verdict r c0)"
  have "passes vf clock token opts c \<longleftrightarrow> c = c0" using p passes_unique [OF p] by blast
  then show ?thesis using con run by auto
qed auto

section \<open>Single use\<close>

fun verify_run :: "'s verifier \<Rightarrow> 's \<Rightarrow> (rat \<times> string \<times> verify_options) list \<Rightarrow> (assertion_code + assertion_claims) list" where
  "verify_run vf st [] = []"
| "verify_run vf st ((clock, token, opts) # rs) =
     (case verifyAssertion vf clock st token opts of (st', r) \<Rightarrow> r # verify_run vf st' rs)"

definition run_times :: "(rat \<times> string \<times> verify_options) list \<Rightarrow> int list" where
  "run_times rs = map (\<lambda>(clock, token, opts). now_of clock opts) rs"

lemma run_accepted:
  "j < length rs \<Longrightarrow> verify_run vf st rs ! j = Inr c \<Longrightarrow>
   passes vf (fst (rs ! j)) (fst (snd (rs ! j))) (snd (snd (rs ! j))) c"
proof (induction rs arbitrary: st j)
  case (Cons q rs)
  obtain clock token opts where q: "q = (clock, token, opts)" by (cases q)
  obtain st1 r where v: "verifyAssertion vf clock st token opts = (st1, r)" by force
  with q Cons show ?case by (cases j) (auto simp: verify_Inr)
qed simp

text \<open>What the verifier needs of a replay store: a recorded pair stays recorded, and is reported,
  until its expiry.\<close>

locale replay_store =
  fixes consume :: "'s \<Rightarrow> string \<Rightarrow> string \<Rightarrow> rat \<Rightarrow> int \<Rightarrow> 's \<times> bool option"
    and recorded :: "'s \<Rightarrow> string \<Rightarrow> string \<Rightarrow> rat option"
  assumes consume_new: "consume st i j e n = (st', Some False) \<Longrightarrow> recorded st' i j = Some e"
    and consume_keeps: "consume st i' j' e' n = (st', r) \<Longrightarrow> recorded st i j = Some e \<Longrightarrow> of_int n < e \<Longrightarrow> recorded st' i j = Some e"
    and consume_seen: "consume st i j e' n = (st', r) \<Longrightarrow> recorded st i j = Some e \<Longrightarrow> of_int n < e \<Longrightarrow> r \<noteq> Some False"
begin

lemma verify_keeps:
  assumes "vf_consume vf = consume" "verifyAssertion vf clock st token opts = (st', r)"
    and "recorded st i j = Some e" "of_int (now_of clock opts) < e"
  shows "recorded st' i j = Some e"
proof -
  have "st' = st \<or> (\<exists>(c :: assertion_claims) r'. consume st (c_iss c) (c_jti c) (c_exp c) (now_of clock opts) = (st', r'))"
    using verify_cases [of vf clock token opts st] assms(2) unfolding assms(1) by (elim disjE exE conjE) auto
  then show ?thesis using assms(3,4) by (auto intro: consume_keeps)
qed

lemma recorded_never_accepted:
  assumes "vf_consume vf = consume" "sorted (run_times rs)" "recorded st (c_iss c) (c_jti c) = Some (c_exp c)"
    and "j < length rs" "fst (snd (rs ! j)) = token" "verify_run vf st rs ! j = Inr c'"
    and only: "\<And>clock opts c'. passes vf clock token opts c' \<Longrightarrow> c' = c"
  shows False
  using assms(2-6)
proof (induction rs arbitrary: st j)
  case (Cons q rs)
  obtain clock tok opts where q: "q = (clock, tok, opts)" by (cases q)
  obtain st1 r where v: "verifyAssertion vf clock st tok opts = (st1, r)" by force
  show False
  proof (cases j)
    case 0
    with Cons.prems q v have "tok = token" "verifyAssertion vf clock st token opts = (st1, Inr c')" by simp_all
    then have p: "passes vf clock token opts c'"
      and con: "consume st (c_iss c') (c_jti c') (c_exp c') (now_of clock opts) = (st1, Some False)"
      unfolding verify_Inr assms(1) by simp_all
    have "c' = c" using only [OF p] .
    moreover have "of_int (now_of clock opts) < c_exp c'" using p by (auto simp: passes_def)
    ultimately show False using consume_seen [OF con Cons.prems(2) [folded \<open>c' = c\<close>]] by simp
  next
    case (Suc j')
    have acc: "j' < length rs" "fst (snd (rs ! j')) = token" "verify_run vf st1 rs ! j' = Inr c'"
      using Cons.prems Suc q v by simp_all
    have times: "\<forall>t \<in> set (run_times rs). now_of clock opts \<le> t" "sorted (run_times rs)"
      using Cons.prems(1) q by (auto simp: run_times_def)
    show False
    proof (cases "of_int (now_of clock opts) < c_exp c")
      case True
      from verify_keeps [OF assms(1) v Cons.prems(2) True] Cons.IH [OF times(2) _ acc] show False by blast
    next
      case False
      obtain clock' opts' where nth: "rs ! j' = (clock', token, opts')" using acc(2) by (metis prod.collapse)
      have p: "passes vf clock' token opts' c'" using run_accepted [OF acc(1,3)] nth by simp
      then have "of_int (now_of clock' opts') < c_exp c" using only [OF p] by (auto simp: passes_def)
      moreover have "now_of clock opts \<le> now_of clock' opts'"
        using times(1) nth_mem [OF acc(1)] nth by (auto simp: run_times_def)
      ultimately show False using False by linarith
    qed
  qed
qed simp

lemma single_use:
  assumes "vf_consume vf = consume" "sorted (run_times rs)"
    and "i < j" "j < length rs" "fst (snd (rs ! i)) = fst (snd (rs ! j))"
    and "verify_run vf st rs ! i = Inr c" "verify_run vf st rs ! j = Inr c'"
  shows False
  using assms(2-7)
proof (induction rs arbitrary: st i j)
  case (Cons q rs)
  obtain clock token opts where q: "q = (clock, token, opts)" by (cases q)
  obtain st1 r where v: "verifyAssertion vf clock st token opts = (st1, r)" by force
  obtain j' where j: "j = Suc j'" using Cons.prems(2) by (cases j) auto
  have times: "sorted (run_times rs)" using Cons.prems(1) by (simp add: run_times_def)
  show False
  proof (cases i)
    case 0
    with Cons.prems q v have "verifyAssertion vf clock st token opts = (st1, Inr c)" by simp
    then have p: "passes vf clock token opts c" and "consume st (c_iss c) (c_jti c) (c_exp c) (now_of clock opts) = (st1, Some False)"
      unfolding verify_Inr assms(1) by simp_all
    from consume_new [OF this(2)] have "recorded st1 (c_iss c) (c_jti c) = Some (c_exp c)" .
    from recorded_never_accepted [OF assms(1) times this, of j' token c'] Cons.prems 0 q v j passes_unique [OF _ p]
    show False by simp
  next
    case (Suc i')
    with Cons.IH [OF times, of i' j' st1] Cons.prems q v j show False by simp
  qed
qed simp

end


lemma map_of_filter_keeps: "map_of m k = Some v \<Longrightarrow> P (k, v) \<Longrightarrow> map_of (filter P m) k = Some v"
  by (induction m) (auto split: if_splits)

interpretation memory_replay: replay_store memory_consume "\<lambda>seen i j. map_of seen (replay_key i j)"
proof
  fix st st' i j e n
  assume "memory_consume st i j e n = (st', Some False)"
  then show "map_of st' (replay_key i j) = Some e"
    by (auto simp: memory_consume_def replay_consume_def Let_def split: if_splits)
next
  fix st i' j' e' n st' r i j e
  assume run: "memory_consume st i' j' e' n = (st', r)" and e: "map_of st (replay_key i j) = Some e" "of_int n < e"
  have "map_of (filter (\<lambda>(_, seenExp). \<not> seenExp \<le> of_int n) st) (replay_key i j) = Some e"
    by (rule map_of_filter_keeps) (use e in auto)
  then show "map_of st' (replay_key i j) = Some e"
    using run by (auto simp: memory_consume_def replay_consume_def Let_def split: if_splits)
next
  fix st i j e' n st' r e
  assume run: "memory_consume st i j e' n = (st', r)" and e: "map_of st (replay_key i j) = Some e" "of_int n < e"
  have "map_of (filter (\<lambda>(_, seenExp). \<not> seenExp \<le> of_int n) st) (replay_key i j) = Some e"
    by (rule map_of_filter_keeps) (use e in auto)
  then show "r \<noteq> Some False"
    using run by (auto simp: memory_consume_def replay_consume_def Let_def split: if_splits)
qed

section \<open>Decoding what was signed\<close>

definition claims_wf :: "assertion_claims \<Rightarrow> bool" where
  "claims_wf c \<longleftrightarrow> c_iss c \<noteq> [] \<and> c_aud c \<noteq> [] \<and> c_jti c \<noteq> [] \<and> c_kid c \<noteq> Some []
   \<and> (case c_act c of None \<Rightarrow> True | Some (org, role) \<Rightarrow> org \<noteq> Some [] \<and> role \<noteq> Some [])"

lemma opt_json_lookup [simp]: "map_of (opt_json k v) k' = (if k' = k then map_option JStr v else None)"
  by (simp add: opt_json_def split: option.splits)

lemma decode_claims_json:
  assumes "claims_wf c" and "parse payload = Some (claims_json c)"
  shows "decodeClaims parse payload = Some c"
proof -
  obtain m where m: "claims_json c = JObj m" by (simp add: claims_json_def)
  have rest: "map_of m ''v'' = Some (JNum (Some 1))" "map_of m ''iss'' = Some (JStr (c_iss c))" "map_of m ''aud'' = Some (JStr (c_aud c))"
    "map_of m ''sub'' = Some (JStr (c_sub c))" "map_of m ''iat'' = Some (JNum (Some (c_iat c)))"
    "map_of m ''exp'' = Some (JNum (Some (c_exp c)))" "map_of m ''jti'' = Some (JStr (c_jti c))"
    "map_of m ''kid'' = map_option JStr (c_kid c)"
    "map_of m ''act'' = (case c_act c of None \<Rightarrow> None | Some (org, role) \<Rightarrow> Some (JObj (opt_json ''org'' org @ opt_json ''role'' role)))"
    using m by (auto simp: claims_json_def map_add_def split: option.splits)
  have kid: "optional_text m ''kid'' = Some (c_kid c)"
    using assms(1) by (cases "c_kid c") (auto simp: claims_wf_def optional_text_def rest)
  have act: "decode_act m = Some (c_act c)"
  proof (cases "c_act c")
    case None
    then show ?thesis by (simp add: decode_act_def rest)
  next
    case (Some p)
    obtain org role where p: "p = (org, role)" by force
    with Some assms(1) have "org \<noteq> Some []" "role \<noteq> Some []" by (simp_all add: claims_wf_def)
    then have "optional_text (opt_json ''org'' org @ opt_json ''role'' role) ''org'' = Some org"
      "optional_text (opt_json ''org'' org @ opt_json ''role'' role) ''role'' = Some role"
      by (cases org; cases role; simp add: optional_text_def map_add_def)+
    with Some p show ?thesis by (simp add: decode_act_def rest)
  qed
  show ?thesis
    using assms(1,2) by (simp add: decodeClaims_def m decode_object_def str_member_def num_member_def rest kid act claims_wf_def)
qed

lemma signed_parts:
  assumes "CHR ''.'' \<notin> set (encode (claims_json c))" "CHR ''.'' \<notin> set (sign key (ENVELOPE_PREFIX @ ''.'' @ encode (claims_json c)))"
  shows "token_parts (signAssertion encode sign c key)
    = Some (encode (claims_json c), sign key (ENVELOPE_PREFIX @ ''.'' @ encode (claims_json c)))"
proof -
  have "signAssertion encode sign c key = ''bawes-aa'' @ CHR ''.'' # ''v1'' @ CHR ''.'' # encode (claims_json c)
      @ CHR ''.'' # sign key (ENVELOPE_PREFIX @ ''.'' @ encode (claims_json c))"
    by (simp add: signAssertion_def ENVELOPE_PREFIX_def Let_def)
  moreover have "CHR ''.'' \<notin> set ''bawes-aa''" "CHR ''.'' \<notin> set ''v1''" by simp_all
  ultimately show ?thesis using assms by (simp only: token_parts_def js_split_append js_split_single list.case) simp
qed

section \<open>Properties\<close>

text \<open>C2. An assertion is accepted exactly when it is a four-part \<open>bawes-aa.v1\<close> envelope whose
  claims decode, it has not expired and was not issued beyond the skew, the issuer's key checks
  the signature over the received payload, audience and subject match, and the replay store
  takes the pair (issuer, jti) as new; and the replay store is untouched unless everything
  before it passed, so unauthentic tokens cannot burn identifiers.\<close>

theorem verify_accepts_iff:
  "(verifyAssertion vf clock st token opts = (st', Inr c) \<longleftrightarrow>
      passes vf clock token opts c \<and> vf_consume vf st (c_iss c) (c_jti c) (c_exp c) (now_of clock opts) = (st', Some False))
   \<and> ((\<nexists>c. passes vf clock token opts c) \<longrightarrow>
        fst (verifyAssertion vf clock st token opts) = st \<and> (\<exists>code. code \<noteq> Replayed \<and> snd (verifyAssertion vf clock st token opts) = Inl code))"
  using verify_Inr [of vf clock st token opts st' c] verify_cases [of vf clock token opts st]
  by (elim disjE exE conjE) auto

definition sample_claims :: assertion_claims where
  "sample_claims = \<lparr>c_iss = ''idp'', c_kid = Some ''k1'', c_aud = ''gw/api'', c_sub = ''ada@x.y'', c_iat = 100, c_exp = 160,
     c_jti = ''j1'', c_act = Some (Some ''shop'', None)\<rparr>"

definition sample_verifier :: "replay_seen verifier" where
  "sample_verifier = \<lparr>vf_parse = \<lambda>p. if p = ''PAY'' then Some (claims_json sample_claims) else None,
     vf_resolve = \<lambda>iss kid. Some (if iss = ''idp'' \<and> kid = Some ''k1'' then Some ''PEM'' else None),
     vf_check = \<lambda>pem msg sig. Some (pem = ''PEM'' \<and> msg = ''bawes-aa.v1.PAY'' \<and> sig = ''SIG''),
     vf_consume = memory_consume\<rparr>"

definition sample_options :: verify_options where
  "sample_options = \<lparr>vo_audience = ''gw/api'', vo_subject_ok = universe_subject, vo_subject = None, vo_now = None, vo_skew = None\<rparr>"

lemma sample_subject: "universe_subject ''ada@x.y''"
  by (simp add: universe_subject_def user_email_subject_def js_space_def upt_rec)

lemma sample_passes: "passes sample_verifier 120 ''bawes-aa.v1.PAY.SIG'' sample_options sample_claims"
proof -
  have "claims_wf sample_claims" by (simp add: claims_wf_def sample_claims_def)
  then have "decodeClaims (vf_parse sample_verifier) ''PAY'' = Some sample_claims"
    by (rule decode_claims_json) (simp add: sample_verifier_def)
  then show ?thesis
    by (auto simp: passes_def token_parts_def sample_verifier_def sample_options_def sample_claims_def now_of_def skew_of_def
        default_skew_def ENVELOPE_PREFIX_def sample_subject)
qed

theorem verify_accepts_iff_witness:
  "\<exists>st'. verifyAssertion sample_verifier 120 [] ''bawes-aa.v1.PAY.SIG'' sample_options = (st', Inr sample_claims)"
proof -
  have "vf_consume sample_verifier [] ''idp'' ''j1'' 160 120 = ([(replay_key ''idp'' ''j1'', 160)], Some False)"
    by (simp add: sample_verifier_def memory_consume_def replay_consume_def)
  then show ?thesis
    using verify_accepts_iff [of sample_verifier 120 "[]" "''bawes-aa.v1.PAY.SIG''" sample_options _ sample_claims] sample_passes
    by (auto simp: sample_claims_def now_of_def sample_options_def)
qed

text \<open>C3. An assertion is used once: along any sequence of verifications whose clocks do not run
  backwards, over one in-memory replay store and whatever else is verified in between, the
  same token is never accepted twice.\<close>

theorem assertion_single_use:
  assumes "vf_consume vf = memory_consume" "sorted (run_times rs)"
    and "i < j" "j < length rs" "fst (snd (rs ! i)) = fst (snd (rs ! j))"
    and "verify_run vf seen rs ! i = Inr c"
  shows "\<exists>code. verify_run vf seen rs ! j = Inl code"
  using memory_replay.single_use [OF assms] by (cases "verify_run vf seen rs ! j") auto

theorem assertion_single_use_witness:
  "\<exists>code. verify_run sample_verifier [] [(120, ''bawes-aa.v1.PAY.SIG'', sample_options), (121, ''bawes-aa.v1.PAY.SIG'', sample_options)] ! 1 = Inl code"
proof (rule assertion_single_use [where i = 0 and c = sample_claims])
  obtain st' where "verifyAssertion sample_verifier 120 [] ''bawes-aa.v1.PAY.SIG'' sample_options = (st', Inr sample_claims)"
  proof -
    have "vf_consume sample_verifier [] ''idp'' ''j1'' 160 120 = ([(replay_key ''idp'' ''j1'', 160)], Some False)"
      by (simp add: sample_verifier_def memory_consume_def replay_consume_def)
    with sample_passes that show thesis by (simp add: verify_Inr sample_claims_def now_of_def sample_options_def)
  qed
  then show "verify_run sample_verifier [] [(120, ''bawes-aa.v1.PAY.SIG'', sample_options), (121, ''bawes-aa.v1.PAY.SIG'', sample_options)] ! 0 = Inr sample_claims"
    by simp
qed (simp_all add: sample_verifier_def run_times_def now_of_def sample_options_def)

text \<open>Replay state is scoped by issuer: whatever one issuer's assertion records, a pair of
  another issuer is judged as before (issuers whose names hold no NUL, which the source
  assumes and does not check).\<close>

theorem replay_issuers_isolated:
  assumes "CHR 0x00 \<notin> set issuer" "CHR 0x00 \<notin> set other" "issuer \<noteq> other" and "now \<le> later"
  shows "snd (replay_consume (fst (replay_consume seen issuer jti expiresAt now)) other jti' e later) = snd (replay_consume seen other jti' e later)"
proof -
  have key: "replay_key other jti' \<noteq> replay_key issuer jti"
    using assms(1-3) by (simp add: replay_key_def sep_inject_left)
  have live: "filter (\<lambda>(_, seenExp). \<not> seenExp \<le> of_int later) (filter (\<lambda>(_, seenExp). \<not> seenExp \<le> of_int now) seen)
      = filter (\<lambda>(_, seenExp). \<not> seenExp \<le> (of_int later :: rat)) seen"
    using assms(4) by (auto intro!: filter_cong simp: filter_filter)
  have upd: "map_of (filter P (AList.update k v m)) k' = map_of (filter P m) k'" if "k' \<noteq> k" for P k v m and k' :: string
    using that by (induction m) auto
  show ?thesis using key live by (simp add: replay_consume_def Let_def upd)
qed

theorem replay_issuers_isolated_witness:
  "snd (replay_consume (fst (replay_consume [] ''a'' ''j'' 10 1)) ''b'' ''j'' 10 2) = False"
  using replay_issuers_isolated [of "''a''" "''b''" 1 2 "[]" "''j''" 10 "''j''" 10] by (simp add: replay_consume_def)

text \<open>Signing then verifying succeeds: for well-formed claims an envelope made by
  \<open>signAssertion\<close> is accepted with exactly those claims, where decoding inverts encoding on the
  claims, neither part holds a dot, and the key pair checks its own signature.\<close>

theorem sign_verify_round_trip:
  assumes "claims_wf c"
    and decodes: "vf_parse vf (encode (claims_json c)) = Some (claims_json c)"
    and dots: "CHR ''.'' \<notin> set (encode (claims_json c))" "CHR ''.'' \<notin> set (sign key (ENVELOPE_PREFIX @ ''.'' @ encode (claims_json c)))"
    and pair: "vf_resolve vf (c_iss c) (c_kid c) = Some (Some pem)" "pem \<noteq> []"
      "vf_check vf pem (ENVELOPE_PREFIX @ ''.'' @ encode (claims_json c)) (sign key (ENVELOPE_PREFIX @ ''.'' @ encode (claims_json c))) = Some True"
    and meant: "of_int (now_of clock opts) < c_exp c" "c_iat c \<le> of_int (now_of clock opts) + skew_of opts"
      "c_aud c = vo_audience opts" "vo_subject_ok opts (c_sub c)" "vo_subject opts = None"
    and new: "vf_consume vf st (c_iss c) (c_jti c) (c_exp c) (now_of clock opts) = (st', Some False)"
  shows "verifyAssertion vf clock st (signAssertion encode sign c key) opts = (st', Inr c)"
proof -
  have "passes vf clock (signAssertion encode sign c key) opts c"
    unfolding passes_checks [OF signed_parts [where sign = sign and key = key and encode = encode and c = c, OF dots]] checks_def
    using decode_claims_json [where parse = "vf_parse vf", OF assms(1) decodes] pair meant by blast
  with new show ?thesis by (simp add: verify_Inr)
qed

theorem sign_verify_round_trip_witness:
  "\<exists>st'. verifyAssertion sample_verifier 120 [] (signAssertion (\<lambda>_. ''PAY'') (\<lambda>_ _. ''SIG'') sample_claims ''KEY'') sample_options = (st', Inr sample_claims)"
proof -
  have "verifyAssertion sample_verifier 120 [] (signAssertion (\<lambda>_. ''PAY'') (\<lambda>_ _. ''SIG'') sample_claims ''KEY'') sample_options
      = ([(replay_key ''idp'' ''j1'', 160)], Inr sample_claims)"
    by (rule sign_verify_round_trip [where pem = "''PEM''"])
      (simp_all add: sample_verifier_def sample_options_def sample_claims_def claims_wf_def ENVELOPE_PREFIX_def now_of_def
        skew_of_def default_skew_def sample_subject memory_consume_def replay_consume_def)
  then show ?thesis by blast
qed

end
