(* ===== verification/Gateway_Authz.thy ===== *)
theory Gateway_Authz
  imports Active_Context Issuer_Registry Actor_Assertion
begin

text \<open>
  The gateway's authorization of one request, \<^verbatim>\<open>apps/gateway/src/authz-middleware.ts\<close>,
  its audit trail, \<^verbatim>\<open>apps/gateway/src/authz-audit.ts\<close>, and the adapter between
  assertions and the resolver, \<^verbatim>\<open>packages/contracts/src/authz/assertion.ts\<close>. A
  request consumes replay state and appends to the audit trail; both are returned. A grants
  store that rejects is \<open>None\<close> for its reads, and the request then throws.
\<close>

section \<open>From claims to the resolver\<close>

definition claimsToRequestIdentity :: "assertion_claims \<Rightarrow> request_identity" where
  "claimsToRequestIdentity c = By_pbuuid (c_sub c)"

definition claimsActToContextSelection :: "assertion_claims \<Rightarrow> context_selection option" where
  "claimsActToContextSelection c = (case c_act c of
     None \<Rightarrow> None
   | Some (org, role) \<Rightarrow> if org = None \<and> role = None then None else Some \<lparr>sel_org = org, sel_role = role\<rparr>)"

section \<open>Audit events\<close>

datatype decision_reason = Assertion_reason assertion_code | Missing_assertion | Context_reason denial_reason

datatype decision_stage = Authentication | Authorization

datatype audit_event =
    Allow_event (ev_timestamp: string) (ev_request: string) string string string
  | Deny_event (ev_timestamp: string) (ev_request: string) decision_stage decision_reason nat
  | Dependency_event (ev_timestamp: string) (ev_request: string)

datatype sink_result = Sink_ok | Sink_throws | Sink_rejects

record audit_trail =
  at_events :: "audit_event list"
  at_failures :: "string list"

text \<open>A failure handler that throws or rejects is contained, so it only shows as the signal raised.\<close>

definition emitAuthorizationAuditEvent :: "(audit_event \<Rightarrow> sink_result) \<Rightarrow> audit_event \<Rightarrow> audit_trail \<Rightarrow> audit_trail" where
  "emitAuthorizationAuditEvent sink event trail =
     (let offered = trail\<lparr>at_events := at_events trail @ [event]\<rparr>
      in case sink event of
           Sink_ok \<Rightarrow> offered
         | Sink_throws \<Rightarrow> offered\<lparr>at_failures := at_failures offered @ [ev_request event]\<rparr>
         | Sink_rejects \<Rightarrow> offered\<lparr>at_failures := at_failures offered @ [ev_request event]\<rparr>)"

definition MAX_PENDING_AUDIT_BYTES :: nat where
  "MAX_PENDING_AUDIT_BYTES = 1024 * 1024"

definition pendingBytes :: "nat option \<Rightarrow> nat" where
  "pendingBytes writableLength = (case writableLength of Some n \<Rightarrow> n | None \<Rightarrow> 0)"

text \<open>The stdout sink: \<open>line_bytes\<close> is the size of the event's line, \<open>writableLength\<close> what the
  stream reports to hold; an accepted line joins what is pending.\<close>

definition stdout_sink :: "nat option \<Rightarrow> nat \<Rightarrow> sink_result \<times> nat" where
  "stdout_sink writableLength line_bytes =
     (if pendingBytes writableLength + line_bytes > MAX_PENDING_AUDIT_BYTES then (Sink_throws, pendingBytes writableLength)
      else (Sink_ok, pendingBytes writableLength + line_bytes))"

section \<open>The middleware\<close>

record 's authz_middleware =
  mw_verifier :: "'s verifier"
  mw_audience :: string
  mw_subject_ok :: "string \<Rightarrow> bool"
  mw_reads :: "authz_reads option"
  mw_sink :: "audit_event \<Rightarrow> sink_result"

text \<open>The key resolver is always the registry's; an empty destination is refused.\<close>

definition createAuthzMiddleware ::
    "(string \<Rightarrow> json option) \<Rightarrow> (string \<Rightarrow> string \<Rightarrow> string \<Rightarrow> bool option) \<Rightarrow> (string \<Rightarrow> string \<Rightarrow> int)
     \<Rightarrow> authz_reads option \<Rightarrow> registry \<Rightarrow> ('s \<Rightarrow> string \<Rightarrow> string \<Rightarrow> rat \<Rightarrow> int \<Rightarrow> 's \<times> bool option)
     \<Rightarrow> (string \<Rightarrow> bool) \<Rightarrow> string \<Rightarrow> (audit_event \<Rightarrow> sink_result) \<Rightarrow> 's authz_middleware option" where
  "createAuthzMiddleware parse check localeCompare store reg consume subject_ok audience sink =
     (if blank audience then None
      else Some \<lparr>mw_verifier = \<lparr>vf_parse = parse, vf_resolve = \<lambda>issuer kid. Some (registryKeyResolver localeCompare reg issuer kid),
                               vf_check = check, vf_consume = consume\<rparr>,
                 mw_audience = audience, mw_subject_ok = subject_ok, mw_reads = store, mw_sink = sink\<rparr>)"

datatype request_decision = Allow string string string | Deny nat decision_reason

datatype auditable = Allowed string string string string | Refused nat decision_reason decision_stage

datatype 'a settled = Settled 'a | Threw | Hangs

definition decideRequest ::
    "'s authz_middleware \<Rightarrow> rat \<Rightarrow> 's \<Rightarrow> string option \<Rightarrow> 's \<times> auditable settled" where
  "decideRequest mw clock st assertionWire =
     (case assertionWire of
        None \<Rightarrow> (st, Settled (Refused 401 Missing_assertion Authentication))
      | Some wire \<Rightarrow>
          (if blank wire then (st, Settled (Refused 401 Missing_assertion Authentication))
           else case verifyAssertion (mw_verifier mw) clock st wire
               \<lparr>vo_audience = mw_audience mw, vo_subject_ok = mw_subject_ok mw, vo_subject = None, vo_now = None, vo_skew = None\<rparr> of
             (st', Inl code) \<Rightarrow> (st', Settled (Refused 401 (Assertion_reason code) Authentication))
           | (st', Inr claims) \<Rightarrow>
               (st', case mw_reads mw of
                  None \<Rightarrow> Threw
                | Some rd \<Rightarrow>
                    (case resolveActiveContext (claimsToRequestIdentity claims) (claimsActToContextSelection claims) rd of
                       None \<Rightarrow> Hangs
                     | Some (Denied reason) \<Rightarrow> Settled (Refused 403 (Context_reason reason) Authorization)
                     | Some (Authorized ctx _) \<Rightarrow>
                         Settled (Allowed (c_sub claims) (ac_org ctx) (role_text (ac_role ctx)) (ac_principal ctx))))))"

fun auditEventFor :: "auditable \<Rightarrow> string \<Rightarrow> string \<Rightarrow> audit_event" where
  "auditEventFor (Allowed subject orgId role principalId) requestId timestamp = Allow_event timestamp requestId principalId orgId role"
| "auditEventFor (Refused status reason stage) requestId timestamp = Deny_event timestamp requestId stage reason status"

fun decision_of :: "auditable \<Rightarrow> request_decision" where
  "decision_of (Allowed subject orgId role principalId) = Allow subject orgId role"
| "decision_of (Refused status reason stage) = Deny status reason"

text \<open>\<open>requestId\<close> is the current trace id, or a fresh one; \<open>timestamp\<close> the text of the clock.\<close>

definition authorizeRequest ::
    "'s authz_middleware \<Rightarrow> rat \<Rightarrow> string \<Rightarrow> string \<Rightarrow> 's \<Rightarrow> audit_trail \<Rightarrow> string option
     \<Rightarrow> 's \<times> audit_trail \<times> request_decision settled" where
  "authorizeRequest mw clock requestId timestamp st trail assertionWire =
     (case decideRequest mw clock st assertionWire of
        (st', Threw) \<Rightarrow> (st', emitAuthorizationAuditEvent (mw_sink mw) (Dependency_event timestamp requestId) trail, Threw)
      | (st', Hangs) \<Rightarrow> (st', trail, Hangs)
      | (st', Settled outcome) \<Rightarrow>
          (st', emitAuthorizationAuditEvent (mw_sink mw) (auditEventFor outcome requestId timestamp) trail, Settled (decision_of outcome)))"

definition createDenyAllAuthzMiddleware ::
    "(string \<Rightarrow> json option) \<Rightarrow> (string \<Rightarrow> string \<Rightarrow> string \<Rightarrow> bool option) \<Rightarrow> (string \<Rightarrow> string \<Rightarrow> int)
     \<Rightarrow> (audit_event \<Rightarrow> sink_result) \<Rightarrow> replay_seen authz_middleware option" where
  "createDenyAllAuthzMiddleware parse check localeCompare sink =
     createAuthzMiddleware parse check localeCompare (Some (reads_of empty_authz)) [] memory_consume universe_subject
       ''unconfigured://deny-all'' sink"

section \<open>The trail\<close>

lemma emit_events [simp]: "at_events (emitAuthorizationAuditEvent sink ev trail) = at_events trail @ [ev]"
  by (simp add: emitAuthorizationAuditEvent_def Let_def split: sink_result.splits)

lemma emit_failures [simp]:
  "at_failures (emitAuthorizationAuditEvent sink ev trail) =
     at_failures trail @ (if sink ev = Sink_ok then [] else [ev_request ev])"
  by (simp add: emitAuthorizationAuditEvent_def Let_def split: sink_result.splits)

lemma decide_ignores_sink: "decideRequest (mw\<lparr>mw_sink := sink\<rparr>) clock st wire = decideRequest mw clock st wire"
proof -
  have same: "mw_verifier (mw\<lparr>mw_sink := sink\<rparr>) = mw_verifier mw" "mw_audience (mw\<lparr>mw_sink := sink\<rparr>) = mw_audience mw"
    "mw_subject_ok (mw\<lparr>mw_sink := sink\<rparr>) = mw_subject_ok mw" "mw_reads (mw\<lparr>mw_sink := sink\<rparr>) = mw_reads mw"
    by simp_all
  show ?thesis unfolding decideRequest_def same ..
qed

definition memory_middleware ::
    "(string \<Rightarrow> json option) \<Rightarrow> (string \<Rightarrow> string \<Rightarrow> string \<Rightarrow> bool option) \<Rightarrow> (string \<Rightarrow> string \<Rightarrow> int)
     \<Rightarrow> authz_state \<Rightarrow> registry \<Rightarrow> (string \<Rightarrow> bool) \<Rightarrow> string \<Rightarrow> (audit_event \<Rightarrow> sink_result) \<Rightarrow> replay_seen authz_middleware option" where
  "memory_middleware parse check lc store reg subject_ok audience sink =
     createAuthzMiddleware parse check lc (Some (reads_of store)) reg memory_consume subject_ok audience sink"


section \<open>What an allow rests on\<close>

definition request_options :: "'s authz_middleware \<Rightarrow> verify_options" where
  "request_options mw = \<lparr>vo_audience = mw_audience mw, vo_subject_ok = mw_subject_ok mw, vo_subject = None, vo_now = None, vo_skew = None\<rparr>"

lemma decide_Allowed:
  assumes "decideRequest mw clock st wire = (st', Settled (Allowed subject orgId role principalId))"
  shows "\<exists>token c rd ctx roles. wire = Some token
    \<and> verifyAssertion (mw_verifier mw) clock st token (request_options mw) = (st', Inr c)
    \<and> mw_reads mw = Some rd
    \<and> resolveActiveContext (claimsToRequestIdentity c) (claimsActToContextSelection c) rd = Some (Authorized ctx roles)
    \<and> subject = c_sub c \<and> orgId = ac_org ctx \<and> role = role_text (ac_role ctx) \<and> principalId = ac_principal ctx"
  using assms unfolding decideRequest_def request_options_def
  by (auto split: option.splits if_splits prod.splits sum.splits context_resolution.splits)

lemma authorized_may_act:
  assumes ok: "reads_ok rd" and run: "resolveActiveContext identity selection rd = Some (Authorized ctx roles)"
  shows "resolvePrincipalId identity rd = Some (ac_principal ctx) \<and> rd_org rd (ac_org ctx) \<noteq> None
    \<and> may_act rd (ac_principal ctx) (ac_org ctx) (ac_role ctx)
    \<and> (\<forall>s orgId. selection = Some s \<longrightarrow> sel_org s = Some orgId \<longrightarrow>
         ac_org ctx = orgId \<and> (\<forall>c. sel_role s = Some c \<longrightarrow> c = role_text (ac_role ctx)))"
proof -
  obtain pid where pid: "resolvePrincipalId identity rd = Some pid"
    using run by (auto simp: resolveActiveContext_def split: option.splits)
  show ?thesis
  proof (cases "no_org selection")
    case True
    from resolve_untargeted [OF ok pid True] run obtain g where
      "known_contexts rd pid = {(ac_org ctx, ac_role ctx)}" "ctx = context_of pid (grant_at (ac_org ctx) g)"
      by auto
    moreover from this(2) have "ac_principal ctx = pid" by (metis context_of_def active_context.select_convs(1))
    ultimately have "(ac_org ctx, ac_role ctx) \<in> known_contexts rd (ac_principal ctx)" by simp
    then show ?thesis using pid \<open>ac_principal ctx = pid\<close> True by (auto simp: known_contexts_def)
  next
    case False
    then obtain s orgId where sel: "selection = Some s" "sel_org s = Some orgId" by (auto split: option.splits)
    then have "resolve_at_org pid orgId (sel_role s) rd = Authorized ctx roles"
      using run pid by (simp add: resolveActiveContext_def)
    then obtain g where g: "rd_org rd orgId \<noteq> None" "picked (sel_role s) (ac_role ctx) roles"
      "nearest_grant rd pid orgId (ac_role ctx) g" "ctx = context_of pid (grant_at orgId g)"
      unfolding resolve_at_org_Authorized [OF ok] by blast
    then have "ac_principal ctx = pid" "ac_org ctx = orgId" by (metis context_of_def active_context.select_convs(1,2) grant_at_simps(1))+
    then show ?thesis using pid sel g nearest_may_act [OF g(3)] by auto
  qed
qed

definition registered :: "registry \<Rightarrow> string \<Rightarrow> issuer_key \<Rightarrow> bool" where
  "registered reg issuer key \<longleftrightarrow> key \<in> set (map snd (case map_of reg issuer of None \<Rightarrow> [] | Some m \<Rightarrow> m))"

lemma resolver_active:
  assumes "registryKeyResolver lc reg issuer kid = Some pem"
  shows "\<exists>key. registered reg issuer key \<and> ik_status key = Active \<and> ik_public_key key = Some pem"
proof (cases kid)
  case None
  with resolver_no_kid assms show ?thesis unfolding registered_def by blast
next
  case (Some k)
  with assms obtain key where "getIssuerKey reg issuer k = Some key" "ik_status key = Active" "ik_public_key key = Some pem"
    by (auto simp: resolver_kid)
  then show ?thesis by (auto simp: registered_def getIssuerKey_def split: option.splits dest!: map_of_SomeD)
qed

section \<open>Properties\<close>

text \<open>C1. Whatever the gateway allows is authentic and granted: the assertion's signature over the
  received payload checks under an active registered key of its issuer, it is unexpired, bound to
  this gateway, about a human subject and unused; the subject is a registered principal's pbuuid;
  that principal holds a row covering the allowed organization and role, which are the ones the
  assertion asked for where it named an organization.\<close>

theorem allow_is_authentic_and_granted:
  assumes "reachable_store store"
    and "memory_middleware parse check lc store reg subject_ok audience sink = Some mw"
    and "authorizeRequest mw clock rid ts seen trail wire = (seen', trail', Settled (Allow subject orgId role))"
  shows "\<exists>token payload sig c key pem p r.
      wire = Some token \<and> token_parts token = Some (payload, sig)
    \<and> decodeClaims parse payload = Some c \<and> c_sub c = subject
    \<and> registered reg (c_iss c) key \<and> ik_status key = Active \<and> ik_public_key key = Some pem
    \<and> check pem (ENVELOPE_PREFIX @ ''.'' @ payload) sig = Some True
    \<and> c_aud c = audience \<and> subject_ok subject \<and> of_int \<lfloor>clock\<rfloor> < c_exp c
    \<and> memory_consume seen (c_iss c) (c_jti c) (c_exp c) \<lfloor>clock\<rfloor> = (seen', Some False)
    \<and> findPrincipalByPbuuid store subject = Some p \<and> getOrganization store orgId \<noteq> None
    \<and> role = role_text r \<and> may_act (reads_of store) (pr_id p) orgId r
    \<and> (\<forall>org claimed. c_act c = Some (Some org, claimed) \<longrightarrow> orgId = org \<and> (\<forall>x. claimed = Some x \<longrightarrow> role = x))"
proof -
  have mw: "mw_verifier mw = \<lparr>vf_parse = parse, vf_resolve = \<lambda>issuer kid. Some (registryKeyResolver lc reg issuer kid),
      vf_check = check, vf_consume = memory_consume\<rparr>" "mw_audience mw = audience" "mw_subject_ok mw = subject_ok"
      "mw_reads mw = Some (reads_of store)"
    using assms(2) by (auto simp: memory_middleware_def createAuthzMiddleware_def split: if_splits)
  obtain principalId where "decideRequest mw clock seen wire = (seen', Settled (Allowed subject orgId role principalId))"
    using assms(3) by (auto simp: authorizeRequest_def split: prod.splits settled.splits elim: decision_of.elims)
  from decide_Allowed [OF this] obtain token c ctx roles where run: "wire = Some token"
    "verifyAssertion (mw_verifier mw) clock seen token (request_options mw) = (seen', Inr c)"
    "resolveActiveContext (claimsToRequestIdentity c) (claimsActToContextSelection c) (reads_of store) = Some (Authorized ctx roles)"
    "subject = c_sub c" "orgId = ac_org ctx" "role = role_text (ac_role ctx)"
    using mw(4) by auto
  have now: "now_of clock (request_options mw) = \<lfloor>clock\<rfloor>" by (simp add: now_of_def request_options_def)
  from run(2) have passes: "passes (mw_verifier mw) clock token (request_options mw) c"
    and consumed: "memory_consume seen (c_iss c) (c_jti c) (c_exp c) \<lfloor>clock\<rfloor> = (seen', Some False)"
    unfolding verify_Inr now by (simp_all add: mw(1))
  from passes obtain payload sig pem where wire: "token_parts token = Some (payload, sig)" "decodeClaims parse payload = Some c"
    "registryKeyResolver lc reg (c_iss c) (c_kid c) = Some pem" "check pem (ENVELOPE_PREFIX @ ''.'' @ payload) sig = Some True"
    "c_aud c = audience" "subject_ok (c_sub c)" "of_int \<lfloor>clock\<rfloor> < c_exp c"
    unfolding passes_def now by (auto simp: mw request_options_def)
  from resolver_active [OF wire(3)] obtain key where key: "registered reg (c_iss c) key" "ik_status key = Active" "ik_public_key key = Some pem"
    by blast
  note granted = authorized_may_act [OF reads_of_ok [OF reachable_store_ok [OF assms(1)]] run(3)]
  then obtain p where p: "findPrincipalByPbuuid store (c_sub c) = Some p" "ac_principal ctx = pr_id p"
    by (auto simp: resolvePrincipalId_def claimsToRequestIdentity_def reads_of_def)
  have asked: "orgId = org \<and> (\<forall>x. claimed = Some x \<longrightarrow> role = x)" if "c_act c = Some (Some org, claimed)" for org claimed
    using granted that run(5,6) by (simp add: claimsActToContextSelection_def)
  have "getOrganization store orgId \<noteq> None" "may_act (reads_of store) (pr_id p) orgId (ac_role ctx)"
    using granted p(2) run(5) unfolding rd_org_reads_of by auto
  with run(1,4,6) wire key consumed p(1) asked show ?thesis by blast
qed


definition gateway :: "replay_seen authz_middleware" where
  "gateway = the (memory_middleware (vf_parse sample_verifier) (vf_check sample_verifier) (\<lambda>_ _. 0) granted_store
     [(''idp'', [(''k1'', sample_key)])] universe_subject ''gw/api'' (\<lambda>_. Sink_ok))"

lemma gateway_is: "memory_middleware (vf_parse sample_verifier) (vf_check sample_verifier) (\<lambda>_ _. 0) granted_store
     [(''idp'', [(''k1'', sample_key)])] universe_subject ''gw/api'' (\<lambda>_. Sink_ok) = Some gateway"
  by (simp add: gateway_def memory_middleware_def createAuthzMiddleware_def blank_def js_trim_def js_space_def)

lemma gateway_fields: "mw_verifier gateway = sample_verifier\<lparr>vf_resolve := \<lambda>issuer kid. Some (registryKeyResolver (\<lambda>_ _. 0) [(''idp'', [(''k1'', sample_key)])] issuer kid)\<rparr>"
  "mw_audience gateway = ''gw/api''" "mw_subject_ok gateway = universe_subject" "mw_reads gateway = Some (reads_of granted_store)"
  by (simp_all add: gateway_def memory_middleware_def createAuthzMiddleware_def sample_verifier_def blank_def js_trim_def js_space_def)

lemma gateway_passes: "passes (mw_verifier gateway) 120 ''bawes-aa.v1.PAY.SIG'' (request_options gateway) sample_claims"
proof -
  have "decodeClaims (vf_parse sample_verifier) ''PAY'' = Some sample_claims"
    by (rule decode_claims_json) (simp_all add: sample_verifier_def claims_wf_def sample_claims_def)
  then show ?thesis
    by (auto simp: passes_def gateway_fields token_parts_def sample_verifier_def request_options_def sample_claims_def now_of_def skew_of_def
        default_skew_def ENVELOPE_PREFIX_def sample_subject resolver_kid getIssuerKey_def sample_key_def intro!: exI [of _ "''PEM''"])
qed

lemma gateway_run: "\<exists>seen' trail'. authorizeRequest gateway 120 ''r1'' ''t'' [] trail (Some ''bawes-aa.v1.PAY.SIG'')
    = (seen', trail', Settled (Allow ''ada@x.y'' ''shop'' ''staff''))"
proof -
  have consume: "vf_consume (mw_verifier gateway) [] ''idp'' ''j1'' 160 120 = ([(replay_key ''idp'' ''j1'', 160)], Some False)"
    by (simp add: gateway_fields sample_verifier_def memory_consume_def replay_consume_def)
  have "verifyAssertion (mw_verifier gateway) 120 [] ''bawes-aa.v1.PAY.SIG'' (request_options gateway)
      = ([(replay_key ''idp'' ''j1'', 160)], Inr sample_claims)"
    unfolding verify_Inr using gateway_passes consume by (simp add: sample_claims_def now_of_def request_options_def)
  moreover obtain ctx where ctx: "resolveActiveContext (By_pbuuid ''ada@x.y'') (at_org ''shop'' None) (reads_of granted_store) = Some (Authorized ctx [Staff])"
    and "ac_org ctx = ''shop''" "ac_role ctx = Staff"
  proof -
    have run: "resolve_at_org ''p1'' ''shop'' None (reads_of granted_store) = Authorized (context_of ''p1'' (grant_at ''shop'' staff_row)) [Staff]"
      unfolding resolve_at_org_Authorized [OF reads_of_ok [OF reachable_store_ok [OF granted_reachable]]] rd_org_reads_of
      using sample_roles staff_row_nearest shop_known by (auto simp: context_of_def staff_row_def)
    show thesis
      by (rule that [of "context_of ''p1'' (grant_at ''shop'' staff_row)"])
        (simp_all add: resolve_targeted [OF sample_reads(1)] run, simp_all add: context_of_def staff_row_def)
  qed
  ultimately have "decideRequest gateway 120 [] (Some ''bawes-aa.v1.PAY.SIG'')
      = ([(replay_key ''idp'' ''j1'', 160)], Settled (Allowed ''ada@x.y'' ''shop'' ''staff'' (ac_principal ctx)))"
    by (simp add: decideRequest_def request_options_def gateway_fields blank_def js_trim_def js_space_def
        claimsToRequestIdentity_def claimsActToContextSelection_def sample_claims_def)
  then show ?thesis by (simp add: authorizeRequest_def)
qed

theorem allow_is_authentic_and_granted_witness:
  "findPrincipalByPbuuid granted_store ''ada@x.y'' \<noteq> None \<and> getOrganization granted_store ''shop'' \<noteq> None"
proof -
  obtain seen' trail' where "authorizeRequest gateway 120 ''r1'' ''t'' [] \<lparr>at_events = [], at_failures = []\<rparr> (Some ''bawes-aa.v1.PAY.SIG'')
    = (seen', trail', Settled (Allow ''ada@x.y'' ''shop'' ''staff''))" using gateway_run by blast
  from allow_is_authentic_and_granted [OF granted_reachable gateway_is this] show ?thesis by auto
qed

text \<open>Every settled or thrown request offers the sink exactly one event, the one its outcome
  names, denials carrying no identity; and no sink, throwing or rejecting, changes the decision
  or the replay state: a failed event only raises a signal with the request id.\<close>

theorem exactly_one_audit_event:
  "case authorizeRequest mw clock rid ts st trail wire of (st', trail', result) \<Rightarrow>
     (\<forall>sink. \<exists>trail''. authorizeRequest (mw\<lparr>mw_sink := sink\<rparr>) clock rid ts st trail wire = (st', trail'', result))
   \<and> (case result of
        Hangs \<Rightarrow> trail' = trail
      | Threw \<Rightarrow> at_events trail' = at_events trail @ [Dependency_event ts rid]
      | Settled (Allow subject orgId role) \<Rightarrow> (\<exists>principalId. at_events trail' = at_events trail @ [Allow_event ts rid principalId orgId role])
      | Settled (Deny status reason) \<Rightarrow> (\<exists>stage. at_events trail' = at_events trail @ [Deny_event ts rid stage reason status]))
   \<and> (at_failures trail' = at_failures trail \<or> at_failures trail' = at_failures trail @ [rid])"
proof -
  obtain st' out where run: "decideRequest mw clock st wire = (st', out)" by force
  then have other: "decideRequest (mw\<lparr>mw_sink := sink\<rparr>) clock st wire = (st', out)" for sink by (simp add: decide_ignores_sink)
  show ?thesis
  proof (cases out)
    case (Settled a)
    then show ?thesis using run other by (cases a) (auto simp: authorizeRequest_def)
  qed (use run other in \<open>auto simp: authorizeRequest_def\<close>)
qed

text \<open>An unconfigured gateway opens nothing: whatever is sent, whatever decodes and checks,
  the deny-all middleware answers 401.\<close>

theorem deny_all_denies:
  assumes "createDenyAllAuthzMiddleware parse check lc sink = Some mw"
  shows "\<exists>st' trail' reason. authorizeRequest mw clock rid ts st trail wire = (st', trail', Settled (Deny 401 reason))"
proof -
  have resolve: "vf_resolve (mw_verifier mw) i k = Some None" for i k
    using assms
    by (auto simp: createDenyAllAuthzMiddleware_def createAuthzMiddleware_def registryKeyResolver_def getIssuerKey_def listIssuerKeys_def
        split: if_splits option.splits)
  have none: "\<nexists>c. passes (mw_verifier mw) clock token opts c" for token opts by (auto simp: passes_def resolve)
  have "\<exists>code. verifyAssertion (mw_verifier mw) clock st token opts = (st, Inl code)" for token opts
    using verify_cases [of "mw_verifier mw" clock token opts st] none by blast
  then have "\<exists>st' reason stage. decideRequest mw clock st wire = (st', Settled (Refused 401 reason stage))"
    by (cases wire) (auto simp: decideRequest_def, metis (no_types, lifting) case_prod_conv old.sum.simps(5))
  then show ?thesis by (auto simp: authorizeRequest_def)
qed

theorem deny_all_denies_witness:
  "\<exists>mw. createDenyAllAuthzMiddleware (\<lambda>_. None) (\<lambda>_ _ _. Some True) (\<lambda>_ _. 0) (\<lambda>_. Sink_ok) = Some mw
     \<and> (\<exists>st' trail' reason. authorizeRequest mw 0 ''r1'' ''t1'' [] \<lparr>at_events = [], at_failures = []\<rparr> (Some ''x'') = (st', trail', Settled (Deny 401 reason)))"
proof -
  obtain mw where mw: "createDenyAllAuthzMiddleware (\<lambda>_. None) (\<lambda>_ _ _. Some True) (\<lambda>_ _. 0) (\<lambda>_. Sink_ok) = Some mw"
    by (simp add: createDenyAllAuthzMiddleware_def createAuthzMiddleware_def blank_def js_trim_def js_space_def)
  from deny_all_denies [OF mw] mw show ?thesis by blast
qed

end
