(* ===== verification/Idempotency.thy ===== *)
theory Idempotency
  imports Json
begin

text \<open>
  Transport idempotency, \<^verbatim>\<open>packages/idempotency-contract/src\<close>: the key format, the
  executor that stands in front of the store (\<^verbatim>\<open>idempotency.ts\<close>) and the
  store that runs the claim, the writes and the response as one transaction
  (\<^verbatim>\<open>recording-store.ts\<close>). The locks of the store serialise its transactions, so a
  history is a sequence of them. SHA-256 over the canonical JSON is a parameter. Instants are
  integers (milliseconds); an expiry beyond the range of \<open>Date\<close> is an invalid date, with
  which no comparison holds.
\<close>

section \<open>Keys, requests, responses\<close>

definition DEFAULT_IDEMPOTENCY_RETENTION_MS :: int where
  "DEFAULT_IDEMPOTENCY_RETENTION_MS = 7 * 24 * 60 * 60 * 1000"

definition DEFAULT_IDEMPOTENCY_FUTURE_SKEW_MS :: int where
  "DEFAULT_IDEMPOTENCY_FUTURE_SKEW_MS = 5 * 60 * 1000"

record stored_response =
  sr_status :: int
  sr_headers :: "(string, string) js_map option"
  sr_body :: "json option"

record mutation_request =
  mr_key :: "string option"
  mr_principal :: string
  mr_method :: string
  mr_route :: string
  mr_payload :: json

datatype refusal_reason = Missing_key | Invalid_key | Key_in_future | Key_expired | Invalid_request
  | Key_payload_mismatch | Operation_failed

datatype mutation_result = Done bool stored_response | Refusal nat refusal_reason

definition js_lower :: "char \<Rightarrow> char" where
  "js_lower c = (let n = (of_char c :: nat) in if (65 \<le> n \<and> n \<le> 90) \<or> (192 \<le> n \<and> n \<le> 222 \<and> n \<noteq> 215) then char_of (n + 32) else c)"

definition hex_char :: "char \<Rightarrow> bool" where
  "hex_char c \<longleftrightarrow> digit_char c \<or> c \<in> set ''abcdef''"

definition any_hex :: "char \<Rightarrow> bool" where
  "any_hex c \<longleftrightarrow> hex_char c \<or> c \<in> set ''ABCDEF''"

text \<open>\<open>[0-9a-f]{8}-[0-9a-f]{4}-4[0-9a-f]{3}-[89ab][0-9a-f]{3}-[0-9a-f]{12}\<close>, any case.\<close>

definition uuid_v4 :: "string \<Rightarrow> bool" where
  "uuid_v4 s \<longleftrightarrow> (case js_split (CHR ''-'') s of
     [a, b, c, d, e] \<Rightarrow> length a = 8 \<and> length b = 4 \<and> length c = 4 \<and> length d = 4 \<and> length e = 12
        \<and> list_all any_hex (a @ b @ c @ d @ e) \<and> hd c = CHR ''4'' \<and> hd d \<in> set ''89abAB''
   | _ \<Rightarrow> False)"

text \<open>\<open>KEY_PATTERN\<close>: the time group where the key matches.\<close>

definition key_time :: "string \<Rightarrow> string option" where
  "key_time s = (case js_split (CHR ''.'') s of
     [v, t, u] \<Rightarrow> if (v = ''v1'' \<or> v = ''V1'') \<and> length t = 13 \<and> list_all digit_char t \<and> uuid_v4 u then Some t else None
   | _ \<Rightarrow> None)"

definition reference_ok :: "string \<Rightarrow> bool" where
  "reference_ok s \<longleftrightarrow> length s = 64 \<and> list_all hex_char s"

definition route_char :: "char \<Rightarrow> bool" where
  "route_char c \<longleftrightarrow> (let n = (of_char c :: nat) in (65 \<le> n \<and> n \<le> 90) \<or> (97 \<le> n \<and> n \<le> 122) \<or> (48 \<le> n \<and> n \<le> 57))
     \<or> c \<in> set ''_{}.:/-''"

definition route_ok :: "string \<Rightarrow> bool" where
  "route_ok s \<longleftrightarrow> (case s of c # cs \<Rightarrow> c = CHR ''/'' \<and> list_all route_char cs | [] \<Rightarrow> False) \<and> CHR ''?'' \<notin> set s"

definition requestIsValid :: "mutation_request \<Rightarrow> bool" where
  "requestIsValid r \<longleftrightarrow> reference_ok (mr_principal r) \<and> mr_method r \<in> {''POST'', ''PUT'', ''PATCH'', ''DELETE''}
     \<and> route_ok (mr_route r) \<and> isJsonValue (mr_payload r)"

definition mutationFingerprint :: "(json \<Rightarrow> string) \<Rightarrow> mutation_request \<Rightarrow> string" where
  "mutationFingerprint sha256 r = sha256 (sortedJson (JObj [(''contractVersion'', JStr ''1.0.0''), (''method'', JStr (mr_method r)),
     (''payload'', mr_payload r), (''principalRef'', JStr (mr_principal r)), (''route'', JStr (mr_route r))]))"

datatype key_error = Bad_time | Bad_uuid

definition show_int :: "int \<Rightarrow> string" where
  "show_int n = (if n < 0 then CHR ''-'' # show_nat (nat (- n)) else show_nat (nat n))"

text \<open>\<open>now\<close> is \<open>now.getTime()\<close>, nothing where the date is invalid.\<close>

definition createIdempotencyKey :: "int option \<Rightarrow> string \<Rightarrow> key_error + string" where
  "createIdempotencyKey now uuid =
     (case now of
        None \<Rightarrow> Inl Bad_time
      | Some t \<Rightarrow> if \<not> uuid_v4 uuid then Inl Bad_uuid
                  else Inr (''v1.'' @ show_int t @ ''.'' @ map js_lower uuid))"

section \<open>The store\<close>

datatype tx_write = Insert string json | Enqueue string json

text \<open>An operation, run: the writes it makes, and its response unless it throws.\<close>

type_synonym operation = "tx_write list \<times> stored_response option"

record stored_record =
  rec_fingerprint :: string
  rec_expires :: "int option"
  rec_response :: stored_response

record idem_store =
  is_records :: "(string, stored_record) js_map"
  is_collections :: "(string, json list) js_map"
  is_outbox :: "(string, json list) js_map"

record atomic_input =
  ai_principal :: string
  ai_key :: string
  ai_fingerprint :: string
  ai_expires :: "int option"

datatype atomic_outcome = Executed stored_response | Replayed_response stored_response | Conflict | Expired_key | Failed

definition push :: "string \<Rightarrow> json \<Rightarrow> (string, json list) js_map \<Rightarrow> (string, json list) js_map" where
  "push k row m = AList.update k ((case map_of m k of None \<Rightarrow> [] | Some rows \<Rightarrow> rows) @ [row]) m"

fun run_write :: "tx_write \<Rightarrow> idem_store \<Rightarrow> idem_store" where
  "run_write (Insert collection row) st = st\<lparr>is_collections := push collection row (is_collections st)\<rparr>"
| "run_write (Enqueue topic event) st = st\<lparr>is_outbox := push topic event (is_outbox st)\<rparr>"

definition date_reached :: "int \<Rightarrow> int option \<Rightarrow> bool" where
  "date_reached now expires = (case expires of None \<Rightarrow> False | Some e \<Rightarrow> e \<le> now)"

definition scope_key :: "atomic_input \<Rightarrow> string" where
  "scope_key i = ai_principal i @ CHR 0x0A # ai_key i"

text \<open>\<open>unique\<close> is \<open>enforceUniqueRecords\<close>, \<open>now\<close> the transaction's clock.\<close>

definition executeAtomic :: "bool \<Rightarrow> int \<Rightarrow> idem_store \<Rightarrow> atomic_input \<Rightarrow> operation \<Rightarrow> idem_store \<times> atomic_outcome" where
  "executeAtomic unique now st i operation =
     (if date_reached now (ai_expires i) then (st, Expired_key)
      else case (if unique then map_of (is_records st) (scope_key i) else None) of
        Some existing \<Rightarrow>
          (if rec_fingerprint existing \<noteq> ai_fingerprint i then (st, Conflict)
           else (st, Replayed_response (rec_response existing)))
      | None \<Rightarrow>
          (case operation of
             (writes, Some response) \<Rightarrow>
               ((fold run_write writes st)\<lparr>is_records :=
                  AList.update (scope_key i) \<lparr>rec_fingerprint = ai_fingerprint i, rec_expires = ai_expires i, rec_response = response\<rparr>
                    (is_records st)\<rparr>, Executed response)
           | (writes, None) \<Rightarrow> (st, Failed)))"

definition cleanupExpired :: "int \<Rightarrow> idem_store \<Rightarrow> idem_store \<times> nat" where
  "cleanupExpired now st =
     (let dead = (\<lambda>(scope, rec). date_reached now (rec_expires rec))
      in (st\<lparr>is_records := filter (\<lambda>r. \<not> dead r) (is_records st)\<rparr>, length (filter dead (is_records st))))"

section \<open>The executor\<close>

record idem_options =
  io_retention :: int
  io_skew :: int

datatype option_error = Bad_retention | Bad_skew

definition safe_integer :: "int \<Rightarrow> bool" where
  "safe_integer n \<longleftrightarrow> \<bar>n\<bar> \<le> 2 ^ 53 - 1"

definition js_date :: "int \<Rightarrow> int option" where
  "js_date t = (if \<bar>t\<bar> \<le> 8640000000000000 then Some t else None)"

definition createIdempotency :: "int option \<Rightarrow> int option \<Rightarrow> option_error + idem_options" where
  "createIdempotency retention skew =
     (let retentionMs = (case retention of None \<Rightarrow> DEFAULT_IDEMPOTENCY_RETENTION_MS | Some r \<Rightarrow> r);
          futureSkewMs = (case skew of None \<Rightarrow> DEFAULT_IDEMPOTENCY_FUTURE_SKEW_MS | Some s \<Rightarrow> s)
      in if \<not> safe_integer retentionMs \<or> retentionMs \<le> 0 then Inl Bad_retention
         else if \<not> safe_integer futureSkewMs \<or> futureSkewMs < 0 then Inl Bad_skew
         else Inr \<lparr>io_retention = retentionMs, io_skew = futureSkewMs\<rparr>)"

text \<open>\<open>exec\<close> is the store's transaction (its outcome is \<open>None\<close> where it throws), \<open>now\<close> the
  executor's own reading of the clock.\<close>

definition execute ::
    "(json \<Rightarrow> string) \<Rightarrow> idem_options \<Rightarrow> ('s \<Rightarrow> atomic_input \<Rightarrow> operation \<Rightarrow> 's \<times> atomic_outcome option)
     \<Rightarrow> int option \<Rightarrow> 's \<Rightarrow> mutation_request \<Rightarrow> operation \<Rightarrow> 's \<times> mutation_result" where
  "execute sha256 opts exec now st request operation =
     (if \<not> requestIsValid request then (st, Refusal 400 Invalid_request)
      else case mr_key request of
        None \<Rightarrow> (st, Refusal 400 Missing_key)
      | Some k \<Rightarrow>
          (if k = [] then (st, Refusal 400 Missing_key)
           else case key_time k of
             None \<Rightarrow> (st, Refusal 400 Invalid_key)
           | Some digits \<Rightarrow>
               (let key = map js_lower k; issuedAtMs = int (read_nat digits)
                in case now of
                     None \<Rightarrow> (st, Refusal 503 Operation_failed)
                   | Some nowMs \<Rightarrow>
                       (if issuedAtMs > nowMs + io_skew opts then (st, Refusal 400 Key_in_future)
                        else if nowMs \<ge> issuedAtMs + io_retention opts then (st, Refusal 409 Key_expired)
                        else case exec st \<lparr>ai_principal = mr_principal request, ai_key = key,
                               ai_fingerprint = mutationFingerprint sha256 request,
                               ai_expires = js_date (issuedAtMs + io_retention opts)\<rparr> operation of
                          (st', None) \<Rightarrow> (st', Refusal 503 Operation_failed)
                        | (st', Some Conflict) \<Rightarrow> (st', Refusal 409 Key_payload_mismatch)
                        | (st', Some Expired_key) \<Rightarrow> (st', Refusal 409 Key_expired)
                        | (st', Some Failed) \<Rightarrow> (st', Refusal 503 Operation_failed)
                        | (st', Some (Executed response)) \<Rightarrow> (st', Done False response)
                        | (st', Some (Replayed_response response)) \<Rightarrow> (st', Done True response)))))"


section \<open>The key names its own time\<close>

lemma js_lower_dot: "js_lower c = CHR ''.'' \<longleftrightarrow> c = CHR ''.''"
proof -
  have "js_lower c \<noteq> CHR ''.''" if c: "c \<noteq> CHR ''.''"
  proof
    assume dot: "js_lower c = CHR ''.''"
    let ?n = "of_char c :: nat"
    show False
    proof (cases "(65 \<le> ?n \<and> ?n \<le> 90) \<or> (192 \<le> ?n \<and> ?n \<le> 222 \<and> ?n \<noteq> 215)")
      case True
      then have "char_of (?n + 32) = CHR ''.''" using dot by (simp only: js_lower_def Let_def if_True)
      then have "(of_char (char_of (?n + 32) :: char) :: nat) = 46" by simp
      moreover have "?n + 32 < 256" using True by auto
      ultimately show False using True by (simp add: of_char_of)
    next
      case False
      then show False using dot c by (simp only: js_lower_def Let_def if_False)
    qed
  qed
  moreover have "js_lower CHR ''.'' = CHR ''.''" by (simp add: js_lower_def)
  ultimately show ?thesis by auto
qed

lemma js_lower_digit: "digit_char c \<Longrightarrow> js_lower c = c"
  by (simp add: js_lower_def digit_char_def)

lemma js_split_map: "(\<And>c. f c = d \<longleftrightarrow> c = d) \<Longrightarrow> js_split d (map f s) = map (map f) (js_split d s)"
  by (induction s) (auto split: list.splits)

lemma lowered_digits: "list_all digit_char t \<Longrightarrow> map js_lower t = t"
  by (induction t) (simp_all add: js_lower_digit)

lemma key_time_lower:
  assumes "map js_lower k = map js_lower k'" "key_time k = Some t" "key_time k' = Some t'"
  shows "t = t'"
proof -
  have parts: "\<exists>v u. js_split (CHR ''.'') s = [v, x, u] \<and> list_all digit_char x" if "key_time s = Some x" for s x
    using that by (auto simp: key_time_def split: list.splits if_splits)
  obtain v u v' u' where k: "js_split (CHR ''.'') k = [v, t, u]" "js_split (CHR ''.'') k' = [v', t', u']"
    and digits: "list_all digit_char t" "list_all digit_char t'" using parts assms(2,3) by blast
  have "map (map js_lower) (js_split (CHR ''.'') k) = map (map js_lower) (js_split (CHR ''.'') k')"
    using assms(1) js_split_map [of js_lower "CHR ''.''", OF js_lower_dot] by metis
  then show ?thesis using digits by (simp add: k lowered_digits)
qed

lemma js_lower_dash: "js_lower c = CHR ''-'' \<longleftrightarrow> c = CHR ''-''"
proof -
  have "js_lower c \<noteq> CHR ''-''" if c: "c \<noteq> CHR ''-''"
  proof
    assume dash: "js_lower c = CHR ''-''"
    let ?n = "of_char c :: nat"
    show False
    proof (cases "(65 \<le> ?n \<and> ?n \<le> 90) \<or> (192 \<le> ?n \<and> ?n \<le> 222 \<and> ?n \<noteq> 215)")
      case True
      then have "char_of (?n + 32) = CHR ''-''" using dash by (simp only: js_lower_def Let_def if_True)
      then have "(of_char (char_of (?n + 32) :: char) :: nat) = 45" by simp
      moreover have "?n + 32 < 256" using True by auto
      ultimately show False using True by (simp add: of_char_of)
    next
      case False
      then show False using dash c by (simp only: js_lower_def Let_def if_False)
    qed
  qed
  moreover have "js_lower CHR ''-'' = CHR ''-''" by (simp add: js_lower_def)
  ultimately show ?thesis by auto
qed

lemma hex_letters: "char_of (97 :: nat) = CHR ''a''" "char_of (98 :: nat) = CHR ''b''" "char_of (99 :: nat) = CHR ''c''"
  "char_of (100 :: nat) = CHR ''d''" "char_of (101 :: nat) = CHR ''e''" "char_of (102 :: nat) = CHR ''f''"
  by code_simp+

lemma any_hex_lower: "any_hex c \<Longrightarrow> any_hex (js_lower c) \<and> js_lower c \<noteq> CHR ''.''"
  unfolding any_hex_def hex_char_def
  by (elim disjE) (simp_all add: js_lower_digit, auto simp: js_lower_def digit_char_def hex_letters)

lemma js_split_covers: "x \<in> set u \<Longrightarrow> x \<noteq> d \<Longrightarrow> \<exists>p \<in> set (js_split d u). x \<in> set p"
proof (induction u)
  case (Cons c u)
  obtain p ps where "js_split d u = p # ps" by (metis js_split_nonempty neq_Nil_conv)
  with Cons show ?case by (cases "x = c") auto
qed simp

lemma uuid_lower:
  assumes "uuid_v4 u"
  shows "uuid_v4 (map js_lower u) \<and> CHR ''.'' \<notin> set (map js_lower u)"
proof -
  obtain a b c d e where u: "js_split (CHR ''-'') u = [a, b, c, d, e]" "length a = 8" "length b = 4" "length c = 4" "length d = 4"
    "length e = 12" "list_all any_hex (a @ b @ c @ d @ e)" "hd c = CHR ''4''" "hd d \<in> set ''89abAB''"
    using assms by (auto simp: uuid_v4_def split: list.splits)
  have split: "js_split (CHR ''-'') (map js_lower u) = map (map js_lower) [a, b, c, d, e]"
    unfolding u(1) [symmetric] by (rule js_split_map) (rule js_lower_dash)
  have hd: "c \<noteq> []" "d \<noteq> []" using u by auto
  have lower: "list_all any_hex xs \<Longrightarrow> list_all any_hex (map js_lower xs)" for xs
    by (induction xs) (simp_all add: any_hex_lower)
  have "hd (map js_lower c) = CHR ''4''" using hd u(8) by (cases c) (simp_all add: js_lower_def)
  moreover have "hd (map js_lower d) \<in> set ''89abAB''" using hd u(9) by (cases d) (auto simp: js_lower_def hex_letters)
  ultimately have "uuid_v4 (map js_lower u)"
    using u(2-7) lower [OF u(7)] by (simp add: uuid_v4_def split)
  moreover have no_dot: "x = CHR ''.'' \<Longrightarrow> x \<in> set u \<Longrightarrow> False" for x
  proof -
    assume x: "x = CHR ''.''" "x \<in> set u"
    from x js_split_covers [of x u "CHR ''-''"] u(1) have "x \<in> set (a @ b @ c @ d @ e)" by auto
    with u(7) have "any_hex x" unfolding list_all_iff by blast
    then show False by (simp add: x(1) any_hex_def hex_char_def digit_char_def)
  qed
  moreover have "CHR ''.'' \<notin> set (map js_lower u)"
  proof
    assume "CHR ''.'' \<in> set (map js_lower u)"
    then obtain x where "x \<in> set u" "js_lower x = CHR ''.''" by (metis imageE set_map)
    then show False using no_dot js_lower_dot by blast
  qed
  ultimately show ?thesis by blast
qed

section \<open>Histories\<close>

text \<open>In the order of the store's transactions: a request with the executor's own clock reading
  and the transaction's, or a cleanup at an instant.\<close>

datatype idem_event = Request "int option" int mutation_request operation | Cleanup int

fun idem_step :: "(json \<Rightarrow> string) \<Rightarrow> idem_options \<Rightarrow> (int \<Rightarrow> 's \<Rightarrow> atomic_input \<Rightarrow> operation \<Rightarrow> 's \<times> atomic_outcome)
    \<Rightarrow> (int \<Rightarrow> 's \<Rightarrow> 's) \<Rightarrow> 's \<Rightarrow> idem_event \<Rightarrow> 's \<times> mutation_result option" where
  "idem_step sha256 opts exec cleanup st (Request now t request operation) =
     map_prod id Some (execute sha256 opts (\<lambda>st i oper. map_prod id Some (exec t st i oper)) now st request operation)"
| "idem_step sha256 opts exec cleanup st (Cleanup n) = (cleanup n st, None)"

fun idem_run :: "(json \<Rightarrow> string) \<Rightarrow> idem_options \<Rightarrow> (int \<Rightarrow> 's \<Rightarrow> atomic_input \<Rightarrow> operation \<Rightarrow> 's \<times> atomic_outcome)
    \<Rightarrow> (int \<Rightarrow> 's \<Rightarrow> 's) \<Rightarrow> 's \<Rightarrow> idem_event list \<Rightarrow> 's \<times> mutation_result option list" where
  "idem_run sha256 opts exec cleanup st [] = (st, [])"
| "idem_run sha256 opts exec cleanup st (e # es) =
     (case idem_step sha256 opts exec cleanup st e of (st1, r) \<Rightarrow>
        (case idem_run sha256 opts exec cleanup st1 es of (st2, rs) \<Rightarrow> (st2, r # rs)))"

text \<open>A cleanup never runs ahead of the transaction clock of a later request.\<close>

fun clocks_ok :: "idem_event list \<Rightarrow> bool" where
  "clocks_ok [] = True"
| "clocks_ok (Request now t request operation # es) = clocks_ok es"
| "clocks_ok (Cleanup n # es) = (list_all (\<lambda>e. case e of Request _ t _ _ \<Rightarrow> n \<le> t | Cleanup _ \<Rightarrow> True) es \<and> clocks_ok es)"

definition in_scope :: "string \<Rightarrow> string \<Rightarrow> mutation_request \<Rightarrow> bool" where
  "in_scope pid key request \<longleftrightarrow> mr_principal request = pid \<and> map_option (map js_lower) (mr_key request) = Some key"

definition input_of :: "(json \<Rightarrow> string) \<Rightarrow> idem_options \<Rightarrow> mutation_request \<Rightarrow> string \<Rightarrow> string \<Rightarrow> atomic_input" where
  "input_of sha256 opts request k digits = \<lparr>ai_principal = mr_principal request, ai_key = map js_lower k,
     ai_fingerprint = mutationFingerprint sha256 request, ai_expires = js_date (int (read_nat digits) + io_retention opts)\<rparr>"

text \<open>A request either answers without the store or with what one transaction gave.\<close>

lemma execute_cases:
  "(\<exists>status reason. execute sha256 opts exec now st request operation = (st, Refusal status reason))
   \<or> (\<exists>k digits st' out. requestIsValid request \<and> mr_key request = Some k \<and> key_time k = Some digits
        \<and> exec st (input_of sha256 opts request k digits) operation = (st', out)
        \<and> execute sha256 opts exec now st request operation = (st',
            case out of Some (Executed response) \<Rightarrow> Done False response
            | Some (Replayed_response response) \<Rightarrow> Done True response
            | Some Conflict \<Rightarrow> Refusal 409 Key_payload_mismatch | Some Expired_key \<Rightarrow> Refusal 409 Key_expired
            | Some Failed \<Rightarrow> Refusal 503 Operation_failed | None \<Rightarrow> Refusal 503 Operation_failed))"
proof (cases "\<exists>status reason. execute sha256 opts exec now st request operation = (st, Refusal status reason)")
  case False
  then have valid: "requestIsValid request" by (cases "requestIsValid request") (auto simp: execute_def)
  from False valid obtain k where k: "mr_key request = Some k" "k \<noteq> []" by (cases "mr_key request") (auto simp: execute_def split: if_splits)
  from False valid k obtain digits where d: "key_time k = Some digits" by (cases "key_time k") (auto simp: execute_def)
  from False valid k d obtain nowMs where n: "now = Some nowMs" by (cases now) (auto simp: execute_def Let_def)
  have in_time: "\<not> int (read_nat digits) > nowMs + io_skew opts" "\<not> nowMs \<ge> int (read_nat digits) + io_retention opts"
    using False valid k d n by (auto simp: execute_def Let_def split: if_splits)
  obtain st' out where run: "exec st (input_of sha256 opts request k digits) operation = (st', out)" by force
  have "execute sha256 opts exec now st request operation = (st',
            case out of Some (Executed response) \<Rightarrow> Done False response
            | Some (Replayed_response response) \<Rightarrow> Done True response
            | Some Conflict \<Rightarrow> Refusal 409 Key_payload_mismatch | Some Expired_key \<Rightarrow> Refusal 409 Key_expired
            | Some Failed \<Rightarrow> Refusal 503 Operation_failed | None \<Rightarrow> Refusal 503 Operation_failed)"
    using valid k d n in_time run unfolding execute_def input_of_def Let_def
    by (simp split: option.splits atomic_outcome.splits)
  with valid k d run show ?thesis by blast
qed simp


fun answer :: "atomic_outcome \<Rightarrow> mutation_result" where
  "answer (Executed response) = Done False response"
| "answer (Replayed_response response) = Done True response"
| "answer Conflict = Refusal 409 Key_payload_mismatch"
| "answer Expired_key = Refusal 409 Key_expired"
| "answer Failed = Refusal 503 Operation_failed"

lemma request_cases:
  assumes "idem_step sha256 opts exec cleanup st (Request now t request oper) = (st1, res)"
  shows "(st1 = st \<and> (\<exists>status reason. res = Some (Refusal status reason)))
    \<or> (\<exists>k digits out. requestIsValid request \<and> mr_key request = Some k \<and> key_time k = Some digits
         \<and> exec t st (input_of sha256 opts request k digits) oper = (st1, out) \<and> res = Some (answer out))"
  using execute_cases [of sha256 opts "\<lambda>st i oper. map_prod id Some (exec t st i oper)" now st request oper]
proof (elim disjE exE conjE)
  fix k digits st' out
  assume key: "requestIsValid request" "mr_key request = Some k" "key_time k = Some digits"
    and ex: "map_prod id Some (exec t st (input_of sha256 opts request k digits) oper) = (st', out)"
    and run: "execute sha256 opts (\<lambda>st i oper. map_prod id Some (exec t st i oper)) now st request oper = (st', case out of
            Some (Executed response) \<Rightarrow> Done False response
            | Some (Replayed_response response) \<Rightarrow> Done True response
            | Some Conflict \<Rightarrow> Refusal 409 Key_payload_mismatch | Some Expired_key \<Rightarrow> Refusal 409 Key_expired
            | Some Failed \<Rightarrow> Refusal 503 Operation_failed | None \<Rightarrow> Refusal 503 Operation_failed)"
  obtain out' where out': "exec t st (input_of sha256 opts request k digits) oper = (st', out')" "out = Some out'"
    using ex by (cases "exec t st (input_of sha256 opts request k digits) oper") auto
  have "execute sha256 opts (\<lambda>st i oper. map_prod id Some (exec t st i oper)) now st request oper = (st', answer out')"
    using run out'(2) by (cases out') simp_all
  with assms have "st1 = st'" "res = Some (answer out')" by simp_all
  with key out'(1) show ?thesis by blast
qed (use assms in auto)

section \<open>What the executor needs of a store\<close>

definition no_newline :: "string \<Rightarrow> bool" where
  "no_newline s \<longleftrightarrow> CHR 0x0A \<notin> set s"

lemma reference_no_newline: "reference_ok s \<Longrightarrow> no_newline s"
  by (auto simp: reference_ok_def no_newline_def hex_char_def digit_char_def list_all_iff)

lemma valid_no_newline: "requestIsValid request \<Longrightarrow> no_newline (mr_principal request)"
  by (simp add: requestIsValid_def reference_no_newline)

definition new_record :: "atomic_input \<Rightarrow> stored_response \<Rightarrow> stored_record" where
  "new_record i r = \<lparr>rec_fingerprint = ai_fingerprint i, rec_expires = ai_expires i, rec_response = r\<rparr>"

lemma input_of_simps [simp]:
  "ai_principal (input_of sha256 opts request k digits) = mr_principal request"
  "ai_key (input_of sha256 opts request k digits) = map js_lower k"
  "ai_fingerprint (input_of sha256 opts request k digits) = mutationFingerprint sha256 request"
  "ai_expires (input_of sha256 opts request k digits) = js_date (int (read_nat digits) + io_retention opts)"
  by (simp_all add: input_of_def)

locale idempotent_store =
  fixes exec :: "int \<Rightarrow> 's \<Rightarrow> atomic_input \<Rightarrow> operation \<Rightarrow> 's \<times> atomic_outcome"
    and cleanup :: "int \<Rightarrow> 's \<Rightarrow> 's"
    and recorded :: "'s \<Rightarrow> string \<Rightarrow> string \<Rightarrow> stored_record option"
    and effects :: "'s \<Rightarrow> 'd"
    and apply_writes :: "tx_write list \<Rightarrow> 'd \<Rightarrow> 'd"
    and ok :: "'s \<Rightarrow> bool"
  assumes exec_ok: "ok st \<Longrightarrow> exec t st i oper = (st', out) \<Longrightarrow> ok st'"
    and clean_ok: "ok st \<Longrightarrow> ok (cleanup n st)"
    and executed: "exec t st i oper = (st', Executed r) \<Longrightarrow>
      \<not> date_reached t (ai_expires i) \<and> recorded st (ai_principal i) (ai_key i) = None
      \<and> recorded st' (ai_principal i) (ai_key i) = Some (new_record i r)
      \<and> effects st' = apply_writes (fst oper) (effects st)"
    and frame: "exec t st i oper = (st', out) \<Longrightarrow> no_newline p \<Longrightarrow> no_newline (ai_principal i) \<Longrightarrow>
      (p, k) \<noteq> (ai_principal i, ai_key i) \<Longrightarrow> recorded st' p k = recorded st p k"
    and untouched: "exec t st i oper = (st', out) \<Longrightarrow> (\<And>r. out \<noteq> Executed r) \<Longrightarrow> st' = st"
    and replayed: "exec t st i oper = (st', Replayed_response r) \<Longrightarrow>
      \<not> date_reached t (ai_expires i) \<and>
      (\<exists>rec. recorded st (ai_principal i) (ai_key i) = Some rec \<and> rec_fingerprint rec = ai_fingerprint i \<and> rec_response rec = r)"
    and cleaned: "ok st \<Longrightarrow> recorded (cleanup n st) p k =
      (case recorded st p k of None \<Rightarrow> None | Some rec \<Rightarrow> if date_reached n (rec_expires rec) then None else Some rec)"
    and clean_effects: "effects (cleanup n st) = effects st"
begin

definition held :: "'s \<Rightarrow> string \<Rightarrow> string \<Rightarrow> stored_record \<Rightarrow> idem_event list \<Rightarrow> bool" where
  "held st pid key rec es \<longleftrightarrow> recorded st pid key = Some rec
     \<or> list_all (\<lambda>e. case e of Request _ t _ _ \<Rightarrow> date_reached t (rec_expires rec) | Cleanup _ \<Rightarrow> True) es"

lemma exec_keeps:
  assumes "exec t st i oper = (st', out)" "no_newline p" "no_newline (ai_principal i)" "recorded st p k = Some rec"
  shows "recorded st' p k = Some rec"
proof (cases "\<exists>r. out = Executed r")
  case True
  then have "recorded st (ai_principal i) (ai_key i) = None" using executed assms(1) by blast
  with assms(4) have "(p, k) \<noteq> (ai_principal i, ai_key i)" by auto
  from frame [OF assms(1-3) this] assms(4) show ?thesis by simp
next
  case False
  then have "st' = st" using untouched [OF assms(1)] by blast
  with assms(4) show ?thesis by simp
qed

lemma step_keeps_held:
  assumes ok: "ok st" and pid: "no_newline pid" and held: "held st pid key rec (e # es)" and clocks: "clocks_ok (e # es)"
    and run: "idem_step sha256 opts exec cleanup st e = (st1, r)"
  shows "held st1 pid key rec es"
proof (cases "recorded st pid key = Some rec")
  case False
  with held show ?thesis by (auto simp: held_def)
next
  case True
  show ?thesis
  proof (cases e)
    case (Cleanup n)
    have "recorded st1 pid key = (if date_reached n (rec_expires rec) then None else Some rec)"
      using run Cleanup cleaned [OF ok, of n pid key] True by auto
    moreover have "list_all (\<lambda>e. case e of Request _ t _ _ \<Rightarrow> date_reached t (rec_expires rec) | Cleanup _ \<Rightarrow> True) es"
      if "date_reached n (rec_expires rec)"
      using clocks Cleanup that by (auto simp: list_all_iff date_reached_def split: idem_event.splits option.splits)
    ultimately show ?thesis by (auto simp: held_def split: if_splits)
  next
    case (Request now t request oper)
    have "recorded st1 pid key = Some rec"
      using request_cases [OF run [unfolded Request]] exec_keeps [OF _ pid _ True] True valid_no_newline
      by (elim disjE exE conjE) simp_all
    then show ?thesis by (simp add: held_def)
  qed
qed

lemma step_ok: "ok st \<Longrightarrow> idem_step sha256 opts exec cleanup st e = (st1, r) \<Longrightarrow> ok st1"
proof (cases e)
  case (Request now t request oper)
  assume ok: "ok st" and run: "idem_step sha256 opts exec cleanup st e = (st1, r)"
  from request_cases [OF run [unfolded Request]] show "ok st1"
    using ok exec_ok by (elim disjE exE conjE) simp_all
qed (auto intro: clean_ok)

text \<open>After an answer, its record is held; and while it is held, every answer in scope replays it.\<close>

lemma answer_holds:
  assumes run: "idem_step sha256 opts exec cleanup st (Request now t request oper) = (st1, Some (Done b r))"
    and scope: "in_scope pid key request"
  shows "\<exists>k digits rec. mr_key request = Some k \<and> key_time k = Some digits
    \<and> rec_fingerprint rec = mutationFingerprint sha256 request \<and> rec_response rec = r
    \<and> (b = False \<longrightarrow> rec_expires rec = js_date (int (read_nat digits) + io_retention opts))
    \<and> no_newline pid \<and> recorded st1 pid key = Some rec \<and> (b \<longleftrightarrow> recorded st pid key \<noteq> None)
    \<and> (recorded st pid key \<noteq> None \<longrightarrow> recorded st pid key = Some rec)
    \<and> \<not> date_reached t (js_date (int (read_nat digits) + io_retention opts))"
proof -
  from request_cases [OF run] obtain k digits out where r: "requestIsValid request" "mr_key request = Some k" "key_time k = Some digits"
    "exec t st (input_of sha256 opts request k digits) oper = (st1, out)" "Done b r = answer out" by auto
  have k: "key = map js_lower k" "pid = mr_principal request" using scope r(2) by (auto simp: in_scope_def)
  have pid: "no_newline pid" using r(1) k(2) valid_no_newline by simp
  show ?thesis
  proof (cases out)
    case (Executed r')
    with r(5) have "r' = r" "b = False" by simp_all
    with executed [OF r(4) [unfolded Executed]] r(2,3) k pid show ?thesis
      by (intro exI [of _ k] exI [of _ digits] exI [of _ "new_record (input_of sha256 opts request k digits) r"])
        (simp add: new_record_def)
  next
    case (Replayed_response r')
    with r(5) have "r' = r" "b = True" by simp_all
    moreover from replayed [OF r(4) [unfolded Replayed_response]] obtain rec where
      "recorded st (mr_principal request) (map js_lower k) = Some rec" "rec_fingerprint rec = mutationFingerprint sha256 request"
      "rec_response rec = r'" "\<not> date_reached t (js_date (int (read_nat digits) + io_retention opts))" by auto
    moreover have "st1 = st" using untouched [OF r(4)] Replayed_response by simp
    ultimately show ?thesis using r(2,3) k pid by (intro exI [of _ k] exI [of _ digits] exI [of _ rec]) simp
  qed (use r(5) in simp_all)
qed

lemma held_replays:
  assumes "ok st" "no_newline pid" "clocks_ok es" "held st pid key rec es"
    and "idem_run sha256 opts exec cleanup st es = (st', rs)" "j < length es" "es ! j = Request now t request oper"
    and "rs ! j = Some (Done b r)"
    and scope: "in_scope pid key request" and key: "key = map js_lower k" "key_time k = Some digits"
    and expires: "rec_expires rec = js_date (int (read_nat digits) + io_retention opts)"
  shows "b \<and> r = rec_response rec \<and> mutationFingerprint sha256 request = rec_fingerprint rec"
  using assms(1-8)
proof (induction es arbitrary: st st' rs j)
  case (Cons e es)
  obtain st1 res1 where step: "idem_step sha256 opts exec cleanup st e = (st1, res1)" by force
  obtain st2 rs2 where run2: "idem_run sha256 opts exec cleanup st1 es = (st2, rs2)" by force
  have rs: "rs = res1 # rs2" using Cons.prems(5) step run2 by simp
  show ?case
  proof (cases j)
    case 0
    then have e: "e = Request now t request oper" "res1 = Some (Done b r)" using Cons.prems rs by simp_all
    from answer_holds [OF step [unfolded e] scope] obtain k' digits' rec' where a: "mr_key request = Some k'" "key_time k' = Some digits'"
      "rec_fingerprint rec' = mutationFingerprint sha256 request" "rec_response rec' = r" "b \<longleftrightarrow> recorded st pid key \<noteq> None"
      "recorded st pid key \<noteq> None \<longrightarrow> recorded st pid key = Some rec'"
      "\<not> date_reached t (js_date (int (read_nat digits') + io_retention opts))" by blast
    have "map js_lower k' = map js_lower k" using scope a(1) key(1) by (simp add: in_scope_def)
    then have "digits' = digits" using key_time_lower a(2) key(2) by blast
    with a(7) expires have "\<not> date_reached t (rec_expires rec)" by simp
    with Cons.prems(4) e have "recorded st pid key = Some rec" by (simp add: held_def)
    with a show ?thesis by auto
  next
    case (Suc j')
    have "clocks_ok es" using Cons.prems(3) by (cases e) simp_all
    from Cons.IH [OF step_ok [OF Cons.prems(1) step] Cons.prems(2) this step_keeps_held [OF Cons.prems(1,2,4,3) step] run2, of j']
      Cons.prems(6-8) Suc rs show ?thesis by simp
  qed
qed simp

lemma second_answer_replays:
  assumes "ok st" "clocks_ok es" "idem_run sha256 opts exec cleanup st es = (st', rs)"
    and "i < j" "j < length es" "es ! i = Request now1 t1 request1 oper1" "es ! j = Request now2 t2 request2 oper2"
    and "rs ! i = Some (Done False r1)" "rs ! j = Some (Done b r2)"
    and "in_scope pid key request1" "in_scope pid key request2"
  shows "b \<and> r2 = r1 \<and> mutationFingerprint sha256 request2 = mutationFingerprint sha256 request1"
  using assms(1-9)
proof (induction es arbitrary: st st' rs i j)
  case (Cons e es)
  obtain st1 res1 where step: "idem_step sha256 opts exec cleanup st e = (st1, res1)" by force
  obtain st2 rs2 where run2: "idem_run sha256 opts exec cleanup st1 es = (st2, rs2)" by force
  have rs: "rs = res1 # rs2" using Cons.prems(3) step run2 by simp
  obtain j' where j: "j = Suc j'" using Cons.prems(4) by (cases j) auto
  have clocks: "clocks_ok es" using Cons.prems(2) by (cases e) simp_all
  note ok1 = step_ok [OF Cons.prems(1) step]
  show ?case
  proof (cases i)
    case 0
    then have e: "e = Request now1 t1 request1 oper1" "res1 = Some (Done False r1)" using Cons.prems rs by simp_all
    from answer_holds [OF step [unfolded e] assms(10)] obtain k digits rec where a: "mr_key request1 = Some k" "key_time k = Some digits"
      "rec_fingerprint rec = mutationFingerprint sha256 request1" "rec_response rec = r1"
      "rec_expires rec = js_date (int (read_nat digits) + io_retention opts)" "no_newline pid" "recorded st1 pid key = Some rec" by blast
    have "key = map js_lower k" using assms(10) a(1) by (simp add: in_scope_def)
    from held_replays [OF ok1 a(6) clocks _ run2 _ _ _ assms(11) this a(2,5), of j' now2 t2 oper2 b r2] a Cons.prems j rs
    show ?thesis by (simp add: held_def)
  next
    case (Suc i')
    from Cons.IH [OF ok1 clocks run2, of i' j'] Cons.prems Suc j rs show ?thesis by simp
  qed
qed simp

text \<open>What the history did to the data is what its executed requests wrote.\<close>

definition executed_writes :: "idem_event list \<Rightarrow> mutation_result option list \<Rightarrow> tx_write list list" where
  "executed_writes es rs = concat (map2 (\<lambda>e r. case (e, r) of
     (Request _ _ _ oper, Some (Done False _)) \<Rightarrow> [fst oper] | _ \<Rightarrow> []) es rs)"

lemma run_effects:
  "idem_run sha256 opts exec cleanup st es = (st', rs) \<Longrightarrow> effects st' = fold apply_writes (executed_writes es rs) (effects st)"
proof (induction es arbitrary: st st' rs)
  case (Cons e es)
  obtain st1 res1 where step: "idem_step sha256 opts exec cleanup st e = (st1, res1)" by force
  obtain st2 rs2 where run2: "idem_run sha256 opts exec cleanup st1 es = (st2, rs2)" by force
  have rs: "rs = res1 # rs2" "st' = st2" using Cons.prems step run2 by simp_all
  have "effects st1 = fold apply_writes (executed_writes [e] [res1]) (effects st)"
  proof (cases e)
    case (Cleanup n)
    with step show ?thesis by (auto simp: executed_writes_def clean_effects)
  next
    case (Request now t request oper)
    from request_cases [OF step [unfolded Request]] show ?thesis
    proof (elim disjE exE conjE)
      fix k digits out
      assume ex: "exec t st (input_of sha256 opts request k digits) oper = (st1, out)" and res: "res1 = Some (answer out)"
      show ?thesis
      proof (cases "\<exists>r. out = Executed r")
        case True
        then obtain r where r: "out = Executed r" by blast
        from executed [OF ex [unfolded r]] res r Request show ?thesis by (simp add: executed_writes_def)
      next
        case False
        with untouched [OF ex] res Request show ?thesis by (cases out) (auto simp: executed_writes_def)
      qed
    qed (simp add: executed_writes_def Request)
  qed
  with Cons.IH [OF run2] rs show ?case by (simp add: executed_writes_def)
qed (simp add: executed_writes_def)

end

text \<open>The recording store provides it (with its record uniqueness enforced, the default).\<close>

definition store_data :: "idem_store \<Rightarrow> (string, json list) js_map \<times> (string, json list) js_map" where
  "store_data st = (is_collections st, is_outbox st)"

fun data_write :: "tx_write \<Rightarrow> (string, json list) js_map \<times> (string, json list) js_map \<Rightarrow> (string, json list) js_map \<times> (string, json list) js_map" where
  "data_write (Insert collection row) (c, x) = (push collection row c, x)"
| "data_write (Enqueue topic event) (c, x) = (c, push topic event x)"

lemma store_data_fold: "store_data (fold run_write ws (st :: idem_store)) = fold data_write ws (store_data st) \<and> is_records (fold run_write ws st) = is_records st"
proof (induction ws arbitrary: st)
  case (Cons w ws)
  have "store_data (run_write w st) = data_write w (store_data st)" "is_records (run_write w st) = is_records st"
    by (cases w; simp add: store_data_def)+
  with Cons.IH [of "run_write w st"] show ?case by simp
qed simp

interpretation recording: idempotent_store "executeAtomic True" "\<lambda>n st. fst (cleanupExpired n st)"
  "\<lambda>(st :: idem_store) p k. map_of (is_records st) (p @ CHR 0x0A # k)" store_data "fold data_write" "\<lambda>st. keyed (is_records st)"
proof
  fix st :: idem_store and t i oper st' out
  assume "keyed (is_records st)" "executeAtomic True t st i oper = (st', out)"
  then show "keyed (is_records st')"
    by (auto simp: executeAtomic_def store_data_fold split: if_splits option.splits prod.splits)
next
  fix t and st :: idem_store and i oper st' r
  assume "executeAtomic True t st i oper = (st', Executed r)"
  then show "\<not> date_reached t (ai_expires i) \<and> map_of (is_records st) (ai_principal i @ CHR 0x0A # ai_key i) = None
      \<and> map_of (is_records st') (ai_principal i @ CHR 0x0A # ai_key i) = Some (new_record i r)
      \<and> store_data st' = fold data_write (fst oper) (store_data st)"
    using store_data_fold [of "fst oper" st]
    by (auto simp: executeAtomic_def scope_key_def new_record_def store_data_def split: if_splits option.splits prod.splits)
next
  fix t and st :: idem_store and i oper st' out p and k :: string
  assume run: "executeAtomic True t st i oper = (st', out)" and nl: "no_newline p" "no_newline (ai_principal i)"
    and other: "(p, k) \<noteq> (ai_principal i, ai_key i)"
  have "p @ CHR 0x0A # k \<noteq> scope_key i"
    using nl other by (auto simp: scope_key_def no_newline_def sep_inject_left)
  with run show "map_of (is_records st') (p @ CHR 0x0A # k) = map_of (is_records st) (p @ CHR 0x0A # k)"
    by (auto simp: executeAtomic_def store_data_fold split: if_splits option.splits prod.splits)
next
  fix t and st :: idem_store and i oper st' out
  assume "executeAtomic True t st i oper = (st', out)" "\<And>r. out \<noteq> Executed r"
  then show "st' = st" by (auto simp: executeAtomic_def split: if_splits option.splits prod.splits)
next
  fix t and st :: idem_store and i oper st' r
  assume "executeAtomic True t st i oper = (st', Replayed_response r)"
  then show "\<not> date_reached t (ai_expires i) \<and> (\<exists>rec. map_of (is_records st) (ai_principal i @ CHR 0x0A # ai_key i) = Some rec
      \<and> rec_fingerprint rec = ai_fingerprint i \<and> rec_response rec = r)"
    by (auto simp: executeAtomic_def scope_key_def split: if_splits option.splits prod.splits)
next
  fix st :: idem_store and n p and k :: string
  assume "keyed (is_records st)"
  then show "map_of (is_records (fst (cleanupExpired n st))) (p @ CHR 0x0A # k) =
      (case map_of (is_records st) (p @ CHR 0x0A # k) of None \<Rightarrow> None
       | Some rec \<Rightarrow> if date_reached n (rec_expires rec) then None else Some rec)"
    by (simp add: cleanupExpired_def map_of_filter Let_def split: option.splits)
qed (simp_all add: cleanupExpired_def store_data_def Let_def)


section \<open>Properties\<close>

abbreviation recording_run :: "(json \<Rightarrow> string) \<Rightarrow> idem_options \<Rightarrow> idem_store \<Rightarrow> idem_event list \<Rightarrow> idem_store \<times> mutation_result option list" where
  "recording_run sha256 opts st es \<equiv> idem_run sha256 opts (executeAtomic True) (\<lambda>n st. fst (cleanupExpired n st)) st es"

text \<open>C25. A mutation runs at most once per (principal, key): in any history of requests and
  cleanups over the recording store in which no cleanup runs ahead of the transaction clock of a later
  request (\<open>clocks_ok\<close>; else the key is still accepted after its record is gone), once a request
  executed, every later request of the same principal whose key is the same up to case either is
  refused or replays the first response, and it replays only for the same fingerprint; also after
  cleanup deleted the record.\<close>

theorem mutation_runs_at_most_once:
  assumes "keyed (is_records st)" "clocks_ok es" "recording_run sha256 opts st es = (st', rs)"
    and "i < j" "j < length es" "es ! i = Request now1 t1 request1 oper1" "es ! j = Request now2 t2 request2 oper2"
    and "in_scope pid key request1" "in_scope pid key request2"
    and "rs ! i = Some (Done False r1)" "rs ! j = Some (Done b r2)"
  shows "b \<and> r2 = r1 \<and> mutationFingerprint sha256 request2 = mutationFingerprint sha256 request1"
  using recording.second_answer_replays [OF assms(1-7,10,11,8,9)] .

definition sample_principal_ref :: string where
  "sample_principal_ref = replicate 64 (CHR ''a'')"

definition sample_mutation :: "string \<Rightarrow> mutation_request" where
  "sample_mutation k = \<lparr>mr_key = Some k, mr_principal = sample_principal_ref, mr_method = ''POST'', mr_route = ''/v1/x'', mr_payload = JNull\<rparr>"

definition lower_key :: string where
  "lower_key = ''v1.1700000000000.0123abcd-0123-4abc-8abc-0123456789ab''"

definition upper_key :: string where
  "upper_key = ''V1.1700000000000.0123ABCD-0123-4ABC-8ABC-0123456789AB''"

definition created :: stored_response where
  "created = \<lparr>sr_status = 201, sr_headers = None, sr_body = None\<rparr>"

definition empty_idem :: idem_store where
  "empty_idem = \<lparr>is_records = [], is_collections = [], is_outbox = []\<rparr>"

definition sample_opts :: idem_options where
  "sample_opts = \<lparr>io_retention = 1000, io_skew = 0\<rparr>"

definition two_tries :: "idem_event list" where
  "two_tries = [Request (Some 1700000000001) 1700000000001 (sample_mutation lower_key) ([Insert ''rows'' JNull], Some created),
     Request (Some 1700000000002) 1700000000002 (sample_mutation upper_key) ([Insert ''rows'' JNull], Some created)]"

lemma sample_keys: "key_time lower_key = Some ''1700000000000''" "key_time upper_key = Some ''1700000000000''"
  "map js_lower upper_key = lower_key" "map js_lower lower_key = lower_key"
  by code_simp+

lemma sample_valid: "requestIsValid (sample_mutation k)"
proof -
  have "list_all hex_char sample_principal_ref" by (simp add: sample_principal_ref_def list_all_iff hex_char_def)
  then show ?thesis
    by (simp add: requestIsValid_def sample_mutation_def reference_ok_def route_ok_def route_char_def Let_def)
      (simp add: sample_principal_ref_def)
qed

lemma sample_time: "read_nat ''1700000000000'' = 1700000000000"
  by (simp add: read_nat_def)

lemma sample_run:
  "\<exists>st'. recording_run (\<lambda>_. ''h'') sample_opts empty_idem two_tries = (st', [Some (Done False created), Some (Done True created)])"
proof -
  have keys: "upper_key \<noteq> []" "lower_key \<noteq> []" by (simp_all add: upper_key_def lower_key_def)
  show ?thesis
    by (simp add: two_tries_def execute_def sample_valid, simp add: sample_mutation_def sample_keys keys sample_time sample_opts_def
        executeAtomic_def date_reached_def js_date_def scope_key_def empty_idem_def mutationFingerprint_def Let_def)
qed

theorem mutation_runs_at_most_once_witness:
  "\<exists>st' b r. recording_run (\<lambda>_. ''h'') sample_opts empty_idem two_tries = (st', [Some (Done False created), Some (Done b r)]) \<and> b \<and> r = created"
proof -
  obtain st' where run: "recording_run (\<lambda>_. ''h'') sample_opts empty_idem two_tries = (st', [Some (Done False created), Some (Done True created)])"
    using sample_run by blast
  have scope: "in_scope sample_principal_ref lower_key (sample_mutation lower_key)" "in_scope sample_principal_ref lower_key (sample_mutation upper_key)"
    by (simp_all add: in_scope_def sample_mutation_def sample_keys)
  have "True \<and> created = created \<and> mutationFingerprint (\<lambda>_. ''h'') (sample_mutation upper_key) = mutationFingerprint (\<lambda>_. ''h'') (sample_mutation lower_key)"
    by (rule mutation_runs_at_most_once [OF _ _ run _ _ _ _ scope, of 0 1])
      (simp_all add: empty_idem_def two_tries_def)
  with run show ?thesis by blast
qed

text \<open>C26. The effects of a history are the writes of its executed requests and nothing else:
  every other answer (refused, failed part-way, replayed, conflicting, expired) and every
  cleanup leaves the collections and the outbox as they were.\<close>

theorem effects_are_the_executed_writes:
  assumes "recording_run sha256 opts st es = (st', rs)"
  shows "store_data st' = fold (fold data_write)
      (concat (map2 (\<lambda>e r. case (e, r) of (Request _ _ _ oper, Some (Done False _)) \<Rightarrow> [fst oper] | _ \<Rightarrow> []) es rs)) (store_data st)"
  using recording.run_effects [OF assms] unfolding recording.executed_writes_def .

theorem effects_are_the_executed_writes_witness:
  "\<exists>st'. fst (recording_run (\<lambda>_. ''h'') sample_opts empty_idem two_tries) = st' \<and> is_collections st' = [(''rows'', [JNull])]"
proof -
  obtain st' where run: "recording_run (\<lambda>_. ''h'') sample_opts empty_idem two_tries = (st', [Some (Done False created), Some (Done True created)])"
    using sample_run by blast
  from effects_are_the_executed_writes [OF run] have "store_data st' = ([(''rows'', [JNull])], [])"
    by (simp add: two_tries_def store_data_def push_def empty_idem_def)
  with run show ?thesis by (simp add: store_data_def)
qed

text \<open>A key the contract makes is one its executor accepts exactly for instants written with
  13 digits (September 2001 to November 2286); outside them \<open>createIdempotencyKey\<close> returns a
  key that is refused as invalid.\<close>

theorem created_key_accepted_iff:
  assumes "createIdempotencyKey (Some t) uuid = Inr k"
  shows "key_time k = (if 10 ^ 12 \<le> t \<and> t < 10 ^ 13 then Some (show_nat (nat t)) else None)"
proof -
  have uuid: "uuid_v4 uuid" and k: "k = ''v1'' @ CHR ''.'' # show_int t @ CHR ''.'' # map js_lower uuid"
    using assms by (auto simp: createIdempotencyKey_def split: if_splits)
  have digit_dot: "list_all digit_char s \<Longrightarrow> CHR ''.'' \<notin> set s" for s
    by (auto simp: list_all_iff digit_char_def)
  have hex_dot: "any_hex c \<Longrightarrow> c \<noteq> CHR ''.''" for c by (auto simp: any_hex_def hex_char_def digit_char_def)
  have low: "uuid_v4 (map js_lower uuid)" "CHR ''.'' \<notin> set (map js_lower uuid)"
    using uuid_lower [OF uuid] by auto
  have show_dot: "CHR ''.'' \<notin> set (show_int t)"
    using digit_dot [OF show_nat_digits] by (simp add: show_int_def)
  have split: "js_split (CHR ''.'') k = [''v1'', show_int t, map js_lower uuid]"
  proof -
    have "CHR ''.'' \<notin> set ''v1''" by simp
    then show ?thesis using low(2) show_dot unfolding k by (simp only: js_split_append js_split_single simp_thms)
  qed
  have digits: "list_all digit_char (show_int t) \<longleftrightarrow> 0 \<le> t"
    by (simp add: show_int_def show_nat_digits digit_char_def)
  have len: "length (show_nat n) = 13 \<longleftrightarrow> 10 ^ 12 \<le> n \<and> n < 10 ^ 13" for n
    using show_nat_short [of n 12] show_nat_short [of n 11] by auto
  have "length (show_int t) = 13 \<and> list_all digit_char (show_int t) \<longleftrightarrow> 10 ^ 12 \<le> t \<and> t < 10 ^ 13"
  proof (cases "0 \<le> t")
    case True
    then have "show_int t = show_nat (nat t)" by (simp add: show_int_def)
    then show ?thesis using True digits len [of "nat t"] by auto
  qed (use digits in auto)
  moreover have "0 \<le> t \<Longrightarrow> show_int t = show_nat (nat t)" by (simp add: show_int_def)
  ultimately show ?thesis unfolding key_time_def split using low(1) by auto
qed

theorem created_key_accepted_iff_witness:
  "\<exists>k. createIdempotencyKey (Some 5) ''0123abcd-0123-4abc-8abc-0123456789ab'' = Inr k \<and> key_time k = None"
proof -
  have "uuid_v4 ''0123abcd-0123-4abc-8abc-0123456789ab''" by code_simp
  then obtain k where k: "createIdempotencyKey (Some 5) ''0123abcd-0123-4abc-8abc-0123456789ab'' = Inr k"
    by (simp add: createIdempotencyKey_def)
  from created_key_accepted_iff [OF this] k show ?thesis by simp
qed

end
