(* ===== verification/Safe_Write.thy ===== *)
theory Safe_Write
  imports Idempotency
begin

text \<open>
  Safe writes, \<^verbatim>\<open>packages/safe-write-contract/src\<close>: a preview issues a token that
  commits to a transition (record, field, old value, new value, principal), a confirm spends
  it (\<^verbatim>\<open>safe-write.ts\<close>), and the store checks every precondition again inside one
  commit (\<^verbatim>\<open>fixtures.ts\<close>). The port is asynchronous: between two awaits the store may
  change. So a confirm takes what each of its two reads answered, whatever the store held then,
  and the state its commit meets. SHA-256, HMAC, the text of JSON and of instants, and random
  bytes are parameters.
\<close>

section \<open>Types\<close>

definition SAFE_WRITE_CONTRACT_VERSION :: string where
  "SAFE_WRITE_CONTRACT_VERSION = ''3.0.0''"

datatype rejection = Unknown_field | Invalid_value | Malformed_reference | Not_own_record | Token_expired
  | Token_already_used | Token_principal_mismatch | Token_change_set_mismatch | Token_not_issued
  | State_changed | Receipt_failed

record field_policy =
  fp_allowed :: "string list"
  fp_max_length :: nat
  fp_allow_clear :: bool

record change_request =
  ch_person :: string
  ch_field :: string
  ch_value :: string

record field_change =
  fc_field :: string
  fc_before :: "string option"
  fc_after :: string

record unsigned_token =
  tk_id :: string
  tk_change_set :: string
  tk_expected_before :: string
  tk_principal :: string
  tk_issued_at :: string
  tk_expires_at :: string

record action_token = unsigned_token +
  tk_mac :: string

record receipt =
  rc_version :: string
  rc_ref :: string
  rc_person :: string
  rc_principal :: string
  rc_change_set :: string
  rc_fields :: "string list"
  rc_committed_at :: string

record commit_input =
  ci_person :: string
  ci_principal :: string
  ci_token :: string
  ci_field :: string
  ci_expected :: "string option"
  ci_value :: string
  ci_change_set :: string
  ci_receipt :: receipt

datatype commit_outcome = Committed | Commit_refused rejection | Commit_throws

section \<open>Digests and tokens\<close>

record crypto =
  cr_sha256 :: "string \<Rightarrow> string"
  cr_hmac :: "string \<Rightarrow> string \<Rightarrow> string"
  cr_json :: "json \<Rightarrow> string"
  cr_iso :: "int \<Rightarrow> string"
  cr_date_parse :: "string \<Rightarrow> int option"

definition canonical :: "crypto \<Rightarrow> json \<Rightarrow> string" where
  "canonical cr v = cr_json cr (sortedJson v)"

definition changeSetDigest :: "crypto \<Rightarrow> change_request \<Rightarrow> string" where
  "changeSetDigest cr change = cr_sha256 cr (SAFE_WRITE_CONTRACT_VERSION @ CHR 0x0A #
     canonical cr (JObj [(''personRef'', JStr (ch_person change)), (''field'', JStr (ch_field change)), (''value'', JStr (ch_value change))]))"

definition expectedStateDigest :: "crypto \<Rightarrow> string option \<Rightarrow> string" where
  "expectedStateDigest cr before = cr_sha256 cr (SAFE_WRITE_CONTRACT_VERSION @ CHR 0x0A #
     (case before of None \<Rightarrow> ''absent'' @ [CHR 0x0A] | Some v \<Rightarrow> ''present'' @ CHR 0x0A # v))"

definition validateChange :: "change_request \<Rightarrow> field_policy \<Rightarrow> rejection option" where
  "validateChange change policy =
     (if \<not> reference_ok (ch_person change) then Some Malformed_reference
      else if ch_field change \<notin> set (fp_allowed policy) then Some Unknown_field
      else if (\<not> fp_allow_clear policy \<and> length (ch_value change) = 0) \<or> length (ch_value change) > fp_max_length policy then Some Invalid_value
      else if ch_value change \<noteq> js_trim (ch_value change) then Some Invalid_value
      else None)"

definition token_json :: "'a unsigned_token_scheme \<Rightarrow> json" where
  "token_json t = JObj [(''tokenId'', JStr (tk_id t)), (''changeSetDigest'', JStr (tk_change_set t)),
     (''expectedBeforeDigest'', JStr (tk_expected_before t)), (''principalRef'', JStr (tk_principal t)),
     (''issuedAt'', JStr (tk_issued_at t)), (''expiresAt'', JStr (tk_expires_at t))]"

definition tokenMac :: "crypto \<Rightarrow> 'a unsigned_token_scheme \<Rightarrow> string \<Rightarrow> string" where
  "tokenMac cr t secret = cr_hmac cr secret (SAFE_WRITE_CONTRACT_VERSION @ CHR 0x0A # canonical cr (token_json t))"

definition assertSecret :: "string \<Rightarrow> string option" where
  "assertSecret secret = (if length secret < 32 then None else Some secret)"

definition signActionToken :: "crypto \<Rightarrow> unsigned_token \<Rightarrow> string \<Rightarrow> string option" where
  "signActionToken cr t secret = map_option (tokenMac cr t) (assertSecret secret)"

definition default_lifetime :: int where
  "default_lifetime = 5 * 60 * 1000"

record safe_write =
  sw_secret :: string
  sw_policy :: field_policy
  sw_lifetime :: int

definition createSafeWrite :: "string \<Rightarrow> field_policy \<Rightarrow> int option \<Rightarrow> safe_write option" where
  "createSafeWrite secret policy lifetime = map_option (\<lambda>s.
     \<lparr>sw_secret = s, sw_policy = policy, sw_lifetime = (case lifetime of None \<Rightarrow> default_lifetime | Some l \<Rightarrow> l)\<rparr>) (assertSecret secret)"

section \<open>Preview and confirm\<close>

text \<open>\<open>owned\<close> and \<open>before\<close> are what the store answered, \<open>fresh\<close> the random token id, \<open>now\<close> the clock.\<close>

definition preview :: "crypto \<Rightarrow> safe_write \<Rightarrow> string \<Rightarrow> int \<Rightarrow> string option \<Rightarrow> string option \<Rightarrow> change_request \<Rightarrow> string
    \<Rightarrow> rejection + (field_change list \<times> action_token)" where
  "preview cr sw fresh now owned before change principalRef =
     (if \<not> reference_ok principalRef then Inl Malformed_reference
      else case validateChange change (sw_policy sw) of
        Some invalid \<Rightarrow> Inl invalid
      | None \<Rightarrow>
          (if owned \<noteq> Some (ch_person change) then Inl Not_own_record
           else let unsigned = \<lparr>tk_id = fresh, tk_change_set = changeSetDigest cr change,
                    tk_expected_before = expectedStateDigest cr before, tk_principal = principalRef,
                    tk_issued_at = cr_iso cr now, tk_expires_at = cr_iso cr (now + sw_lifetime sw)\<rparr>
                in Inr ([\<lparr>fc_field = ch_field change, fc_before = before, fc_after = ch_value change\<rparr>],
                     unsigned_token.extend unsigned \<lparr>tk_mac = tokenMac cr unsigned (sw_secret sw)\<rparr>)))"

text \<open>\<open>expired\<close> as the comparison of numbers: an unreadable date never is.\<close>

definition token_expired :: "crypto \<Rightarrow> int \<Rightarrow> action_token \<Rightarrow> bool" where
  "token_expired cr now t = (case cr_date_parse cr (tk_expires_at t) of None \<Rightarrow> False | Some e \<Rightarrow> e \<le> now)"

text \<open>\<open>spent\<close> is the instance's own set, \<open>now\<close> and \<open>at\<close> its two readings of the clock.\<close>

definition confirm :: "crypto \<Rightarrow> safe_write \<Rightarrow> ('s \<Rightarrow> commit_input \<Rightarrow> 's \<times> commit_outcome) \<Rightarrow> int \<Rightarrow> int
    \<Rightarrow> string option \<Rightarrow> string option \<Rightarrow> string set \<Rightarrow> 's \<Rightarrow> action_token \<Rightarrow> change_request \<Rightarrow> string
    \<Rightarrow> string set \<times> 's \<times> (rejection + receipt)" where
  "confirm cr sw commit now later owned current spent st token change principalRef =
     (if \<not> reference_ok principalRef then (spent, st, Inl Malformed_reference)
      else case validateChange change (sw_policy sw) of
        Some invalid \<Rightarrow> (spent, st, Inl invalid)
      | None \<Rightarrow>
          (if tk_mac token \<noteq> tokenMac cr token (sw_secret sw) then (spent, st, Inl Token_not_issued)
           else if tk_principal token \<noteq> principalRef then (spent, st, Inl Token_principal_mismatch)
           else if tk_id token \<in> spent then (spent, st, Inl Token_already_used)
           else if token_expired cr now token then (spent, st, Inl Token_expired)
           else let digest = changeSetDigest cr change
                in if tk_change_set token \<noteq> digest then (spent, st, Inl Token_change_set_mismatch)
                   else if owned \<noteq> Some (ch_person change) then (spent, st, Inl Not_own_record)
                   else if tk_expected_before token \<noteq> expectedStateDigest cr current then (spent, st, Inl State_changed)
                   else let committedAt = cr_iso cr later;
                            receipt = \<lparr>rc_version = SAFE_WRITE_CONTRACT_VERSION,
                              rc_ref = cr_sha256 cr (tk_id token @ CHR 0x0A # digest @ CHR 0x0A # committedAt),
                              rc_person = ch_person change, rc_principal = principalRef, rc_change_set = digest,
                              rc_fields = [ch_field change], rc_committed_at = committedAt\<rparr>
                        in case commit st \<lparr>ci_person = ch_person change, ci_principal = principalRef, ci_token = tk_id token,
                               ci_field = ch_field change, ci_expected = current, ci_value = ch_value change,
                               ci_change_set = digest, ci_receipt = receipt\<rparr> of
                             (st', Committed) \<Rightarrow> (insert (tk_id token) spent, st', Inr receipt)
                           | (st', Commit_refused reason) \<Rightarrow> (spent, st', Inl reason)
                           | (st', Commit_throws) \<Rightarrow> (spent, st', Inl Receipt_failed)))"

section \<open>The recording store\<close>

record recorded_commit =
  co_person :: string
  co_field :: string
  co_value :: string
  co_receipt :: receipt

record recording_store =
  rs_ownership :: "(string, string) js_map"
  rs_fields :: "(string, string) js_map"
  rs_commits :: "recorded_commit list"
  rs_spent :: "string list"
  rs_revoked :: "string list"

record store_faults =
  sf_fail :: bool
  sf_mutate :: "string option"
  sf_revoke :: bool

definition fieldKey :: "string \<Rightarrow> string \<Rightarrow> string" where
  "fieldKey personRef field = personRef @ CHR '' '' # field"

definition ownedRecordNow :: "recording_store \<Rightarrow> string \<Rightarrow> string option" where
  "ownedRecordNow st principalRef = (if principalRef \<in> set (rs_revoked st) then None else map_of (rs_ownership st) principalRef)"

definition readField :: "recording_store \<Rightarrow> string \<Rightarrow> string \<Rightarrow> string option" where
  "readField st personRef field = map_of (rs_fields st) (fieldKey personRef field)"

definition recording_commit :: "store_faults \<Rightarrow> recording_store \<Rightarrow> commit_input \<Rightarrow> recording_store \<times> commit_outcome" where
  "recording_commit faults st0 i =
     (if sf_fail faults then (st0, Commit_throws)
      else let st1 = (case sf_mutate faults of None \<Rightarrow> st0
                      | Some v \<Rightarrow> st0\<lparr>rs_fields := AList.update (fieldKey (ci_person i) (ci_field i)) v (rs_fields st0)\<rparr>);
               st = (if sf_revoke faults then st1\<lparr>rs_revoked := rs_revoked st1 @ [ci_principal i]\<rparr> else st1)
           in if ci_token i \<in> set (rs_spent st) then (st, Commit_refused Token_already_used)
              else if ownedRecordNow st (ci_principal i) \<noteq> Some (ci_person i) then (st, Commit_refused Not_own_record)
              else if readField st (ci_person i) (ci_field i) \<noteq> ci_expected i then (st, Commit_refused State_changed)
              else (st\<lparr>rs_spent := rs_spent st @ [ci_token i],
                       rs_fields := AList.update (fieldKey (ci_person i) (ci_field i)) (ci_value i) (rs_fields st),
                       rs_commits := rs_commits st @ [\<lparr>co_person = ci_person i, co_field = ci_field i, co_value = ci_value i,
                                                       co_receipt = ci_receipt i\<rparr>]\<rparr>, Committed))"


definition no_faults :: store_faults where
  "no_faults = \<lparr>sf_fail = False, sf_mutate = None, sf_revoke = False\<rparr>"

section \<open>What a confirm needs of a store\<close>

locale safe_store =
  fixes commit :: "'s \<Rightarrow> commit_input \<Rightarrow> 's \<times> commit_outcome"
    and stored :: "'s \<Rightarrow> string \<Rightarrow> string \<Rightarrow> string option"
    and owns :: "'s \<Rightarrow> string \<Rightarrow> string option"
    and is_spent :: "'s \<Rightarrow> string \<Rightarrow> bool"
    and receipts :: "'s \<Rightarrow> receipt list"
  assumes committed: "commit st i = (st', Committed) \<Longrightarrow>
      \<not> is_spent st (ci_token i) \<and> is_spent st' (ci_token i)
      \<and> owns st (ci_principal i) = Some (ci_person i)
      \<and> stored st (ci_person i) (ci_field i) = ci_expected i
      \<and> stored st' (ci_person i) (ci_field i) = Some (ci_value i)
      \<and> receipts st' = receipts st @ [ci_receipt i]"
    and refused: "commit st i = (st', out) \<Longrightarrow> out \<noteq> Committed \<Longrightarrow> st' = st"
    and stays_spent: "commit st i = (st', out) \<Longrightarrow> is_spent st t \<Longrightarrow> is_spent st' t"
begin

lemma confirm_Inr:
  assumes "confirm cr sw commit now later owned current spent st token change p = (spent', st', Inr r)"
  shows "validateChange change (sw_policy sw) = None
    \<and> tk_mac token = tokenMac cr token (sw_secret sw) \<and> tk_principal token = p \<and> tk_id token \<notin> spent
    \<and> \<not> token_expired cr now token \<and> tk_change_set token = changeSetDigest cr change
    \<and> owned = Some (ch_person change) \<and> tk_expected_before token = expectedStateDigest cr current
    \<and> spent' = insert (tk_id token) spent \<and> rc_person r = ch_person change \<and> rc_principal r = p
    \<and> rc_change_set r = tk_change_set token
    \<and> (\<exists>i. commit st i = (st', Committed) \<and> ci_person i = ch_person change \<and> ci_principal i = p \<and> ci_token i = tk_id token
         \<and> ci_field i = ch_field change \<and> ci_expected i = current \<and> ci_value i = ch_value change \<and> ci_receipt i = r)"
  using assms unfolding confirm_def Let_def
  by (auto split: if_splits option.splits prod.splits commit_outcome.splits)

lemma confirm_Inl:
  assumes "confirm cr sw commit now later owned current spent st token change p = (spent', st', Inl reason)"
  shows "st' = st \<and> spent' = spent"
  using assms refused unfolding confirm_def Let_def
  by (auto split: if_splits option.splits prod.splits commit_outcome.splits)

lemma confirm_keeps_spent:
  "confirm cr sw commit now later owned current spent st token change p = (spent', st', res) \<Longrightarrow> is_spent st t \<Longrightarrow> is_spent st' t"
proof (cases res)
  case (Inl reason)
  assume "confirm cr sw commit now later owned current spent st token change p = (spent', st', res)" "is_spent st t"
  with confirm_Inl Inl show "is_spent st' t" by metis
next
  case (Inr rc)
  assume run: "confirm cr sw commit now later owned current spent st token change p = (spent', st', res)" and t: "is_spent st t"
  from confirm_Inr [OF run [unfolded Inr]] obtain i where "commit st i = (st', Committed)" by (elim conjE exE)
  then show "is_spent st' t" using t by (rule stays_spent)
qed

end

interpretation recording_store: safe_store "recording_commit no_faults" readField ownedRecordNow
  "\<lambda>st t. t \<in> set (rs_spent st)" "\<lambda>st. map co_receipt (rs_commits st)"
  by unfold_locales
    (auto simp: recording_commit_def no_faults_def readField_def ownedRecordNow_def Let_def split: if_splits)


text \<open>What else may happen to the store between two confirms: fields change, grants come and go,
  other confirms commit; nothing takes a spent token back.\<close>

inductive store_moves :: "recording_store \<Rightarrow> recording_store \<Rightarrow> bool" where
  stays: "store_moves st st"
| other_write: "store_moves st st' \<Longrightarrow> store_moves st (st'\<lparr>rs_fields := written\<rparr>)"
| regrant: "store_moves st st' \<Longrightarrow> store_moves st (st'\<lparr>rs_ownership := owners, rs_revoked := revoked\<rparr>)"
| commits: "store_moves st st' \<Longrightarrow> recording_commit faults st' i = (st'', out) \<Longrightarrow> store_moves st st''"

lemma commit_spent: "recording_commit faults st i = (st', out) \<Longrightarrow> set (rs_spent st) \<subseteq> set (rs_spent st')"
  by (auto simp: recording_commit_def Let_def split: if_splits option.splits)

lemma moves_spent: "store_moves st st' \<Longrightarrow> set (rs_spent st) \<subseteq> set (rs_spent st')"
  by (induction rule: store_moves.induct) (auto dest: commit_spent)

lemma confirm_writes:
  assumes "confirm cr sw (recording_commit no_faults) now later owned current spent st token change p = (spent', st', Inr r)"
  shows "tk_id token \<notin> set (rs_spent st) \<and> tk_id token \<in> set (rs_spent st')"
proof -
  from recording_store.confirm_Inr [OF assms] obtain i where "recording_commit no_faults st i = (st', Committed)" "ci_token i = tk_id token"
    by (elim conjE exE)
  from recording_store.committed [OF this(1)] this(2) show ?thesis by simp
qed

section \<open>Properties\<close>

abbreviation store_confirm where
  "store_confirm cr sw \<equiv> confirm cr sw (recording_commit no_faults)"

definition unsigned_of :: "crypto \<Rightarrow> safe_write \<Rightarrow> string \<Rightarrow> int \<Rightarrow> string option \<Rightarrow> change_request \<Rightarrow> string \<Rightarrow> unsigned_token" where
  "unsigned_of cr sw fresh now before change p = \<lparr>tk_id = fresh, tk_change_set = changeSetDigest cr change,
     tk_expected_before = expectedStateDigest cr before, tk_principal = p,
     tk_issued_at = cr_iso cr now, tk_expires_at = cr_iso cr (now + sw_lifetime sw)\<rparr>"

text \<open>What a committed change leaves: one field written, one token spent, one entry recorded.\<close>

definition committed_store :: "recording_store \<Rightarrow> string \<Rightarrow> change_request \<Rightarrow> receipt \<Rightarrow> recording_store" where
  "committed_store st token change r = st\<lparr>rs_spent := rs_spent st @ [token],
     rs_fields := AList.update (fieldKey (ch_person change) (ch_field change)) (ch_value change) (rs_fields st),
     rs_commits := rs_commits st @ [\<lparr>co_person = ch_person change, co_field = ch_field change, co_value = ch_value change, co_receipt = r\<rparr>]\<rparr>"

lemma confirm_exact:
  assumes "store_confirm cr sw now later owned current spent st token change p = (spent', st', Inr r)"
  shows "st' = committed_store st (tk_id token) change r
    \<and> r = \<lparr>rc_version = SAFE_WRITE_CONTRACT_VERSION, rc_ref = cr_sha256 cr (tk_id token @ CHR 0x0A # changeSetDigest cr change @ CHR 0x0A # cr_iso cr later),
        rc_person = ch_person change, rc_principal = p, rc_change_set = changeSetDigest cr change, rc_fields = [ch_field change], rc_committed_at = cr_iso cr later\<rparr>"
  using assms unfolding confirm_def Let_def recording_commit_def no_faults_def committed_store_def
  by (auto split: if_splits option.splits)

text \<open>C4. Whatever the confirm read before, what it writes is what was approved: it succeeds only
  with a token whose MAC is over its own fields, of this principal, unexpired, committing to this
  change, and then at the instant of the commit the token is unspent, the principal owns the
  record, and the stored value has the digest the preview showed. The store afterwards is the store
  before with the approved field holding the approved value, the token spent, and one entry recorded
  of that person, field, value and receipt: every other field, the ownership and the revocations
  are untouched. The receipt names the person, the principal, the change and the field. A confirm that is
  refused leaves the store as it was.\<close>

theorem confirm_writes_what_was_approved:
  "case store_confirm cr sw now later owned current spent st token change p of
     (spent', st', Inl reason) \<Rightarrow> st' = st \<and> spent' = spent
   | (spent', st', Inr r) \<Rightarrow>
       tk_mac token = tokenMac cr token (sw_secret sw) \<and> tk_principal token = p \<and> \<not> token_expired cr now token
     \<and> tk_change_set token = changeSetDigest cr change \<and> validateChange change (sw_policy sw) = None
     \<and> tk_id token \<notin> set (rs_spent st) \<and> tk_id token \<notin> spent \<and> spent' = insert (tk_id token) spent
     \<and> ownedRecordNow st p = Some (ch_person change)
     \<and> expectedStateDigest cr (readField st (ch_person change) (ch_field change)) = tk_expected_before token
     \<and> st' = committed_store st (tk_id token) change r
     \<and> map_of (rs_fields st') = (map_of (rs_fields st))(fieldKey (ch_person change) (ch_field change) \<mapsto> ch_value change)
     \<and> r = \<lparr>rc_version = SAFE_WRITE_CONTRACT_VERSION, rc_ref = cr_sha256 cr (tk_id token @ CHR 0x0A # changeSetDigest cr change @ CHR 0x0A # cr_iso cr later),
         rc_person = ch_person change, rc_principal = p, rc_change_set = changeSetDigest cr change, rc_fields = [ch_field change], rc_committed_at = cr_iso cr later\<rparr>"
proof -
  obtain spent' st' res where run: "store_confirm cr sw now later owned current spent st token change p = (spent', st', res)"
    by (metis prod_cases3)
  show ?thesis
  proof (cases res)
    case (Inl reason)
    with run recording_store.confirm_Inl show ?thesis by fastforce
  next
    case (Inr r)
    note c = recording_store.confirm_Inr [OF run [unfolded Inr]] and exact = confirm_exact [OF run [unfolded Inr]]
    from c obtain i where i: "recording_commit no_faults st i = (st', Committed)" "ci_person i = ch_person change" "ci_principal i = p"
      "ci_token i = tk_id token" "ci_field i = ch_field change" "ci_expected i = current" "ci_value i = ch_value change" "ci_receipt i = r"
      by (elim conjE exE)
    have fields: "map_of (rs_fields st') = (map_of (rs_fields st))(fieldKey (ch_person change) (ch_field change) \<mapsto> ch_value change)"
      unfolding exact [THEN conjunct1] by (simp add: committed_store_def update_conv')
    have stored: "tk_id token \<notin> set (rs_spent st)" "ownedRecordNow st p = Some (ch_person change)" "readField st (ch_person change) (ch_field change) = current"
      using recording_store.committed [OF i(1)] unfolding i(2-8) by blast+
    have checked: "tk_mac token = tokenMac cr token (sw_secret sw)" "tk_principal token = p" "\<not> token_expired cr now token" "tk_change_set token = changeSetDigest cr change"
      "validateChange change (sw_policy sw) = None" "tk_id token \<notin> spent" "spent' = insert (tk_id token) spent"
      by (use c in blast)+
    have before: "expectedStateDigest cr (readField st (ch_person change) (ch_field change)) = tk_expected_before token"
      unfolding stored(3) by (rule sym) (use c in blast)
    show ?thesis unfolding run Inr prod.case sum.case
      by (intro conjI checked stored before fields exact [THEN conjunct1] exact [THEN conjunct2])
  qed
qed

text \<open>C5. A token is spent once across processes and restarts: after a confirm succeeded, no
  confirm of a token with that id succeeds on any later state of the store, whatever instance
  runs it, with whatever local set of spent tokens, clock and reads.\<close>

theorem token_commits_once:
  assumes "store_confirm cr sw now later owned current spent st token change p = (spent', st1, Inr r)"
    and "store_moves st1 st2" and "tk_id token2 = tk_id token"
  shows "\<exists>reason. snd (snd (store_confirm cr2 sw2 now2 later2 owned2 current2 spent2 st2 token2 change2 p2)) = Inl reason"
proof -
  have "tk_id token \<in> set (rs_spent st1)"
    using confirm_writes [OF assms(1)] by simp
  then have spent: "tk_id token2 \<in> set (rs_spent st2)" using moves_spent [OF assms(2)] assms(3) by auto
  obtain spent' st' res where run: "store_confirm cr2 sw2 now2 later2 owned2 current2 spent2 st2 token2 change2 p2 = (spent', st', res)"
    by (metis prod_cases3)
  show ?thesis
  proof (cases res)
    case (Inr r)
    with confirm_writes [OF run [unfolded Inr]] spent show ?thesis by simp
  qed (use run in simp)
qed

definition demo_crypto :: crypto where
  "demo_crypto = \<lparr>cr_sha256 = (\<lambda>m. ''#'' @ m), cr_hmac = (\<lambda>k m. k @ m), cr_json = (\<lambda>_. ''{}''), cr_iso = (\<lambda>_. ''T''),
     cr_date_parse = (\<lambda>_. Some 9)\<rparr>"

definition demo_person :: string where
  "demo_person = replicate 64 (CHR ''a'')"

definition demo_change :: change_request where
  "demo_change = \<lparr>ch_person = demo_person, ch_field = ''pronouns'', ch_value = ''they''\<rparr>"

definition demo_write :: safe_write where
  "demo_write = \<lparr>sw_secret = replicate 32 (CHR ''k''), sw_policy = \<lparr>fp_allowed = [''pronouns''], fp_max_length = 64, fp_allow_clear = False\<rparr>,
     sw_lifetime = default_lifetime\<rparr>"

definition demo_store :: recording_store where
  "demo_store = \<lparr>rs_ownership = [(demo_person, demo_person)], rs_fields = [], rs_commits = [], rs_spent = [], rs_revoked = []\<rparr>"

definition demo_token :: action_token where
  "demo_token = snd (projr (preview demo_crypto demo_write ''t1'' 0 (Some demo_person) None demo_change demo_person))"

lemma demo_valid [simp]: "reference_ok demo_person" "validateChange demo_change (sw_policy demo_write) = None"
  by (simp_all add: reference_ok_def hex_char_def demo_person_def list_all_iff validateChange_def demo_change_def demo_write_def
      js_trim_def js_space_def)

lemma demo_change_person: "ch_person demo_change = demo_person"
  by (simp add: demo_change_def)

lemma demo_store_facts: "ownedRecordNow demo_store demo_person = Some demo_person" "readField demo_store p f = None"
  "rs_spent demo_store = []" "cr_date_parse demo_crypto t = Some 9"
  by (simp_all add: demo_store_def ownedRecordNow_def readField_def demo_crypto_def)

lemma demo_preview: "preview demo_crypto (demo_write\<lparr>sw_lifetime := l\<rparr>) ''t1'' 0 (Some demo_person) None demo_change demo_person
    = Inr ([\<lparr>fc_field = ''pronouns'', fc_before = None, fc_after = ''they''\<rparr>], demo_token)"
proof -
  have "cr_iso demo_crypto x = ''T''" for x by (simp add: demo_crypto_def)
  moreover have "ch_person demo_change = demo_person" "ch_field demo_change = ''pronouns''" "ch_value demo_change = ''they''"
    by (simp_all add: demo_change_def)
  ultimately show ?thesis by (simp add: preview_def demo_token_def Let_def)
qed

lemma demo_preview': "preview demo_crypto demo_write ''t1'' 0 (Some demo_person) None demo_change demo_person
    = Inr ([\<lparr>fc_field = ''pronouns'', fc_before = None, fc_after = ''they''\<rparr>], demo_token)"
  using demo_preview [of "sw_lifetime demo_write"] by simp

lemma demo_token_fields: "tk_mac demo_token = tokenMac demo_crypto demo_token (sw_secret demo_write)" "tk_id demo_token = ''t1''"
  "tk_principal demo_token = demo_person" "tk_change_set demo_token = changeSetDigest demo_crypto demo_change"
  "tk_expected_before demo_token = expectedStateDigest demo_crypto None" "tk_expires_at demo_token = ''T''"
  by (simp_all add: demo_token_def preview_def Let_def demo_change_person unsigned_token.defs tokenMac_def
      token_json_def demo_crypto_def)

theorem token_commits_once_witness:
  "\<exists>st1 r reason. store_confirm demo_crypto demo_write 1 2 (Some demo_person) None {} demo_store demo_token demo_change demo_person
       = ({''t1''}, st1, Inr r)
     \<and> snd (snd (store_confirm demo_crypto demo_write 3 3 (Some demo_person) (Some ''they'') {} st1 demo_token demo_change demo_person))
       = Inl reason"
proof -
  obtain st1 r where run: "store_confirm demo_crypto demo_write 1 2 (Some demo_person) None {} demo_store demo_token demo_change demo_person
      = ({''t1''}, st1, Inr r)"
    by (auto simp: confirm_def Let_def demo_token_fields demo_change_person token_expired_def demo_store_facts
        recording_commit_def no_faults_def)
  from token_commits_once [OF run store_moves.stays refl] run show ?thesis by blast
qed

text \<open>C37. An approval nobody disturbs commits: a token that a preview issued, confirmed by the same
  principal for the same change before it expires, on a store where the principal still owns the
  record, the field still holds what the preview showed and the token is unspent, is accepted
  and the field then holds the approved value, provided the expiry instant reads back as written.\<close>

theorem undisturbed_approval_commits:
  assumes "preview cr sw fresh now owned before change p = Inr (changes, token)"
    and "cr_date_parse cr (cr_iso cr (now + sw_lifetime sw)) = Some (now + sw_lifetime sw)"
    and "tick < now + sw_lifetime sw"
    and "ownedRecordNow st p = Some (ch_person change)"
    and "readField st (ch_person change) (ch_field change) = before"
    and "fresh \<notin> spent" and "fresh \<notin> set (rs_spent st)"
  shows "changes = [\<lparr>fc_field = ch_field change, fc_before = before, fc_after = ch_value change\<rparr>]
     \<and> (\<exists>st' r. store_confirm cr sw tick later (ownedRecordNow st p) (readField st (ch_person change) (ch_field change)) spent st token change p
           = (insert fresh spent, st', Inr r)
         \<and> readField st' (ch_person change) (ch_field change) = Some (ch_value change))"
proof -
  from assms(1) have ok: "reference_ok p" "validateChange change (sw_policy sw) = None"
    "changes = [\<lparr>fc_field = ch_field change, fc_before = before, fc_after = ch_value change\<rparr>]"
    and tok: "token = unsigned_token.extend (unsigned_of cr sw fresh now before change p)
        \<lparr>tk_mac = tokenMac cr (unsigned_of cr sw fresh now before change p) (sw_secret sw)\<rparr>"
    unfolding preview_def unsigned_of_def Let_def by (auto split: if_splits option.splits)
  have "tk_mac token = tokenMac cr token (sw_secret sw)" "tk_id token = fresh" "tk_principal token = p"
    "tk_change_set token = changeSetDigest cr change" "tk_expected_before token = expectedStateDigest cr before"
    "\<not> token_expired cr tick token"
    using assms(2,3) unfolding tok
    by (simp_all add: unsigned_token.defs tokenMac_def token_json_def unsigned_of_def token_expired_def)
  then show ?thesis
    using assms(4-7) ok
    by (auto simp: confirm_def Let_def recording_commit_def no_faults_def readField_def)
qed

theorem undisturbed_approval_commits_witness:
  "\<exists>st' r. store_confirm demo_crypto (demo_write\<lparr>sw_lifetime := 9\<rparr>) 1 2 (Some demo_person) None {} demo_store demo_token demo_change demo_person
     = ({''t1''}, st', Inr r)"
proof -
  let ?sw = "demo_write\<lparr>sw_lifetime := 9\<rparr>"
  have "cr_date_parse demo_crypto (cr_iso demo_crypto (0 + sw_lifetime ?sw)) = Some (0 + sw_lifetime ?sw)" "1 < 0 + sw_lifetime ?sw"
    "ownedRecordNow demo_store demo_person = Some (ch_person demo_change)"
    "readField demo_store (ch_person demo_change) (ch_field demo_change) = None"
    "''t1'' \<notin> {}" "''t1'' \<notin> set (rs_spent demo_store)"
    by (simp_all add: demo_store_facts demo_change_person)
  from undisturbed_approval_commits [OF demo_preview [of 9] this, where later = 2]
  show ?thesis unfolding demo_store_facts demo_change_person by (elim conjE exE) (intro exI)
qed

end
