(* ===== verification/Json_Text.thy ===== *)
theory Json_Text
  imports Json
begin

text \<open>
  The text \<open>JSON.stringify\<close> writes, over strings of code units below 256. The text of a number
  is an argument. Values without numbers have texts of which none is a prefix of another, so a
  value is determined by its text wherever that stands.
\<close>

definition hex_digit :: "nat \<Rightarrow> char" where
  "hex_digit n = ''0123456789abcdef'' ! n"

definition js_escape :: "char \<Rightarrow> string" where
  "js_escape c = (let n = (of_char c :: nat) in
     if n = 34 \<or> n = 92 then [CHR 0x5C, c]
     else if n = 8 then [CHR 0x5C, CHR ''b''] else if n = 9 then [CHR 0x5C, CHR ''t''] else if n = 10 then [CHR 0x5C, CHR ''n'']
     else if n = 12 then [CHR 0x5C, CHR ''f''] else if n = 13 then [CHR 0x5C, CHR ''r'']
     else if n < 32 then [CHR 0x5C, CHR ''u'', CHR ''0'', CHR ''0'', hex_digit (n div 16), hex_digit (n mod 16)]
     else [c])"

definition js_quote :: "string \<Rightarrow> string" where
  "js_quote s = CHR 0x22 # concat (map js_escape s) @ [CHR 0x22]"

definition commas :: "string list \<Rightarrow> string" where
  "commas xs = (case xs of [] \<Rightarrow> [] | x # ys \<Rightarrow> x @ concat (map (\<lambda>y. CHR '','' # y) ys))"

fun js_stringify :: "(rat \<Rightarrow> string) \<Rightarrow> json \<Rightarrow> string" where
  "js_stringify nt JNull = ''null''"
| "js_stringify nt (JBool b) = (if b then ''true'' else ''false'')"
| "js_stringify nt (JNum n) = (case n of None \<Rightarrow> ''null'' | Some r \<Rightarrow> nt r)"
| "js_stringify nt (JStr s) = js_quote s"
| "js_stringify nt (JArr vs) = CHR ''['' # commas (map (js_stringify nt) vs) @ '']''"
| "js_stringify nt (JObj m) = CHR ''{'' # commas (map (\<lambda>kv. js_quote (fst kv) @ CHR '':'' # js_stringify nt (snd kv)) m) @ ''}''"

fun numberless :: "json \<Rightarrow> bool" where
  "numberless (JNum n) = False"
| "numberless (JArr vs) = list_all numberless vs"
| "numberless (JObj m) = list_all (\<lambda>kv. numberless (snd kv)) m"
| "numberless _ = True"

section \<open>Escapes can be read back\<close>

definition hex_value :: "char \<Rightarrow> nat" where
  "hex_value c = (let n = (of_char c :: nat) in if n < 58 then n - 48 else n - 87)"

fun unescape :: "string \<Rightarrow> (char \<times> string) option" where
  "unescape [] = None"
| "unescape (c # s) = (if of_char c = (34 :: nat) then None else if of_char c \<noteq> (92 :: nat) then Some (c, s) else
     (case s of [] \<Rightarrow> None | d # t \<Rightarrow>
        if d = CHR ''b'' then Some (char_of (8 :: nat), t) else if d = CHR ''t'' then Some (char_of (9 :: nat), t)
        else if d = CHR ''n'' then Some (char_of (10 :: nat), t) else if d = CHR ''f'' then Some (char_of (12 :: nat), t)
        else if d = CHR ''r'' then Some (char_of (13 :: nat), t)
        else if d = CHR ''u'' then Some (char_of (hex_value (t ! 2) * 16 + hex_value (t ! 3)), drop 4 t)
        else Some (d, t)))"

lemma hex_value_digit: "n < 16 \<Longrightarrow> hex_value (hex_digit n) = n"
proof -
  have "list_all (\<lambda>n. hex_value (hex_digit n) = n) [0..<16]" by code_simp
  then show "n < 16 \<Longrightarrow> hex_value (hex_digit n) = n" by (simp add: list_all_iff)
qed

lemma char_eqI: "of_char c = (n :: nat) \<Longrightarrow> c = char_of n"
  by (metis char_of_char)

lemma unescape_escape: "unescape (js_escape c @ s) = Some (c, s)"
proof -
  have small: "of_char c < (32 :: nat) \<Longrightarrow> of_char c div 16 < (16 :: nat)" by simp
  have "char_of (of_char c div 16 * 16 + of_char c mod (16 :: nat)) = c" by simp
  then show ?thesis
    unfolding js_escape_def Let_def
    by (auto simp: hex_value_digit small dest: char_eqI)
qed

lemma js_escape_not_quote: "\<exists>d t. js_escape c = d # t \<and> d \<noteq> CHR 0x22"
  by (auto simp: js_escape_def Let_def)

lemma escapes_inj:
  "concat (map js_escape s) @ CHR 0x22 # x = concat (map js_escape t) @ CHR 0x22 # y \<Longrightarrow> s = t \<and> x = y"
proof (induction s arbitrary: t)
  case Nil
  then show ?case by (cases t) (use js_escape_not_quote in \<open>auto, metis list.inject append_Cons\<close>)
next
  case (Cons c s)
  then obtain d u where t: "t = d # u"
    by (cases t) (use js_escape_not_quote [of c] in auto)
  from Cons.prems have "Some (c, concat (map js_escape s) @ CHR 0x22 # x) = Some (d, concat (map js_escape u) @ CHR 0x22 # y)"
    unfolding t by (metis append.assoc concat.simps(2) list.simps(9) unescape_escape)
  then show ?case using Cons.IH [of u] t by simp
qed

lemma js_quote_inj: "js_quote s @ x = js_quote t @ y \<Longrightarrow> s = t \<and> x = y"
  using escapes_inj [of s x t y] by (simp add: js_quote_def)

section \<open>No text is a prefix of another\<close>

definition prefix_free :: "('a \<Rightarrow> string) \<Rightarrow> 'a set \<Rightarrow> 'a set \<Rightarrow> bool" where
  "prefix_free f A B \<longleftrightarrow> (\<forall>v \<in> A. \<forall>w \<in> B. \<forall>x y. f v @ x = f w @ y \<longrightarrow> v = w \<and> x = y)"

lemma prefix_freeD: "prefix_free f A B \<Longrightarrow> v \<in> A \<Longrightarrow> w \<in> B \<Longrightarrow> f v @ x = f w @ y \<Longrightarrow> v = w \<and> x = y"
  unfolding prefix_free_def by blast

lemma prefix_free_tl: "prefix_free f (set (v # vs)) (set (w # ws)) \<Longrightarrow> prefix_free f (set vs) (set ws)"
  unfolding prefix_free_def by (meson list.set_intros(2))

definition tail_text :: "('a \<Rightarrow> string) \<Rightarrow> 'a list \<Rightarrow> string" where
  "tail_text f vs = concat (map (\<lambda>y. CHR '','' # y) (map f vs))"

lemma tail_text_simps [simp]: "tail_text f [] = []" "tail_text f (v # vs) = CHR '','' # f v @ tail_text f vs"
  by (simp_all add: tail_text_def)

lemma commas_text: "commas (map f []) = []" "commas (map f (v # vs)) = f v @ tail_text f vs"
  by (simp_all add: commas_def tail_text_def)

lemma tail_text_inj:
  "prefix_free f (set vs) (set ws) \<Longrightarrow> c \<noteq> CHR '','' \<Longrightarrow> tail_text f vs @ c # x = tail_text f ws @ c # y \<Longrightarrow> vs = ws \<and> x = y"
proof (induction vs arbitrary: ws)
  case Nil
  then show ?case by (cases ws) simp_all
next
  case (Cons v vs)
  then obtain w us where ws: "ws = w # us" by (cases ws) auto
  with Cons.prems(3) have "f v @ (tail_text f vs @ c # x) = f w @ (tail_text f us @ c # y)" by simp
  from prefix_freeD [OF Cons.prems(1) _ _ this] have "v = w" "tail_text f vs @ c # x = tail_text f us @ c # y"
    by (simp_all add: ws)
  with Cons.IH [OF prefix_free_tl [OF Cons.prems(1) [unfolded ws]] Cons.prems(2)] show ?case by (simp add: ws)
qed

lemma commas_inj:
  assumes free: "prefix_free f (set vs) (set ws)" and c: "c \<noteq> CHR '',''"
    and start: "\<And>v. v \<in> set vs \<union> set ws \<Longrightarrow> f v \<noteq> [] \<and> hd (f v) \<noteq> c"
    and eq: "commas (map f vs) @ c # x = commas (map f ws) @ c # y"
  shows "vs = ws \<and> x = y"
proof (cases vs)
  case Nil
  show ?thesis
  proof (cases ws)
    case ws: (Cons w us)
    from eq have "c # x = f w @ tail_text f us @ c # y" unfolding Nil ws commas_text by simp
    with start [of w] ws show ?thesis by (cases "f w") simp_all
  qed (use Nil eq in simp)
next
  case vs: (Cons v us)
  show ?thesis
  proof (cases ws)
    case Nil
    from eq have "f v @ tail_text f us @ c # x = c # y" unfolding Nil vs commas_text by simp
    with start [of v] vs show ?thesis by (cases "f v") simp_all
  next
    case ws: (Cons w zs)
    from eq have "f v @ (tail_text f us @ c # x) = f w @ (tail_text f zs @ c # y)"
      unfolding vs ws commas_text by simp
    from prefix_freeD [OF free _ _ this] have "v = w" "tail_text f us @ c # x = tail_text f zs @ c # y"
      by (simp_all add: vs ws)
    with tail_text_inj [OF prefix_free_tl [OF free [unfolded vs ws]] c] show ?thesis by (simp add: vs ws)
  qed
qed

lemma stringify_hd: "numberless v \<Longrightarrow> js_stringify nt v \<noteq> [] \<and> hd (js_stringify nt v) \<noteq> CHR '']''"
  by (cases v) (simp_all add: js_quote_def)

definition member_text :: "(rat \<Rightarrow> string) \<Rightarrow> string \<times> json \<Rightarrow> string" where
  "member_text nt kv = js_quote (fst kv) @ CHR '':'' # js_stringify nt (snd kv)"

lemma stringify_obj: "js_stringify nt (JObj m) = CHR ''{'' # commas (map (member_text nt) m) @ ''}''"
proof -
  have "member_text nt = (\<lambda>kv. js_quote (fst kv) @ CHR '':'' # js_stringify nt (snd kv))" by (rule ext) (simp add: member_text_def)
  then show ?thesis by simp
qed

lemma member_text_hd: "member_text nt kv \<noteq> [] \<and> hd (member_text nt kv) \<noteq> CHR ''}''"
  by (simp add: member_text_def js_quote_def)

lemma member_text_free:
  assumes "\<And>kv lw x y. kv \<in> A \<Longrightarrow> lw \<in> B \<Longrightarrow> js_stringify nt (snd kv) @ x = js_stringify nt (snd lw) @ y \<Longrightarrow> snd kv = snd lw \<and> x = y"
  shows "prefix_free (member_text nt) A B"
  unfolding prefix_free_def
proof (intro ballI allI impI)
  fix kv lw x y assume a: "kv \<in> A" "lw \<in> B" "member_text nt kv @ x = member_text nt lw @ y"
  then have "js_quote (fst kv) @ (CHR '':'' # js_stringify nt (snd kv) @ x) = js_quote (fst lw) @ (CHR '':'' # js_stringify nt (snd lw) @ y)"
    by (simp add: member_text_def)
  from js_quote_inj [OF this] have "fst kv = fst lw" "js_stringify nt (snd kv) @ x = js_stringify nt (snd lw) @ y" by simp_all
  with assms [OF a(1,2) this(2)] show "kv = lw \<and> x = y" by (simp add: prod_eq_iff)
qed

lemma stringify_other_kind:
  "js_stringify nt v @ x = js_stringify nt w @ y \<Longrightarrow> numberless v \<Longrightarrow> numberless w \<Longrightarrow>
    (case v of JNull \<Rightarrow> w = JNull | JBool b \<Rightarrow> w = JBool b | JStr s \<Rightarrow> \<exists>t. w = JStr t | JArr vs \<Rightarrow> \<exists>ws. w = JArr ws
     | JObj m \<Rightarrow> \<exists>n. w = JObj n | JNum n \<Rightarrow> False)"
  by (cases v; cases w) (simp_all add: js_quote_def split: if_splits)

lemma stringify_prefix_free:
  "numberless v \<Longrightarrow> numberless w \<Longrightarrow> js_stringify nt v @ x = js_stringify nt w @ y \<Longrightarrow> v = w \<and> x = y"
proof (induction v arbitrary: w x y)
  case JNull
  with stringify_other_kind [OF JNull(3)] show ?case by simp
next
  case (JBool b)
  with stringify_other_kind [OF JBool(3)] show ?case by simp
next
  case (JStr s)
  with stringify_other_kind [OF JStr(3)] obtain t where "w = JStr t" by auto
  with JStr js_quote_inj [of s x t y] show ?case by simp
next
  case (JArr vs)
  with stringify_other_kind [OF JArr.prems(3)] obtain ws where w: "w = JArr ws" by auto
  have "prefix_free (js_stringify nt) (set vs) (set ws)"
    unfolding prefix_free_def
  proof (intro ballI allI impI)
    fix v u x y assume "v \<in> set vs" "u \<in> set ws" "js_stringify nt v @ x = js_stringify nt u @ y"
    then show "v = u \<and> x = y" using JArr.IH [of v u x y] JArr.prems(1,2) by (simp add: w list_all_iff)
  qed
  then have "vs = ws \<and> x = y"
    by (rule commas_inj) (use JArr.prems w stringify_hd in \<open>auto simp: list_all_iff\<close>)
  then show ?case by (simp add: w)
next
  case (JObj m)
  with stringify_other_kind [OF JObj.prems(3)] obtain n where w: "w = JObj n" by auto
  have "prefix_free (member_text nt) (set m) (set n)"
  proof (rule member_text_free)
    fix kv lw x y assume a: "kv \<in> set m" "lw \<in> set n" and e: "js_stringify nt (snd kv) @ x = js_stringify nt (snd lw) @ y"
    have "snd kv \<in> Basic_BNFs.snds kv" by (cases kv) simp
    with a JObj.prems(1,2) JObj.IH [OF a(1) this _ _ e] show "snd kv = snd lw \<and> x = y" by (simp add: w list_all_iff)
  qed
  then have "m = n \<and> x = y"
    by (rule commas_inj) (use JObj.prems(3) w member_text_hd in \<open>auto simp: stringify_obj simp del: js_stringify.simps\<close>)
  then show ?case by (simp add: w)
qed simp

lemma stringify_inj: "numberless v \<Longrightarrow> numberless w \<Longrightarrow> js_stringify nt v = js_stringify nt w \<longleftrightarrow> v = w"
  using stringify_prefix_free [of v w nt "[]" "[]"] by auto

end
