(* ===== verification/Js_Values.thy ===== *)
theory Js_Values
  imports Json
begin

text \<open>
  What the coordinator's modules and the contracts ask of values read from JSON: members, safe
  integers, truth, substrings. \<open>None\<close> is an absent member.
\<close>

definition MAX_SAFE :: int where
  "MAX_SAFE = 2 ^ 53 - 1"

definition safe_integer :: "json option \<Rightarrow> int option" where
  "safe_integer v = (case v of Some (JNum (Some r)) \<Rightarrow>
       (if of_int \<lfloor>r\<rfloor> = r \<and> \<bar>\<lfloor>r\<rfloor>\<bar> \<le> MAX_SAFE then Some \<lfloor>r\<rfloor> else None) | _ \<Rightarrow> None)"

definition positiveInteger :: "json option \<Rightarrow> bool" where
  "positiveInteger v = (case safe_integer v of None \<Rightarrow> False | Some n \<Rightarrow> 0 < n)"

definition nonNegativeInteger :: "json option \<Rightarrow> bool" where
  "nonNegativeInteger v = (case safe_integer v of None \<Rightarrow> False | Some n \<Rightarrow> 0 \<le> n)"

definition int_of :: "json option \<Rightarrow> int" where
  "int_of v = (case safe_integer v of None \<Rightarrow> 0 | Some n \<Rightarrow> n)"

definition safe_count :: "int \<Rightarrow> bool" where
  "safe_count n \<longleftrightarrow> 0 \<le> n \<and> n \<le> MAX_SAFE"

lemma nonNegativeInteger_int_of: "nonNegativeInteger v \<Longrightarrow> safe_count (int_of v)"
  by (auto simp: nonNegativeInteger_def int_of_def safe_count_def safe_integer_def split: option.splits json.splits if_splits)

lemma positiveInteger_int_of: "positiveInteger v \<Longrightarrow> 0 < int_of v \<and> safe_count (int_of v)"
  by (auto simp: positiveInteger_def int_of_def safe_count_def safe_integer_def split: option.splits json.splits if_splits)

definition js_int :: "int \<Rightarrow> json" where
  "js_int n = JNum (Some (of_int n))"

lemma safe_integer_js_int: "safe_integer (Some (js_int n)) = (if \<bar>n\<bar> \<le> MAX_SAFE then Some n else None)"
  by (simp add: safe_integer_def js_int_def)

text \<open>An own member of an object; arrays and primitives have none of the members asked for.\<close>

fun json_get :: "json \<Rightarrow> string \<Rightarrow> json option" where
  "json_get (JObj m) k = map_of m k"
| "json_get _ _ = None"

fun js_truthy :: "json \<Rightarrow> bool" where
  "js_truthy JNull = False"
| "js_truthy (JBool b) = b"
| "js_truthy (JNum n) = (case n of None \<Rightarrow> False | Some r \<Rightarrow> r \<noteq> 0)"
| "js_truthy (JStr s) = (s \<noteq> [])"
| "js_truthy _ = True"

definition truthy :: "json option \<Rightarrow> bool" where
  "truthy v = (case v of None \<Rightarrow> False | Some j \<Rightarrow> js_truthy j)"

definition nullish :: "json option \<Rightarrow> bool" where
  "nullish v \<longleftrightarrow> v = None \<or> v = Some JNull"

definition strs_of :: "json option \<Rightarrow> string list" where
  "strs_of v = (case v of Some (JArr js) \<Rightarrow> List.map_filter (\<lambda>j. case j of JStr s \<Rightarrow> Some s | _ \<Rightarrow> None) js | _ \<Rightarrow> [])"

text \<open>\<open>String.prototype.includes\<close>.\<close>

fun js_includes :: "string \<Rightarrow> string \<Rightarrow> bool" where
  "js_includes [] sub = (sub = [])"
| "js_includes (c # s) sub = (take (length sub) (c # s) = sub \<or> js_includes s sub)"

lemma js_includes_iff: "js_includes s sub \<longleftrightarrow> (\<exists>a b. s = a @ sub @ b)"
proof (induction s)
  case (Cons c s)
  have "take (length sub) (c # s) = sub \<longleftrightarrow> (\<exists>b. c # s = sub @ b)"
    by (metis append_eq_conv_conj append_take_drop_id)
  then show ?case using Cons by (auto simp: Cons_eq_append_conv)
qed auto

lemma js_includes_append: "js_includes s sub \<Longrightarrow> js_includes (a @ s @ b) sub"
  unfolding js_includes_iff by (metis append.assoc)

definition alnum :: "char \<Rightarrow> bool" where
  "alnum c \<longleftrightarrow> (let n = (of_char c :: nat) in (48 \<le> n \<and> n \<le> 57) \<or> (65 \<le> n \<and> n \<le> 90) \<or> (97 \<le> n \<and> n \<le> 122))"

definition js_join :: "string \<Rightarrow> string list \<Rightarrow> string" where
  "js_join sep xs = (case xs of [] \<Rightarrow> [] | x # ys \<Rightarrow> x @ concat (map (\<lambda>y. sep @ y) ys))"

end
