(* ===== verification/Browser_Write.thy ===== *)
theory Browser_Write
  imports Safe_Write Json_Text Js_Values
begin

text \<open>
  The tokens of the browser's single save, \<^verbatim>\<open>packages/safe-write-contract/src/browser-write.ts\<close>:
  digests of what was shown and of what is changed, tokens issued under the active key, verified
  under any key still held, and the expiry of a first write. The texts that are hashed and signed
  are those of \<^theory_text>\<open>Json_Text\<close>; SHA-256, HMAC, instants and random bytes are parameters. \<open>None\<close>
  is a thrown error.
\<close>

section \<open>Bindings and digests\<close>

definition BROWSER_WRITE_VERSION :: string where
  "BROWSER_WRITE_VERSION = ''1.0.0''"

definition BROWSER_WRITE_PURPOSE :: string where
  "BROWSER_WRITE_PURPOSE = ''self-profile-field-write''"

definition BROWSER_WRITE_LIFETIME_MS :: int where
  "BROWSER_WRITE_LIFETIME_MS = 5 * 60 * 1000"

definition letter :: "char \<Rightarrow> bool" where
  "letter c \<longleftrightarrow> alnum c \<and> \<not> digit_char c"

definition code_ok :: "string \<Rightarrow> bool" where
  "code_ok s \<longleftrightarrow> (case s of [] \<Rightarrow> False | c # cs \<Rightarrow> letter c \<and> length cs \<le> 63 \<and> list_all (\<lambda>d. alnum d \<or> d \<in> set ''_.-'') cs)"

record browser_binding =
  bb_principal :: string
  bb_person :: string
  bb_field :: string
  bb_normalization :: string

record browser_unsigned = browser_binding +
  bt_version :: string
  bt_purpose :: string
  bt_key :: string
  bt_id :: string
  bt_ref :: string
  bt_baseline :: string
  bt_issued :: string
  bt_expires :: string

record browser_token = browser_unsigned +
  bt_mac :: string

datatype persisted = Persisted_null | Persisted json

record fallback =
  fb_source :: string
  fb_value_digest :: string
  fb_revision :: string

text \<open>No part that is digested or signed is a number.\<close>

definition parts_text :: "json list \<Rightarrow> string" where
  "parts_text parts = js_stringify (\<lambda>_. []) (JArr parts)"

definition digest :: "crypto \<Rightarrow> json list \<Rightarrow> string" where
  "digest cr parts = cr_sha256 cr (parts_text parts)"

definition bindingValid :: "'a browser_binding_scheme \<Rightarrow> bool" where
  "bindingValid b \<longleftrightarrow> reference_ok (bb_principal b) \<and> reference_ok (bb_person b) \<and> code_ok (bb_field b) \<and> code_ok (bb_normalization b)"

definition bindingParts :: "'a browser_binding_scheme \<Rightarrow> string list" where
  "bindingParts b = [bb_principal b, bb_person b, bb_field b, bb_normalization b]"

definition text_or_flag :: "json \<Rightarrow> bool" where
  "text_or_flag v = (case v of JStr _ \<Rightarrow> True | JBool _ \<Rightarrow> True | _ \<Rightarrow> False)"

definition fallback_valid :: "fallback \<Rightarrow> bool" where
  "fallback_valid f \<longleftrightarrow> reference_ok (fb_source f) \<and> reference_ok (fb_value_digest f) \<and> fb_revision f \<noteq> []"

definition baseline_parts :: "persisted \<Rightarrow> fallback option \<Rightarrow> json list" where
  "baseline_parts p f = [JStr BROWSER_WRITE_VERSION, JStr ''baseline'',
     JStr (case p of Persisted_null \<Rightarrow> ''null'' | Persisted _ \<Rightarrow> ''present''), case p of Persisted_null \<Rightarrow> JNull | Persisted v \<Rightarrow> v,
     case f of None \<Rightarrow> JNull | Some g \<Rightarrow> JArr [JStr (fb_source g), JStr (fb_value_digest g), JStr (fb_revision g)]]"

definition browserBaselineDigest :: "crypto \<Rightarrow> persisted \<Rightarrow> fallback option \<Rightarrow> string option" where
  "browserBaselineDigest cr p f =
     (if (case p of Persisted_null \<Rightarrow> False | Persisted v \<Rightarrow> \<not> text_or_flag v) then None
      else if (case f of None \<Rightarrow> False | Some g \<Rightarrow> \<not> fallback_valid g) then None
      else Some (digest cr (baseline_parts p f)))"

definition change_parts :: "'a browser_binding_scheme \<Rightarrow> json \<Rightarrow> json list" where
  "change_parts b v = [JStr BROWSER_WRITE_VERSION, JStr BROWSER_WRITE_PURPOSE, JStr ''change''] @ map JStr (bindingParts b) @ [v]"

definition browserChangeSetDigest :: "crypto \<Rightarrow> browser_binding \<Rightarrow> json \<Rightarrow> string option" where
  "browserChangeSetDigest cr b v =
     (if \<not> bindingValid b \<or> (v \<noteq> JNull \<and> \<not> text_or_flag v) then None else Some (digest cr (change_parts b v)))"

section \<open>Tokens\<close>

definition tokenParts :: "'a browser_unsigned_scheme \<Rightarrow> string list" where
  "tokenParts t = [bt_version t, bt_purpose t, bt_key t, bt_id t, bt_ref t] @ bindingParts t @ [bt_baseline t, bt_issued t, bt_expires t]"

definition token_text :: "'a browser_unsigned_scheme \<Rightarrow> string" where
  "token_text t = parts_text (map JStr (tokenParts t))"

definition signature :: "crypto \<Rightarrow> 'a browser_unsigned_scheme \<Rightarrow> string \<Rightarrow> string" where
  "signature cr t secret = cr_hmac cr secret (token_text t)"

definition tokenKeys :: "string list" where
  "tokenKeys = sort [''contractVersion'', ''purpose'', ''keyVersion'', ''tokenId'', ''tokenRef'', ''principalRef'', ''personRef'', ''field'',
     ''normalizationVersion'', ''baselineDigest'', ''issuedAt'', ''expiresAt'', ''mac'']"

definition validTime :: "crypto \<Rightarrow> string \<Rightarrow> bool" where
  "validTime cr v = (case cr_date_parse cr v of None \<Rightarrow> False | Some ms \<Rightarrow> cr_iso cr ms = v)"

definition mac_ok :: "string \<Rightarrow> bool" where
  "mac_ok s \<longleftrightarrow> length s = 43 \<and> list_all (\<lambda>c. alnum c \<or> c \<in> set ''_-'') s"

definition token_ref :: "crypto \<Rightarrow> string \<Rightarrow> string" where
  "token_ref cr i = digest cr [JStr BROWSER_WRITE_VERSION, JStr BROWSER_WRITE_PURPOSE, JStr ''token'', JStr i]"

definition member_text_of :: "(string, json) js_map \<Rightarrow> string \<Rightarrow> string" where
  "member_text_of m k = (case map_of m k of Some (JStr s) \<Rightarrow> s | _ \<Rightarrow> [])"

definition token_of :: "(string, json) js_map \<Rightarrow> browser_token" where
  "token_of m = (let s = member_text_of m in
     \<lparr>bb_principal = s ''principalRef'', bb_person = s ''personRef'', bb_field = s ''field'', bb_normalization = s ''normalizationVersion'',
      bt_version = s ''contractVersion'', bt_purpose = s ''purpose'', bt_key = s ''keyVersion'', bt_id = s ''tokenId'', bt_ref = s ''tokenRef'',
      bt_baseline = s ''baselineDigest'', bt_issued = s ''issuedAt'', bt_expires = s ''expiresAt'', bt_mac = s ''mac''\<rparr>)"

text \<open>The members hold the shape of a token once they are known to be strings.\<close>

definition lives :: "crypto \<Rightarrow> string \<Rightarrow> string \<Rightarrow> bool" where
  "lives cr issued expires = (case (cr_date_parse cr issued, cr_date_parse cr expires) of
     (Some a, Some b) \<Rightarrow> b - a = BROWSER_WRITE_LIFETIME_MS | _ \<Rightarrow> False)"

definition token_fields_ok :: "crypto \<Rightarrow> browser_token \<Rightarrow> bool" where
  "token_fields_ok cr t \<longleftrightarrow> bt_version t = BROWSER_WRITE_VERSION \<and> bt_purpose t = BROWSER_WRITE_PURPOSE \<and> code_ok (bt_key t) \<and> bindingValid t
     \<and> reference_ok (bt_id t) \<and> reference_ok (bt_ref t) \<and> reference_ok (bt_baseline t) \<and> mac_ok (bt_mac t)
     \<and> validTime cr (bt_issued t) \<and> validTime cr (bt_expires t) \<and> lives cr (bt_issued t) (bt_expires t)
     \<and> bt_ref t = token_ref cr (bt_id t)"

definition tokenShape :: "crypto \<Rightarrow> json \<Rightarrow> bool" where
  "tokenShape cr v = (case v of
     JObj m \<Rightarrow> sort (map fst m) = tokenKeys \<and> list_all (\<lambda>kv. case snd kv of JStr _ \<Rightarrow> True | _ \<Rightarrow> False) m \<and> token_fields_ok cr (token_of m)
   | _ \<Rightarrow> False)"

text \<open>Keys are bytes.\<close>

record browser_tokens =
  bs_keys :: "(string, string) js_map"
  bs_active :: string
  bs_active_key :: string

definition createBrowserWriteTokens :: "string \<Rightarrow> (string, string) js_map \<Rightarrow> browser_tokens option" where
  "createBrowserWriteTokens active keys =
     (if \<not> list_all (\<lambda>(version, secret). code_ok version \<and> 32 \<le> length secret) keys then None
      else case map_of keys active of None \<Rightarrow> None
      | Some k \<Rightarrow> Some \<lparr>bs_keys = keys, bs_active = active, bs_active_key = k\<rparr>)"

text \<open>\<open>now\<close> is \<open>now.getTime()\<close>, nothing where the date is invalid; an instant past the last one a date
  can hold has no text.\<close>

definition issue :: "crypto \<Rightarrow> browser_tokens \<Rightarrow> string \<Rightarrow> browser_binding \<Rightarrow> string \<Rightarrow> int option \<Rightarrow> browser_token option" where
  "issue cr bs fresh b baseline now =
     (case now of None \<Rightarrow> None | Some t \<Rightarrow>
      if \<not> bindingValid b \<or> \<not> reference_ok baseline then None
      else if js_date t = None \<or> js_date (t + BROWSER_WRITE_LIFETIME_MS) = None then None
      else let unsigned =
                 \<lparr>bb_principal = bb_principal b, bb_person = bb_person b, bb_field = bb_field b, bb_normalization = bb_normalization b,
                  bt_version = BROWSER_WRITE_VERSION, bt_purpose = BROWSER_WRITE_PURPOSE, bt_key = bs_active bs, bt_id = fresh,
                  bt_ref = token_ref cr fresh, bt_baseline = baseline, bt_issued = cr_iso cr t,
                  bt_expires = cr_iso cr (t + BROWSER_WRITE_LIFETIME_MS)\<rparr>
           in Some (browser_unsigned.extend unsigned \<lparr>bt_mac = signature cr unsigned (bs_active_key bs)\<rparr>))"

datatype token_refusal = Invalid_token | Recovery_unavailable

text \<open>\<open>timingSafeEqual\<close> throws on texts of different lengths.\<close>

definition verify :: "crypto \<Rightarrow> browser_tokens \<Rightarrow> json \<Rightarrow> browser_binding \<Rightarrow> (token_refusal + browser_token) option" where
  "verify cr bs v expected =
     (case v of JObj m \<Rightarrow>
        (let t = token_of m in
         if \<not> bindingValid expected \<or> \<not> tokenShape cr v \<or> bindingParts t \<noteq> bindingParts expected then Some (Inl Invalid_token)
         else case map_of (bs_keys bs) (bt_key t) of None \<Rightarrow> Some (Inl Recovery_unavailable)
         | Some key \<Rightarrow> if length (bt_mac t) \<noteq> length (signature cr t key) then None
             else if bt_mac t \<noteq> signature cr t key then Some (Inl Invalid_token)
             else Some (Inr t))
      | _ \<Rightarrow> Some (Inl Invalid_token))"

definition browserFirstWriteExpired :: "crypto \<Rightarrow> browser_token \<Rightarrow> int option \<Rightarrow> bool" where
  "browserFirstWriteExpired cr t now = (case now of None \<Rightarrow> True | Some n \<Rightarrow>
     (case cr_date_parse cr (bt_issued t) of None \<Rightarrow> False | Some a \<Rightarrow> n < a)
     \<or> (case cr_date_parse cr (bt_expires t) of None \<Rightarrow> False | Some b \<Rightarrow> b \<le> n))"

section \<open>Issuing and verifying\<close>

definition token_object :: "browser_token \<Rightarrow> json" where
  "token_object t = JObj (map (\<lambda>(k, s). (k, JStr s)) [(''contractVersion'', bt_version t), (''purpose'', bt_purpose t), (''keyVersion'', bt_key t),
     (''tokenId'', bt_id t), (''tokenRef'', bt_ref t), (''principalRef'', bb_principal t), (''personRef'', bb_person t), (''field'', bb_field t),
     (''normalizationVersion'', bb_normalization t), (''baselineDigest'', bt_baseline t), (''issuedAt'', bt_issued t),
     (''expiresAt'', bt_expires t), (''mac'', bt_mac t)])"

text \<open>What the parameters promise: digests are 64 hexadecimal digits, MACs 43 characters of base64url,
  and an instant reads back from its text.\<close>

definition documented :: "crypto \<Rightarrow> bool" where
  "documented cr \<longleftrightarrow> (\<forall>m. reference_ok (cr_sha256 cr m)) \<and> (\<forall>k m. mac_ok (cr_hmac cr k m))
     \<and> (\<forall>t. js_date t \<noteq> None \<longrightarrow> cr_date_parse cr (cr_iso cr t) = Some t)"

lemma tokenShape_object: "tokenShape cr (token_object t) = token_fields_ok cr t" "token_object t = JObj m \<Longrightarrow> token_of m = t"
proof -
  obtain m where m: "token_object t = JObj m" by (simp add: token_object_def)
  then have t: "token_of m = t"
    by (auto simp: token_object_def token_of_def member_text_of_def Let_def)
  have "sort (map fst m) = tokenKeys"
    using m by (auto simp: token_object_def tokenKeys_def)
  with m t show "tokenShape cr (token_object t) = token_fields_ok cr t" by (auto simp: tokenShape_def token_object_def)
  show "token_of m' = t" if "token_object t = JObj m'" for m' using that m t by simp
qed

lemma verify_object:
  "verify cr bs (token_object t) expected =
     (if \<not> bindingValid expected \<or> \<not> token_fields_ok cr t \<or> bindingParts t \<noteq> bindingParts expected then Some (Inl Invalid_token)
      else case map_of (bs_keys bs) (bt_key t) of None \<Rightarrow> Some (Inl Recovery_unavailable)
      | Some key \<Rightarrow> if length (bt_mac t) \<noteq> length (signature cr t key) then None
          else if bt_mac t \<noteq> signature cr t key then Some (Inl Invalid_token) else Some (Inr t))"
proof -
  obtain m where m: "token_object t = JObj m" by (simp add: token_object_def)
  then have "token_of m = t" by (rule tokenShape_object(2))
  moreover have "tokenShape cr (JObj m) = token_fields_ok cr t" using tokenShape_object(1) [of cr t] m by simp
  ultimately show ?thesis unfolding m verify_def by (simp only: json.case Let_def)
qed

lemma issued:
  assumes "issue cr bs fresh b baseline (Some now) = Some t" "documented cr" "reference_ok fresh" "code_ok (bs_active bs)"
  shows "token_fields_ok cr t" "bt_mac t = signature cr t (bs_active_key bs)" "bindingParts t = bindingParts b" "bindingValid b"
    "bt_key t = bs_active bs" "cr_date_parse cr (bt_issued t) = Some now" "cr_date_parse cr (bt_expires t) = Some (now + BROWSER_WRITE_LIFETIME_MS)"
proof -
  from assms(1) have ok: "bindingValid b" "reference_ok baseline" "js_date now \<noteq> None" "js_date (now + BROWSER_WRITE_LIFETIME_MS) \<noteq> None"
    by (auto simp: issue_def Let_def split: if_splits)
  with assms(1) obtain x where t: "t = \<lparr>bb_principal = bb_principal b, bb_person = bb_person b, bb_field = bb_field b,
      bb_normalization = bb_normalization b, bt_version = BROWSER_WRITE_VERSION, bt_purpose = BROWSER_WRITE_PURPOSE, bt_key = bs_active bs,
      bt_id = fresh, bt_ref = token_ref cr fresh, bt_baseline = baseline, bt_issued = cr_iso cr now,
      bt_expires = cr_iso cr (now + BROWSER_WRITE_LIFETIME_MS), bt_mac = x\<rparr>"
    and mac: "bt_mac t = signature cr t (bs_active_key bs)"
    by (simp add: issue_def Let_def signature_def token_text_def tokenParts_def bindingParts_def browser_unsigned.defs)
  have proj: "bindingParts t = bindingParts b" "bt_key t = bs_active bs" "bt_version t = BROWSER_WRITE_VERSION"
    "bt_purpose t = BROWSER_WRITE_PURPOSE" "bt_id t = fresh" "bt_ref t = token_ref cr fresh" "bt_baseline t = baseline"
    "bt_issued t = cr_iso cr now" "bt_expires t = cr_iso cr (now + BROWSER_WRITE_LIFETIME_MS)" "bindingValid t = bindingValid b"
    unfolding t by (simp_all add: bindingParts_def bindingValid_def)
  show "bindingParts t = bindingParts b" "bindingValid b" "bt_key t = bs_active bs" "bt_mac t = signature cr t (bs_active_key bs)"
    by (fact proj ok mac)+
  from assms(2) ok show dates: "cr_date_parse cr (bt_issued t) = Some now"
    "cr_date_parse cr (bt_expires t) = Some (now + BROWSER_WRITE_LIFETIME_MS)"
    by (simp_all add: proj documented_def)
  have "mac_ok (bt_mac t)" "reference_ok (bt_ref t)" using assms(2) mac by (simp_all add: proj signature_def token_ref_def digest_def documented_def)
  with ok proj dates assms(3,4) show "token_fields_ok cr t"
    by (simp add: token_fields_ok_def validTime_def lives_def)
qed

lemma active_code: "createBrowserWriteTokens active keys = Some bs \<Longrightarrow> code_ok (bs_active bs) \<and> map_of (bs_keys bs) (bs_active bs) = Some (bs_active_key bs)"
  by (fastforce simp: createBrowserWriteTokens_def list_all_iff split: if_splits option.splits dest: map_of_SomeD)

lemma same_parts: "bindingParts (b :: browser_binding) = bindingParts c \<Longrightarrow> b = c"
  by (cases b; cases c) (simp add: bindingParts_def)

text \<open>C15. A token that was issued is verified, for its own binding only, under every set of keys that still
  holds the one it was signed with, whichever is active there; without that key the answer is that
  recovery is unavailable, and the token is never taken for invalid. Its first write is open for exactly the
  five minutes from its issue.\<close>

theorem browser_token_round_trip:
  assumes "createBrowserWriteTokens active keys = Some bs" and "issue cr bs fresh b baseline (Some now) = Some t"
    and "documented cr" and "reference_ok fresh"
  shows "(\<forall>bs'. map_of (bs_keys bs') active = Some (bs_active_key bs) \<longrightarrow> verify cr bs' (token_object t) b = Some (Inr t))
    \<and> (\<forall>bs'. map_of (bs_keys bs') active = None \<longrightarrow> verify cr bs' (token_object t) b = Some (Inl Recovery_unavailable))
    \<and> (\<forall>bs' c. c \<noteq> b \<longrightarrow> verify cr bs' (token_object t) c = Some (Inl Invalid_token))
    \<and> (\<forall>n. browserFirstWriteExpired cr t (Some n) \<longleftrightarrow> \<not> (now \<le> n \<and> n < now + 5 * 60 * 1000))"
proof -
  have "bs_active bs = active" using assms(1) by (auto simp: createBrowserWriteTokens_def split: if_splits option.splits)
  with issued [OF assms(2,3,4)] active_code [OF assms(1)] show ?thesis
    by (auto simp: verify_object browserFirstWriteExpired_def BROWSER_WRITE_LIFETIME_MS_def dest: same_parts)
qed

definition demo_dates :: crypto where
  "demo_dates = \<lparr>cr_sha256 = (\<lambda>_. replicate 64 (CHR ''a'')), cr_hmac = (\<lambda>_ _. replicate 43 (CHR ''A'')), cr_json = (\<lambda>_. []),
     cr_iso = show_int,
     cr_date_parse = (\<lambda>s. Some (case s of c # d \<Rightarrow> if c = CHR ''-'' then - int (read_nat d) else int (read_nat s) | [] \<Rightarrow> 0))\<rparr>"

definition demo_binding :: browser_binding where
  "demo_binding = \<lparr>bb_principal = replicate 64 (CHR ''b''), bb_person = replicate 64 (CHR ''c''), bb_field = ''pronouns'',
     bb_normalization = ''v1''\<rparr>"

definition demo_signer :: browser_tokens where
  "demo_signer = \<lparr>bs_keys = [(''k1'', replicate 32 (CHR ''s''))], bs_active = ''k1'', bs_active_key = replicate 32 (CHR ''s'')\<rparr>"

lemma show_nat_minus: "hd (show_nat n) \<noteq> CHR ''-''"
  using show_nat_digits [of n] by (cases "show_nat n") (auto simp: digit_char_def)

lemma demo_dates_documented: "documented demo_dates"
proof -
  have "cr_date_parse demo_dates (show_int t) = Some t" for t
  proof (cases "t < 0")
    case False
    then obtain c d where "show_nat (nat t) = c # d" by (cases "show_nat (nat t)") auto
    then show ?thesis
      using False show_nat_minus [of "nat t"] read_show_nat [of "nat t"] by (simp add: demo_dates_def show_int_def)
  qed (simp add: demo_dates_def show_int_def)
  then show ?thesis
    by (simp add: documented_def) (simp add: demo_dates_def reference_ok_def mac_ok_def list_all_iff hex_char_def alnum_def)
qed

lemma demo_facts: "createBrowserWriteTokens ''k1'' [(''k1'', replicate 32 (CHR ''s''))] = Some demo_signer"
  "bindingValid demo_binding" "reference_ok (replicate 64 (CHR ''d''))"
  by (simp_all add: createBrowserWriteTokens_def demo_signer_def code_ok_def letter_def alnum_def digit_char_def bindingValid_def
      demo_binding_def reference_ok_def hex_char_def list_all_iff)

theorem browser_token_round_trip_witness:
  "\<exists>t. issue demo_dates demo_signer (replicate 64 (CHR ''d'')) demo_binding (replicate 64 (CHR ''d'')) (Some 0) = Some t
     \<and> verify demo_dates demo_signer (token_object t) demo_binding = Some (Inr t)
     \<and> \<not> browserFirstWriteExpired demo_dates t (Some 299999) \<and> browserFirstWriteExpired demo_dates t (Some 300000)"
proof -
  obtain t where t: "issue demo_dates demo_signer (replicate 64 (CHR ''d'')) demo_binding (replicate 64 (CHR ''d'')) (Some 0) = Some t"
    using demo_facts(2,3) by (simp add: issue_def js_date_def BROWSER_WRITE_LIFETIME_MS_def Let_def)
  have "map_of (bs_keys demo_signer) ''k1'' = Some (bs_active_key demo_signer)" by (simp add: demo_signer_def)
  with t browser_token_round_trip [OF demo_facts(1) t demo_dates_documented demo_facts(3)] show ?thesis by simp
qed

section \<open>What digests and signatures bind\<close>

lemma parts_text_inj: "list_all numberless p \<Longrightarrow> list_all numberless q \<Longrightarrow> parts_text p = parts_text q \<longleftrightarrow> p = q"
  using stringify_inj [of "JArr p" "JArr q" "\<lambda>_. []"] by (simp add: parts_text_def)

lemma strings_numberless [simp]: "list_all numberless (map JStr xs)"
  by (simp add: list_all_iff)

lemma text_or_flag_numberless [simp]: "text_or_flag v \<Longrightarrow> numberless v"
  by (cases v) (simp_all add: text_or_flag_def)

lemma map_JStr_inj [simp]: "map JStr xs = map JStr ys \<longleftrightarrow> xs = ys"
  by (simp add: inj_map_eq_map inj_on_def)

lemma same_token_text: "token_text t = token_text u \<longleftrightarrow> tokenParts t = tokenParts u"
  by (simp add: token_text_def parts_text_inj)

lemma same_token: "tokenParts (t :: browser_token) = tokenParts u \<Longrightarrow> bt_mac t = bt_mac u \<Longrightarrow> t = u"
  by (cases t; cases u) (simp add: tokenParts_def bindingParts_def)

lemma verified: "verify cr bs v b = Some (Inr t) \<Longrightarrow>
    \<exists>key. map_of (bs_keys bs) (bt_key t) = Some key \<and> bt_mac t = signature cr t key \<and> bindingParts t = bindingParts b
      \<and> token_fields_ok cr t \<and> (\<exists>m. v = JObj m \<and> t = token_of m)"
  by (auto simp: verify_def tokenShape_def Let_def split: json.splits if_splits option.splits)

text \<open>C14. A token cannot be altered: where no other text has the MAC of an issued token under any key, whatever
  is accepted with that MAC, under any set of keys and for any binding, is that token, for its own
  binding: changing its key version, field, normalization, baseline, times or anything else is refused.\<close>

theorem browser_token_tamper_evident:
  assumes "issue cr bs fresh b baseline now = Some t"
    and "\<forall>k m. cr_hmac cr k m = bt_mac t \<longrightarrow> m = token_text t"
    and "verify cr bs' v c = Some (Inr u)" and "bt_mac u = bt_mac t"
  shows "u = t \<and> c = b"
proof -
  from verified [OF assms(3)] obtain key where "bt_mac u = signature cr u key" and c: "bindingParts u = bindingParts c" by blast
  with assms(2,4) have "token_text u = token_text t" by (metis signature_def)
  with assms(4) have u: "u = t" by (simp add: same_token_text same_token)
  have "bindingParts t = bindingParts b"
    using assms(1) by (auto simp: issue_def Let_def bindingParts_def browser_unsigned.defs split: option.splits if_splits)
  with u c show ?thesis by (simp add: same_parts)
qed

text \<open>Digests separate what they digest: where SHA-256 does not collide, two change sets that are digested
  have one digest exactly when binding and value are the same, and two baselines exactly when the stored
  value and the fallback shown are the same; so a stored null, an empty text and a fallback are all told apart.\<close>

theorem browser_digests_separate:
  assumes "inj (cr_sha256 cr)"
  shows "(browserChangeSetDigest cr b v = Some d \<and> browserChangeSetDigest cr c w = Some e \<longrightarrow> (d = e \<longleftrightarrow> b = c \<and> v = w))
    \<and> (browserBaselineDigest cr p f = Some d \<and> browserBaselineDigest cr q g = Some e \<longrightarrow> (d = e \<longleftrightarrow> p = q \<and> f = g))"
proof (intro conjI impI)
  have sha: "digest cr x = digest cr y \<longleftrightarrow> x = y" if "list_all numberless x" "list_all numberless y" for x y
    using that inj_eq [OF assms] by (simp add: digest_def parts_text_inj)
  {
    assume a: "browserChangeSetDigest cr b v = Some d \<and> browserChangeSetDigest cr c w = Some e"
    then have "d = digest cr (change_parts b v)" "e = digest cr (change_parts c w)" "numberless v" "numberless w"
      by (auto simp: browserChangeSetDigest_def split: if_splits)
    then show "d = e \<longleftrightarrow> b = c \<and> v = w"
      by (auto simp: sha change_parts_def dest: same_parts)
  next
    assume a: "browserBaselineDigest cr p f = Some d \<and> browserBaselineDigest cr q g = Some e"
    then have "d = digest cr (baseline_parts p f)" "e = digest cr (baseline_parts q g)"
      "list_all numberless (baseline_parts p f)" "list_all numberless (baseline_parts q g)"
      by (auto simp: browserBaselineDigest_def baseline_parts_def split: if_splits persisted.splits option.splits)
    then show "d = e \<longleftrightarrow> p = q \<and> f = g"
      by (auto simp: sha baseline_parts_def split: persisted.splits option.splits)
  }
qed

theorem browser_digests_separate_witness:
  "\<exists>d e. browserBaselineDigest (demo_dates\<lparr>cr_sha256 := \<lambda>m. m\<rparr>) Persisted_null None = Some d
     \<and> browserBaselineDigest (demo_dates\<lparr>cr_sha256 := \<lambda>m. m\<rparr>) (Persisted (JStr [])) None = Some e \<and> d \<noteq> e"
proof -
  let ?cr = "demo_dates\<lparr>cr_sha256 := \<lambda>m. m\<rparr>"
  obtain d where d: "browserBaselineDigest ?cr Persisted_null None = Some d" by (simp add: browserBaselineDigest_def)
  obtain e where e: "browserBaselineDigest ?cr (Persisted (JStr [])) None = Some e"
    by (simp add: browserBaselineDigest_def text_or_flag_def)
  have "inj (cr_sha256 ?cr)" by simp
  from browser_digests_separate [OF this, where p = Persisted_null and q = "Persisted (JStr [])" and f = None and g = None and d = d and e = e] d e
  show ?thesis by auto
qed

definition demo_issue :: "crypto \<Rightarrow> browser_token option" where
  "demo_issue cr = issue cr demo_signer (replicate 64 (CHR ''d'')) demo_binding (replicate 64 (CHR ''d'')) (Some 0)"

definition demo_hmac :: crypto where
  "demo_hmac = demo_dates\<lparr>cr_hmac := \<lambda>k m. replicate 43 (if m = token_text (the (demo_issue demo_dates)) then CHR ''A'' else CHR ''B'')\<rparr>"

lemma demo_hmac_issue: "demo_issue demo_hmac = Some (the (demo_issue demo_dates))" "bt_mac (the (demo_issue demo_dates)) = replicate 43 (CHR ''A'')"
proof -
  obtain t where t: "demo_issue demo_dates = Some t"
    using demo_facts(2,3) by (simp add: demo_issue_def issue_def js_date_def BROWSER_WRITE_LIFETIME_MS_def Let_def)
  then have "demo_issue demo_hmac = Some t"
    by (auto simp: demo_issue_def issue_def Let_def signature_def demo_hmac_def token_text_def tokenParts_def bindingParts_def token_ref_def digest_def
        browser_unsigned.defs demo_dates_def split: if_splits)
  with t show "demo_issue demo_hmac = Some (the (demo_issue demo_dates))" by simp
  from t show "bt_mac (the (demo_issue demo_dates)) = replicate 43 (CHR ''A'')"
    by (auto simp: demo_issue_def issue_def Let_def signature_def demo_dates_def browser_unsigned.defs split: if_splits)
qed

theorem browser_token_tamper_evident_witness:
  "\<exists>t. demo_issue demo_hmac = Some t
     \<and> (\<nexists>u. verify demo_hmac demo_signer (token_object (t\<lparr>bt_baseline := replicate 64 (CHR ''e'')\<rparr>)) demo_binding = Some (Inr u))"
proof -
  let ?t = "the (demo_issue demo_dates)" and ?a = "replicate 64 (CHR ''e'')"
  let ?u = "?t\<lparr>bt_baseline := ?a\<rparr>"
  have "replicate 43 (CHR ''B'') \<noteq> replicate 43 (CHR ''A'')" by simp
  then have only: "\<forall>k m. cr_hmac demo_hmac k m = bt_mac ?t \<longrightarrow> m = token_text ?t"
    by (simp add: demo_hmac_def demo_hmac_issue(2))
  have base: "bt_baseline ?t = replicate 64 (CHR ''d'')"
    using demo_hmac_issue(1) by (auto simp: demo_issue_def issue_def Let_def browser_unsigned.defs split: if_splits)
  have False if u: "verify demo_hmac demo_signer (token_object ?u) demo_binding = Some (Inr u)" for u
  proof -
    from u have e: "u = ?u" by (auto simp: verify_object split: if_splits option.splits)
    then have "bt_mac u = bt_mac ?t" by simp
    from browser_token_tamper_evident [OF demo_hmac_issue(1) [unfolded demo_issue_def [of demo_hmac]] only u this] e
    have "bt_baseline ?u = bt_baseline ?t" by simp
    then show False using base by simp
  qed
  then show ?thesis using demo_hmac_issue(1) by blast
qed

end
