(* ===== verification/Launch_Vocabulary.thy ===== *)
theory Launch_Vocabulary
  imports Js_Values
begin

text \<open>
  The coordinator's launch vocabulary, \<^verbatim>\<open>.github/coordinator/launch-vocabulary.mjs\<close>: roles,
  runtimes, the lane table, and the one resolver that decides the role of a launch receipt. Roles,
  runtimes and lanes are the source's strings. The lane table has no prototype; the runtime tables
  are plain objects, so a member name of \<open>Object.prototype\<close> finds the inherited value there,
  which \<open>own\<close> keeps apart from the table's own entries.
\<close>

section \<open>Plain-object lookups\<close>

definition object_prototype :: "string list" where
  "object_prototype = [''constructor'', ''__defineGetter__'', ''__defineSetter__'', ''hasOwnProperty'', ''__lookupGetter__'',
     ''__lookupSetter__'', ''isPrototypeOf'', ''propertyIsEnumerable'', ''toString'', ''valueOf'', ''__proto__'', ''toLocaleString'']"

datatype 'a member = Own 'a | Inherited | Missing

definition member_of :: "(string, 'a) js_map \<Rightarrow> string \<Rightarrow> 'a member" where
  "member_of m k = (case map_of m k of Some v \<Rightarrow> Own v | None \<Rightarrow> if k \<in> set object_prototype then Inherited else Missing)"

lemma member_of_simps: "member_of m k = Own v \<longleftrightarrow> map_of m k = Some v"
  "member_of m k = Missing \<longleftrightarrow> map_of m k = None \<and> k \<notin> set object_prototype"
  by (auto simp: member_of_def split: option.splits)

section \<open>Roles and runtimes\<close>

definition ROLE_BUILD :: string where "ROLE_BUILD = ''build''"
definition ROLE_REVIEW :: string where "ROLE_REVIEW = ''review''"
definition ROLE_REVISE :: string where "ROLE_REVISE = ''revise''"

definition LAUNCH_ROLES :: "string list" where
  "LAUNCH_ROLES = [ROLE_BUILD, ROLE_REVIEW, ROLE_REVISE]"

definition WRITER_ROLES :: "string list" where
  "WRITER_ROLES = [ROLE_BUILD, ROLE_REVISE]"

definition isRole :: "json \<Rightarrow> bool" where
  "isRole v \<longleftrightarrow> v \<in> JStr ` set LAUNCH_ROLES"

definition isWriterRole :: "string \<Rightarrow> bool" where
  "isWriterRole r \<longleftrightarrow> r \<in> set WRITER_ROLES"

definition RUNTIMES :: "string list" where
  "RUNTIMES = [''codex-cli'', ''claude-code'', ''hermes-pool'']"

definition isRuntime :: "json \<Rightarrow> bool" where
  "isRuntime v \<longleftrightarrow> v \<in> JStr ` set RUNTIMES"

definition RUNTIME_ROLE_SUPPORT :: "(string, string list) js_map" where
  "RUNTIME_ROLE_SUPPORT = [(''codex-cli'', [ROLE_BUILD, ROLE_REVISE, ROLE_REVIEW]),
     (''claude-code'', [ROLE_REVIEW, ROLE_BUILD, ROLE_REVISE]), (''hermes-pool'', [ROLE_BUILD, ROLE_REVISE, ROLE_REVIEW])]"

text \<open>An inherited member has no \<open>includes\<close>: the call throws, \<open>None\<close>.\<close>

definition runtimeSupportsRole :: "string \<Rightarrow> string \<Rightarrow> bool option" where
  "runtimeSupportsRole runtime role = (case member_of RUNTIME_ROLE_SUPPORT runtime of
     Own roles \<Rightarrow> Some (role \<in> set roles) | Inherited \<Rightarrow> None | Missing \<Rightarrow> Some False)"

definition RUNTIME_ADAPTER :: "(string, string) js_map" where
  "RUNTIME_ADAPTER = [(''codex-cli'', ''codex-cli''), (''claude-code'', ''claude-code''), (''hermes-pool'', ''hermes-pool'')]"

definition adapterForRuntime :: "string \<Rightarrow> string member" where
  "adapterForRuntime runtime = member_of RUNTIME_ADAPTER runtime"

definition RUNTIME_FAMILY :: "(string, string) js_map" where
  "RUNTIME_FAMILY = [(''codex-cli'', ''codex''), (''claude-code'', ''claude''), (''hermes-pool'', ''hermes'')]"

definition runtimeFamily :: "string \<Rightarrow> string member" where
  "runtimeFamily runtime = member_of RUNTIME_FAMILY runtime"

section \<open>Lanes\<close>

record lane =
  ln_runtime :: string
  ln_role :: string
  ln_roles :: "string list"
  ln_family :: "string option"

definition laneDefinition :: "string \<Rightarrow> string \<Rightarrow> string list \<Rightarrow> lane" where
  "laneDefinition runtime role roles =
     \<lparr>ln_runtime = runtime, ln_role = role, ln_roles = roles, ln_family = map_of RUNTIME_FAMILY runtime\<rparr>"

definition LANES :: "(string, lane) js_map" where
  "LANES = [(''codex-builder'', laneDefinition ''codex-cli'' ROLE_BUILD [ROLE_BUILD, ROLE_REVISE]),
     (''claude-verifier'', laneDefinition ''claude-code'' ROLE_REVIEW [ROLE_REVIEW]),
     (''hermes-box'', laneDefinition ''hermes-pool'' ROLE_BUILD [ROLE_BUILD, ROLE_REVISE]),
     (''codex-verifier'', laneDefinition ''codex-cli'' ROLE_REVIEW [ROLE_REVIEW]),
     (''claude-builder'', laneDefinition ''claude-code'' ROLE_BUILD [ROLE_BUILD, ROLE_REVISE]),
     (''hermes-verifier'', laneDefinition ''hermes-pool'' ROLE_REVIEW [ROLE_REVIEW])]"

definition LANE_NAMES :: "string list" where
  "LANE_NAMES = map fst LANES"

definition laneDefinitionFor :: "string \<Rightarrow> lane option" where
  "laneDefinitionFor name = map_of LANES name"

definition roleForLane :: "string \<Rightarrow> string option" where
  "roleForLane name = map_option ln_role (map_of LANES name)"

definition runtimeForLane :: "string \<Rightarrow> string option" where
  "runtimeForLane name = map_option ln_runtime (map_of LANES name)"

definition familyForLane :: "string \<Rightarrow> string option" where
  "familyForLane name = Option.bind (map_of LANES name) ln_family"

definition laneSupportsRole :: "string \<Rightarrow> string \<Rightarrow> bool" where
  "laneSupportsRole name role = (case map_of LANES name of None \<Rightarrow> False | Some l \<Rightarrow> role \<in> set (ln_roles l))"

definition adapterForLane :: "string \<Rightarrow> string option" where
  "adapterForLane name = (case map_of LANES name of None \<Rightarrow> None | Some l \<Rightarrow> map_of RUNTIME_ADAPTER (ln_runtime l))"

text \<open>\<open>None\<close>: throws.\<close>

definition adapterNameForLane :: "string \<Rightarrow> string option" where
  "adapterNameForLane name = adapterForLane name"

definition laneNamesForRuntime :: "string \<Rightarrow> string list" where
  "laneNamesForRuntime runtime = filter (\<lambda>name. runtimeForLane name = Some runtime) LANE_NAMES"

definition laneForRuntimeRole :: "string \<Rightarrow> string \<Rightarrow> string option" where
  "laneForRuntimeRole runtime role =
     (let wanted = (if role = ROLE_REVISE then ROLE_BUILD else role)
      in find (\<lambda>name. runtimeForLane name = Some runtime \<and> roleForLane name = Some wanted) LANE_NAMES)"

definition LEGACY_DEFAULT_ROLE :: "(string, string) js_map" where
  "LEGACY_DEFAULT_ROLE = [(''codex-cli'', ROLE_BUILD), (''claude-code'', ROLE_REVIEW), (''hermes-pool'', ROLE_BUILD)]"

text \<open>No lane has an inherited value as its role, so an inherited default finds none.\<close>

definition workerForRuntime :: "string \<Rightarrow> string option" where
  "workerForRuntime runtime = (case member_of LEGACY_DEFAULT_ROLE runtime of
     Own role \<Rightarrow> laneForRuntimeRole runtime role | Inherited \<Rightarrow> None | Missing \<Rightarrow> None)"

definition LEGACY_LANE_NAMES :: "string list" where
  "LEGACY_LANE_NAMES = List.map_filter workerForRuntime RUNTIMES"

definition lanes_where :: "(lane \<Rightarrow> bool) \<Rightarrow> string list" where
  "lanes_where P = filter (\<lambda>name. case map_of LANES name of None \<Rightarrow> False | Some l \<Rightarrow> P l) LANE_NAMES"

definition REVIEW_LANES :: "string list" where
  "REVIEW_LANES = lanes_where (\<lambda>l. runtimeSupportsRole (ln_runtime l) ROLE_REVIEW = Some True)"

definition WRITER_LANES :: "string list" where
  "WRITER_LANES = lanes_where (\<lambda>l. isWriterRole (ln_role l))"

definition REVIEW_ROLE_LANES :: "string list" where
  "REVIEW_ROLE_LANES = lanes_where (\<lambda>l. ln_role l = ROLE_REVIEW)"

definition LAUNCHABLE_RUNTIMES :: "string list" where
  "LAUNCHABLE_RUNTIMES = [''codex-cli'', ''claude-code'']"

definition launchable :: "string \<Rightarrow> bool" where
  "launchable name = (case runtimeForLane name of None \<Rightarrow> False | Some r \<Rightarrow> r \<in> set LAUNCHABLE_RUNTIMES)"

definition ACTIVATION_WRITER_LANES :: "string list" where
  "ACTIVATION_WRITER_LANES = filter launchable WRITER_LANES"

definition ACTIVATION_REVIEWER_LANES :: "string list" where
  "ACTIVATION_REVIEWER_LANES = filter launchable REVIEW_LANES"

section \<open>The role of a receipt\<close>

definition RECEIPT_VERSION_LEGACY :: string where "RECEIPT_VERSION_LEGACY = ''1.0.0''"
definition RECEIPT_VERSION_ROLE_AUTHORITY :: string where "RECEIPT_VERSION_ROLE_AUTHORITY = ''1.1.0''"

definition isReceiptVersion :: "json \<Rightarrow> bool" where
  "isReceiptVersion v \<longleftrightarrow> v \<in> JStr ` set [RECEIPT_VERSION_LEGACY, RECEIPT_VERSION_ROLE_AUTHORITY]"

text \<open>A receipt as the resolver reads it: \<open>None\<close> is an absent member, so \<open>Some JNull\<close> is declared but null.\<close>

record launch_receipt =
  lr_worker :: string
  lr_version :: "json option"
  lr_role :: "json option"
  lr_runtime :: "json option"

datatype role_source = Lane | Authority

datatype role_refusal = No_receipt | Unknown_lane | Reversal_needs_authority | Legacy_declares_role | Unsupported_version
  | Missing_authority | Unknown_role | Unknown_runtime | Role_disagrees | Runtime_disagrees

definition refusal_conflict :: "role_refusal \<Rightarrow> bool" where
  "refusal_conflict r \<longleftrightarrow> r = Role_disagrees \<or> r = Runtime_disagrees"

definition resolveReceiptRoleAuthority :: "launch_receipt option \<Rightarrow> role_refusal + (string \<times> string \<times> role_source)" where
  "resolveReceiptRoleAuthority receipt = (case receipt of None \<Rightarrow> Inl No_receipt | Some r \<Rightarrow>
     (case map_of LANES (lr_worker r) of None \<Rightarrow> Inl Unknown_lane | Some l \<Rightarrow>
       let version = (if nullish (lr_version r) then JStr RECEIPT_VERSION_LEGACY else the (lr_version r))
       in if version = JStr RECEIPT_VERSION_LEGACY then
            (if lr_worker r \<notin> set LEGACY_LANE_NAMES then Inl Reversal_needs_authority
             else if lr_role r \<noteq> None \<or> lr_runtime r \<noteq> None then Inl Legacy_declares_role
             else Inr (ln_role l, ln_runtime l, Lane))
          else if version \<noteq> JStr RECEIPT_VERSION_ROLE_AUTHORITY then Inl Unsupported_version
          else if nullish (lr_role r) \<or> nullish (lr_runtime r) then Inl Missing_authority
          else (case (the (lr_role r), the (lr_runtime r)) of (role, runtime) \<Rightarrow>
            if \<not> isRole role then Inl Unknown_role
            else if \<not> isRuntime runtime then Inl Unknown_runtime
            else if role \<notin> JStr ` set (ln_roles l) then Inl Role_disagrees
            else if runtime \<noteq> JStr (ln_runtime l) then Inl Runtime_disagrees
            else (case (role, runtime) of (JStr ro, JStr ru) \<Rightarrow> Inr (ro, ru, Authority) | _ \<Rightarrow> Inl Unknown_role))))"

definition roleForReceipt :: "launch_receipt option \<Rightarrow> string option" where
  "roleForReceipt receipt = (case resolveReceiptRoleAuthority receipt of Inl _ \<Rightarrow> None | Inr (role, _, _) \<Rightarrow> Some role)"

definition defaultScopePhaseForRole :: "string \<Rightarrow> string" where
  "defaultScopePhaseForRole role = (if role = ROLE_REVIEW then ''review'' else ''initial'')"

lemmas launch_tables = ROLE_BUILD_def ROLE_REVIEW_def ROLE_REVISE_def LAUNCH_ROLES_def WRITER_ROLES_def RUNTIMES_def
  RUNTIME_ROLE_SUPPORT_def RUNTIME_ADAPTER_def RUNTIME_FAMILY_def laneDefinition_def LANES_def LANE_NAMES_def LEGACY_DEFAULT_ROLE_def

section \<open>Properties\<close>

lemma legacy_lanes: "LEGACY_LANE_NAMES = [''codex-builder'', ''claude-verifier'', ''hermes-box'']"
  by code_simp

lemma lane_rows: "map_of LANES name = Some l \<Longrightarrow>
    name \<in> set LANE_NAMES \<and> ln_role l \<in> set (ln_roles l) \<and> set (ln_roles l) \<subseteq> set LAUNCH_ROLES \<and> ln_runtime l \<in> set RUNTIMES"
  by (auto simp: launch_tables split: if_splits)

text \<open>The launch vocabulary is complete and closed: every runtime can be launched in every role,
  by a lane of that runtime that may execute that role, of the family of the runtime and with an
  adapter; and every lane's roles, runtime, family and adapter come from the vocabulary.\<close>

theorem vocabulary_closed:
  "(\<forall>runtime \<in> set RUNTIMES. \<forall>role \<in> set LAUNCH_ROLES. \<exists>name.
      laneForRuntimeRole runtime role = Some name \<and> runtimeForLane name = Some runtime \<and> laneSupportsRole name role
      \<and> runtimeSupportsRole runtime role = Some True \<and> familyForLane name = map_of RUNTIME_FAMILY runtime
      \<and> adapterNameForLane name = map_of RUNTIME_ADAPTER runtime \<and> adapterNameForLane name \<noteq> None)
   \<and> (\<forall>name role. laneSupportsRole name role \<longrightarrow>
      (\<exists>runtime. runtimeForLane name = Some runtime \<and> runtimeSupportsRole runtime role = Some True \<and> role \<in> set LAUNCH_ROLES))"
proof (intro conjI)
  show "\<forall>runtime \<in> set RUNTIMES. \<forall>role \<in> set LAUNCH_ROLES. \<exists>name.
      laneForRuntimeRole runtime role = Some name \<and> runtimeForLane name = Some runtime \<and> laneSupportsRole name role
      \<and> runtimeSupportsRole runtime role = Some True \<and> familyForLane name = map_of RUNTIME_FAMILY runtime
      \<and> adapterNameForLane name = map_of RUNTIME_ADAPTER runtime \<and> adapterNameForLane name \<noteq> None"
    by (simp add: launch_tables laneForRuntimeRole_def runtimeForLane_def roleForLane_def laneSupportsRole_def runtimeSupportsRole_def
        familyForLane_def adapterNameForLane_def adapterForLane_def member_of_def)
  show "\<forall>name role. laneSupportsRole name role \<longrightarrow>
      (\<exists>runtime. runtimeForLane name = Some runtime \<and> runtimeSupportsRole runtime role = Some True \<and> role \<in> set LAUNCH_ROLES)"
    by (auto simp: launch_tables runtimeForLane_def laneSupportsRole_def runtimeSupportsRole_def member_of_def split: if_splits)
qed

theorem vocabulary_closed_witness:
  "\<exists>name. laneForRuntimeRole ''hermes-pool'' ''revise'' = Some name \<and> laneSupportsRole name ''revise''"
proof -
  have "''hermes-pool'' \<in> set RUNTIMES" "''revise'' \<in> set LAUNCH_ROLES" by (simp_all add: launch_tables)
  with vocabulary_closed show ?thesis by blast
qed

text \<open>A receipt is only ever given a role its lane may execute, on the runtime of its lane.
  Under the role-authority version that is the role and runtime the receipt itself declares;
  under the legacy version, or none, it is the lane's own role, the lane is one of the three legacy
  lanes and the receipt declares neither. So a declared role is never overridden by the lane name.\<close>

theorem receipt_role_is_authorized:
  assumes "resolveReceiptRoleAuthority (Some r) = Inr (role, runtime, source)"
  shows "laneSupportsRole (lr_worker r) role \<and> runtimeForLane (lr_worker r) = Some runtime
    \<and> role \<in> set LAUNCH_ROLES \<and> runtime \<in> set RUNTIMES
    \<and> (case source of
         Authority \<Rightarrow> lr_version r = Some (JStr RECEIPT_VERSION_ROLE_AUTHORITY) \<and> lr_role r = Some (JStr role) \<and> lr_runtime r = Some (JStr runtime)
       | Lane \<Rightarrow> lr_version r \<in> {None, Some JNull, Some (JStr RECEIPT_VERSION_LEGACY)} \<and> lr_role r = None \<and> lr_runtime r = None
           \<and> roleForLane (lr_worker r) = Some role \<and> lr_worker r \<in> {''codex-builder'', ''claude-verifier'', ''hermes-box''})"
proof -
  from assms obtain l where l: "map_of LANES (lr_worker r) = Some l"
    unfolding resolveReceiptRoleAuthority_def by (auto split: option.splits)
  note row = lane_rows [OF l]
  show ?thesis
  proof (cases source)
    case Lane
    with assms l have "lr_version r \<in> {None, Some JNull, Some (JStr RECEIPT_VERSION_LEGACY)}" "lr_role r = None" "lr_runtime r = None"
      "role = ln_role l" "runtime = ln_runtime l" "lr_worker r \<in> set LEGACY_LANE_NAMES"
      unfolding resolveReceiptRoleAuthority_def Let_def
      by (auto simp: nullish_def split: if_splits json.splits)
    with l row show ?thesis unfolding Lane
      by (auto simp: laneSupportsRole_def runtimeForLane_def roleForLane_def legacy_lanes)
  next
    case Authority
    with assms l have "lr_version r = Some (JStr RECEIPT_VERSION_ROLE_AUTHORITY)" "lr_role r = Some (JStr role)" "lr_runtime r = Some (JStr runtime)"
      "role \<in> set (ln_roles l)" "runtime = ln_runtime l"
      unfolding resolveReceiptRoleAuthority_def Let_def
      by (auto simp: nullish_def split: if_splits json.splits)
    with l row show ?thesis unfolding Authority
      by (auto simp: laneSupportsRole_def runtimeForLane_def)
  qed
qed

theorem receipt_role_is_authorized_witness:
  "laneSupportsRole ''codex-builder'' ''revise'' \<and> runtimeForLane ''codex-builder'' = Some ''codex-cli''"
proof -
  have "resolveReceiptRoleAuthority (Some \<lparr>lr_worker = ''codex-builder'', lr_version = Some (JStr ''1.1.0''),
      lr_role = Some (JStr ''revise''), lr_runtime = Some (JStr ''codex-cli'')\<rparr>) = Inr (''revise'', ''codex-cli'', Authority)"
    by (simp add: resolveReceiptRoleAuthority_def launch_tables nullish_def isRole_def isRuntime_def
        RECEIPT_VERSION_LEGACY_def RECEIPT_VERSION_ROLE_AUTHORITY_def)
  from receipt_role_is_authorized [OF this] show ?thesis by simp
qed

end
