(* ===== verification/Capacity.thy ===== *)
theory Capacity
  imports Launch_Vocabulary "HOL-Library.Sublist"
begin

declare map_of_eq_Some_iff [simp del] Some_eq_map_of_iff [simp del]

text \<open>
  The coordinator's capacity scheduler, \<^verbatim>\<open>.github/coordinator/capacity-scheduler.mjs\<close>: a
  durable ledger of reservations and pauses, admission against a policy, and the transitions of a
  reservation. A transaction takes the lock, reads and validates the ledger, expires stale
  reservations, runs, and writes the ledger back. Instants are milliseconds; \<open>dp\<close> is \<open>Date.parse\<close>, which
  makes a text of whatever value it is given, and \<open>loc\<close> is \<open>localeCompare\<close>. Messages are kept, because the hold code is chosen by searching them.
\<close>

section \<open>Data\<close>

datatype res_status = Reserved | Dispatching | Running | Launch_unknown | Hold | Completed | Failed | Expired | Canceled

definition ACTIVE_CAPACITY_STATUSES :: "res_status list" where
  "ACTIVE_CAPACITY_STATUSES = [Reserved, Dispatching, Running, Launch_unknown, Hold]"

definition TERMINAL_CAPACITY_STATUSES :: "res_status list" where
  "TERMINAL_CAPACITY_STATUSES = [Completed, Failed, Expired, Canceled]"

definition PAUSE_REASONS :: "string list" where
  "PAUSE_REASONS = [''quota'', ''authentication'', ''access'', ''maintenance'', ''operator_hold'']"

definition CAPACITY_RESOURCES :: "string list" where
  "CAPACITY_RESOURCES = [''global'', ''host'', ''account'', ''runtime'']"

definition safe_char :: "char \<Rightarrow> bool" where
  "safe_char c \<longleftrightarrow> alnum c \<or> c \<in> set ''._:/-''"

definition SAFE_ID :: "string \<Rightarrow> bool" where
  "SAFE_ID s \<longleftrightarrow> s \<noteq> [] \<and> length s \<le> 255 \<and> list_all safe_char s"

record slot =
  sl_task :: string
  sl_role :: string
  sl_runtime :: string
  sl_host :: string
  sl_account :: string
  sl_repo :: string
  sl_branch :: string
  sl_worktree :: string
  sl_overlap :: "string list"
  sl_cost :: int

record reservation = slot +
  rv_status :: res_status
  rv_deadline :: int
  rv_retry :: int
  rv_revision :: int
  rv_accepted :: int
  rv_expires :: int
  rv_hold :: "string option"
  rv_next :: "string option"
  rv_updated :: "int option"
  rv_actual :: "int option"

record pause =
  pa_reason :: string
  pa_until :: json
  pa_created :: int

record ledger =
  lg_spent :: int
  lg_reservations :: "(string, reservation) js_map"
  lg_pauses :: "(string, pause) js_map"

text \<open>A task as offered: its id is a string, everything else may be absent or of a wrong type.\<close>

record task =
  ts_id :: string
  ts_role :: "string option"
  ts_runtime :: "string option"
  ts_host :: "string option"
  ts_account :: "string option"
  ts_repo :: "string option"
  ts_branch :: "string option"
  ts_worktree :: "string option"
  ts_blocked :: "json option"
  ts_overlap :: "json option"
  ts_fallback :: "json option"
  ts_cost :: "json option"
  ts_deadline :: "json option"
  ts_retry :: "json option"
  ts_revision :: "json option"
  ts_priority :: "json option"

record policy =
  po_global :: int
  po_reserve :: int
  po_budget :: int
  po_max_deadline :: int
  po_max_retries :: int
  po_max_revisions :: int
  po_ttl :: int
  po_hosts :: "(string, int) js_map"
  po_accounts :: "(string, int) js_map"
  po_runtimes :: "(string, int) js_map"
  po_premium :: "string list"
  po_approvals :: "string list"

section \<open>The policy\<close>

text \<open>\<open>None\<close>: throws.\<close>

definition limitsMap :: "json option \<Rightarrow> (string, int) js_map option" where
  "limitsMap v = (case v of
     Some (JObj m) \<Rightarrow> (if list_all (\<lambda>(i, l). SAFE_ID i \<and> positiveInteger (Some l)) m
                      then Some (map (\<lambda>(i, l). (i, int_of (Some l))) m) else None)
   | _ \<Rightarrow> None)"

definition id_array :: "json option \<Rightarrow> bool" where
  "id_array v = (case v of Some (JArr js) \<Rightarrow> list_all (\<lambda>j. case j of JStr s \<Rightarrow> SAFE_ID s | _ \<Rightarrow> False) js | _ \<Rightarrow> False)"

definition validateCapacityPolicy :: "json \<Rightarrow> policy option" where
  "validateCapacityPolicy p =
     (let g = json_get p;
          reserve = (case g ''review_reserve'' of None \<Rightarrow> Some (js_int 1) | Some JNull \<Rightarrow> Some (js_int 1) | v \<Rightarrow> v)
      in if \<not> positiveInteger (g ''global_limit'') then None
         else if \<not> nonNegativeInteger reserve \<or> int_of reserve \<ge> int_of (g ''global_limit'') then None
         else if \<not> positiveInteger (g ''budget_micros'') then None
         else if \<not> positiveInteger (g ''max_deadline_ms'') \<or> \<not> nonNegativeInteger (g ''max_retries'')
               \<or> \<not> nonNegativeInteger (g ''max_revisions'') \<or> \<not> positiveInteger (g ''reservation_ttl_ms'') then None
         else if (g ''premium_runtimes'' \<noteq> None \<and> \<not> id_array (g ''premium_runtimes''))
               \<or> (g ''premium_approvals'' \<noteq> None \<and> \<not> id_array (g ''premium_approvals'')) then None
         else (case (limitsMap (g ''hosts''), limitsMap (g ''accounts''),
                     if truthy (g ''runtimes'') then limitsMap (g ''runtimes'') else Some []) of
                 (Some hosts, Some accounts, Some runtimes) \<Rightarrow> Some
                   \<lparr>po_global = int_of (g ''global_limit''), po_reserve = int_of reserve, po_budget = int_of (g ''budget_micros''),
                    po_max_deadline = int_of (g ''max_deadline_ms''), po_max_retries = int_of (g ''max_retries''),
                    po_max_revisions = int_of (g ''max_revisions''), po_ttl = int_of (g ''reservation_ttl_ms''),
                    po_hosts = hosts, po_accounts = accounts, po_runtimes = runtimes,
                    po_premium = strs_of (g ''premium_runtimes''), po_approvals = strs_of (g ''premium_approvals'')\<rparr>
               | _ \<Rightarrow> None))"

section \<open>Validation of a task\<close>

definition text_fields :: "task \<Rightarrow> (string \<times> string option) list" where
  "text_fields t = [(''runtime'', ts_runtime t), (''host'', ts_host t), (''account'', ts_account t), (''repo'', ts_repo t),
     (''branch'', ts_branch t), (''worktree'', ts_worktree t)]"

definition txt_of :: "string option \<Rightarrow> string" where
  "txt_of v = (case v of None \<Rightarrow> [] | Some s \<Rightarrow> s)"

definition repo_char :: "char \<Rightarrow> bool" where
  "repo_char c \<longleftrightarrow> alnum c \<or> c \<in> set ''_.-''"

definition repo_ok :: "string \<Rightarrow> bool" where
  "repo_ok s = (case js_split (CHR ''/'') s of
     [owner, name] \<Rightarrow> owner \<noteq> [] \<and> name \<noteq> [] \<and> list_all repo_char owner \<and> list_all repo_char name | _ \<Rightarrow> False)"

definition safe_list :: "json option \<Rightarrow> bool" where
  "safe_list v \<longleftrightarrow> nullish v \<or> id_array v"

definition taskValidation :: "task \<Rightarrow> policy \<Rightarrow> string option" where
  "taskValidation t p =
     (if ts_id t = [] then Some ''task_id is required''
      else if txt_of (ts_role t) \<notin> set LAUNCH_ROLES then Some ''role must be build, review, or revise''
      else case find (\<lambda>(f, v). txt_of v = []) (text_fields t) of Some (f, v) \<Rightarrow> Some (f @ '' is required'') | None \<Rightarrow>
     (case find (\<lambda>(f, v). \<not> SAFE_ID (txt_of v)) ((''task_id'', Some (ts_id t)) # text_fields t) of
        Some (f, v) \<Rightarrow> Some (f @ '' contains unsafe characters or is too long'') | None \<Rightarrow>
      if \<not> repo_ok (txt_of (ts_repo t)) then Some ''repo must be owner/name''
      else if take 1 (txt_of (ts_worktree t)) \<noteq> ''/'' \<or> js_includes (txt_of (ts_worktree t)) ''..''
        then Some ''worktree must be an absolute confined path''
      else case find (\<lambda>(f, v). \<not> safe_list v) [(''blocked_by'', ts_blocked t), (''overlap_keys'', ts_overlap t), (''fallback_runtimes'', ts_fallback t)] of
        Some (f, v) \<Rightarrow> Some (f @ '' must contain safe identifiers'') | None \<Rightarrow>
      if member_of (po_hosts p) (txt_of (ts_host t)) = Missing then Some (''capacity unknown for host '' @ txt_of (ts_host t))
      else if member_of (po_accounts p) (txt_of (ts_account t)) = Missing
        then Some (''capacity unknown for shared account '' @ txt_of (ts_account t))
      else if \<not> nonNegativeInteger (ts_cost t) then Some ''estimated cost is unknown''
      else if \<not> positiveInteger (ts_deadline t) \<or> int_of (ts_deadline t) > po_max_deadline p then Some ''deadline exceeds policy bound''
      else if \<not> nonNegativeInteger (ts_retry t) \<or> int_of (ts_retry t) > po_max_retries p then Some ''retry count exceeds policy bound''
      else if \<not> nonNegativeInteger (ts_revision t) \<or> int_of (ts_revision t) > po_max_revisions p
        then Some ''revision count exceeds policy bound''
      else if txt_of (ts_runtime t) \<in> set (po_premium p) \<and> ts_id t \<notin> set (po_approvals p)
        then Some (''premium runtime '' @ txt_of (ts_runtime t) @ '' requires trusted policy approval for '' @ ts_id t)
      else None))"

section \<open>Admission\<close>

definition is_active :: "reservation \<Rightarrow> bool" where
  "is_active r \<longleftrightarrow> rv_status r \<in> set ACTIVE_CAPACITY_STATUSES"

definition activeReservations :: "ledger \<Rightarrow> reservation list" where
  "activeReservations lg = filter is_active (map snd (lg_reservations lg))"

record hold =
  hd_code :: string
  hd_reason :: string
  hd_next :: string
  hd_human :: "string option"

definition decision :: "string \<Rightarrow> string \<Rightarrow> string option \<Rightarrow> hold" where
  "decision code reason until =
     \<lparr>hd_code = code, hd_reason = reason,
      hd_next = (if code = ''DEPENDENCY_BLOCKED'' then ''wait_for_dependencies''
                 else if code = ''RESOURCE_PAUSED'' then (if txt_of until \<noteq> [] then ''retry_after:'' @ txt_of until else ''wait_for_resource_recovery'')
                 else if code = ''PREMIUM_APPROVAL_REQUIRED'' then ''wait_for_product_approval''
                 else if code = ''CAPACITY_UNKNOWN'' \<or> code = ''COST_UNKNOWN'' then ''wait_for_operator_configuration''
                 else if code = ''UNSAFE_FALLBACK'' then ''wait_for_runtime_decision''
                 else ''wait_for_capacity''),
      hd_human = (if code \<in> set [''PREMIUM_APPROVAL_REQUIRED'', ''CAPACITY_UNKNOWN'', ''COST_UNKNOWN'', ''UNSAFE_FALLBACK''] then Some reason else None)\<rparr>"

definition pause_over :: "(json \<Rightarrow> int option) \<Rightarrow> int \<Rightarrow> pause \<Rightarrow> bool" where
  "pause_over dp now p \<longleftrightarrow> truthy (Some (pa_until p)) \<and> (case dp (pa_until p) of None \<Rightarrow> False | Some t \<Rightarrow> t \<le> now)"

text \<open>The expiry of a pause that was read back: validation let through \<open>null\<close> or a text.\<close>

definition until_text :: "json \<Rightarrow> string option" where
  "until_text u = (case u of JStr s \<Rightarrow> Some s | _ \<Rightarrow> None)"

fun pause_scan :: "(json \<Rightarrow> int option) \<Rightarrow> int \<Rightarrow> string list \<Rightarrow> ledger \<Rightarrow> (string \<times> pause) option \<times> ledger" where
  "pause_scan dp now [] lg = (None, lg)"
| "pause_scan dp now (k # ks) lg = (case map_of (lg_pauses lg) k of
     None \<Rightarrow> pause_scan dp now ks lg
   | Some p \<Rightarrow> if pause_over dp now p then pause_scan dp now ks (lg\<lparr>lg_pauses := AList.delete k (lg_pauses lg)\<rparr>)
               else (Some (k, p), lg))"

definition pauseFor :: "(json \<Rightarrow> int option) \<Rightarrow> task \<Rightarrow> ledger \<Rightarrow> int \<Rightarrow> (string \<times> pause) option \<times> ledger" where
  "pauseFor dp t lg now = pause_scan dp now [''global'', ''host:'' @ txt_of (ts_host t), ''account:'' @ txt_of (ts_account t),
     ''runtime:'' @ txt_of (ts_runtime t)] lg"

text \<open>The slot a task asks for.\<close>

definition slot_of :: "task \<Rightarrow> slot" where
  "slot_of t = \<lparr>sl_task = ts_id t, sl_role = txt_of (ts_role t), sl_runtime = txt_of (ts_runtime t), sl_host = txt_of (ts_host t),
     sl_account = txt_of (ts_account t), sl_repo = txt_of (ts_repo t), sl_branch = txt_of (ts_branch t),
     sl_worktree = txt_of (ts_worktree t), sl_overlap = strs_of (ts_overlap t), sl_cost = int_of (ts_cost t)\<rparr>"

definition writer :: "'a slot_scheme \<Rightarrow> bool" where
  "writer s \<longleftrightarrow> sl_role s \<in> set WRITER_ROLES"

definition same_binding :: "'a slot_scheme \<Rightarrow> 'b slot_scheme \<Rightarrow> bool" where
  "same_binding r s \<longleftrightarrow> (sl_role r, sl_runtime r, sl_host r, sl_account r, sl_repo r, sl_branch r, sl_worktree r)
     = (sl_role s, sl_runtime s, sl_host s, sl_account s, sl_repo s, sl_branch s, sl_worktree s)"

text \<open>A count compared with an inherited member is a comparison with NaN: never reached.\<close>

definition limit_reached :: "(string, int) js_map \<Rightarrow> string \<Rightarrow> nat \<Rightarrow> bool" where
  "limit_reached limits k n = (case member_of limits k of Own l \<Rightarrow> int n \<ge> l | Inherited \<Rightarrow> False | Missing \<Rightarrow> False)"

datatype verdict = Held hold | Duplicate reservation | Admit

definition held :: "string \<Rightarrow> string \<Rightarrow> verdict" where
  "held code reason = Held (decision code reason None)"

definition validation_hold :: "string \<Rightarrow> verdict" where
  "validation_hold v = (if js_includes v ''premium'' then held ''PREMIUM_APPROVAL_REQUIRED'' v
     else if js_includes v ''capacity unknown'' then held ''CAPACITY_UNKNOWN'' v
     else if js_includes v ''cost is unknown'' then held ''COST_UNKNOWN'' v
     else held ''POLICY_BOUND'' v)"

definition show_count :: "int \<Rightarrow> string" where
  "show_count n = show_nat (nat n)"

text \<open>The part of \<open>evaluate\<close> after the pauses: collisions, then limits, then the budget.\<close>

definition admission :: "slot \<Rightarrow> ledger \<Rightarrow> policy \<Rightarrow> verdict" where
  "admission s lg p = (let active = activeReservations lg; count = (\<lambda>P. length (filter P active)) in
     case find (\<lambda>r. writer s \<and> writer r \<and> sl_repo r = sl_repo s \<and> sl_branch r = sl_branch s) active of
       Some r \<Rightarrow> held ''BRANCH_WRITER_ACTIVE'' (''writer '' @ sl_task r @ '' already owns '' @ sl_repo s @ '':'' @ sl_branch s)
     | None \<Rightarrow>
    (case find (\<lambda>r. sl_worktree r = sl_worktree s) active of
       Some r \<Rightarrow> held ''WORKTREE_ACTIVE'' (''worktree already owned by '' @ sl_task r)
     | None \<Rightarrow>
    (case find (\<lambda>r. \<exists>k \<in> set (sl_overlap s). k \<in> set (sl_overlap r)) active of
       Some r \<Rightarrow> held ''OVERLAP_ACTIVE'' (''overlaps active task '' @ sl_task r)
     | None \<Rightarrow>
     if int (length active) \<ge> po_global p then held ''GLOBAL_CAPACITY'' ''global capacity reached''
     else if writer s \<and> int (count writer) \<ge> po_global p - po_reserve p
       then held ''REVIEW_RESERVE'' (show_count (po_reserve p) @ '' global slot(s) reserved for review progress'')
     else if limit_reached (po_hosts p) (sl_host s) (count (\<lambda>r. sl_host r = sl_host s))
       then held ''HOST_CAPACITY'' (''host '' @ sl_host s @ '' capacity reached'')
     else if limit_reached (po_accounts p) (sl_account s) (count (\<lambda>r. sl_account r = sl_account s))
       then held ''ACCOUNT_CAPACITY'' (''shared account '' @ sl_account s @ '' capacity reached'')
     else if limit_reached (po_runtimes p) (sl_runtime s) (count (\<lambda>r. sl_runtime r = sl_runtime s))
       then held ''RUNTIME_CAPACITY'' (''runtime '' @ sl_runtime s @ '' capacity reached'')
     else if lg_spent lg + sum_list (map sl_cost active) + sl_cost s > po_budget p
       then held ''BUDGET_CAPACITY'' ''explicit spending budget would be exceeded''
     else Admit)))"

definition evaluate :: "(json \<Rightarrow> int option) \<Rightarrow> task \<Rightarrow> ledger \<Rightarrow> policy \<Rightarrow> int \<Rightarrow> verdict \<times> ledger" where
  "evaluate dp t lg p now =
     (case taskValidation t p of Some v \<Rightarrow> (validation_hold v, lg) | None \<Rightarrow>
      if strs_of (ts_blocked t) \<noteq> []
        then (held ''DEPENDENCY_BLOCKED'' (''blocked by '' @ js_join '', '' (strs_of (ts_blocked t))), lg)
      else case member_of (lg_reservations lg) (ts_id t) of
        Own r \<Rightarrow> (if is_active r
           then (if same_binding r (slot_of t) then Duplicate r
                 else held ''TASK_REBIND'' ''task_id is already bound to different execution resources'')
           else held ''TASK_ID_REUSED'' ''terminal task_id cannot be reused; mint a fresh attempt'', lg)
      | Inherited \<Rightarrow> (held ''TASK_ID_REUSED'' ''terminal task_id cannot be reused; mint a fresh attempt'', lg)
      | Missing \<Rightarrow> (case pauseFor dp t lg now of
          (Some (k, pa), lg') \<Rightarrow>
            (if strs_of (ts_fallback t) \<noteq> []
             then held ''UNSAFE_FALLBACK'' (''runtime fallback from '' @ txt_of (ts_runtime t) @ '' requires an explicit new work order'')
             else Held (decision ''RESOURCE_PAUSED'' (k @ '' paused: '' @ pa_reason pa) (until_text (pa_until pa))), lg')
        | (None, lg') \<Rightarrow> (admission (slot_of t) lg' p, lg')))"

text \<open>Changing reservations where they are.\<close>

definition touch :: "(string \<Rightarrow> reservation \<Rightarrow> reservation) \<Rightarrow> ledger \<Rightarrow> ledger" where
  "touch f lg = lg\<lparr>lg_reservations := map (\<lambda>(k, r). (k, f k r)) (lg_reservations lg)\<rparr>"

definition expire_reservation :: "int \<Rightarrow> reservation \<Rightarrow> reservation" where
  "expire_reservation now r = (if rv_status r = Reserved \<and> rv_expires r \<le> now
     then r\<lparr>rv_status := Expired, rv_hold := Some ''reservation acknowledgement deadline expired before launch'',
            rv_next := Some ''create_fresh_attempt_if_retry_budget_allows''\<rparr> else r)"

definition expireReservations :: "ledger \<Rightarrow> int \<Rightarrow> ledger" where
  "expireReservations lg now = touch (\<lambda>_. expire_reservation now) lg"

definition capacity_priority :: "task \<Rightarrow> rat" where
  "capacity_priority t = (case ts_priority t of Some (JNum (Some r)) \<Rightarrow> r | _ \<Rightarrow> 999)"

definition taskOrder :: "(string \<Rightarrow> string \<Rightarrow> int) \<Rightarrow> task \<Rightarrow> task \<Rightarrow> bool" where
  "taskOrder loc a b =
     (let rank = (\<lambda>t. if ts_role t = Some ''review'' then 0 else 1 :: int) in
      if rank a \<noteq> rank b then rank a < rank b
      else if capacity_priority a \<noteq> capacity_priority b then capacity_priority a < capacity_priority b
      else loc (ts_id a) (ts_id b) \<le> 0)"

section \<open>Transactions\<close>

datatype ledger_file = No_file | Unreadable | Stored ledger

record capacity_store =
  st_locked :: bool
  st_file :: ledger_file

definition empty_ledger :: ledger where
  "empty_ledger = \<lparr>lg_spent = 0, lg_reservations = [], lg_pauses = []\<rparr>"

text \<open>An instant \<open>toISOString\<close> can write; outside it throws.\<close>

definition date_ok :: "int \<Rightarrow> bool" where
  "date_ok ms \<longleftrightarrow> \<bar>ms\<bar> \<le> 8640000000000000"

definition reservation_valid :: "string \<Rightarrow> reservation \<Rightarrow> bool" where
  "reservation_valid k r \<longleftrightarrow> SAFE_ID k \<and> sl_task r = k \<and> sl_role r \<in> set LAUNCH_ROLES \<and> safe_count (sl_cost r)
     \<and> 0 < rv_deadline r \<and> safe_count (rv_deadline r) \<and> safe_count (rv_retry r) \<and> safe_count (rv_revision r)
     \<and> date_ok (rv_accepted r) \<and> list_all SAFE_ID (sl_overlap r)
     \<and> list_all SAFE_ID [sl_runtime r, sl_host r, sl_account r, sl_repo r, sl_branch r, sl_worktree r]
     \<and> (rv_status r = Reserved \<longrightarrow> date_ok (rv_expires r))
     \<and> (case rv_actual r of None \<Rightarrow> True | Some c \<Rightarrow> safe_count c)"

definition pause_key_ok :: "string \<Rightarrow> bool" where
  "pause_key_ok k \<longleftrightarrow> k = ''global'' \<or> list_ex (\<lambda>s. take (length s) k = s \<and> SAFE_ID (drop (length s) k)) [''host:'', ''account:'', ''runtime:'']"

definition pause_valid :: "(json \<Rightarrow> int option) \<Rightarrow> string \<Rightarrow> pause \<Rightarrow> bool" where
  "pause_valid dp k p \<longleftrightarrow> pause_key_ok k \<and> pa_reason p \<in> set PAUSE_REASONS
     \<and> (pa_until p = JNull \<or> (\<exists>u. pa_until p = JStr u) \<and> dp (pa_until p) \<noteq> None) \<and> date_ok (pa_created p)"

definition validateLedger :: "(json \<Rightarrow> int option) \<Rightarrow> ledger \<Rightarrow> bool" where
  "validateLedger dp lg \<longleftrightarrow> safe_count (lg_spent lg)
     \<and> list_all (\<lambda>(k, r). reservation_valid k r) (lg_reservations lg) \<and> list_all (\<lambda>(k, p). pause_valid dp k p) (lg_pauses lg)"

definition readLedger :: "(json \<Rightarrow> int option) \<Rightarrow> ledger_file \<Rightarrow> ledger option" where
  "readLedger dp f = (case f of No_file \<Rightarrow> Some empty_ledger | Unreadable \<Rightarrow> None
     | Stored lg \<Rightarrow> if validateLedger dp lg then Some lg else None)"

datatype 'a locked = Kept_out hold | Done 'a | Raised

definition withLock :: "(json \<Rightarrow> int option) \<Rightarrow> int \<Rightarrow> capacity_store \<Rightarrow> (ledger \<Rightarrow> ('a \<times> ledger) option) \<Rightarrow> 'a locked \<times> capacity_store" where
  "withLock dp now st operation =
     (if st_locked st then (Kept_out (decision ''SCHEDULER_BUSY'' ''another scheduler transaction owns the capacity ledger'' None), st)
      else case readLedger dp (st_file st) of
        None \<Rightarrow> (Kept_out (decision ''LEDGER_INVALID'' ''capacity ledger is invalid; no reservation was written'' None), st)
      | Some lg \<Rightarrow> (case operation (expireReservations lg now) of
          None \<Rightarrow> (Raised, st)
        | Some (result, lg') \<Rightarrow> (Done result, st\<lparr>st_file := Stored lg'\<rparr>)))"

datatype reserve_outcome = Out_held hold | Out_duplicate reservation | Out_reserved reservation

definition new_reservation :: "policy \<Rightarrow> task \<Rightarrow> int \<Rightarrow> int \<Rightarrow> reservation" where
  "new_reservation p t accepted started = slot.extend (slot_of t)
     \<lparr>rv_status = Reserved, rv_deadline = int_of (ts_deadline t), rv_retry = int_of (ts_retry t), rv_revision = int_of (ts_revision t),
      rv_accepted = accepted, rv_expires = started + po_ttl p, rv_hold = None, rv_next = None, rv_updated = None, rv_actual = None\<rparr>"

text \<open>The clock is read three times for a task: to evaluate, to accept, and to set the expiry.\<close>

definition reserve_one :: "(json \<Rightarrow> int option) \<Rightarrow> policy \<Rightarrow> int \<times> int \<times> int \<Rightarrow> task \<Rightarrow> ledger \<Rightarrow> (reserve_outcome \<times> ledger) option" where
  "reserve_one dp p clock t lg = (case clock of (now, accepted, started) \<Rightarrow>
     (case evaluate dp t lg p now of
        (Held h, lg') \<Rightarrow> Some (Out_held h, lg')
      | (Duplicate r, lg') \<Rightarrow> Some (Out_duplicate r, lg')
      | (Admit, lg') \<Rightarrow>
          (if date_ok accepted \<and> date_ok (started + po_ttl p)
           then (let r = new_reservation p t accepted started
                 in Some (Out_reserved r, lg'\<lparr>lg_reservations := AList.update (ts_id t) r (lg_reservations lg')\<rparr>))
           else None)))"

fun reserve_loop :: "(json \<Rightarrow> int option) \<Rightarrow> policy \<Rightarrow> (nat \<Rightarrow> int \<times> int \<times> int) \<Rightarrow> (nat \<times> task) list \<Rightarrow> ledger
    \<Rightarrow> ((nat \<times> reserve_outcome) list \<times> ledger) option" where
  "reserve_loop dp p clock [] lg = Some ([], lg)"
| "reserve_loop dp p clock ((i, t) # ts) lg = (case reserve_one dp p (clock i) t lg of
     None \<Rightarrow> None
   | Some (out, lg') \<Rightarrow> map_option (\<lambda>(outs, lg''). ((i, out) # outs, lg'')) (reserve_loop dp p clock ts lg'))"

definition reserveMany :: "(json \<Rightarrow> int option) \<Rightarrow> (string \<Rightarrow> string \<Rightarrow> int) \<Rightarrow> policy \<Rightarrow> int \<Rightarrow> (nat \<Rightarrow> int \<times> int \<times> int)
    \<Rightarrow> capacity_store \<Rightarrow> task list \<Rightarrow> reserve_outcome list option \<times> capacity_store" where
  "reserveMany dp loc p now clock st tasks =
     (case withLock dp now st (reserve_loop dp p clock (js_sort (\<lambda>a b. taskOrder loc (snd a) (snd b)) (zip [0..<length tasks] tasks))) of
        (Done outs, st') \<Rightarrow> (Some (map snd (sort_key fst outs)), st')
      | (Kept_out h, st') \<Rightarrow> (Some (map (\<lambda>_. Out_held h) tasks), st')
      | (Raised, st') \<Rightarrow> (None, st'))"

definition reserve :: "(json \<Rightarrow> int option) \<Rightarrow> (string \<Rightarrow> string \<Rightarrow> int) \<Rightarrow> policy \<Rightarrow> int \<Rightarrow> int \<times> int \<times> int
    \<Rightarrow> capacity_store \<Rightarrow> task \<Rightarrow> reserve_outcome option \<times> capacity_store" where
  "reserve dp loc p now clock st t = (case reserveMany dp loc p now (\<lambda>_. clock) st [t] of
     (Some outs, st') \<Rightarrow> (Some (hd outs), st') | (None, st') \<Rightarrow> (None, st'))"

datatype transition_result = Tr_held hold | Tr_done reservation | Tr_outside

text \<open>\<open>Tr_outside\<close>: for an id that names a member of \<open>Object.prototype\<close> the source writes into that
  member, which this model leaves out.\<close>

definition move_to :: "res_status \<Rightarrow> int \<Rightarrow> string option \<Rightarrow> string option \<Rightarrow> int \<Rightarrow> reservation \<Rightarrow> reservation" where
  "move_to status cost hold_reason next now r =
     (let r' = r\<lparr>rv_status := status, rv_hold := hold_reason, rv_next := next, rv_updated := Some now\<rparr>
      in if rv_status r \<notin> set TERMINAL_CAPACITY_STATUSES \<and> status \<in> set TERMINAL_CAPACITY_STATUSES then r'\<lparr>rv_actual := Some cost\<rparr> else r')"

definition transition_op :: "int \<Rightarrow> string \<Rightarrow> res_status \<Rightarrow> int \<Rightarrow> string option \<Rightarrow> string option \<Rightarrow> ledger
    \<Rightarrow> (transition_result \<times> ledger) option" where
  "transition_op now taskId status cost hold_reason next lg =
     (case member_of (lg_reservations lg) taskId of
        Missing \<Rightarrow> Some (Tr_held (decision ''RESERVATION_MISSING'' (''no reservation for '' @ taskId) None), lg)
      | Inherited \<Rightarrow> Some (Tr_outside, lg)
      | Own r \<Rightarrow>
          (let wasTerminal = rv_status r \<in> set TERMINAL_CAPACITY_STATUSES in
           if wasTerminal \<and> rv_status r \<noteq> status then Some (Tr_held (decision ''TERMINAL_RESERVATION'' (taskId @ '' is already terminal'') None), lg)
           else if \<not> date_ok now then None
           else let r' = move_to status cost hold_reason next now r;
                    lg' = touch (\<lambda>k x. if k = taskId then r' else x) lg
                in Some (Tr_done r', if \<not> wasTerminal \<and> status \<in> set TERMINAL_CAPACITY_STATUSES
                     then lg'\<lparr>lg_spent := lg_spent lg' + cost\<rparr> else lg')))"

definition transition :: "(json \<Rightarrow> int option) \<Rightarrow> int \<Rightarrow> int \<Rightarrow> capacity_store \<Rightarrow> string \<Rightarrow> res_status \<Rightarrow> json \<Rightarrow> string option \<Rightarrow> string option
    \<Rightarrow> transition_result locked \<times> capacity_store" where
  "transition dp now updated st taskId status cost hold_reason next =
     (if \<not> nonNegativeInteger (Some cost) then (Raised, st)
      else withLock dp now st (transition_op updated taskId status (int_of (Some cost)) hold_reason next))"

definition resourceKey :: "string \<Rightarrow> string option \<Rightarrow> string option" where
  "resourceKey scope i = (if scope \<notin> set CAPACITY_RESOURCES then None
     else if scope = ''global'' then Some ''global''
     else if SAFE_ID (txt_of i) then Some (scope @ CHR '':'' # txt_of i) else None)"

definition pause_op :: "int \<Rightarrow> string \<Rightarrow> string \<Rightarrow> json \<Rightarrow> ledger \<Rightarrow> ((string \<times> pause) \<times> ledger) option" where
  "pause_op created key reason until lg =
     (if \<not> date_ok created then None
      else let pa = \<lparr>pa_reason = reason, pa_until = until, pa_created = created\<rparr>
           in Some ((key, pa), lg\<lparr>lg_pauses := AList.update key pa (lg_pauses lg)\<rparr>))"

text \<open>\<open>until\<close> may be left out, and any value \<open>Date.parse\<close> makes an instant of is taken as it is.\<close>

definition given_until :: "json option \<Rightarrow> json" where
  "given_until until = (case until of None \<Rightarrow> JNull | Some u \<Rightarrow> u)"

definition pauseResource :: "(json \<Rightarrow> int option) \<Rightarrow> int \<Rightarrow> int \<Rightarrow> capacity_store \<Rightarrow> string \<Rightarrow> string option \<Rightarrow> string \<Rightarrow> json option
    \<Rightarrow> (string \<times> pause) locked \<times> capacity_store" where
  "pauseResource dp now created st scope i reason until =
     (if reason \<notin> set PAUSE_REASONS then (Raised, st)
      else if given_until until \<noteq> JNull \<and> dp (given_until until) = None then (Raised, st)
      else case resourceKey scope i of None \<Rightarrow> (Raised, st)
      | Some key \<Rightarrow> withLock dp now st (pause_op created key reason (given_until until)))"

definition snapshot :: "(json \<Rightarrow> int option) \<Rightarrow> int \<Rightarrow> capacity_store \<Rightarrow> ledger option" where
  "snapshot dp now st = map_option (\<lambda>lg. expireReservations lg now) (readLedger dp (st_file st))"

text \<open>The ledger file under one policy: transactions of this scheduler, and other holders of the lock.\<close>

inductive capacity_reach :: "(json \<Rightarrow> int option) \<Rightarrow> (string \<Rightarrow> string \<Rightarrow> int) \<Rightarrow> policy \<Rightarrow> capacity_store \<Rightarrow> bool" for dp loc p where
  fresh: "capacity_reach dp loc p \<lparr>st_locked = False, st_file = No_file\<rparr>"
| lock: "capacity_reach dp loc p st \<Longrightarrow> capacity_reach dp loc p (st\<lparr>st_locked := b\<rparr>)"
| reserves: "capacity_reach dp loc p st \<Longrightarrow> capacity_reach dp loc p (snd (reserveMany dp loc p now clock st tasks))"
| transitions: "capacity_reach dp loc p st \<Longrightarrow> taskId \<notin> set object_prototype
    \<Longrightarrow> capacity_reach dp loc p (snd (transition dp now updated st taskId status cost hold_reason next))"
| pauses: "capacity_reach dp loc p st \<Longrightarrow> capacity_reach dp loc p (snd (pauseResource dp now created st scope i reason until))"

section \<open>Slots in use\<close>

definition slots :: "ledger \<Rightarrow> slot list" where
  "slots lg = map slot.truncate (activeReservations lg)"

definition committed :: "ledger \<Rightarrow> int" where
  "committed lg = lg_spent lg + sum_list (map sl_cost (slots lg))"

definition apart :: "slot \<Rightarrow> slot \<Rightarrow> bool" where
  "apart r s \<longleftrightarrow> \<not> (writer s \<and> writer r \<and> sl_repo r = sl_repo s \<and> sl_branch r = sl_branch s)
     \<and> sl_worktree r \<noteq> sl_worktree s \<and> set (sl_overlap r) \<inter> set (sl_overlap s) = {}"

definition limited :: "(string, int) js_map \<Rightarrow> (slot \<Rightarrow> string) \<Rightarrow> slot list \<Rightarrow> bool" where
  "limited limits f ss \<longleftrightarrow> (\<forall>k l. map_of limits k = Some l \<longrightarrow> int (length (filter (\<lambda>s. f s = k) ss)) \<le> l)"

definition caps :: "policy \<Rightarrow> slot list \<Rightarrow> bool" where
  "caps p ss \<longleftrightarrow> int (length ss) \<le> po_global p \<and> int (length (filter writer ss)) \<le> po_global p - po_reserve p
     \<and> limited (po_hosts p) sl_host ss \<and> limited (po_accounts p) sl_account ss \<and> limited (po_runtimes p) sl_runtime ss
     \<and> sorted_wrt apart ss"

lemma truncate_simps [simp]: "sl_task (slot.truncate r) = sl_task r" "sl_role (slot.truncate r) = sl_role r"
  "sl_runtime (slot.truncate r) = sl_runtime r" "sl_host (slot.truncate r) = sl_host r" "sl_account (slot.truncate r) = sl_account r"
  "sl_repo (slot.truncate r) = sl_repo r" "sl_branch (slot.truncate r) = sl_branch r" "sl_worktree (slot.truncate r) = sl_worktree r"
  "sl_overlap (slot.truncate r) = sl_overlap r" "sl_cost (slot.truncate r) = sl_cost r" "writer (slot.truncate r) = writer r"
  by (simp_all add: slot.defs writer_def)

lemma subseq_sum_costs:
  assumes "subseq xs ys" and "\<And>y. y \<in> set ys \<Longrightarrow> 0 \<le> sl_cost y"
  shows "sum_list (map sl_cost xs) \<le> sum_list (map sl_cost ys)"
  using assms
proof (induction rule: list_emb.induct)
  case (list_emb_Nil ys)
  then show ?case by (auto intro!: sum_list_nonneg)
next
  case (list_emb_Cons xs ys y)
  then have "sum_list (map sl_cost xs) \<le> sum_list (map sl_cost ys)" "0 \<le> sl_cost y" by simp_all
  then show ?case by simp
qed simp

lemma sorted_wrt_subseq: "subseq xs ys \<Longrightarrow> sorted_wrt R ys \<Longrightarrow> sorted_wrt R xs"
proof (induction rule: list_emb.induct)
  case (list_emb_Cons2 x y xs ys)
  then show ?case using list_emb_set [of "(=)" xs ys] by (auto dest: list_emb_set)
qed auto

lemma subseq_filter_length: "subseq xs ys \<Longrightarrow> length (filter P xs) \<le> length (filter P ys)"
  by (meson list_emb_length subseq_filter)

lemma caps_subseq:
  assumes "subseq xs ys" "caps p ys" shows "caps p xs"
proof -
  have f: "int (length (filter P xs)) \<le> int (length (filter P ys))" for P using subseq_filter_length [OF assms(1)] by simp
  have "limited m g ys \<Longrightarrow> limited m g xs" for m g unfolding limited_def by (meson f order_trans)
  moreover have "int (length xs) \<le> int (length ys)" using list_emb_length [OF assms(1)] by simp
  ultimately show ?thesis
    using assms(2) f [of writer] sorted_wrt_subseq [OF assms(1)] unfolding caps_def by auto
qed

lemma slots_touch:
  assumes "\<And>k r. (k, r) \<in> set (lg_reservations lg) \<Longrightarrow> slot.truncate (f k r) = slot.truncate r \<and> (is_active (f k r) \<longrightarrow> is_active r)"
  shows "subseq (slots (touch f lg)) (slots lg)"
proof -
  have "subseq (map slot.truncate (filter is_active (map snd (map (\<lambda>(k, r). (k, f k r)) m))))
      (map slot.truncate (filter is_active (map snd m)))"
    if "\<And>k r. (k, r) \<in> set m \<Longrightarrow> slot.truncate (f k r) = slot.truncate r \<and> (is_active (f k r) \<longrightarrow> is_active r)" for m
    using that
  proof (induction m)
    case (Cons a m)
    obtain k r where a: "a = (k, r)" by (cases a)
    have "slot.truncate (f k r) = slot.truncate r" "is_active (f k r) \<longrightarrow> is_active r" using Cons.prems a by auto
    with Cons a show ?case by auto
  qed simp
  with assms show ?thesis by (simp add: slots_def activeReservations_def touch_def)
qed

lemma expire_slot: "slot.truncate (expire_reservation now r) = slot.truncate r \<and> (is_active (expire_reservation now r) \<longrightarrow> is_active r)"
  by (auto simp: expire_reservation_def slot.defs is_active_def ACTIVE_CAPACITY_STATUSES_def)

lemma slots_expire: "subseq (slots (expireReservations lg now)) (slots lg)"
  unfolding expireReservations_def by (rule slots_touch) (use expire_slot in blast)

lemma active_iff: "is_active r \<longleftrightarrow> rv_status r \<notin> set TERMINAL_CAPACITY_STATUSES"
  by (cases "rv_status r") (auto simp: is_active_def ACTIVE_CAPACITY_STATUSES_def TERMINAL_CAPACITY_STATUSES_def)

lemma move_slot: "slot.truncate (move_to status cost hold_reason next now r) = slot.truncate r"
  "rv_status (move_to status cost hold_reason next now r) = status"
  by (simp_all add: move_to_def Let_def slot.defs)

section \<open>Admission keeps the limits\<close>

lemma limited_snoc:
  assumes "limited m f ss" "\<not> limit_reached m (f s) (length (filter (\<lambda>r. f r = f s) ss))"
  shows "limited m f (ss @ [s])"
  using assms by (auto simp: limited_def limit_reached_def member_of_def split: option.splits if_splits)

lemma slots_filter: "length (filter P (slots lg)) = length (filter (\<lambda>r. P (slot.truncate r)) (activeReservations lg))"
  by (simp add: slots_def filter_map o_def)

lemma admission_Admit:
  assumes "admission s lg p = Admit" "caps p (slots lg)"
  shows "caps p (slots lg @ [s])" and "committed lg + sl_cost s \<le> po_budget p"
proof -
  note adm = assms(1) [unfolded admission_def Let_def held_def]
  from adm have none: "find (\<lambda>r. writer s \<and> writer r \<and> sl_repo r = sl_repo s \<and> sl_branch r = sl_branch s) (activeReservations lg) = None"
      "find (\<lambda>r. sl_worktree r = sl_worktree s) (activeReservations lg) = None"
      "find (\<lambda>r. \<exists>k \<in> set (sl_overlap s). k \<in> set (sl_overlap r)) (activeReservations lg) = None"
    by (auto split: option.splits)
  with adm have lim: "int (length (slots lg)) < po_global p" "writer s \<Longrightarrow> int (length (filter writer (slots lg))) < po_global p - po_reserve p"
      "\<not> limit_reached (po_hosts p) (sl_host s) (length (filter (\<lambda>r. sl_host r = sl_host s) (slots lg)))"
      "\<not> limit_reached (po_accounts p) (sl_account s) (length (filter (\<lambda>r. sl_account r = sl_account s) (slots lg)))"
      "\<not> limit_reached (po_runtimes p) (sl_runtime s) (length (filter (\<lambda>r. sl_runtime r = sl_runtime s) (slots lg)))"
    and bud: "committed lg + sl_cost s \<le> po_budget p"
    by (auto simp: slots_filter committed_def slots_def o_def split: if_splits)
  from bud show "committed lg + sl_cost s \<le> po_budget p" .
  from none have "\<forall>r \<in> set (slots lg). apart r s" by (auto simp: find_None_iff slots_def apart_def)
  with assms(2) lim show "caps p (slots lg @ [s])"
    unfolding caps_def by (auto simp: sorted_wrt_append intro: limited_snoc)
qed

lemma pause_scan_frame: "pause_scan dp now ks lg = (res, lg') \<Longrightarrow> lg_reservations lg' = lg_reservations lg \<and> lg_spent lg' = lg_spent lg
    \<and> set (lg_pauses lg') \<subseteq> set (lg_pauses lg)"
proof (induction dp now ks lg rule: pause_scan.induct)
  case (2 dp now k ks lg)
  then show ?case by (auto split: option.splits if_splits simp: AList.delete_eq)
qed auto

lemma evaluate_frame: "evaluate dp t lg p now = (v, lg') \<Longrightarrow> lg_reservations lg' = lg_reservations lg \<and> lg_spent lg' = lg_spent lg
    \<and> set (lg_pauses lg') \<subseteq> set (lg_pauses lg)"
proof (cases "pauseFor dp t lg now")
  case (Pair found lg1)
  assume "evaluate dp t lg p now = (v, lg')"
  then have "lg' = lg \<or> lg' = lg1"
    unfolding evaluate_def Pair by (simp split: option.splits if_splits member.splits prod.splits)
  with pause_scan_frame Pair show ?thesis unfolding pauseFor_def by blast
qed

lemma slots_cong: "lg_reservations lg' = lg_reservations lg \<Longrightarrow> slots lg' = slots lg"
  by (simp add: slots_def activeReservations_def)

lemma evaluate_Admit:
  assumes "evaluate dp t lg p now = (Admit, lg')"
  shows "taskValidation t p = None \<and> map_of (lg_reservations lg) (ts_id t) = None \<and> admission (slot_of t) lg' p = Admit"
  using assms unfolding evaluate_def
  by (auto split: option.splits if_splits member.splits prod.splits simp: validation_hold_def held_def member_of_simps)

section \<open>What every transaction keeps\<close>

definition policy_ok :: "policy \<Rightarrow> bool" where
  "policy_ok p \<longleftrightarrow> 0 \<le> po_reserve p \<and> po_reserve p < po_global p \<and> 0 < po_budget p \<and> 0 < po_ttl p
     \<and> list_all (\<lambda>(k, l). 0 < l) (po_hosts p) \<and> list_all (\<lambda>(k, l). 0 < l) (po_accounts p) \<and> list_all (\<lambda>(k, l). 0 < l) (po_runtimes p)"

lemma limitsMap_pos: "limitsMap v = Some m \<Longrightarrow> list_all (\<lambda>(k, l). 0 < l) m"
  unfolding limitsMap_def
  by (fastforce simp: list_all_iff dest: positiveInteger_int_of split: option.splits json.splits if_splits)

lemma validated_policy_ok:
  assumes "validateCapacityPolicy raw = Some p" shows "policy_ok p"
proof -
  note v = assms [unfolded validateCapacityPolicy_def Let_def]
  obtain reserve hosts accounts runtimes where
    n: "positiveInteger (json_get raw ''global_limit'')" "nonNegativeInteger reserve" "int_of reserve < int_of (json_get raw ''global_limit'')"
      "positiveInteger (json_get raw ''budget_micros'')" "positiveInteger (json_get raw ''reservation_ttl_ms'')"
    and m: "limitsMap (json_get raw ''hosts'') = Some hosts" "limitsMap (json_get raw ''accounts'') = Some accounts"
      "(if truthy (json_get raw ''runtimes'') then limitsMap (json_get raw ''runtimes'') else Some []) = Some runtimes"
    and p: "po_reserve p = int_of reserve" "po_global p = int_of (json_get raw ''global_limit'')" "po_budget p = int_of (json_get raw ''budget_micros'')"
      "po_ttl p = int_of (json_get raw ''reservation_ttl_ms'')" "po_hosts p = hosts" "po_accounts p = accounts" "po_runtimes p = runtimes"
    using v by (fastforce split: if_split_asm option.split_asm)
  have "list_all (\<lambda>(k, l). 0 < l) runtimes" using m(3) limitsMap_pos by (auto split: if_splits)
  with m limitsMap_pos n positiveInteger_int_of nonNegativeInteger_int_of show ?thesis
    unfolding policy_ok_def p by (metis safe_count_def)
qed

lemma caps_Nil: "policy_ok p \<Longrightarrow> caps p []"
  unfolding policy_ok_def caps_def limited_def
  by (auto simp: list_all_iff dest!: map_of_SomeD dest: bspec)

definition reservation_sound :: "string \<Rightarrow> reservation \<Rightarrow> bool" where
  "reservation_sound k r \<longleftrightarrow> reservation_valid k r \<and> date_ok (rv_expires r)"

definition pause_sound :: "(json \<Rightarrow> int option) \<Rightarrow> string \<Rightarrow> pause \<Rightarrow> bool" where
  "pause_sound dp k p \<longleftrightarrow> pause_key_ok k \<and> pa_reason p \<in> set PAUSE_REASONS \<and> (pa_until p = JNull \<or> dp (pa_until p) \<noteq> None) \<and> date_ok (pa_created p)"

definition text_or_null :: "json \<Rightarrow> bool" where
  "text_or_null v \<longleftrightarrow> v = JNull \<or> (\<exists>u. v = JStr u)"

lemma pause_valid_sound: "pause_valid dp k p \<longleftrightarrow> pause_sound dp k p \<and> text_or_null (pa_until p)"
  by (auto simp: pause_valid_def pause_sound_def text_or_null_def)

definition rows_valid :: "(json \<Rightarrow> int option) \<Rightarrow> ledger \<Rightarrow> bool" where
  "rows_valid dp lg \<longleftrightarrow> list_all (\<lambda>(k, r). reservation_sound k r) (lg_reservations lg) \<and> list_all (\<lambda>(k, p). pause_sound dp k p) (lg_pauses lg)
     \<and> keyed (lg_reservations lg) \<and> 0 \<le> lg_spent lg"

lemma strs_of_safe: "safe_list v \<Longrightarrow> list_all SAFE_ID (strs_of v)"
  by (auto simp: safe_list_def nullish_def id_array_def strs_of_def list_all_iff List.map_filter_def split: option.splits json.splits)

lemma find_field: "find (\<lambda>(f, v). P v) xs = None \<Longrightarrow> \<forall>(f, v) \<in> set xs. \<not> P v"
  by (auto simp: find_None_iff)

lemma task_valid:
  assumes "taskValidation t p = None"
  shows "SAFE_ID (ts_id t)" "txt_of (ts_role t) \<in> set LAUNCH_ROLES"
    "list_all SAFE_ID (map txt_of [ts_runtime t, ts_host t, ts_account t, ts_repo t, ts_branch t, ts_worktree t])"
    "list_all SAFE_ID (strs_of (ts_overlap t))" "nonNegativeInteger (ts_cost t)" "positiveInteger (ts_deadline t)"
    "nonNegativeInteger (ts_retry t)" "nonNegativeInteger (ts_revision t)"
    "member_of (po_hosts p) (txt_of (ts_host t)) \<noteq> Missing" "member_of (po_accounts p) (txt_of (ts_account t)) \<noteq> Missing"
proof -
  note v = assms [unfolded taskValidation_def]
  from v have safe: "find (\<lambda>(f, v). \<not> SAFE_ID (txt_of v)) ((''task_id'', Some (ts_id t)) # text_fields t) = None"
    and lists: "find (\<lambda>(f, v). \<not> safe_list v) [(''blocked_by'', ts_blocked t), (''overlap_keys'', ts_overlap t), (''fallback_runtimes'', ts_fallback t)] = None"
    by (auto split: if_split_asm option.split_asm)
  from find_field [OF safe] show "SAFE_ID (ts_id t)"
    "list_all SAFE_ID (map txt_of [ts_runtime t, ts_host t, ts_account t, ts_repo t, ts_branch t, ts_worktree t])"
    by (simp_all add: text_fields_def txt_of_def [of "Some (ts_id t)"])
  from find_field [OF lists] show "list_all SAFE_ID (strs_of (ts_overlap t))" by (intro strs_of_safe) simp
  from v show "txt_of (ts_role t) \<in> set LAUNCH_ROLES" "nonNegativeInteger (ts_cost t)" "positiveInteger (ts_deadline t)"
    "nonNegativeInteger (ts_retry t)" "nonNegativeInteger (ts_revision t)"
    "member_of (po_hosts p) (txt_of (ts_host t)) \<noteq> Missing" "member_of (po_accounts p) (txt_of (ts_account t)) \<noteq> Missing"
    by (auto split: if_split_asm option.split_asm)
qed

lemma new_reservation_sound:
  assumes "taskValidation t p = None" "date_ok accepted" "date_ok (started + po_ttl p)"
  shows "reservation_sound (ts_id t) (new_reservation p t accepted started)"
  using task_valid [OF assms(1)] assms(2,3)
  by (simp add: reservation_sound_def reservation_valid_def new_reservation_def slot.defs slot_of_def nonNegativeInteger_int_of positiveInteger_int_of)

lemma new_reservation_slot: "slot.truncate (new_reservation p t a b) = slot_of t" "is_active (new_reservation p t a b)"
  by (simp_all add: new_reservation_def slot.defs slot_of_def is_active_def ACTIVE_CAPACITY_STATUSES_def)

lemma reservation_sound_expire: "reservation_sound k r \<Longrightarrow> reservation_sound k (expire_reservation now r)"
  by (simp add: reservation_sound_def reservation_valid_def expire_reservation_def)

lemma rows_valid_touch:
  assumes "rows_valid dp lg" "\<And>k r. (k, r) \<in> set (lg_reservations lg) \<Longrightarrow> reservation_sound k (f k r)"
  shows "rows_valid dp (touch f lg)"
  using assms by (auto simp: rows_valid_def touch_def list_all_iff o_def case_prod_beta)

lemma rows_valid_expire: "rows_valid dp lg \<Longrightarrow> rows_valid dp (expireReservations lg now)"
  unfolding expireReservations_def
  by (rule rows_valid_touch) (auto simp: rows_valid_def list_all_iff intro!: reservation_sound_expire)

lemma committed_expire: "rows_valid dp lg \<Longrightarrow> committed (expireReservations lg now) \<le> committed lg"
proof -
  assume "rows_valid dp lg"
  then have "\<And>s. s \<in> set (slots lg) \<Longrightarrow> 0 \<le> sl_cost s"
    by (auto simp: slots_def activeReservations_def rows_valid_def list_all_iff reservation_sound_def reservation_valid_def safe_count_def)
  from subseq_sum_costs [OF slots_expire this] show ?thesis
    by (simp add: committed_def expireReservations_def touch_def)
qed

lemma update_fresh: "map_of m k = None \<Longrightarrow> AList.update k v m = m @ [(k, v)]"
  by (induction m) (auto split: if_splits)

lemma reserve_one_keeps:
  assumes "reserve_one dp p clock t lg = Some (out, lg')" "rows_valid dp lg" "caps p (slots lg)"
  shows "rows_valid dp lg' \<and> caps p (slots lg') \<and> committed lg' \<le> max (po_budget p) (committed lg) \<and> lg_spent lg' = lg_spent lg"
proof -
  obtain now accepted started where clock: "clock = (now, accepted, started)" by (metis prod_cases3)
  obtain v lg1 where ev: "evaluate dp t lg p now = (v, lg1)" by fastforce
  note fr = evaluate_frame [OF ev]
  have lg1: "rows_valid dp lg1" "slots lg1 = slots lg" "committed lg1 = committed lg"
    using fr assms(2) slots_cong [of lg1 lg] by (auto simp: rows_valid_def list_all_iff committed_def)
  show ?thesis
  proof (cases v)
    case Admit
    note ad = evaluate_Admit [OF ev [unfolded Admit]]
    let ?r = "new_reservation p t accepted started"
    have dates: "date_ok accepted" "date_ok (started + po_ttl p)"
      and lg': "lg' = lg1\<lparr>lg_reservations := AList.update (ts_id t) ?r (lg_reservations lg1)\<rparr>"
      using assms(1) ev unfolding reserve_one_def clock Admit by (auto simp: Let_def split: if_splits)
    have fresh: "map_of (lg_reservations lg1) (ts_id t) = None" using ad fr by simp
    then have upd: "AList.update (ts_id t) ?r (lg_reservations lg1) = lg_reservations lg1 @ [(ts_id t, ?r)]"
      by (rule update_fresh)
    have sl: "slots lg' = slots lg1 @ [slot_of t]"
      by (simp add: slots_def activeReservations_def lg' upd new_reservation_slot)
    from admission_Admit [of "slot_of t" lg1 p] ad assms(3) lg1 have "caps p (slots lg')" "committed lg1 + sl_cost (slot_of t) \<le> po_budget p"
      unfolding sl by auto
    moreover have "committed lg' = committed lg1 + sl_cost (slot_of t)" by (simp add: committed_def sl) (simp add: lg')
    moreover have "rows_valid dp lg'"
      using lg1(1) new_reservation_sound [OF _ dates] ad by (simp add: rows_valid_def lg' upd map_of_eq_None_iff [symmetric] fresh)
    ultimately show ?thesis using lg1(3) fr lg' by simp
  qed (use assms ev lg1 fr in \<open>auto simp: reserve_one_def clock\<close>)
qed

lemma reserve_loop_keeps:
  assumes "reserve_loop dp p clock ts lg = Some (outs, lg')" "rows_valid dp lg" "caps p (slots lg)"
  shows "rows_valid dp lg' \<and> caps p (slots lg') \<and> committed lg' \<le> max (po_budget p) (committed lg) \<and> lg_spent lg' = lg_spent lg"
  using assms
proof (induction dp p clock ts lg arbitrary: outs rule: reserve_loop.induct)
  case (2 dp p clock i t ts lg)
  then obtain out lg1 outs1 where one: "reserve_one dp p (clock i) t lg = Some (out, lg1)" and rest: "reserve_loop dp p clock ts lg1 = Some (outs1, lg')"
    by (auto split: option.splits prod.splits)
  note k = reserve_one_keeps [OF one 2(3,4)]
  from 2(1) [OF one refl rest] k show ?case by auto
qed simp

lemma touch_one:
  assumes "keyed (lg_reservations lg)" "map_of (lg_reservations lg) i = Some r" "slot.truncate r' = slot.truncate r" "is_active r' \<longrightarrow> is_active r"
    "rows_valid dp lg" "reservation_sound i r'"
  shows "subseq (slots (touch (\<lambda>k x. if k = i then r' else x) lg)) (slots lg) \<and> rows_valid dp (touch (\<lambda>k x. if k = i then r' else x) lg)"
proof
  have own: "(i, x) \<in> set (lg_reservations lg) \<Longrightarrow> x = r" for x using assms(1,2) map_of_is_SomeI by fastforce
  show "subseq (slots (touch (\<lambda>k x. if k = i then r' else x) lg)) (slots lg)"
    by (rule slots_touch) (use own assms(3,4) in auto)
  show "rows_valid dp (touch (\<lambda>k x. if k = i then r' else x) lg)"
    by (rule rows_valid_touch [OF assms(5)]) (use assms(5,6) in \<open>auto simp: rows_valid_def list_all_iff\<close>)
qed

definition store_ok :: "(json \<Rightarrow> int option) \<Rightarrow> policy \<Rightarrow> capacity_store \<Rightarrow> bool" where
  "store_ok dp p st = (case st_file st of Stored lg \<Rightarrow> rows_valid dp lg \<and> caps p (slots lg) | Unreadable \<Rightarrow> False | No_file \<Rightarrow> True)"

lemma read_ok: "store_ok dp p st \<Longrightarrow> policy_ok p \<Longrightarrow> readLedger dp (st_file st) = Some lg \<Longrightarrow> rows_valid dp lg \<and> caps p (slots lg)"
  by (auto simp: store_ok_def readLedger_def rows_valid_def empty_ledger_def slots_def activeReservations_def caps_Nil
      split: ledger_file.splits if_splits)

lemma expire_ok: "rows_valid dp lg \<and> caps p (slots lg) \<Longrightarrow> rows_valid dp (expireReservations lg now) \<and> caps p (slots (expireReservations lg now))"
  using rows_valid_expire slots_expire caps_subseq by blast

lemma withLock_ok:
  assumes "store_ok dp p st" "policy_ok p"
    "\<And>lg a lg'. rows_valid dp lg \<Longrightarrow> caps p (slots lg) \<Longrightarrow> operation lg = Some (a, lg') \<Longrightarrow> rows_valid dp lg' \<and> caps p (slots lg')"
  shows "store_ok dp p (snd (withLock dp now st operation))"
proof (cases "readLedger dp (st_file st)")
  case (Some lg)
  from expire_ok [OF read_ok [OF assms(1,2) Some]] assms show ?thesis
    by (auto simp: withLock_def Some store_ok_def split: option.splits)
qed (use assms in \<open>simp add: withLock_def\<close>)

lemma transition_op_ok:
  assumes "rows_valid dp lg" "caps p (slots lg)" "i \<notin> set object_prototype" "safe_count cost"
    "transition_op now i status cost h n lg = Some (a, lg')"
  shows "rows_valid dp lg' \<and> caps p (slots lg')"
proof (cases "map_of (lg_reservations lg) i")
  case None
  then show ?thesis using assms by (simp add: transition_op_def member_of_def)
next
  case (Some r)
  let ?r = "move_to status cost h n now r"
  have m: "member_of (lg_reservations lg) i = Own r" using Some by (simp add: member_of_def)
  show ?thesis
  proof (cases "(rv_status r \<in> set TERMINAL_CAPACITY_STATUSES \<and> rv_status r \<noteq> status) \<or> \<not> date_ok now")
    case True
    then show ?thesis using assms m by (auto simp: transition_op_def Let_def split: if_splits)
  next
    case False
    have "reservation_sound i r" using assms(1) Some by (auto simp: rows_valid_def list_all_iff dest: map_of_SomeD)
    then have "reservation_sound i ?r" using assms(4) by (auto simp: reservation_sound_def reservation_valid_def move_to_def Let_def)
    moreover have "is_active ?r \<longrightarrow> is_active r" using False by (auto simp: active_iff move_slot)
    ultimately have "subseq (slots (touch (\<lambda>k x. if k = i then ?r else x) lg)) (slots lg)" "rows_valid dp (touch (\<lambda>k x. if k = i then ?r else x) lg)"
      using touch_one [OF _ Some move_slot(1) _ assms(1)] assms(1) by (auto simp: rows_valid_def)
    with False assms m caps_subseq show ?thesis
      by (auto simp: transition_op_def Let_def rows_valid_def slots_def activeReservations_def safe_count_def split: if_splits)
  qed
qed

lemma pause_op_ok:
  assumes "resourceKey scope i = Some k" "reason \<in> set PAUSE_REASONS \<and> (until = JNull \<or> dp until \<noteq> None)"
    and "rows_valid dp lg" "caps p (slots lg)" "pause_op created k reason until lg = Some (a, lg')"
  shows "rows_valid dp lg' \<and> caps p (slots lg')"
proof -
  let ?pa = "\<lparr>pa_reason = reason, pa_until = until, pa_created = created\<rparr>"
  have "pause_key_ok k" using assms(1) by (auto simp: resourceKey_def CAPACITY_RESOURCES_def pause_key_ok_def split: if_splits)
  then have "pause_sound dp k ?pa" if "date_ok created" using assms(2) that by (simp add: pause_sound_def)
  with assms(3-5) show ?thesis
    by (auto simp: pause_op_def Let_def rows_valid_def list_all_iff slots_def activeReservations_def split: if_splits dest!: set_alist_update)
qed

lemma reach_ok:
  assumes "policy_ok p" "capacity_reach dp loc p st"
  shows "store_ok dp p st"
  using assms(2)
proof induction
  case (reserves st now clock tasks)
  have "store_ok dp p (snd (withLock dp now st
      (reserve_loop dp p clock (js_sort (\<lambda>a b. taskOrder loc (snd a) (snd b)) (zip [0..<length tasks] tasks)))))"
    by (rule withLock_ok [OF reserves.IH assms(1)]) (use reserve_loop_keeps in blast)
  then show ?case by (auto simp: reserveMany_def split: prod.splits locked.splits)
next
  case (transitions st taskId now updated status cost hold_reason follow)
  show ?case
  proof (cases "nonNegativeInteger (Some cost)")
    case True
    have "store_ok dp p (snd (withLock dp now st (transition_op updated taskId status (int_of (Some cost)) hold_reason follow)))"
      by (rule withLock_ok [OF transitions.IH assms(1)])
        (rule transition_op_ok [OF _ _ transitions(2) nonNegativeInteger_int_of [OF True]])
    with True show ?thesis by (simp add: transition_def)
  qed (use transitions.IH in \<open>simp add: transition_def\<close>)
next
  case (pauses st now created scope i reason until)
  show ?case
  proof (cases "reason \<in> set PAUSE_REASONS \<and> (given_until until = JNull \<or> dp (given_until until) \<noteq> None)")
    case True
    have "store_ok dp p (snd (withLock dp now st (pause_op created k reason (given_until until))))" if "resourceKey scope i = Some k" for k
      by (rule withLock_ok [OF pauses.IH assms(1)]) (use pause_op_ok [OF that] True in blast)
    then show ?thesis using pauses.IH by (auto simp: pauseResource_def split: option.splits)
  qed (use pauses.IH in \<open>auto simp: pauseResource_def split: option.splits\<close>)
qed (auto simp: store_ok_def)

lemma read_reachable:
  assumes "policy_ok p" "capacity_reach dp loc p st" "st_file st = Stored lg"
  shows "readLedger dp (st_file st) = (if lg_spent lg \<le> MAX_SAFE \<and> (\<forall>pa \<in> snd ` set (lg_pauses lg). text_or_null (pa_until pa)) then Some lg else None)"
proof -
  have rows: "rows_valid dp lg" using reach_ok [OF assms(1,2)] assms(3) by (simp add: store_ok_def)
  then have "list_all (\<lambda>(k, r). reservation_valid k r) (lg_reservations lg)"
    by (auto simp: rows_valid_def list_all_iff reservation_sound_def)
  moreover have "list_all (\<lambda>(k, pa). pause_valid dp k pa) (lg_pauses lg) \<longleftrightarrow> (\<forall>pa \<in> snd ` set (lg_pauses lg). text_or_null (pa_until pa))"
    using rows unfolding rows_valid_def list_all_iff pause_valid_sound by fastforce
  ultimately show ?thesis using rows unfolding assms(3)
    by (simp add: readLedger_def validateLedger_def rows_valid_def safe_count_def)
qed

text \<open>A host named like a member of \<open>Object.prototype\<close> passes for configured and has no limit; and the hold
  code depends on the name of an unknown host.\<close>

lemma prototype_host_unlimited:
  assumes "h \<in> set object_prototype" "map_of (po_hosts p) h = None"
  shows "member_of (po_hosts p) h \<noteq> Missing \<and> \<not> limit_reached (po_hosts p) h n"
  using assms by (simp add: member_of_def limit_reached_def)

lemma unknown_premium_host:
  "validation_hold (''capacity unknown for host '' @ ''premium-box'') = held ''PREMIUM_APPROVAL_REQUIRED'' ''capacity unknown for host premium-box''"
  "validation_hold (''capacity unknown for host '' @ ''box-9'') = held ''CAPACITY_UNKNOWN'' ''capacity unknown for host box-9''"
  by (simp_all add: validation_hold_def)

section \<open>A ledger with one build\<close>

definition demo_raw :: json where
  "demo_raw = JObj [(''global_limit'', js_int 2), (''budget_micros'', js_int 100), (''max_deadline_ms'', js_int 1000), (''max_retries'', js_int 1),
     (''max_revisions'', js_int 1), (''reservation_ttl_ms'', js_int 60000), (''hosts'', JObj [(''box'', js_int 2)]),
     (''accounts'', JObj [(''acct'', js_int 2)])]"

definition demo_policy :: policy where
  "demo_policy = \<lparr>po_global = 2, po_reserve = 1, po_budget = 100, po_max_deadline = 1000, po_max_retries = 1, po_max_revisions = 1, po_ttl = 60000,
     po_hosts = [(''box'', 2)], po_accounts = [(''acct'', 2)], po_runtimes = [], po_premium = [], po_approvals = []\<rparr>"

definition demo_task :: task where
  "demo_task = \<lparr>ts_id = ''SHU-1'', ts_role = Some ''build'', ts_runtime = Some ''codex-cli'', ts_host = Some ''box'', ts_account = Some ''acct'',
     ts_repo = Some ''o/r'', ts_branch = Some ''b1'', ts_worktree = Some ''/w1'', ts_blocked = None, ts_overlap = None, ts_fallback = None,
     ts_cost = Some (js_int 40), ts_deadline = Some (js_int 500), ts_retry = Some (js_int 0), ts_revision = Some (js_int 0), ts_priority = None\<rparr>"

definition demo_ledger :: ledger where
  "demo_ledger = \<lparr>lg_spent = 0, lg_reservations = [(''SHU-1'', new_reservation demo_policy demo_task 0 0)], lg_pauses = []\<rparr>"

lemma js_int_checks: "\<bar>n\<bar> \<le> MAX_SAFE \<Longrightarrow> positiveInteger (Some (js_int n)) = (0 < n)" "\<bar>n\<bar> \<le> MAX_SAFE \<Longrightarrow> nonNegativeInteger (Some (js_int n)) = (0 \<le> n)"
  "\<bar>n\<bar> \<le> MAX_SAFE \<Longrightarrow> int_of (Some (js_int n)) = n"
  by (simp_all add: positiveInteger_def nonNegativeInteger_def int_of_def safe_integer_js_int)

lemma demo_policy_valid: "validateCapacityPolicy demo_raw = Some demo_policy"
  by (simp add: validateCapacityPolicy_def demo_raw_def Let_def js_int_checks MAX_SAFE_def limitsMap_def SAFE_ID_def safe_char_def alnum_def
      truthy_def strs_of_def demo_policy_def)

lemma demo_task_valid: "taskValidation demo_task demo_policy = None"
  by (simp add: taskValidation_def demo_task_def txt_of_def launch_tables text_fields_def SAFE_ID_def safe_char_def alnum_def repo_ok_def repo_char_def
      safe_list_def nullish_def member_of_def demo_policy_def js_int_checks MAX_SAFE_def)

lemma demo_run: "reserveMany dp loc demo_policy 0 (\<lambda>_. (0, 0, 0)) \<lparr>st_locked = False, st_file = No_file\<rparr> [demo_task]
    = (Some [Out_reserved (new_reservation demo_policy demo_task 0 0)], \<lparr>st_locked = False, st_file = Stored demo_ledger\<rparr>)"
proof -
  have adm: "admission (slot_of demo_task) empty_ledger demo_policy = Admit"
    by (simp add: admission_def activeReservations_def empty_ledger_def Let_def limit_reached_def member_of_def slot_of_def demo_task_def txt_of_def
        demo_policy_def js_int_checks MAX_SAFE_def)
  have "ts_blocked demo_task = None" "ts_id demo_task = ''SHU-1''" by (simp_all add: demo_task_def)
  with adm have ev: "evaluate dp demo_task empty_ledger demo_policy 0 = (Admit, empty_ledger)"
    unfolding evaluate_def pauseFor_def
    by (simp add: demo_task_valid strs_of_def empty_ledger_def member_of_def object_prototype_def)
  have "expireReservations empty_ledger 0 = empty_ledger" by (simp add: expireReservations_def touch_def empty_ledger_def)
  with ev \<open>ts_id demo_task = ''SHU-1''\<close> show ?thesis
    by (simp add: reserveMany_def withLock_def readLedger_def reserve_one_def date_ok_def Let_def demo_ledger_def empty_ledger_def demo_policy_def)
qed

lemma demo_reach: "capacity_reach dp loc demo_policy \<lparr>st_locked = False, st_file = Stored demo_ledger\<rparr>"
  using capacity_reach.reserves [OF capacity_reach.fresh, of dp loc demo_policy 0 "\<lambda>_. (0, 0, 0)" "[demo_task]"]
  by (simp add: demo_run)

lemma demo_active: "map sl_task (activeReservations demo_ledger) = [''SHU-1'']" "filter (\<lambda>r. \<not> writer r) (activeReservations demo_ledger) = []"
  by (simp_all add: demo_ledger_def activeReservations_def new_reservation_slot(2) writer_def launch_tables)
    (simp_all add: new_reservation_def slot.defs slot_of_def demo_task_def txt_of_def)

lemma demo_read: "readLedger dp (Stored demo_ledger) = Some demo_ledger"
  using read_reachable [OF validated_policy_ok [OF demo_policy_valid] demo_reach, of demo_ledger]
  by (simp add: demo_ledger_def MAX_SAFE_def)

lemma demo_expire: "expireReservations demo_ledger 0 = demo_ledger"
  by (simp add: expireReservations_def touch_def demo_ledger_def expire_reservation_def new_reservation_def slot.defs demo_policy_def)

definition demo_review :: task where
  "demo_review = demo_task\<lparr>ts_id := ''SHU-2'', ts_role := Some ROLE_REVIEW\<rparr>"

lemma demo_review_held: "\<exists>h. evaluate dp demo_review demo_ledger demo_policy 0 = (Held h, demo_ledger)"
proof -
  have "taskValidation demo_review demo_policy = None"
    by (simp add: taskValidation_def demo_review_def demo_task_def txt_of_def launch_tables text_fields_def SAFE_ID_def safe_char_def alnum_def repo_ok_def repo_char_def
        safe_list_def nullish_def member_of_def demo_policy_def js_int_checks MAX_SAFE_def)
  moreover have "\<exists>h. admission (slot_of demo_review) demo_ledger demo_policy = Held h"
    by (simp add: admission_def Let_def demo_ledger_def activeReservations_def new_reservation_slot(2) held_def writer_def)
      (simp add: new_reservation_def slot.defs slot_of_def demo_review_def demo_task_def txt_of_def launch_tables)
  moreover have "ts_blocked demo_review = None" "ts_id demo_review = ''SHU-2''" by (simp_all add: demo_review_def demo_task_def)
  ultimately show ?thesis unfolding evaluate_def pauseFor_def
    by (simp add: strs_of_def demo_ledger_def member_of_def object_prototype_def)
qed

section \<open>Properties\<close>

text \<open>C16. Whatever reservations, transitions, pauses and expiries other processes and this one made, and
  whenever the lock was held, the stored ledger never oversubscribes a valid policy: active
  reservations stay within the global limit, active writers leave the review reserve free, every
  host, account and runtime with a limit of its own stays within it, no two active reservations
  share a worktree or an overlap key, and no two active writers share a branch.\<close>

theorem capacity_never_oversubscribed:
  assumes "validateCapacityPolicy raw = Some p" "capacity_reach dp loc p st" "st_file st = Stored lg"
  shows "int (length (activeReservations lg)) \<le> po_global p
    \<and> int (length (filter writer (activeReservations lg))) \<le> po_global p - po_reserve p
    \<and> (\<forall>h l. map_of (po_hosts p) h = Some l \<longrightarrow> int (length (filter (\<lambda>r. sl_host r = h) (activeReservations lg))) \<le> l)
    \<and> (\<forall>a l. map_of (po_accounts p) a = Some l \<longrightarrow> int (length (filter (\<lambda>r. sl_account r = a) (activeReservations lg))) \<le> l)
    \<and> (\<forall>u l. map_of (po_runtimes p) u = Some l \<longrightarrow> int (length (filter (\<lambda>r. sl_runtime r = u) (activeReservations lg))) \<le> l)
    \<and> sorted_wrt (\<lambda>r s. sl_worktree r \<noteq> sl_worktree s \<and> set (sl_overlap r) \<inter> set (sl_overlap s) = {}
         \<and> (writer r \<and> writer s \<longrightarrow> (sl_repo r, sl_branch r) \<noteq> (sl_repo s, sl_branch s))) (activeReservations lg)"
proof -
  have "caps p (slots lg)"
    using reach_ok [OF validated_policy_ok [OF assms(1)] assms(2)] assms(3) by (simp add: store_ok_def)
  then have c: "int (length (slots lg)) \<le> po_global p" "int (length (filter writer (slots lg))) \<le> po_global p - po_reserve p"
    "limited (po_hosts p) sl_host (slots lg)" "limited (po_accounts p) sl_account (slots lg)" "limited (po_runtimes p) sl_runtime (slots lg)"
    and a: "sorted_wrt apart (slots lg)"
    unfolding caps_def by auto
  from a have "sorted_wrt (\<lambda>r s. apart (slot.truncate r) (slot.truncate s)) (activeReservations lg)"
    by (simp add: slots_def sorted_wrt_map)
  then have "sorted_wrt (\<lambda>r s. sl_worktree r \<noteq> sl_worktree s \<and> set (sl_overlap r) \<inter> set (sl_overlap s) = {}
       \<and> (writer r \<and> writer s \<longrightarrow> (sl_repo r, sl_branch r) \<noteq> (sl_repo s, sl_branch s))) (activeReservations lg)"
    by (rule sorted_wrt_mono_rel [rotated]) (auto simp: apart_def)
  with c show ?thesis unfolding limited_def slots_filter by (simp add: slots_def)
qed

theorem capacity_never_oversubscribed_witness:
  "map sl_task (activeReservations demo_ledger) = [''SHU-1''] \<and> int (length (activeReservations demo_ledger)) \<le> po_global demo_policy
     \<and> int (length (filter writer (activeReservations demo_ledger))) \<le> po_global demo_policy - po_reserve demo_policy"
  using capacity_never_oversubscribed [OF demo_policy_valid demo_reach [of "\<lambda>_. None" "\<lambda>_ _. 0"], of demo_ledger] demo_active(1)
  by simp

text \<open>Reviews always find a slot: as long as fewer reviews are active than the reserve, a review is
  never held for global capacity or for the reserve, however many writers there are.\<close>

theorem review_slot_kept_free:
  assumes "validateCapacityPolicy raw = Some p" "capacity_reach dp loc p st" "st_file st = Stored lg"
    and "int (length (filter (\<lambda>r. \<not> writer r) (activeReservations lg))) < po_reserve p"
    and "ts_role t = Some ROLE_REVIEW"
    and "evaluate dp t (expireReservations lg before) p now = (Held h, lg')"
  shows "hd_code h \<notin> {''GLOBAL_CAPACITY'', ''REVIEW_RESERVE''}"
proof -
  let ?e = "expireReservations lg before"
  have "caps p (slots lg)"
    using reach_ok [OF validated_policy_ok [OF assms(1)] assms(2)] assms(3) by (simp add: store_ok_def)
  then have w: "int (length (filter writer (slots lg))) \<le> po_global p - po_reserve p" unfolding caps_def by simp
  have "length (slots ?e) \<le> length (filter writer (slots lg)) + length (filter (\<lambda>r. \<not> writer r) (slots lg))"
    using list_emb_length [OF slots_expire] sum_length_filter_compl [of writer "slots lg"] by (metis)
  with w assms(4) have room: "int (length (slots ?e)) < po_global p" by (simp add: slots_filter)
  obtain v lg1 where ev: "evaluate dp t ?e p now = (v, lg1)" by fastforce
  have nw: "\<not> writer (slot_of t)" using assms(5) by (simp add: writer_def slot_of_def txt_of_def launch_tables)
  have sl: "slots lg1 = slots ?e" using evaluate_frame [OF ev] slots_cong by blast
  have "hd_code h \<notin> {''GLOBAL_CAPACITY'', ''REVIEW_RESERVE''}" if "admission (slot_of t) lg1 p = Held h" for h
    using that room nw arg_cong [OF sl, of length]
    by (auto simp: admission_def Let_def held_def decision_def slots_def split: option.splits if_splits)
  then show ?thesis using assms(6) ev unfolding evaluate_def
    by (auto simp: validation_hold_def held_def decision_def split: option.splits if_splits member.splits prod.splits)
qed

theorem review_slot_kept_free_witness:
  "\<exists>h. evaluate (\<lambda>_. None) demo_review demo_ledger demo_policy 0 = (Held h, demo_ledger) \<and> hd_code h \<notin> {''GLOBAL_CAPACITY'', ''REVIEW_RESERVE''}"
proof -
  obtain h where h: "evaluate (\<lambda>_. None) demo_review (expireReservations demo_ledger 0) demo_policy 0 = (Held h, demo_ledger)"
    using demo_review_held unfolding demo_expire by blast
  have "int (length (filter (\<lambda>r. \<not> writer r) (activeReservations demo_ledger))) < po_reserve demo_policy" "ts_role demo_review = Some ROLE_REVIEW"
    by (simp_all add: demo_active demo_policy_def demo_review_def)
  from review_slot_kept_free [OF demo_policy_valid demo_reach [where loc = "\<lambda>_ _. 0"] _ this h] h show ?thesis by (simp add: demo_expire)
qed

text \<open>C38. Admitting tasks never takes the money spent plus the estimates of active reservations above
  the budget: after a batch that total is within the budget, or no higher than it already was.\<close>

theorem reservations_within_budget:
  assumes "validateCapacityPolicy raw = Some p" "capacity_reach dp loc p st"
    and "readLedger dp (st_file st) = Some lg"
    and "reserveMany dp loc p now clock st tasks = (res, st')" and "readLedger dp (st_file st') = Some lg'"
  shows "lg_spent lg' + sum_list (map sl_cost (activeReservations lg'))
    \<le> max (po_budget p) (lg_spent lg + sum_list (map sl_cost (activeReservations lg)))"
proof -
  let ?op = "reserve_loop dp p clock (js_sort (\<lambda>a b. taskOrder loc (snd a) (snd b)) (zip [0..<length tasks] tasks))"
  have com: "committed l = lg_spent l + sum_list (map sl_cost (activeReservations l))" for l
    by (simp add: committed_def slots_def o_def)
  note pol = validated_policy_ok [OF assms(1)]
  have lg: "rows_valid dp lg" "caps p (slots lg)" using read_ok [OF reach_ok [OF pol assms(2)] pol assms(3)] by auto
  have st': "st' = snd (withLock dp now st ?op)"
    using assms(4) by (auto simp: reserveMany_def split: prod.splits locked.splits)
  show ?thesis
  proof (cases "\<not> st_locked st \<and> ?op (expireReservations lg now) \<noteq> None")
    case False
    then have "st' = st" unfolding st' by (auto simp: withLock_def assms(3) split: option.splits)
    then show ?thesis using assms(3,5) by simp
  next
    case True
    then obtain outs lg1 where run: "?op (expireReservations lg now) = Some (outs, lg1)" by auto
    with True have "st_file st' = Stored lg1" unfolding st' by (simp add: withLock_def assms(3))
    then have "lg' = lg1" using assms(5) by (simp add: readLedger_def split: if_splits)
    with reserve_loop_keeps [OF run] expire_ok [of dp lg p now] lg committed_expire [OF lg(1), of now] show ?thesis
      unfolding com by fastforce
  qed
qed

theorem reservations_within_budget_witness:
  "lg_spent demo_ledger + sum_list (map sl_cost (activeReservations demo_ledger)) \<le> 100"
  using reservations_within_budget [OF demo_policy_valid capacity_reach.fresh _ demo_run [of "\<lambda>_. None" "\<lambda>_ _. 0"], of empty_ledger demo_ledger]
  by (simp add: readLedger_def [of _ No_file] demo_read demo_policy_def empty_ledger_def activeReservations_def)

text \<open>C39. Every ledger the scheduler stores reads back as it is, unless the total spent is no safe integer
  any more, or a pause was given an expiry that \<open>Date.parse\<close> accepts and that is no text, as the
  number 2030, which the scheduler stores; then, and only then, validation refuses the ledger, and with
  it every later transaction. In every stored ledger each pause has a key and a reason validation accepts.\<close>

theorem stored_ledger_reads_back:
  assumes "validateCapacityPolicy raw = Some p" "capacity_reach dp loc p st" "st_file st = Stored lg"
  shows "readLedger dp (st_file st)
      = (if lg_spent lg \<le> MAX_SAFE \<and> (\<forall>pa \<in> snd ` set (lg_pauses lg). pa_until pa = JNull \<or> (\<exists>u. pa_until pa = JStr u)) then Some lg else None)
    \<and> (\<forall>(k, pa) \<in> set (lg_pauses lg). pause_key_ok k \<and> pa_reason pa \<in> set PAUSE_REASONS \<and> (pa_until pa = JNull \<or> dp (pa_until pa) \<noteq> None))"
proof
  show "readLedger dp (st_file st)
      = (if lg_spent lg \<le> MAX_SAFE \<and> (\<forall>pa \<in> snd ` set (lg_pauses lg). pa_until pa = JNull \<or> (\<exists>u. pa_until pa = JStr u)) then Some lg else None)"
    using read_reachable [OF validated_policy_ok [OF assms(1)] assms(2,3)] unfolding text_or_null_def .
  show "\<forall>(k, pa) \<in> set (lg_pauses lg). pause_key_ok k \<and> pa_reason pa \<in> set PAUSE_REASONS \<and> (pa_until pa = JNull \<or> dp (pa_until pa) \<noteq> None)"
    using reach_ok [OF validated_policy_ok [OF assms(1)] assms(2)] assms(3)
    by (auto simp: store_ok_def rows_valid_def list_all_iff pause_sound_def)
qed

text \<open>A pause until the number 2030, on an empty store.\<close>

definition demo_year :: "json \<Rightarrow> int option" where
  "demo_year v = (if v = js_int 2030 then Some 1893456000000 else None)"

definition demo_paused :: ledger where
  "demo_paused = \<lparr>lg_spent = 0, lg_reservations = [], lg_pauses = [(''global'', \<lparr>pa_reason = ''quota'', pa_until = js_int 2030, pa_created = 0\<rparr>)]\<rparr>"

lemma demo_pause_run: "pauseResource demo_year 0 0 \<lparr>st_locked = False, st_file = No_file\<rparr> ''global'' None ''quota'' (Some (js_int 2030))
    = (Done (''global'', \<lparr>pa_reason = ''quota'', pa_until = js_int 2030, pa_created = 0\<rparr>), \<lparr>st_locked = False, st_file = Stored demo_paused\<rparr>)"
  by (simp add: pauseResource_def PAUSE_REASONS_def demo_year_def resourceKey_def CAPACITY_RESOURCES_def withLock_def readLedger_def empty_ledger_def
      expireReservations_def touch_def pause_op_def date_ok_def demo_paused_def Let_def given_until_def)

theorem stored_ledger_reads_back_witness:
  "readLedger (\<lambda>_. None) (Stored demo_ledger) = Some demo_ledger \<and> readLedger demo_year (Stored demo_paused) = None"
proof
  show "readLedger (\<lambda>_. None) (Stored demo_ledger) = Some demo_ledger"
    using stored_ledger_reads_back [OF demo_policy_valid demo_reach [of "\<lambda>_. None" "\<lambda>_ _. 0"], of demo_ledger]
    by (simp add: demo_ledger_def MAX_SAFE_def)
  have "capacity_reach demo_year loc demo_policy \<lparr>st_locked = False, st_file = Stored demo_paused\<rparr>" for loc
    using capacity_reach.pauses [OF capacity_reach.fresh, of demo_year loc demo_policy 0 0 "''global''" None "''quota''" "Some (js_int 2030)"]
    by (simp add: demo_pause_run)
  from stored_ledger_reads_back [OF demo_policy_valid this [of "\<lambda>_ _. 0"], of demo_paused]
  show "readLedger demo_year (Stored demo_paused) = None" by (simp add: demo_paused_def js_int_def)
qed

end
