(* ===== verification/Pay_Terms.thy ===== *)
theory Pay_Terms
  imports Idempotency Js_Values
begin

declare map_of_eq_Some_iff [simp del] Some_eq_map_of_iff [simp del]

text \<open>
  Pay contracts, the values: \<^verbatim>\<open>packages/pay-contracts/src\<close>, exact money
  (\<^verbatim>\<open>decimal.ts\<close>), calendar dates, and the normalization of contract terms and payloads
  (the first half of \<^verbatim>\<open>contracts.ts\<close>). Input is JSON. \<open>nt\<close> is \<open>String\<close> of a number.
\<close>

section \<open>Exact money\<close>

definition decimal_int :: "string \<Rightarrow> bool" where
  "decimal_int i \<longleftrightarrow> i = ''0'' \<or> (i \<noteq> [] \<and> length i \<le> 9 \<and> list_all digit_char i \<and> hd i \<noteq> CHR ''0'')"

text \<open>The two groups of \<open>DECIMAL\<close>.\<close>

definition decimal_match :: "string \<Rightarrow> (string \<times> string) option" where
  "decimal_match s = (case js_split (CHR ''.'') s of
     [i] \<Rightarrow> if decimal_int i then Some (i, []) else None
   | [i, f] \<Rightarrow> if decimal_int i \<and> f \<noteq> [] \<and> length f \<le> 3 \<and> list_all digit_char f then Some (i, f) else None
   | _ \<Rightarrow> None)"

definition pad3 :: "string \<Rightarrow> string" where
  "pad3 f = f @ replicate (3 - length f) (CHR ''0'')"

definition numberText :: "(rat \<Rightarrow> string) \<Rightarrow> rat option \<Rightarrow> string option" where
  "numberText nt n = (case n of None \<Rightarrow> None | Some r \<Rightarrow>
     if r < 0 \<or> CHR ''e'' \<in> set (nt r) \<or> CHR ''E'' \<in> set (nt r) then None else Some (nt r))"

definition canonical_text :: "string \<Rightarrow> string option" where
  "canonical_text s = (case decimal_match (js_trim s) of None \<Rightarrow> None | Some (i, f) \<Rightarrow> Some (i @ CHR ''.'' # pad3 f))"

definition canonicalDecimal :: "(rat \<Rightarrow> string) \<Rightarrow> json option \<Rightarrow> string option" where
  "canonicalDecimal nt v = (case v of
     Some (JStr s) \<Rightarrow> canonical_text s
   | Some (JNum n) \<Rightarrow> Option.bind (numberText nt n) canonical_text
   | _ \<Rightarrow> None)"

text \<open>\<open>None\<close>: throws.\<close>

definition thousandths :: "string \<Rightarrow> nat option" where
  "thousandths s = map_option (\<lambda>c. read_nat (filter (\<lambda>x. x \<noteq> CHR ''.'') c)) (canonical_text s)"

definition compareDecimal :: "string \<Rightarrow> string \<Rightarrow> int option" where
  "compareDecimal a b = (case (thousandths a, thousandths b) of
     (Some l, Some r) \<Rightarrow> Some (if l < r then -1 else if l > r then 1 else 0) | _ \<Rightarrow> None)"

definition isPositiveDecimal :: "string \<Rightarrow> bool option" where
  "isPositiveDecimal s = map_option (\<lambda>n. 0 < n) (thousandths s)"

section \<open>Calendar dates\<close>

definition leap :: "nat \<Rightarrow> bool" where
  "leap y \<longleftrightarrow> (y mod 4 = 0 \<and> y mod 100 \<noteq> 0) \<or> y mod 400 = 0"

definition days_in_month :: "nat \<Rightarrow> nat \<Rightarrow> nat" where
  "days_in_month y m = (if m = 2 then (if leap y then 29 else 28) else if m \<in> {4, 6, 9, 11} then 30 else 31)"

definition isCalendarDate :: "string \<Rightarrow> bool" where
  "isCalendarDate s = (case js_split (CHR ''-'') s of
     [y, m, d] \<Rightarrow> length y = 4 \<and> length m = 2 \<and> length d = 2 \<and> list_all digit_char (y @ m @ d) \<and> y \<noteq> ''0000''
       \<and> 1 \<le> read_nat m \<and> read_nat m \<le> 12 \<and> 1 \<le> read_nat d \<and> read_nat d \<le> days_in_month (read_nat y) (read_nat m)
   | _ \<Rightarrow> False)"

section \<open>Contracts\<close>

datatype pay_model = Hourly_model | Fixed_price_model | Monthly_salary_model

definition pay_model_text :: "pay_model \<Rightarrow> string" where
  "pay_model_text m = (case m of Hourly_model \<Rightarrow> ''hourly'' | Fixed_price_model \<Rightarrow> ''fixed_price'' | Monthly_salary_model \<Rightarrow> ''monthly_salary'')"

definition PAY_MODELS :: "string list" where
  "PAY_MODELS = map pay_model_text [Hourly_model, Fixed_price_model, Monthly_salary_model]"

definition isPayModel :: "json option \<Rightarrow> bool" where
  "isPayModel v \<longleftrightarrow> (case v of Some (JStr s) \<Rightarrow> s \<in> set PAY_MODELS | _ \<Rightarrow> False)"

datatype contract_terms =
    Hourly (cand_amount: string) (comp_amount: string)
  | Fixed_price (cand_amount: string) (comp_amount: string) (completion: nat)
  | Monthly_salary (cand_amount: string) (comp_amount: string) (salary_day: nat)

fun model_of :: "contract_terms \<Rightarrow> pay_model" where
  "model_of (Hourly _ _) = Hourly_model"
| "model_of (Fixed_price _ _ _) = Fixed_price_model"
| "model_of (Monthly_salary _ _ _) = Monthly_salary_model"

datatype contract_status = Active_contract | Inactive_contract | Deleted_contract

record editable =
  pc_start :: string
  pc_end :: "string option"
  pc_currency :: string
  pc_transfer_cost :: string
  pc_auto :: bool
  pc_status :: contract_status
  pc_terms :: contract_terms

record parties =
  py_candidate :: string
  py_company :: string
  py_store :: string

datatype pay_error = Pay_error string nat | Store_error string

definition invalid :: "string \<Rightarrow> pay_error + 'a" where
  "invalid code = Inl (Pay_error code 400)"

section \<open>Normalization\<close>

definition closedObject :: "json option \<Rightarrow> string list \<Rightarrow> pay_error + json" where
  "closedObject v allowed = (case v of
     Some (JObj m) \<Rightarrow> if fst ` set m \<subseteq> set allowed then Inr (JObj m) else invalid ''invalid_contract''
   | _ \<Rightarrow> invalid ''invalid_contract'')"

definition party_char :: "char \<Rightarrow> bool" where
  "party_char c \<longleftrightarrow> alnum c \<or> c \<in> set ''._:@-''"

definition partyId :: "json option \<Rightarrow> string \<Rightarrow> pay_error + string" where
  "partyId v code = (case v of
     Some (JStr s) \<Rightarrow> if s \<noteq> [] \<and> length s \<le> 128 \<and> alnum (hd s) \<and> list_all party_char s then Inr s else invalid code
   | _ \<Rightarrow> invalid code)"

definition pay_date :: "json option \<Rightarrow> string \<Rightarrow> pay_error + string" where
  "pay_date v code = (case v of Some (JStr s) \<Rightarrow> if isCalendarDate s then Inr s else invalid code | _ \<Rightarrow> invalid code)"

definition money :: "(rat \<Rightarrow> string) \<Rightarrow> json option \<Rightarrow> string \<Rightarrow> bool \<Rightarrow> pay_error + string" where
  "money nt v code positive = (case canonicalDecimal nt v of
     None \<Rightarrow> invalid code
   | Some c \<Rightarrow> if positive \<and> isPositiveDecimal c \<noteq> Some True then invalid code else Inr c)"

definition wholeNumber :: "json option \<Rightarrow> nat \<Rightarrow> nat \<Rightarrow> string \<Rightarrow> pay_error + nat" where
  "wholeNumber v lo hi code =
     (let parsed = (case v of
          Some (JStr s) \<Rightarrow> if s \<noteq> [] \<and> length s \<le> 3 \<and> list_all digit_char s then Some (int (read_nat s)) else None
        | Some (JNum (Some r)) \<Rightarrow> if of_int \<lfloor>r\<rfloor> = r then Some \<lfloor>r\<rfloor> else None
        | _ \<Rightarrow> None)
      in case parsed of None \<Rightarrow> invalid code | Some n \<Rightarrow> if n < int lo \<or> n > int hi then invalid code else Inr (nat n))"

definition companyCovers :: "string \<Rightarrow> string \<Rightarrow> pay_error + unit" where
  "companyCovers company candidate = (if compareDecimal company candidate = Some (- 1) then invalid ''company_amount_below_candidate'' else Inr ())"

text \<open>The amounts of the two sides, and that the company's covers the candidate's.\<close>

definition amounts :: "(rat \<Rightarrow> string) \<Rightarrow> json \<Rightarrow> string \<Rightarrow> string \<Rightarrow> string \<Rightarrow> string \<Rightarrow> pay_error + (string \<times> string)" where
  "amounts nt raw cand_key cand_code comp_key comp_code =
     bind_result (money nt (json_get raw cand_key) cand_code True) (\<lambda>cand.
     bind_result (money nt (json_get raw comp_key) comp_code True) (\<lambda>comp.
     bind_result (companyCovers comp cand) (\<lambda>_. Inr (cand, comp))))"

definition normalizeTerms :: "(rat \<Rightarrow> string) \<Rightarrow> json option \<Rightarrow> pay_error + contract_terms" where
  "normalizeTerms nt v =
     (let kind = (case v of None \<Rightarrow> None | Some j \<Rightarrow> json_get j ''payModel'')
      in if \<not> isPayModel kind then invalid ''invalid_pay_model''
         else if kind = Some (JStr ''hourly'') then
           bind_result (closedObject v [''payModel'', ''candidateHourlyRate'', ''companyHourlyRate'']) (\<lambda>raw.
           bind_result (amounts nt raw ''candidateHourlyRate'' ''invalid_candidate_rate'' ''companyHourlyRate'' ''invalid_company_rate'') (\<lambda>(cand, comp).
             Inr (Hourly cand comp)))
         else if kind = Some (JStr ''fixed_price'') then
           bind_result (closedObject v [''payModel'', ''candidateTotal'', ''companyTotal'', ''completionPercentage'']) (\<lambda>raw.
           bind_result (amounts nt raw ''candidateTotal'' ''invalid_candidate_total'' ''companyTotal'' ''invalid_company_total'') (\<lambda>(cand, comp).
           bind_result (wholeNumber (json_get raw ''completionPercentage'') 0 100 ''invalid_completion_percentage'') (\<lambda>pct.
             Inr (Fixed_price cand comp pct))))
         else
           bind_result (closedObject v [''payModel'', ''candidateTotal'', ''companyTotal'', ''salaryDay'']) (\<lambda>raw.
           bind_result (amounts nt raw ''candidateTotal'' ''invalid_candidate_total'' ''companyTotal'' ''invalid_company_total'') (\<lambda>(cand, comp).
           bind_result (wholeNumber (json_get raw ''salaryDay'') 1 31 ''invalid_salary_day'') (\<lambda>day.
             Inr (Monthly_salary cand comp day)))))"

definition uuid_any :: "string \<Rightarrow> bool" where
  "uuid_any s \<longleftrightarrow> (case js_split (CHR ''-'') s of
     [a, b, c, d, e] \<Rightarrow> map length [a, b, c, d, e] = [8, 4, 4, 4, 12] \<and> list_all any_hex (a @ b @ c @ d @ e)
        \<and> hd c \<in> set ''12345'' \<and> hd d \<in> set ''89abAB''
   | _ \<Rightarrow> False)"

definition status_of :: "json option \<Rightarrow> contract_status option" where
  "status_of v = (if nullish v \<or> v = Some (JStr ''active'') then Some Active_contract
     else if v = Some (JStr ''inactive'') then Some Inactive_contract else None)"

definition normalizeEditable :: "(rat \<Rightarrow> string) \<Rightarrow> json \<Rightarrow> pay_error + editable" where
  "normalizeEditable nt raw =
     bind_result (pay_date (json_get raw ''startDate'') ''invalid_start_date'') (\<lambda>start.
     bind_result (let e = json_get raw ''endDate'' in
        if nullish e \<or> e = Some (JStr []) then Inr None else map_sum id Some (pay_date e ''invalid_end_date'')) (\<lambda>ending.
     bind_result (ensure (case ending of None \<Rightarrow> True | Some e \<Rightarrow> \<not> e < start) (Pay_error ''invalid_end_date'' 400)) (\<lambda>_.
     bind_result (case json_get raw ''currencyId'' of Some (JStr c) \<Rightarrow> if uuid_any c then Inr (map js_lower c) else invalid ''invalid_currency''
        | _ \<Rightarrow> invalid ''invalid_currency'') (\<lambda>currency.
     bind_result (let t = json_get raw ''transferCost'' in
        money nt (if nullish t then Some (JStr ''0'') else t) ''invalid_transfer_cost'' False) (\<lambda>cost.
     bind_result (normalizeTerms nt (json_get raw ''terms'')) (\<lambda>terms.
     bind_result (case json_get raw ''autoGenerate'' of None \<Rightarrow> Inr False | Some (JBool b) \<Rightarrow> Inr b | _ \<Rightarrow> invalid ''invalid_auto_generate'') (\<lambda>auto.
     bind_result (ensure (\<not> (auto \<and> model_of terms \<noteq> Monthly_salary_model)) (Pay_error ''invalid_auto_generate'' 400)) (\<lambda>_.
     case status_of (json_get raw ''status'') of None \<Rightarrow> invalid ''invalid_status''
     | Some status \<Rightarrow> Inr \<lparr>pc_start = start, pc_end = ending, pc_currency = currency, pc_transfer_cost = cost, pc_auto = auto,
         pc_status = status, pc_terms = terms\<rparr>))))))))"

definition UPDATABLE :: "string list" where
  "UPDATABLE = [''startDate'', ''endDate'', ''currencyId'', ''transferCost'', ''autoGenerate'', ''status'', ''terms'']"

definition CONTRACT_FIELDS :: "string list" where
  "CONTRACT_FIELDS = [''candidateId'', ''companyId'', ''storeId''] @ UPDATABLE"

definition normalizePayContractCreate :: "(rat \<Rightarrow> string) \<Rightarrow> json option \<Rightarrow> pay_error + (parties \<times> editable)" where
  "normalizePayContractCreate nt v =
     bind_result (closedObject v CONTRACT_FIELDS) (\<lambda>raw.
     bind_result (partyId (json_get raw ''candidateId'') ''invalid_candidate'') (\<lambda>candidate.
     bind_result (partyId (json_get raw ''companyId'') ''invalid_company'') (\<lambda>company.
     bind_result (partyId (json_get raw ''storeId'') ''invalid_store'') (\<lambda>store.
     bind_result (normalizeEditable nt raw) (\<lambda>fields.
       Inr (\<lparr>py_candidate = candidate, py_company = company, py_store = store\<rparr>, fields))))))"

definition normalizePayContractUpdate :: "(rat \<Rightarrow> string) \<Rightarrow> json option \<Rightarrow> pay_error + editable" where
  "normalizePayContractUpdate nt v = bind_result (closedObject v UPDATABLE) (normalizeEditable nt)"

text \<open>Lower case is a normal form of a uuid.\<close>

lemma js_lower_lower: "js_lower (js_lower c) = js_lower c"
  by (auto simp: js_lower_def Let_def of_char_of)

lemma uuid_any_lower: "uuid_any u \<Longrightarrow> uuid_any (map js_lower u)"
proof -
  assume "uuid_any u"
  then obtain a b c d e where u: "js_split (CHR ''-'') u = [a, b, c, d, e]" "map length [a, b, c, d, e] = [8, 4, 4, 4, 12]"
    "list_all any_hex (a @ b @ c @ d @ e)" "hd c \<in> set ''12345''" "hd d \<in> set ''89abAB''"
    by (auto simp: uuid_any_def split: list.splits)
  have split: "js_split (CHR ''-'') (map js_lower u) = map (map js_lower) [a, b, c, d, e]"
    unfolding u(1) [symmetric] by (rule js_split_map) (rule js_lower_dash)
  have "hd (map js_lower c) \<in> set ''12345''" using u(2,4) by (cases c) (auto simp: js_lower_def)
  moreover have "hd (map js_lower d) \<in> set ''89abAB''" using u(2,5) by (cases d) (auto simp: js_lower_def hex_letters)
  moreover have "list_all any_hex (map js_lower (a @ b @ c @ d @ e))" using u(3) any_hex_lower by (auto simp: list_all_iff)
  ultimately show ?thesis using u(2) by (simp add: uuid_any_def split)
qed

end
