(* ===== verification/Pay_Contracts.thy ===== *)
theory Pay_Contracts
  imports Pay_Terms
begin

declare map_of_eq_Some_iff [simp del] Some_eq_map_of_iff [simp del]

text \<open>
  Pay contracts, the service and its store: the class \<^verbatim>\<open>PayContracts\<close> of
  \<^verbatim>\<open>packages/pay-contracts/src/contracts.ts\<close> over the in-memory store of
  \<^verbatim>\<open>memory-store.ts\<close>, which runs one transaction after another on a copy and keeps the
  copy when the work succeeds. What a read before the transaction answered is an argument, so
  other transactions may come between. The specification is a table of bookings: which candidate is
  booked at which store for which days, under which contract.
\<close>

section \<open>The store\<close>

record pay_contract =
  ct_id :: string
  ct_parties :: parties
  ct_fields :: editable
  ct_created :: string
  ct_updated :: string
  ct_deleted :: "string option"

record pay_audit =
  au_operation :: string
  au_actor :: string
  au_candidate :: string
  au_company :: string
  au_model :: pay_model
  au_before :: int
  au_after :: int

record pay_store =
  ps_rows :: "(string, pay_contract) js_map"
  ps_audit :: "pay_audit list"
  ps_fail :: bool

definition live :: "pay_contract \<Rightarrow> bool" where
  "live c \<longleftrightarrow> pc_status (ct_fields c) \<noteq> Deleted_contract"

definition store_get :: "pay_store \<Rightarrow> string \<Rightarrow> pay_contract option" where
  "store_get st i = map_of (ps_rows st) i"

definition store_list :: "pay_store \<Rightarrow> string \<Rightarrow> pay_contract list" where
  "store_list st candidate = filter (\<lambda>c. py_candidate (ct_parties c) = candidate) (map snd (ps_rows st))"

definition lockPair :: "pay_store \<Rightarrow> string \<Rightarrow> string \<Rightarrow> pay_contract list" where
  "lockPair st candidate shop = filter (\<lambda>c. py_candidate (ct_parties c) = candidate \<and> py_store (ct_parties c) = shop) (map snd (ps_rows st))"

definition tx_insert :: "pay_contract \<Rightarrow> pay_store \<Rightarrow> pay_error + pay_store" where
  "tx_insert c st = (if map_of (ps_rows st) (ct_id c) \<noteq> None then Inl (Store_error ''duplicate contract id'')
     else Inr (st\<lparr>ps_rows := AList.update (ct_id c) c (ps_rows st)\<rparr>))"

definition tx_replace :: "pay_contract \<Rightarrow> pay_store \<Rightarrow> pay_error + pay_store" where
  "tx_replace c st = (case map_of (ps_rows st) (ct_id c) of
     Some current \<Rightarrow> if ct_parties current = ct_parties c then Inr (st\<lparr>ps_rows := AList.update (ct_id c) c (ps_rows st)\<rparr>)
                     else Inl (Store_error ''contract parties changed'')
   | None \<Rightarrow> Inl (Store_error ''contract parties changed''))"

definition tx_audit :: "pay_audit \<Rightarrow> pay_store \<Rightarrow> pay_error + pay_store" where
  "tx_audit entry st = (if ps_fail st then Inl (Store_error ''injected audit failure'')
     else Inr (st\<lparr>ps_audit := ps_audit st @ [entry]\<rparr>))"

definition pay_transaction :: "(pay_store \<Rightarrow> pay_error + ('a \<times> pay_store)) \<Rightarrow> pay_store \<Rightarrow> (pay_error + 'a) \<times> pay_store" where
  "pay_transaction work st = (case work st of
     Inr (result, st') \<Rightarrow> (Inr result, st')
   | Inl e \<Rightarrow> (Inl e, if e = Store_error ''injected audit failure'' then st\<lparr>ps_fail := False\<rparr> else st))"

section \<open>References\<close>

datatype ref_answer = Ref_active | Ref_deleted | Ref_unknown | Ref_fails

datatype reference_type = Currency_reference | Bank_reference

type_synonym reference_items = "(string, reference_type \<times> ref_answer) js_map"

definition resolver_set :: "reference_items \<Rightarrow> reference_type \<Rightarrow> string \<Rightarrow> bool \<Rightarrow> reference_items" where
  "resolver_set items t i active = AList.update i (t, if active then Ref_active else Ref_deleted) items"

definition resolver_resolve :: "reference_items \<Rightarrow> reference_type \<Rightarrow> string \<Rightarrow> ref_answer" where
  "resolver_resolve items t i = (case map_of items i of Some (u, a) \<Rightarrow> if u = t then a else Ref_unknown | None \<Rightarrow> Ref_unknown)"

definition assertCurrency :: "(string \<Rightarrow> ref_answer) \<Rightarrow> string \<Rightarrow> string option \<Rightarrow> pay_error + unit" where
  "assertCurrency resolve currency previous =
     (if Some currency = previous then Inr ()
      else case resolve currency of
        Ref_fails \<Rightarrow> Inl (Pay_error ''reference_unavailable'' 503)
      | Ref_active \<Rightarrow> Inr ()
      | Ref_deleted \<Rightarrow> invalid ''invalid_currency'' | Ref_unknown \<Rightarrow> invalid ''invalid_currency'')"

section \<open>The service\<close>

definition overlaps :: "string \<times> string option \<Rightarrow> string \<times> string option \<Rightarrow> bool" where
  "overlaps a b = (case (a, b) of ((start_a, end_a), (start_b, end_b)) \<Rightarrow>
     (case end_a of None \<Rightarrow> True | Some e \<Rightarrow> e \<ge> start_b) \<and> (case end_b of None \<Rightarrow> True | Some e \<Rightarrow> e \<ge> start_a))"

definition days_of :: "editable \<Rightarrow> string \<times> string option" where
  "days_of f = (pc_start f, pc_end f)"

definition assertNoOverlap :: "pay_contract list \<Rightarrow> string \<Rightarrow> editable \<Rightarrow> pay_error + unit" where
  "assertNoOverlap existing i f =
     ensure (\<not> list_ex (\<lambda>c. live c \<and> ct_id c \<noteq> i \<and> overlaps (days_of (ct_fields c)) (days_of f)) existing) (Pay_error ''overlapping_contract'' 409)"

definition requireActor :: "string \<Rightarrow> pay_error + unit" where
  "requireActor actor = ensure (actor \<noteq> []) (Pay_error ''unauthorized'' 401)"

definition requireId :: "json option \<Rightarrow> pay_error + string" where
  "requireId v = (case v of Some (JStr s) \<Rightarrow> if uuid_any s then Inr (map js_lower s) else Inl (Pay_error ''not_found'' 404)
     | _ \<Rightarrow> Inl (Pay_error ''not_found'' 404))"

definition liveCount :: "pay_contract list \<Rightarrow> int" where
  "liveCount cs = int (length (filter live cs))"

definition audit_entry :: "string \<Rightarrow> string \<Rightarrow> pay_contract \<Rightarrow> int \<Rightarrow> int \<Rightarrow> pay_audit" where
  "audit_entry operation actor c before after = \<lparr>au_operation = operation, au_actor = actor, au_candidate = py_candidate (ct_parties c),
     au_company = py_company (ct_parties c), au_model = model_of (pc_terms (ct_fields c)), au_before = before, au_after = after\<rparr>"

definition contract_get :: "pay_store \<Rightarrow> json option \<Rightarrow> pay_error + pay_contract" where
  "contract_get st v = bind_result (requireId v) (\<lambda>i. case store_get st i of
     Some c \<Rightarrow> if live c then Inr c else Inl (Pay_error ''not_found'' 404) | None \<Rightarrow> Inl (Pay_error ''not_found'' 404))"

definition newest_first :: "(string \<Rightarrow> string \<Rightarrow> int) \<Rightarrow> pay_contract \<Rightarrow> pay_contract \<Rightarrow> bool" where
  "newest_first loc a b = (let byStart = loc (pc_start (ct_fields b)) (pc_start (ct_fields a))
     in (if byStart \<noteq> 0 then byStart else loc (ct_id a) (ct_id b)) \<le> 0)"

definition contract_list :: "(string \<Rightarrow> string \<Rightarrow> int) \<Rightarrow> pay_store \<Rightarrow> json option \<Rightarrow> pay_error + pay_contract list" where
  "contract_list loc st v = bind_result (partyId v ''invalid_candidate'') (\<lambda>i.
     Inr (js_sort (newest_first loc) (filter (\<lambda>c. py_candidate (ct_parties c) = i \<and> live c) (store_list st i))))"

definition create_work :: "string \<Rightarrow> string \<Rightarrow> string \<Rightarrow> parties \<Rightarrow> editable \<Rightarrow> pay_store \<Rightarrow> pay_error + (pay_contract \<times> pay_store)" where
  "create_work actor now i p f tx =
     (let existing = lockPair tx (py_candidate p) (py_store p);
          c = \<lparr>ct_id = i, ct_parties = p, ct_fields = f, ct_created = now, ct_updated = now, ct_deleted = None\<rparr>;
          before = liveCount existing
      in bind_result (assertNoOverlap existing i f) (\<lambda>_.
         bind_result (tx_insert c tx) (\<lambda>tx1.
         bind_result (tx_audit (audit_entry ''pay_contract.create'' actor c before (before + 1)) tx1) (\<lambda>tx2. Inr (c, tx2)))))"

definition contract_create :: "(rat \<Rightarrow> string) \<Rightarrow> (string \<Rightarrow> ref_answer) \<Rightarrow> string \<Rightarrow> json option \<Rightarrow> string \<Rightarrow> string \<Rightarrow> pay_store
    \<Rightarrow> (pay_error + pay_contract) \<times> pay_store" where
  "contract_create nt resolve actor input now i st =
     (case bind_result (requireActor actor) (\<lambda>_. bind_result (normalizePayContractCreate nt input) (\<lambda>(p, f).
           bind_result (assertCurrency resolve (pc_currency f) None) (\<lambda>_. Inr (p, f)))) of
        Inl e \<Rightarrow> (Inl e, st)
      | Inr (p, f) \<Rightarrow> pay_transaction (create_work actor now i p f) st)"

definition update_work :: "string \<Rightarrow> string \<Rightarrow> string \<Rightarrow> editable \<Rightarrow> pay_contract option \<Rightarrow> pay_store \<Rightarrow> pay_error + (pay_contract \<times> pay_store)" where
  "update_work actor now i f previous tx =
     (case map_of (ps_rows tx) i of None \<Rightarrow> Inl (Pay_error ''not_found'' 404) | Some current \<Rightarrow>
      if \<not> live current then Inl (Pay_error ''not_found'' 404)
      else if map_option (\<lambda>c. pc_currency (ct_fields c)) previous \<noteq> Some (pc_currency (ct_fields current))
          \<and> pc_currency f \<noteq> pc_currency (ct_fields current) then Inl (Pay_error ''contract_changed'' 409)
      else (let existing = lockPair tx (py_candidate (ct_parties current)) (py_store (ct_parties current));
                c = current\<lparr>ct_fields := f, ct_updated := now\<rparr>; n = liveCount existing
            in bind_result (assertNoOverlap existing i f) (\<lambda>_.
               bind_result (tx_replace c tx) (\<lambda>tx1.
               bind_result (tx_audit (audit_entry ''pay_contract.update'' actor c n n) tx1) (\<lambda>tx2. Inr (c, tx2))))))"

text \<open>\<open>previous\<close> is what the store held under the id when the currency was checked.\<close>

definition contract_update :: "(rat \<Rightarrow> string) \<Rightarrow> (string \<Rightarrow> ref_answer) \<Rightarrow> pay_contract option \<Rightarrow> string \<Rightarrow> json option \<Rightarrow> json option \<Rightarrow> string \<Rightarrow> pay_store
    \<Rightarrow> (pay_error + pay_contract) \<times> pay_store" where
  "contract_update nt resolve previous actor idInput input now st =
     (case bind_result (requireActor actor) (\<lambda>_. bind_result (requireId idInput) (\<lambda>i. bind_result (normalizePayContractUpdate nt input) (\<lambda>f.
           bind_result (assertCurrency resolve (pc_currency f) (map_option (\<lambda>c. pc_currency (ct_fields c)) previous)) (\<lambda>_. Inr (i, f))))) of
        Inl e \<Rightarrow> (Inl e, st)
      | Inr (i, f) \<Rightarrow> pay_transaction (update_work actor now i f previous) st)"

definition remove_work :: "string \<Rightarrow> string \<Rightarrow> string \<Rightarrow> pay_store \<Rightarrow> pay_error + (pay_contract \<times> pay_store)" where
  "remove_work actor now i tx =
     (case map_of (ps_rows tx) i of None \<Rightarrow> Inl (Pay_error ''not_found'' 404) | Some current \<Rightarrow>
      if \<not> live current then Inl (Pay_error ''not_found'' 404)
      else (let existing = lockPair tx (py_candidate (ct_parties current)) (py_store (ct_parties current));
                c = current\<lparr>ct_fields := (ct_fields current)\<lparr>pc_status := Deleted_contract\<rparr>, ct_deleted := Some now, ct_updated := now\<rparr>;
                before = liveCount existing
            in bind_result (tx_replace c tx) (\<lambda>tx1.
               bind_result (tx_audit (audit_entry ''pay_contract.remove'' actor c before (before - 1)) tx1) (\<lambda>tx2. Inr (c, tx2)))))"

definition contract_remove :: "string \<Rightarrow> json option \<Rightarrow> string \<Rightarrow> pay_store \<Rightarrow> (pay_error + pay_contract) \<times> pay_store" where
  "contract_remove actor idInput now st =
     (case bind_result (requireActor actor) (\<lambda>_. requireId idInput) of
        Inl e \<Rightarrow> (Inl e, st)
      | Inr i \<Rightarrow> pay_transaction (remove_work actor now i) st)"

inductive pay_step :: "(rat \<Rightarrow> string) \<Rightarrow> pay_store \<Rightarrow> pay_store \<Rightarrow> bool" for nt where
  creates: "contract_create nt resolve actor input now i st = (res, st') \<Longrightarrow> pay_step nt st st'"
| updates: "contract_update nt resolve previous actor idInput input now st = (res, st') \<Longrightarrow> pay_step nt st st'"
| removes: "contract_remove actor idInput now st = (res, st') \<Longrightarrow> pay_step nt st st'"
| fails_next: "pay_step nt st (st\<lparr>ps_fail := True\<rparr>)"

definition pay_reach :: "(rat \<Rightarrow> string) \<Rightarrow> pay_store \<Rightarrow> bool" where
  "pay_reach nt st \<longleftrightarrow> (pay_step nt)\<^sup>*\<^sup>* \<lparr>ps_rows = [], ps_audit = [], ps_fail = False\<rparr> st"

section \<open>The specification: a table of bookings\<close>

datatype booking = Booking (bk_candidate: string) (bk_store: string) (bk_days: "string \<times> string option")
type_synonym bookings = "string \<rightharpoonup> booking"

definition clash :: "booking \<Rightarrow> booking \<Rightarrow> bool" where
  "clash a b \<longleftrightarrow> bk_candidate a = bk_candidate b \<and> bk_store a = bk_store b \<and> overlaps (bk_days a) (bk_days b)"

definition free :: "bookings \<Rightarrow> string \<Rightarrow> booking \<Rightarrow> bool" where
  "free b i s \<longleftrightarrow> (\<forall>j t. j \<noteq> i \<longrightarrow> b j = Some t \<longrightarrow> \<not> clash t s)"

definition book :: "bookings \<Rightarrow> string \<Rightarrow> booking \<Rightarrow> bookings option" where
  "book b i s = (if free b i s then Some (b(i \<mapsto> s)) else None)"

definition booking_at :: "parties \<Rightarrow> editable \<Rightarrow> booking" where
  "booking_at p f = Booking (py_candidate p) (py_store p) (days_of f)"

definition booking_of :: "pay_contract \<Rightarrow> booking" where
  "booking_of c = booking_at (ct_parties c) (ct_fields c)"

definition bookings :: "pay_store \<Rightarrow> bookings" where
  "bookings st i = (case map_of (ps_rows st) i of None \<Rightarrow> None | Some c \<Rightarrow> if live c then Some (booking_of c) else None)"

section \<open>The service implements it\<close>

text \<open>What the store keeps of its rows: keys are ids, amounts of live contracts are positive decimals the
  company's side covers.\<close>

definition terms_ok :: "contract_terms \<Rightarrow> bool" where
  "terms_ok t \<longleftrightarrow> isPositiveDecimal (cand_amount t) = Some True \<and> isPositiveDecimal (comp_amount t) = Some True
     \<and> compareDecimal (comp_amount t) (cand_amount t) \<in> {Some 0, Some 1}"

definition editable_ok :: "editable \<Rightarrow> bool" where
  "editable_ok f \<longleftrightarrow> terms_ok (pc_terms f) \<and> isCalendarDate (pc_start f) \<and> pc_status f \<noteq> Deleted_contract
     \<and> (case pc_end f of None \<Rightarrow> True | Some e \<Rightarrow> isCalendarDate e \<and> pc_start f \<le> e)"

definition rows_ok :: "pay_store \<Rightarrow> bool" where
  "rows_ok st \<longleftrightarrow> keyed (ps_rows st) \<and> (\<forall>(k, c) \<in> set (ps_rows st). ct_id c = k \<and> (live c \<longrightarrow> editable_ok (ct_fields c)))"

lemma rows_ok_lookup: "rows_ok st \<Longrightarrow> map_of (ps_rows st) i = Some c \<Longrightarrow> ct_id c = i \<and> (live c \<longrightarrow> editable_ok (ct_fields c))"
  unfolding rows_ok_def by (auto dest: map_of_SomeD)

lemma rows_ok_row: "rows_ok st \<Longrightarrow> c \<in> snd ` set (ps_rows st) \<longleftrightarrow> map_of (ps_rows st) (ct_id c) = Some c"
  unfolding rows_ok_def by (force dest: map_of_SomeD simp: map_of_eq_Some_iff)

lemma bookings_Some: "bookings st j = Some t \<longleftrightarrow> (\<exists>c. map_of (ps_rows st) j = Some c \<and> live c \<and> t = booking_of c)"
  by (auto simp: bookings_def split: option.splits)

lemma assertNoOverlap_free:
  assumes "rows_ok st"
  shows "assertNoOverlap (lockPair st (py_candidate p) (py_store p)) i f = Inr () \<longleftrightarrow> free (bookings st) i (booking_at p f)"
proof -
  have "free (bookings st) i (booking_at p f) \<longleftrightarrow>
      (\<forall>j c. j \<noteq> i \<longrightarrow> map_of (ps_rows st) j = Some c \<longrightarrow> live c \<longrightarrow> \<not> clash (booking_of c) (booking_at p f))"
    unfolding free_def bookings_Some by metis
  also have "\<dots> \<longleftrightarrow> (\<forall>c \<in> snd ` set (ps_rows st). ct_id c \<noteq> i \<longrightarrow> live c \<longrightarrow> \<not> clash (booking_of c) (booking_at p f))"
    using rows_ok_row [OF assms] rows_ok_lookup [OF assms] by metis
  also have "\<dots> \<longleftrightarrow> \<not> list_ex (\<lambda>c. live c \<and> ct_id c \<noteq> i \<and> overlaps (days_of (ct_fields c)) (days_of f)) (lockPair st (py_candidate p) (py_store p))"
    by (auto simp: list_ex_iff lockPair_def clash_def booking_of_def booking_at_def)
  finally show ?thesis unfolding assertNoOverlap_def by simp
qed

lemma bookings_set:
  "bookings (st\<lparr>ps_rows := AList.update i c (ps_rows st)\<rparr>) = (bookings st)(i := if live c then Some (booking_of c) else None)"
  by (rule ext) (simp add: bookings_def)

lemma bookings_frame [simp]: "bookings (st\<lparr>ps_audit := a\<rparr>) = bookings st" "bookings (st\<lparr>ps_fail := b\<rparr>) = bookings st"
  "rows_ok (st\<lparr>ps_audit := a\<rparr>) = rows_ok st" "rows_ok (st\<lparr>ps_fail := b\<rparr>) = rows_ok st"
  by (simp_all add: fun_eq_iff bookings_def rows_ok_def)

lemma rows_ok_set: "rows_ok st \<Longrightarrow> (live c \<longrightarrow> editable_ok (ct_fields c)) \<Longrightarrow> ct_id c = i \<Longrightarrow> rows_ok (st\<lparr>ps_rows := AList.update i c (ps_rows st)\<rparr>)"
  unfolding rows_ok_def by (auto dest!: set_alist_update)

lemma money_Inr: "money nt v code positive = Inr c \<Longrightarrow> positive \<longrightarrow> isPositiveDecimal c = Some True"
  by (auto simp: money_def invalid_def split: option.splits if_splits)

lemma amounts_ok: "amounts nt raw a b c d = Inr (cand, cmp) \<Longrightarrow>
    isPositiveDecimal cand = Some True \<and> isPositiveDecimal cmp = Some True \<and> compareDecimal cmp cand \<in> {Some 0, Some 1}"
  unfolding amounts_def bind_result_Inr
  by (elim exE conjE, drule money_Inr, drule money_Inr)
    (auto simp: companyCovers_def invalid_def compareDecimal_def isPositiveDecimal_def split: if_splits option.splits)

lemma normalizeTerms_ok: "normalizeTerms nt v = Inr t \<Longrightarrow> terms_ok t"
  unfolding normalizeTerms_def Let_def terms_ok_def
  by (auto simp: invalid_def split: if_splits dest!: amounts_ok)

lemma pay_date_ok: "pay_date v code = Inr d \<Longrightarrow> isCalendarDate d"
  by (auto simp: pay_date_def invalid_def split: option.splits json.splits if_splits)

lemma normalizeEditable_ok:
  assumes "normalizeEditable nt raw = Inr f" shows "editable_ok f"
proof -
  from assms [unfolded normalizeEditable_def] obtain start ending currency cost terms auto status where
    "pay_date (json_get raw ''startDate'') ''invalid_start_date'' = Inr start"
    "(let e = json_get raw ''endDate'' in if nullish e \<or> e = Some (JStr []) then Inr None else map_sum id Some (pay_date e ''invalid_end_date'')) = Inr ending"
    "case ending of None \<Rightarrow> True | Some e \<Rightarrow> \<not> e < start" "normalizeTerms nt (json_get raw ''terms'') = Inr terms"
    "status_of (json_get raw ''status'') = Some status"
    "f = \<lparr>pc_start = start, pc_end = ending, pc_currency = currency, pc_transfer_cost = cost, pc_auto = auto, pc_status = status, pc_terms = terms\<rparr>"
    by (auto simp: invalid_def split: option.splits)
  note f = this
  have "status \<noteq> Deleted_contract" using f(5) by (auto simp: status_of_def split: if_splits)
  moreover have "case ending of None \<Rightarrow> True | Some e \<Rightarrow> isCalendarDate e"
    using f(2) pay_date_ok by (auto simp: Let_def map_sum_def split: if_splits sum.splits option.splits)
  ultimately show ?thesis
    using f(3) pay_date_ok [OF f(1)] normalizeTerms_ok [OF f(4)] unfolding editable_ok_def f(6) by (auto split: option.splits)
qed

lemma normalizeUpdate_ok: "normalizePayContractUpdate nt v = Inr f \<Longrightarrow> editable_ok f"
  unfolding normalizePayContractUpdate_def using normalizeEditable_ok by auto

lemma normalizeCreate_ok: "normalizePayContractCreate nt v = Inr (p, f) \<Longrightarrow> editable_ok f"
  unfolding normalizePayContractCreate_def using normalizeEditable_ok by auto

lemma live_if_ok: "editable_ok (ct_fields c) \<Longrightarrow> live c"
  by (simp add: live_def editable_ok_def)

lemma transaction_cases:
  assumes "pay_transaction work st = (res, st')"
  shows "(\<exists>e. res = Inl e \<and> work st = Inl e \<and> (st' = st \<or> st' = st\<lparr>ps_fail := False\<rparr>)) \<or> (\<exists>c. res = Inr c \<and> work st = Inr (c, st'))"
  using assms by (auto simp: pay_transaction_def split: sum.splits if_splits)

lemma create_work_Inr:
  assumes "create_work actor now i p f st = Inr (c, st')"
  shows "map_of (ps_rows st) i = None \<and> ct_id c = i \<and> ct_parties c = p \<and> ct_fields c = f
    \<and> assertNoOverlap (lockPair st (py_candidate p) (py_store p)) i f = Inr ()
    \<and> (\<exists>a. st' = st\<lparr>ps_rows := AList.update i c (ps_rows st), ps_audit := a\<rparr>)"
  using assms unfolding create_work_def Let_def
  by (auto simp: tx_insert_def tx_audit_def split: if_splits)

lemma update_work_Inr:
  assumes "update_work actor now i f previous st = Inr (c, st')" "rows_ok st"
  shows "\<exists>old. map_of (ps_rows st) i = Some old \<and> live old \<and> ct_id c = i \<and> ct_parties c = ct_parties old \<and> ct_fields c = f
    \<and> assertNoOverlap (lockPair st (py_candidate (ct_parties c)) (py_store (ct_parties c))) i f = Inr ()
    \<and> (\<exists>a. st' = st\<lparr>ps_rows := AList.update i c (ps_rows st), ps_audit := a\<rparr>)"
  using assms(1) unfolding update_work_def Let_def
  by (auto simp: tx_replace_def tx_audit_def dest: rows_ok_lookup [OF assms(2)] split: if_splits option.splits)

lemma remove_work_Inr:
  assumes "remove_work actor now i st = Inr (c, st')" "rows_ok st"
  shows "\<exists>old. map_of (ps_rows st) i = Some old \<and> live old \<and> \<not> live c \<and> ct_id c = i
    \<and> (\<exists>a. st' = st\<lparr>ps_rows := AList.update i c (ps_rows st), ps_audit := a\<rparr>)"
  using assms(1) unfolding remove_work_def Let_def
  by (auto simp: tx_replace_def tx_audit_def live_def dest: rows_ok_lookup [OF assms(2)] split: if_splits option.splits)

text \<open>One operation, its effect on the bookings, and that the rows stay well formed.\<close>

lemma create_effect:
  assumes "contract_create nt resolve actor input now i st = (res, st')" "rows_ok st"
  shows "rows_ok st' \<and> (case res of
      Inl e \<Rightarrow> bookings st' = bookings st
    | Inr c \<Rightarrow> bookings st (ct_id c) = None \<and> book (bookings st) (ct_id c) (booking_of c) = Some (bookings st'))"
proof (cases res)
  case (Inl e)
  with assms show ?thesis unfolding contract_create_def
    by (auto split: sum.splits prod.splits dest!: transaction_cases)
next
  case (Inr c)
  with assms(1) obtain p f where n: "normalizePayContractCreate nt input = Inr (p, f)" and w: "create_work actor now i p f st = Inr (c, st')"
    unfolding contract_create_def by (auto split: sum.splits prod.splits dest!: transaction_cases)
  note e = create_work_Inr [OF w]
  then obtain a where st': "st' = st\<lparr>ps_rows := AList.update i c (ps_rows st), ps_audit := a\<rparr>" by (elim conjE exE)
  have ok: "editable_ok (ct_fields c)" "live c" using e normalizeCreate_ok [OF n] live_if_ok by auto
  have "free (bookings st) i (booking_of c)" using e assertNoOverlap_free [OF assms(2), of p i f] by (simp add: booking_of_def)
  moreover have "bookings st i = None" using e by (simp add: bookings_def)
  moreover have "bookings st' = (bookings st)(i \<mapsto> booking_of c)" using ok by (simp add: st' bookings_set)
  moreover have "rows_ok st'" using rows_ok_set [OF assms(2)] ok e by (simp add: st')
  ultimately show ?thesis using e Inr by (simp add: book_def)
qed

lemma update_effect:
  assumes "contract_update nt resolve previous actor idInput input now st = (res, st')" "rows_ok st"
  shows "rows_ok st' \<and> (case res of
      Inl e \<Rightarrow> bookings st' = bookings st
    | Inr c \<Rightarrow> (\<exists>days. bookings st (ct_id c) = Some (Booking (py_candidate (ct_parties c)) (py_store (ct_parties c)) days))
        \<and> book (bookings st) (ct_id c) (booking_of c) = Some (bookings st'))"
proof (cases res)
  case (Inl e)
  with assms show ?thesis unfolding contract_update_def
    by (auto split: sum.splits prod.splits dest!: transaction_cases)
next
  case (Inr c)
  with assms(1) obtain i f where n: "normalizePayContractUpdate nt input = Inr f" and w: "update_work actor now i f previous st = Inr (c, st')"
    unfolding contract_update_def by (auto split: sum.splits prod.splits dest!: transaction_cases)
  from update_work_Inr [OF w assms(2)] obtain old a where
    e: "map_of (ps_rows st) i = Some old" "live old" "ct_id c = i" "ct_parties c = ct_parties old" "ct_fields c = f"
      "assertNoOverlap (lockPair st (py_candidate (ct_parties c)) (py_store (ct_parties c))) i f = Inr ()"
    and st': "st' = st\<lparr>ps_rows := AList.update i c (ps_rows st), ps_audit := a\<rparr>" by (elim conjE exE)
  have ok: "editable_ok (ct_fields c)" "live c" using e normalizeUpdate_ok [OF n] live_if_ok by auto
  have "free (bookings st) i (booking_of c)"
    using e assertNoOverlap_free [OF assms(2), of "ct_parties c" i f] by (simp add: booking_of_def)
  moreover have "bookings st i = Some (Booking (py_candidate (ct_parties c)) (py_store (ct_parties c)) (days_of (ct_fields old)))"
    using e by (simp add: bookings_def booking_of_def booking_at_def)
  moreover have "bookings st' = (bookings st)(i \<mapsto> booking_of c)" using ok by (simp add: st' bookings_set)
  moreover have "rows_ok st'" using rows_ok_set [OF assms(2)] ok e by (simp add: st')
  ultimately show ?thesis using e Inr by (simp add: book_def)
qed

lemma remove_effect:
  assumes "contract_remove actor idInput now st = (res, st')" "rows_ok st"
  shows "rows_ok st' \<and> (case res of
      Inl e \<Rightarrow> bookings st' = bookings st
    | Inr c \<Rightarrow> bookings st (ct_id c) \<noteq> None \<and> bookings st' = (bookings st)(ct_id c := None))"
proof (cases res)
  case (Inl e)
  with assms show ?thesis unfolding contract_remove_def
    by (auto split: sum.splits prod.splits dest!: transaction_cases)
next
  case (Inr c)
  with assms(1) obtain i where w: "remove_work actor now i st = Inr (c, st')"
    unfolding contract_remove_def by (auto split: sum.splits prod.splits dest!: transaction_cases)
  from remove_work_Inr [OF w assms(2)] obtain old a where
    e: "map_of (ps_rows st) i = Some old" "live old" "\<not> live c" "ct_id c = i"
    and st': "st' = st\<lparr>ps_rows := AList.update i c (ps_rows st), ps_audit := a\<rparr>" by (elim conjE exE)
  have "bookings st' = (bookings st)(i := None)" using e(3) by (simp add: st' bookings_set)
  moreover have "bookings st i \<noteq> None" using e by (simp add: bookings_def)
  moreover have "rows_ok st'" using rows_ok_set [OF assms(2)] e by (simp add: st')
  ultimately show ?thesis using e Inr by simp
qed

definition no_clash :: "bookings \<Rightarrow> bool" where
  "no_clash b \<longleftrightarrow> (\<forall>i j s t. i \<noteq> j \<longrightarrow> b i = Some s \<longrightarrow> b j = Some t \<longrightarrow> \<not> clash s t)"

lemma overlaps_sym: "overlaps a b = overlaps b a"
  by (auto simp: overlaps_def split: prod.splits)

lemma clash_sym: "clash a b = clash b a"
  unfolding clash_def by (auto simp: overlaps_sym)

lemma no_clash_book: "no_clash b \<Longrightarrow> book b i s = Some b' \<Longrightarrow> no_clash b'"
  unfolding book_def free_def no_clash_def by (auto split: if_splits) (metis clash_sym)

lemma step_keeps:
  assumes "pay_step nt st st'" "rows_ok st" "no_clash (bookings st)"
  shows "rows_ok st' \<and> no_clash (bookings st')"
  using assms
proof (cases rule: pay_step.cases)
  case (creates resolve actor input now i res)
  from create_effect [OF this assms(2)] assms(3) no_clash_book show ?thesis by (cases res) auto
next
  case (updates resolve previous actor idInput input now res)
  from update_effect [OF this assms(2)] assms(3) no_clash_book show ?thesis by (cases res) auto
next
  case (removes actor idInput now res)
  from remove_effect [OF this assms(2)] assms(3) show ?thesis by (cases res) (auto simp: no_clash_def)
qed simp

lemma reach_keeps:
  assumes "pay_reach nt st" shows "rows_ok st \<and> no_clash (bookings st)"
proof -
  have "rows_ok \<lparr>ps_rows = [], ps_audit = [], ps_fail = False\<rparr>" "no_clash (bookings \<lparr>ps_rows = [], ps_audit = [], ps_fail = False\<rparr>)"
    by (simp_all add: rows_ok_def no_clash_def bookings_def)
  with assms show ?thesis unfolding pay_reach_def
    by (induction rule: rtranclp_induct) (auto dest: step_keeps)
qed

lemma create_exact:
  assumes rows: "rows_ok st"
  shows "\<forall>p f. normalizePayContractCreate nt input = Inr (p, f) \<and> actor \<noteq> [] \<and> resolve (pc_currency f) = Ref_active \<and> store_get st i = None
        \<and> \<not> ps_fail st \<longrightarrow> (case book (bookings st) i (booking_at p f) of
          None \<Rightarrow> contract_create nt resolve actor input now i st = (Inl (Pay_error ''overlapping_contract'' 409), st)
        | Some b \<Rightarrow> \<exists>c st'. contract_create nt resolve actor input now i st = (Inr c, st') \<and> bookings st' = b)"
proof (intro allI impI, elim conjE)
  fix p f
  assume n: "normalizePayContractCreate nt input = Inr (p, f)" and ready: "actor \<noteq> []" "resolve (pc_currency f) = Ref_active" "store_get st i = None" "\<not> ps_fail st"
  let ?c = "\<lparr>ct_id = i, ct_parties = p, ct_fields = f, ct_created = now, ct_updated = now, ct_deleted = None\<rparr>"
  let ?n = "liveCount (lockPair st (py_candidate p) (py_store p))"
  from n ready(1,2) have run: "contract_create nt resolve actor input now i st = pay_transaction (create_work actor now i p f) st"
    by (simp add: contract_create_def requireActor_def assertCurrency_def ensure_def)
  have work: "create_work actor now i p f st = (if free (bookings st) i (booking_at p f) then
      Inr (?c, st\<lparr>ps_rows := AList.update i ?c (ps_rows st), ps_audit := ps_audit st @ [audit_entry ''pay_contract.create'' actor ?c ?n (?n + 1)]\<rparr>)
      else Inl (Pay_error ''overlapping_contract'' 409))"
    using ready(3,4) assertNoOverlap_free [OF rows, of p i f]
    by (auto simp: create_work_def Let_def tx_insert_def tx_audit_def store_get_def assertNoOverlap_def ensure_def)
  have "live ?c" using live_if_ok [of ?c] normalizeCreate_ok [OF n] by simp
  then show "case book (bookings st) i (booking_at p f) of
        None \<Rightarrow> contract_create nt resolve actor input now i st = (Inl (Pay_error ''overlapping_contract'' 409), st)
      | Some b \<Rightarrow> \<exists>c st'. contract_create nt resolve actor input now i st = (Inr c, st') \<and> bookings st' = b"
    unfolding run by (auto simp: book_def pay_transaction_def work bookings_set booking_of_def)
qed

lemma update_exact:
  assumes rows: "rows_ok st"
  shows "\<forall>x old f. requireId idInput = Inr x \<and> store_get st x = Some old \<and> live old \<and> normalizePayContractUpdate nt input = Inr f \<and> actor \<noteq> []
        \<and> previous = Some old \<and> (pc_currency f = pc_currency (ct_fields old) \<or> resolve (pc_currency f) = Ref_active) \<and> \<not> ps_fail st \<longrightarrow>
      (case book (bookings st) x (booking_at (ct_parties old) f) of
          None \<Rightarrow> contract_update nt resolve previous actor idInput input now st = (Inl (Pay_error ''overlapping_contract'' 409), st)
        | Some b \<Rightarrow> \<exists>st'. contract_update nt resolve previous actor idInput input now st = (Inr (old\<lparr>ct_fields := f, ct_updated := now\<rparr>), st') \<and> bookings st' = b)"
proof (intro allI impI, elim conjE)
  fix x old f
  assume i: "requireId idInput = Inr x" and old: "store_get st x = Some old" "live old" and n: "normalizePayContractUpdate nt input = Inr f"
    and ready: "actor \<noteq> []" "previous = Some old" "pc_currency f = pc_currency (ct_fields old) \<or> resolve (pc_currency f) = Ref_active" "\<not> ps_fail st"
  let ?c = "old\<lparr>ct_fields := f, ct_updated := now\<rparr>" and ?p = "ct_parties old"
  let ?n = "liveCount (lockPair st (py_candidate ?p) (py_store ?p))"
  have row: "map_of (ps_rows st) x = Some old" "ct_id old = x" using old rows_ok_lookup [OF rows] by (auto simp: store_get_def)
  from i n ready have run: "contract_update nt resolve previous actor idInput input now st = pay_transaction (update_work actor now x f previous) st"
    by (auto simp: contract_update_def requireActor_def assertCurrency_def ensure_def)
  have work: "update_work actor now x f previous st = (if free (bookings st) x (booking_at ?p f) then
      Inr (?c, st\<lparr>ps_rows := AList.update x ?c (ps_rows st), ps_audit := ps_audit st @ [audit_entry ''pay_contract.update'' actor ?c ?n ?n]\<rparr>)
      else Inl (Pay_error ''overlapping_contract'' 409))"
    using ready old row assertNoOverlap_free [OF rows, of ?p x f]
    by (auto simp: update_work_def Let_def tx_replace_def tx_audit_def assertNoOverlap_def ensure_def)
  have "live ?c" using live_if_ok [of ?c] normalizeUpdate_ok [OF n] by simp
  then show "case book (bookings st) x (booking_at ?p f) of
        None \<Rightarrow> contract_update nt resolve previous actor idInput input now st = (Inl (Pay_error ''overlapping_contract'' 409), st)
      | Some b \<Rightarrow> \<exists>st'. contract_update nt resolve previous actor idInput input now st = (Inr ?c, st') \<and> bookings st' = b"
    unfolding run by (auto simp: book_def pay_transaction_def work bookings_set booking_of_def)
qed

lemma remove_exact:
  assumes rows: "rows_ok st"
  shows "\<forall>x. requireId idInput = Inr x \<and> actor \<noteq> [] \<and> \<not> ps_fail st \<longrightarrow>
      (if bookings st x = None then contract_remove actor idInput now st = (Inl (Pay_error ''not_found'' 404), st)
       else \<exists>c st'. contract_remove actor idInput now st = (Inr c, st') \<and> ct_id c = x \<and> bookings st' = (bookings st)(x := None))"
proof (intro allI impI, elim conjE)
  fix x
  assume ready: "requireId idInput = Inr x" "actor \<noteq> []" "\<not> ps_fail st"
  have run: "contract_remove actor idInput now st = pay_transaction (remove_work actor now x) st"
    using ready by (simp add: contract_remove_def requireActor_def ensure_def)
  show "if bookings st x = None then contract_remove actor idInput now st = (Inl (Pay_error ''not_found'' 404), st)
       else \<exists>c st'. contract_remove actor idInput now st = (Inr c, st') \<and> ct_id c = x \<and> bookings st' = (bookings st)(x := None)"
  proof (cases "bookings st x")
    case None
    then have "remove_work actor now x st = Inl (Pay_error ''not_found'' 404)" by (auto simp: remove_work_def bookings_def split: option.splits if_splits)
    then show ?thesis using None by (simp add: run pay_transaction_def)
  next
    case (Some t)
    then obtain old where row: "map_of (ps_rows st) x = Some old" "live old" unfolding bookings_Some by blast
    then have i: "ct_id old = x" using rows_ok_lookup [OF rows] by blast
    let ?c = "old\<lparr>ct_fields := (ct_fields old)\<lparr>pc_status := Deleted_contract\<rparr>, ct_deleted := Some now, ct_updated := now\<rparr>"
    have "\<exists>a. remove_work actor now x st = Inr (?c, st\<lparr>ps_rows := AList.update x ?c (ps_rows st), ps_audit := a\<rparr>)"
      using row i ready(3) by (simp add: remove_work_def Let_def tx_replace_def tx_audit_def) (rule exI, rule refl)
    then obtain a where work: "remove_work actor now x st = Inr (?c, st\<lparr>ps_rows := AList.update x ?c (ps_rows st), ps_audit := a\<rparr>)" by blast
    have "\<not> live ?c" by (simp add: live_def)
    then show ?thesis using Some i by (simp add: run pay_transaction_def work bookings_set)
  qed
qed

section \<open>A contract\<close>

definition demo_id :: string where
  "demo_id = ''aaaaaaaa-aaaa-1aaa-8aaa-aaaaaaaaaaaa''"

definition demo_input :: json where
  "demo_input = JObj [(''candidateId'', JStr ''c1''), (''companyId'', JStr ''o1''), (''storeId'', JStr ''s1''), (''startDate'', JStr ''2026-01-01''),
     (''currencyId'', JStr demo_id),
     (''terms'', JObj [(''payModel'', JStr ''hourly''), (''candidateHourlyRate'', JStr ''2.5''), (''companyHourlyRate'', JStr ''3'')])]"

definition demo_parties :: parties where
  "demo_parties = \<lparr>py_candidate = ''c1'', py_company = ''o1'', py_store = ''s1''\<rparr>"

definition demo_fields :: editable where
  "demo_fields = \<lparr>pc_start = ''2026-01-01'', pc_end = None, pc_currency = demo_id, pc_transfer_cost = ''0.000'', pc_auto = False,
     pc_status = Active_contract, pc_terms = Hourly ''2.500'' ''3.000''\<rparr>"

definition no_contracts :: pay_store where
  "no_contracts = \<lparr>ps_rows = [], ps_audit = [], ps_fail = False\<rparr>"

lemmas decimal_defs = canonicalDecimal_def canonical_text_def decimal_match_def decimal_int_def pad3_def digit_char_def js_trim_def js_space_def
  thousandths_def isPositiveDecimal_def compareDecimal_def read_nat_def

lemma demo_money: "money nt (Some (JStr ''2.5'')) code True = Inr ''2.500''" "money nt (Some (JStr ''3'')) code True = Inr ''3.000''"
  "money nt (Some (JStr ''0'')) code False = Inr ''0.000''" "companyCovers ''3.000'' ''2.500'' = Inr ()"
  by (simp_all add: money_def companyCovers_def decimal_defs numeral_eq_Suc)

lemma demo_calendar: "isCalendarDate ''2026-01-01''"
  by (simp add: isCalendarDate_def digit_char_def read_nat_def days_in_month_def leap_def)

lemma demo_normalized: "normalizePayContractCreate nt (Some demo_input) = Inr (demo_parties, demo_fields)"
proof -
  have uuid: "uuid_any demo_id" "map js_lower demo_id = demo_id"
    by (simp_all add: uuid_any_def demo_id_def any_hex_def hex_char_def digit_char_def js_lower_def Let_def)
  have "normalizeTerms nt (json_get demo_input ''terms'') = Inr (Hourly ''2.500'' ''3.000'')"
    by (simp add: demo_input_def normalizeTerms_def isPayModel_def PAY_MODELS_def pay_model_text_def closedObject_def amounts_def demo_money Let_def)
  then have "normalizeEditable nt demo_input = Inr demo_fields"
    using uuid by (simp add: normalizeEditable_def demo_input_def pay_date_def demo_calendar nullish_def demo_money Let_def status_of_def demo_fields_def ensure_def)
  then show ?thesis
    by (simp add: normalizePayContractCreate_def closedObject_def demo_input_def CONTRACT_FIELDS_def UPDATABLE_def partyId_def party_char_def alnum_def
        demo_parties_def)
qed

section \<open>Properties\<close>

text \<open>C17. The contract service implements the table of bookings, on every reachable store. A create that
  succeeds books an unused id; of a well formed contract with an active currency and a new id it
  succeeds exactly when the table has those days free for that candidate and store. An update that succeeds
  books the same candidate, store and id again; a well formed update of a live contract, as it was
  read, with its own or an active currency, succeeds exactly when its days are free of the other
  bookings, and then changes the fields of that contract alone. A remove of a known id succeeds
  exactly when it is booked, and takes that booking out. Where the days are taken the answer is "overlapping",
  where there is no booking "not found", without any change; every operation that fails leaves the
  bookings alone. The three equivalences are for a caller with an identity and an audit write that works.\<close>

theorem service_refines_bookings:
  assumes "pay_reach nt st"
  shows "(case contract_create nt resolve actor input now i st of
        (Inr c, st') \<Rightarrow> bookings st (ct_id c) = None \<and> book (bookings st) (ct_id c) (booking_of c) = Some (bookings st')
      | (Inl e, st') \<Rightarrow> bookings st' = bookings st)
    \<and> (\<forall>p f. normalizePayContractCreate nt input = Inr (p, f) \<and> actor \<noteq> [] \<and> resolve (pc_currency f) = Ref_active \<and> store_get st i = None
        \<and> \<not> ps_fail st \<longrightarrow> (case book (bookings st) i (booking_at p f) of
          None \<Rightarrow> contract_create nt resolve actor input now i st = (Inl (Pay_error ''overlapping_contract'' 409), st)
        | Some b \<Rightarrow> \<exists>c st'. contract_create nt resolve actor input now i st = (Inr c, st') \<and> bookings st' = b))
    \<and> (case contract_update nt resolve previous actor idInput input now st of
        (Inr c, st') \<Rightarrow> (\<exists>days. bookings st (ct_id c) = Some (Booking (py_candidate (ct_parties c)) (py_store (ct_parties c)) days))
          \<and> book (bookings st) (ct_id c) (booking_of c) = Some (bookings st')
      | (Inl e, st') \<Rightarrow> bookings st' = bookings st)
    \<and> (\<forall>x old f. requireId idInput = Inr x \<and> store_get st x = Some old \<and> live old \<and> normalizePayContractUpdate nt input = Inr f \<and> actor \<noteq> []
        \<and> previous = Some old \<and> (pc_currency f = pc_currency (ct_fields old) \<or> resolve (pc_currency f) = Ref_active) \<and> \<not> ps_fail st \<longrightarrow>
        (case book (bookings st) x (booking_at (ct_parties old) f) of
          None \<Rightarrow> contract_update nt resolve previous actor idInput input now st = (Inl (Pay_error ''overlapping_contract'' 409), st)
        | Some b \<Rightarrow> \<exists>st'. contract_update nt resolve previous actor idInput input now st = (Inr (old\<lparr>ct_fields := f, ct_updated := now\<rparr>), st') \<and> bookings st' = b))
    \<and> (case contract_remove actor idInput now st of
        (Inr c, st') \<Rightarrow> bookings st (ct_id c) \<noteq> None \<and> bookings st' = (bookings st)(ct_id c := None)
      | (Inl e, st') \<Rightarrow> bookings st' = bookings st)
    \<and> (\<forall>x. requireId idInput = Inr x \<and> actor \<noteq> [] \<and> \<not> ps_fail st \<longrightarrow>
        (if bookings st x = None then contract_remove actor idInput now st = (Inl (Pay_error ''not_found'' 404), st)
         else \<exists>c st'. contract_remove actor idInput now st = (Inr c, st') \<and> ct_id c = x \<and> bookings st' = (bookings st)(x := None)))"
proof -
  have rows: "rows_ok st" using reach_keeps [OF assms] by simp
  have create: "case contract_create nt resolve actor input now i st of
        (Inr c, st') \<Rightarrow> bookings st (ct_id c) = None \<and> book (bookings st) (ct_id c) (booking_of c) = Some (bookings st')
      | (Inl e, st') \<Rightarrow> bookings st' = bookings st"
    using create_effect [OF _ rows] by (auto split: prod.splits sum.splits)
  have update: "case contract_update nt resolve previous actor idInput input now st of
        (Inr c, st') \<Rightarrow> (\<exists>days. bookings st (ct_id c) = Some (Booking (py_candidate (ct_parties c)) (py_store (ct_parties c)) days))
          \<and> book (bookings st) (ct_id c) (booking_of c) = Some (bookings st')
      | (Inl e, st') \<Rightarrow> bookings st' = bookings st"
    using update_effect [OF _ rows] by (auto split: prod.splits sum.splits)
  have remove: "case contract_remove actor idInput now st of
        (Inr c, st') \<Rightarrow> bookings st (ct_id c) \<noteq> None \<and> bookings st' = (bookings st)(ct_id c := None)
      | (Inl e, st') \<Rightarrow> bookings st' = bookings st"
    using remove_effect [OF _ rows] by (auto split: prod.splits sum.splits)
  show ?thesis by (intro conjI create update remove create_exact [OF rows] update_exact [OF rows] remove_exact [OF rows])
qed

theorem service_refines_bookings_witness:
  "\<exists>st. contract_create (\<lambda>_. []) (\<lambda>_. Ref_active) ''ada'' (Some demo_input) ''t'' demo_id no_contracts
     = (Inr \<lparr>ct_id = demo_id, ct_parties = demo_parties, ct_fields = demo_fields, ct_created = ''t'', ct_updated = ''t'', ct_deleted = None\<rparr>, st)
     \<and> book (bookings no_contracts) demo_id (booking_at demo_parties demo_fields) = Some (bookings st)"
proof -
  have reach: "pay_reach (\<lambda>_. []) no_contracts" by (simp add: pay_reach_def no_contracts_def)
  obtain st where run: "contract_create (\<lambda>_. []) (\<lambda>_. Ref_active) ''ada'' (Some demo_input) ''t'' demo_id no_contracts
     = (Inr \<lparr>ct_id = demo_id, ct_parties = demo_parties, ct_fields = demo_fields, ct_created = ''t'', ct_updated = ''t'', ct_deleted = None\<rparr>, st)"
    by (simp add: contract_create_def requireActor_def demo_normalized assertCurrency_def pay_transaction_def create_work_def Let_def no_contracts_def
        tx_insert_def tx_audit_def assertNoOverlap_def lockPair_def ensure_def)
  have "case contract_create (\<lambda>_. []) (\<lambda>_. Ref_active) ''ada'' (Some demo_input) ''t'' demo_id no_contracts of
      (Inr c, st') \<Rightarrow> bookings no_contracts (ct_id c) = None \<and> book (bookings no_contracts) (ct_id c) (booking_of c) = Some (bookings st')
    | (Inl e, st') \<Rightarrow> bookings st' = bookings no_contracts"
    by (rule service_refines_bookings [OF reach, THEN conjunct1])
  with run show ?thesis by (simp add: booking_of_def)
qed

end
