(* ===== verification/Pay_Resolution.thy ===== *)
theory Pay_Resolution
  imports Pay_Contracts
begin

declare map_of_eq_Some_iff [simp del] Some_eq_map_of_iff [simp del]

text \<open>
  Which rate pays a transfer, \<^verbatim>\<open>packages/pay-contracts/src/resolution.ts\<close>, and who sees
  what of a contract, \<^verbatim>\<open>contract-reads.ts\<close>. The resolver is pure: contracts and defaults
  are inputs. Dates are compared as the strings they are. \<open>loc\<close> is \<open>localeCompare\<close>.
\<close>

section \<open>Resolution\<close>

datatype resolution_step = Matched_by_period | Matched_active_today | Explicit_filter | Model_filter | Single_selected | No_matching
  | Candidate_from_input | Candidate_from_candidate | Company_from_input | Company_from_company | Company_from_parent

datatype resolution_code = Ambiguous_contract | Contract_not_applicable | Candidate_rate_unavailable | Company_rate_unavailable
  | Company_below_candidate | Invalid_period

record resolution_error =
  re_code :: resolution_code
  re_status :: nat
  re_matched :: "string list"

record resolution_input =
  ri_candidate :: string
  ri_store :: string
  ri_contracts :: "pay_contract list"
  ri_period :: "(string \<times> string) option"
  ri_today :: string
  ri_contract :: "string option"
  ri_model :: "pay_model option"
  ri_entered_cand :: "string option"
  ri_entered_comp :: "string option"
  ri_default_cand :: "string option"
  ri_default_comp :: "string option"
  ri_default_parent :: "string option"

record resolution =
  rr_steps :: "resolution_step list"
  rr_matched :: "string list"
  rr_contract :: "string option"
  rr_model :: pay_model
  rr_cand :: string
  rr_comp :: string
  rr_transfer_cost :: "string option"

definition period_ok :: "resolution_input \<Rightarrow> bool" where
  "period_ok i \<longleftrightarrow> isCalendarDate (ri_today i)
     \<and> (case ri_period i of None \<Rightarrow> True | Some (s, e) \<Rightarrow> isCalendarDate s \<and> isCalendarDate e \<and> \<not> e < s)"

definition in_force :: "resolution_input \<Rightarrow> pay_contract \<Rightarrow> bool" where
  "in_force i c \<longleftrightarrow> (let f = ct_fields c in case ri_period i of
     Some (s, e) \<Rightarrow> pc_start f \<le> e \<and> (case pc_end f of None \<Rightarrow> True | Some x \<Rightarrow> x \<ge> s)
   | None \<Rightarrow> (case pc_end f of None \<Rightarrow> True | Some x \<Rightarrow> x \<ge> ri_today i))"

definition applicable :: "resolution_input \<Rightarrow> pay_contract list" where
  "applicable i = filter (in_force i)
     (filter (\<lambda>c. py_candidate (ct_parties c) = ri_candidate i \<and> py_store (ct_parties c) = ri_store i \<and> live c) (ri_contracts i))"

definition filtered :: "resolution_input \<Rightarrow> pay_contract list" where
  "filtered i = (let byId = (case ri_contract i of None \<Rightarrow> applicable i | Some x \<Rightarrow> filter (\<lambda>c. ct_id c = x) (applicable i))
     in case ri_model i of None \<Rightarrow> byId | Some m \<Rightarrow> filter (\<lambda>c. model_of (pc_terms (ct_fields c)) = m) byId)"

definition matchContracts :: "(string \<Rightarrow> string \<Rightarrow> int) \<Rightarrow> resolution_input \<Rightarrow> resolution_error + (pay_contract list \<times> resolution_step list)" where
  "matchContracts loc i =
     (if \<not> period_ok i then Inl \<lparr>re_code = Invalid_period, re_status = 400, re_matched = []\<rparr>
      else if filtered i = [] \<and> (ri_contract i \<noteq> None \<or> applicable i \<noteq> [] \<or> ri_model i \<notin> {None, Some Hourly_model})
        then Inl \<lparr>re_code = Contract_not_applicable, re_status = 409, re_matched = sort (map ct_id (applicable i))\<rparr>
      else Inr (js_sort (newest_first loc) (filtered i), [if ri_period i \<noteq> None then Matched_by_period else Matched_active_today]
        @ (if ri_contract i \<noteq> None then [Explicit_filter] else []) @ (if ri_model i \<noteq> None then [Model_filter] else [])))"

definition rate_present :: "string option \<Rightarrow> bool" where
  "rate_present v \<longleftrightarrow> v \<noteq> None \<and> v \<noteq> Some []"

definition rate_positive :: "string option \<Rightarrow> bool" where
  "rate_positive v = (case v of None \<Rightarrow> False | Some s \<Rightarrow> (case canonical_text s of None \<Rightarrow> False | Some c \<Rightarrow> isPositiveDecimal c = Some True))"

text \<open>The first source that applies, with its step.\<close>

fun first_rate :: "(bool \<times> string option \<times> resolution_step) list \<Rightarrow> string option \<times> resolution_step list" where
  "first_rate [] = (None, [])"
| "first_rate ((applies, v, step) # others) = (if applies then (Option.bind v canonical_text, [step]) else first_rate others)"

definition manual_rates :: "resolution_input \<Rightarrow> (string option \<times> resolution_step list) \<times> (string option \<times> resolution_step list)" where
  "manual_rates i = (first_rate [(rate_present (ri_entered_cand i), ri_entered_cand i, Candidate_from_input),
       (rate_positive (ri_default_cand i), ri_default_cand i, Candidate_from_candidate)],
     first_rate [(rate_present (ri_entered_comp i), ri_entered_comp i, Company_from_input),
       (rate_positive (ri_default_comp i), ri_default_comp i, Company_from_company),
       (rate_positive (ri_default_parent i), ri_default_parent i, Company_from_parent)])"

definition usable :: "string option \<Rightarrow> bool" where
  "usable v = (case v of None \<Rightarrow> False | Some r \<Rightarrow> isPositiveDecimal r = Some True)"

definition resolveEffectiveRate :: "(string \<Rightarrow> string \<Rightarrow> int) \<Rightarrow> resolution_input \<Rightarrow> resolution_error + resolution" where
  "resolveEffectiveRate loc i = (case matchContracts loc i of Inl e \<Rightarrow> Inl e | Inr (matches, steps) \<Rightarrow>
     let ids = map ct_id matches in
     (case matches of
        c # d # others \<Rightarrow> Inl \<lparr>re_code = Ambiguous_contract, re_status = 409, re_matched = ids\<rparr>
      | [c] \<Rightarrow> let terms = pc_terms (ct_fields c) in
          Inr \<lparr>rr_steps = steps @ [Single_selected], rr_matched = ids, rr_contract = Some (ct_id c), rr_model = model_of terms,
               rr_cand = cand_amount terms, rr_comp = comp_amount terms,
               rr_transfer_cost = (if model_of terms = Hourly_model then None else Some (pc_transfer_cost (ct_fields c)))\<rparr>
      | [] \<Rightarrow> (case manual_rates i of ((cand, cs), (company, ps)) \<Rightarrow>
          if \<not> usable cand then Inl \<lparr>re_code = Candidate_rate_unavailable, re_status = 400, re_matched = []\<rparr>
          else if \<not> usable company then Inl \<lparr>re_code = Company_rate_unavailable, re_status = 400, re_matched = []\<rparr>
          else if compareDecimal (the company) (the cand) = Some (- 1) then Inl \<lparr>re_code = Company_below_candidate, re_status = 400, re_matched = []\<rparr>
          else Inr \<lparr>rr_steps = steps @ [No_matching] @ cs @ ps, rr_matched = ids, rr_contract = None, rr_model = Hourly_model,
               rr_cand = the cand, rr_comp = the company, rr_transfer_cost = None\<rparr>)))"

section \<open>Who sees what\<close>

datatype contract_view = Full_view | Company_view | Candidate_view

record grant_row =
  gw_org :: string
  gw_role :: string
  gw_scope :: string

definition row_covers :: "grant_row \<Rightarrow> string \<Rightarrow> string list \<Rightarrow> bool" where
  "row_covers row company ancestors \<longleftrightarrow> gw_org row = company \<or> (gw_scope row = ''subtree'' \<and> gw_org row \<in> set ancestors)"

definition payContractReadAccess :: "grant_row list \<Rightarrow> string \<Rightarrow> string list \<Rightarrow> string list \<Rightarrow> contract_view option" where
  "payContractReadAccess rows company ancestors operators =
     (if company \<in> set operators then None
      else if list_ex (\<lambda>r. gw_role r \<in> {''staff'', ''admin''} \<and> row_covers r company ancestors) rows then Some Full_view
      else if list_ex (\<lambda>r. gw_role r \<in> {''org-owner'', ''finance''} \<and> row_covers r company ancestors) rows then Some Company_view
      else None)"

definition payContractWriteDecision :: "grant_row list \<Rightarrow> string \<Rightarrow> string list \<Rightarrow> string list \<Rightarrow> bool" where
  "payContractWriteDecision rows company ancestors operators \<longleftrightarrow> company \<notin> set operators
     \<and> list_ex (\<lambda>r. gw_role r \<in> {''staff'', ''admin''} \<and> row_covers r company ancestors) rows"

definition amount_members :: "string \<Rightarrow> string \<Rightarrow> contract_terms \<Rightarrow> contract_view \<Rightarrow> (string, json) js_map" where
  "amount_members cand_key comp_key t view =
     (if view = Company_view then [] else [(cand_key, JStr (cand_amount t))]) @ (if view = Candidate_view then [] else [(comp_key, JStr (comp_amount t))])"

definition termsFor :: "contract_terms \<Rightarrow> contract_view \<Rightarrow> json" where
  "termsFor t view = JObj ((''payModel'', JStr (pay_model_text (model_of t))) # (case t of
     Hourly _ _ \<Rightarrow> amount_members ''candidateHourlyRate'' ''companyHourlyRate'' t view
   | Fixed_price _ _ pct \<Rightarrow> amount_members ''candidateTotal'' ''companyTotal'' t view @ [(''completionPercentage'', js_int (int pct))]
   | Monthly_salary _ _ day \<Rightarrow> amount_members ''candidateTotal'' ''companyTotal'' t view @ [(''salaryDay'', js_int (int day))]))"

definition status_text :: "contract_status \<Rightarrow> string" where
  "status_text s = (case s of Active_contract \<Rightarrow> ''active'' | Inactive_contract \<Rightarrow> ''inactive'' | Deleted_contract \<Rightarrow> ''deleted'')"

definition projectPayContract :: "pay_contract \<Rightarrow> contract_view \<Rightarrow> json" where
  "projectPayContract c view =
     (let f = ct_fields c; p = ct_parties c;
          candidate = [(''candidateId'', JStr (py_candidate p))];
          place = [(''companyId'', JStr (py_company p)), (''storeId'', JStr (py_store p)), (''startDate'', JStr (pc_start f))]
            @ (case pc_end f of None \<Rightarrow> [] | Some e \<Rightarrow> [(''endDate'', JStr e)]) @ [(''currencyId'', JStr (pc_currency f))];
          auto = [(''autoGenerate'', JBool (pc_auto f))];
          rest = [(''status'', JStr (status_text (pc_status f))), (''terms'', termsFor (pc_terms f) view)]
      in JObj ((''id'', JStr (ct_id c)) # (case view of
           Full_view \<Rightarrow> candidate @ place @ [(''transferCost'', JStr (pc_transfer_cost f))] @ auto @ rest
             @ [(''createdAt'', JStr (ct_created c)), (''updatedAt'', JStr (ct_updated c))]
         | Company_view \<Rightarrow> candidate @ place @ auto @ rest
         | Candidate_view \<Rightarrow> place @ rest)))"

definition payContractListView :: "(string \<Rightarrow> string \<Rightarrow> int) \<Rightarrow> pay_contract list \<Rightarrow> contract_view \<Rightarrow> json list" where
  "payContractListView loc cs view = map (\<lambda>c. projectPayContract c view) (js_sort (newest_first loc) (filter live cs))"

section \<open>One day, one contract\<close>

lemma filtered_subset:
  "set (filtered i) \<subseteq> {c \<in> set (ri_contracts i). py_candidate (ct_parties c) = ri_candidate i \<and> py_store (ct_parties c) = ri_store i \<and> live c
      \<and> in_force i c}"
  unfolding filtered_def applicable_def Let_def by (auto split: option.splits)

lemma filtered_distinct: "distinct (map ct_id (ri_contracts i)) \<Longrightarrow> distinct (map ct_id (filtered i))"
  unfolding filtered_def applicable_def Let_def by (auto intro!: distinct_map_filter split: option.splits)

lemma matches_are_filtered: "matchContracts loc i = Inr (matches, steps) \<Longrightarrow> matches = js_sort (newest_first loc) (filtered i)"
  unfolding matchContracts_def by (simp split: if_splits)

lemma store_list_distinct: "rows_ok st \<Longrightarrow> distinct (map ct_id (store_list st candidate))"
proof -
  assume ok: "rows_ok st"
  then have "map (\<lambda>x. ct_id (snd x)) (ps_rows st) = map fst (ps_rows st)" by (intro map_cong) (auto simp: rows_ok_def)
  then have "map ct_id (map snd (ps_rows st)) = map fst (ps_rows st)" by (simp only: map_map o_def)
  moreover have "distinct (map fst (ps_rows st))" using ok unfolding rows_ok_def by blast
  ultimately have "distinct (map ct_id (map snd (ps_rows st)))" by (simp only:)
  then show ?thesis unfolding store_list_def by (rule distinct_map_filter)
qed

lemma same_day_overlap:
  assumes "in_force i c" "in_force i d" "ri_period i = Some (day, day)"
  shows "overlaps (days_of (ct_fields c)) (days_of (ct_fields d))"
  using assms by (auto simp: in_force_def overlaps_def days_of_def split: option.splits)

lemma one_day_matches:
  assumes "rows_ok st" "no_clash (bookings st)" "ri_contracts i = store_list st cand" "ri_period i = Some (day, day)"
    and "c \<in> set (filtered i)" "d \<in> set (filtered i)"
  shows "ct_id c = ct_id d"
proof (rule ccontr)
  assume ne: "ct_id c \<noteq> ct_id d"
  note m = filtered_subset [THEN subsetD]
  have "c \<in> snd ` set (ps_rows st)" "d \<in> snd ` set (ps_rows st)" using m [OF assms(5)] m [OF assms(6)] assms(3) by (auto simp: store_list_def)
  then have "bookings st (ct_id c) = Some (booking_of c)" "bookings st (ct_id d) = Some (booking_of d)"
    using m [OF assms(5)] m [OF assms(6)] rows_ok_row [OF assms(1)] by (auto simp: bookings_Some)
  with assms(2) ne have "\<not> clash (booking_of c) (booking_of d)" unfolding no_clash_def by blast
  then show False using m [OF assms(5)] m [OF assms(6)] same_day_overlap [of i c d, OF _ _ assms(4)]
    by (simp add: clash_def booking_of_def booking_at_def)
qed

lemma distinct_one:
  assumes "distinct (map f xs)" "\<And>x y. x \<in> set xs \<Longrightarrow> y \<in> set xs \<Longrightarrow> f x = f y"
  shows "length xs \<le> 1"
proof (rule ccontr)
  assume "\<not> length xs \<le> 1"
  then obtain x y zs where xs: "xs = x # y # zs" by (cases xs rule: remdups_adj.cases) simp_all
  then have "f x = f y" by (intro assms(2)) simp_all
  with assms(1) xs show False by simp
qed

section \<open>A store with one contract\<close>

definition demo_contract :: pay_contract where
  "demo_contract = \<lparr>ct_id = demo_id, ct_parties = demo_parties, ct_fields = demo_fields, ct_created = ''t'', ct_updated = ''t'', ct_deleted = None\<rparr>"

definition demo_booked :: pay_store where
  "demo_booked = \<lparr>ps_rows = [(demo_id, demo_contract)], ps_audit = [audit_entry ''pay_contract.create'' ''ada'' demo_contract 0 1], ps_fail = False\<rparr>"

definition demo_query :: resolution_input where
  "demo_query = \<lparr>ri_candidate = ''c1'', ri_store = ''s1'', ri_contracts = [demo_contract], ri_period = Some (''2026-01-01'', ''2026-01-01''),
     ri_today = ''2026-01-01'', ri_contract = None, ri_model = None, ri_entered_cand = None, ri_entered_comp = None, ri_default_cand = None,
     ri_default_comp = None, ri_default_parent = None\<rparr>"

lemma demo_booked_reach: "pay_reach (\<lambda>_. []) demo_booked"
proof -
  have "contract_create (\<lambda>_. []) (\<lambda>_. Ref_active) ''ada'' (Some demo_input) ''t'' demo_id no_contracts = (Inr demo_contract, demo_booked)"
    by (simp add: contract_create_def requireActor_def demo_normalized assertCurrency_def pay_transaction_def create_work_def Let_def no_contracts_def
        tx_insert_def tx_audit_def assertNoOverlap_def lockPair_def ensure_def demo_booked_def demo_contract_def liveCount_def)
  from creates [OF this] show ?thesis unfolding pay_reach_def no_contracts_def by (rule r_into_rtranclp)
qed

lemma demo_listed: "ri_contracts demo_query = store_list demo_booked (ri_candidate demo_query)"
  "ct_parties demo_contract = demo_parties" "ct_fields demo_contract = demo_fields" "live demo_contract"
  by (simp_all add: demo_query_def store_list_def demo_booked_def demo_contract_def demo_parties_def live_def demo_fields_def)

section \<open>Properties\<close>

text \<open>C20. The contracts a reachable store holds never make a day's pay ambiguous: for a period of a single
  day, whatever filters and defaults are given, the resolver never refuses as ambiguous, and when
  contracts are in force without a filter it selects the one that is.\<close>

theorem single_day_pay_unambiguous:
  assumes "pay_reach nt st" "ri_contracts i = store_list st (ri_candidate i)" "ri_period i = Some (day, day)" "isCalendarDate day"
    and "isCalendarDate (ri_today i)"
  shows "(\<forall>e. resolveEffectiveRate loc i = Inl e \<longrightarrow> re_code e \<noteq> Ambiguous_contract)
    \<and> (\<forall>c. ri_contract i = None \<longrightarrow> ri_model i = None \<longrightarrow> c \<in> set (ri_contracts i) \<longrightarrow> live c \<longrightarrow> py_store (ct_parties c) = ri_store i
        \<longrightarrow> pc_start (ct_fields c) \<le> day \<longrightarrow> (case pc_end (ct_fields c) of None \<Rightarrow> True | Some e \<Rightarrow> e \<ge> day)
        \<longrightarrow> (\<exists>r. resolveEffectiveRate loc i = Inr r \<and> rr_contract r = Some (ct_id c)
              \<and> rr_cand r = cand_amount (pc_terms (ct_fields c)) \<and> rr_comp r = comp_amount (pc_terms (ct_fields c))))"
proof -
  note inv = reach_keeps [OF assms(1)]
  have "distinct (map ct_id (filtered i))" using filtered_distinct store_list_distinct inv assms(2) by metis
  moreover have "ct_id c = ct_id d" if "c \<in> set (filtered i)" "d \<in> set (filtered i)" for c d
    using one_day_matches [OF _ _ assms(2,3) that] inv by blast
  ultimately have short: "length (filtered i) \<le> 1" by (rule distinct_one)
  then have few: "filtered i = [] \<or> (\<exists>c. filtered i = [c])" by (cases "filtered i") auto
  then have "\<forall>e. resolveEffectiveRate loc i = Inl e \<longrightarrow> re_code e \<noteq> Ambiguous_contract"
    by (auto simp: resolveEffectiveRate_def matchContracts_def Let_def split: if_splits prod.splits)
  moreover have "\<exists>r. resolveEffectiveRate loc i = Inr r \<and> rr_contract r = Some (ct_id c)
      \<and> rr_cand r = cand_amount (pc_terms (ct_fields c)) \<and> rr_comp r = comp_amount (pc_terms (ct_fields c))"
    if given: "ri_contract i = None" "ri_model i = None" "c \<in> set (ri_contracts i)" "live c" "py_store (ct_parties c) = ri_store i"
      "pc_start (ct_fields c) \<le> day" "case pc_end (ct_fields c) of None \<Rightarrow> True | Some e \<Rightarrow> e \<ge> day" for c
  proof -
    have "py_candidate (ct_parties c) = ri_candidate i" using given(3) assms(2) by (simp add: store_list_def)
    with given have "c \<in> set (filtered i)"
      by (simp add: filtered_def applicable_def in_force_def assms(3) Let_def)
    with few have "filtered i = [c]" by auto
    moreover have "period_ok i" using assms(3-5) by (simp add: period_ok_def)
    ultimately show ?thesis by (simp add: resolveEffectiveRate_def matchContracts_def Let_def)
  qed
  ultimately show ?thesis by blast
qed

theorem single_day_pay_unambiguous_witness:
  "\<exists>r. resolveEffectiveRate (\<lambda>_ _. 0) demo_query = Inr r \<and> rr_cand r = ''2.500'' \<and> rr_comp r = ''3.000''"
proof -
  have q: "ri_period demo_query = Some (''2026-01-01'', ''2026-01-01'')" "isCalendarDate (ri_today demo_query)"
    by (simp_all add: demo_query_def demo_calendar)
  have "ri_contract demo_query = None" "ri_model demo_query = None" "demo_contract \<in> set (ri_contracts demo_query)"
    "py_store (ct_parties demo_contract) = ri_store demo_query" "pc_start (ct_fields demo_contract) \<le> ''2026-01-01''"
    "case pc_end (ct_fields demo_contract) of None \<Rightarrow> True | Some e \<Rightarrow> e \<ge> ''2026-01-01''"
    by (simp_all add: demo_listed(2,3) demo_query_def demo_parties_def demo_fields_def)
  with single_day_pay_unambiguous [OF demo_booked_reach demo_listed(1) q(1) demo_calendar q(2), of "\<lambda>_ _. 0"] demo_listed(4)
  obtain r where "resolveEffectiveRate (\<lambda>_ _. 0) demo_query = Inr r" "rr_cand r = cand_amount (pc_terms (ct_fields demo_contract))"
    "rr_comp r = comp_amount (pc_terms (ct_fields demo_contract))" by blast
  then show ?thesis by (simp add: demo_listed(3) demo_fields_def)
qed

lemma filtered_in:
  "c \<in> set (filtered i) \<longleftrightarrow> c \<in> set (ri_contracts i) \<and> py_candidate (ct_parties c) = ri_candidate i \<and> py_store (ct_parties c) = ri_store i \<and> live c
     \<and> in_force i c \<and> (case ri_contract i of None \<Rightarrow> True | Some x \<Rightarrow> ct_id c = x) \<and> (case ri_model i of None \<Rightarrow> True | Some m \<Rightarrow> model_of (pc_terms (ct_fields c)) = m)"
  unfolding filtered_def applicable_def Let_def by (auto split: option.splits)

lemma manual_sources:
  assumes "manual_rates i = ((cand, cs), (company, ps))" "usable cand" "usable company"
  shows "cand = Option.bind (if rate_present (ri_entered_cand i) then ri_entered_cand i else ri_default_cand i) canonical_text
    \<and> company = Option.bind (if rate_present (ri_entered_comp i) then ri_entered_comp i
        else if rate_positive (ri_default_comp i) then ri_default_comp i else ri_default_parent i) canonical_text"
  using assms by (auto simp: manual_rates_def usable_def split: if_splits option.splits)

text \<open>C21. Whatever the resolver returns, with a reachable store's contracts, both rates are positive exact
  decimals and the company's covers the candidate's. If it names a contract, that contract is live in
  the store, of the candidate and the store asked for, in force for the period, the one asked for by
  id or model where one was, and the only such; the rates, the model and the transfer cost are its own.
  If it names none, no contract was asked for and none of that candidate and store is in force, and
  each rate is the one entered or, where none was entered, the default (the company's own before its parent's).\<close>

theorem resolved_rate_is_covered:
  assumes "pay_reach nt st" "ri_contracts i = store_list st (ri_candidate i)" "resolveEffectiveRate loc i = Inr r"
  shows "isPositiveDecimal (rr_cand r) = Some True \<and> isPositiveDecimal (rr_comp r) = Some True
    \<and> (\<exists>l u. thousandths (rr_comp r) = Some u \<and> thousandths (rr_cand r) = Some l \<and> l \<le> u)
    \<and> (case rr_contract r of
        Some x \<Rightarrow> \<exists>c. store_get st x = Some c \<and> ct_id c = x \<and> live c \<and> py_candidate (ct_parties c) = ri_candidate i \<and> py_store (ct_parties c) = ri_store i
          \<and> in_force i c \<and> (\<forall>y. ri_contract i = Some y \<longrightarrow> x = y) \<and> (\<forall>m. ri_model i = Some m \<longrightarrow> rr_model r = m)
          \<and> rr_cand r = cand_amount (pc_terms (ct_fields c)) \<and> rr_comp r = comp_amount (pc_terms (ct_fields c)) \<and> rr_model r = model_of (pc_terms (ct_fields c))
          \<and> rr_transfer_cost r = (if rr_model r = Hourly_model then None else Some (pc_transfer_cost (ct_fields c))) \<and> set (filtered i) = {c}
      | None \<Rightarrow> ri_contract i = None \<and> rr_model r = Hourly_model \<and> rr_transfer_cost r = None
          \<and> (\<forall>c \<in> set (store_list st (ri_candidate i)). py_store (ct_parties c) = ri_store i \<longrightarrow> live c \<longrightarrow> \<not> in_force i c)
          \<and> Some (rr_cand r) = Option.bind (if rate_present (ri_entered_cand i) then ri_entered_cand i else ri_default_cand i) canonical_text
          \<and> Some (rr_comp r) = Option.bind (if rate_present (ri_entered_comp i) then ri_entered_comp i
              else if rate_positive (ri_default_comp i) then ri_default_comp i else ri_default_parent i) canonical_text)"
proof -
  note inv = reach_keeps [OF assms(1)]
  from assms(3) obtain matches steps where m: "matchContracts loc i = Inr (matches, steps)"
    unfolding resolveEffectiveRate_def by (auto split: sum.splits)
  note res = assms(3) [unfolded resolveEffectiveRate_def m Let_def, simplified]
  have same: "set matches = set (filtered i)" using matches_are_filtered [OF m] by simp
  show ?thesis
  proof (cases matches)
    case Nil
    obtain cand cs company ps where man: "manual_rates i = ((cand, cs), (company, ps))" by (metis prod.exhaust)
    from res Nil have usable: "usable cand" "usable company" "compareDecimal (the company) (the cand) \<noteq> Some (- 1)"
      and r: "rr_cand r = the cand" "rr_comp r = the company" "rr_contract r = None" "rr_model r = Hourly_model" "rr_transfer_cost r = None"
      by (auto simp: man split: if_splits)
    have some: "cand = Some (rr_cand r)" "company = Some (rr_comp r)" using usable r by (auto simp: usable_def split: option.splits)
    have empty: "filtered i = []" using same Nil by simp
    then have none: "applicable i = []" "ri_contract i = None" using m by (auto simp: matchContracts_def split: if_splits)
    have "\<not> in_force i c" if "c \<in> set (store_list st (ri_candidate i))" "py_store (ct_parties c) = ri_store i" "live c" for c
      using none(1) that assms(2) by (auto simp: applicable_def filter_empty_conv store_list_def)
    moreover have "isPositiveDecimal (rr_cand r) = Some True \<and> isPositiveDecimal (rr_comp r) = Some True
        \<and> (\<exists>l u. thousandths (rr_comp r) = Some u \<and> thousandths (rr_cand r) = Some l \<and> l \<le> u)"
      using usable unfolding some by (auto simp: usable_def isPositiveDecimal_def compareDecimal_def split: option.splits if_splits)
    ultimately show ?thesis using r none manual_sources [OF man usable(1,2)] unfolding some by simp
  next
    case (Cons c rest)
    with res have one: "rest = []" and r: "rr_cand r = cand_amount (pc_terms (ct_fields c))" "rr_comp r = comp_amount (pc_terms (ct_fields c))"
      "rr_contract r = Some (ct_id c)" "rr_model r = model_of (pc_terms (ct_fields c))"
      "rr_transfer_cost r = (if rr_model r = Hourly_model then None else Some (pc_transfer_cost (ct_fields c)))"
      by (auto split: list.splits)
    have only: "set (filtered i) = {c}" using same Cons one by simp
    then have c: "c \<in> set (store_list st (ri_candidate i))" "live c" "py_candidate (ct_parties c) = ri_candidate i" "py_store (ct_parties c) = ri_store i"
      "in_force i c" "\<forall>y. ri_contract i = Some y \<longrightarrow> ct_id c = y" "\<forall>m. ri_model i = Some m \<longrightarrow> model_of (pc_terms (ct_fields c)) = m"
      using filtered_in [of c i] assms(2) by (auto split: option.splits)
    then have look: "map_of (ps_rows st) (ct_id c) = Some c" using rows_ok_row inv by (auto simp: store_list_def)
    with inv c have "terms_ok (pc_terms (ct_fields c))" by (auto dest!: rows_ok_lookup simp: editable_ok_def)
    then have "isPositiveDecimal (rr_cand r) = Some True" "isPositiveDecimal (rr_comp r) = Some True"
      "compareDecimal (rr_comp r) (rr_cand r) \<in> {Some 0, Some 1}" unfolding terms_ok_def r by auto
    moreover from this have "\<exists>l u. thousandths (rr_comp r) = Some u \<and> thousandths (rr_cand r) = Some l \<and> l \<le> u"
      by (auto simp: compareDecimal_def isPositiveDecimal_def split: option.splits if_splits)
    ultimately show ?thesis using look c r only by (simp add: store_get_def)
  qed
qed

theorem resolved_rate_is_covered_witness:
  "\<exists>r l u. resolveEffectiveRate (\<lambda>_ _. 0) demo_query = Inr r \<and> thousandths (rr_comp r) = Some u \<and> thousandths (rr_cand r) = Some l \<and> l \<le> u"
proof -
  have "filtered demo_query = [demo_contract]"
    by (simp add: filtered_def applicable_def in_force_def demo_query_def Let_def demo_listed(2-4) demo_parties_def demo_fields_def)
  moreover have "period_ok demo_query" by (simp add: period_ok_def demo_query_def demo_calendar)
  ultimately obtain r where r: "resolveEffectiveRate (\<lambda>_ _. 0) demo_query = Inr r"
    by (simp add: resolveEffectiveRate_def matchContracts_def Let_def)
  from resolved_rate_is_covered [OF demo_booked_reach demo_listed(1) r] r show ?thesis by blast
qed

text \<open>A candidate's view of a contract carries nothing of the company's side: two contracts that
  differ only in the company's amount, the transfer cost, the candidate's own id, the automatic
  payout and the row's times are shown to the candidate as the same thing; and likewise the
  company's view does not depend on the candidate's amount or the transfer cost.\<close>

theorem views_do_not_leak:
  assumes "ct_id c = ct_id d" "pc_start (ct_fields c) = pc_start (ct_fields d)" "pc_end (ct_fields c) = pc_end (ct_fields d)"
    and "pc_currency (ct_fields c) = pc_currency (ct_fields d)" "pc_status (ct_fields c) = pc_status (ct_fields d)"
    and "py_company (ct_parties c) = py_company (ct_parties d)" "py_store (ct_parties c) = py_store (ct_parties d)"
    and "model_of (pc_terms (ct_fields c)) = model_of (pc_terms (ct_fields d))"
    and "(case pc_terms (ct_fields c) of Fixed_price _ _ x \<Rightarrow> Some x | Monthly_salary _ _ x \<Rightarrow> Some x | _ \<Rightarrow> None)
      = (case pc_terms (ct_fields d) of Fixed_price _ _ x \<Rightarrow> Some x | Monthly_salary _ _ x \<Rightarrow> Some x | _ \<Rightarrow> None)"
  shows "(cand_amount (pc_terms (ct_fields c)) = cand_amount (pc_terms (ct_fields d)) \<longrightarrow> projectPayContract c Candidate_view = projectPayContract d Candidate_view)
    \<and> (comp_amount (pc_terms (ct_fields c)) = comp_amount (pc_terms (ct_fields d)) \<and> py_candidate (ct_parties c) = py_candidate (ct_parties d)
         \<and> pc_auto (ct_fields c) = pc_auto (ct_fields d) \<longrightarrow> projectPayContract c Company_view = projectPayContract d Company_view)"
  using assms
  by (cases "pc_terms (ct_fields c)"; cases "pc_terms (ct_fields d)")
    (simp_all add: projectPayContract_def termsFor_def amount_members_def Let_def)

theorem views_do_not_leak_witness:
  "projectPayContract demo_contract Candidate_view
     = projectPayContract (demo_contract\<lparr>ct_fields := demo_fields\<lparr>pc_terms := Hourly ''2.500'' ''9.000''\<rparr>\<rparr>) Candidate_view"
  using views_do_not_leak [of demo_contract "demo_contract\<lparr>ct_fields := demo_fields\<lparr>pc_terms := Hourly ''2.500'' ''9.000''\<rparr>\<rparr>"]
  by (simp add: demo_listed(2,3) demo_fields_def)

end
