(* ===== verification/Pay_Normal.thy ===== *)
theory Pay_Normal
  imports Pay_Resolution Json_Text
begin

declare map_of_eq_Some_iff [simp del] Some_eq_map_of_iff [simp del]

text \<open>
  The canonical texts of a pay contract, \<open>payContractTermsValue\<close> and \<open>payContractCreateValue\<close> of
  \<^verbatim>\<open>packages/pay-contracts/src\<close>, and that what normalization answers is its own normal
  form: read as a payload again it normalizes to itself, so every contract of a reachable store does.
\<close>

section \<open>The payload of normalized values\<close>

definition terms_json :: "contract_terms \<Rightarrow> json" where
  "terms_json t = JObj (case t of
     Hourly cand cmp \<Rightarrow> [(''candidateHourlyRate'', JStr cand), (''companyHourlyRate'', JStr cmp), (''payModel'', JStr ''hourly'')]
   | Fixed_price cand cmp pct \<Rightarrow> [(''candidateTotal'', JStr cand), (''companyTotal'', JStr cmp), (''completionPercentage'', js_int (int pct)),
       (''payModel'', JStr ''fixed_price'')]
   | Monthly_salary cand cmp day \<Rightarrow> [(''candidateTotal'', JStr cand), (''companyTotal'', JStr cmp), (''payModel'', JStr ''monthly_salary''),
       (''salaryDay'', js_int (int day))])"

definition end_member :: "editable \<Rightarrow> (string, json) js_map" where
  "end_member f = (case pc_end f of None \<Rightarrow> [] | Some e \<Rightarrow> [(''endDate'', JStr e)])"

definition update_json :: "editable \<Rightarrow> json" where
  "update_json f = JObj ([(''autoGenerate'', JBool (pc_auto f)), (''currencyId'', JStr (pc_currency f))] @ end_member f
     @ [(''startDate'', JStr (pc_start f)), (''status'', JStr (status_text (pc_status f))), (''terms'', terms_json (pc_terms f)),
        (''transferCost'', JStr (pc_transfer_cost f))])"

definition create_json :: "parties \<Rightarrow> editable \<Rightarrow> json" where
  "create_json p f = JObj ([(''autoGenerate'', JBool (pc_auto f)), (''candidateId'', JStr (py_candidate p)), (''companyId'', JStr (py_company p)),
       (''currencyId'', JStr (pc_currency f))] @ end_member f
     @ [(''startDate'', JStr (pc_start f)), (''status'', JStr (status_text (pc_status f))), (''storeId'', JStr (py_store p)),
        (''terms'', terms_json (pc_terms f)), (''transferCost'', JStr (pc_transfer_cost f))])"

definition payContractTermsValue :: "(rat \<Rightarrow> string) \<Rightarrow> editable \<Rightarrow> string" where
  "payContractTermsValue nt f = js_stringify nt (update_json f)"

definition payContractCreateValue :: "(rat \<Rightarrow> string) \<Rightarrow> parties \<Rightarrow> editable \<Rightarrow> string" where
  "payContractCreateValue nt p f = js_stringify nt (create_json p f)"

section \<open>Normal forms\<close>

lemma digits_not_space: "digit_char c \<Longrightarrow> \<not> js_space c \<and> c \<noteq> CHR ''.''"
  by (auto simp: digit_char_def js_space_def)

lemma js_trim_id: "s \<noteq> [] \<Longrightarrow> \<not> js_space (hd s) \<Longrightarrow> \<not> js_space (last s) \<Longrightarrow> js_trim s = s"
proof -
  have keep: "xs \<noteq> [] \<Longrightarrow> \<not> js_space (hd xs) \<Longrightarrow> dropWhile js_space xs = xs" for xs by (cases xs) simp_all
  show "s \<noteq> [] \<Longrightarrow> \<not> js_space (hd s) \<Longrightarrow> \<not> js_space (last s) \<Longrightarrow> js_trim s = s"
    by (simp add: js_trim_def keep hd_rev)
qed

lemma decimal_int_digits: "decimal_int i \<Longrightarrow> i \<noteq> [] \<and> list_all digit_char i"
  by (auto simp: decimal_int_def digit_char_def)

lemma decimal_match_parts: "decimal_match s = Some (i, f) \<Longrightarrow> decimal_int i \<and> length f \<le> 3 \<and> list_all digit_char f"
  by (auto simp: decimal_match_def split: list.splits if_splits)

lemma canonical_text_normal:
  assumes "canonical_text s = Some c" shows "canonical_text c = Some c"
proof -
  from assms obtain i f where m: "decimal_match (js_trim s) = Some (i, f)" and c: "c = i @ CHR ''.'' # pad3 f"
    by (auto simp: canonical_text_def split: option.splits)
  have i: "decimal_int i" "i \<noteq> []" "list_all digit_char i" using decimal_match_parts [OF m] decimal_int_digits by blast+
  have "length f \<le> 3" "list_all digit_char f" using decimal_match_parts [OF m] by auto
  then have f: "length (pad3 f) = 3" "list_all digit_char (pad3 f)" by (auto simp: pad3_def list_all_iff digit_char_def)
  have dots: "CHR ''.'' \<notin> set i" "CHR ''.'' \<notin> set (pad3 f)" using i(3) f(2) digits_not_space by (auto simp: list_all_iff)
  have ends: "\<not> js_space (hd c)" "\<not> js_space (last c)" "c \<noteq> []"
    using i f digits_not_space unfolding c by (cases i; cases "pad3 f" rule: rev_cases; fastforce simp: list_all_iff)+
  have "decimal_match c = Some (i, pad3 f)"
    unfolding decimal_match_def c using i f dots by auto
  with ends show ?thesis by (simp add: canonical_text_def js_trim_id) (use f in \<open>simp add: c pad3_def [of "pad3 f"]\<close>)
qed

lemma money_normal: "money nt v code positive = Inr c \<Longrightarrow> money nt (Some (JStr c)) code' positive = Inr c"
  by (auto simp: money_def invalid_def canonicalDecimal_def canonical_text_normal dest: canonical_text_normal split: option.splits json.splits if_splits bind_splits)

lemma wholeNumber_normal: "wholeNumber v lo hi code = Inr n \<Longrightarrow> wholeNumber (Some (js_int (int n))) lo hi code' = Inr n"
  by (auto simp: wholeNumber_def invalid_def js_int_def Let_def split: option.splits if_splits)

lemma amounts_normal:
  assumes "amounts nt raw a ac b bc = Inr (cand, cmp)" and "json_get obj a = Some (JStr cand)" and "json_get obj b = Some (JStr cmp)"
  shows "amounts nt obj a ac b bc = Inr (cand, cmp)"
  using assms by (auto simp: amounts_def dest: money_normal)

lemma model_texts: "isPayModel (Some (JStr ''hourly''))" "isPayModel (Some (JStr ''fixed_price''))" "isPayModel (Some (JStr ''monthly_salary''))"
  by (simp_all add: isPayModel_def PAY_MODELS_def pay_model_text_def)

lemma totals_normal:
  "amounts nt raw ''candidateTotal'' ac ''companyTotal'' bc = Inr (cand, cmp) \<Longrightarrow>
     amounts nt (JObj ((''candidateTotal'', JStr cand) # (''companyTotal'', JStr cmp) # m)) ''candidateTotal'' ac ''companyTotal'' bc = Inr (cand, cmp)"
  by (rule amounts_normal) simp_all

lemma rates_normal:
  "amounts nt raw ''candidateHourlyRate'' ac ''companyHourlyRate'' bc = Inr (cand, cmp) \<Longrightarrow>
     amounts nt (JObj ((''candidateHourlyRate'', JStr cand) # (''companyHourlyRate'', JStr cmp) # m)) ''candidateHourlyRate'' ac ''companyHourlyRate'' bc = Inr (cand, cmp)"
  by (rule amounts_normal) simp_all

lemma normalizeTerms_normal:
  assumes "normalizeTerms nt v = Inr t" shows "normalizeTerms nt (Some (terms_json t)) = Inr t"
proof (cases t)
  case (Hourly cand cmp)
  with assms obtain raw where "amounts nt raw ''candidateHourlyRate'' ''invalid_candidate_rate'' ''companyHourlyRate'' ''invalid_company_rate'' = Inr (cand, cmp)"
    by (auto simp: normalizeTerms_def invalid_def Let_def split: if_splits)
  from rates_normal [OF this] show ?thesis
    by (simp add: Hourly normalizeTerms_def terms_json_def model_texts closedObject_def Let_def)
next
  case (Fixed_price cand cmp pct)
  with assms obtain raw where "amounts nt raw ''candidateTotal'' ''invalid_candidate_total'' ''companyTotal'' ''invalid_company_total'' = Inr (cand, cmp)"
      "wholeNumber (json_get raw ''completionPercentage'') 0 100 ''invalid_completion_percentage'' = Inr pct"
    by (auto simp: normalizeTerms_def invalid_def Let_def split: if_splits)
  from totals_normal [OF this(1)] wholeNumber_normal [OF this(2)] show ?thesis
    by (simp add: Fixed_price normalizeTerms_def terms_json_def model_texts closedObject_def Let_def)
next
  case (Monthly_salary cand cmp day)
  with assms obtain raw where "amounts nt raw ''candidateTotal'' ''invalid_candidate_total'' ''companyTotal'' ''invalid_company_total'' = Inr (cand, cmp)"
      "wholeNumber (json_get raw ''salaryDay'') 1 31 ''invalid_salary_day'' = Inr day"
    by (auto simp: normalizeTerms_def invalid_def Let_def split: if_splits)
  from totals_normal [OF this(1)] wholeNumber_normal [OF this(2)] show ?thesis
    by (simp add: Monthly_salary normalizeTerms_def terms_json_def model_texts closedObject_def Let_def)
qed

definition currency_field :: "json option \<Rightarrow> pay_error + string" where
  "currency_field v = (case v of Some (JStr c) \<Rightarrow> if uuid_any c then Inr (map js_lower c) else invalid ''invalid_currency''
     | _ \<Rightarrow> invalid ''invalid_currency'')"

definition auto_field :: "json option \<Rightarrow> pay_error + bool" where
  "auto_field v = (case v of None \<Rightarrow> Inr False | Some (JBool b) \<Rightarrow> Inr b | _ \<Rightarrow> invalid ''invalid_auto_generate'')"

definition end_field :: "json option \<Rightarrow> pay_error + string option" where
  "end_field e = (if nullish e \<or> e = Some (JStr []) then Inr None else map_sum id Some (pay_date e ''invalid_end_date''))"

definition cost_field :: "(rat \<Rightarrow> string) \<Rightarrow> json option \<Rightarrow> pay_error + string" where
  "cost_field nt t = money nt (if nullish t then Some (JStr ''0'') else t) ''invalid_transfer_cost'' False"

lemma normalizeEditable_parts:
  "normalizeEditable nt raw = Inr f \<longleftrightarrow>
     pay_date (json_get raw ''startDate'') ''invalid_start_date'' = Inr (pc_start f)
     \<and> end_field (json_get raw ''endDate'') = Inr (pc_end f)
     \<and> (case pc_end f of None \<Rightarrow> True | Some e \<Rightarrow> \<not> e < pc_start f)
     \<and> currency_field (json_get raw ''currencyId'') = Inr (pc_currency f)
     \<and> cost_field nt (json_get raw ''transferCost'') = Inr (pc_transfer_cost f)
     \<and> normalizeTerms nt (json_get raw ''terms'') = Inr (pc_terms f)
     \<and> auto_field (json_get raw ''autoGenerate'') = Inr (pc_auto f)
     \<and> \<not> (pc_auto f \<and> model_of (pc_terms f) \<noteq> Monthly_salary_model)
     \<and> status_of (json_get raw ''status'') = Some (pc_status f)"
proof -
  have "normalizeEditable nt raw = Inr f \<longleftrightarrow> (\<exists>start. pay_date (json_get raw ''startDate'') ''invalid_start_date'' = Inr start
      \<and> (\<exists>ending. end_field (json_get raw ''endDate'') = Inr ending \<and> (case ending of None \<Rightarrow> True | Some e \<Rightarrow> \<not> e < start)
      \<and> (\<exists>currency. currency_field (json_get raw ''currencyId'') = Inr currency
      \<and> (\<exists>cost. cost_field nt (json_get raw ''transferCost'') = Inr cost
      \<and> (\<exists>terms. normalizeTerms nt (json_get raw ''terms'') = Inr terms
      \<and> (\<exists>auto. auto_field (json_get raw ''autoGenerate'') = Inr auto \<and> \<not> (auto \<and> model_of terms \<noteq> Monthly_salary_model)
      \<and> (\<exists>status. status_of (json_get raw ''status'') = Some status
      \<and> f = \<lparr>pc_start = start, pc_end = ending, pc_currency = currency, pc_transfer_cost = cost, pc_auto = auto,
         pc_status = status, pc_terms = terms\<rparr>)))))))"
    unfolding normalizeEditable_def bind_result_Inr ensure_Inr Let_def
      currency_field_def [symmetric] auto_field_def [symmetric] end_field_def [symmetric] cost_field_def [symmetric]
    by (cases "status_of (json_get raw ''status'')") (simp_all add: invalid_def eq_commute [of f])
  then show ?thesis by (cases f) (simp only: editable.simps editable.ext_inject simp_thms ex_simps HOL.simp_thms, blast)
qed

lemma status_normal: "status_of v = Some s \<Longrightarrow> status_of (Some (JStr (status_text s))) = Some s"
  by (auto simp: status_of_def status_text_def nullish_def split: if_splits)

lemma currency_normal: "currency_field v = Inr c \<Longrightarrow> currency_field (Some (JStr c)) = Inr c"
  by (auto simp: currency_field_def invalid_def uuid_any_lower js_lower_lower split: option.splits json.splits if_splits)

lemma cost_normal: "cost_field nt v = Inr c \<Longrightarrow> cost_field nt (Some (JStr c)) = Inr c"
  unfolding cost_field_def by (drule money_normal) (simp add: nullish_def)

lemma normalizeEditable_normal:
  assumes "normalizeEditable nt raw = Inr f"
    and "json_get obj ''startDate'' = Some (JStr (pc_start f))" "json_get obj ''endDate'' = map_option JStr (pc_end f)"
    and "json_get obj ''currencyId'' = Some (JStr (pc_currency f))" "json_get obj ''transferCost'' = Some (JStr (pc_transfer_cost f))"
    and "json_get obj ''terms'' = Some (terms_json (pc_terms f))" "json_get obj ''autoGenerate'' = Some (JBool (pc_auto f))"
    and "json_get obj ''status'' = Some (JStr (status_text (pc_status f)))"
  shows "normalizeEditable nt obj = Inr f"
proof -
  note parts = assms(1) [unfolded normalizeEditable_parts]
  have dates: "pay_date (Some (JStr d)) code = Inr d" if "isCalendarDate d" for d code using that by (simp add: pay_date_def)
  have date: "isCalendarDate (pc_start f)" "case pc_end f of None \<Rightarrow> True | Some e \<Rightarrow> isCalendarDate e"
    using normalizeEditable_ok [OF assms(1)] by (auto simp: editable_ok_def split: option.splits)
  then have "pc_end f \<noteq> Some []" by (auto simp: isCalendarDate_def)
  with date have ending: "end_field (map_option JStr (pc_end f)) = Inr (pc_end f)"
    by (cases "pc_end f") (auto simp: end_field_def nullish_def dates)
  have currency: "currency_field (Some (JStr (pc_currency f))) = Inr (pc_currency f)"
    using parts currency_normal by blast
  have cost: "cost_field nt (Some (JStr (pc_transfer_cost f))) = Inr (pc_transfer_cost f)"
    using parts cost_normal by blast
  have terms: "normalizeTerms nt (Some (terms_json (pc_terms f))) = Inr (pc_terms f)"
    using parts normalizeTerms_normal by blast
  have status: "status_of (Some (JStr (status_text (pc_status f)))) = Some (pc_status f)"
    using parts status_normal by blast
  show ?thesis
    using parts date(1) unfolding normalizeEditable_parts assms(2-) ending currency cost terms status
    by (simp add: dates auto_field_def)
qed

definition normal_fields :: "(rat \<Rightarrow> string) \<Rightarrow> editable \<Rightarrow> bool" where
  "normal_fields nt f \<longleftrightarrow> normalizePayContractUpdate nt (Some (update_json f)) = Inr f"

lemma update_json_members:
  "json_get (update_json f) ''startDate'' = Some (JStr (pc_start f))" "json_get (update_json f) ''endDate'' = map_option JStr (pc_end f)"
  "json_get (update_json f) ''currencyId'' = Some (JStr (pc_currency f))"
  "json_get (update_json f) ''transferCost'' = Some (JStr (pc_transfer_cost f))"
  "json_get (update_json f) ''terms'' = Some (terms_json (pc_terms f))" "json_get (update_json f) ''autoGenerate'' = Some (JBool (pc_auto f))"
  "json_get (update_json f) ''status'' = Some (JStr (status_text (pc_status f)))"
  "closedObject (Some (update_json f)) UPDATABLE = Inr (update_json f)"
  by (cases "pc_end f"; simp add: update_json_def end_member_def closedObject_def UPDATABLE_def)+

lemma create_json_members:
  "json_get (create_json p f) ''startDate'' = Some (JStr (pc_start f))" "json_get (create_json p f) ''endDate'' = map_option JStr (pc_end f)"
  "json_get (create_json p f) ''currencyId'' = Some (JStr (pc_currency f))"
  "json_get (create_json p f) ''transferCost'' = Some (JStr (pc_transfer_cost f))"
  "json_get (create_json p f) ''terms'' = Some (terms_json (pc_terms f))" "json_get (create_json p f) ''autoGenerate'' = Some (JBool (pc_auto f))"
  "json_get (create_json p f) ''status'' = Some (JStr (status_text (pc_status f)))"
  "json_get (create_json p f) ''candidateId'' = Some (JStr (py_candidate p))"
  "json_get (create_json p f) ''companyId'' = Some (JStr (py_company p))" "json_get (create_json p f) ''storeId'' = Some (JStr (py_store p))"
  "closedObject (Some (create_json p f)) CONTRACT_FIELDS = Inr (create_json p f)"
  by (cases "pc_end f"; simp add: create_json_def end_member_def closedObject_def CONTRACT_FIELDS_def UPDATABLE_def)+

lemma normalizeEditable_update: "normalizeEditable nt raw = Inr f \<Longrightarrow> normal_fields nt f"
  unfolding normal_fields_def normalizePayContractUpdate_def update_json_members(8) bind_result_simps
  by (erule normalizeEditable_normal) (rule update_json_members)+

lemma update_normal: "normalizePayContractUpdate nt v = Inr f \<Longrightarrow> normal_fields nt f"
  by (auto simp: normalizePayContractUpdate_def dest: normalizeEditable_update)

lemma create_normal:
  assumes "normalizePayContractCreate nt v = Inr (p, f)"
  shows "normal_fields nt f" "normalizePayContractCreate nt (Some (create_json p f)) = Inr (p, f)"
proof -
  from assms obtain raw where raw: "normalizeEditable nt raw = Inr f"
    "partyId (json_get raw ''candidateId'') ''invalid_candidate'' = Inr (py_candidate p)"
    "partyId (json_get raw ''companyId'') ''invalid_company'' = Inr (py_company p)"
    "partyId (json_get raw ''storeId'') ''invalid_store'' = Inr (py_store p)"
    by (auto simp: normalizePayContractCreate_def)
  show "normal_fields nt f" by (rule normalizeEditable_update [OF raw(1)])
  have ids: "partyId v code = Inr s \<Longrightarrow> partyId (Some (JStr s)) code = Inr s" for v code s
    by (auto simp: partyId_def invalid_def split: option.splits json.splits if_splits)
  have "normalizeEditable nt (create_json p f) = Inr f"
    by (rule normalizeEditable_normal [OF raw(1)]) (rule create_json_members)+
  then show "normalizePayContractCreate nt (Some (create_json p f)) = Inr (p, f)"
    by (simp add: normalizePayContractCreate_def create_json_members ids [OF raw(2)] ids [OF raw(3)] ids [OF raw(4)])
qed

section \<open>Stored contracts are in normal form\<close>

definition rows_normal :: "(rat \<Rightarrow> string) \<Rightarrow> pay_store \<Rightarrow> bool" where
  "rows_normal nt st \<longleftrightarrow> (\<forall>(k, c) \<in> set (ps_rows st). live c \<longrightarrow> normal_fields nt (ct_fields c))"

lemma rows_normal_lookup: "rows_normal nt st \<Longrightarrow> map_of (ps_rows st) i = Some c \<Longrightarrow> live c \<Longrightarrow> normal_fields nt (ct_fields c)"
  unfolding rows_normal_def by (auto dest: map_of_SomeD)

lemma rows_normal_set: "rows_normal nt st \<Longrightarrow> (live c \<longrightarrow> normal_fields nt (ct_fields c)) \<Longrightarrow>
    rows_normal nt (st\<lparr>ps_rows := AList.update i c (ps_rows st), ps_audit := a\<rparr>)"
  unfolding rows_normal_def by (auto dest!: set_alist_update)

lemma rows_normal_frame [simp]: "rows_normal nt (st\<lparr>ps_fail := b\<rparr>) = rows_normal nt st"
  by (simp add: rows_normal_def)

lemma step_normal:
  assumes "pay_step nt st st'" "rows_ok st" "rows_normal nt st"
  shows "rows_normal nt st'"
  using assms(1)
proof (cases rule: pay_step.cases)
  case (creates resolve actor input now i res)
  show ?thesis
  proof (cases res)
    case (Inl e)
    with creates assms(3) show ?thesis unfolding contract_create_def
      by (auto split: sum.splits prod.splits dest!: transaction_cases)
  next
    case (Inr c)
    with creates obtain p f where n: "normalizePayContractCreate nt input = Inr (p, f)" and w: "create_work actor now i p f st = Inr (c, st')"
      unfolding contract_create_def by (auto split: sum.splits prod.splits dest!: transaction_cases)
    from create_work_Inr [OF w] create_normal(1) [OF n] rows_normal_set [OF assms(3)] show ?thesis by auto
  qed
next
  case (updates resolve previous actor idInput input now res)
  show ?thesis
  proof (cases res)
    case (Inl e)
    with updates assms(3) show ?thesis unfolding contract_update_def
      by (auto split: sum.splits prod.splits dest!: transaction_cases)
  next
    case (Inr c)
    with updates obtain i f where n: "normalizePayContractUpdate nt input = Inr f" and w: "update_work actor now i f previous st = Inr (c, st')"
      unfolding contract_update_def by (auto split: sum.splits prod.splits dest!: transaction_cases)
    from update_work_Inr [OF w assms(2)] update_normal [OF n] rows_normal_set [OF assms(3)] show ?thesis by auto
  qed
next
  case (removes actor idInput now res)
  show ?thesis
  proof (cases res)
    case (Inl e)
    with removes assms(3) show ?thesis unfolding contract_remove_def
      by (auto split: sum.splits prod.splits dest!: transaction_cases)
  next
    case (Inr c)
    with removes obtain i where w: "remove_work actor now i st = Inr (c, st')"
      unfolding contract_remove_def by (auto split: sum.splits prod.splits dest!: transaction_cases)
    from remove_work_Inr [OF w assms(2)] rows_normal_set [OF assms(3)] show ?thesis by auto
  qed
qed (use assms(3) in simp)

lemma reach_normal:
  assumes "pay_reach nt st" shows "rows_normal nt st"
proof -
  let ?st0 = "\<lparr>ps_rows = [], ps_audit = [], ps_fail = False\<rparr>"
  have "rows_ok ?st0 \<and> rows_normal nt ?st0 \<and> no_clash (bookings ?st0)" by (simp add: rows_ok_def rows_normal_def no_clash_def bookings_def)
  with assms [unfolded pay_reach_def] have "rows_ok st \<and> rows_normal nt st \<and> no_clash (bookings st)"
    by (induction rule: rtranclp_induct) (blast dest: step_keeps step_normal)+
  then show ?thesis by blast
qed

end
