(* ===== verification/Pay_Writes.thy ===== *)
theory Pay_Writes
  imports Pay_Normal Safe_Write
begin

declare map_of_eq_Some_iff [simp del] Some_eq_map_of_iff [simp del]

text \<open>
  Pay contracts under safe writes, \<^verbatim>\<open>contract-writes.ts\<close> and
  \<^verbatim>\<open>contract-changes.ts\<close> of \<^verbatim>\<open>packages/pay-contracts/src\<close>: the domain checks a
  preview and a confirm run before the safe write, the writes that wrap a safe write with them, and
  the appliers that turn an approved value into a call of the contract service. \<open>parse\<close> is
  \<open>JSON.parse\<close>, nothing where it throws; a check that throws is \<open>None\<close>. What a check reads of
  the contract store is the store it is given.
\<close>

section \<open>References\<close>

definition PAY_CONTRACT_CREATE_FIELD :: string where
  "PAY_CONTRACT_CREATE_FIELD = ''pay_contract''"

definition PAY_CONTRACT_TERMS_FIELD :: string where
  "PAY_CONTRACT_TERMS_FIELD = ''pay_contract_terms''"

definition PAY_CONTRACT_REMOVAL_FIELD :: string where
  "PAY_CONTRACT_REMOVAL_FIELD = ''pay_contract_removal''"

definition PAY_CONTRACT_CREATE_POLICY :: field_policy where
  "PAY_CONTRACT_CREATE_POLICY = \<lparr>fp_allowed = [PAY_CONTRACT_CREATE_FIELD], fp_max_length = 1024, fp_allow_clear = False\<rparr>"

definition PAY_CONTRACT_CHANGE_POLICY :: field_policy where
  "PAY_CONTRACT_CHANGE_POLICY = \<lparr>fp_allowed = [PAY_CONTRACT_TERMS_FIELD, PAY_CONTRACT_REMOVAL_FIELD], fp_max_length = 1024, fp_allow_clear = False\<rparr>"

definition pay_ref :: "(string \<Rightarrow> string) \<Rightarrow> string \<Rightarrow> string \<Rightarrow> string" where
  "pay_ref sha256 domain v = sha256 (''studenthub:'' @ domain @ '':v1'' @ char_of (0 :: nat) # v)"

definition payContractCompanyRecordRef :: "(string \<Rightarrow> string) \<Rightarrow> string \<Rightarrow> string" where
  "payContractCompanyRecordRef sha256 i = pay_ref sha256 ''pay-contract-company-record'' i"

definition payContractPrincipalRef :: "(string \<Rightarrow> string) \<Rightarrow> string \<Rightarrow> string" where
  "payContractPrincipalRef sha256 i = pay_ref sha256 ''pay-contract-principal'' i"

definition payContractRecordRef :: "(string \<Rightarrow> string) \<Rightarrow> string \<Rightarrow> string" where
  "payContractRecordRef sha256 i = pay_ref sha256 ''pay-contract-record'' i"

section \<open>Checks\<close>

text \<open>A client's error makes the check answer no; any other is thrown on.\<close>

definition refused_value :: "pay_error \<Rightarrow> bool option" where
  "refused_value e = (case e of Pay_error code status \<Rightarrow> if status = 400 then Some False else None | Store_error _ \<Rightarrow> None)"

definition clear_days :: "pay_contract list \<Rightarrow> string \<Rightarrow> string option \<Rightarrow> editable \<Rightarrow> bool" where
  "clear_days contracts shop own f \<longleftrightarrow> \<not> list_ex (\<lambda>c. py_store (ct_parties c) = shop \<and> live c \<and> Some (ct_id c) \<noteq> own
     \<and> overlaps (days_of (ct_fields c)) (days_of f)) contracts"

definition payContractCreateCheck :: "(string \<Rightarrow> json option) \<Rightarrow> (rat \<Rightarrow> string) \<Rightarrow> (string \<Rightarrow> ref_answer) \<Rightarrow> (string \<Rightarrow> bool option) \<Rightarrow> pay_store
    \<Rightarrow> string \<Rightarrow> string \<Rightarrow> bool option" where
  "payContractCreateCheck parse nt resolve isCandidate st companyId v =
     (case parse v of None \<Rightarrow> Some False | Some j \<Rightarrow>
      (case normalizePayContractCreate nt (Some j) of
        Inl e \<Rightarrow> refused_value e
      | Inr (p, f) \<Rightarrow>
          if payContractCreateValue nt p f \<noteq> v \<or> py_company p \<noteq> companyId then Some False
          else (case resolve (pc_currency f) of
            Ref_fails \<Rightarrow> None | Ref_deleted \<Rightarrow> Some False | Ref_unknown \<Rightarrow> Some False
          | Ref_active \<Rightarrow> (case isCandidate (py_candidate p) of
              None \<Rightarrow> None | Some False \<Rightarrow> Some False
            | Some True \<Rightarrow> Some (clear_days (store_list st (py_candidate p)) (py_store p) None f)))))"

text \<open>The object of a stored contract has the members of \<open>update_json\<close>, in another order.\<close>

definition payContractEditableValue :: "(rat \<Rightarrow> string) \<Rightarrow> pay_contract \<Rightarrow> pay_error + string" where
  "payContractEditableValue nt c = map_sum id (payContractTermsValue nt) (normalizePayContractUpdate nt (Some (update_json (ct_fields c))))"

definition payContractStateDecision :: "string option \<Rightarrow> string option \<Rightarrow> bool" where
  "payContractStateDecision current expected \<longleftrightarrow> current = expected"

definition still_clear :: "pay_store \<Rightarrow> string \<Rightarrow> editable \<Rightarrow> bool option" where
  "still_clear st contractId f = (case store_get st contractId of None \<Rightarrow> Some False | Some c \<Rightarrow>
     if \<not> live c then Some False
     else Some (clear_days (store_list st (py_candidate (ct_parties c))) (py_store (ct_parties c)) (Some (ct_id c)) f))"

definition payContractChangeCheck :: "(string \<Rightarrow> json option) \<Rightarrow> (rat \<Rightarrow> string) \<Rightarrow> (string \<Rightarrow> ref_answer) \<Rightarrow> pay_store
    \<Rightarrow> string \<Rightarrow> string \<Rightarrow> string \<Rightarrow> string option \<Rightarrow> bool option" where
  "payContractChangeCheck parse nt resolve st contractId field v before =
     (if field = PAY_CONTRACT_REMOVAL_FIELD then Some (v = ''removed'' \<and> before \<noteq> None)
      else if field \<noteq> PAY_CONTRACT_TERMS_FIELD then Some False
      else case before of None \<Rightarrow> Some False | Some earlier \<Rightarrow>
       (case parse v of None \<Rightarrow> Some False | Some j \<Rightarrow>
        (case normalizePayContractUpdate nt (Some j) of Inl e \<Rightarrow> refused_value e
        | Inr f \<Rightarrow> if payContractTermsValue nt f \<noteq> v then Some False
            else (case parse earlier of None \<Rightarrow> Some False | Some j' \<Rightarrow>
             (case normalizePayContractUpdate nt (Some j') of Inl e \<Rightarrow> refused_value e
             | Inr old \<Rightarrow>
                 if pc_currency f = pc_currency old then still_clear st contractId f
                 else (case resolve (pc_currency f) of Ref_fails \<Rightarrow> None | Ref_deleted \<Rightarrow> Some False | Ref_unknown \<Rightarrow> Some False
                       | Ref_active \<Rightarrow> still_clear st contractId f))))))"

section \<open>Safe writes with a check\<close>

datatype checked = Check_ok | Check_invalid | Check_delegate

text \<open>A record that is not owned is left to the safe write, which refuses it without the check.\<close>

definition pay_checked :: "string option \<Rightarrow> string \<Rightarrow> bool option \<Rightarrow> checked option" where
  "pay_checked owned person verdict =
     (if owned \<noteq> Some person then Some Check_delegate
      else map_option (\<lambda>ok. if ok then Check_ok else Check_invalid) verdict)"

text \<open>\<open>seen\<close> and \<open>now_before\<close> are what the store answered the check, \<open>owned\<close> and \<open>before\<close> what it
  answers the safe write; \<open>used\<close> is the answer of \<open>tokenUsed\<close>, nothing where the store has none.\<close>

definition payContractCreatePreview :: "crypto \<Rightarrow> safe_write \<Rightarrow> (string \<Rightarrow> bool option) \<Rightarrow> string \<Rightarrow> int \<Rightarrow> string option \<Rightarrow> string option \<Rightarrow> string option
    \<Rightarrow> change_request \<Rightarrow> string \<Rightarrow> (rejection + (field_change list \<times> action_token)) option" where
  "payContractCreatePreview cr sw check fresh now seen owned before change principalRef =
     (case pay_checked seen (ch_person change) (check (ch_value change)) of
        None \<Rightarrow> None
      | Some Check_invalid \<Rightarrow> Some (Inl Invalid_value)
      | Some _ \<Rightarrow> Some (preview cr sw fresh now owned before change principalRef))"

definition payContractCreateConfirm :: "crypto \<Rightarrow> safe_write \<Rightarrow> (string \<Rightarrow> bool option) \<Rightarrow> ('s \<Rightarrow> commit_input \<Rightarrow> 's \<times> commit_outcome) \<Rightarrow> bool option
    \<Rightarrow> int \<Rightarrow> int \<Rightarrow> string option \<Rightarrow> string option \<Rightarrow> string option \<Rightarrow> string set \<Rightarrow> 's \<Rightarrow> action_token \<Rightarrow> change_request \<Rightarrow> string
    \<Rightarrow> (string set \<times> 's \<times> (rejection + receipt)) option" where
  "payContractCreateConfirm cr sw check commit used now later seen owned current spent st token change principalRef =
     (let run = confirm cr sw commit now later owned current spent st token change principalRef
      in if used = Some True then Some run
         else case pay_checked seen (ch_person change) (check (ch_value change)) of
           None \<Rightarrow> None
         | Some Check_invalid \<Rightarrow> Some (spent, st, Inl Invalid_value)
         | Some _ \<Rightarrow> Some run)"

definition payContractChangePreview :: "crypto \<Rightarrow> safe_write \<Rightarrow> (string \<Rightarrow> string \<Rightarrow> string option \<Rightarrow> bool option) \<Rightarrow> string \<Rightarrow> int \<Rightarrow> string option \<Rightarrow> string option
    \<Rightarrow> string option \<Rightarrow> string option \<Rightarrow> change_request \<Rightarrow> string \<Rightarrow> (rejection + (field_change list \<times> action_token)) option" where
  "payContractChangePreview cr sw check fresh now seen now_before owned before change principalRef =
     (case pay_checked seen (ch_person change) (check (ch_field change) (ch_value change) now_before) of
        None \<Rightarrow> None
      | Some Check_invalid \<Rightarrow> Some (Inl Invalid_value)
      | Some _ \<Rightarrow> Some (preview cr sw fresh now owned before change principalRef))"

text \<open>A token the store has committed goes to an instance of its own, that counts it spent.\<close>

definition payContractChangeConfirm :: "crypto \<Rightarrow> safe_write \<Rightarrow> (string \<Rightarrow> string \<Rightarrow> string option \<Rightarrow> bool option)
    \<Rightarrow> ('s \<Rightarrow> commit_input \<Rightarrow> 's \<times> commit_outcome) \<Rightarrow> bool option \<Rightarrow> int \<Rightarrow> int \<Rightarrow> string option \<Rightarrow> string option \<Rightarrow> string option \<Rightarrow> string option
    \<Rightarrow> string set \<Rightarrow> 's \<Rightarrow> action_token \<Rightarrow> change_request \<Rightarrow> string \<Rightarrow> (string set \<times> 's \<times> (rejection + receipt)) option" where
  "payContractChangeConfirm cr sw check commit used now later seen now_before owned current spent st token change principalRef =
     (if used = Some True
      then (case confirm cr sw commit now later owned current {tk_id token} st token change principalRef of (_, st', r) \<Rightarrow> Some (spent, st', r))
      else case pay_checked seen (ch_person change) (check (ch_field change) (ch_value change) now_before) of
          None \<Rightarrow> None
        | Some Check_invalid \<Rightarrow> Some (spent, st, Inl Invalid_value)
        | Some _ \<Rightarrow> Some (confirm cr sw commit now later owned current spent st token change principalRef))"

section \<open>Applying an approved value\<close>

datatype applied = Applied | Apply_refused rejection | Apply_throws

definition create_refusal :: "pay_error \<Rightarrow> applied" where
  "create_refusal e = (case e of Pay_error code status \<Rightarrow> if code = ''overlapping_contract'' \<or> status = 400 then Apply_refused State_changed else Apply_throws
     | Store_error _ \<Rightarrow> Apply_throws)"

text \<open>The object handed to the service has the members of \<open>create_json\<close>, in another order.\<close>

definition payContractCreator :: "(string \<Rightarrow> json option) \<Rightarrow> (rat \<Rightarrow> string) \<Rightarrow> (string \<Rightarrow> ref_answer) \<Rightarrow> string \<Rightarrow> string \<Rightarrow> string \<Rightarrow> string \<Rightarrow> string
    \<Rightarrow> pay_store \<Rightarrow> applied \<times> pay_store" where
  "payContractCreator parse nt resolve actor companyId v now i st =
     (case parse v of None \<Rightarrow> (Apply_throws, st) | Some j \<Rightarrow>
      (case normalizePayContractCreate nt (Some j) of Inl e \<Rightarrow> (Apply_throws, st)
      | Inr (p, f) \<Rightarrow>
          if py_company p \<noteq> companyId then (Apply_throws, st)
          else (case contract_create nt resolve actor (Some (create_json p f)) now i st of
              (Inr c, st') \<Rightarrow> (Applied, st')
            | (Inl e, st') \<Rightarrow> (create_refusal e, st'))))"

definition change_refusal :: "pay_error \<Rightarrow> applied" where
  "change_refusal e = (case e of Pay_error code status \<Rightarrow>
       if code = ''not_found'' then Apply_refused Not_own_record
       else if code = ''overlapping_contract'' \<or> code = ''contract_changed'' \<or> status = 400 then Apply_refused State_changed
       else Apply_throws
     | Store_error _ \<Rightarrow> Apply_throws)"

definition change_applied :: "(pay_error + pay_contract) \<times> pay_store \<Rightarrow> applied \<times> pay_store" where
  "change_applied r = (case r of (Inr c, st') \<Rightarrow> (Applied, st') | (Inl e, st') \<Rightarrow> (change_refusal e, st'))"

definition payContractChanger :: "(string \<Rightarrow> json option) \<Rightarrow> (rat \<Rightarrow> string) \<Rightarrow> (string \<Rightarrow> ref_answer) \<Rightarrow> pay_contract option \<Rightarrow> string \<Rightarrow> string \<Rightarrow> string
    \<Rightarrow> string \<Rightarrow> string \<Rightarrow> pay_store \<Rightarrow> applied \<times> pay_store" where
  "payContractChanger parse nt resolve previous actor contractId field v now st =
     (if field = PAY_CONTRACT_TERMS_FIELD
      then (case parse v of None \<Rightarrow> (Apply_throws, st)
            | Some j \<Rightarrow> change_applied (contract_update nt resolve previous actor (Some (JStr contractId)) (Some j) now st))
      else if field = PAY_CONTRACT_REMOVAL_FIELD
      then change_applied (contract_remove actor (Some (JStr contractId)) now st)
      else (Apply_throws, st))"

section \<open>Checks and appliers agree\<close>

lemma clear_days_free:
  assumes "rows_ok st" and "own = Some i \<or> (own = None \<and> store_get st i = None)"
  shows "clear_days (store_list st (py_candidate p)) (py_store p) own f
    \<longleftrightarrow> assertNoOverlap (lockPair st (py_candidate p) (py_store p)) i f = Inr ()"
proof -
  have "Some (ct_id c) \<noteq> own \<longleftrightarrow> ct_id c \<noteq> i" if "c \<in> snd ` set (ps_rows st)" for c
    using assms(2) rows_ok_row [OF assms(1), of c] that by (auto simp: store_get_def)
  then show ?thesis
    by (auto simp: clear_days_def assertNoOverlap_def store_list_def lockPair_def list_ex_iff)
qed

lemma create_run:
  assumes "normalizePayContractCreate nt input = Inr (p, f)" "actor \<noteq> []" "store_get st i = None" "\<not> ps_fail st"
  shows "(\<exists>c st'. contract_create nt resolve actor input now i st = (Inr c, st') \<and> store_get st' i = Some c \<and> ct_parties c = p \<and> ct_fields c = f)
    \<longleftrightarrow> resolve (pc_currency f) = Ref_active \<and> assertNoOverlap (lockPair st (py_candidate p) (py_store p)) i f = Inr ()"
  using assms
  by (cases "resolve (pc_currency f)")
    (auto simp: contract_create_def requireActor_def assertCurrency_def invalid_def ensure_def pay_transaction_def create_work_def Let_def
      tx_insert_def tx_audit_def store_get_def assertNoOverlap_def)

lemma create_outcome:
  assumes "contract_create nt resolve actor input now i st = (Inr c, st')" "normalizePayContractCreate nt input = Inr (p, f)"
  shows "ct_parties c = p \<and> ct_fields c = f \<and> store_get st' i = Some c"
proof -
  from assms have "create_work actor now i p f st = Inr (c, st')"
    unfolding contract_create_def by (auto split: sum.splits prod.splits dest!: transaction_cases)
  from create_work_Inr [OF this] show ?thesis by (auto simp: store_get_def)
qed

text \<open>C18. What the check of a new contract lets through is what the applier stores: on a reachable store it
  answers yes exactly when the creator, run on that store under a new id, applies the value, the contract it
  stores renders to the very text that was approved, for the company it was approved for, and the candidate is one.\<close>

theorem create_check_is_exact:
  assumes "pay_reach nt st" and "actor \<noteq> []" and "store_get st i = None" and "\<not> ps_fail st"
  shows "payContractCreateCheck parse nt resolve isCandidate st companyId v = Some True \<longleftrightarrow>
    (\<exists>c st'. payContractCreator parse nt resolve actor companyId v now i st = (Applied, st') \<and> store_get st' i = Some c
       \<and> payContractCreateValue nt (ct_parties c) (ct_fields c) = v \<and> py_company (ct_parties c) = companyId
       \<and> isCandidate (py_candidate (ct_parties c)) = Some True)"
proof -
  have rows: "rows_ok st" using reach_keeps [OF assms(1)] by simp
  show ?thesis
  proof (cases "\<exists>j p f. parse v = Some j \<and> normalizePayContractCreate nt (Some j) = Inr (p, f)")
    case False
    then have "payContractCreateCheck parse nt resolve isCandidate st companyId v \<noteq> Some True"
      and "fst (payContractCreator parse nt resolve actor companyId v now i st) = Apply_throws"
      by (auto simp: payContractCreateCheck_def payContractCreator_def refused_value_def split: option.splits sum.splits pay_error.splits)
    then show ?thesis by auto
  next
    case True
    then obtain j p f where j: "parse v = Some j" "normalizePayContractCreate nt (Some j) = Inr (p, f)" by blast
    note again = create_normal(2) [OF j(2)]
    have check: "payContractCreateCheck parse nt resolve isCandidate st companyId v = Some True \<longleftrightarrow>
        payContractCreateValue nt p f = v \<and> py_company p = companyId \<and> isCandidate (py_candidate p) = Some True
        \<and> resolve (pc_currency f) = Ref_active \<and> assertNoOverlap (lockPair st (py_candidate p) (py_store p)) i f = Inr ()"
      using clear_days_free [OF rows, of None i p f] assms(3)
      by (auto simp: payContractCreateCheck_def j split: ref_answer.splits option.splits bool.splits)
    have creator: "payContractCreator parse nt resolve actor companyId v now i st = (Applied, st') \<longleftrightarrow>
        py_company p = companyId \<and> (\<exists>c. contract_create nt resolve actor (Some (create_json p f)) now i st = (Inr c, st'))" for st'
      by (auto simp: payContractCreator_def j create_refusal_def split: prod.splits sum.splits pay_error.splits if_splits)
    note run = create_run [OF again assms(2-4), of resolve now] and kept = create_outcome [OF _ again, of resolve actor now i st]
    show ?thesis
    proof
      assume "payContractCreateCheck parse nt resolve isCandidate st companyId v = Some True"
      with check have ok: "payContractCreateValue nt p f = v" "py_company p = companyId" "isCandidate (py_candidate p) = Some True"
        and "resolve (pc_currency f) = Ref_active \<and> assertNoOverlap (lockPair st (py_candidate p) (py_store p)) i f = Inr ()" by blast+
      with run obtain c st' where "contract_create nt resolve actor (Some (create_json p f)) now i st = (Inr c, st')"
        "store_get st' i = Some c" "ct_parties c = p" "ct_fields c = f" by blast
      with ok creator show "\<exists>c st'. payContractCreator parse nt resolve actor companyId v now i st = (Applied, st') \<and> store_get st' i = Some c
         \<and> payContractCreateValue nt (ct_parties c) (ct_fields c) = v \<and> py_company (ct_parties c) = companyId
         \<and> isCandidate (py_candidate (ct_parties c)) = Some True" by (intro exI [of _ c] exI [of _ st']) simp
    next
      assume "\<exists>c st'. payContractCreator parse nt resolve actor companyId v now i st = (Applied, st') \<and> store_get st' i = Some c
         \<and> payContractCreateValue nt (ct_parties c) (ct_fields c) = v \<and> py_company (ct_parties c) = companyId
         \<and> isCandidate (py_candidate (ct_parties c)) = Some True"
      then obtain c d st' where c: "store_get st' i = Some c" "payContractCreateValue nt (ct_parties c) (ct_fields c) = v"
          "py_company (ct_parties c) = companyId" "isCandidate (py_candidate (ct_parties c)) = Some True"
        and d: "contract_create nt resolve actor (Some (create_json p f)) now i st = (Inr d, st')" using creator by blast
      from kept [OF d] c(1) have e: "ct_parties c = p" "ct_fields c = f" "d = c" by auto
      with d c(1) run have "resolve (pc_currency f) = Ref_active \<and> assertNoOverlap (lockPair st (py_candidate p) (py_store p)) i f = Inr ()" by blast
      with c e check show "payContractCreateCheck parse nt resolve isCandidate st companyId v = Some True" by simp
    qed
  qed
qed

lemma update_run:
  assumes "rows_ok st" "store_get st i = Some c" "live c" "requireId idInput = Inr i" "normalizePayContractUpdate nt input = Inr f"
    and "actor \<noteq> []" "\<not> ps_fail st"
  shows "(\<exists>d st'. contract_update nt resolve (Some c) actor idInput input now st = (Inr d, st'))
    \<longleftrightarrow> (pc_currency f = pc_currency (ct_fields c) \<or> resolve (pc_currency f) = Ref_active)
      \<and> assertNoOverlap (lockPair st (py_candidate (ct_parties c)) (py_store (ct_parties c))) i f = Inr ()"
proof -
  let ?over = "assertNoOverlap (lockPair st (py_candidate (ct_parties c)) (py_store (ct_parties c))) i f"
  have i: "map_of (ps_rows st) i = Some c" "ct_id c = i" using assms(1,2) by (auto simp: store_get_def dest: rows_ok_lookup)
  have work: "(\<exists>d st'. pay_transaction (update_work actor now i f (Some c)) st = (Inr d, st')) \<longleftrightarrow> ?over = Inr ()"
    using assms(3,7) i by (auto simp: pay_transaction_def update_work_def Let_def tx_replace_def tx_audit_def assertNoOverlap_def ensure_def)
  have currency: "assertCurrency resolve (pc_currency f) (Some (pc_currency (ct_fields c))) = Inr ()
      \<longleftrightarrow> pc_currency f = pc_currency (ct_fields c) \<or> resolve (pc_currency f) = Ref_active"
    by (auto simp: assertCurrency_def invalid_def split: ref_answer.splits)
  have "contract_update nt resolve (Some c) actor idInput input now st =
      (case assertCurrency resolve (pc_currency f) (Some (pc_currency (ct_fields c))) of Inl e \<Rightarrow> (Inl e, st)
       | Inr u \<Rightarrow> pay_transaction (update_work actor now i f (Some c)) st)"
    using assms(4-6) by (simp add: contract_update_def requireActor_def ensure_def split: sum.splits)
  then show ?thesis using work currency by (auto split: sum.splits)
qed

lemma update_outcome:
  assumes "contract_update nt resolve previous actor idInput input now st = (Inr d, st')" "normalizePayContractUpdate nt input = Inr f"
    and "requireId idInput = Inr i" "rows_ok st" "store_get st i = Some c"
  shows "ct_parties d = ct_parties c \<and> ct_fields d = f \<and> store_get st' i = Some d"
proof -
  from assms(1-3) have "update_work actor now i f previous st = Inr (d, st')"
    unfolding contract_update_def by (auto split: sum.splits prod.splits dest!: transaction_cases)
  from update_work_Inr [OF this assms(4)] assms(5) show ?thesis by (auto simp: store_get_def)
qed

lemma removal_run:
  assumes "rows_ok st" "store_get st i = Some c" "live c" "requireId idInput = Inr i" "actor \<noteq> []" "\<not> ps_fail st"
  shows "\<exists>d st'. contract_remove actor idInput now st = (Inr d, st') \<and> ct_id d = i"
proof -
  have i: "map_of (ps_rows st) i = Some c" "ct_id c = i" using assms(1,2) by (auto simp: store_get_def dest: rows_ok_lookup)
  with assms(3-6) show ?thesis
    by (simp add: contract_remove_def requireActor_def ensure_def pay_transaction_def remove_work_def Let_def tx_replace_def tx_audit_def)
qed

lemma editable_value: "normal_fields nt (ct_fields c) \<Longrightarrow> payContractEditableValue nt c = Inr (payContractTermsValue nt (ct_fields c))"
  by (simp add: payContractEditableValue_def normal_fields_def)

lemma change_check_terms:
  assumes "rows_ok st" "store_get st i = Some c" "live c" "normal_fields nt (ct_fields c)"
    and "parse (payContractTermsValue nt (ct_fields c)) = Some (update_json (ct_fields c))"
  shows "payContractChangeCheck parse nt resolve st i PAY_CONTRACT_TERMS_FIELD v (Some (payContractTermsValue nt (ct_fields c))) = Some True \<longleftrightarrow>
    (\<exists>j f. parse v = Some j \<and> normalizePayContractUpdate nt (Some j) = Inr f \<and> payContractTermsValue nt f = v
      \<and> (pc_currency f = pc_currency (ct_fields c) \<or> resolve (pc_currency f) = Ref_active)
      \<and> assertNoOverlap (lockPair st (py_candidate (ct_parties c)) (py_store (ct_parties c))) i f = Inr ())"
proof -
  have "ct_id c = i" using assms(1,2) by (auto simp: store_get_def dest: rows_ok_lookup)
  then have clear: "still_clear st i f = Some (assertNoOverlap (lockPair st (py_candidate (ct_parties c)) (py_store (ct_parties c))) i f = Inr ())" for f
    using assms(2,3) clear_days_free [OF assms(1), of "Some i" i "ct_parties c" f] by (simp add: still_clear_def)
  have fields: "PAY_CONTRACT_TERMS_FIELD \<noteq> PAY_CONTRACT_REMOVAL_FIELD" by (simp add: PAY_CONTRACT_TERMS_FIELD_def PAY_CONTRACT_REMOVAL_FIELD_def)
  show ?thesis
    using fields assms(4,5)
    by (auto simp: payContractChangeCheck_def refused_value_def normal_fields_def clear
        split: option.splits sum.splits pay_error.splits ref_answer.splits if_splits)
qed

text \<open>C19. What the check of a change lets through is what the applier stores. On a reachable store, for a live
  contract whose value the preview showed (its own canonical text, which \<open>JSON.parse\<close> reads back): the check of
  new terms answers yes exactly when the changer applies them, leaves the parties alone, and the contract it
  stores renders to the approved text; and a removal the check lets through takes the booking out.\<close>

theorem change_check_is_exact:
  assumes "pay_reach nt st" and "store_get st i = Some c" and "live c" and "uuid_any i" and "map js_lower i = i"
    and "actor \<noteq> []" and "\<not> ps_fail st"
    and "parse (payContractTermsValue nt (ct_fields c)) = Some (update_json (ct_fields c))"
  shows "payContractEditableValue nt c = Inr (payContractTermsValue nt (ct_fields c))
    \<and> (payContractChangeCheck parse nt resolve st i PAY_CONTRACT_TERMS_FIELD v (Some (payContractTermsValue nt (ct_fields c))) = Some True \<longleftrightarrow>
        (\<exists>d st'. payContractChanger parse nt resolve (Some c) actor i PAY_CONTRACT_TERMS_FIELD v now st = (Applied, st') \<and> store_get st' i = Some d
           \<and> ct_parties d = ct_parties c \<and> payContractEditableValue nt d = Inr v))
    \<and> (payContractChangeCheck parse nt resolve st i PAY_CONTRACT_REMOVAL_FIELD v before = Some True \<longrightarrow>
        (\<exists>st'. payContractChanger parse nt resolve (Some c) actor i PAY_CONTRACT_REMOVAL_FIELD v now st = (Applied, st')
           \<and> bookings st' = (bookings st)(i := None)))"
proof -
  have rows: "rows_ok st" and normal: "normal_fields nt (ct_fields c)"
    using reach_keeps [OF assms(1)] rows_normal_lookup [OF reach_normal [OF assms(1)]] assms(2,3) by (auto simp: store_get_def)
  have i: "requireId (Some (JStr i)) = Inr i" using assms(4,5) by (simp add: requireId_def)
  have fields: "PAY_CONTRACT_REMOVAL_FIELD \<noteq> PAY_CONTRACT_TERMS_FIELD" by (simp add: PAY_CONTRACT_TERMS_FIELD_def PAY_CONTRACT_REMOVAL_FIELD_def)
  note checks = change_check_terms [OF rows assms(2,3) normal, of parse, OF assms(8)]
  have terms: "payContractChangeCheck parse nt resolve st i PAY_CONTRACT_TERMS_FIELD v (Some (payContractTermsValue nt (ct_fields c))) = Some True \<longleftrightarrow>
      (\<exists>d st'. payContractChanger parse nt resolve (Some c) actor i PAY_CONTRACT_TERMS_FIELD v now st = (Applied, st') \<and> store_get st' i = Some d
         \<and> ct_parties d = ct_parties c \<and> payContractEditableValue nt d = Inr v)" (is "?check \<longleftrightarrow> ?applied")
  proof
    assume ?check
    then obtain j f where j: "parse v = Some j" "normalizePayContractUpdate nt (Some j) = Inr f" "payContractTermsValue nt f = v"
      and "(pc_currency f = pc_currency (ct_fields c) \<or> resolve (pc_currency f) = Ref_active)
        \<and> assertNoOverlap (lockPair st (py_candidate (ct_parties c)) (py_store (ct_parties c))) i f = Inr ()"
      unfolding checks by blast
    with update_run [OF rows assms(2,3) i j(2) assms(6,7)] obtain d st'
      where d: "contract_update nt resolve (Some c) actor (Some (JStr i)) (Some j) now st = (Inr d, st')" by blast
    from update_outcome [OF d j(2) i rows assms(2)] have e: "ct_parties d = ct_parties c" "ct_fields d = f" "store_get st' i = Some d" by auto
    with editable_value [of nt d] update_normal [OF j(2)] j(3) have "payContractEditableValue nt d = Inr v" by simp
    with d e j(1) show ?applied by (intro exI [of _ d] exI [of _ st']) (simp add: payContractChanger_def change_applied_def)
  next
    assume ?applied
    then obtain j d e st' where j: "parse v = Some j" and e: "contract_update nt resolve (Some c) actor (Some (JStr i)) (Some j) now st = (Inr e, st')"
      and d: "store_get st' i = Some d" "payContractEditableValue nt d = Inr v"
      by (auto simp: payContractChanger_def change_applied_def change_refusal_def split: option.splits prod.splits sum.splits pay_error.splits if_splits)
    from e obtain f where f: "normalizePayContractUpdate nt (Some j) = Inr f"
      unfolding contract_update_def by (auto split: sum.splits)
    from update_outcome [OF e f i rows assms(2)] d have "ct_fields d = f" by simp
    with d(2) editable_value [of nt d] update_normal [OF f] have "payContractTermsValue nt f = v" by simp
    with j f e update_run [OF rows assms(2,3) i f assms(6,7), of resolve now] show ?check
      unfolding checks by blast
  qed
  obtain d st' where d: "contract_remove actor (Some (JStr i)) now st = (Inr d, st')" "ct_id d = i"
    using removal_run [OF rows assms(2,3) i assms(6,7)] by blast
  from remove_effect [OF d(1) rows] d(2) have "bookings st' = (bookings st)(i := None)" by simp
  with d(1) fields terms editable_value [OF normal] show ?thesis
    by (simp add: payContractChanger_def change_applied_def)
qed

text \<open>A repeated confirm is answered as such: once the store has committed a genuine token, a further confirm
  of it by its principal is refused as already used and leaves the store alone, whatever the
  contract has become and the check would say.\<close>

lemma repeated_change_is_told:
  "reference_ok p \<Longrightarrow> validateChange change (sw_policy sw) = None \<Longrightarrow> tk_mac token = tokenMac cr token (sw_secret sw) \<Longrightarrow> tk_principal token = p \<Longrightarrow>
    payContractChangeConfirm cr sw check commit (Some True) now later seen now_before owned current spent st token change p
    = Some (spent, st, Inl Token_already_used)"
  by (simp add: payContractChangeConfirm_def confirm_def)

definition demo_parse :: "string \<Rightarrow> json option" where
  "demo_parse s = (if s = payContractCreateValue (\<lambda>_. []) demo_parties demo_fields then Some (create_json demo_parties demo_fields)
     else if s = payContractTermsValue (\<lambda>_. []) demo_fields then Some (update_json demo_fields) else None)"

theorem create_check_is_exact_witness:
  "\<exists>c st. payContractCreator demo_parse (\<lambda>_. []) (\<lambda>_. Ref_active) ''ada'' ''o1'' (payContractCreateValue (\<lambda>_. []) demo_parties demo_fields) ''t'' demo_id no_contracts
      = (Applied, st) \<and> store_get st demo_id = Some c"
proof -
  have reach: "pay_reach (\<lambda>_. []) no_contracts" by (simp add: pay_reach_def no_contracts_def)
  have "payContractCreateCheck demo_parse (\<lambda>_. []) (\<lambda>_. Ref_active) (\<lambda>_. Some True) no_contracts ''o1''
      (payContractCreateValue (\<lambda>_. []) demo_parties demo_fields) = Some True"
    using create_normal(2) [OF demo_normalized [of "\<lambda>_. []"]]
    by (simp add: payContractCreateCheck_def demo_parse_def clear_days_def store_list_def no_contracts_def) (simp add: demo_parties_def)
  moreover have "store_get no_contracts demo_id = None" "\<not> ps_fail no_contracts" by (simp_all add: store_get_def no_contracts_def)
  ultimately show ?thesis
    using create_check_is_exact [OF reach, of "''ada''" demo_id demo_parse "\<lambda>_. Ref_active" "\<lambda>_. Some True" "''o1''"
      "payContractCreateValue (\<lambda>_. []) demo_parties demo_fields" "''t''"] by blast
qed

theorem change_check_is_exact_witness:
  "\<exists>d st. payContractChanger demo_parse (\<lambda>_. []) (\<lambda>_. Ref_active) (Some demo_contract) ''ada'' demo_id PAY_CONTRACT_TERMS_FIELD
      (payContractTermsValue (\<lambda>_. []) demo_fields) ''t'' demo_booked = (Applied, st) \<and> store_get st demo_id = Some d"
proof -
  have row: "store_get demo_booked demo_id = Some demo_contract" "\<not> ps_fail demo_booked" by (simp_all add: store_get_def demo_booked_def)
  have uuid: "uuid_any demo_id" "map js_lower demo_id = demo_id"
    by (simp_all add: uuid_any_def demo_id_def any_hex_def hex_char_def digit_char_def js_lower_def Let_def)
  have normal: "normal_fields (\<lambda>_. []) demo_fields" by (rule create_normal(1) [OF demo_normalized])
  have "create_json demo_parties demo_fields \<noteq> update_json demo_fields" by (simp add: create_json_def update_json_def end_member_def demo_fields_def)
  moreover have "js_stringify (\<lambda>_. []) (create_json demo_parties demo_fields) = js_stringify (\<lambda>_. []) (update_json demo_fields)
      \<longleftrightarrow> create_json demo_parties demo_fields = update_json demo_fields"
    by (rule stringify_inj) (simp_all add: create_json_def update_json_def end_member_def demo_fields_def terms_json_def)
  ultimately have parse: "demo_parse (payContractTermsValue (\<lambda>_. []) demo_fields) = Some (update_json demo_fields)"
    by (simp add: demo_parse_def payContractCreateValue_def payContractTermsValue_def)
  have fields: "PAY_CONTRACT_TERMS_FIELD \<noteq> PAY_CONTRACT_REMOVAL_FIELD" by (simp add: PAY_CONTRACT_TERMS_FIELD_def PAY_CONTRACT_REMOVAL_FIELD_def)
  have "ct_id demo_contract = demo_id" by (simp add: demo_contract_def)
  then have "payContractChangeCheck demo_parse (\<lambda>_. []) (\<lambda>_. Ref_active) demo_booked demo_id PAY_CONTRACT_TERMS_FIELD
      (payContractTermsValue (\<lambda>_. []) demo_fields) (Some (payContractTermsValue (\<lambda>_. []) demo_fields)) = Some True"
    using normal fields
    by (simp add: payContractChangeCheck_def parse normal_fields_def still_clear_def row demo_listed(2-4) clear_days_def store_list_def)
      (simp add: demo_booked_def)
  with change_check_is_exact [OF demo_booked_reach row(1) demo_listed(4) uuid, of "''ada''" demo_parse "\<lambda>_. Ref_active"
      "payContractTermsValue (\<lambda>_. []) demo_fields" "''t''" None] row(2) parse
  show ?thesis by (auto simp: demo_listed(3))
qed

end
