(* ===== verification/Bank.thy ===== *)
theory Bank
  imports Pay_Contracts
begin

declare map_of_eq_Some_iff [simp del] Some_eq_map_of_iff [simp del]

text \<open>
  Bank details for payment: \<^verbatim>\<open>packages/pay-contracts/src/bank.ts\<close> and the value
  they are stored as, \<^verbatim>\<open>bank-write.ts\<close>. NFKC and the text of JSON are parameters. Of the
  forbidden code points those below 256 are listed, since no other code unit is in the model.
\<close>

section \<open>IBAN\<close>

definition IBAN_LENGTHS :: "(string, nat) js_map" where
  "IBAN_LENGTHS = [(''AD'', 24), (''AE'', 23), (''AL'', 28), (''AT'', 20), (''AZ'', 28), (''BA'', 20), (''BE'', 16), (''BG'', 22), (''BH'', 22),
     (''BI'', 27), (''BR'', 29), (''BY'', 28), (''CH'', 21), (''CR'', 22), (''CY'', 28), (''CZ'', 24), (''DE'', 22), (''DJ'', 27),
     (''DK'', 18), (''DO'', 28), (''EE'', 20), (''EG'', 29), (''ES'', 24), (''FI'', 18), (''FK'', 18), (''FO'', 18), (''FR'', 27),
     (''GB'', 22), (''GE'', 22), (''GI'', 23), (''GL'', 18), (''GR'', 27), (''GT'', 28), (''HN'', 28), (''HR'', 21), (''HU'', 28),
     (''IE'', 22), (''IL'', 23), (''IQ'', 23), (''IS'', 26), (''IT'', 27), (''JO'', 30), (''KW'', 30), (''KZ'', 20), (''LB'', 28),
     (''LC'', 32), (''LI'', 21), (''LT'', 20), (''LU'', 20), (''LV'', 21), (''LY'', 25), (''MC'', 27), (''MD'', 24), (''ME'', 22),
     (''MK'', 19), (''MN'', 20), (''MR'', 27), (''MT'', 31), (''MU'', 30), (''NI'', 28), (''NL'', 18), (''NO'', 15), (''OM'', 23),
     (''PK'', 24), (''PL'', 28), (''PS'', 29), (''PT'', 25), (''QA'', 29), (''RO'', 24), (''RS'', 22), (''RU'', 33), (''SA'', 24),
     (''SC'', 31), (''SD'', 18), (''SE'', 24), (''SI'', 19), (''SK'', 24), (''SM'', 27), (''SO'', 23), (''ST'', 25), (''SV'', 28),
     (''TL'', 23), (''TN'', 24), (''TR'', 26), (''UA'', 29), (''VA'', 22), (''VG'', 24), (''XK'', 20), (''YE'', 30)]"

definition upper_letter :: "char \<Rightarrow> bool" where
  "upper_letter c \<longleftrightarrow> 65 \<le> (of_char c :: nat) \<and> (of_char c :: nat) \<le> 90"

text \<open>\<open>toUpperCase\<close>; micro and y-diaeresis leave the model's code units, no caller keeps either.\<close>

definition js_upper :: "char \<Rightarrow> string" where
  "js_upper c = (let n = (of_char c :: nat) in
     if n = 223 then ''SS'' else if (97 \<le> n \<and> n \<le> 122) \<or> (224 \<le> n \<and> n \<le> 254 \<and> n \<noteq> 247) then [char_of (n - 32)] else [c])"

text \<open>The digits a character contributes; \<open>Number\<close> of white space is zero and of anything else NaN.\<close>

definition iban_digits :: "char \<Rightarrow> nat list option" where
  "iban_digits c = (let n = (of_char c :: nat) in
     if upper_letter c then Some [(n - 55) div 10, (n - 55) mod 10]
     else if digit_char c then Some [n - 48] else if js_space c then Some [0] else None)"

definition iban_step :: "nat option \<Rightarrow> char \<Rightarrow> nat option" where
  "iban_step r c = (case (r, iban_digits c) of
     (Some n, Some ds) \<Rightarrow> Some (foldl (\<lambda>m d. (m * 10 + d) mod 97) n ds) | _ \<Rightarrow> None)"

definition ibanChecksumValid :: "string \<Rightarrow> bool" where
  "ibanChecksumValid iban \<longleftrightarrow> foldl iban_step (Some 0) (drop 4 iban @ take 4 iban) = Some 1"

definition iban_shape :: "string \<Rightarrow> bool" where
  "iban_shape s \<longleftrightarrow> 15 \<le> length s \<and> length s \<le> 34 \<and> list_all upper_letter (take 2 s) \<and> list_all digit_char (take 2 (drop 2 s))
     \<and> list_all (\<lambda>c. upper_letter c \<or> digit_char c) (drop 4 s)"

definition normalizeIban :: "json option \<Rightarrow> string option" where
  "normalizeIban v = (case v of Some (JStr s) \<Rightarrow>
       (let iban = concat (map js_upper (filter (\<lambda>c. \<not> (js_space c \<or> c = CHR ''-'')) s))
        in if \<not> iban_shape iban then None
           else if map_of IBAN_LENGTHS (take 2 iban) \<noteq> Some (length iban) then None
           else if ibanChecksumValid iban then Some iban else None)
   | _ \<Rightarrow> None)"

section \<open>Names and details\<close>

definition forbidden_ranges :: "(nat \<times> nat) list" where
  "forbidden_ranges = [(0x0, 0x1f), (0x7f, 0x9f), (0xad, 0xad)]"

definition forbidden :: "string \<Rightarrow> bool" where
  "forbidden name = list_ex (\<lambda>c. list_ex (\<lambda>(low, high). of_char c \<ge> low \<and> of_char c \<le> high) forbidden_ranges) name"

text \<open>\<open>replace(/\s+/gu, " ")\<close>.\<close>

fun fold_spaces :: "string \<Rightarrow> string" where
  "fold_spaces [] = []"
| "fold_spaces [c] = [if js_space c then CHR '' '' else c]"
| "fold_spaces (c # d # s) = (if js_space c \<and> js_space d then fold_spaces (d # s) else (if js_space c then CHR '' '' else c) # fold_spaces (d # s))"

definition normalizeBeneficiaryName :: "(string \<Rightarrow> string) \<Rightarrow> json option \<Rightarrow> string option" where
  "normalizeBeneficiaryName nfkc v = (case v of Some (JStr s) \<Rightarrow>
       (let cleaned = js_trim (fold_spaces (nfkc s))
        in if length cleaned < 2 \<or> length cleaned > 70 \<or> forbidden cleaned \<or> nfkc cleaned \<noteq> cleaned then None else Some cleaned)
   | _ \<Rightarrow> None)"

record bank_details =
  bd_bank :: string
  bd_iban :: string
  bd_name :: string

datatype bank_error = Bank_error string nat

definition normalizeBankDetails :: "(string \<Rightarrow> string) \<Rightarrow> json \<Rightarrow> bank_error + bank_details" where
  "normalizeBankDetails nfkc input = (case input of
     JObj m \<Rightarrow>
       (if \<not> fst ` set m \<subseteq> {''bankId'', ''iban'', ''beneficiaryName''} then Inl (Bank_error ''invalid_bank_details'' 400)
        else case map_of m ''bankId'' of
          Some (JStr bank) \<Rightarrow>
            (if \<not> uuid_any bank then Inl (Bank_error ''invalid_bank'' 400)
             else case normalizeIban (map_of m ''iban'') of None \<Rightarrow> Inl (Bank_error ''invalid_iban'' 400)
             | Some iban \<Rightarrow> (case normalizeBeneficiaryName nfkc (map_of m ''beneficiaryName'') of
                 None \<Rightarrow> Inl (Bank_error ''invalid_beneficiary_name'' 400)
               | Some name \<Rightarrow> Inr \<lparr>bd_bank = map js_lower bank, bd_iban = iban, bd_name = name\<rparr>))
        | _ \<Rightarrow> Inl (Bank_error ''invalid_bank'' 400))
   | _ \<Rightarrow> Inl (Bank_error ''invalid_bank_details'' 400))"

definition validateBankDetails :: "(string \<Rightarrow> string) \<Rightarrow> (string \<Rightarrow> ref_answer) \<Rightarrow> json \<Rightarrow> bank_error + bank_details" where
  "validateBankDetails nfkc resolve input = (case normalizeBankDetails nfkc input of Inl e \<Rightarrow> Inl e | Inr d \<Rightarrow>
     (case resolve (bd_bank d) of
        Ref_fails \<Rightarrow> Inl (Bank_error ''reference_unavailable'' 503)
      | Ref_active \<Rightarrow> Inr d
      | Ref_deleted \<Rightarrow> Inl (Bank_error ''invalid_bank'' 400) | Ref_unknown \<Rightarrow> Inl (Bank_error ''invalid_bank'' 400)))"

section \<open>The stored value\<close>

definition details_json :: "bank_details \<Rightarrow> json" where
  "details_json d = JObj [(''bankId'', JStr (bd_bank d)), (''beneficiaryName'', JStr (bd_name d)), (''iban'', JStr (bd_iban d))]"

definition bankDetailsValue :: "(json \<Rightarrow> string) \<Rightarrow> bank_details \<Rightarrow> string" where
  "bankDetailsValue text d = text (details_json d)"

definition parseBankDetailsValue :: "(json \<Rightarrow> string) \<Rightarrow> (string \<Rightarrow> json option) \<Rightarrow> string \<Rightarrow> bank_details option" where
  "parseBankDetailsValue text parse v = (case parse v of
     Some (JObj m) \<Rightarrow> (case (map_of m ''bankId'', map_of m ''iban'', map_of m ''beneficiaryName'') of
        (Some (JStr b), Some (JStr i), Some (JStr n)) \<Rightarrow>
          (let d = \<lparr>bd_bank = b, bd_iban = i, bd_name = n\<rparr> in if bankDetailsValue text d = v then Some d else None)
      | _ \<Rightarrow> None)
   | _ \<Rightarrow> None)"

definition candidateBankOwnerDecision :: "string list \<Rightarrow> bool" where
  "candidateBankOwnerDecision roles = list_ex (\<lambda>r. r = ''candidate'') roles"

text \<open>\<open>None\<close>: throws, the catalogue could not be asked.\<close>

definition catalogueBankDetailsCheck :: "(string \<Rightarrow> string) \<Rightarrow> (json \<Rightarrow> string) \<Rightarrow> (string \<Rightarrow> json option) \<Rightarrow> (string \<Rightarrow> ref_answer) \<Rightarrow> string \<Rightarrow> bool option" where
  "catalogueBankDetailsCheck nfkc text parse resolve v = (case parseBankDetailsValue text parse v of None \<Rightarrow> Some False | Some d \<Rightarrow>
     (case validateBankDetails nfkc resolve (JObj [(''bankId'', JStr (bd_bank d)), (''iban'', JStr (bd_iban d)), (''beneficiaryName'', JStr (bd_name d))]) of
        Inr d' \<Rightarrow> Some (bankDetailsValue text d' = v)
      | Inl (Bank_error code status) \<Rightarrow> if status = 400 then Some False else None))"

section \<open>The check digits catch a wrong character\<close>

definition char_value :: "char \<Rightarrow> nat" where
  "char_value c = (if upper_letter c then of_char c - 55 else of_char c - 48)"

definition char_base :: "char \<Rightarrow> nat" where
  "char_base c = (if upper_letter c then 100 else 10)"

lemma mod_step: "((x mod 97) * 10 + b) mod 97 = (x * 10 + b) mod (97 :: nat)"
  by (metis mod_add_left_eq mod_mult_left_eq)

lemma near_mod: "int a mod 97 = int b mod 97 \<Longrightarrow> a < 97 \<Longrightarrow> b < 97 \<Longrightarrow> a = b"
  by simp

lemma iban_step_value:
  assumes "upper_letter c \<or> digit_char c"
  shows "iban_step (Some r) c = Some ((r * char_base c + char_value c) mod 97)"
proof (cases "upper_letter c")
  case True
  let ?v = "of_char c - 55 :: nat"
  have "foldl (\<lambda>m d. (m * 10 + d) mod 97) r [?v div 10, ?v mod 10] = ((r * 10 + ?v div 10) * 10 + ?v mod 10) mod 97"
    by (simp only: foldl.simps mod_step)
  also have "(r * 10 + ?v div 10) * 10 + ?v mod 10 = r * 100 + ?v" by (simp add: algebra_simps)
  finally show ?thesis using True by (simp add: iban_step_def iban_digits_def char_value_def char_base_def Let_def)
next
  case False
  then show ?thesis using assms by (simp add: iban_step_def iban_digits_def char_value_def char_base_def Let_def)
qed

lemma iban_fold_value:
  assumes "list_all (\<lambda>c. upper_letter c \<or> digit_char c) s" "r < 97"
  shows "\<exists>n. n < 97 \<and> foldl iban_step (Some r) s = Some n"
  using assms by (induction s arbitrary: r) (auto simp: iban_step_value)

lemma iban_step_inj:
  assumes "(r * char_base c + v) mod 97 = (r' * char_base c + v) mod 97" "r < 97" "r' < 97"
  shows "r = r'"
proof -
  have "int (r * char_base c + v) mod 97 = int (r' * char_base c + v) mod 97" using assms(1) by (metis of_nat_mod of_nat_numeral)
  then have "97 dvd int (r * char_base c + v) - int (r' * char_base c + v)" by (simp add: mod_eq_dvd_iff)
  then have "97 dvd int (char_base c) * (int r - int r')" by (simp add: algebra_simps)
  moreover have "coprime 97 (int (char_base c))"
    by (cases "upper_letter c") (simp_all add: char_base_def coprime_iff_gcd_eq_1 gcd_non_0_int)
  ultimately have "97 dvd int r - int r'" by (simp add: coprime_dvd_mult_right_iff)
  then have "int r mod 97 = int r' mod 97" by (simp add: mod_eq_dvd_iff)
  then show ?thesis using assms(2,3) by (rule near_mod)
qed

lemma iban_fold_inj:
  assumes "list_all (\<lambda>c. upper_letter c \<or> digit_char c) s" "r < 97" "r' < 97" "foldl iban_step (Some r) s = foldl iban_step (Some r') s"
  shows "r = r'"
  using assms
proof (induction s arbitrary: r r')
  case (Cons c s)
  then have c: "upper_letter c \<or> digit_char c" by simp
  have "(r * char_base c + char_value c) mod 97 = (r' * char_base c + char_value c) mod 97"
    using Cons.prems by (intro Cons.IH) (simp_all add: iban_step_value [OF c])
  with iban_step_inj Cons.prems(2,3) show ?case by blast
qed simp

lemma char_value_differs:
  assumes "upper_letter c = upper_letter d" "upper_letter c \<or> (digit_char c \<and> digit_char d)" "c \<noteq> d"
  shows "(r * char_base c + char_value c) mod 97 \<noteq> (r * char_base d + char_value d) mod 97"
proof
  assume eq: "(r * char_base c + char_value c) mod 97 = (r * char_base d + char_value d) mod 97"
  have base: "char_base c = char_base d" using assms(1) by (simp add: char_base_def)
  have "int (r * char_base c + char_value c) mod 97 = int (r * char_base c + char_value d) mod 97"
    using eq base by (metis of_nat_mod of_nat_numeral)
  then have "int (char_value c) mod 97 = int (char_value d) mod 97" by (simp add: mod_eq_dvd_iff)
  moreover have "char_value c < 97" "char_value d < 97"
    using assms(1,2) by (auto simp: char_value_def upper_letter_def digit_char_def)
  ultimately have same: "char_value c = char_value d" by (rule near_mod)
  have "(of_char c :: nat) = of_char d"
  proof (cases "upper_letter c")
    case True
    then have "of_char c - 55 = (of_char d - 55 :: nat)" "55 \<le> (of_char c :: nat)" "55 \<le> (of_char d :: nat)"
      using same assms(1) by (simp_all add: char_value_def upper_letter_def)
    then show ?thesis by (simp only: eq_diff_iff)
  next
    case False
    then have "of_char c - 48 = (of_char d - 48 :: nat)" "48 \<le> (of_char c :: nat)" "48 \<le> (of_char d :: nat)"
      using same assms(1,2) by (simp_all add: char_value_def digit_char_def)
    then show ?thesis by (simp only: eq_diff_iff)
  qed
  then show False using assms(3) by simp
qed

text \<open>What the fold is at a place of the rearranged text.\<close>

definition iban_char :: "char \<Rightarrow> bool" where
  "iban_char c \<longleftrightarrow> upper_letter c \<or> digit_char c"

lemma substitution_changes_fold:
  assumes "list_all iban_char (xs @ c # ys)" "iban_char d" "upper_letter c = upper_letter d" "c \<noteq> d"
  shows "foldl iban_step (Some 0) (xs @ c # ys) \<noteq> foldl iban_step (Some 0) (xs @ d # ys)"
proof
  assume eq: "foldl iban_step (Some 0) (xs @ c # ys) = foldl iban_step (Some 0) (xs @ d # ys)"
  have ch: "list_all (\<lambda>c. upper_letter c \<or> digit_char c) xs" "list_all (\<lambda>c. upper_letter c \<or> digit_char c) ys"
    "upper_letter c \<or> digit_char c" "upper_letter d \<or> digit_char d"
    using assms(1,2) by (simp_all add: iban_char_def list_all_iff)
  from iban_fold_value [OF ch(1), of 0] obtain r where r: "r < 97" "foldl iban_step (Some 0) xs = Some r" by auto
  have "(r * char_base c + char_value c) mod 97 = (r * char_base d + char_value d) mod 97"
    using eq r by (intro iban_fold_inj [OF ch(2)]) (simp_all add: iban_step_value [OF ch(3)] iban_step_value [OF ch(4)])
  moreover have "upper_letter c \<or> (digit_char c \<and> digit_char d)" using ch(3,4) assms(3) by auto
  ultimately show False using char_value_differs [OF assms(3) _ assms(4)] by blast
qed

lemma rearranged_split:
  assumes "i < length s"
  shows "\<exists>xs ys. drop 4 s @ take 4 s = xs @ s ! i # ys \<and> (\<forall>d. drop 4 (s[i := d]) @ take 4 (s[i := d]) = xs @ d # ys)"
proof (cases "i < 4")
  case True
  let ?t = "take 4 s"
  have i: "i < length ?t" using assms True by simp
  have "drop 4 (s[i := d]) @ take 4 (s[i := d]) = (drop 4 s @ take i ?t) @ d # drop (Suc i) ?t" for d
    using True i by (simp add: take_update_swap upd_conv_take_nth_drop [OF i] drop_update_swap)
  moreover have "drop 4 s @ take 4 s = (drop 4 s @ take i ?t) @ s ! i # drop (Suc i) ?t"
    using id_take_nth_drop [OF i] True by simp
  ultimately show ?thesis by blast
next
  case False
  let ?t = "drop 4 s"
  have i: "i - 4 < length ?t" using assms False by simp
  have "drop 4 (s[i := d]) = ?t[i - 4 := d]" for d using False by (simp add: drop_update_swap)
  then have "drop 4 (s[i := d]) @ take 4 (s[i := d]) = take (i - 4) ?t @ d # (drop (Suc (i - 4)) ?t @ take 4 s)" for d
    using False by (simp add: upd_conv_take_nth_drop [OF i])
  moreover have "?t ! (i - 4) = s ! i" using assms False by simp
  then have "drop 4 s @ take 4 s = take (i - 4) ?t @ s ! i # (drop (Suc (i - 4)) ?t @ take 4 s)"
    using id_take_nth_drop [OF i] by (metis append_Cons append_assoc)
  ultimately show ?thesis by blast
qed

section \<open>Normal forms\<close>

lemma iban_char_text: "iban_char c \<Longrightarrow> js_upper c = [c] \<and> \<not> js_space c \<and> c \<noteq> CHR ''-''"
  by (auto simp: iban_char_def upper_letter_def digit_char_def js_upper_def js_space_def Let_def)

lemma cleaned_iban: "list_all iban_char s \<Longrightarrow> concat (map js_upper (filter (\<lambda>c. \<not> (js_space c \<or> c = CHR ''-'')) s)) = s"
  by (induction s) (simp_all add: iban_char_text)

lemma iban_shape_chars: "iban_shape s \<Longrightarrow> list_all iban_char s"
proof -
  assume sh: "iban_shape s"
  have "s = take 2 s @ take 2 (drop 2 s) @ drop 4 s" by (metis append_take_drop_id drop_drop numeral_Bit0)
  moreover have "list_all iban_char (take 2 s)" "list_all iban_char (take 2 (drop 2 s))" "list_all iban_char (drop 4 s)"
    using sh unfolding iban_shape_def by (auto elim!: list.pred_mono_strong simp: iban_char_def)
  ultimately show ?thesis by (metis list_all_append)
qed

lemma normalizeIban_Some:
  assumes "normalizeIban v = Some iban"
  shows "list_all iban_char iban \<and> iban_shape iban \<and> map_of IBAN_LENGTHS (take 2 iban) = Some (length iban) \<and> ibanChecksumValid iban"
  using assms iban_shape_chars by (auto simp: normalizeIban_def Let_def split: option.splits json.splits if_splits)

lemma normalizeIban_normal: "normalizeIban v = Some iban \<Longrightarrow> normalizeIban (Some (JStr iban)) = Some iban"
  by (drule normalizeIban_Some) (simp add: normalizeIban_def cleaned_iban [simplified] Let_def)

definition folded :: "string \<Rightarrow> bool" where
  "folded s \<longleftrightarrow> successively (\<lambda>c d. \<not> (js_space c \<and> js_space d)) s \<and> (\<forall>c \<in> set s. js_space c \<longrightarrow> c = CHR '' '')"

lemma fold_spaces_folded: "folded s \<Longrightarrow> fold_spaces s = s"
  by (induction s rule: fold_spaces.induct) (auto simp: folded_def)

lemma fold_spaces_hd: "fold_spaces (c # s) \<noteq> [] \<and> js_space (hd (fold_spaces (c # s))) = js_space c"
  by (induction "c # s" arbitrary: c s rule: fold_spaces.induct) (auto simp: js_space_def)

lemma folded_Cons: "folded (c # s) \<longleftrightarrow> (s = [] \<or> \<not> (js_space c \<and> js_space (hd s))) \<and> (js_space c \<longrightarrow> c = CHR '' '') \<and> folded s"
  by (auto simp: folded_def successively_Cons)

lemma folded_fold_spaces: "folded (fold_spaces s)"
proof (induction s rule: fold_spaces.induct)
  case (3 c d s)
  show ?case
  proof (cases "js_space c \<and> js_space d")
    case False
    then have "folded (fold_spaces (d # s))" "\<not> (js_space c \<and> js_space (hd (fold_spaces (d # s))))"
      using 3 fold_spaces_hd [of d s] by simp_all
    then show ?thesis using False by (cases "js_space c") (auto simp: folded_Cons)
  qed (use 3 in simp)
qed (simp_all add: folded_Cons, simp_all add: folded_def js_space_def)

lemma folded_dropWhile: "folded s \<Longrightarrow> folded (dropWhile P s)"
  by (induction s) (auto simp: folded_def successively_Cons)

lemma folded_rev: "folded (rev s) = folded s"
  by (simp only: folded_def successively_rev set_rev) (simp only: conj_commute)

lemma folded_trim: "folded s \<Longrightarrow> folded (js_trim s)"
  unfolding js_trim_def by (simp add: folded_rev folded_dropWhile)

lemma js_trim_trim: "js_trim (js_trim s) = js_trim s"
proof (cases "dropWhile js_space s")
  case Nil
  have "js_trim s = []" unfolding js_trim_def Nil by simp
  moreover have "js_trim [] = []" by (simp add: js_trim_def)
  ultimately show ?thesis by simp
next
  case (Cons c t)
  have c: "\<not> js_space c" using Cons by (metis dropWhile_eq_Cons_conv)
  have "dropWhile js_space (rev (c # t)) = dropWhile js_space (rev t) @ [c] \<or> dropWhile js_space (rev (c # t)) = [c]"
    using c by (simp add: dropWhile_append)
  then have "js_trim s = c # rev (dropWhile js_space (rev t)) \<or> js_trim s = [c]" by (auto simp: js_trim_def Cons)
  then have "dropWhile js_space (js_trim s) = js_trim s" using c by auto
  then show ?thesis by (simp add: js_trim_def)
qed

lemma normalizeBeneficiaryName_normal:
  "normalizeBeneficiaryName nfkc v = Some name \<Longrightarrow> normalizeBeneficiaryName nfkc (Some (JStr name)) = Some name"
proof -
  assume "normalizeBeneficiaryName nfkc v = Some name"
  then obtain s where "name = js_trim (fold_spaces (nfkc s))" and ok: "\<not> (length name < 2 \<or> length name > 70 \<or> forbidden name \<or> nfkc name \<noteq> name)"
    by (auto simp: normalizeBeneficiaryName_def Let_def split: option.splits json.splits if_splits)
  then have "js_trim (fold_spaces name) = name" by (simp add: fold_spaces_folded folded_trim folded_fold_spaces js_trim_trim)
  with ok show ?thesis by (simp add: normalizeBeneficiaryName_def)
qed

section \<open>Properties\<close>

text \<open>C40. The IBAN check catches a wrong character of the right kind: in an accepted IBAN, replacing one
  letter by another letter or one digit by another digit, anywhere, always gives a text that is
  refused. A letter for a digit is outside: it lengthens the number, and may pass, see below.\<close>

theorem wrong_iban_character_refused:
  assumes "normalizeIban v = Some iban" "i < length iban" "iban_char d" "upper_letter d = upper_letter (iban ! i)" "d \<noteq> iban ! i"
  shows "normalizeIban (Some (JStr (iban[i := d]))) = None"
proof -
  note n = normalizeIban_Some [OF assms(1)]
  from rearranged_split [OF assms(2)] obtain xs ys where
    s: "drop 4 iban @ take 4 iban = xs @ iban ! i # ys" "drop 4 (iban[i := d]) @ take 4 (iban[i := d]) = xs @ d # ys" by blast
  have "list_all iban_char (drop 4 iban @ take 4 iban)" using n by (auto simp: list_all_iff dest: in_set_takeD in_set_dropD)
  then have "foldl iban_step (Some 0) (xs @ iban ! i # ys) \<noteq> foldl iban_step (Some 0) (xs @ d # ys)"
    using assms(3-5) unfolding s(1) by (intro substitution_changes_fold) auto
  then have "\<not> ibanChecksumValid (iban[i := d])" using n s unfolding ibanChecksumValid_def by metis
  moreover have "list_all iban_char (iban[i := d])" using n assms(3) by (auto simp: list_all_iff dest!: set_update_subset_insert [THEN subsetD])
  ultimately show ?thesis by (simp add: normalizeIban_def cleaned_iban [simplified] Let_def)
qed

theorem wrong_iban_character_refused_witness:
  "normalizeIban (Some (JStr ''nl91 abna 0417-1643 00'')) = Some ''NL91ABNA0417164300'' \<and> normalizeIban (Some (JStr ''NL91ABNA0417164390'')) = None"
proof -
  have n: "normalizeIban (Some (JStr ''nl91 abna 0417-1643 00'')) = Some ''NL91ABNA0417164300''"
    by code_simp
  have "''NL91ABNA0417164300''[16 := CHR ''9''] = ''NL91ABNA0417164390''" by code_simp
  with wrong_iban_character_refused [OF n, of 16 "CHR ''9''"] n show ?thesis
    by (simp add: iban_char_def digit_char_def upper_letter_def)
qed

text \<open>A letter in place of a digit may pass.\<close>

lemma letter_for_digit_may_pass:
  "normalizeIban (Some (JStr ''NL91ABNA0417164300'')) = Some ''NL91ABNA0417164300''"
  "normalizeIban (Some (JStr ''NL91ABNAW417164300'')) = Some ''NL91ABNAW417164300''"
  by code_simp+

text \<open>Stored bank details are stable: what normalization accepts is its own normal form, and the value
  it is stored as parses back to the same details and passes the catalogue check as long as its
  bank is active; JSON need only read back the text of that object.\<close>

theorem bank_details_round_trip:
  assumes "normalizeBankDetails nfkc input = Inr d" "parse (text (details_json d)) = Some (details_json d)" "resolve (bd_bank d) = Ref_active"
  shows "normalizeBankDetails nfkc (details_json d) = Inr d \<and> parseBankDetailsValue text parse (bankDetailsValue text d) = Some d
    \<and> catalogueBankDetailsCheck nfkc text parse resolve (bankDetailsValue text d) = Some True"
proof -
  from assms(1) obtain m bank where bank: "uuid_any bank" "bd_bank d = map js_lower bank"
    and iban: "normalizeIban (map_of m ''iban'') = Some (bd_iban d)"
    and name: "normalizeBeneficiaryName nfkc (map_of m ''beneficiaryName'') = Some (bd_name d)"
    by (auto simp: normalizeBankDetails_def split: json.splits option.splits if_splits)
  have lower: "uuid_any (bd_bank d)" "map js_lower (bd_bank d) = bd_bank d"
    using bank uuid_any_lower by (auto simp: js_lower_lower)
  note fields = lower normalizeIban_normal [OF iban] normalizeBeneficiaryName_normal [OF name]
  have "normalizeBankDetails nfkc (details_json d) = Inr d"
    using fields by (simp add: normalizeBankDetails_def details_json_def)
  moreover have p: "parseBankDetailsValue text parse (bankDetailsValue text d) = Some d"
    using assms(2) by (simp add: parseBankDetailsValue_def bankDetailsValue_def Let_def details_json_def)
  moreover have "normalizeBankDetails nfkc (JObj [(''bankId'', JStr (bd_bank d)), (''iban'', JStr (bd_iban d)), (''beneficiaryName'', JStr (bd_name d))]) = Inr d"
    using fields by (simp add: normalizeBankDetails_def)
  ultimately show ?thesis using assms(3) by (simp add: catalogueBankDetailsCheck_def validateBankDetails_def)
qed

theorem bank_details_round_trip_witness:
  "\<exists>d. normalizeBankDetails (\<lambda>s. s) (JObj [(''bankId'', JStr demo_id), (''iban'', JStr ''NL91ABNA0417164300''), (''beneficiaryName'', JStr ''Ada  L'')]) = Inr d
     \<and> bd_name d = ''Ada L'' \<and> normalizeBankDetails (\<lambda>s. s) (details_json d) = Inr d"
proof -
  have n: "normalizeBankDetails (\<lambda>s. s) (JObj [(''bankId'', JStr demo_id), (''iban'', JStr ''NL91ABNA0417164300''), (''beneficiaryName'', JStr ''Ada  L'')])
    = Inr \<lparr>bd_bank = demo_id, bd_iban = ''NL91ABNA0417164300'', bd_name = ''Ada L''\<rparr>"
    by code_simp
  from bank_details_round_trip [OF n, of "\<lambda>_. Some (details_json \<lparr>bd_bank = demo_id, bd_iban = ''NL91ABNA0417164300'', bd_name = ''Ada L''\<rparr>)" "\<lambda>_. []" "\<lambda>_. Ref_active"] n
  show ?thesis by simp
qed

end
