(* ===== verification/Catalogue_Store.thy ===== *)
theory Catalogue_Store
  imports Bank Authz_Store
begin

declare map_of_eq_Some_iff [simp del] Some_eq_map_of_iff [simp del]

text \<open>
  The reference catalogue, its types and its in-memory store: \<^verbatim>\<open>types.ts\<close>,
  \<^verbatim>\<open>memory-store.ts\<close> and the two detail modules of
  \<^verbatim>\<open>packages/reference-catalogue/src\<close>. NFKC and lower-casing
  are parameters; text is over code units
  below 256, whose order is that of the comparison of texts.
\<close>

section \<open>Types\<close>

definition CATALOGUE_TYPES :: "string list" where
  "CATALOGUE_TYPES = [''country'', ''currency'', ''bank'', ''tag'', ''brand'', ''mall'', ''university'', ''major'', ''degree'', ''degree-group'']"

definition SUBMITTABLE_CATALOGUE_TYPES :: "string list" where
  "SUBMITTABLE_CATALOGUE_TYPES = [''university'', ''major'']"

definition isCatalogueType :: "json option \<Rightarrow> bool" where
  "isCatalogueType v \<longleftrightarrow> (case v of Some (JStr s) \<Rightarrow> s \<in> set CATALOGUE_TYPES | _ \<Rightarrow> False)"

definition isSubmittableCatalogueType :: "json option \<Rightarrow> bool" where
  "isSubmittableCatalogueType v \<longleftrightarrow> (case v of Some (JStr s) \<Rightarrow> s \<in> set SUBMITTABLE_CATALOGUE_TYPES | _ \<Rightarrow> False)"

record catalogue_actor =
  ca_principal :: string
  ca_org :: string
  ca_role :: role

record catalogue_input =
  in_name :: string
  in_code :: "string option"

datatype item_status = Active_item | Deleted_item

record catalogue_item =
  it_id :: string
  it_type :: string
  it_name :: string
  it_code :: "string option"
  it_status :: item_status
  it_created :: string
  it_updated :: string
  it_deleted :: "string option"

datatype submission_status = Pending | Approved | Rejected

record catalogue_submission =
  sb_id :: string
  sb_type :: string
  sb_name :: string
  sb_code :: "string option"
  sb_status :: submission_status
  sb_at :: string
  sb_moderated :: "string option"
  sb_item :: "string option"

datatype sort_key = Sort_key (sk_key: string) (sk_id: string)

record bank_payment_details =
  bp_swift :: string
  bp_iban_code :: string
  bp_abk :: string
  bp_transfer :: string

record currency_details =
  cu_symbol :: string
  cu_places :: nat

text \<open>A thrown \<open>CatalogueError\<close>, or another error.\<close>

datatype catalogue_error = Catalogue_error string nat | Other_error

text \<open>NFKC and \<open>toLocaleLowerCase\<close> of a text, which may lengthen it.\<close>

record text_rules =
  tr_nfkc :: "string \<Rightarrow> string"
  tr_lower :: "string \<Rightarrow> string"

definition catalogueSortKey :: "text_rules \<Rightarrow> string \<Rightarrow> string" where
  "catalogueSortKey rules name = tr_lower rules (tr_nfkc rules name)"

section \<open>Details of banks and currencies\<close>

definition BANK_TRANSFER_TYPES :: "string list" where
  "BANK_TRANSFER_TYPES = [''local'', ''international'', ''within_bank'']"

definition cat_invalid :: "string \<Rightarrow> catalogue_error + 'a" where
  "cat_invalid code = Inl (Catalogue_error code 400)"

definition upper :: "string \<Rightarrow> string" where
  "upper s = concat (map js_upper s)"

definition upper_or_digit :: "char \<Rightarrow> bool" where
  "upper_or_digit c \<longleftrightarrow> upper_letter c \<or> digit_char c"

definition swift_ok :: "string \<Rightarrow> bool" where
  "swift_ok s \<longleftrightarrow> length s \<in> {8, 11} \<and> list_all upper_letter (take 6 s) \<and> list_all upper_or_digit (drop 6 s)"

definition abk_ok :: "string \<Rightarrow> bool" where
  "abk_ok s \<longleftrightarrow> s = ''100'' \<or> (list_all digit_char s \<and> (length s = 1 \<or> (length s = 2 \<and> hd s \<noteq> CHR ''0'')))"

definition str_fields :: "json \<Rightarrow> string list \<Rightarrow> string list option" where
  "str_fields v ks = (case v of JObj m \<Rightarrow>
       if sort (map fst m) = ks \<and> list_all (\<lambda>kv. case snd kv of JStr _ \<Rightarrow> True | _ \<Rightarrow> False) m
       then Some (map (\<lambda>k. case map_of m k of Some (JStr s) \<Rightarrow> s | _ \<Rightarrow> []) ks) else None
     | _ \<Rightarrow> None)"

definition normalizeBankPaymentDetails :: "json \<Rightarrow> catalogue_error + bank_payment_details" where
  "normalizeBankPaymentDetails v =
     (case str_fields v [''abkCode'', ''ibanBankCode'', ''swiftCode'', ''transferType''] of
        Some [abk, iban, swift, transfer] \<Rightarrow>
          (let swiftCode = upper (js_trim swift); ibanBankCode = upper (js_trim iban); abkCode = upper (js_trim abk); transferType = js_trim transfer
           in if \<not> swift_ok swiftCode then cat_invalid ''invalid_swift_code''
              else if \<not> (length ibanBankCode = 4 \<and> list_all upper_or_digit ibanBankCode) then cat_invalid ''invalid_iban_bank_code''
              else if \<not> abk_ok abkCode then cat_invalid ''invalid_abk_code''
              else if transferType \<notin> set BANK_TRANSFER_TYPES then cat_invalid ''invalid_transfer_type''
              else Inr \<lparr>bp_swift = swiftCode, bp_iban_code = ibanBankCode, bp_abk = abkCode, bp_transfer = transferType\<rparr>)
      | _ \<Rightarrow> cat_invalid ''invalid_bank_payment_details'')"

definition canWriteBankPaymentDetails :: "role \<Rightarrow> bool" where
  "canWriteBankPaymentDetails r \<longleftrightarrow> r = Admin"

definition normalizeCurrencyDetails :: "text_rules \<Rightarrow> json \<Rightarrow> catalogue_error + currency_details" where
  "normalizeCurrencyDetails rules v = (case v of
     JObj m \<Rightarrow>
       if js_join '','' (sort (map fst m)) \<noteq> ''decimalPlaces,symbol'' then cat_invalid ''invalid_currency_details''
       else (case map_of m ''symbol'' of
         Some (JStr s) \<Rightarrow>
           (let symbol = js_trim (tr_nfkc rules s)
            in if symbol = [] \<or> length symbol > 8 \<or> forbidden symbol then cat_invalid ''invalid_currency_symbol''
               else (case map_of m ''decimalPlaces'' of
                 Some (JNum (Some r)) \<Rightarrow> if of_int \<lfloor>r\<rfloor> \<noteq> r \<or> r < 0 \<or> r > 4 then cat_invalid ''invalid_currency_decimal_places''
                     else Inr \<lparr>cu_symbol = symbol, cu_places = nat \<lfloor>r\<rfloor>\<rparr>
               | _ \<Rightarrow> cat_invalid ''invalid_currency_decimal_places''))
       | _ \<Rightarrow> cat_invalid ''invalid_currency_symbol'')
   | _ \<Rightarrow> cat_invalid ''invalid_currency_details'')"

definition canWriteCurrencyDetails :: "role \<Rightarrow> bool" where
  "canWriteCurrencyDetails r \<longleftrightarrow> r = Admin"

section \<open>The in-memory store\<close>

record catalogue_store =
  cs_items :: "(string, catalogue_item) js_map"
  cs_submissions :: "(string, catalogue_submission) js_map"
  cs_bank :: "(string, bank_payment_details \<times> string) js_map"
  cs_currency :: "(string, currency_details \<times> string) js_map"

definition after_key :: "sort_key option \<Rightarrow> string \<Rightarrow> string \<Rightarrow> bool" where
  "after_key after key i = (case after of None \<Rightarrow> True | Some (Sort_key k j) \<Rightarrow> key > k \<or> (key = k \<and> i > j))"

definition item_key :: "text_rules \<Rightarrow> catalogue_item \<Rightarrow> string" where
  "item_key rules item = catalogueSortKey rules (it_name item)"

definition item_le :: "text_rules \<Rightarrow> catalogue_item \<Rightarrow> catalogue_item \<Rightarrow> bool" where
  "item_le rules a b \<longleftrightarrow> item_key rules a < item_key rules b \<or> (item_key rules a = item_key rules b \<and> it_id a \<le> it_id b)"

definition listActive :: "text_rules \<Rightarrow> catalogue_store \<Rightarrow> string \<Rightarrow> sort_key option \<Rightarrow> nat \<Rightarrow> catalogue_item list" where
  "listActive rules st ty after limit = take limit (js_sort (item_le rules)
     (filter (\<lambda>item. it_type item = ty \<and> it_status item = Active_item \<and> after_key after (item_key rules item) (it_id item)) (map snd (cs_items st))))"

definition resolveById :: "catalogue_store \<Rightarrow> string \<Rightarrow> string \<Rightarrow> catalogue_item option" where
  "resolveById st ty i = (case map_of (cs_items st) i of Some item \<Rightarrow> if it_type item = ty then Some item else None | None \<Rightarrow> None)"

definition name_taken :: "text_rules \<Rightarrow> catalogue_store \<Rightarrow> string \<Rightarrow> string \<Rightarrow> string option \<Rightarrow> bool" where
  "name_taken rules st ty name own = list_ex (\<lambda>item. Some (it_id item) \<noteq> own \<and> it_type item = ty \<and> it_status item = Active_item
     \<and> item_key rules item = catalogueSortKey rules name) (map snd (cs_items st))"

definition createItem :: "text_rules \<Rightarrow> catalogue_item \<Rightarrow> catalogue_store \<Rightarrow> catalogue_error + (catalogue_item \<times> catalogue_store)" where
  "createItem rules item st =
     (if name_taken rules st (it_type item) (it_name item) None then Inl (Catalogue_error ''catalogue_conflict'' 409)
      else Inr (item, st\<lparr>cs_items := AList.update (it_id item) item (cs_items st)\<rparr>))"

definition updateItem :: "text_rules \<Rightarrow> string \<Rightarrow> string \<Rightarrow> catalogue_input \<Rightarrow> string \<Rightarrow> catalogue_store
    \<Rightarrow> catalogue_error + (catalogue_item option \<times> catalogue_store)" where
  "updateItem rules ty i input now st = (case map_of (cs_items st) i of None \<Rightarrow> Inr (None, st) | Some current \<Rightarrow>
     if it_type current \<noteq> ty \<or> it_status current \<noteq> Active_item then Inr (None, st)
     else if name_taken rules st ty (in_name input) (Some i) then Inl (Catalogue_error ''catalogue_conflict'' 409)
     else (let item = current\<lparr>it_name := in_name input, it_code := in_code input, it_updated := now\<rparr>
           in Inr (Some item, st\<lparr>cs_items := AList.update i item (cs_items st)\<rparr>)))"

definition softDeleteItem :: "string \<Rightarrow> string \<Rightarrow> string \<Rightarrow> catalogue_store \<Rightarrow> catalogue_item option \<times> catalogue_store" where
  "softDeleteItem ty i now st = (case map_of (cs_items st) i of None \<Rightarrow> (None, st) | Some current \<Rightarrow>
     if it_type current \<noteq> ty \<or> it_status current \<noteq> Active_item then (None, st)
     else (let item = current\<lparr>it_status := Deleted_item, it_deleted := Some now, it_updated := now\<rparr>
           in (Some item, st\<lparr>cs_items := AList.update i item (cs_items st)\<rparr>)))"

definition writeBankPaymentDetails :: "string \<Rightarrow> bank_payment_details \<Rightarrow> string \<Rightarrow> catalogue_store \<Rightarrow> catalogue_store" where
  "writeBankPaymentDetails i d now st = st\<lparr>cs_bank := AList.update i (d, now) (cs_bank st)\<rparr>"

definition writeCurrencyDetails :: "string \<Rightarrow> currency_details \<Rightarrow> string \<Rightarrow> catalogue_store \<Rightarrow> catalogue_store" where
  "writeCurrencyDetails i d now st = st\<lparr>cs_currency := AList.update i (d, now) (cs_currency st)\<rparr>"

definition sub_key :: "text_rules \<Rightarrow> catalogue_submission \<Rightarrow> string" where
  "sub_key rules s = catalogueSortKey rules (sb_name s)"

definition createSubmission :: "text_rules \<Rightarrow> catalogue_submission \<Rightarrow> catalogue_store \<Rightarrow> catalogue_error + (catalogue_submission \<times> catalogue_store)" where
  "createSubmission rules s st =
     (if list_ex (\<lambda>x. sb_type x = sb_type s \<and> sb_status x = Pending \<and> sub_key rules x = sub_key rules s) (map snd (cs_submissions st))
      then Inl Other_error
      else Inr (s, st\<lparr>cs_submissions := AList.update (sb_id s) s (cs_submissions st)\<rparr>))"

definition sub_le :: "catalogue_submission \<Rightarrow> catalogue_submission \<Rightarrow> bool" where
  "sub_le a b \<longleftrightarrow> sb_at a < sb_at b \<or> (sb_at a = sb_at b \<and> sb_id a \<le> sb_id b)"

text \<open>A submission has a name, so the key the cursor is compared with is that of its name.\<close>

definition listSubmissions :: "text_rules \<Rightarrow> catalogue_store \<Rightarrow> submission_status \<Rightarrow> string option \<Rightarrow> sort_key option \<Rightarrow> nat
    \<Rightarrow> catalogue_submission list" where
  "listSubmissions rules st status ty after limit = take limit (js_sort sub_le
     (filter (\<lambda>s. sb_status s = status \<and> (ty = None \<or> ty = Some (sb_type s)) \<and> after_key after (sub_key rules s) (sb_id s)) (map snd (cs_submissions st))))"

definition approved_item :: "catalogue_submission \<Rightarrow> string \<Rightarrow> string \<Rightarrow> catalogue_item" where
  "approved_item current now itemId = \<lparr>it_id = itemId, it_type = sb_type current, it_name = sb_name current,
     it_code = (case sb_code current of None \<Rightarrow> None | Some c \<Rightarrow> if c = [] then None else Some c),
     it_status = Active_item, it_created = now, it_updated = now, it_deleted = None\<rparr>"

definition moderateSubmission :: "text_rules \<Rightarrow> string \<Rightarrow> submission_status \<Rightarrow> string \<Rightarrow> string \<Rightarrow> catalogue_store
    \<Rightarrow> catalogue_error + (catalogue_submission option \<times> catalogue_store)" where
  "moderateSubmission rules i verdict now itemId st = (case map_of (cs_submissions st) i of None \<Rightarrow> Inr (None, st) | Some current \<Rightarrow>
     if sb_status current \<noteq> Pending then Inr (None, st)
     else bind_result
       (if verdict = Approved
        then map_sum id (\<lambda>(item, st1). (Some (it_id item), st1))
          (createItem rules (approved_item current now itemId) st)
        else Inr (None, st))
       (\<lambda>(created, st1).
         (let s = current\<lparr>sb_status := verdict, sb_moderated := Some now, sb_item := (case created of None \<Rightarrow> sb_item current | Some x \<Rightarrow> Some x)\<rparr>
          in Inr (Some s, st1\<lparr>cs_submissions := AList.update i s (cs_submissions st1)\<rparr>))))"

section \<open>What the store keeps\<close>

text \<open>Rows are kept under their ids, and no two that have a key have the same: the active items of a type,
  the pending submissions of a type.\<close>

definition unique_rows :: "('a \<Rightarrow> string) \<Rightarrow> ('a \<Rightarrow> 'k option) \<Rightarrow> (string, 'a) js_map \<Rightarrow> bool" where
  "unique_rows ident key m \<longleftrightarrow> keyed m \<and> (\<forall>i x. map_of m i = Some x \<longrightarrow> ident x = i)
     \<and> (\<forall>i j x y k. map_of m i = Some x \<longrightarrow> map_of m j = Some y \<longrightarrow> key x = Some k \<longrightarrow> key y = Some k \<longrightarrow> i = j)"

lemma unique_rows_empty [simp]: "unique_rows ident key []"
  by (simp add: unique_rows_def)

lemma keyed_lookup: "keyed m \<Longrightarrow> x \<in> snd ` set m \<longleftrightarrow> (\<exists>i. map_of m i = Some x)"
  by (force simp: map_of_eq_Some_iff image_iff)

lemma unique_rowsD:
  assumes "unique_rows ident key m"
  shows "keyed m" "map_of m i = Some x \<Longrightarrow> ident x = i" "x \<in> snd ` set m \<longleftrightarrow> map_of m (ident x) = Some x"
    "x \<in> snd ` set m \<Longrightarrow> y \<in> snd ` set m \<Longrightarrow> key x = Some k \<Longrightarrow> key y = Some k \<Longrightarrow> x = y"
proof -
  show keyed: "keyed m" and ident: "map_of m i = Some x \<Longrightarrow> ident x = i" for i x using assms by (auto simp: unique_rows_def)
  show row: "x \<in> snd ` set m \<longleftrightarrow> map_of m (ident x) = Some x" for x
    unfolding keyed_lookup [OF keyed] using ident by metis
  show "x \<in> snd ` set m \<Longrightarrow> y \<in> snd ` set m \<Longrightarrow> key x = Some k \<Longrightarrow> key y = Some k \<Longrightarrow> x = y"
    unfolding row using assms unfolding unique_rows_def by (metis option.inject)
qed

lemma unique_rows_put:
  assumes "unique_rows ident key m" "ident x = i"
    and free: "\<And>k y. key x = Some k \<Longrightarrow> y \<in> snd ` set m \<Longrightarrow> key y = Some k \<Longrightarrow> ident y = i"
  shows "unique_rows ident key (AList.update i x m)"
proof -
  have same: "j = i" if "map_of m j = Some y" "key x = Some k" "key y = Some k" for j y k
    using free [OF that(2)] that unique_rowsD(2,3) [OF assms(1)] by metis
  show ?thesis
    using assms(1,2) same unfolding unique_rows_def
    by (simp add: update_conv' split: if_splits)
qed

lemma unique_rows_same_key:
  assumes "unique_rows ident key m" "map_of m i = Some x" "ident z = i" "key z = None \<or> key z = key x"
  shows "unique_rows ident key (AList.update i z m)"
  using assms(1,3)
proof (rule unique_rows_put)
  fix k y assume k: "key z = Some k" and y: "y \<in> snd ` set m" "key y = Some k"
  have x: "x \<in> snd ` set m" using assms(2) unique_rowsD(2,3) [OF assms(1)] by metis
  have "key x = Some k" using k assms(4) by (cases "key z") auto
  with unique_rowsD(4) [OF assms(1) y(1) x y(2)] have "y = x" by blast
  then show "ident y = i" using assms(2) unique_rowsD(2) [OF assms(1)] by simp
qed

definition active_key :: "text_rules \<Rightarrow> catalogue_item \<Rightarrow> (string \<times> string) option" where
  "active_key rules x = (if it_status x = Active_item then Some (it_type x, item_key rules x) else None)"

definition pending_key :: "text_rules \<Rightarrow> catalogue_submission \<Rightarrow> (string \<times> string) option" where
  "pending_key rules x = (if sb_status x = Pending then Some (sb_type x, sub_key rules x) else None)"

definition catalogue_ok :: "text_rules \<Rightarrow> catalogue_store \<Rightarrow> bool" where
  "catalogue_ok rules st \<longleftrightarrow> unique_rows it_id (active_key rules) (cs_items st) \<and> unique_rows sb_id (pending_key rules) (cs_submissions st)"

lemma createItem_Inr: "createItem rules item st = Inr (x, st') \<longleftrightarrow>
    x = item \<and> \<not> name_taken rules st (it_type item) (it_name item) None \<and> st' = st\<lparr>cs_items := AList.update (it_id item) item (cs_items st)\<rparr>"
  by (auto simp: createItem_def)

lemma createItem_ok: "catalogue_ok rules st \<Longrightarrow> createItem rules item st = Inr (x, st') \<Longrightarrow> catalogue_ok rules st'"
  unfolding catalogue_ok_def createItem_Inr
  by (auto simp: name_taken_def list_ex_iff active_key_def item_key_def [of rules item] intro!: unique_rows_put split: if_splits)

lemma updateItem_Some:
  assumes "updateItem rules ty i input now st = Inr (Some x, st')"
  obtains current where "map_of (cs_items st) i = Some current" "it_type current = ty" "it_status current = Active_item"
    "\<not> name_taken rules st ty (in_name input) (Some i)" "x = current\<lparr>it_name := in_name input, it_code := in_code input, it_updated := now\<rparr>"
    "st' = st\<lparr>cs_items := AList.update i x (cs_items st)\<rparr>"
  using assms by (auto simp: updateItem_def Let_def split: option.splits if_splits)

lemma updateItem_None: "updateItem rules ty i input now st = Inr (None, st') \<Longrightarrow> st' = st"
  by (auto simp: updateItem_def Let_def split: option.splits if_splits)

lemma updateItem_ok:
  assumes "catalogue_ok rules st" "updateItem rules ty i input now st = Inr (x, st')"
  shows "catalogue_ok rules st'"
proof (cases x)
  case None
  with assms updateItem_None [of rules ty i input now st st'] show ?thesis by simp
next
  case (Some y)
  from updateItem_Some [OF assms(2) [unfolded Some]] obtain c where
    c: "map_of (cs_items st) i = Some c" "it_type c = ty" "\<not> name_taken rules st ty (in_name input) (Some i)"
      "y = c\<lparr>it_name := in_name input, it_code := in_code input, it_updated := now\<rparr>"
    and st': "st' = st\<lparr>cs_items := AList.update i y (cs_items st)\<rparr>" by blast
  have rows: "unique_rows it_id (active_key rules) (cs_items st)" using assms(1) by (simp add: catalogue_ok_def)
  have "unique_rows it_id (active_key rules) (AList.update i y (cs_items st))"
    using rows
  proof (rule unique_rows_put)
    show "it_id y = i" using unique_rowsD(2) [OF rows c(1)] by (simp add: c(4))
    fix k z assume "active_key rules y = Some k" "z \<in> snd ` set (cs_items st)" "active_key rules z = Some k"
    with c(2-4) show "it_id z = i"
      by (auto simp: active_key_def name_taken_def list_ex_iff item_key_def split: if_splits)
  qed
  with assms(1) show ?thesis by (simp add: catalogue_ok_def st')
qed

lemma softDeleteItem_ok:
  assumes "catalogue_ok rules st" "softDeleteItem ty i now st = (x, st')"
  shows "catalogue_ok rules st'"
proof (cases "map_of (cs_items st) i")
  case (Some c)
  have rows: "unique_rows it_id (active_key rules) (cs_items st)" using assms(1) by (simp add: catalogue_ok_def)
  have "unique_rows it_id (active_key rules) (AList.update i (c\<lparr>it_status := Deleted_item, it_deleted := Some now, it_updated := now\<rparr>) (cs_items st))"
    by (rule unique_rows_same_key [OF rows Some]) (simp_all add: unique_rowsD(2) [OF rows Some] active_key_def)
  with Some assms show ?thesis by (auto simp: softDeleteItem_def Let_def catalogue_ok_def split: if_splits)
qed (use assms in \<open>auto simp: softDeleteItem_def\<close>)

lemma createSubmission_ok: "catalogue_ok rules st \<Longrightarrow> createSubmission rules s st = Inr (x, st') \<Longrightarrow> catalogue_ok rules st'"
  unfolding catalogue_ok_def createSubmission_def
  by (auto simp: list_ex_iff intro!: unique_rows_put split: if_splits) (auto simp: pending_key_def split: if_splits)

lemma details_ok [simp]: "catalogue_ok rules (writeBankPaymentDetails i d now st) = catalogue_ok rules st"
  "catalogue_ok rules (writeCurrencyDetails i c now st) = catalogue_ok rules st"
  by (simp_all add: catalogue_ok_def writeBankPaymentDetails_def writeCurrencyDetails_def)

lemma moderateSubmission_Some:
  assumes "moderateSubmission rules i verdict now itemId st = Inr (Some s, st')"
  obtains current st1 where "map_of (cs_submissions st) i = Some current" "sb_status current = Pending"
    "s = current\<lparr>sb_status := verdict, sb_moderated := Some now, sb_item := (if verdict = Approved then Some itemId else sb_item current)\<rparr>"
    "if verdict = Approved then createItem rules (approved_item current now itemId) st = Inr (approved_item current now itemId, st1) else st1 = st"
    "st' = st1\<lparr>cs_submissions := AList.update i s (cs_submissions st1)\<rparr>"
proof (cases "map_of (cs_submissions st) i")
  case (Some current)
  have [simp]: "it_id (approved_item current now itemId) = itemId" by (simp add: approved_item_def)
  show ?thesis
  proof (cases "verdict = Approved")
    case True
    with Some assms obtain st1 where "sb_status current = Pending" "createItem rules (approved_item current now itemId) st = Inr (approved_item current now itemId, st1)"
      "s = current\<lparr>sb_status := verdict, sb_moderated := Some now, sb_item := Some itemId\<rparr>" "st' = st1\<lparr>cs_submissions := AList.update i s (cs_submissions st1)\<rparr>"
      by (auto simp: moderateSubmission_def Let_def map_sum_def createItem_Inr split: if_splits sum.splits)
    with Some True that show ?thesis by simp
  next
    case False
    with Some assms have "sb_status current = Pending" "s = current\<lparr>sb_status := verdict, sb_moderated := Some now, sb_item := sb_item current\<rparr>"
        "st' = st\<lparr>cs_submissions := AList.update i s (cs_submissions st)\<rparr>"
      by (auto simp: moderateSubmission_def Let_def split: if_splits)
    with Some False that show ?thesis by simp
  qed
qed (use assms in \<open>simp add: moderateSubmission_def\<close>)

lemma moderateSubmission_None: "moderateSubmission rules i verdict now itemId st = Inr (None, st') \<Longrightarrow> st' = st"
  by (auto simp: moderateSubmission_def Let_def split: option.splits if_splits)

lemma moderateSubmission_ok:
  assumes "catalogue_ok rules st" "moderateSubmission rules i verdict now itemId st = Inr (x, st')" "verdict \<noteq> Pending"
  shows "catalogue_ok rules st'"
proof (cases x)
  case None
  with assms moderateSubmission_None [of rules i verdict now itemId st st'] show ?thesis by simp
next
  case (Some s)
  from moderateSubmission_Some [OF assms(2) [unfolded Some]] obtain c st1 where
    c: "map_of (cs_submissions st) i = Some c"
      "s = c\<lparr>sb_status := verdict, sb_moderated := Some now, sb_item := (if verdict = Approved then Some itemId else sb_item c)\<rparr>"
    and st1: "if verdict = Approved then createItem rules (approved_item c now itemId) st = Inr (approved_item c now itemId, st1) else st1 = st"
    and st': "st' = st1\<lparr>cs_submissions := AList.update i s (cs_submissions st1)\<rparr>" by blast
  have ok1: "catalogue_ok rules st1" using st1 assms(1) createItem_ok by (auto split: if_splits)
  have subs: "cs_submissions st1 = cs_submissions st" using st1 by (auto simp: createItem_Inr split: if_splits)
  have rows: "unique_rows sb_id (pending_key rules) (cs_submissions st)" using assms(1) by (simp add: catalogue_ok_def)
  have "unique_rows sb_id (pending_key rules) (AList.update i s (cs_submissions st))"
    by (rule unique_rows_same_key [OF rows c(1)]) (simp_all add: unique_rowsD(2) [OF rows c(1)] c(2) pending_key_def assms(3))
  with ok1 show ?thesis by (simp add: catalogue_ok_def st' subs)
qed

end
