(* ===== verification/Base64url.thy ===== *)
theory Base64url
  imports Js_Values
begin

text \<open>
  What \<^verbatim>\<open>Buffer\<close> does for a cursor: the UTF-8 bytes of a text of code units below 256,
  and base64url without padding, written and read. A byte is a \<^typ>\<open>char\<close>.
\<close>

abbreviation byte :: "char \<Rightarrow> nat" where
  "byte \<equiv> of_char"

abbreviation of_byte :: "nat \<Rightarrow> char" where
  "of_byte \<equiv> char_of"

definition utf8 :: "string \<Rightarrow> string" where
  "utf8 s = concat (map (\<lambda>c. if byte c < 128 then [c] else [of_byte (192 + byte c div 64), of_byte (128 + byte c mod 64)]) s)"

definition b64_digit :: "nat \<Rightarrow> char" where
  "b64_digit n = of_byte (if n < 26 then n + 65 else if n < 52 then n + 71 else if n < 62 then n - 4 else if n = 62 then 45 else 95)"

definition b64_value :: "char \<Rightarrow> nat" where
  "b64_value c = (let n = byte c in if 65 \<le> n \<and> n \<le> 90 then n - 65 else if 97 \<le> n \<and> n \<le> 122 then n - 71
     else if 48 \<le> n \<and> n \<le> 57 then n + 4 else if n = 45 then 62 else 63)"

definition b64_alphabet :: "char \<Rightarrow> bool" where
  "b64_alphabet c \<longleftrightarrow> alnum c \<or> byte c \<in> {95, 45}"

fun b64_encode :: "string \<Rightarrow> string" where
  "b64_encode [] = []"
| "b64_encode [a] = [b64_digit (byte a div 4), b64_digit (byte a mod 4 * 16)]"
| "b64_encode [a, b] = [b64_digit (byte a div 4), b64_digit (byte a mod 4 * 16 + byte b div 16), b64_digit (byte b mod 16 * 4)]"
| "b64_encode (a # b # c # r) = b64_digit (byte a div 4) # b64_digit (byte a mod 4 * 16 + byte b div 16)
     # b64_digit (byte b mod 16 * 4 + byte c div 64) # b64_digit (byte c mod 64) # b64_encode r"

text \<open>Reading: a last digit alone is dropped, leftover bits are too.\<close>

fun b64_decode :: "string \<Rightarrow> string" where
  "b64_decode (p # q # r # s # t) = of_byte (b64_value p * 4 + b64_value q div 16) # of_byte (b64_value q mod 16 * 16 + b64_value r div 4)
     # of_byte (b64_value r mod 4 * 64 + b64_value s) # b64_decode t"
| "b64_decode [p, q, r] = [of_byte (b64_value p * 4 + b64_value q div 16), of_byte (b64_value q mod 16 * 16 + b64_value r div 4)]"
| "b64_decode [p, q] = [of_byte (b64_value p * 4 + b64_value q div 16)]"
| "b64_decode _ = []"

lemma byte_bound [simp]: "byte c < 256"
  by (cases c) (simp only: of_char_def, rule order_less_le_trans [OF horner_sum_of_bool_2_less], simp)

lemma byte_of_byte [simp]: "n < 256 \<Longrightarrow> byte (of_byte n) = n"
  by simp

lemma b64_value_digit [simp]: "n < 64 \<Longrightarrow> b64_value (b64_digit n) = n"
  by (cases "n < 26"; cases "n < 52"; cases "n < 62"; cases "n = 62") (simp_all add: b64_value_def b64_digit_def Let_def, arith)

lemma b64_digit_alphabet: "n < 64 \<Longrightarrow> b64_alphabet (b64_digit n)"
  by (auto simp: b64_alphabet_def b64_digit_def alnum_def Let_def)

lemma high_bits [simp]: "byte a div 4 < 64" "byte b div 16 < 16" "byte c div 64 < 4"
  using byte_bound [of a] byte_bound [of b] byte_bound [of c] by arith+

lemma sextets [simp]: "byte a mod 4 * 16 < 64" "byte a mod 4 * 16 + byte b div 16 < 64"
  "byte b mod 16 * 4 < 64" "byte b mod 16 * 4 + byte c div 64 < 64" "byte c mod 64 < 64"
  using high_bits(2) [of b] high_bits(3) [of c] mod_less_divisor [of 4 "byte a"] mod_less_divisor [of 16 "byte b"] by arith+

theorem b64_round_trip: "b64_decode (b64_encode s) = s"
  by (induction s rule: b64_encode.induct) simp_all

lemma b64_encode_alphabet: "list_all b64_alphabet (b64_encode s)"
  by (induction s rule: b64_encode.induct) (simp_all add: b64_digit_alphabet)

lemma b64_encode_length: "length (b64_encode s) \<le> 2 * length s"
  by (induction s rule: b64_encode.induct) simp_all

lemma b64_encode_tight: "3 * length (b64_encode s) \<le> 4 * length s + 2"
  by (induction s rule: b64_encode.induct) simp_all

lemma b64_encode_Nil [simp]: "b64_encode s = [] \<longleftrightarrow> s = []"
  by (cases s rule: b64_encode.cases) simp_all

lemma utf8_simps [simp]: "utf8 [] = []" "utf8 (s @ t) = utf8 s @ utf8 t"
  "utf8 (c # s) = (if byte c < 128 then [c] else [of_byte (192 + byte c div 64), of_byte (128 + byte c mod 64)]) @ utf8 s"
  by (simp_all add: utf8_def)

lemma utf8_Nil [simp]: "utf8 s = [] \<longleftrightarrow> s = []"
  by (cases s) auto

end
