(* ===== verification/Catalogue.thy ===== *)
theory Catalogue
  imports Catalogue_Store Json_Text Base64url
begin

declare map_of_eq_Some_iff [simp del] Some_eq_map_of_iff [simp del]

text \<open>
  The reference catalogue, its service: the class \<^verbatim>\<open>ReferenceCatalogue\<close> of
  \<^verbatim>\<open>packages/reference-catalogue/src/catalogue.ts\<close> over the in-memory store: who may
  do what, normalization of names and codes, pages with cursors, submissions and their moderation.
  Parameters: NFKC and \<open>toLocaleLowerCase\<close>, which may lengthen a text; \<open>JSON.parse\<close> of the text some bytes are in UTF-8; \<open>Number\<close> of what
  is not a number; the text of a number. \<open>now\<close> is the text of the clock, new
  ids are arguments.
\<close>

section \<open>Input\<close>

definition MAX_PAGE_SIZE :: int where
  "MAX_PAGE_SIZE = 100"

definition MAX_SORT_KEY_LENGTH :: nat where
  "MAX_SORT_KEY_LENGTH = 200"

definition code_shape :: "string \<Rightarrow> bool" where
  "code_shape s \<longleftrightarrow> (case s of [] \<Rightarrow> False | c # cs \<Rightarrow> upper_or_digit c \<and> length cs \<le> 31 \<and> list_all (\<lambda>d. upper_or_digit d \<or> d \<in> set ''._-'') cs)"

definition normalizeCatalogueInput :: "text_rules \<Rightarrow> json option \<Rightarrow> catalogue_error + catalogue_input" where
  "normalizeCatalogueInput rules v = (case v of
     Some (JObj m) \<Rightarrow>
       if \<not> fst ` set m \<subseteq> {''name'', ''code''} then cat_invalid ''invalid_catalogue_input''
       else (case map_of m ''name'' of
         Some (JStr raw) \<Rightarrow>
           (let name = tr_nfkc rules (fold_spaces (js_trim raw))
            in if length name < 1 \<or> length name > 160 \<or> forbidden name then cat_invalid ''invalid_catalogue_name''
               else if length (catalogueSortKey rules name) > MAX_SORT_KEY_LENGTH then cat_invalid ''invalid_catalogue_name''
               else (case map_of m ''code'' of
                 None \<Rightarrow> Inr \<lparr>in_name = name, in_code = None\<rparr>
               | Some (JStr c) \<Rightarrow> if code_shape (upper (js_trim c)) then Inr \<lparr>in_name = name, in_code = Some (upper (js_trim c))\<rparr>
                   else cat_invalid ''invalid_catalogue_code''
               | Some _ \<Rightarrow> cat_invalid ''invalid_catalogue_code''))
       | _ \<Rightarrow> cat_invalid ''invalid_catalogue_input'')
   | _ \<Rightarrow> cat_invalid ''invalid_catalogue_input'')"

record cursor_codec =
  cc_parse :: "string \<Rightarrow> json option"
  cc_number :: "json \<Rightarrow> rat option"
  cc_text :: "rat \<Rightarrow> string"

definition pageSize :: "cursor_codec \<Rightarrow> json option \<Rightarrow> catalogue_error + nat" where
  "pageSize cd v =
     (if nullish v \<or> v = Some (JStr []) then Inr 25
      else case (case v of Some (JNum n) \<Rightarrow> n | Some j \<Rightarrow> cc_number cd j | None \<Rightarrow> None) of
        Some r \<Rightarrow> if of_int \<lfloor>r\<rfloor> \<noteq> r \<or> \<lfloor>r\<rfloor> < 1 \<or> \<lfloor>r\<rfloor> > MAX_PAGE_SIZE then cat_invalid ''invalid_page_size'' else Inr (nat \<lfloor>r\<rfloor>)
      | None \<Rightarrow> cat_invalid ''invalid_page_size'')"

section \<open>Cursors\<close>

definition cursor_json :: "string \<Rightarrow> string \<Rightarrow> string \<Rightarrow> json" where
  "cursor_json ty key i = JObj [(''v'', js_int 1), (''type'', JStr ty), (''sortKey'', JStr key), (''id'', JStr i)]"

definition encodeCursor :: "cursor_codec \<Rightarrow> string \<Rightarrow> string \<Rightarrow> string \<Rightarrow> string" where
  "encodeCursor cd ty key i = b64_encode (utf8 (js_stringify (cc_text cd) (cursor_json ty key i)))"

definition digits_at :: "nat \<Rightarrow> nat \<Rightarrow> string \<Rightarrow> nat" where
  "digits_at i n s = read_nat (take n (drop i s))"

definition iso_shape :: "string \<Rightarrow> bool" where
  "iso_shape s \<longleftrightarrow> length s = 24 \<and> list_all (\<lambda>i. s ! i = ''0000-00-00T00:00:00.000Z'' ! i \<or> (''0000-00-00T00:00:00.000Z'' ! i = CHR ''0'' \<and> digit_char (s ! i))) [0..<24]"

definition isIsoInstant :: "string \<Rightarrow> bool" where
  "isIsoInstant s \<longleftrightarrow> iso_shape s \<and> 1 \<le> digits_at 5 2 s \<and> digits_at 5 2 s \<le> 12 \<and> 1 \<le> digits_at 8 2 s
     \<and> digits_at 8 2 s \<le> days_in_month (digits_at 0 4 s) (digits_at 5 2 s) \<and> digits_at 11 2 s \<le> 23 \<and> digits_at 14 2 s \<le> 59 \<and> digits_at 17 2 s \<le> 59"

definition starts_with :: "string \<Rightarrow> string \<Rightarrow> bool" where
  "starts_with pre s \<longleftrightarrow> take (length pre) s = pre"

definition cursor_key :: "string \<Rightarrow> json \<Rightarrow> sort_key option" where
  "cursor_key ty parsed = (case parsed of
     JObj m \<Rightarrow> if js_join '','' (sort (map fst m)) \<noteq> ''id,sortKey,type,v'' \<or> map_of m ''v'' \<noteq> Some (js_int 1) \<or> map_of m ''type'' \<noteq> Some (JStr ty) then None
       else (case (map_of m ''sortKey'', map_of m ''id'') of
         (Some (JStr k), Some (JStr i)) \<Rightarrow>
           if length k > MAX_SORT_KEY_LENGTH \<or> \<not> uuid_any i \<or> (starts_with ''submission:'' ty \<and> \<not> isIsoInstant k) then None else Some (Sort_key k i)
       | _ \<Rightarrow> None)
   | _ \<Rightarrow> None)"

definition decodeCursor :: "cursor_codec \<Rightarrow> string \<Rightarrow> json option \<Rightarrow> catalogue_error + sort_key option" where
  "decodeCursor cd ty raw =
     (if nullish raw \<or> raw = Some (JStr []) then Inr None
      else case raw of
        Some (JStr s) \<Rightarrow> if length s > 1024 \<or> \<not> list_all b64_alphabet s \<or> b64_encode (b64_decode s) \<noteq> s then cat_invalid ''invalid_cursor''
          else (case Option.bind (cc_parse cd (b64_decode s)) (cursor_key ty) of None \<Rightarrow> cat_invalid ''invalid_cursor'' | Some k \<Rightarrow> Inr (Some k))
      | _ \<Rightarrow> cat_invalid ''invalid_cursor'')"

definition createPage :: "('a \<Rightarrow> string) \<Rightarrow> 'a list \<Rightarrow> nat \<Rightarrow> 'a list \<times> string option" where
  "createPage cursor rows limit = (take limit rows, if length rows > limit then Some (cursor (last (take limit rows))) else None)"

section \<open>Who may do what\<close>

definition requireWriter :: "catalogue_actor \<Rightarrow> catalogue_error + unit" where
  "requireWriter a = ensure (ca_role a \<in> {Staff, Admin}) (Catalogue_error ''catalogue_write_forbidden'' 403)"

definition requireCandidate :: "catalogue_actor \<Rightarrow> catalogue_error + unit" where
  "requireCandidate a = ensure (ca_role a = Candidate) (Catalogue_error ''catalogue_submission_forbidden'' 403)"

definition requireItemId :: "string \<Rightarrow> catalogue_error + unit" where
  "requireItemId i = ensure (uuid_any i) (Catalogue_error ''invalid_catalogue_id'' 400)"

definition type_of :: "json option \<Rightarrow> catalogue_error + string" where
  "type_of v = (case v of Some (JStr s) \<Rightarrow> if isCatalogueType v then Inr s else Inl (Catalogue_error ''unknown_catalogue_type'' 404)
     | _ \<Rightarrow> Inl (Catalogue_error ''unknown_catalogue_type'' 404))"

definition not_found :: "catalogue_error + 'a" where
  "not_found = Inl (Catalogue_error ''catalogue_item_not_found'' 404)"

text \<open>A store's own error is told as a conflict.\<close>

definition as_conflict :: "string \<Rightarrow> catalogue_error \<Rightarrow> catalogue_error" where
  "as_conflict code e = (case e of Catalogue_error c s \<Rightarrow> Catalogue_error c s | Other_error \<Rightarrow> Catalogue_error code 409)"

section \<open>The service\<close>

definition catalogue_list :: "cursor_codec \<Rightarrow> text_rules \<Rightarrow> catalogue_store \<Rightarrow> json option \<Rightarrow> json option \<Rightarrow> json option
    \<Rightarrow> catalogue_error + (catalogue_item list \<times> string option)" where
  "catalogue_list cd rules st typeValue cursor sz =
     bind_result (type_of typeValue) (\<lambda>ty.
     bind_result (pageSize cd sz) (\<lambda>limit.
     bind_result (decodeCursor cd ty cursor) (\<lambda>after.
       Inr (createPage (\<lambda>x. encodeCursor cd ty (item_key rules x) (it_id x)) (listActive rules st ty after (limit + 1)) limit))))"

definition resolveHistorical :: "catalogue_store \<Rightarrow> json option \<Rightarrow> string \<Rightarrow> catalogue_error + catalogue_item option" where
  "resolveHistorical st typeValue i =
     bind_result (type_of typeValue) (\<lambda>ty. bind_result (requireItemId i) (\<lambda>_. Inr (resolveById st ty i)))"

text \<open>A guarded write: refused without a change, or run on the store.\<close>

definition guarded :: "catalogue_error + 'g \<Rightarrow> ('g \<Rightarrow> catalogue_store \<Rightarrow> catalogue_error + ('a \<times> catalogue_store)) \<Rightarrow> catalogue_store
    \<Rightarrow> (catalogue_error + 'a) \<times> catalogue_store" where
  "guarded guard work st = (case bind_result guard (\<lambda>g. work g st) of Inl e \<Rightarrow> (Inl e, st) | Inr (x, st') \<Rightarrow> (Inr x, st'))"

definition found :: "catalogue_error \<Rightarrow> catalogue_error + ('a option \<times> catalogue_store) \<Rightarrow> catalogue_error + ('a \<times> catalogue_store)" where
  "found e r = bind_result r (\<lambda>(x, st). case x of None \<Rightarrow> Inl e | Some y \<Rightarrow> Inr (y, st))"

definition new_item :: "string \<Rightarrow> string \<Rightarrow> string \<Rightarrow> catalogue_input \<Rightarrow> catalogue_item" where
  "new_item i ty now input = \<lparr>it_id = i, it_type = ty, it_name = in_name input, it_code = in_code input, it_status = Active_item,
     it_created = now, it_updated = now, it_deleted = None\<rparr>"

definition catalogue_create :: "text_rules \<Rightarrow> catalogue_actor \<Rightarrow> json option \<Rightarrow> json option \<Rightarrow> string \<Rightarrow> string \<Rightarrow> catalogue_store
    \<Rightarrow> (catalogue_error + catalogue_item) \<times> catalogue_store" where
  "catalogue_create rules a typeValue raw now i = guarded
     (bind_result (requireWriter a) (\<lambda>_. bind_result (type_of typeValue) (\<lambda>ty.
      bind_result (normalizeCatalogueInput rules raw) (\<lambda>input. Inr (new_item i ty now input)))))
     (\<lambda>item st. map_sum (as_conflict ''catalogue_conflict'') id (createItem rules item st))"

definition catalogue_update :: "text_rules \<Rightarrow> catalogue_actor \<Rightarrow> json option \<Rightarrow> string \<Rightarrow> json option \<Rightarrow> string \<Rightarrow> catalogue_store
    \<Rightarrow> (catalogue_error + catalogue_item) \<times> catalogue_store" where
  "catalogue_update rules a typeValue i raw now = guarded
     (bind_result (requireWriter a) (\<lambda>_. bind_result (type_of typeValue) (\<lambda>ty. bind_result (requireItemId i) (\<lambda>_.
      bind_result (normalizeCatalogueInput rules raw) (\<lambda>input. Inr (ty, input))))))
     (\<lambda>(ty, input) st. found (Catalogue_error ''catalogue_item_not_found'' 404)
        (map_sum (as_conflict ''catalogue_conflict'') id (updateItem rules ty i input now st)))"

definition catalogue_remove :: "catalogue_actor \<Rightarrow> json option \<Rightarrow> string \<Rightarrow> string \<Rightarrow> catalogue_store
    \<Rightarrow> (catalogue_error + catalogue_item) \<times> catalogue_store" where
  "catalogue_remove a typeValue i now = guarded
     (bind_result (requireWriter a) (\<lambda>_. bind_result (type_of typeValue) (\<lambda>ty. bind_result (requireItemId i) (\<lambda>_. Inr ty))))
     (\<lambda>ty st. found (Catalogue_error ''catalogue_item_not_found'' 404) (Inr (softDeleteItem ty i now st)))"

definition bankPaymentDetails :: "catalogue_store \<Rightarrow> string \<Rightarrow> catalogue_error + (bank_payment_details \<times> string)" where
  "bankPaymentDetails st i = bind_result (requireItemId i) (\<lambda>_. if resolveById st ''bank'' i = None then not_found
     else case map_of (cs_bank st) i of None \<Rightarrow> Inl (Catalogue_error ''bank_payment_details_not_found'' 404) | Some d \<Rightarrow> Inr d)"

definition is_active :: "catalogue_item option \<Rightarrow> bool" where
  "is_active x \<longleftrightarrow> (case x of None \<Rightarrow> False | Some item \<Rightarrow> it_status item = Active_item)"

definition setBankPaymentDetails :: "catalogue_actor \<Rightarrow> string \<Rightarrow> json \<Rightarrow> string \<Rightarrow> catalogue_store
    \<Rightarrow> (catalogue_error + (bank_payment_details \<times> string)) \<times> catalogue_store" where
  "setBankPaymentDetails a i raw now = guarded
     (bind_result (ensure (canWriteBankPaymentDetails (ca_role a)) (Catalogue_error ''catalogue_write_forbidden'' 403)) (\<lambda>_.
      bind_result (requireItemId i) (\<lambda>_. normalizeBankPaymentDetails raw)))
     (\<lambda>d st. if is_active (resolveById st ''bank'' i) then Inr ((d, now), writeBankPaymentDetails i d now st) else not_found)"

definition currencyDetails :: "catalogue_store \<Rightarrow> string \<Rightarrow> catalogue_error + (currency_details \<times> string)" where
  "currencyDetails st i = bind_result (requireItemId i) (\<lambda>_. if resolveById st ''currency'' i = None then not_found
     else case map_of (cs_currency st) i of None \<Rightarrow> Inl (Catalogue_error ''currency_details_not_found'' 404) | Some d \<Rightarrow> Inr d)"

definition setCurrencyDetails :: "text_rules \<Rightarrow> catalogue_actor \<Rightarrow> string \<Rightarrow> json \<Rightarrow> string \<Rightarrow> catalogue_store
    \<Rightarrow> (catalogue_error + (currency_details \<times> string)) \<times> catalogue_store" where
  "setCurrencyDetails rules a i raw now = guarded
     (bind_result (ensure (canWriteCurrencyDetails (ca_role a)) (Catalogue_error ''catalogue_write_forbidden'' 403)) (\<lambda>_.
      bind_result (requireItemId i) (\<lambda>_. normalizeCurrencyDetails rules raw)))
     (\<lambda>d st. if is_active (resolveById st ''currency'' i) then Inr ((d, now), writeCurrencyDetails i d now st) else not_found)"

definition new_submission :: "string \<Rightarrow> string \<Rightarrow> string \<Rightarrow> catalogue_input \<Rightarrow> catalogue_submission" where
  "new_submission i ty now input = \<lparr>sb_id = i, sb_type = ty, sb_name = in_name input, sb_code = in_code input, sb_status = Pending,
     sb_at = now, sb_moderated = None, sb_item = None\<rparr>"

definition submittable_of :: "json option \<Rightarrow> catalogue_error + string" where
  "submittable_of v = (case v of Some (JStr s) \<Rightarrow> if isSubmittableCatalogueType v then Inr s else cat_invalid ''catalogue_type_not_submittable''
     | _ \<Rightarrow> cat_invalid ''catalogue_type_not_submittable'')"

definition catalogue_submit :: "text_rules \<Rightarrow> catalogue_actor \<Rightarrow> json option \<Rightarrow> json option \<Rightarrow> string \<Rightarrow> string \<Rightarrow> catalogue_store
    \<Rightarrow> (catalogue_error + catalogue_submission) \<times> catalogue_store" where
  "catalogue_submit rules a typeValue raw now i = guarded
     (bind_result (requireCandidate a) (\<lambda>_. bind_result (submittable_of typeValue) (\<lambda>ty.
      bind_result (normalizeCatalogueInput rules raw) (\<lambda>input. Inr (new_submission i ty now input)))))
     (\<lambda>s st. map_sum (\<lambda>_. Catalogue_error ''catalogue_submission_conflict'' 409) id (createSubmission rules s st))"

fun submission_status_of :: "string \<Rightarrow> submission_status option" where
  "submission_status_of s = (if s = ''pending'' then Some Pending else if s = ''approved'' then Some Approved else if s = ''rejected'' then Some Rejected else None)"

definition catalogue_submissions :: "cursor_codec \<Rightarrow> text_rules \<Rightarrow> catalogue_actor \<Rightarrow> catalogue_store \<Rightarrow> json option \<Rightarrow> json option \<Rightarrow> json option \<Rightarrow> json option
    \<Rightarrow> catalogue_error + (catalogue_submission list \<times> string option)" where
  "catalogue_submissions cd rules a st statusV typeV cursor sz =
     bind_result (requireWriter a) (\<lambda>_.
     (let statusText = (if nullish statusV then Some ''pending'' else case statusV of Some (JStr s) \<Rightarrow> Some s | _ \<Rightarrow> None)
      in case Option.bind statusText submission_status_of of
        None \<Rightarrow> cat_invalid ''invalid_submission_status''
      | Some status \<Rightarrow>
          bind_result (if typeV = None \<or> typeV = Some (JStr []) then Inr None else map_sum id Some (submittable_of typeV)) (\<lambda>ty.
          bind_result (pageSize cd sz) (\<lambda>limit.
          let cursorType = ''submission:'' @ the statusText @ '':'' @ (case ty of None \<Rightarrow> ''all'' | Some t \<Rightarrow> t)
          in bind_result (decodeCursor cd cursorType cursor) (\<lambda>after.
            Inr (createPage (\<lambda>x. encodeCursor cd cursorType (sb_at x) (sb_id x)) (listSubmissions rules st status ty after (limit + 1)) limit))))))"

definition catalogue_moderate :: "text_rules \<Rightarrow> catalogue_actor \<Rightarrow> string \<Rightarrow> json option \<Rightarrow> string \<Rightarrow> string \<Rightarrow> catalogue_store
    \<Rightarrow> (catalogue_error + catalogue_submission) \<times> catalogue_store" where
  "catalogue_moderate rules a i verdictV now itemId = guarded
     (bind_result (requireWriter a) (\<lambda>_. bind_result (requireItemId i) (\<lambda>_.
        if verdictV = Some (JStr ''approved'') then Inr Approved else if verdictV = Some (JStr ''rejected'') then Inr Rejected
        else cat_invalid ''invalid_moderation_decision'')))
     (\<lambda>verdict st. found (Catalogue_error ''catalogue_submission_not_pending'' 409)
        (map_sum (as_conflict ''catalogue_conflict'') id (moderateSubmission rules i verdict now itemId st)))"

section \<open>Histories\<close>

text \<open>New ids are random uuids, not yet taken.\<close>

inductive catalogue_step :: "text_rules \<Rightarrow> catalogue_store \<Rightarrow> catalogue_store \<Rightarrow> bool" for rules where
  item_created: "catalogue_create rules a typeValue raw now i st = (res, st') \<Longrightarrow> uuid_any i \<Longrightarrow> map_of (cs_items st) i = None \<Longrightarrow> catalogue_step rules st st'"
| item_updated: "catalogue_update rules a typeValue i raw now st = (res, st') \<Longrightarrow> catalogue_step rules st st'"
| item_removed: "catalogue_remove a typeValue i now st = (res, st') \<Longrightarrow> catalogue_step rules st st'"
| bank_set: "setBankPaymentDetails a i v now st = (res, st') \<Longrightarrow> catalogue_step rules st st'"
| currency_set: "setCurrencyDetails rules a i v now st = (res2, st') \<Longrightarrow> catalogue_step rules st st'"
| submitted: "catalogue_submit rules a typeValue raw now i st = (res3, st') \<Longrightarrow> uuid_any i \<Longrightarrow> map_of (cs_submissions st) i = None \<Longrightarrow> catalogue_step rules st st'"
| moderated: "catalogue_moderate rules a i verdictV now itemId st = (res4, st') \<Longrightarrow> uuid_any itemId \<Longrightarrow> map_of (cs_items st) itemId = None \<Longrightarrow> catalogue_step rules st st'"

definition empty_catalogue :: catalogue_store where
  "empty_catalogue = \<lparr>cs_items = [], cs_submissions = [], cs_bank = [], cs_currency = []\<rparr>"

definition catalogue_reach :: "text_rules \<Rightarrow> catalogue_store \<Rightarrow> bool" where
  "catalogue_reach rules st \<longleftrightarrow> (catalogue_step rules)\<^sup>*\<^sup>* empty_catalogue st"

text \<open>What is stored as a name has been normalized, and ids are uuids.\<close>

definition good_name :: "text_rules \<Rightarrow> string \<Rightarrow> bool" where
  "good_name rules name \<longleftrightarrow> (\<exists>raw. name = tr_nfkc rules (fold_spaces (js_trim raw))) \<and> name \<noteq> [] \<and> length name \<le> 160 \<and> \<not> forbidden name
     \<and> length (catalogueSortKey rules name) \<le> MAX_SORT_KEY_LENGTH"

definition names_ok :: "text_rules \<Rightarrow> catalogue_store \<Rightarrow> bool" where
  "names_ok rules st \<longleftrightarrow> (\<forall>x \<in> snd ` set (cs_items st). good_name rules (it_name x) \<and> uuid_any (it_id x))
     \<and> (\<forall>x \<in> snd ` set (cs_submissions st). good_name rules (sb_name x) \<and> uuid_any (sb_id x))"

lemma guarded_cases:
  assumes "guarded guard work st = (res, st')"
  shows "(\<exists>e. res = Inl e \<and> st' = st) \<or> (\<exists>g x. guard = Inr g \<and> res = Inr x \<and> work g st = Inr (x, st'))"
  using assms by (auto simp: guarded_def split: sum.splits prod.splits)

lemma found_Inr [simp]: "found e r = Inr (x, st') \<longleftrightarrow> r = Inr (Some x, st')"
  by (auto simp: found_def split: option.splits)

lemma map_sum_Inr [simp]: "map_sum f id r = Inr y \<longleftrightarrow> r = Inr y"
  by (cases r) auto

lemma normalize_good: "normalizeCatalogueInput rules raw = Inr input \<Longrightarrow> good_name rules (in_name input)"
  by (auto simp: normalizeCatalogueInput_def cat_invalid_def good_name_def Let_def Suc_le_eq split: option.splits json.splits if_splits)

lemma names_ok_item: "names_ok rules st \<Longrightarrow> good_name rules (it_name x) \<Longrightarrow> uuid_any (it_id x) \<Longrightarrow> names_ok rules (st\<lparr>cs_items := AList.update i x (cs_items st)\<rparr>)"
  unfolding names_ok_def by (auto dest!: set_alist_update)

lemma names_ok_submission: "names_ok rules st \<Longrightarrow> good_name rules (sb_name x) \<Longrightarrow> uuid_any (sb_id x) \<Longrightarrow>
    names_ok rules (st\<lparr>cs_submissions := AList.update i x (cs_submissions st)\<rparr>)"
  unfolding names_ok_def by (auto dest!: set_alist_update)

lemma names_okD:
  "names_ok rules st \<Longrightarrow> map_of (cs_items st) k = Some x \<Longrightarrow> good_name rules (it_name x) \<and> uuid_any (it_id x)"
  "names_ok rules st \<Longrightarrow> map_of (cs_submissions st) k = Some y \<Longrightarrow> good_name rules (sb_name y) \<and> uuid_any (sb_id y)"
  unfolding names_ok_def by (force dest!: map_of_SomeD)+

lemma catalogue_step_ok:
  assumes "catalogue_step rules st st'" "catalogue_ok rules st" "names_ok rules st"
  shows "catalogue_ok rules st' \<and> names_ok rules st'"
  using assms(1)
proof (cases rule: catalogue_step.cases)
  case (item_created a typeValue raw now i res)
  from guarded_cases [OF item_created(1) [unfolded catalogue_create_def]] consider "st' = st"
    | input ty where "normalizeCatalogueInput rules raw = Inr input" "createItem rules (new_item i ty now input) st = Inr (new_item i ty now input, st')"
    by (auto simp: createItem_Inr)
  then show ?thesis
  proof cases
    case 2
    from normalize_good [OF 2(1)] item_created(2) have "names_ok rules st'"
      using 2(2) assms(3) by (auto simp: createItem_Inr new_item_def intro!: names_ok_item)
    with createItem_ok [OF assms(2) 2(2)] show ?thesis by simp
  qed (use assms in simp)
next
  case (item_updated a typeValue i raw now res)
  from guarded_cases [OF item_updated(1) [unfolded catalogue_update_def]] consider "st' = st"
    | input ty x where "normalizeCatalogueInput rules raw = Inr input" "updateItem rules ty i input now st = Inr (Some x, st')" by auto
  then show ?thesis
  proof cases
    case 2
    from updateItem_Some [OF 2(2)] obtain c where c: "map_of (cs_items st) i = Some c"
      "x = c\<lparr>it_name := in_name input, it_code := in_code input, it_updated := now\<rparr>" "st' = st\<lparr>cs_items := AList.update i x (cs_items st)\<rparr>" by blast
    have "uuid_any (it_id c)" using names_okD [OF assms(3)] c(1) by blast
    with c(2,3) normalize_good [OF 2(1)] assms(3) have "names_ok rules st'" by (simp add: names_ok_item)
    with updateItem_ok [OF assms(2) 2(2)] show ?thesis by simp
  qed (use assms in simp)
next
  case (item_removed a typeValue i now res)
  from guarded_cases [OF item_removed(1) [unfolded catalogue_remove_def]] consider "st' = st"
    | ty x where "softDeleteItem ty i now st = (Some x, st')" by auto
  then show ?thesis
  proof cases
    case 2
    then obtain c where c: "map_of (cs_items st) i = Some c" "x = c\<lparr>it_status := Deleted_item, it_deleted := Some now, it_updated := now\<rparr>"
      "st' = st\<lparr>cs_items := AList.update i x (cs_items st)\<rparr>" by (auto simp: softDeleteItem_def Let_def split: option.splits if_splits)
    have "good_name rules (it_name c) \<and> uuid_any (it_id c)" using names_okD [OF assms(3)] c(1) by blast
    with c(2,3) assms(3) have "names_ok rules st'" by (simp add: names_ok_item)
    with softDeleteItem_ok [OF assms(2) 2] show ?thesis by simp
  qed (use assms in simp)
next
  case (bank_set a i v now res)
  from guarded_cases [OF bank_set(1) [unfolded setBankPaymentDetails_def]] assms(2,3) show ?thesis
    by (auto simp: not_found_def names_ok_def writeBankPaymentDetails_def catalogue_ok_def split: if_splits)
next
  case (currency_set a i v now res2)
  from guarded_cases [OF currency_set(1) [unfolded setCurrencyDetails_def]] assms(2,3) show ?thesis
    by (auto simp: not_found_def names_ok_def writeCurrencyDetails_def catalogue_ok_def split: if_splits)
next
  case (submitted a typeValue raw now i res3)
  from guarded_cases [OF submitted(1) [unfolded catalogue_submit_def]] consider "st' = st"
    | input ty s where "normalizeCatalogueInput rules raw = Inr input" "createSubmission rules (new_submission i ty now input) st = Inr (s, st')" by auto
  then show ?thesis
  proof cases
    case 2
    from normalize_good [OF 2(1)] submitted(2) have "names_ok rules st'"
      using 2(2) assms(3) by (auto simp: createSubmission_def new_submission_def intro!: names_ok_submission split: if_splits)
    with createSubmission_ok [OF assms(2) 2(2)] show ?thesis by simp
  qed (use assms in simp)
next
  case (moderated a i verdictV now itemId res4)
  from guarded_cases [OF moderated(1) [unfolded catalogue_moderate_def]] consider "st' = st"
    | verdict s where "verdict \<noteq> Pending" "moderateSubmission rules i verdict now itemId st = Inr (Some s, st')"
    by (auto simp: cat_invalid_def split: if_splits)
  then show ?thesis
  proof cases
    case 2
    from moderateSubmission_Some [OF 2(2)] obtain c st1 where c: "map_of (cs_submissions st) i = Some c"
        "s = c\<lparr>sb_status := verdict, sb_moderated := Some now, sb_item := (if verdict = Approved then Some itemId else sb_item c)\<rparr>"
      and st1: "if verdict = Approved then createItem rules (approved_item c now itemId) st = Inr (approved_item c now itemId, st1) else st1 = st"
      and st': "st' = st1\<lparr>cs_submissions := AList.update i s (cs_submissions st1)\<rparr>" by blast
    have name: "good_name rules (sb_name c) \<and> uuid_any (sb_id c)" using names_okD [OF assms(3)] c(1) by blast
    have "names_ok rules st1" using st1 name moderated(2) assms(3)
      by (auto simp: createItem_Inr approved_item_def intro!: names_ok_item split: if_splits)
    with name c(2) have "names_ok rules st'" unfolding st' by (simp add: names_ok_submission)
    with moderateSubmission_ok [OF assms(2) 2(2,1)] show ?thesis by simp
  qed (use assms in simp)
qed

lemma catalogue_reach_ok: "catalogue_reach rules st \<Longrightarrow> catalogue_ok rules st \<and> names_ok rules st"
  unfolding catalogue_reach_def
proof (induction rule: rtranclp_induct)
  case base
  show ?case by (simp add: catalogue_ok_def names_ok_def empty_catalogue_def)
qed (use catalogue_step_ok in blast)

section \<open>Pages\<close>

text \<open>A client that follows the cursors, for at most so many pages.\<close>

fun walk_pages :: "nat \<Rightarrow> (string option \<Rightarrow> 'e + ('a list \<times> string option)) \<Rightarrow> string option \<Rightarrow> 'a list option" where
  "walk_pages 0 f c = None"
| "walk_pages (Suc n) f c = (case f c of
     Inl e \<Rightarrow> None
   | Inr (items, next) \<Rightarrow> (case next of None \<Rightarrow> Some items | Some d \<Rightarrow> map_option ((@) items) (walk_pages n f (Some d))))"

text \<open>What a page needs of a store: the rows in order, cut off after a key.\<close>

locale keyset_store =
  fixes list_after :: "'s \<Rightarrow> string \<Rightarrow> sort_key option \<Rightarrow> nat \<Rightarrow> 'a list"
    and in_order :: "'s \<Rightarrow> string \<Rightarrow> 'a list"
    and row_key :: "'a \<Rightarrow> sort_key"
    and ok :: "'s \<Rightarrow> bool"
  assumes from_start: "ok s \<Longrightarrow> list_after s ty None n = take n (in_order s ty)"
    and after_row: "ok s \<Longrightarrow> in_order s ty = xs @ x # ys \<Longrightarrow> list_after s ty (Some (row_key x)) n = take n ys"
begin

lemma walk_rest:
  assumes "ok s" "1 \<le> limit"
    and page: "\<And>c. f c = bind_result (dec c) (\<lambda>after. Inr (createPage cur (list_after s ty after (limit + 1)) limit))"
    and marks: "\<And>x. x \<in> set (in_order s ty) \<Longrightarrow> dec (Some (cur x)) = Inr (Some (row_key x))"
  shows "in_order s ty = xs @ ys \<Longrightarrow> dec c = Inr after \<Longrightarrow> (\<And>n. list_after s ty after n = take n ys) \<Longrightarrow> length ys < fuel \<Longrightarrow>
    walk_pages fuel f c = Some ys"
proof (induction "length ys" arbitrary: xs ys c after fuel rule: less_induct)
  case less
  obtain m where m: "fuel = Suc m" using less.prems(4) by (cases fuel) auto
  have f: "f c = Inr (take limit ys, if length ys > limit then Some (cur (last (take limit ys))) else None)"
    using assms(2) less.prems(2,3) by (auto simp: page createPage_def min_def)
  show ?case
  proof (cases "length ys > limit")
    case False
    then show ?thesis by (simp add: m f)
  next
    case True
    let ?x = "ys ! (limit - 1)" and ?rest = "drop limit ys"
    have split: "ys = take (limit - 1) ys @ ?x # ?rest"
      using assms(2) True id_take_nth_drop [of "limit - 1" ys] by simp
    have whole: "take limit ys = take (limit - 1) ys @ [?x]"
      using assms(2) True take_Suc_conv_app_nth [of "limit - 1" ys] by simp
    have order: "in_order s ty = (xs @ take (limit - 1) ys) @ ?x # ?rest" using less.prems(1) split by simp
    then have "?x \<in> set (in_order s ty)" by simp
    from marks [OF this] have mark: "dec (Some (cur ?x)) = Inr (Some (row_key ?x))" .
    have "walk_pages m f (Some (cur ?x)) = Some ?rest"
    proof (rule less.hyps [OF _ _ mark after_row [OF assms(1) order]])
      show "length ?rest < length ys" using True assms(2) by simp
      show "in_order s ty = (xs @ take (limit - 1) ys @ [?x]) @ ?rest" using order by simp
      show "length ?rest < m" using True assms(2) less.prems(4) m by simp
    qed
    then show ?thesis using True by (simp add: m f whole) (use split [symmetric] in simp)
  qed
qed

lemma walk_all:
  assumes "ok s" "1 \<le> limit"
    and "\<And>c. f c = bind_result (dec c) (\<lambda>after. Inr (createPage cur (list_after s ty after (limit + 1)) limit))"
    and "\<And>x. x \<in> set (in_order s ty) \<Longrightarrow> dec (Some (cur x)) = Inr (Some (row_key x))" and "dec None = Inr None"
  shows "walk_pages (Suc (length (in_order s ty))) f None = Some (in_order s ty)"
  by (rule walk_rest [OF assms(1-4), of "[]" _ None None]) (simp_all add: assms(5) from_start [OF assms(1)])

end

definition active_in_order :: "text_rules \<Rightarrow> catalogue_store \<Rightarrow> string \<Rightarrow> catalogue_item list" where
  "active_in_order rules st ty = js_sort (item_le rules) (filter (\<lambda>x. it_type x = ty \<and> it_status x = Active_item) (map snd (cs_items st)))"

definition item_mark :: "text_rules \<Rightarrow> catalogue_item \<Rightarrow> sort_key" where
  "item_mark rules x = Sort_key (item_key rules x) (it_id x)"

lemma item_le_total: "item_le rules a b \<or> item_le rules b a"
  by (auto simp: item_le_def)

lemma item_le_trans: "item_le rules a b \<Longrightarrow> item_le rules b c \<Longrightarrow> item_le rules a c"
  by (auto simp: item_le_def)

lemma active_in_order_sorted: "sorted_wrt (item_le rules) (active_in_order rules st ty)"
  unfolding active_in_order_def by (rule sorted_wrt_js_sort, rule item_le_total, erule (1) item_le_trans)

lemma set_active_in_order: "set (active_in_order rules st ty) = {x \<in> snd ` set (cs_items st). it_type x = ty \<and> it_status x = Active_item}"
  by (auto simp: active_in_order_def)

lemma listActive_cut: "listActive rules st ty after n = take n (filter (\<lambda>x. after_key after (item_key rules x) (it_id x)) (active_in_order rules st ty))"
proof -
  have "filter (\<lambda>x. after_key after (item_key rules x) (it_id x)) (active_in_order rules st ty)
      = js_sort (item_le rules) (filter (\<lambda>x. after_key after (item_key rules x) (it_id x)) (filter (\<lambda>x. it_type x = ty \<and> it_status x = Active_item) (map snd (cs_items st))))"
    unfolding active_in_order_def by (rule filter_js_sort, rule item_le_total, erule (1) item_le_trans)
  also have "filter (\<lambda>x. after_key after (item_key rules x) (it_id x)) (filter (\<lambda>x. it_type x = ty \<and> it_status x = Active_item) (map snd (cs_items st)))
      = filter (\<lambda>x. it_type x = ty \<and> it_status x = Active_item \<and> after_key after (item_key rules x) (it_id x)) (map snd (cs_items st))"
    unfolding filter_filter by (rule filter_cong) auto
  finally show ?thesis by (simp add: listActive_def)
qed

lemma active_in_order_distinct:
  assumes "catalogue_ok rules st" shows "distinct (map it_id (active_in_order rules st ty))"
proof -
  have rows: "unique_rows it_id (active_key rules) (cs_items st)" using assms by (simp add: catalogue_ok_def)
  have "map it_id (map snd (cs_items st)) = map fst (cs_items st)"
    using unique_rowsD(1,2) [OF rows] by (auto simp: map_of_eq_Some_iff)
  with unique_rowsD(1) [OF rows] have "distinct (map it_id (map snd (cs_items st)))" by (simp only:)
  then show ?thesis unfolding active_in_order_def by (simp add: distinct_map_filter)
qed

interpretation memory_catalogue: keyset_store "listActive rules" "active_in_order rules" "item_mark rules" "catalogue_ok rules" for rules
proof
  fix st ty n
  show "listActive rules st ty None n = take n (active_in_order rules st ty)"
    by (simp add: listActive_cut after_key_def)
next
  fix st ty n xs x ys
  assume ok: "catalogue_ok rules st" and split: "active_in_order rules st ty = xs @ x # ys"
  have ids: "distinct (map it_id (xs @ x # ys))" using active_in_order_distinct [OF ok, of ty] by (simp only: split)
  have sorted: "sorted_wrt (item_le rules) (xs @ x # ys)" using active_in_order_sorted [of rules st ty] by (simp only: split)
  have "\<not> after_key (Some (item_mark rules x)) (item_key rules y) (it_id y)" if "y \<in> set xs \<union> {x}" for y
    using that sorted by (auto simp: after_key_def item_mark_def sorted_wrt_append item_le_def)
  moreover have "after_key (Some (item_mark rules x)) (item_key rules y) (it_id y)" if "y \<in> set ys" for y
  proof -
    have "item_le rules x y" "it_id x \<noteq> it_id y" using that sorted ids by (auto simp: sorted_wrt_append)
    then show ?thesis by (auto simp: after_key_def item_mark_def item_le_def)
  qed
  ultimately have "filter (\<lambda>y. after_key (Some (item_mark rules x)) (item_key rules y) (it_id y)) (xs @ x # ys) = ys" by simp
  then show "listActive rules st ty (Some (item_mark rules x)) n = take n ys" by (simp only: listActive_cut split)
qed

section \<open>A cursor fits\<close>

lemma forbidden_Cons: "forbidden (c # s) \<longleftrightarrow> (of_char c \<le> (31 :: nat) \<or> (127 \<le> (of_char c :: nat) \<and> (of_char c :: nat) \<le> 159) \<or> of_char c = (173 :: nat)) \<or> forbidden s"
  by (auto simp: forbidden_def forbidden_ranges_def)

lemma forbidden_lower: "\<not> forbidden s \<Longrightarrow> \<not> forbidden (map js_lower s)"
proof (induction s)
  case (Cons c s)
  then have "\<not> forbidden s" by (simp add: forbidden_Cons)
  have "(of_char (js_lower c) :: nat) = (let n = of_char c in if (65 \<le> n \<and> n \<le> 90) \<or> (192 \<le> n \<and> n \<le> 222 \<and> n \<noteq> 215) then n + 32 else n)"
    by (auto simp: js_lower_def Let_def of_char_of)
  with Cons \<open>\<not> forbidden s\<close> show ?case by (auto simp: forbidden_Cons Let_def split: if_splits)
qed (simp add: forbidden_def)

lemma quote_size: "\<not> forbidden s \<Longrightarrow> length (utf8 (js_quote s)) \<le> 2 * length s + 2"
proof -
  have "\<not> forbidden s \<Longrightarrow> length (utf8 (concat (map js_escape s))) \<le> 2 * length s"
  proof (induction s)
    case (Cons c s)
    then have "length (utf8 (js_escape c)) \<le> 2" by (auto simp: forbidden_Cons js_escape_def Let_def)
    with Cons show ?case by (simp add: forbidden_Cons)
  qed simp
  then show "\<not> forbidden s \<Longrightarrow> ?thesis" by (simp add: js_quote_def)
qed

lemma plain_not_forbidden: "list_all (\<lambda>c. alnum c \<or> c = CHR ''-'') s \<Longrightarrow> \<not> forbidden s"
  by (induction s) (auto simp: forbidden_Cons alnum_def Let_def, simp add: forbidden_def)

lemma any_hex_alnum: "any_hex c \<Longrightarrow> alnum c"
  by (auto simp: any_hex_def hex_char_def digit_char_def alnum_def)

lemma split_chars: "c \<in> set s \<Longrightarrow> c = d \<or> (\<exists>p \<in> set (js_split d s). c \<in> set p)"
  by (induction d s rule: js_split.induct) (auto split: list.splits)

lemma uuid_text:
  assumes "uuid_any i" shows "\<not> forbidden i \<and> length i \<le> 36"
proof -
  from assms obtain a b c d e where p: "js_split (CHR ''-'') i = [a, b, c, d, e]" "map length [a, b, c, d, e] = [8, 4, 4, 4, 12]"
      "list_all any_hex (a @ b @ c @ d @ e)" by (auto simp: uuid_any_def split: list.splits)
  have "alnum x \<or> x = CHR ''-''" if "x \<in> set i" for x
    using split_chars [OF that, of "CHR ''-''"] p(1,3) any_hex_alnum by (auto simp: list_all_iff)
  then have "\<not> forbidden i" by (intro plain_not_forbidden) (auto simp: list_all_iff)
  moreover have "sum_list (map length (js_split d s)) + length (js_split d s) = length s + 1" for d :: char and s
    by (induction d s rule: js_split.induct) (auto split: list.splits)
  from this [of "CHR ''-''" i] have "length i = 36" using p(1,2) by simp
  ultimately show ?thesis by simp
qed

lemma cursor_text_size:
  assumes "\<not> forbidden ty" "length ty \<le> 12" "\<not> forbidden key" "length key \<le> 200" "uuid_any i" "nt 1 = ''1''"
  shows "length (utf8 (js_stringify nt (cursor_json ty key i))) \<le> 534"
proof -
  have "length (utf8 (js_stringify nt (cursor_json ty key i))) =
      length (utf8 (js_quote ''v'')) + length (utf8 (js_quote ''type'')) + length (utf8 (js_quote ''sortKey'')) + length (utf8 (js_quote ''id''))
      + length (utf8 (js_quote ty)) + length (utf8 (js_quote key)) + length (utf8 (js_quote i)) + 10"
    using assms(6) by (simp add: cursor_json_def commas_def js_int_def)
  moreover have "length (utf8 (js_quote ''v'')) = 3" "length (utf8 (js_quote ''type'')) = 6" "length (utf8 (js_quote ''sortKey'')) = 9" "length (utf8 (js_quote ''id'')) = 4"
    by (simp_all add: js_quote_def js_escape_def)
  ultimately show ?thesis
    using quote_size [OF assms(1)] quote_size [OF assms(3)] quote_size [of i] uuid_text [OF assms(5)] assms(2,4) by simp
qed

definition keys_fit :: "cursor_codec \<Rightarrow> string \<Rightarrow> catalogue_item \<Rightarrow> text_rules \<Rightarrow> bool" where
  "keys_fit cd ty x rules \<longleftrightarrow> decodeCursor cd ty (Some (JStr (encodeCursor cd ty (item_key rules x) (it_id x)))) = Inr (Some (item_mark rules x))"

lemma catalogue_types_plain: "ty \<in> set CATALOGUE_TYPES \<Longrightarrow> \<not> forbidden ty \<and> length ty \<le> 12 \<and> \<not> starts_with ''submission:'' ty"
  by (auto simp: CATALOGUE_TYPES_def forbidden_def forbidden_ranges_def starts_with_def)

lemma cursor_key_json:
  "length key \<le> MAX_SORT_KEY_LENGTH \<Longrightarrow> uuid_any i \<Longrightarrow> \<not> starts_with ''submission:'' ty \<Longrightarrow> cursor_key ty (cursor_json ty key i) = Some (Sort_key key i)"
  by (simp add: cursor_key_def cursor_json_def js_join_def)

lemma cursor_reads_back:
  assumes "ty \<in> set CATALOGUE_TYPES" "good_name rules (it_name x)" "uuid_any (it_id x)" "\<forall>s. tr_nfkc rules (tr_nfkc rules s) = tr_nfkc rules s"
    and lower: "\<forall>s. \<not> forbidden s \<longrightarrow> \<not> forbidden (tr_lower rules s)"
    and "cc_parse cd (utf8 (js_stringify (cc_text cd) (cursor_json ty (item_key rules x) (it_id x)))) = Some (cursor_json ty (item_key rules x) (it_id x))"
    and "cc_text cd 1 = ''1''"
  shows "keys_fit cd ty x rules"
proof -
  have "tr_nfkc rules (it_name x) = it_name x" using assms(2,4) by (auto simp: good_name_def)
  then have key: "item_key rules x = tr_lower rules (it_name x)" by (simp add: item_key_def catalogueSortKey_def)
  have plain: "\<not> forbidden (item_key rules x)" using assms(2) lower by (simp add: key good_name_def)
  have fits: "length (item_key rules x) \<le> MAX_SORT_KEY_LENGTH" using assms(2) by (simp add: good_name_def item_key_def)
  have ty: "\<not> forbidden ty" "length ty \<le> 12" "\<not> starts_with ''submission:'' ty" using catalogue_types_plain [OF assms(1)] by auto
  let ?text = "js_stringify (cc_text cd) (cursor_json ty (item_key rules x) (it_id x))"
  have "length (utf8 ?text) \<le> 534"
    using cursor_text_size [of ty "item_key rules x" "it_id x" "cc_text cd"] ty(1,2) plain fits assms(3,7) by (simp add: MAX_SORT_KEY_LENGTH_def)
  moreover have "?text \<noteq> []" by (simp add: cursor_json_def)
  ultimately have enc: "encodeCursor cd ty (item_key rules x) (it_id x) \<noteq> []" "length (encodeCursor cd ty (item_key rules x) (it_id x)) \<le> 1024"
    using b64_encode_tight [of "utf8 ?text"] by (auto simp: encodeCursor_def)
  from cursor_key_json [OF fits assms(3) ty(3)] enc assms(6) show ?thesis
    by (simp add: keys_fit_def decodeCursor_def nullish_def item_mark_def encodeCursor_def b64_encode_alphabet b64_round_trip)
qed

section \<open>Properties\<close>

text \<open>C22. A client that follows the cursors sees the catalogue. On every reachable catalogue that stands still,
  for every type and every accepted page size, walking from the first page to the one without a cursor
  ends, and gives each active item of that type exactly once, in the order of sort keys and ids:
  every cursor the service hands out is one it accepts, also where lower-casing lengthens a name, since
  no name with a longer sort key is stored. What is needed of the library: NFKC is idempotent,
  lower-casing puts no control character in, JSON reads back the text of each cursor. Texts are over
  code units below 256, so names with unpaired surrogates, whose text as JSON is longer, are outside.\<close>

theorem catalogue_pages_list_everything:
  assumes "catalogue_reach rules st" and "ty \<in> set CATALOGUE_TYPES" and "pageSize cd sz = Inr limit"
    and "\<forall>s. tr_nfkc rules (tr_nfkc rules s) = tr_nfkc rules s" and "\<forall>s. \<not> forbidden s \<longrightarrow> \<not> forbidden (tr_lower rules s)" and "cc_text cd 1 = ''1''"
    and "\<forall>x \<in> set (active_in_order rules st ty). cc_parse cd (utf8 (js_stringify (cc_text cd) (cursor_json ty (item_key rules x) (it_id x))))
        = Some (cursor_json ty (item_key rules x) (it_id x))"
  shows "walk_pages (Suc (length (active_in_order rules st ty))) (\<lambda>c. catalogue_list cd rules st (Some (JStr ty)) (map_option JStr c) sz) None
      = Some (active_in_order rules st ty)
    \<and> set (active_in_order rules st ty) = {x \<in> snd ` set (cs_items st). it_type x = ty \<and> it_status x = Active_item}
    \<and> distinct (map it_id (active_in_order rules st ty)) \<and> sorted_wrt (item_le rules) (active_in_order rules st ty)"
proof -
  have ok: "catalogue_ok rules st" and names: "names_ok rules st" using catalogue_reach_ok [OF assms(1)] by auto
  have limit: "1 \<le> limit" using assms(3) by (auto simp: pageSize_def cat_invalid_def split: if_splits option.splits)
  have type: "type_of (Some (JStr ty)) = Inr ty" using assms(2) by (simp add: type_of_def isCatalogueType_def)
  have marks: "decodeCursor cd ty (map_option JStr (Some (encodeCursor cd ty (item_key rules x) (it_id x)))) = Inr (Some (item_mark rules x))"
    if "x \<in> set (active_in_order rules st ty)" for x
  proof -
    have "x \<in> snd ` set (cs_items st)" using that by (auto simp: set_active_in_order)
    then have "good_name rules (it_name x)" "uuid_any (it_id x)" using names by (auto simp: names_ok_def)
    from cursor_reads_back [OF assms(2) this assms(4,5) _ assms(6)] assms(7) that show ?thesis by (simp add: keys_fit_def)
  qed
  have "walk_pages (Suc (length (active_in_order rules st ty))) (\<lambda>c. catalogue_list cd rules st (Some (JStr ty)) (map_option JStr c) sz) None
      = Some (active_in_order rules st ty)"
    by (rule memory_catalogue.walk_all [OF ok limit _ marks])
      (simp_all add: catalogue_list_def type assms(3) decodeCursor_def nullish_def)
  then show ?thesis using set_active_in_order active_in_order_distinct [OF ok] active_in_order_sorted by blast
qed

lemma decided_stays:
  assumes "catalogue_step rules st st'" "map_of (cs_submissions st) i = Some s" "sb_status s \<noteq> Pending"
  shows "map_of (cs_submissions st') i = Some s"
  using assms(1)
proof (cases rule: catalogue_step.cases)
  case (item_created a typeValue raw now j res)
  from guarded_cases [OF item_created(1) [unfolded catalogue_create_def]] assms(2) show ?thesis
    by (auto simp: createItem_Inr)
next
  case (item_updated a typeValue j raw now res)
  from guarded_cases [OF item_updated(1) [unfolded catalogue_update_def]] assms(2) show ?thesis
    by (auto elim!: updateItem_Some)
next
  case (item_removed a typeValue j now res)
  from guarded_cases [OF item_removed(1) [unfolded catalogue_remove_def]] assms(2) show ?thesis
    by (auto simp: softDeleteItem_def Let_def split: option.splits if_splits)
next
  case (bank_set a j v now res)
  from guarded_cases [OF bank_set(1) [unfolded setBankPaymentDetails_def]] assms(2) show ?thesis
    by (auto simp: not_found_def writeBankPaymentDetails_def split: if_splits)
next
  case (currency_set a j v now res2)
  from guarded_cases [OF currency_set(1) [unfolded setCurrencyDetails_def]] assms(2) show ?thesis
    by (auto simp: not_found_def writeCurrencyDetails_def split: if_splits)
next
  case (submitted a typeValue raw now j res3)
  from guarded_cases [OF submitted(1) [unfolded catalogue_submit_def]] assms(2) submitted(3) show ?thesis
    by (auto simp: createSubmission_def new_submission_def update_conv' split: if_splits)
next
  case (moderated a j verdictV now itemId res4)
  from guarded_cases [OF moderated(1) [unfolded catalogue_moderate_def]] consider "st' = st"
    | verdict z where "moderateSubmission rules j verdict now itemId st = Inr (Some z, st')" by auto
  then show ?thesis
  proof cases
    case 2
    from moderateSubmission_Some [OF 2] obtain c st1 where "map_of (cs_submissions st) j = Some c" "sb_status c = Pending"
      and st1: "if verdict = Approved then createItem rules (approved_item c now itemId) st = Inr (approved_item c now itemId, st1) else st1 = st"
      and st': "st' = st1\<lparr>cs_submissions := AList.update j z (cs_submissions st1)\<rparr>" by blast
    with assms(2,3) have "j \<noteq> i" by auto
    with st1 st' assms(2) show ?thesis by (auto simp: createItem_Inr update_conv' split: if_splits)
  qed (use assms(2) in simp)
qed

lemma decided_stays_on: "(catalogue_step rules)\<^sup>*\<^sup>* st st' \<Longrightarrow> map_of (cs_submissions st) i = Some s \<Longrightarrow> sb_status s \<noteq> Pending \<Longrightarrow>
    map_of (cs_submissions st') i = Some s"
  by (induction rule: rtranclp_induct) (auto dest: decided_stays)

text \<open>C23. A submission is decided once. A moderation that succeeds finds the submission pending and stores it
  approved or rejected, as it was told, with the time, and leaves every other submission; an
  approval puts exactly one item, new and active, with the submission's type, name and code into the
  catalogue and notes its id, a rejection none. After it, whatever happens to the catalogue, the
  submission stays as it was decided and every further moderation of it is refused without a change.\<close>

theorem submission_decided_once:
  assumes "catalogue_moderate rules a i v now itemId st = (Inr s, st1)" and "(catalogue_step rules)\<^sup>*\<^sup>* st1 st2"
  shows "(\<exists>c. map_of (cs_submissions st) i = Some c \<and> sb_status c = Pending
      \<and> (if v = Some (JStr ''approved'')
         then s = c\<lparr>sb_status := Approved, sb_moderated := Some now, sb_item := Some itemId\<rparr>
           \<and> map_of (cs_items st1) = (map_of (cs_items st))(itemId \<mapsto> \<lparr>it_id = itemId, it_type = sb_type c, it_name = sb_name c,
                it_code = (if sb_code c = Some [] then None else sb_code c), it_status = Active_item, it_created = now, it_updated = now, it_deleted = None\<rparr>)
         else v = Some (JStr ''rejected'') \<and> s = c\<lparr>sb_status := Rejected, sb_moderated := Some now\<rparr> \<and> cs_items st1 = cs_items st))
    \<and> map_of (cs_submissions st1) = (map_of (cs_submissions st))(i \<mapsto> s)
    \<and> map_of (cs_submissions st2) i = Some s
    \<and> (\<exists>e. catalogue_moderate rules b i w later itemId2 st2 = (Inl e, st2))"
proof -
  from guarded_cases [OF assms(1) [unfolded catalogue_moderate_def]] obtain verdict where
    v: "(v = Some (JStr ''approved'') \<and> verdict = Approved) \<or> (v = Some (JStr ''rejected'') \<and> verdict = Rejected)"
    and run: "moderateSubmission rules i verdict now itemId st = Inr (Some s, st1)" by (auto simp: cat_invalid_def split: if_splits)
  from moderateSubmission_Some [OF run] obtain c st0 where c: "map_of (cs_submissions st) i = Some c" "sb_status c = Pending"
    and s: "s = c\<lparr>sb_status := verdict, sb_moderated := Some now, sb_item := (if verdict = Approved then Some itemId else sb_item c)\<rparr>"
    and st0: "if verdict = Approved then createItem rules (approved_item c now itemId) st = Inr (approved_item c now itemId, st0) else st0 = st"
    and st1: "st1 = st0\<lparr>cs_submissions := AList.update i s (cs_submissions st0)\<rparr>" by blast
  have subs: "cs_submissions st0 = cs_submissions st" using st0 by (auto simp: createItem_Inr split: if_splits)
  have rows: "map_of (cs_submissions st1) = (map_of (cs_submissions st))(i \<mapsto> s)" by (simp add: st1 update_conv' subs)
  then have row: "map_of (cs_submissions st1) i = Some s" by simp
  moreover have decided: "sb_status s \<noteq> Pending" using v s by auto
  ultimately have kept: "map_of (cs_submissions st2) i = Some s" by (rule decided_stays_on [OF assms(2)])
  have "moderateSubmission rules i z later itemId2 st2 = Inr (None, st2)" for z
    using kept decided by (simp add: moderateSubmission_def)
  then have again: "\<exists>e. catalogue_moderate rules b i w later itemId2 st2 = (Inl e, st2)"
    by (auto simp: catalogue_moderate_def guarded_def found_def bind_result_def split: sum.splits)
  have "if v = Some (JStr ''approved'')
         then s = c\<lparr>sb_status := Approved, sb_moderated := Some now, sb_item := Some itemId\<rparr>
           \<and> map_of (cs_items st1) = (map_of (cs_items st))(itemId \<mapsto> approved_item c now itemId)
         else v = Some (JStr ''rejected'') \<and> s = c\<lparr>sb_status := Rejected, sb_moderated := Some now\<rparr> \<and> cs_items st1 = cs_items st"
    using v s st0 st1 by (auto simp: createItem_Inr approved_item_def update_conv')
  moreover have "approved_item c now itemId = \<lparr>it_id = itemId, it_type = sb_type c, it_name = sb_name c,
      it_code = (if sb_code c = Some [] then None else sb_code c), it_status = Active_item, it_created = now, it_updated = now, it_deleted = None\<rparr>"
    by (simp add: approved_item_def split: option.splits)
  ultimately show ?thesis using c rows kept again by (intro conjI exI [of _ c]) simp_all
qed

text \<open>C24. The catalogue never holds a name twice: on every reachable catalogue two active items of a type whose
  names have the same sort key are the same item, two pending submissions of a type likewise. Every
  name, of items and of submissions, is normalized: trimmed, its spaces folded, in NFKC, not
  empty, of at most 160 code units, free of control characters, its sort key short enough for a cursor.\<close>

theorem catalogue_names_unique:
  assumes "catalogue_reach rules st"
  shows "(\<forall>x y. x \<in> snd ` set (cs_items st) \<and> y \<in> snd ` set (cs_items st) \<and> it_status x = Active_item \<and> it_status y = Active_item
        \<and> it_type x = it_type y \<and> catalogueSortKey rules (it_name x) = catalogueSortKey rules (it_name y) \<longrightarrow> x = y)
    \<and> (\<forall>x y. x \<in> snd ` set (cs_submissions st) \<and> y \<in> snd ` set (cs_submissions st) \<and> sb_status x = Pending \<and> sb_status y = Pending
        \<and> sb_type x = sb_type y \<and> catalogueSortKey rules (sb_name x) = catalogueSortKey rules (sb_name y) \<longrightarrow> x = y)
    \<and> (\<forall>name \<in> it_name ` snd ` set (cs_items st) \<union> sb_name ` snd ` set (cs_submissions st). \<not> forbidden name \<and> name \<noteq> [] \<and> length name \<le> 160
        \<and> (\<exists>raw. name = tr_nfkc rules (fold_spaces (js_trim raw))) \<and> length (catalogueSortKey rules name) \<le> 200)"
proof -
  have ok: "unique_rows it_id (active_key rules) (cs_items st)" "unique_rows sb_id (pending_key rules) (cs_submissions st)"
    and names: "names_ok rules st" using catalogue_reach_ok [OF assms] by (auto simp: catalogue_ok_def)
  have items: "x = y" if "x \<in> snd ` set (cs_items st)" "y \<in> snd ` set (cs_items st)" "it_status x = Active_item" "it_status y = Active_item"
      "it_type x = it_type y" "catalogueSortKey rules (it_name x) = catalogueSortKey rules (it_name y)" for x y
    by (rule unique_rowsD(4) [OF ok(1) that(1,2)]) (simp_all add: active_key_def item_key_def that(3-6))
  have subs: "x = y" if "x \<in> snd ` set (cs_submissions st)" "y \<in> snd ` set (cs_submissions st)" "sb_status x = Pending" "sb_status y = Pending"
      "sb_type x = sb_type y" "catalogueSortKey rules (sb_name x) = catalogueSortKey rules (sb_name y)" for x y
    by (rule unique_rowsD(4) [OF ok(2) that(1,2)]) (simp_all add: pending_key_def sub_key_def that(3-6))
  have plain: "\<not> forbidden name \<and> name \<noteq> [] \<and> length name \<le> 160 \<and> (\<exists>raw. name = tr_nfkc rules (fold_spaces (js_trim raw)))
      \<and> length (catalogueSortKey rules name) \<le> 200" if "name \<in> it_name ` snd ` set (cs_items st) \<union> sb_name ` snd ` set (cs_submissions st)" for name
  proof -
    have "good_name rules name" using that names unfolding names_ok_def by blast
    then show ?thesis by (simp add: good_name_def MAX_SORT_KEY_LENGTH_def)
  qed
  show ?thesis
  proof (intro conjI)
    show "\<forall>x y. x \<in> snd ` set (cs_items st) \<and> y \<in> snd ` set (cs_items st) \<and> it_status x = Active_item \<and> it_status y = Active_item
        \<and> it_type x = it_type y \<and> catalogueSortKey rules (it_name x) = catalogueSortKey rules (it_name y) \<longrightarrow> x = y"
      by (intro allI impI, elim conjE) (rule items)
    show "\<forall>x y. x \<in> snd ` set (cs_submissions st) \<and> y \<in> snd ` set (cs_submissions st) \<and> sb_status x = Pending \<and> sb_status y = Pending
        \<and> sb_type x = sb_type y \<and> catalogueSortKey rules (sb_name x) = catalogueSortKey rules (sb_name y) \<longrightarrow> x = y"
      by (intro allI impI, elim conjE) (rule subs)
  qed (rule ballI, rule plain)
qed

section \<open>The properties at work\<close>

definition demo_rules :: text_rules where
  "demo_rules = \<lparr>tr_nfkc = id, tr_lower = map js_lower\<rparr>"

lemma demo_rules_fields [simp]: "tr_nfkc demo_rules = id" "tr_lower demo_rules = map js_lower"
  by (simp_all add: demo_rules_def)

definition demo_admin :: catalogue_actor where
  "demo_admin = \<lparr>ca_principal = ''p'', ca_org = ''o'', ca_role = Admin\<rparr>"

definition demo_first :: string where "demo_first = ''00000000-0000-4000-8000-000000000001''"

definition demo_second :: string where "demo_second = ''00000000-0000-4000-8000-000000000002''"

definition demo_name :: "string \<Rightarrow> json option" where
  "demo_name s = Some (JObj [(''name'', JStr s)])"

lemma demo_uuids [simp]: "uuid_any demo_first" "uuid_any demo_second" "demo_first \<noteq> demo_second" "demo_second \<noteq> demo_first"
  by (simp_all add: uuid_any_def demo_first_def demo_second_def any_hex_def hex_char_def digit_char_def)

definition demo_items :: catalogue_store where
  "demo_items = empty_catalogue\<lparr>cs_items := [(demo_first, new_item demo_first ''bank'' ''t'' \<lparr>in_name = ''b'', in_code = None\<rparr>),
     (demo_second, new_item demo_second ''bank'' ''t'' \<lparr>in_name = ''a'', in_code = None\<rparr>)]\<rparr>"

lemma demo_input [simp]: "normalizeCatalogueInput demo_rules (demo_name ''a'') = Inr \<lparr>in_name = ''a'', in_code = None\<rparr>"
  "normalizeCatalogueInput demo_rules (demo_name ''b'') = Inr \<lparr>in_name = ''b'', in_code = None\<rparr>"
  by (simp_all add: normalizeCatalogueInput_def demo_name_def js_trim_def js_space_def forbidden_ranges_def Let_def forbidden_Cons forbidden_def catalogueSortKey_def MAX_SORT_KEY_LENGTH_def)

lemma demo_type [simp]: "type_of (Some (JStr ''bank'')) = Inr ''bank''"
  by (simp add: type_of_def isCatalogueType_def CATALOGUE_TYPES_def)

lemma demo_items_reach: "catalogue_reach demo_rules demo_items"
proof -
  let ?one = "empty_catalogue\<lparr>cs_items := [(demo_first, new_item demo_first ''bank'' ''t'' \<lparr>in_name = ''b'', in_code = None\<rparr>)]\<rparr>"
  have "catalogue_step demo_rules empty_catalogue ?one"
    by (rule item_created [of demo_rules demo_admin "Some (JStr ''bank'')" "demo_name ''b''" "''t''" demo_first])
      (simp_all add: catalogue_create_def guarded_def requireWriter_def demo_admin_def createItem_def name_taken_def new_item_def empty_catalogue_def ensure_def)
  moreover have "catalogue_step demo_rules ?one demo_items"
    by (rule item_created [of demo_rules demo_admin "Some (JStr ''bank'')" "demo_name ''a''" "''t''" demo_second])
      (simp_all add: catalogue_create_def guarded_def requireWriter_def demo_admin_def createItem_def name_taken_def new_item_def empty_catalogue_def ensure_def
        demo_items_def item_key_def catalogueSortKey_def js_lower_def)
  ultimately show ?thesis by (simp add: catalogue_reach_def)
qed

definition demo_cursors :: cursor_codec where
  "demo_cursors = \<lparr>cc_parse = (\<lambda>b. if b = utf8 (js_stringify (\<lambda>_. ''1'') (cursor_json ''bank'' ''a'' demo_second)) then Some (cursor_json ''bank'' ''a'' demo_second)
       else if b = utf8 (js_stringify (\<lambda>_. ''1'') (cursor_json ''bank'' ''b'' demo_first)) then Some (cursor_json ''bank'' ''b'' demo_first) else None),
     cc_number = (\<lambda>_. None), cc_text = (\<lambda>_. ''1'')\<rparr>"

lemma demo_texts: "utf8 (js_stringify (\<lambda>_. ''1'') (cursor_json ''bank'' ''b'' demo_first)) \<noteq> utf8 (js_stringify (\<lambda>_. ''1'') (cursor_json ''bank'' ''a'' demo_second))"
  by (simp add: cursor_json_def commas_def js_int_def js_quote_def js_escape_def demo_first_def demo_second_def)

lemma demo_order: "active_in_order demo_rules demo_items ''bank'' = [new_item demo_second ''bank'' ''t'' \<lparr>in_name = ''a'', in_code = None\<rparr>,
     new_item demo_first ''bank'' ''t'' \<lparr>in_name = ''b'', in_code = None\<rparr>]"
  by (simp add: active_in_order_def demo_items_def empty_catalogue_def new_item_def js_sort_def item_le_def item_key_def catalogueSortKey_def js_lower_def)

theorem catalogue_pages_list_everything_witness:
  "walk_pages 3 (\<lambda>c. catalogue_list demo_cursors demo_rules demo_items (Some (JStr ''bank'')) (map_option JStr c) (Some (JNum (Some 1)))) None
      = Some (active_in_order demo_rules demo_items ''bank'') \<and> map it_id (active_in_order demo_rules demo_items ''bank'') = [demo_second, demo_first]"
proof -
  have sz: "pageSize demo_cursors (Some (JNum (Some 1))) = Inr 1" by (simp add: pageSize_def nullish_def MAX_PAGE_SIZE_def)
  have "walk_pages (Suc (length (active_in_order demo_rules demo_items ''bank'')))
      (\<lambda>c. catalogue_list demo_cursors demo_rules demo_items (Some (JStr ''bank'')) (map_option JStr c) (Some (JNum (Some 1)))) None
      = Some (active_in_order demo_rules demo_items ''bank'')"
    using catalogue_pages_list_everything [OF demo_items_reach _ sz, of "''bank''"] demo_texts forbidden_lower
    by (simp add: CATALOGUE_TYPES_def demo_order demo_cursors_def new_item_def item_key_def catalogueSortKey_def js_lower_def)
  then show ?thesis by (simp add: demo_order new_item_def numeral_eq_Suc)
qed

definition demo_pending :: catalogue_store where
  "demo_pending = empty_catalogue\<lparr>cs_submissions := [(demo_first, new_submission demo_first ''major'' ''t'' \<lparr>in_name = ''b'', in_code = None\<rparr>)]\<rparr>"

theorem submission_decided_once_witness:
  "\<exists>s st1. catalogue_moderate demo_rules demo_admin demo_first (Some (JStr ''approved'')) ''u'' demo_second demo_pending = (Inr s, st1)
    \<and> map_of (cs_submissions st1) demo_first = Some s \<and> cs_items st1 \<noteq> []
    \<and> (\<exists>e. catalogue_moderate demo_rules demo_admin demo_first (Some (JStr ''rejected'')) ''v'' demo_first st1 = (Inl e, st1))"
proof -
  let ?r = "catalogue_moderate demo_rules demo_admin demo_first (Some (JStr ''approved'')) ''u'' demo_second demo_pending"
  have "\<exists>s. fst ?r = Inr s"
    by (simp add: catalogue_moderate_def guarded_def requireWriter_def requireItemId_def ensure_def demo_admin_def found_def
        moderateSubmission_def demo_pending_def new_submission_def createItem_def name_taken_def empty_catalogue_def approved_item_def Let_def)
  then obtain s st1 where r: "?r = (Inr s, st1)" by (cases ?r) auto
  from submission_decided_once [OF r rtranclp.rtrancl_refl, of demo_admin "Some (JStr ''rejected'')" "''v''" demo_first] obtain x where
    "map_of (cs_submissions st1) demo_first = Some s" "map_of (cs_items st1) = (map_of (cs_items demo_pending))(demo_second \<mapsto> x)"
    "\<exists>e. catalogue_moderate demo_rules demo_admin demo_first (Some (JStr ''rejected'')) ''v'' demo_first st1 = (Inl e, st1)" by auto
  moreover from this(2) have "map_of (cs_items st1) demo_second = Some x" by simp
  then have "cs_items st1 \<noteq> []" by auto
  ultimately show ?thesis using r by blast
qed

theorem catalogue_names_unique_witness:
  "catalogue_reach demo_rules demo_items \<and> map (\<lambda>(i, x). forbidden (it_name x)) (cs_items demo_items) = [False, False]"
proof (rule conjI [OF demo_items_reach])
  have "\<forall>x \<in> snd ` set (cs_items demo_items). \<not> forbidden (it_name x)" using catalogue_names_unique [OF demo_items_reach] by blast
  then show "map (\<lambda>(i, x). forbidden (it_name x)) (cs_items demo_items) = [False, False]" by (simp add: demo_items_def)
qed

end
