(* ===== verification/Org_Fields.thy ===== *)
theory Org_Fields
  imports Active_Context Bank
begin

declare map_of_eq_Some_iff [simp del] Some_eq_map_of_iff [simp del]

text \<open>
  Organizations, the fields an audience reads: the first half of
  \<^verbatim>\<open>packages/organizations/src/organizations.ts\<close> and its types. A row is what was imported,
  a JSON object; records are what the platform stores beside it. The text of a number and which
  well-formed instants \<open>Date.parse\<close> takes are arguments.
\<close>

section \<open>Types\<close>

datatype company_status = Company_active | Under_review | Company_inactive

datatype audience = Employer_audience | Staff_audience | Admin_audience

datatype org_field_name = Legal_name | Common_name_en | Common_name_ar | Description_en | Description_ar | Website | Currency_code
  | Approved_to_hire | Status | Hourly_rate | Email | Status_override | Bonus_commission

datatype field_value = FText string | FFlag bool | FStatus company_status

datatype missing_reason = Not_imported | Not_recorded

datatype org_field = Available field_value string | Unavailable missing_reason string

datatype read_error = Malformed_value | Malformed_snapshot | Unapproved_revision | Registry_disagrees | Hierarchy_violation string
  | Port_failed | Invalid_note_type

type_synonym row = "(string, json) js_map"

text \<open>\<open>null\<close>, \<open>undefined\<close> or the row of the parent.\<close>

datatype parent_row = No_parent | Parent_unknown | Parent_row row

datatype snapshot = Unconfigured | Missing | Found json

datatype status_record = Status_absent | Status_cleared | Status_set company_status

datatype term_record = Term_absent | Term_cleared | Term_value string

record terms_record =
  tm_hourly :: term_record
  tm_bonus :: term_record
  tm_currency :: "term_record option"

datatype approved_record = Approved_absent | Approved_value bool

definition ORGANIZATION_PARITY_REVISION :: string where
  "ORGANIZATION_PARITY_REVISION = ''c2ce255695eabc7e3a0f23b162f5996274234c63''"

definition ORGANIZATION_AUDIENCE_BY_ROLE :: "string \<Rightarrow> audience option" where
  "ORGANIZATION_AUDIENCE_BY_ROLE = map_of [(''org-owner'', Employer_audience), (''recruiter'', Employer_audience), (''staff'', Staff_audience),
     (''admin'', Admin_audience)]"

definition EMPLOYER_FIELDS :: "org_field_name list" where
  "EMPLOYER_FIELDS = [Legal_name, Common_name_en, Common_name_ar, Description_en, Description_ar, Website, Currency_code, Approved_to_hire,
     Status, Hourly_rate]"

definition STAFF_FIELDS :: "org_field_name list" where
  "STAFF_FIELDS = EMPLOYER_FIELDS @ [Email, Status_override]"

definition ADMIN_FIELDS :: "org_field_name list" where
  "ADMIN_FIELDS = STAFF_FIELDS @ [Bonus_commission]"

fun ORGANIZATION_FIELDS_BY_AUDIENCE :: "audience \<Rightarrow> org_field_name list" where
  "ORGANIZATION_FIELDS_BY_AUDIENCE Employer_audience = EMPLOYER_FIELDS"
| "ORGANIZATION_FIELDS_BY_AUDIENCE Staff_audience = STAFF_FIELDS"
| "ORGANIZATION_FIELDS_BY_AUDIENCE Admin_audience = ADMIN_FIELDS"

definition STATUS_SOURCE :: string where
  "STATUS_SOURCE = ''company_status_override, total_candidate, is_request_updates_in_30_days, no_of_active_requests''"

text \<open>Label and source field.\<close>

fun ORGANIZATION_FIELD_CONTRACT :: "org_field_name \<Rightarrow> string \<times> string" where
  "ORGANIZATION_FIELD_CONTRACT Legal_name = (''Company name'', ''company_name'')"
| "ORGANIZATION_FIELD_CONTRACT Common_name_en = (''Common name'', ''company_common_name_en'')"
| "ORGANIZATION_FIELD_CONTRACT Common_name_ar = (''Common name (Arabic)'', ''company_common_name_ar'')"
| "ORGANIZATION_FIELD_CONTRACT Description_en = (''Description'', ''company_description_en'')"
| "ORGANIZATION_FIELD_CONTRACT Description_ar = (''Description (Arabic)'', ''company_description_ar'')"
| "ORGANIZATION_FIELD_CONTRACT Website = (''Website'', ''company_website'')"
| "ORGANIZATION_FIELD_CONTRACT Currency_code = (''Currency'', ''currency_code'')"
| "ORGANIZATION_FIELD_CONTRACT Approved_to_hire = (''Approved to hire'', ''company_approved_to_hire'')"
| "ORGANIZATION_FIELD_CONTRACT Status = (''Status'', STATUS_SOURCE)"
| "ORGANIZATION_FIELD_CONTRACT Hourly_rate = (''Hourly rate'', ''company_hourly_rate'')"
| "ORGANIZATION_FIELD_CONTRACT Email = (''Company email'', ''company_email'')"
| "ORGANIZATION_FIELD_CONTRACT Status_override = (''Status set by staff'', ''company_status_override'')"
| "ORGANIZATION_FIELD_CONTRACT Bonus_commission = (''Bonus commission (%)'', ''company_bonus_commission'')"

definition source_field :: "org_field_name \<Rightarrow> string" where
  "source_field name = snd (ORGANIZATION_FIELD_CONTRACT name)"

section \<open>Values\<close>

definition org_text :: "nat \<Rightarrow> json \<Rightarrow> read_error + field_value" where
  "org_text maxLength v = (case v of JStr s \<Rightarrow> if js_trim s = [] \<or> length s > maxLength then Inl Malformed_value else Inr (FText s)
     | _ \<Rightarrow> Inl Malformed_value)"

definition decimal_shape :: "string \<Rightarrow> bool" where
  "decimal_shape s \<longleftrightarrow> (case js_split (CHR ''.'') s of
       [a] \<Rightarrow> 1 \<le> length a \<and> length a \<le> 10 \<and> list_all digit_char a
     | [a, b] \<Rightarrow> 1 \<le> length a \<and> length a \<le> 10 \<and> list_all digit_char a \<and> 1 \<le> length b \<and> length b \<le> 6 \<and> list_all digit_char b
     | _ \<Rightarrow> False)"

definition org_decimal :: "(rat \<Rightarrow> string) \<Rightarrow> json \<Rightarrow> read_error + field_value" where
  "org_decimal nt v =
     (case (case v of JNum (Some r) \<Rightarrow> if r \<ge> 0 then Some (nt r) else None | JStr s \<Rightarrow> Some s | _ \<Rightarrow> None) of
        Some raw \<Rightarrow> if decimal_shape raw then Inr (FText raw) else Inl Malformed_value
      | None \<Rightarrow> Inl Malformed_value)"

definition org_flag :: "json \<Rightarrow> read_error + field_value" where
  "org_flag v = (if v = JBool True \<or> v = JNum (Some 1) then Inr (FFlag True)
     else if v = JBool False \<or> v = JNum (Some 0) then Inr (FFlag False) else Inl Malformed_value)"

definition upper_letter_code :: "string \<Rightarrow> bool" where
  "upper_letter_code s \<longleftrightarrow> length s = 3 \<and> list_all upper_letter s"

definition org_currency :: "json \<Rightarrow> read_error + field_value" where
  "org_currency v = (case v of JStr s \<Rightarrow> if upper_letter_code s then Inr (FText s) else Inl Malformed_value | _ \<Rightarrow> Inl Malformed_value)"

definition org_counter :: "json \<Rightarrow> read_error + int" where
  "org_counter v = (if nonNegativeInteger (Some v) then Inr (int_of (Some v)) else Inl Malformed_value)"

definition STATUS_CODES :: "json \<Rightarrow> company_status option" where
  "STATUS_CODES v = (if v = JNum (Some 10) then Some Company_active else if v = JNum (Some 9) then Some Under_review else None)"

fun PARSERS :: "org_field_name \<Rightarrow> json \<Rightarrow> read_error + field_value" where
  "PARSERS Legal_name v = org_text 255 v"
| "PARSERS Common_name_en v = org_text 255 v"
| "PARSERS Common_name_ar v = org_text 255 v"
| "PARSERS Description_en v = org_text 10000 v"
| "PARSERS Description_ar v = org_text 10000 v"
| "PARSERS Website v = org_text 2048 v"
| "PARSERS Currency_code v = org_currency v"
| "PARSERS Approved_to_hire v = org_flag v"
| "PARSERS Email v = org_text 255 v"
| "PARSERS _ v = Inl Malformed_value"

definition ORGANIZATION_PROFILE_SOURCES :: "org_field_name \<Rightarrow> string option" where
  "ORGANIZATION_PROFILE_SOURCES = map_of [(Common_name_en, ''name_en''), (Common_name_ar, ''name_ar''), (Description_en, ''description_en''),
     (Description_ar, ''description_ar''), (Website, ''website'')]"

definition available :: "org_field_name \<Rightarrow> field_value \<Rightarrow> org_field" where
  "available name v = Available v (source_field name)"

definition unavailable :: "org_field_name \<Rightarrow> missing_reason \<Rightarrow> org_field" where
  "unavailable name reason = Unavailable reason (source_field name)"

definition storedProfileField :: "org_field_name \<Rightarrow> string \<Rightarrow> org_field" where
  "storedProfileField name v = (case PARSERS name (JStr v) of Inr x \<Rightarrow> available name x | Inl _ \<Rightarrow> unavailable name Not_recorded)"

section \<open>Fields\<close>

definition statusOverride :: "row \<Rightarrow> read_error + org_field" where
  "statusOverride row = (case map_of row ''company_status_override'' of
     None \<Rightarrow> Inr (unavailable Status_override Not_imported)
   | Some raw \<Rightarrow> if raw = JNull \<or> raw = JNum (Some 0) \<or> raw = JBool False then Inr (unavailable Status_override Not_recorded)
       else case STATUS_CODES raw of None \<Rightarrow> Inl Malformed_value | Some s \<Rightarrow> Inr (available Status_override (FStatus s)))"

fun activity :: "row \<Rightarrow> string list \<Rightarrow> bool \<Rightarrow> read_error + org_field" where
  "activity row [] missing = Inr (if missing then unavailable Status Not_imported else available Status (FStatus Company_inactive))"
| "activity row (name # names) missing = (case map_of row name of
     None \<Rightarrow> activity row names True
   | Some v \<Rightarrow> if v = JNull then activity row names True
       else bind_result (org_counter v) (\<lambda>n. if n > 0 then Inr (available Status (FStatus Company_active)) else activity row names missing))"

definition ACTIVITY_COUNTERS :: "string list" where
  "ACTIVITY_COUNTERS = [''total_candidate'', ''is_request_updates_in_30_days'', ''no_of_active_requests'']"

definition deriveOrganizationStatus :: "row \<Rightarrow> status_record option \<Rightarrow> read_error + org_field" where
  "deriveOrganizationStatus row rec = (case rec of
     Some (Status_set s) \<Rightarrow> Inr (available Status (FStatus s))
   | _ \<Rightarrow> bind_result (statusOverride row) (\<lambda>override. case override of
       Available v _ \<Rightarrow> if rec \<noteq> Some Status_cleared then Inr (available Status v) else activity row ACTIVITY_COUNTERS False
     | Unavailable reason _ \<Rightarrow> if rec \<noteq> Some Status_cleared \<and> reason = Not_imported then Inr (unavailable Status Not_imported)
         else activity row ACTIVITY_COUNTERS False))"

definition plainField :: "org_field_name \<Rightarrow> row \<Rightarrow> read_error + org_field" where
  "plainField name row = (case map_of row (source_field name) of
     None \<Rightarrow> Inr (unavailable name Not_imported)
   | Some raw \<Rightarrow> if raw = JNull then Inr (unavailable name Not_recorded) else map_sum id (available name) (PARSERS name raw))"

definition inheritedDecimal :: "(rat \<Rightarrow> string) \<Rightarrow> org_field_name \<Rightarrow> row \<Rightarrow> parent_row \<Rightarrow> read_error + org_field" where
  "inheritedDecimal nt name row parent = (case map_of row (source_field name) of
     None \<Rightarrow> Inr (unavailable name Not_imported)
   | Some own \<Rightarrow> if own \<noteq> JNull then map_sum id (available name) (org_decimal nt own)
       else (case parent of
         No_parent \<Rightarrow> Inr (unavailable name Not_recorded)
       | Parent_unknown \<Rightarrow> Inr (unavailable name Not_imported)
       | Parent_row p \<Rightarrow> (case map_of p (source_field name) of
           None \<Rightarrow> Inr (unavailable name Not_imported)
         | Some v \<Rightarrow> if v = JNull then Inr (unavailable name Not_recorded) else map_sum id (available name) (org_decimal nt v))))"

definition parent_decimal :: "(rat \<Rightarrow> string) \<Rightarrow> org_field_name \<Rightarrow> parent_row \<Rightarrow> term_record \<Rightarrow> read_error + org_field" where
  "parent_decimal nt name parent parentRecord =
     (if parent = No_parent then Inr (unavailable name Not_recorded)
      else case parentRecord of
        Term_value v \<Rightarrow> map_sum id (available name) (org_decimal nt (JStr v))
      | Term_cleared \<Rightarrow> Inr (unavailable name Not_recorded)
      | Term_absent \<Rightarrow> inheritedDecimal nt name [(source_field name, JNull)] parent)"

definition storedDecimal :: "(rat \<Rightarrow> string) \<Rightarrow> org_field_name \<Rightarrow> row option \<Rightarrow> parent_row \<Rightarrow> term_record \<Rightarrow> term_record \<Rightarrow> read_error + org_field" where
  "storedDecimal nt name row parent own parentRecord = (case own of
     Term_value v \<Rightarrow> map_sum id (available name) (org_decimal nt (JStr v))
   | Term_cleared \<Rightarrow> parent_decimal nt name parent parentRecord
   | Term_absent \<Rightarrow> (case row of
       None \<Rightarrow> Inr (unavailable name Not_imported)
     | Some r \<Rightarrow> bind_result (inheritedDecimal nt name r No_parent) (\<lambda>snap. case snap of
           Available _ _ \<Rightarrow> Inr snap
         | Unavailable reason _ \<Rightarrow> if reason = Not_imported then Inr snap else parent_decimal nt name parent parentRecord)))"

definition storedCurrency :: "row option \<Rightarrow> term_record option \<Rightarrow> read_error + org_field" where
  "storedCurrency row rec = (case rec of
     Some (Term_value v) \<Rightarrow> map_sum id (available Currency_code) (org_currency (JStr v))
   | Some Term_cleared \<Rightarrow> Inr (unavailable Currency_code Not_recorded)
   | _ \<Rightarrow> (case row of None \<Rightarrow> Inr (unavailable Currency_code Not_imported) | Some r \<Rightarrow> plainField Currency_code r))"

section \<open>Snapshots\<close>

definition shaped :: "string \<Rightarrow> string \<Rightarrow> bool" where
  "shaped pat s \<longleftrightarrow> list_all2 (\<lambda>p c. c = p \<or> (p = CHR ''0'' \<and> digit_char c)) pat s"

definition observedAt :: "(string \<Rightarrow> bool) \<Rightarrow> row \<Rightarrow> read_error + string" where
  "observedAt dates row = (case map_of row ''imported_at'' of
     Some (JStr v) \<Rightarrow>
       if (\<not> shaped ''0000-00-00T00:00:00Z'' v \<and> \<not> shaped ''0000-00-00T00:00:00.000Z'' v) \<or> \<not> dates v then Inl Malformed_snapshot
       else if map_of row ''source_revision'' \<noteq> Some (JStr ORGANIZATION_PARITY_REVISION) then Inl Unapproved_revision
       else Inr v
   | _ \<Rightarrow> Inl Malformed_snapshot)"

definition snapshotRow :: "(string \<Rightarrow> bool) \<Rightarrow> snapshot \<Rightarrow> string \<Rightarrow> string option \<Rightarrow> read_error + row option" where
  "snapshotRow dates snap orgId parentOrgId = (case snap of
     Found (JObj row) \<Rightarrow> bind_result (observedAt dates row) (\<lambda>_.
       if map_of row ''org_id'' \<noteq> Some (JStr orgId)
          \<or> (case map_of row ''parent_org_id'' of None \<Rightarrow> JNull | Some v \<Rightarrow> v) \<noteq> (case parentOrgId of None \<Rightarrow> JNull | Some p \<Rightarrow> JStr p)
       then Inl Registry_disagrees else Inr (Some row))
   | Found _ \<Rightarrow> Inl Malformed_snapshot
   | _ \<Rightarrow> Inr None)"

section \<open>Projection\<close>

record projection =
  pj_row :: "row option"
  pj_parent :: parent_row
  pj_status :: "status_record option"
  pj_terms :: "(terms_record \<times> terms_record) option"
  pj_approved :: "approved_record option"
  pj_profile :: "(string, string) js_map option"

definition stored_profile :: "projection \<Rightarrow> org_field_name \<Rightarrow> string option" where
  "stored_profile p name = Option.bind (pj_profile p) (\<lambda>profile. Option.bind (ORGANIZATION_PROFILE_SOURCES name) (map_of profile))"

definition term_of :: "org_field_name \<Rightarrow> terms_record \<Rightarrow> term_record" where
  "term_of name t = (if name = Hourly_rate then tm_hourly t else tm_bonus t)"

definition row_field :: "(rat \<Rightarrow> string) \<Rightarrow> projection \<Rightarrow> org_field_name \<Rightarrow> read_error + org_field" where
  "row_field nt p name = (case pj_row p of
     None \<Rightarrow> Inr (unavailable name Not_imported)
   | Some row \<Rightarrow>
       if name = Status then deriveOrganizationStatus row (pj_status p)
       else if name = Status_override then statusOverride row
       else if name = Hourly_rate \<or> name = Bonus_commission then inheritedDecimal nt name row (pj_parent p)
       else plainField name row)"

definition project_field :: "(rat \<Rightarrow> string) \<Rightarrow> projection \<Rightarrow> org_field_name \<Rightarrow> read_error + org_field" where
  "project_field nt p name =
     (case (pj_approved p, pj_terms p, pj_status p, stored_profile p name) of (approved, terms, status, profile) \<Rightarrow>
        if name = Approved_to_hire \<and> (case approved of Some (Approved_value _) \<Rightarrow> True | _ \<Rightarrow> False)
        then (case approved of Some (Approved_value b) \<Rightarrow> Inr (available name (FFlag b)) | _ \<Rightarrow> row_field nt p name)
        else if name = Currency_code \<and> terms \<noteq> None then storedCurrency (pj_row p) (tm_currency (fst (the terms)))
        else if name = Status \<and> (pj_row p \<noteq> None \<or> (case status of Some (Status_set _) \<Rightarrow> True | _ \<Rightarrow> False))
        then deriveOrganizationStatus (case pj_row p of None \<Rightarrow> [] | Some r \<Rightarrow> r) status
        else if name = Status_override \<and> status \<noteq> None \<and> status \<noteq> Some Status_absent
        then Inr (case status of Some (Status_set s) \<Rightarrow> available Status_override (FStatus s) | _ \<Rightarrow> unavailable Status_override Not_recorded)
        else if (name = Hourly_rate \<or> name = Bonus_commission) \<and> terms \<noteq> None
        then storedDecimal nt name (pj_row p) (pj_parent p) (term_of name (fst (the terms))) (term_of name (snd (the terms)))
        else case profile of Some v \<Rightarrow> Inr (storedProfileField name v) | None \<Rightarrow> row_field nt p name)"

fun map_result :: "('a \<Rightarrow> 'e + 'b) \<Rightarrow> 'a list \<Rightarrow> 'e + 'b list" where
  "map_result f [] = Inr []"
| "map_result f (x # xs) = bind_result (f x) (\<lambda>y. bind_result (map_result f xs) (\<lambda>ys. Inr (y # ys)))"

definition projectOrganizationFields :: "(rat \<Rightarrow> string) \<Rightarrow> audience \<Rightarrow> projection \<Rightarrow> read_error + (org_field_name \<times> org_field) list" where
  "projectOrganizationFields nt a p = map_result (\<lambda>name. map_sum id (Pair name) (project_field nt p name)) (ORGANIZATION_FIELDS_BY_AUDIENCE a)"

lemma map_result_append: "map_result f (xs @ ys) = bind_result (map_result f xs) (\<lambda>us. bind_result (map_result f ys) (\<lambda>vs. Inr (us @ vs)))"
  by (induction xs) (simp_all add: bind_result_def split: sum.splits)

lemma map_result_Inr: "map_result f xs = Inr ys \<longleftrightarrow> list_all2 (\<lambda>x y. f x = Inr y) xs ys"
  by (induction xs arbitrary: ys) (auto simp: list_all2_Cons1)

lemma map_result_fst: "map_result (\<lambda>x. map_sum id (Pair x) (f x)) xs = Inr ys \<Longrightarrow> map fst ys = xs \<and> list_all2 (\<lambda>x y. f x = Inr (snd y)) xs ys"
proof (induction xs arbitrary: ys)
  case (Cons x xs)
  then show ?case by (cases "f x") auto
qed simp

lemma projected_names: "projectOrganizationFields nt a p = Inr fs \<Longrightarrow> map fst fs = ORGANIZATION_FIELDS_BY_AUDIENCE a"
  unfolding projectOrganizationFields_def by (drule map_result_fst) simp

lemma projected_prefix:
  assumes "projectOrganizationFields nt Admin_audience p = Inr fs" "ADMIN_FIELDS = ORGANIZATION_FIELDS_BY_AUDIENCE a @ more_names"
  shows "projectOrganizationFields nt a p = Inr (take (length (ORGANIZATION_FIELDS_BY_AUDIENCE a)) fs)"
proof -
  let ?f = "\<lambda>name. map_sum id (Pair name) (project_field nt p name)"
  from assms have "map_result ?f (ORGANIZATION_FIELDS_BY_AUDIENCE a @ more_names) = Inr fs" by (simp add: projectOrganizationFields_def)
  then obtain us vs where us: "map_result ?f (ORGANIZATION_FIELDS_BY_AUDIENCE a) = Inr us" and fs: "fs = us @ vs"
    by (auto simp: map_result_append)
  have "length us = length (ORGANIZATION_FIELDS_BY_AUDIENCE a)" using map_result_fst [OF us] by (metis length_map)
  with us fs show ?thesis by (simp add: projectOrganizationFields_def)
qed

lemma audience_prefix: "\<exists>names. ADMIN_FIELDS = ORGANIZATION_FIELDS_BY_AUDIENCE a @ names"
  by (cases a) (simp_all add: ADMIN_FIELDS_def STAFF_FIELDS_def)

lemma distinct_ADMIN_FIELDS: "distinct ADMIN_FIELDS"
  by (simp add: ADMIN_FIELDS_def STAFF_FIELDS_def EMPLOYER_FIELDS_def)

lemma projected_field: "projectOrganizationFields nt a p = Inr fs \<Longrightarrow> (name, x) \<in> set fs \<Longrightarrow> project_field nt p name = Inr x"
  unfolding projectOrganizationFields_def by (drule map_result_fst) (auto simp: list_all2_conv_all_nth in_set_conv_nth, metis fst_conv nth_map snd_conv)

text \<open>C31. There is one projection, and the audiences read prefixes of it. Whatever is imported and recorded
  for a company, where an admin gets its fields staff and employers get the same values of theirs, in
  the same order; only an admin is shown the bonus commission, only staff and admins the e-mail
  address and the status set by hand.\<close>

theorem audiences_share_one_projection:
  assumes "projectOrganizationFields nt Admin_audience p = Inr fs"
  shows "projectOrganizationFields nt a p = Inr (filter (\<lambda>(name, _). name \<in> set (ORGANIZATION_FIELDS_BY_AUDIENCE a)) fs)
    \<and> map fst fs = ADMIN_FIELDS
    \<and> (projectOrganizationFields nt a p = Inr gs \<longrightarrow> (Bonus_commission \<in> fst ` set gs \<longleftrightarrow> a = Admin_audience)
        \<and> (Email \<in> fst ` set gs \<longleftrightarrow> a \<noteq> Employer_audience) \<and> (Status_override \<in> fst ` set gs \<longleftrightarrow> a \<noteq> Employer_audience))"
proof -
  obtain names where names: "ADMIN_FIELDS = ORGANIZATION_FIELDS_BY_AUDIENCE a @ names" using audience_prefix [of a] by blast
  let ?n = "length (ORGANIZATION_FIELDS_BY_AUDIENCE a)"
  have fs: "map fst fs = ADMIN_FIELDS" using projected_names [OF assms] by simp
  have "distinct (ORGANIZATION_FIELDS_BY_AUDIENCE a @ names)" using distinct_ADMIN_FIELDS names by simp
  then have apart: "set (ORGANIZATION_FIELDS_BY_AUDIENCE a) \<inter> set names = {}" by simp
  have "map fst (take ?n fs) = ORGANIZATION_FIELDS_BY_AUDIENCE a" "map fst (drop ?n fs) = names"
    unfolding take_map [symmetric] drop_map [symmetric] fs names by simp_all
  then have "x \<in> set (take ?n fs) \<Longrightarrow> fst x \<in> set (ORGANIZATION_FIELDS_BY_AUDIENCE a)" "x \<in> set (drop ?n fs) \<Longrightarrow> fst x \<in> set names" for x
    by (metis image_eqI set_map)+
  then have "filter (\<lambda>(name, _). name \<in> set (ORGANIZATION_FIELDS_BY_AUDIENCE a)) (take ?n fs) = take ?n fs"
    "filter (\<lambda>(name, _). name \<in> set (ORGANIZATION_FIELDS_BY_AUDIENCE a)) (drop ?n fs) = []"
    using apart by (intro filter_True filter_False; fastforce)+
  then have "filter (\<lambda>(name, _). name \<in> set (ORGANIZATION_FIELDS_BY_AUDIENCE a)) fs = take ?n fs"
    by (metis append.right_neutral append_take_drop_id filter_append)
  moreover have "set (map fst gs) = set (ORGANIZATION_FIELDS_BY_AUDIENCE a)" if "projectOrganizationFields nt a p = Inr gs"
    using projected_names [OF that] by simp
  ultimately show ?thesis using projected_prefix [OF assms names] fs
    by (cases a) (auto simp: ADMIN_FIELDS_def STAFF_FIELDS_def EMPLOYER_FIELDS_def)
qed


section \<open>What a status means\<close>

text \<open>The override in force: what staff recorded, else the imported one unless it was cleared.\<close>

definition override_in_force :: "row \<Rightarrow> status_record option \<Rightarrow> company_status option" where
  "override_in_force row rec = (case rec of Some (Status_set s) \<Rightarrow> Some s | Some Status_cleared \<Rightarrow> None
     | _ \<Rightarrow> Option.bind (map_of row ''company_status_override'') STATUS_CODES)"

definition counted :: "row \<Rightarrow> string \<Rightarrow> int option" where
  "counted row name = (case map_of row name of None \<Rightarrow> None | Some v \<Rightarrow> if nonNegativeInteger (Some v) then Some (int_of (Some v)) else None)"

lemma activity_cases:
  assumes "activity row names missing = Inr f"
  shows "f = (if \<exists>c \<in> set names. \<exists>n > 0. counted row c = Some n then available Status (FStatus Company_active)
      else if missing \<or> (\<exists>c \<in> set names. counted row c = None) then unavailable Status Not_imported
      else available Status (FStatus Company_inactive))"
  using assms
proof (induction names arbitrary: missing)
  case (Cons c names)
  show ?case
  proof (cases "map_of row c = None \<or> map_of row c = Some JNull")
    case True
    then have "counted row c = None" by (auto simp: counted_def nonNegativeInteger_def safe_integer_def)
    with True Cons.prems Cons.IH [of True] show ?thesis by auto
  next
    case False
    then obtain v where v: "map_of row c = Some v" "v \<noteq> JNull" by auto
    with Cons.prems have "nonNegativeInteger (Some v)" by (auto simp: org_counter_def split: if_splits)
    with v have n: "counted row c = Some (int_of (Some v))" by (simp add: counted_def)
    with v \<open>nonNegativeInteger (Some v)\<close> Cons.prems Cons.IH [of missing] show ?thesis
      by (cases "int_of (Some v) > 0") (auto simp: org_counter_def)
  qed
qed simp

lemma no_codes [simp]: "STATUS_CODES JNull = None" "STATUS_CODES (JNum (Some 0)) = None" "STATUS_CODES (JBool b) = None"
  by (simp_all add: STATUS_CODES_def)

lemma available_inject [simp]: "available name v = available name w \<longleftrightarrow> v = w" "available name v \<noteq> unavailable name r" "unavailable name r \<noteq> available name v"
  by (simp_all add: available_def unavailable_def)

lemma status_cases:
  assumes "deriveOrganizationStatus row rec = Inr f"
  shows "f = (case override_in_force row rec of
      Some s \<Rightarrow> available Status (FStatus s)
    | None \<Rightarrow> if rec \<noteq> Some Status_cleared \<and> map_of row ''company_status_override'' = None then unavailable Status Not_imported
        else if \<exists>c \<in> set ACTIVITY_COUNTERS. \<exists>n > 0. counted row c = Some n then available Status (FStatus Company_active)
        else if \<exists>c \<in> set ACTIVITY_COUNTERS. counted row c = None then unavailable Status Not_imported
        else available Status (FStatus Company_inactive))"
proof -
  have act: "activity row ACTIVITY_COUNTERS False = Inr f \<Longrightarrow> ?thesis"
    if "override_in_force row rec = None" "rec = Some Status_cleared \<or> map_of row ''company_status_override'' \<noteq> None"
    using that activity_cases [of row ACTIVITY_COUNTERS False f] by auto
  show ?thesis
  proof (cases "map_of row ''company_status_override''")
    case None
    with assms act show ?thesis
      by (auto simp: deriveOrganizationStatus_def statusOverride_def override_in_force_def unavailable_def split: option.splits status_record.splits)
  next
    case (Some raw)
    with assms act show ?thesis
      by (auto simp: deriveOrganizationStatus_def statusOverride_def override_in_force_def unavailable_def available_def
          split: option.splits status_record.splits if_splits)
  qed
qed

text \<open>The status of a company is never guessed. When the one derivation answers, it is inactive exactly when
  staff recorded that, or no override is in force and all three activity counters were imported as zero;
  under review exactly by an override; and active only by an override or a positive counter.\<close>

theorem status_is_never_guessed:
  assumes "deriveOrganizationStatus row rec = Inr f"
  shows "(f = available Status (FStatus Company_inactive) \<longleftrightarrow> override_in_force row rec = Some Company_inactive
        \<or> (override_in_force row rec = None \<and> (rec = Some Status_cleared \<or> map_of row ''company_status_override'' \<noteq> None)
           \<and> (\<forall>c \<in> {''total_candidate'', ''is_request_updates_in_30_days'', ''no_of_active_requests''}. counted row c = Some 0)))
    \<and> (f = available Status (FStatus Under_review) \<longleftrightarrow> override_in_force row rec = Some Under_review)
    \<and> (f = available Status (FStatus Company_active) \<longrightarrow> override_in_force row rec = Some Company_active
        \<or> (\<exists>c \<in> set ACTIVITY_COUNTERS. \<exists>n > 0. counted row c = Some n))"
proof -
  have "0 \<le> n" if "counted row c = Some n" for c n
    using that nonNegativeInteger_int_of by (auto simp: counted_def safe_count_def split: option.splits if_splits)
  then have zero: "counted row c = Some 0 \<longleftrightarrow> counted row c \<noteq> None \<and> \<not> (\<exists>n > 0. counted row c = Some n)" for c
    by (metis not_None_eq option.inject order_le_less order_less_irrefl)
  show ?thesis unfolding status_cases [OF assms] by (auto simp: zero ACTIVITY_COUNTERS_def split: option.splits if_splits)
qed


section \<open>The properties at work\<close>

definition demo_company :: row where
  "demo_company = [(''company_name'', JStr ''Acme''), (''company_email'', JStr ''a@b.c''), (''company_bonus_commission'', JStr ''2.5''),
     (''company_status_override'', JNum (Some 0)), (''total_candidate'', JNum (Some 0)), (''is_request_updates_in_30_days'', JNum (Some 0)),
     (''no_of_active_requests'', JNum (Some 0))]"

definition demo_projection :: projection where
  "demo_projection = \<lparr>pj_row = Some demo_company, pj_parent = No_parent, pj_status = None, pj_terms = None, pj_approved = None, pj_profile = None\<rparr>"

lemma demo_status: "deriveOrganizationStatus demo_company None = Inr (available Status (FStatus Company_inactive))"
  by (simp add: deriveOrganizationStatus_def demo_company_def statusOverride_def unavailable_def ACTIVITY_COUNTERS_def org_counter_def
      nonNegativeInteger_def int_of_def safe_integer_def MAX_SAFE_def)

lemma demo_fields: "name \<noteq> Status \<Longrightarrow> \<exists>x. project_field (\<lambda>_. ''0'') demo_projection name = Inr x"
  by (cases name) (simp_all add: project_field_def demo_projection_def stored_profile_def row_field_def demo_company_def plainField_def source_field_def
      org_text_def js_trim_def js_space_def statusOverride_def inheritedDecimal_def org_decimal_def decimal_shape_def digit_char_def)

lemma map_result_ok: "(\<And>x. x \<in> set xs \<Longrightarrow> \<exists>y. f x = Inr y) \<Longrightarrow> \<exists>ys. map_result f xs = Inr ys"
  by (induction xs) fastforce+

lemma demo_projected: "\<exists>fs. projectOrganizationFields (\<lambda>_. ''0'') Admin_audience demo_projection = Inr fs"
proof -
  have "\<exists>x. project_field (\<lambda>_. ''0'') demo_projection name = Inr x" for name
    using demo_fields [of name] demo_status by (cases "name = Status") (simp_all add: project_field_def demo_projection_def stored_profile_def)
  then show ?thesis unfolding projectOrganizationFields_def by (intro map_result_ok) (metis map_sum.simps(2))
qed

theorem audiences_share_one_projection_witness:
  "\<exists>fs gs. projectOrganizationFields (\<lambda>_. ''0'') Admin_audience demo_projection = Inr fs
    \<and> projectOrganizationFields (\<lambda>_. ''0'') Employer_audience demo_projection = Inr gs \<and> map fst fs = ADMIN_FIELDS \<and> Bonus_commission \<notin> fst ` set gs"
proof -
  obtain fs where fs: "projectOrganizationFields (\<lambda>_. ''0'') Admin_audience demo_projection = Inr fs" using demo_projected by blast
  from audiences_share_one_projection [OF fs, of Employer_audience] fs show ?thesis by (auto simp: EMPLOYER_FIELDS_def)
qed

theorem status_is_never_guessed_witness:
  "deriveOrganizationStatus demo_company None = Inr (available Status (FStatus Company_inactive))
    \<and> override_in_force demo_company None = None \<and> counted demo_company ''total_candidate'' = Some 0"
proof -
  have "override_in_force demo_company None = None" by (simp add: override_in_force_def demo_company_def)
  with status_is_never_guessed [OF demo_status] demo_status show ?thesis by simp
qed

end
