(* ===== verification/Org_Access.thy ===== *)
theory Org_Access
  imports Org_Fields
begin

declare map_of_eq_Some_iff [simp del] Some_eq_map_of_iff [simp del]

text \<open>
  Organizations, who reads what: \<^verbatim>\<open>OrganizationRepository\<close> of
  \<^verbatim>\<open>packages/organizations/src/organizations.ts\<close> over the resolver of active contexts, and the
  adapters of \<^verbatim>\<open>adapter.ts\<close>. A port that is not configured is \<open>None\<close>; one that throws
  answers \<open>None\<close>. The reads of one request see one state. \<open>localeCompare\<close>, NFKC, the text of
  a number and \<open>Date.parse\<close> are parameters. \<open>None\<close> as a result is "does not return".
\<close>

section \<open>Ports\<close>

record manager =
  mg_principal :: string
  mg_name :: "string option"

type_synonym 'a reader = "(string \<Rightarrow> 'a option) option"
type_synonym 'a batch_reader = "(string list \<Rightarrow> (string, 'a) js_map option) option"

record org_env =
  oe_reads :: authz_reads
  oe_operators :: "string list"
  oe_snapshot :: "string \<Rightarrow> snapshot option"
  oe_snapshots :: "string list \<Rightarrow> (string, snapshot) js_map option"
  oe_status :: "status_record reader"
  oe_status_many :: "status_record batch_reader"
  oe_terms :: "terms_record reader"
  oe_terms_many :: "terms_record batch_reader"
  oe_approved :: "approved_record reader"
  oe_approved_many :: "approved_record batch_reader"
  oe_store_counts :: "nat batch_reader"
  oe_managers :: "manager batch_reader"
  oe_is_deleted :: "bool reader"
  oe_deleted_among :: "(string list \<Rightarrow> string list option) option"
  oe_profiles :: "(string, string) js_map reader"
  oe_dates :: "string \<Rightarrow> bool"
  oe_number :: "rat \<Rightarrow> string"
  oe_nfkc :: "string \<Rightarrow> string"
  oe_compare :: "string \<Rightarrow> string \<Rightarrow> int"

record org_request =
  rq_principal :: string
  rq_org :: string
  rq_role :: string

datatype 'a answer = Answer 'a | Not_found_answer | Invalid_request | Unavailable_answer

definition port :: "'a option \<Rightarrow> read_error + 'a" where
  "port r = (case r of None \<Rightarrow> Inl Port_failed | Some v \<Rightarrow> Inr v)"

definition ask :: "'a reader \<Rightarrow> string \<Rightarrow> read_error + 'a option" where
  "ask r i = (case r of None \<Rightarrow> Inr None | Some f \<Rightarrow> map_sum id Some (port (f i)))"

definition ask_many :: "'a batch_reader \<Rightarrow> string list \<Rightarrow> read_error + (string, 'a) js_map option" where
  "ask_many r ids = (if ids = [] then Inr None else case r of None \<Rightarrow> Inr None | Some f \<Rightarrow> map_sum id Some (port (f ids)))"

definition answer_of :: "read_error + 'a option \<Rightarrow> 'a answer" where
  "answer_of r = (case r of Inl _ \<Rightarrow> Unavailable_answer | Inr None \<Rightarrow> Not_found_answer | Inr (Some v) \<Rightarrow> Answer v)"

definition memory_snapshot :: "(string, json) js_map \<Rightarrow> string \<Rightarrow> snapshot option" where
  "memory_snapshot rows orgId = Some (case map_of rows orgId of None \<Rightarrow> Missing | Some r \<Rightarrow> Found r)"

definition memory_snapshots :: "(string, json) js_map \<Rightarrow> string list \<Rightarrow> (string, snapshot) js_map option" where
  "memory_snapshots rows orgIds = Some (foldl (\<lambda>m i. AList.update i (case map_of rows i of None \<Rightarrow> Missing | Some r \<Rightarrow> Found r) m) [] orgIds)"

definition unconfigured_snapshot :: "string \<Rightarrow> snapshot option" where
  "unconfigured_snapshot orgId = Some Unconfigured"

definition unconfigured_snapshots :: "string list \<Rightarrow> (string, snapshot) js_map option" where
  "unconfigured_snapshots orgIds = Some (foldl (\<lambda>m i. AList.update i Unconfigured m) [] orgIds)"

section \<open>Hierarchy\<close>

definition DEFAULT_OPERATOR_ORG_IDS :: "string list" where
  "DEFAULT_OPERATOR_ORG_IDS = [''root'']"

definition company_chain :: "organization list \<Rightarrow> string \<Rightarrow> string list \<Rightarrow> string list" where
  "company_chain orgs orgId operators =
     (let chain = ancestorOrgIdsIncludingSelf orgs orgId
      in if chain \<noteq> [] \<and> last chain \<in> set operators then butlast chain else chain)"

definition companyParentOf :: "organization list \<Rightarrow> string \<Rightarrow> string list \<Rightarrow> read_error + string option" where
  "companyParentOf orgs orgId operators =
     (let chain = company_chain orgs orgId operators
      in if chain = [] \<or> list_ex (\<lambda>i. i \<in> set operators) chain then Inl (Hierarchy_violation ''not a company'')
         else if (case Option.bind (find (\<lambda>o'. org_id o' = last chain) orgs) org_parent of None \<Rightarrow> False | Some p \<Rightarrow> p \<notin> set operators)
         then Inl (Hierarchy_violation ''organization ancestry is incomplete or cyclic'')
         else if length chain > 2 then Inl (Hierarchy_violation ''sub-organizations cannot have sub-organizations'')
         else Inr (if length chain > 1 then Some (chain ! 1) else None))"

section \<open>Reading one organization\<close>

definition authorize :: "org_env \<Rightarrow> org_request \<Rightarrow> string \<Rightarrow> read_error + audience option" where
  "authorize env rq orgId =
     (if orgId \<in> set (oe_operators env) then Inr None
      else case ORGANIZATION_AUDIENCE_BY_ROLE (rq_role rq) of
        None \<Rightarrow> Inr None
      | Some a \<Rightarrow>
          (case resolveActiveContext (By_principal (rq_principal rq)) (Some \<lparr>sel_org = Some orgId, sel_role = Some (rq_role rq)\<rparr>) (oe_reads env) of
             Some (Authorized ctx _) \<Rightarrow>
               if ac_org ctx \<noteq> orgId \<or> role_text (ac_role ctx) \<noteq> rq_role rq then Inr None
               else bind_result (ask (oe_is_deleted env) orgId) (\<lambda>deleted. Inr (if deleted = Some True then None else Some a))
           | _ \<Rightarrow> Inr None))"

record org_view =
  ov_audience :: audience
  ov_org :: string
  ov_parent :: "string option"
  ov_name :: string
  ov_observed :: "string option"
  ov_fields :: "(org_field_name \<times> org_field) list"

definition no_terms :: terms_record where
  "no_terms = \<lparr>tm_hourly = Term_absent, tm_bonus = Term_absent, tm_currency = None\<rparr>"

definition or_else :: "'a option \<Rightarrow> 'a \<Rightarrow> 'a" where
  "or_else x d = (case x of None \<Rightarrow> d | Some v \<Rightarrow> v)"

definition parent_snapshot :: "org_env \<Rightarrow> string option \<Rightarrow> read_error + parent_row" where
  "parent_snapshot env parentOrgId = (case parentOrgId of
     None \<Rightarrow> Inr No_parent
   | Some p \<Rightarrow> bind_result (companyParentOf (rd_orgs (oe_reads env)) p (oe_operators env)) (\<lambda>grandparent.
       bind_result (port (oe_snapshot env p)) (\<lambda>snap.
       bind_result (snapshotRow (oe_dates env) snap p grandparent) (\<lambda>row.
         Inr (case row of None \<Rightarrow> Parent_unknown | Some r \<Rightarrow> Parent_row r)))))"

definition organization_view :: "org_env \<Rightarrow> audience \<Rightarrow> organization \<Rightarrow> read_error + org_view" where
  "organization_view env a org =
     bind_result (companyParentOf (rd_orgs (oe_reads env)) (org_id org) (oe_operators env)) (\<lambda>parentOrgId.
     bind_result (port (oe_snapshot env (org_id org))) (\<lambda>snap.
     bind_result (ask (oe_status env) (org_id org)) (\<lambda>statusRecord.
     bind_result (ask (oe_approved env) (org_id org)) (\<lambda>approvedRecord.
     bind_result (ask (oe_profiles env) (org_id org)) (\<lambda>profile.
     bind_result (ask (oe_terms env) (org_id org)) (\<lambda>ownTerms.
     bind_result (snapshotRow (oe_dates env) snap (org_id org) parentOrgId) (\<lambda>row.
     bind_result (parent_snapshot env parentOrgId) (\<lambda>parent.
     bind_result (case parentOrgId of None \<Rightarrow> Inr None | Some p \<Rightarrow> ask (oe_terms env) p) (\<lambda>parentTerms.
     bind_result (case row of None \<Rightarrow> Inr None | Some r \<Rightarrow> map_sum id Some (observedAt (oe_dates env) r)) (\<lambda>observed.
     bind_result (projectOrganizationFields (oe_number env) a \<lparr>pj_row = row, pj_parent = parent, pj_status = statusRecord,
         pj_terms = Some (or_else ownTerms no_terms, or_else parentTerms no_terms), pj_approved = approvedRecord, pj_profile = profile\<rparr>) (\<lambda>fields.
       Inr \<lparr>ov_audience = a, ov_org = org_id org, ov_parent = parentOrgId, ov_name = org_name org, ov_observed = observed, ov_fields = fields\<rparr>)))))))))))"

definition organization_read :: "org_env \<Rightarrow> org_request \<Rightarrow> org_view answer" where
  "organization_read env rq = answer_of (bind_result (authorize env rq (rq_org rq)) (\<lambda>a. case a of
       None \<Rightarrow> Inr None
     | Some aud \<Rightarrow> (case find (\<lambda>o'. org_id o' = rq_org rq) (rd_orgs (oe_reads env)) of
           None \<Rightarrow> Inr None
         | Some org \<Rightarrow> map_sum id Some (organization_view env aud org))))"

section \<open>Sub-organizations\<close>

definition covered_orgs :: "org_env \<Rightarrow> org_request \<Rightarrow> string list option" where
  "covered_orgs env rq = map_option (\<lambda>contexts. map eg_org (filter (\<lambda>c. role_text (eg_role c) = rq_role rq) contexts))
     (listEffectiveContexts (By_principal (rq_principal rq)) (oe_reads env))"

definition deleted_among :: "org_env \<Rightarrow> string list \<Rightarrow> read_error + string list" where
  "deleted_among env ids = (if ids = [] then Inr [] else case oe_deleted_among env of None \<Rightarrow> Inr [] | Some f \<Rightarrow> port (f ids))"

definition children_of :: "org_env \<Rightarrow> string \<Rightarrow> organization list" where
  "children_of env orgId = filter (\<lambda>o'. org_parent o' = Some orgId) (rd_orgs (oe_reads env))"

definition covered_children :: "org_env \<Rightarrow> string list \<Rightarrow> string \<Rightarrow> organization list" where
  "covered_children env covered orgId = filter (\<lambda>child. org_id child \<notin> set (oe_operators env) \<and> org_id child \<in> set covered) (children_of env orgId)"

record sub_summary =
  ss_org :: string
  ss_name :: string
  ss_status :: org_field

text \<open>The order of two listed rows: by registry name, then by id.\<close>

definition listed_before :: "(string \<Rightarrow> string \<Rightarrow> int) \<Rightarrow> string \<times> string \<Rightarrow> string \<times> string \<Rightarrow> bool" where
  "listed_before cmp a b \<longleftrightarrow> (if cmp (fst a) (fst b) \<noteq> 0 then cmp (fst a) (fst b) < 0 else cmp (snd a) (snd b) \<le> 0)"

definition listed_status :: "row option \<Rightarrow> status_record option \<Rightarrow> read_error + org_field" where
  "listed_status row rec = (if row = None \<and> (case rec of Some (Status_set _) \<Rightarrow> False | _ \<Rightarrow> True) then Inr (unavailable Status Not_imported)
     else deriveOrganizationStatus (or_else row []) rec)"

definition batch_status :: "org_env \<Rightarrow> (string, status_record) js_map option \<Rightarrow> string \<Rightarrow> read_error + status_record option" where
  "batch_status env batch orgId = (case batch of Some m \<Rightarrow> Inr (Some (or_else (map_of m orgId) Status_absent)) | None \<Rightarrow> ask (oe_status env) orgId)"

definition sub_summaries :: "org_env \<Rightarrow> string \<Rightarrow> organization list \<Rightarrow> read_error + sub_summary list" where
  "sub_summaries env orgId visible =
     bind_result (if visible = [] then Inr [] else port (oe_snapshots env (map org_id visible))) (\<lambda>snaps.
     bind_result (ask_many (oe_status_many env) (map org_id visible)) (\<lambda>batch.
     map_sum id (js_sort (\<lambda>a b. listed_before (oe_compare env) (ss_name a, ss_org a) (ss_name b, ss_org b)))
       (map_result (\<lambda>child.
          bind_result (snapshotRow (oe_dates env) (or_else (map_of snaps (org_id child)) Missing) (org_id child) (Some orgId)) (\<lambda>row.
          bind_result (batch_status env batch (org_id child)) (\<lambda>rec.
          bind_result (listed_status row rec) (\<lambda>status.
            Inr \<lparr>ss_org = org_id child, ss_name = org_name child, ss_status = status\<rparr>)))) visible)))"

definition nested :: "org_env \<Rightarrow> string \<Rightarrow> read_error + unit" where
  "nested env orgId = bind_result (companyParentOf (rd_orgs (oe_reads env)) orgId (oe_operators env)) (\<lambda>parentOrgId.
     ensure (parentOrgId = None \<or> children_of env orgId = []) (Hierarchy_violation ''nested sub-organizations''))"

definition listSubOrganizations :: "org_env \<Rightarrow> org_request \<Rightarrow> sub_summary list answer option" where
  "listSubOrganizations env rq = (case authorize env rq (rq_org rq) of
     Inl _ \<Rightarrow> Some Unavailable_answer
   | Inr None \<Rightarrow> Some Not_found_answer
   | Inr (Some _) \<Rightarrow> (case nested env (rq_org rq) of
       Inl _ \<Rightarrow> Some Unavailable_answer
     | Inr _ \<Rightarrow> map_option (\<lambda>covered.
         (let children = covered_children env covered (rq_org rq)
          in answer_of (bind_result (deleted_among env (map org_id children)) (\<lambda>deleted.
               map_sum id Some (sub_summaries env (rq_org rq) (filter (\<lambda>child. org_id child \<notin> set deleted) children))))))
         (covered_orgs env rq)))"

record org_counts =
  oc_stores :: "nat option"
  oc_subs :: nat

definition readCounts :: "org_env \<Rightarrow> org_request \<Rightarrow> org_counts answer option" where
  "readCounts env rq = (case authorize env rq (rq_org rq) of
     Inl _ \<Rightarrow> Some Unavailable_answer
   | Inr a \<Rightarrow> if a \<noteq> Some Admin_audience then Some Not_found_answer
     else (case nested env (rq_org rq) of
       Inl _ \<Rightarrow> Some Unavailable_answer
     | Inr _ \<Rightarrow> map_option (\<lambda>covered.
         (let children = map org_id (covered_children env covered (rq_org rq))
          in answer_of (bind_result (deleted_among env children) (\<lambda>deleted.
             bind_result (ask_many (oe_store_counts env) [rq_org rq]) (\<lambda>totals.
               Inr (Some \<lparr>oc_stores = map_option (\<lambda>m. or_else (map_of m (rq_org rq)) 0) totals,
                   oc_subs = length (filter (\<lambda>i. i \<notin> set deleted) children)\<rparr>))))))
         (covered_orgs env rq)))"

section \<open>The directory\<close>

definition ORGANIZATION_DIRECTORY_PAGE_SIZE :: nat where
  "ORGANIZATION_DIRECTORY_PAGE_SIZE = 20"

definition ORGANIZATION_DIRECTORY_ROLES :: "string list" where
  "ORGANIZATION_DIRECTORY_ROLES = [''staff'', ''admin'']"

fun company_status_text :: "company_status \<Rightarrow> string" where
  "company_status_text Company_active = ''active''"
| "company_status_text Under_review = ''under_review''"
| "company_status_text Company_inactive = ''inactive''"

definition DIRECTORY_STATUSES :: "json list" where
  "DIRECTORY_STATUSES = map (JStr \<circ> company_status_text) [Company_active, Under_review, Company_inactive]"

definition manager_ref :: "string \<Rightarrow> bool" where
  "manager_ref s \<longleftrightarrow> 1 \<le> length s \<and> length s \<le> 128 \<and> list_all (\<lambda>c. alnum c \<or> c \<in> set ''._:-'') s"

definition ascii_letter :: "char \<Rightarrow> bool" where
  "ascii_letter c \<longleftrightarrow> (let n = (of_char c :: nat) in (65 \<le> n \<and> n \<le> 90) \<or> (97 \<le> n \<and> n \<le> 122))"

definition validDirectoryFilters :: "row \<Rightarrow> bool" where
  "validDirectoryFilters f \<longleftrightarrow>
     fst ` set f \<subseteq> set [''query'', ''status'', ''approvedToHire'', ''currencyCode'', ''accountManager'']
   \<and> (case map_of f ''query'' of None \<Rightarrow> True | Some (JStr q) \<Rightarrow> js_trim q = q \<and> q \<noteq> [] \<and> length q \<le> 100 | _ \<Rightarrow> False)
   \<and> (case map_of f ''status'' of None \<Rightarrow> True | Some v \<Rightarrow> v \<in> set DIRECTORY_STATUSES)
   \<and> (case map_of f ''approvedToHire'' of None \<Rightarrow> True | Some (JBool _) \<Rightarrow> True | _ \<Rightarrow> False)
   \<and> (case map_of f ''accountManager'' of None \<Rightarrow> True | Some (JStr m) \<Rightarrow> manager_ref m | _ \<Rightarrow> False)
   \<and> (case map_of f ''currencyCode'' of None \<Rightarrow> True | Some (JStr c) \<Rightarrow> length c = 3 \<and> list_all ascii_letter c | _ \<Rightarrow> False)"

definition searchable :: "(string \<Rightarrow> string) \<Rightarrow> string \<Rightarrow> string" where
  "searchable nfkc v = map js_lower (nfkc v)"

fun availableValue :: "org_field \<Rightarrow> field_value option" where
  "availableValue (Available v _) = Some v"
| "availableValue (Unavailable _ _) = None"

record dir_entry =
  de_org :: string
  de_name :: string
  de_subs :: nat
  de_legal :: org_field
  de_en :: org_field
  de_ar :: org_field
  de_currency :: org_field
  de_approved :: org_field
  de_status :: org_field
  de_stores :: "nat option"
  de_manager :: "manager option option"

fun value_text :: "field_value \<Rightarrow> string option" where
  "value_text (FText s) = Some s"
| "value_text (FStatus s) = Some (company_status_text s)"
| "value_text (FFlag _) = None"

definition entry_names :: "dir_entry \<Rightarrow> string list" where
  "entry_names e = de_name e # List.map_filter (\<lambda>f. Option.bind (availableValue f) value_text) [de_legal e, de_en e, de_ar e]"

definition matchesDirectoryFilters :: "(string \<Rightarrow> string) \<Rightarrow> dir_entry \<Rightarrow> row \<Rightarrow> bool" where
  "matchesDirectoryFilters nfkc e f \<longleftrightarrow>
     (case map_of f ''query'' of Some (JStr q) \<Rightarrow> list_ex (\<lambda>name. js_includes (searchable nfkc name) (searchable nfkc q)) (entry_names e) | _ \<Rightarrow> True)
   \<and> (case map_of f ''status'' of Some (JStr s) \<Rightarrow> Option.bind (availableValue (de_status e)) value_text = Some s | _ \<Rightarrow> True)
   \<and> (case map_of f ''approvedToHire'' of Some (JBool b) \<Rightarrow> availableValue (de_approved e) = Some (FFlag b) | _ \<Rightarrow> True)
   \<and> (case map_of f ''currencyCode'' of Some (JStr c) \<Rightarrow> availableValue (de_currency e) = Some (FText (concat (map js_upper c))) | _ \<Rightarrow> True)"

definition directoryEntry :: "organization \<Rightarrow> row option \<Rightarrow> nat \<Rightarrow> status_record option \<Rightarrow> approved_record \<Rightarrow> terms_record option \<Rightarrow> nat option
    \<Rightarrow> manager option option \<Rightarrow> read_error + dir_entry" where
  "directoryEntry org row subs rec approved terms stores mgr =
     (let field = (\<lambda>name. case row of None \<Rightarrow> Inr (unavailable name Not_imported) | Some r \<Rightarrow> plainField name r)
      in bind_result (field Legal_name) (\<lambda>legal. bind_result (field Common_name_en) (\<lambda>en. bind_result (field Common_name_ar) (\<lambda>ar.
         bind_result (storedCurrency row (Option.bind terms tm_currency)) (\<lambda>cur.
         bind_result (case approved of Approved_value b \<Rightarrow> Inr (available Approved_to_hire (FFlag b)) | Approved_absent \<Rightarrow> field Approved_to_hire) (\<lambda>app.
         bind_result (listed_status row rec) (\<lambda>status.
           Inr \<lparr>de_org = org_id org, de_name = org_name org, de_subs = subs, de_legal = legal, de_en = en, de_ar = ar, de_currency = cur,
              de_approved = app, de_status = status, de_stores = stores, de_manager = mgr\<rparr>)))))))"

definition covered_child_count :: "org_env \<Rightarrow> string list \<Rightarrow> string \<Rightarrow> nat" where
  "covered_child_count env covered orgId = length (filter (\<lambda>child. org_id child \<in> set covered) (children_of env orgId))"

text \<open>The loop that keeps the covered top-level companies; a covered row that is not a company stops it.\<close>

fun shown_orgs :: "org_env \<Rightarrow> string list \<Rightarrow> organization list \<Rightarrow> read_error + organization list" where
  "shown_orgs env covered [] = Inr []"
| "shown_orgs env covered (org # orgs) =
     (if org_id org \<notin> set covered then shown_orgs env covered orgs
      else bind_result (companyParentOf (rd_orgs (oe_reads env)) (org_id org) (oe_operators env)) (\<lambda>p.
        if p \<noteq> None then shown_orgs env covered orgs
        else map_sum id ((#) org) (shown_orgs env covered orgs)))"

record dir_batches =
  db_status :: "(string, status_record) js_map option"
  db_approved :: "(string, approved_record) js_map option"
  db_terms :: "(string, terms_record) js_map option"
  db_stores :: "(string, nat) js_map option"
  db_snaps :: "(string, snapshot) js_map"
  db_managers :: "(string, manager) js_map option"

definition directory_batches :: "org_env \<Rightarrow> row \<Rightarrow> string list \<Rightarrow> read_error + dir_batches" where
  "directory_batches env f ids =
     bind_result (ask_many (oe_status_many env) ids) (\<lambda>status.
     bind_result (ask_many (oe_approved_many env) ids) (\<lambda>approved.
     bind_result (ask_many (oe_terms_many env) ids) (\<lambda>terms.
     bind_result (ask_many (oe_store_counts env) ids) (\<lambda>stores.
     bind_result (if ids = [] then Inr [] else port (oe_snapshots env ids)) (\<lambda>snaps.
     bind_result (case ask_many (oe_managers env) ids of
         Inr m \<Rightarrow> Inr m | Inl e \<Rightarrow> if map_of f ''accountManager'' \<noteq> None then Inl e else Inr None) (\<lambda>managers.
       Inr \<lparr>db_status = status, db_approved = approved, db_terms = terms, db_stores = stores, db_snaps = snaps, db_managers = managers\<rparr>))))))"

definition has_manager :: "dir_batches \<Rightarrow> row \<Rightarrow> string \<Rightarrow> bool" where
  "has_manager b f orgId \<longleftrightarrow> (case map_of f ''accountManager'' of None \<Rightarrow> True
     | Some v \<Rightarrow> map_option (\<lambda>m. JStr (mg_principal m)) (Option.bind (db_managers b) (\<lambda>ms. map_of ms orgId)) = Some v)"

definition entry_of :: "org_env \<Rightarrow> dir_batches \<Rightarrow> string list \<Rightarrow> organization \<Rightarrow> read_error + dir_entry" where
  "entry_of env b covered org =
     bind_result (snapshotRow (oe_dates env) (or_else (map_of (db_snaps b) (org_id org)) Missing) (org_id org) None) (\<lambda>row.
     bind_result (batch_status env (db_status b) (org_id org)) (\<lambda>rec.
       directoryEntry org row (covered_child_count env covered (org_id org)) rec
         (or_else (Option.bind (db_approved b) (\<lambda>m. map_of m (org_id org))) Approved_absent)
         (Option.bind (db_terms b) (\<lambda>m. map_of m (org_id org)))
         (map_option (\<lambda>m. or_else (map_of m (org_id org)) 0) (db_stores b))
         (map_option (\<lambda>m. map_of m (org_id org)) (db_managers b))))"

definition entry_before :: "org_env \<Rightarrow> dir_entry \<Rightarrow> dir_entry \<Rightarrow> bool" where
  "entry_before env a b \<longleftrightarrow> listed_before (oe_compare env) (de_name a, de_org a) (de_name b, de_org b)"

definition directory_entries :: "org_env \<Rightarrow> row \<Rightarrow> string list \<Rightarrow> read_error + dir_entry list" where
  "directory_entries env f covered0 =
     bind_result (deleted_among env covered0) (\<lambda>deleted.
     let covered = filter (\<lambda>i. i \<notin> set deleted) covered0
     in bind_result (shown_orgs env covered (rd_orgs (oe_reads env))) (\<lambda>shown.
        bind_result (directory_batches env f (map org_id shown)) (\<lambda>b.
        map_sum id (\<lambda>es. js_sort (entry_before env) (filter (\<lambda>e. matchesDirectoryFilters (oe_nfkc env) e f) es))
          (map_result (entry_of env b covered) (filter (\<lambda>org. has_manager b f (org_id org)) shown)))))"

record directory =
  dr_entries :: "dir_entry list"
  dr_page :: int
  dr_total :: nat

definition directory_page :: "int \<Rightarrow> dir_entry list \<Rightarrow> directory" where
  "directory_page n entries = \<lparr>dr_entries = take ORGANIZATION_DIRECTORY_PAGE_SIZE (drop (nat ((n - 1) * int ORGANIZATION_DIRECTORY_PAGE_SIZE)) entries),
     dr_page = n, dr_total = length entries\<rparr>"

definition listed_org :: "org_env \<Rightarrow> string list \<Rightarrow> string list \<Rightarrow> string list" where
  "listed_org env below covered = js_unique (filter (\<lambda>i. i \<in> set below \<and> i \<notin> set (oe_operators env)) covered)"

definition directory_number :: "json option \<Rightarrow> int option" where
  "directory_number v = (if nullish v then Some 1 else case safe_integer v of Some n \<Rightarrow> if n < 1 then None else Some n | None \<Rightarrow> None)"

definition directory_listOrganizations :: "org_env \<Rightarrow> org_request \<Rightarrow> row option \<Rightarrow> json option \<Rightarrow> directory answer option" where
  "directory_listOrganizations env rq filters pageV =
     (if rq_role rq \<notin> set ORGANIZATION_DIRECTORY_ROLES then Some Not_found_answer
      else case (or_else filters [], directory_number pageV) of
        (f, Some n) \<Rightarrow>
          if \<not> validDirectoryFilters f then Some Invalid_request
          else (case resolveActiveContext (By_principal (rq_principal rq)) (Some \<lparr>sel_org = Some (rq_org rq), sel_role = Some (rq_role rq)\<rparr>) (oe_reads env) of
            Some (Authorized ctx _) \<Rightarrow>
              if ac_org ctx \<noteq> rq_org rq \<or> role_text (ac_role ctx) \<noteq> rq_role rq then Some Not_found_answer
              else (case covered_orgs env rq of
                None \<Rightarrow> None
              | Some covered \<Rightarrow> (case ask (oe_is_deleted env) (rq_org rq) of
                  Inl _ \<Rightarrow> Some Unavailable_answer
                | Inr (Some True) \<Rightarrow> Some Not_found_answer
                | _ \<Rightarrow> if map_of f ''accountManager'' \<noteq> None \<and> oe_managers env = None then Some Unavailable_answer
                    else (case descendantOrgIdsIncludingSelf (rd_orgs (oe_reads env)) (rq_org rq) of
                      None \<Rightarrow> None
                    | Some below \<Rightarrow> Some (answer_of (map_sum id (\<lambda>es. Some (directory_page n es)) (directory_entries env f (listed_org env below covered)))))))
          | Some (Denied _) \<Rightarrow> Some Not_found_answer
          | None \<Rightarrow> None)
      | _ \<Rightarrow> Some Invalid_request)"

section \<open>Permission\<close>

text \<open>The caller may act at the organization in the role asked for, by a grant that covers it now.\<close>

definition permitted :: "authz_reads \<Rightarrow> org_request \<Rightarrow> string \<Rightarrow> bool" where
  "permitted rd rq orgId \<longleftrightarrow> (\<exists>pid r. resolvePrincipalId (By_principal (rq_principal rq)) rd = Some pid \<and> rq_role rq = role_text r
     \<and> rd_org rd orgId \<noteq> None \<and> may_act rd pid orgId r)"

lemma resolve_permitted:
  assumes "reads_ok rd"
  shows "\<exists>res. resolveActiveContext (By_principal (rq_principal rq)) (Some \<lparr>sel_org = Some orgId, sel_role = Some (rq_role rq)\<rparr>) rd = Some res
    \<and> (if permitted rd rq orgId then \<exists>ctx roles. res = Authorized ctx roles \<and> ac_org ctx = orgId \<and> role_text (ac_role ctx) = rq_role rq
       else \<exists>reason. res = Denied reason)"
proof (cases "resolvePrincipalId (By_principal (rq_principal rq)) rd")
  case None
  then show ?thesis by (simp add: resolveActiveContext_def permitted_def)
next
  case (Some pid)
  have run: "resolveActiveContext (By_principal (rq_principal rq)) (Some \<lparr>sel_org = Some orgId, sel_role = Some (rq_role rq)\<rparr>) rd
      = Some (resolve_at_org pid orgId (Some (rq_role rq)) rd)"
    using resolve_targeted [OF Some, of orgId "Some (rq_role rq)"] by simp
  show ?thesis
  proof (cases "resolve_at_org pid orgId (Some (rq_role rq)) rd")
    case (Authorized ctx roles)
    from resolve_at_org_Authorized [OF assms, THEN iffD1, OF Authorized] obtain g where
      "rd_org rd orgId \<noteq> None" and role: "rq_role rq = role_text (ac_role ctx)" and g: "nearest_grant rd pid orgId (ac_role ctx) g" "ctx = context_of pid (grant_at orgId g)"
      by auto
    moreover have "may_act rd pid orgId (ac_role ctx)" using g(1) by (auto simp: nearest_grant_def may_act_def)
    ultimately have "permitted rd rq orgId" using Some by (auto simp: permitted_def)
    with run Authorized role g(2) show ?thesis by (auto simp: context_of_def)
  next
    case (Denied reason)
    have "\<not> permitted rd rq orgId"
      using resolve_at_org_Denied [OF assms, THEN iffD1, OF Denied] Some by (auto simp: permitted_def split: if_splits)
    with run Denied show ?thesis by simp
  qed
qed

definition readable :: "org_env \<Rightarrow> org_request \<Rightarrow> bool" where
  "readable env rq \<longleftrightarrow> rq_org rq \<notin> set (oe_operators env) \<and> ORGANIZATION_AUDIENCE_BY_ROLE (rq_role rq) \<noteq> None
     \<and> permitted (oe_reads env) rq (rq_org rq) \<and> ask (oe_is_deleted env) (rq_org rq) \<noteq> Inr (Some True)"

lemma authorize_readable:
  assumes "reads_ok (oe_reads env)"
  shows "if readable env rq then authorize env rq (rq_org rq) = Inr (ORGANIZATION_AUDIENCE_BY_ROLE (rq_role rq)) \<or> (\<exists>e. authorize env rq (rq_org rq) = Inl e)
     else authorize env rq (rq_org rq) = Inr None"
  using resolve_permitted [OF assms, of rq "rq_org rq"]
  by (cases "ask (oe_is_deleted env) (rq_org rq)") (auto simp: authorize_def readable_def split: option.splits if_splits)

lemma authorize_deleted:
  assumes "reads_ok (oe_reads env)" "readable env rq"
  shows "authorize env rq (rq_org rq) = map_sum id (\<lambda>_. ORGANIZATION_AUDIENCE_BY_ROLE (rq_role rq)) (ask (oe_is_deleted env) (rq_org rq))"
proof -
  from assms(2) have r: "rq_org rq \<notin> set (oe_operators env)" "ORGANIZATION_AUDIENCE_BY_ROLE (rq_role rq) \<noteq> None"
    "permitted (oe_reads env) rq (rq_org rq)" "ask (oe_is_deleted env) (rq_org rq) \<noteq> Inr (Some True)" by (auto simp: readable_def)
  from resolve_permitted [OF assms(1), of rq "rq_org rq"] r(3) obtain ctx roles where
    "resolveActiveContext (By_principal (rq_principal rq)) (Some \<lparr>sel_org = Some (rq_org rq), sel_role = Some (rq_role rq)\<rparr>) (oe_reads env) = Some (Authorized ctx roles)"
    "ac_org ctx = rq_org rq" "role_text (ac_role ctx) = rq_role rq" by auto
  then show ?thesis using r(1,2,4) by (cases "ask (oe_is_deleted env) (rq_org rq)") (auto simp: authorize_def split: option.splits)
qed

lemma answer_of_simps [simp]: "answer_of r = Not_found_answer \<longleftrightarrow> r = Inr None" "answer_of r = Answer v \<longleftrightarrow> r = Inr (Some v)"
  "answer_of r \<noteq> Invalid_request"
  by (auto simp: answer_of_def split: sum.splits option.splits)

lemma view_fields:
  assumes "organization_view env a org = Inr v"
  shows "ov_audience v = a \<and> ov_org v = org_id org \<and> map fst (ov_fields v) = ORGANIZATION_FIELDS_BY_AUDIENCE a
    \<and> companyParentOf (rd_orgs (oe_reads env)) (org_id org) (oe_operators env) = Inr (ov_parent v)"
  using assms projected_names by (auto simp: organization_view_def)

lemma known_found: "reads_ok rd \<Longrightarrow> rd_org rd i \<noteq> None \<Longrightarrow> \<exists>org. find (\<lambda>o'. org_id o' = i) (rd_orgs rd) = Some org \<and> org_id org = i"
proof -
  assume "reads_ok rd" "rd_org rd i \<noteq> None"
  then have "i \<in> org_id ` set (rd_orgs rd)" by (auto simp: reads_ok_def)
  then have "find (\<lambda>o'. org_id o' = i) (rd_orgs rd) \<noteq> None" by (auto simp: find_None_iff)
  then show ?thesis using find_SomeD by fastforce
qed

text \<open>The view of a company, from the answers of the ports about that company and, for what it inherits,
  about its parent. \<open>inputs_of\<close> says what the projection is given.\<close>

definition parent_of_company :: "org_env \<Rightarrow> string \<Rightarrow> string option \<Rightarrow> bool" where
  "parent_of_company env i p \<longleftrightarrow> companyParentOf (rd_orgs (oe_reads env)) i (oe_operators env) = Inr p"

definition parent_imported :: "org_env \<Rightarrow> string option \<Rightarrow> parent_row \<Rightarrow> bool" where
  "parent_imported env parent r \<longleftrightarrow> (case parent of
     None \<Rightarrow> r = No_parent
   | Some p \<Rightarrow> \<exists>above snap row. parent_of_company env p above \<and> port (oe_snapshot env p) = Inr snap \<and> snapshotRow (oe_dates env) snap p above = Inr row
       \<and> r = (case row of None \<Rightarrow> Parent_unknown | Some x \<Rightarrow> Parent_row x))"

definition terms_recorded :: "org_env \<Rightarrow> string \<Rightarrow> terms_record \<Rightarrow> bool" where
  "terms_recorded env i t \<longleftrightarrow> (\<exists>recorded. ask (oe_terms env) i = Inr recorded \<and> t = or_else recorded no_terms)"

definition inputs_of :: "org_env \<Rightarrow> string \<Rightarrow> string option \<Rightarrow> projection \<Rightarrow> bool" where
  "inputs_of env i parent x \<longleftrightarrow> (\<exists>snap own above.
     port (oe_snapshot env i) = Inr snap \<and> snapshotRow (oe_dates env) snap i parent = Inr (pj_row x) \<and> parent_imported env parent (pj_parent x)
   \<and> ask (oe_status env) i = Inr (pj_status x) \<and> ask (oe_approved env) i = Inr (pj_approved x) \<and> ask (oe_profiles env) i = Inr (pj_profile x)
   \<and> terms_recorded env i own \<and> (case parent of None \<Rightarrow> above = no_terms | Some p \<Rightarrow> terms_recorded env p above) \<and> pj_terms x = Some (own, above))"

definition view_of_company :: "org_env \<Rightarrow> audience \<Rightarrow> string \<Rightarrow> org_view \<Rightarrow> bool" where
  "view_of_company env a i v \<longleftrightarrow> ov_audience v = a \<and> ov_org v = i
   \<and> (\<exists>org \<in> set (rd_orgs (oe_reads env)). org_id org = i \<and> ov_name v = org_name org) \<and> parent_of_company env i (ov_parent v)
   \<and> (\<exists>x. inputs_of env i (ov_parent v) x \<and> projectOrganizationFields (oe_number env) a x = Inr (ov_fields v)
        \<and> (case pj_row x of None \<Rightarrow> ov_observed v = None | Some r \<Rightarrow> \<exists>t. observedAt (oe_dates env) r = Inr t \<and> ov_observed v = Some t))"

lemma parent_snapshot_iff: "parent_snapshot env parent = Inr r \<longleftrightarrow> parent_imported env parent r"
  by (auto simp: parent_snapshot_def parent_imported_def parent_of_company_def split: option.splits)

lemma organization_view_iff:
  assumes "distinct (map org_id (rd_orgs (oe_reads env)))" "org \<in> set (rd_orgs (oe_reads env))"
  shows "organization_view env a org = Inr v \<longleftrightarrow> view_of_company env a (org_id org) v"
proof
  assume "organization_view env a org = Inr v"
  then obtain snap own above row observed parentTerms parent statusRecord approvedRecord profile where
    "companyParentOf (rd_orgs (oe_reads env)) (org_id org) (oe_operators env) = Inr (ov_parent v)" "port (oe_snapshot env (org_id org)) = Inr snap"
    "ask (oe_status env) (org_id org) = Inr statusRecord" "ask (oe_approved env) (org_id org) = Inr approvedRecord"
    "ask (oe_profiles env) (org_id org) = Inr profile" "ask (oe_terms env) (org_id org) = Inr own"
    "snapshotRow (oe_dates env) snap (org_id org) (ov_parent v) = Inr row" "parent_snapshot env (ov_parent v) = Inr parent"
    and above: "(case ov_parent v of None \<Rightarrow> Inr None | Some p \<Rightarrow> ask (oe_terms env) p) = Inr parentTerms"
    and observed: "(case row of None \<Rightarrow> Inr None | Some r \<Rightarrow> map_sum id Some (observedAt (oe_dates env) r)) = Inr (ov_observed v)"
    and fields: "projectOrganizationFields (oe_number env) a \<lparr>pj_row = row, pj_parent = parent, pj_status = statusRecord,
         pj_terms = Some (or_else own no_terms, or_else parentTerms no_terms), pj_approved = approvedRecord, pj_profile = profile\<rparr> = Inr (ov_fields v)"
    and v: "ov_audience v = a" "ov_org v = org_id org" "ov_name v = org_name org"
    unfolding organization_view_def by (auto)
  moreover have "case ov_parent v of None \<Rightarrow> or_else parentTerms no_terms = no_terms | Some p \<Rightarrow> terms_recorded env p (or_else parentTerms no_terms)"
    using above by (cases "ov_parent v") (auto simp: terms_recorded_def or_else_def [of None])
  moreover have "case row of None \<Rightarrow> ov_observed v = None | Some r \<Rightarrow> \<exists>t. observedAt (oe_dates env) r = Inr t \<and> ov_observed v = Some t"
    using observed by (auto simp: map_sum_def split: option.splits sum.splits)
  ultimately show "view_of_company env a (org_id org) v"
    unfolding view_of_company_def parent_of_company_def inputs_of_def parent_snapshot_iff using assms(2) v fields
    by (intro conjI bexI [of _ org] exI [of _ "\<lparr>pj_row = row, pj_parent = parent, pj_status = statusRecord,
         pj_terms = Some (or_else own no_terms, or_else parentTerms no_terms), pj_approved = approvedRecord, pj_profile = profile\<rparr>"])
      (auto simp: terms_recorded_def)
next
  assume "view_of_company env a (org_id org) v"
  then obtain org' x where org': "org' \<in> set (rd_orgs (oe_reads env))" "org_id org' = org_id org" "ov_name v = org_name org'"
    and v: "ov_audience v = a" "ov_org v = org_id org" "parent_of_company env (org_id org) (ov_parent v)" and x: "inputs_of env (org_id org) (ov_parent v) x"
    and fields: "projectOrganizationFields (oe_number env) a x = Inr (ov_fields v)"
    and observed: "case pj_row x of None \<Rightarrow> ov_observed v = None | Some r \<Rightarrow> \<exists>t. observedAt (oe_dates env) r = Inr t \<and> ov_observed v = Some t"
    unfolding view_of_company_def by blast
  have "org' = org" using assms org'(1,2) by (meson distinct_map inj_onD)
  from x obtain snap own above where port: "port (oe_snapshot env (org_id org)) = Inr snap" "snapshotRow (oe_dates env) snap (org_id org) (ov_parent v) = Inr (pj_row x)"
      "parent_snapshot env (ov_parent v) = Inr (pj_parent x)" "ask (oe_status env) (org_id org) = Inr (pj_status x)"
      "ask (oe_approved env) (org_id org) = Inr (pj_approved x)" "ask (oe_profiles env) (org_id org) = Inr (pj_profile x)"
    and own: "terms_recorded env (org_id org) own" and above: "case ov_parent v of None \<Rightarrow> above = no_terms | Some p \<Rightarrow> terms_recorded env p above"
    and terms: "pj_terms x = Some (own, above)"
    unfolding inputs_of_def parent_snapshot_iff by blast
  obtain ownTerms where own': "ask (oe_terms env) (org_id org) = Inr ownTerms" "own = or_else ownTerms no_terms" using own by (auto simp: terms_recorded_def)
  obtain parentTerms where above': "(case ov_parent v of None \<Rightarrow> Inr None | Some p \<Rightarrow> ask (oe_terms env) p) = Inr parentTerms" "above = or_else parentTerms no_terms"
    using above by (cases "ov_parent v") (auto simp: terms_recorded_def or_else_def [of None])
  have row: "(case pj_row x of None \<Rightarrow> Inr None | Some r \<Rightarrow> map_sum id Some (observedAt (oe_dates env) r)) = Inr (ov_observed v)"
    using observed by (auto split: option.splits)
  have input: "\<lparr>pj_row = pj_row x, pj_parent = pj_parent x, pj_status = pj_status x, pj_terms = Some (or_else ownTerms no_terms, or_else parentTerms no_terms),
      pj_approved = pj_approved x, pj_profile = pj_profile x\<rparr> = x" using terms own'(2) above'(2) by simp
  show "organization_view env a org = Inr v"
    using v(3) unfolding parent_of_company_def organization_view_def
    by (simp only: bind_result_simps port own'(1) above'(1) row input fields) (use v org'(3) \<open>org' = org\<close> in simp)
qed

text \<open>C28. Reading a company tells nothing to those who may not, and the company itself to those who may. On
  every reachable store, whatever was imported and recorded, the answer is "not found" exactly for a caller
  without permission: an operator organization, a role without a projection, no covering grant for that
  role there now, a deleted company. A view is answered exactly for a caller with permission, when
  every port that is asked answers, and it is the view of that company for the audience of the role: its own
  name, its parent in the hierarchy, its own imported row, status, approval, profile and terms, and the
  parent's row and terms for what it inherits. In every other case the answer is "unavailable".\<close>

theorem reading_needs_permission:
  assumes "reachable_store st" "oe_reads env = reads_of st"
  shows "(organization_read env rq = Not_found_answer \<longleftrightarrow> \<not> readable env rq)
    \<and> (organization_read env rq = Answer v \<longleftrightarrow> readable env rq \<and> (\<exists>deleted. ask (oe_is_deleted env) (rq_org rq) = Inr deleted)
        \<and> (\<exists>a. ORGANIZATION_AUDIENCE_BY_ROLE (rq_role rq) = Some a \<and> view_of_company env a (rq_org rq) v))
    \<and> organization_read env rq \<noteq> Invalid_request"
proof -
  have ok: "reads_ok (oe_reads env)" using reads_of_ok [OF reachable_store_ok [OF assms(1)]] assms(2) by simp
  note auth = authorize_readable [OF ok, of rq]
  have valid: "organization_read env rq \<noteq> Invalid_request" by (simp add: organization_read_def)
  show ?thesis
  proof (cases "readable env rq")
    case False
    with auth valid show ?thesis by (simp add: organization_read_def)
  next
    case True
    then have "rd_org (oe_reads env) (rq_org rq) \<noteq> None" and aud: "ORGANIZATION_AUDIENCE_BY_ROLE (rq_role rq) \<noteq> None"
      by (auto simp: readable_def permitted_def)
    from known_found [OF ok this(1)] obtain org where
      org: "find (\<lambda>o'. org_id o' = rq_org rq) (rd_orgs (oe_reads env)) = Some org" "org_id org = rq_org rq" by blast
    have listed: "org \<in> set (rd_orgs (oe_reads env))" using find_SomeD [OF org(1)] by blast
    have ids: "distinct (map org_id (rd_orgs (oe_reads env)))" using ok by (simp add: reads_ok_def)
    from aud obtain a where a: "ORGANIZATION_AUDIENCE_BY_ROLE (rq_role rq) = Some a" by blast
    show ?thesis
    proof (cases "ask (oe_is_deleted env) (rq_org rq)")
      case (Inl e)
      have "\<exists>e. authorize env rq (rq_org rq) = Inl e" using auth True Inl authorize_deleted [OF ok True] by simp
      then show ?thesis using True Inl by (auto simp: organization_read_def)
    next
      case (Inr deleted)
      have "authorize env rq (rq_org rq) = Inr (Some a)" using authorize_deleted [OF ok True] Inr a by simp
      then have read: "organization_read env rq = answer_of (map_sum id Some (organization_view env a org))"
        by (simp add: organization_read_def org)
      show ?thesis using True a Inr organization_view_iff [OF ids listed, of a v, unfolded org(2)]
        unfolding read by (cases "organization_view env a org") auto
    qed
  qed
qed

section \<open>Reading at work\<close>

text \<open>Nothing imported, nothing recorded; the operator is the root of the sample tree.\<close>

definition demo_env :: org_env where
  "demo_env = \<lparr>oe_reads = reads_of granted_store, oe_operators = [''hq''], oe_snapshot = memory_snapshot [], oe_snapshots = memory_snapshots [],
     oe_status = None, oe_status_many = None, oe_terms = None, oe_terms_many = None, oe_approved = None, oe_approved_many = None,
     oe_store_counts = None, oe_managers = None, oe_is_deleted = None, oe_deleted_among = None, oe_profiles = None, oe_dates = (\<lambda>_. True),
     oe_number = (\<lambda>_. ''0''), oe_nfkc = id, oe_compare = (\<lambda>a b. if a < b then -1 else if a = b then 0 else 1)\<rparr>"

definition demo_request :: "string \<Rightarrow> string \<Rightarrow> org_request" where
  "demo_request orgId r = \<lparr>rq_principal = ''p1'', rq_org = orgId, rq_role = r\<rparr>"

lemma demo_principal: "resolvePrincipalId (By_principal ''p1'') (reads_of granted_store) = Some ''p1''"
  by (simp add: reads_of_def resolvePrincipalId_def getPrincipal_def granted_store_def grantMany_def Let_def normalize_staff
      listGrantsForPrincipal_def sample_store_fields keys_of_rows_def sample_principal_def comp_def)

lemma demo_tree: "(''hq'', ''kw'') \<in> (tree_rel sample_orgs)\<^sup>*" "(''hq'', ''shop'') \<in> (tree_rel sample_orgs)\<^sup>*"
proof -
  have "(''hq'', ''kw'') \<in> tree_rel sample_orgs" "(''kw'', ''shop'') \<in> tree_rel sample_orgs"
    by (simp_all add: parent_rel_def by_id_def sample_orgs_def)
  then show "(''hq'', ''kw'') \<in> (tree_rel sample_orgs)\<^sup>*" "(''hq'', ''shop'') \<in> (tree_rel sample_orgs)\<^sup>*" by (blast intro: rtrancl_trans)+
qed

lemma demo_permitted: "permitted (reads_of granted_store) (demo_request orgId r) i \<longleftrightarrow> i \<in> {''hq'', ''kw'', ''shop''} \<and> r = ''staff''"
proof -
  have "role_text Staff = ''staff''" by simp
  then show ?thesis using demo_tree
    by (auto simp: permitted_def demo_request_def demo_principal sample_reads may_act_def grant_covers_def sample_orgs_def [of] staff_row_def
        map_of_eq_None_iff split: if_splits)
qed

theorem reading_needs_permission_witness:
  "readable demo_env (demo_request ''shop'' ''staff'') \<and> organization_read demo_env (demo_request ''shop'' ''staff'') \<noteq> Not_found_answer
    \<and> organization_read demo_env (demo_request ''shop'' ''admin'') = Not_found_answer"
proof -
  have env: "oe_reads demo_env = reads_of granted_store" by (simp add: demo_env_def)
  have "readable demo_env (demo_request ''shop'' ''staff'')" "\<not> readable demo_env (demo_request ''shop'' ''admin'')"
    using demo_permitted [of "''shop''" "''staff''" "''shop''"] demo_permitted [of "''shop''" "''admin''" "''shop''"]
    by (simp_all add: readable_def env) (simp_all add: demo_env_def demo_request_def ORGANIZATION_AUDIENCE_BY_ROLE_def ask_def)
  with reading_needs_permission [OF granted_reachable env] show ?thesis by blast
qed

end
