(* ===== verification/Org_Decisions.thy ===== *)
theory Org_Decisions
  imports Org_Access
begin

declare map_of_eq_Some_iff [simp del] Some_eq_map_of_iff [simp del]

text \<open>
  Organizations, who may write what, from which values, and what the small lists show: the decision,
  value and view functions of \<^verbatim>\<open>packages/organizations/src\<close> (stores, status, deletion, terms,
  account managers, brands, notes, creation). The grant rows and ancestors are what the database
  answered; \<open>localeCompare\<close>, instants and their text are arguments.
\<close>

section \<open>Decisions\<close>

record grant_row =
  gr_org :: string
  gr_role :: string
  gr_scope :: string

definition row_covers :: "string \<Rightarrow> string list \<Rightarrow> grant_row \<Rightarrow> bool" where
  "row_covers orgId ancestors r \<longleftrightarrow> gr_org r = orgId \<or> (gr_scope r = ''subtree'' \<and> gr_org r \<in> set ancestors)"

definition WRITE_ROLES :: "string list" where
  "WRITE_ROLES = [''staff'', ''admin'', ''org-owner'']"

definition READ_ROLES :: "string list" where
  "READ_ROLES = [''staff'', ''admin'', ''org-owner'', ''recruiter'']"

definition covers :: "grant_row list \<Rightarrow> string list \<Rightarrow> string \<Rightarrow> string list \<Rightarrow> bool" where
  "covers rows roles orgId ancestors \<longleftrightarrow> list_ex (\<lambda>r. gr_role r \<in> set roles \<and> row_covers orgId ancestors r) rows"

definition organizationStoreWriteDecision :: "grant_row list \<Rightarrow> string \<Rightarrow> string list \<Rightarrow> string list \<Rightarrow> bool" where
  "organizationStoreWriteDecision rows orgId ancestors operators \<longleftrightarrow> orgId \<notin> set operators \<and> covers rows WRITE_ROLES orgId ancestors"

definition organizationStoreReadDecision :: "grant_row list \<Rightarrow> string \<Rightarrow> string list \<Rightarrow> string list \<Rightarrow> bool" where
  "organizationStoreReadDecision rows orgId ancestors operators \<longleftrightarrow> orgId \<notin> set operators \<and> covers rows READ_ROLES orgId ancestors"

definition organizationStatusDecision :: "grant_row list \<Rightarrow> string \<Rightarrow> string list \<Rightarrow> string list \<Rightarrow> bool" where
  "organizationStatusDecision rows orgId ancestors operators \<longleftrightarrow>
     (if orgId \<in> set operators then False
      else list_ex (\<lambda>r. (gr_role r = ''staff'' \<or> gr_role r = ''admin'') \<and> row_covers orgId ancestors r) rows)"

definition organizationApprovedToHireDecision :: "grant_row list \<Rightarrow> string \<Rightarrow> string list \<Rightarrow> string list \<Rightarrow> bool" where
  "organizationApprovedToHireDecision rows orgId ancestors operators \<longleftrightarrow>
     orgId \<notin> set operators \<and> list_ex (\<lambda>r. (gr_role r = ''staff'' \<or> gr_role r = ''admin'') \<and> row_covers orgId ancestors r) rows"

definition organizationNoteDecision :: "grant_row list \<Rightarrow> string \<Rightarrow> string list \<Rightarrow> string list \<Rightarrow> bool" where
  "organizationNoteDecision rows orgId ancestors operators \<longleftrightarrow>
     orgId \<notin> set operators \<and> list_ex (\<lambda>r. (gr_role r = ''staff'' \<or> gr_role r = ''admin'') \<and> row_covers orgId ancestors r) rows"

definition organizationBrandDecision :: "grant_row list \<Rightarrow> string \<Rightarrow> string list \<Rightarrow> string list \<Rightarrow> bool" where
  "organizationBrandDecision rows orgId ancestors operators \<longleftrightarrow>
     orgId \<notin> set operators \<and> list_ex (\<lambda>r. (gr_role r = ''staff'' \<or> gr_role r = ''admin'') \<and> row_covers orgId ancestors r) rows"

definition organizationDeletionDecision :: "grant_row list \<Rightarrow> string \<Rightarrow> string list \<Rightarrow> string list \<Rightarrow> bool" where
  "organizationDeletionDecision rows orgId ancestors operators \<longleftrightarrow>
     orgId \<notin> set operators \<and> list_ex (\<lambda>r. gr_role r = ''admin'' \<and> row_covers orgId ancestors r) rows"

definition organizationCommercialTermsDecision :: "grant_row list \<Rightarrow> string \<Rightarrow> string list \<Rightarrow> string list \<Rightarrow> bool" where
  "organizationCommercialTermsDecision rows orgId ancestors operators \<longleftrightarrow>
     orgId \<notin> set operators \<and> list_ex (\<lambda>r. gr_role r = ''admin'' \<and> row_covers orgId ancestors r) rows"

definition organizationAccountManagerDecision :: "grant_row list \<Rightarrow> string \<Rightarrow> string list \<Rightarrow> string list \<Rightarrow> bool" where
  "organizationAccountManagerDecision rows orgId ancestors operators \<longleftrightarrow>
     orgId \<notin> set operators \<and> list_ex (\<lambda>r. gr_role r = ''admin'' \<and> row_covers orgId ancestors r) rows"

definition organizationAccountManagerReadDecision :: "grant_row list \<Rightarrow> string \<Rightarrow> string list \<Rightarrow> string list \<Rightarrow> bool" where
  "organizationAccountManagerReadDecision rows orgId ancestors operators \<longleftrightarrow>
     orgId \<notin> set operators \<and> list_ex (\<lambda>r. (gr_role r = ''staff'' \<or> gr_role r = ''admin'') \<and> row_covers orgId ancestors r) rows"

definition organizationCreationDecision :: "grant_row list \<Rightarrow> string \<Rightarrow> string list \<Rightarrow> bool" where
  "organizationCreationDecision rows parentId ancestors \<longleftrightarrow>
     list_ex (\<lambda>r. (gr_role r = ''staff'' \<or> gr_role r = ''admin'') \<and> gr_scope r = ''subtree'' \<and> (gr_org r = parentId \<or> gr_org r \<in> set ancestors)) rows"

definition organizationCreationParentAllowed :: "string \<Rightarrow> string option \<Rightarrow> string list \<Rightarrow> bool" where
  "organizationCreationParentAllowed parentId parentOfParent operators \<longleftrightarrow>
     parentId \<in> set operators \<or> (case parentOfParent of None \<Rightarrow> True | Some p \<Rightarrow> p \<in> set operators)"

section \<open>Values\<close>

definition control_char :: "char \<Rightarrow> bool" where
  "control_char c \<longleftrightarrow> (of_char c :: nat) \<le> 31 \<or> (of_char c :: nat) = 127"

definition short_text :: "json option \<Rightarrow> nat \<Rightarrow> string option" where
  "short_text v maximum = (case v of Some (JStr s) \<Rightarrow>
     (let trimmed = js_trim s in if 1 \<le> length trimmed \<and> length trimmed \<le> maximum \<and> \<not> list_ex control_char trimmed then Some trimmed else None)
   | _ \<Rightarrow> None)"

definition parseOrganizationName :: "json option \<Rightarrow> string option" where
  "parseOrganizationName v = short_text v 255"

definition ORGANIZATION_STORE_NAME_MAX :: nat where
  "ORGANIZATION_STORE_NAME_MAX = 120"

definition ORGANIZATION_STORE_LOCATION_MAX :: nat where
  "ORGANIZATION_STORE_LOCATION_MAX = 500"

record store_fields =
  sf_name :: string
  sf_location :: "string option"
  sf_brand :: "string option"
  sf_mall :: "string option"

text \<open>The outer option is "refused".\<close>

definition store_reference :: "json option \<Rightarrow> string option option" where
  "store_reference v = (if nullish v then Some None else case v of
     Some (JStr s) \<Rightarrow> if uuid_any s then Some (Some (map js_lower s)) else None | _ \<Rightarrow> None)"

definition parseOrganizationStoreFields :: "json \<Rightarrow> store_fields option" where
  "parseOrganizationStoreFields v = (case v of
     JObj m \<Rightarrow>
       if \<not> fst ` set m \<subseteq> set [''name'', ''location'', ''brandId'', ''mallId''] then None
       else (case short_text (map_of m ''name'') ORGANIZATION_STORE_NAME_MAX of None \<Rightarrow> None
         | Some name \<Rightarrow> (case (if nullish (map_of m ''location'') then Some None else map_option Some (short_text (map_of m ''location'') ORGANIZATION_STORE_LOCATION_MAX)) of
             None \<Rightarrow> None
           | Some location \<Rightarrow> (case (store_reference (map_of m ''brandId''), store_reference (map_of m ''mallId'')) of
               (Some brandId, Some mallId) \<Rightarrow> Some \<lparr>sf_name = name, sf_location = location, sf_brand = brandId, sf_mall = mallId\<rparr>
             | _ \<Rightarrow> None)))
   | _ \<Rightarrow> None)"

definition organizationDeletionValue :: "string \<Rightarrow> string \<Rightarrow> bool" where
  "organizationDeletionValue fld v \<longleftrightarrow> fld = ''deletion'' \<and> v = ''deleted''"

record deletion_counts =
  dc_subs :: nat
  dc_contracts :: nat
  dc_grants :: nat
  dc_stores :: nat

definition organizationDeletionBlockers :: "deletion_counts \<Rightarrow> string list" where
  "organizationDeletionBlockers c =
     (if dc_subs c > 0 then [''live_sub_organizations''] else []) @ (if dc_contracts c > 0 then [''live_pay_contracts''] else [])
   @ (if dc_grants c > 0 then [''member_grants''] else []) @ (if dc_stores c > 0 then [''live_stores''] else [])"

definition organizationDeletionGuardedCheck :: "(string \<Rightarrow> deletion_counts) \<Rightarrow> string \<Rightarrow> string \<Rightarrow> string \<Rightarrow> bool" where
  "organizationDeletionGuardedCheck counts orgId fld v \<longleftrightarrow> organizationDeletionValue fld v \<and> organizationDeletionBlockers (counts orgId) = []"

definition organizationApprovedToHireValue :: "string \<Rightarrow> string \<Rightarrow> bool" where
  "organizationApprovedToHireValue fld v \<longleftrightarrow> fld = ''approved_to_hire'' \<and> (v = ''true'' \<or> v = ''false'')"

definition organizationCommercialTermsValue :: "string \<Rightarrow> string \<Rightarrow> bool" where
  "organizationCommercialTermsValue fld v \<longleftrightarrow> fld \<in> {''hourly_rate'', ''bonus_commission''} \<and> (v = ''none'' \<or> decimal_shape v)"

definition organizationCurrencyValue :: "string \<Rightarrow> string \<Rightarrow> bool" where
  "organizationCurrencyValue fld v \<longleftrightarrow> fld = ''currency_code'' \<and> (v = ''none'' \<or> (length v = 3 \<and> list_all ascii_letter v))"

definition organizationAccountManagerValue :: "string \<Rightarrow> string \<Rightarrow> bool" where
  "organizationAccountManagerValue fld v \<longleftrightarrow> fld = ''account_manager'' \<and> (v = ''none'' \<or> manager_ref v)"

definition ORGANIZATION_NOTE_TYPES :: "string list" where
  "ORGANIZATION_NOTE_TYPES = [''internal_note'', ''phone_call'', ''email'', ''meeting'', ''interview'', ''task'']"

definition organizationNoteTypeOf :: "string \<Rightarrow> string option" where
  "organizationNoteTypeOf = map_of [(''note'', ''internal_note''), (''note_phone_call'', ''phone_call''), (''note_email'', ''email''),
     (''note_meeting'', ''meeting''), (''note_interview'', ''interview''), (''note_task'', ''task'')]"

definition organizationNoteValue :: "string \<Rightarrow> string \<Rightarrow> bool" where
  "organizationNoteValue fld v \<longleftrightarrow> fld = ''note'' \<and>
     \<not> list_ex (\<lambda>c. let n = (of_char c :: nat) in n \<le> 8 \<or> n = 11 \<or> n = 12 \<or> (14 \<le> n \<and> n \<le> 31) \<or> n = 127) v"

definition organizationTypedNoteValue :: "string \<Rightarrow> string \<Rightarrow> bool" where
  "organizationTypedNoteValue fld v \<longleftrightarrow> organizationNoteTypeOf fld \<noteq> None \<and> organizationNoteValue ''note'' v"

definition organizationNoteTypeOfRow :: "string option \<Rightarrow> read_error + string" where
  "organizationNoteTypeOfRow v = (case v of None \<Rightarrow> Inr ''internal_note''
     | Some t \<Rightarrow> if t \<in> set ORGANIZATION_NOTE_TYPES then Inr t else Inl Invalid_note_type)"

definition organizationStatusEvent :: "string option \<Rightarrow> string \<Rightarrow> (string option \<times> string option) option" where
  "organizationStatusEvent before v = (let new = (if v = ''none'' then None else Some v) in if before = new then None else Some (before, new))"

datatype link_outcome = Link | Unchanged | Owned_elsewhere

definition organizationBrandLinkOutcome :: "string option \<Rightarrow> string \<Rightarrow> link_outcome" where
  "organizationBrandLinkOutcome currentOrgId orgId = (case currentOrgId of None \<Rightarrow> Link | Some c \<Rightarrow> if c = orgId then Unchanged else Owned_elsewhere)"

definition organizationBrandUnlinkOutcome :: "string option \<Rightarrow> string \<Rightarrow> bool" where
  "organizationBrandUnlinkOutcome currentOrgId orgId \<longleftrightarrow> currentOrgId = Some orgId"

definition validOrganizationProfileName :: "string \<Rightarrow> string \<Rightarrow> bool" where
  "validOrganizationProfileName fld v \<longleftrightarrow> (fld \<noteq> ''name_en'' \<and> fld \<noteq> ''name_ar'') \<or> length v \<le> 255"

definition organizationOwnerDecision :: "(string \<times> string) list \<Rightarrow> string \<Rightarrow> bool" where
  "organizationOwnerDecision rows orgId \<longleftrightarrow> list_ex (\<lambda>(org, r). org = orgId \<and> r = ''org-owner'') rows"

section \<open>Views\<close>

record org_store_row =
  sr_id :: string
  sr_name :: string
  sr_location :: "string option"
  sr_status :: string
  sr_brand :: "string option \<times> string option \<times> string option"
  sr_mall :: "string option \<times> string option \<times> string option"

record org_store_view =
  sv_id :: string
  sv_name :: string
  sv_location :: "string option"
  sv_brand :: "(string \<times> string) option"
  sv_mall :: "(string \<times> string) option"

definition store_ref :: "string option \<times> string option \<times> string option \<Rightarrow> (string \<times> string) option" where
  "store_ref r = (case r of (Some i, Some name, Some status) \<Rightarrow> if status = ''active'' then Some (i, name) else None | _ \<Rightarrow> None)"

definition organizationStoresView :: "(string \<Rightarrow> string \<Rightarrow> int) \<Rightarrow> org_store_row list \<Rightarrow> org_store_view list" where
  "organizationStoresView cmp rows = map (\<lambda>r. \<lparr>sv_id = sr_id r, sv_name = sr_name r, sv_location = sr_location r,
       sv_brand = store_ref (sr_brand r), sv_mall = store_ref (sr_mall r)\<rparr>)
     (js_sort (\<lambda>a b. listed_before cmp (sr_name a, sr_id a) (sr_name b, sr_id b)) (filter (\<lambda>r. sr_status r = ''active'') rows))"

definition organizationGroupStores :: "(string \<Rightarrow> string \<Rightarrow> int) \<Rightarrow> string \<Rightarrow> (string \<Rightarrow> org_store_row list option) \<Rightarrow> (string \<Rightarrow> string list)
    \<Rightarrow> (string \<times> org_store_view) list option" where
  "organizationGroupStores cmp orgId list_of children = map_option (\<lambda>parent.
     foldl (\<lambda>result i. case list_of i of None \<Rightarrow> result | Some rows \<Rightarrow> result @ map (Pair i) (organizationStoresView cmp rows))
       (map (Pair orgId) (organizationStoresView cmp parent)) (children orgId)) (list_of orgId)"

definition organizationBrandsView :: "(string \<Rightarrow> string \<Rightarrow> int) \<Rightarrow> (string \<times> string \<times> string) list \<Rightarrow> (string \<times> string) list" where
  "organizationBrandsView cmp rows = map (\<lambda>(i, name, _). (i, name))
     (js_sort (\<lambda>(i, name, _) (j, name', _). listed_before cmp (name, i) (name', j)) (filter (\<lambda>(_, _, status). status = ''active'') rows))"

definition organizationAssignedCompaniesView :: "(string \<Rightarrow> string \<Rightarrow> int) \<Rightarrow> (string \<times> string) list \<Rightarrow> (string \<times> string) list" where
  "organizationAssignedCompaniesView cmp rows = take 50 (js_sort (\<lambda>(i, name) (j, name'). listed_before cmp (name, i) (name', j)) rows)"

record eligible_row = grant_row +
  el_principal :: string
  el_name :: "string option"

definition as_grant :: "eligible_row \<Rightarrow> grant_row" where
  "as_grant r = \<lparr>gr_org = gr_org r, gr_role = gr_role r, gr_scope = gr_scope r\<rparr>"

definition group_grants :: "eligible_row list \<Rightarrow> (string, string option \<times> grant_row list) js_map" where
  "group_grants rows = foldl (\<lambda>m r.
     (case or_else (map_of m (el_principal r)) (el_name r, []) of (name, gs) \<Rightarrow> AList.update (el_principal r) (name, gs @ [as_grant r]) m)) [] rows"

definition eligible_before :: "(string \<Rightarrow> string \<Rightarrow> int) \<Rightarrow> string \<times> string option \<Rightarrow> string \<times> string option \<Rightarrow> bool" where
  "eligible_before cmp a b \<longleftrightarrow> (case (snd a, snd b) of (None, Some _) \<Rightarrow> False | (Some _, None) \<Rightarrow> True
     | _ \<Rightarrow> listed_before cmp (or_else (snd a) [], fst a) (or_else (snd b) [], fst b))"

definition organizationEligibleAccountManagersView :: "(string \<Rightarrow> string \<Rightarrow> int) \<Rightarrow> eligible_row list \<Rightarrow> string \<Rightarrow> string list \<Rightarrow> string list
    \<Rightarrow> (string \<times> string option) list" where
  "organizationEligibleAccountManagersView cmp rows orgId ancestors operators = take 200 (js_sort (eligible_before cmp)
     (map (\<lambda>(i, name, _). (i, name)) (filter (\<lambda>(_, _, gs). organizationAccountManagerReadDecision gs orgId ancestors operators) (group_grants rows))))"

section \<open>The decisions are the resolver's\<close>

definition scope_text :: "grant_scope \<Rightarrow> string" where
  "scope_text s = (if s = Subtree then ''subtree'' else ''self'')"

definition rows_of :: "role_grant list \<Rightarrow> grant_row list" where
  "rows_of grants = map (\<lambda>g. \<lparr>gr_org = g_org g, gr_role = role_text (g_role g), gr_scope = scope_text (g_scope g)\<rparr>) grants"

lemma covers_grants:
  "covers (rows_of grants) (map role_text roles) orgId (ancestorOrgIdsIncludingSelf orgs orgId) \<longleftrightarrow>
     (\<exists>g \<in> set grants. g_role g \<in> set roles \<and> grant_covers orgs g orgId)"
proof -
  have "row_covers orgId (ancestorOrgIdsIncludingSelf orgs orgId) \<lparr>gr_org = g_org g, gr_role = role_text (g_role g), gr_scope = scope_text (g_scope g)\<rparr>
      \<longleftrightarrow> grant_covers orgs g orgId" for g
    by (auto simp: row_covers_def grant_covers_def set_ancestors scope_text_def)
  moreover have "role_text r \<in> set (map role_text roles) \<longleftrightarrow> r \<in> set roles" for r by (auto simp: role_text_inject)
  ultimately show ?thesis by (auto simp: covers_def rows_of_def list_ex_iff)
qed

text \<open>The principal may act at the organization in one of the roles.\<close>

definition acts_in :: "authz_reads \<Rightarrow> string \<Rightarrow> string \<Rightarrow> role list \<Rightarrow> bool" where
  "acts_in rd pid orgId roles \<longleftrightarrow> list_ex (may_act rd pid orgId) roles"

lemma covers_acts:
  "covers (rows_of (rd_grants rd pid)) (map role_text roles) orgId (ancestorOrgIdsIncludingSelf (rd_orgs rd) orgId) \<longleftrightarrow> acts_in rd pid orgId roles"
  unfolding covers_grants by (auto simp: acts_in_def may_act_def list_ex_iff)

lemma role_checks:
  "list_ex (\<lambda>r. (gr_role r = ''staff'' \<or> gr_role r = ''admin'') \<and> row_covers orgId ancestors r) rows = covers rows (map role_text [Staff, Admin]) orgId ancestors"
  "list_ex (\<lambda>r. gr_role r = ''admin'' \<and> row_covers orgId ancestors r) rows = covers rows (map role_text [Admin]) orgId ancestors"
  "WRITE_ROLES = map role_text [Staff, Admin, Org_owner]" "READ_ROLES = map role_text [Staff, Admin, Org_owner, Recruiter]"
  by (simp_all add: covers_def WRITE_ROLES_def READ_ROLES_def)

text \<open>The resolver authorizes the identity at the organization when it claims one of the roles.\<close>

definition authorized_in :: "authz_reads \<Rightarrow> request_identity \<Rightarrow> string \<Rightarrow> role list \<Rightarrow> bool" where
  "authorized_in rd identity orgId roles \<longleftrightarrow>
     (\<exists>role \<in> set roles. \<exists>ctx held. resolveActiveContext identity (at_org orgId (Some (role_text role))) rd = Some (Authorized ctx held))"

lemma authorized_iff_acts:
  assumes ok: "reads_ok rd" and pid: "resolvePrincipalId identity rd = Some pid" and known: "rd_org rd orgId \<noteq> None"
  shows "authorized_in rd identity orgId roles \<longleftrightarrow> acts_in rd pid orgId roles"
proof -
  have "(\<exists>ctx held. resolve_at_org pid orgId (Some (role_text role)) rd = Authorized ctx held) \<longleftrightarrow> may_act rd pid orgId role" for role
  proof
    assume "\<exists>ctx held. resolve_at_org pid orgId (Some (role_text role)) rd = Authorized ctx held"
    then obtain ctx held where "resolve_at_org pid orgId (Some (role_text role)) rd = Authorized ctx held" by blast
    then have "role_text role = role_text (ac_role ctx)" "\<exists>g. nearest_grant rd pid orgId (ac_role ctx) g"
      using resolve_at_org_Authorized [OF ok, of pid orgId "Some (role_text role)" ctx held] by auto
    then have "\<exists>g. nearest_grant rd pid orgId role g" by (simp add: role_text_inject)
    then show "may_act rd pid orgId role" by (auto simp: nearest_grant_def may_act_def)
  next
    assume may: "may_act rd pid orgId role"
    show "\<exists>ctx held. resolve_at_org pid orgId (Some (role_text role)) rd = Authorized ctx held"
    proof (cases "resolve_at_org pid orgId (Some (role_text role)) rd")
      case (Denied reason)
      have some: "\<not> (rd_org rd orgId = None \<or> (\<forall>role. \<not> may_act rd pid orgId role))" using known may by blast
      have "\<forall>r. role_text role = role_text r \<longrightarrow> \<not> may_act rd pid orgId r"
        using resolve_at_org_Denied [OF ok, of pid orgId "Some (role_text role)" reason] Denied unfolding if_not_P [OF some] by simp
      then show ?thesis using may by blast
    qed blast
  qed
  then show ?thesis unfolding authorized_in_def resolve_targeted [OF pid] option.inject acts_in_def list_ex_iff by blast
qed

text \<open>C32. One authority behind ten decisions. For a known principal and a known organization of a reachable
  store, given the principal's grant rows and the chain of ancestors, each of the decisions that guard an
  organization's lists and edits says yes exactly when the organization is none of the operators (for
  those every decision says no) and the resolver authorizes the principal there claiming one of the
  decision's roles: staff and admins for status, approval, notes and brands, admins alone for deletion,
  terms and the account manager, owners too for stores, and recruiters as well for reading them.\<close>

theorem decisions_follow_grants:
  assumes "reachable_store st" "resolvePrincipalId identity (reads_of st) = Some pid" "getOrganization st orgId \<noteq> None"
  shows "(let agrees = (\<lambda>decision roles. decision (rows_of (rd_grants (reads_of st) pid)) orgId (ancestorOrgIdsIncludingSelf (listOrganizations st) orgId) operators
        \<longleftrightarrow> orgId \<notin> set operators \<and> authorized_in (reads_of st) identity orgId roles)
    in agrees organizationStatusDecision [Staff, Admin] \<and> agrees organizationApprovedToHireDecision [Staff, Admin]
     \<and> agrees organizationNoteDecision [Staff, Admin] \<and> agrees organizationBrandDecision [Staff, Admin]
     \<and> agrees organizationAccountManagerReadDecision [Staff, Admin] \<and> agrees organizationAccountManagerDecision [Admin]
     \<and> agrees organizationDeletionDecision [Admin] \<and> agrees organizationCommercialTermsDecision [Admin]
     \<and> agrees organizationStoreWriteDecision [Staff, Admin, Org_owner] \<and> agrees organizationStoreReadDecision [Staff, Admin, Org_owner, Recruiter])"
proof -
  have orgs: "listOrganizations st = rd_orgs (reads_of st)" by (simp add: reads_of_def)
  have known: "rd_org (reads_of st) orgId \<noteq> None" using assms(3) by (simp add: rd_org_reads_of)
  note acts = authorized_iff_acts [OF reads_of_ok [OF reachable_store_ok [OF assms(1)]] assms(2) known]
  show ?thesis
    unfolding Let_def orgs acts organizationStatusDecision_def organizationApprovedToHireDecision_def organizationNoteDecision_def organizationBrandDecision_def
      organizationAccountManagerReadDecision_def organizationAccountManagerDecision_def organizationDeletionDecision_def organizationCommercialTermsDecision_def
      organizationStoreWriteDecision_def organizationStoreReadDecision_def role_checks covers_acts
    by simp
qed

theorem decisions_follow_grants_witness:
  "organizationStatusDecision (rows_of (rd_grants (reads_of granted_store) ''p1'')) ''shop'' (ancestorOrgIdsIncludingSelf (listOrganizations granted_store) ''shop'') []
   \<and> \<not> organizationDeletionDecision (rows_of (rd_grants (reads_of granted_store) ''p1'')) ''shop'' (ancestorOrgIdsIncludingSelf (listOrganizations granted_store) ''shop'') []"
proof -
  have known: "rd_org (reads_of granted_store) ''shop'' \<noteq> None" using shop_known by (simp add: rd_org_reads_of)
  note acts = authorized_iff_acts [OF reads_of_ok [OF reachable_store_ok [OF granted_reachable]] sample_reads(1) known]
  show ?thesis
    using decisions_follow_grants [OF granted_reachable sample_reads(1) shop_known, of "[]"]
    unfolding Let_def acts by (simp add: acts_in_def sample_may_act)
qed

end
