(* ===== verification/Org_Directory.thy ===== *)
theory Org_Directory
  imports Org_Access
begin

declare map_of_eq_Some_iff [simp del] Some_eq_map_of_iff [simp del]

text \<open>
  Organizations, what the lists hold: the directory of \<open>Org_Access\<close> lists the companies the caller
  may act at and no others, page by page, and says of each what its view says.
\<close>

section \<open>Coverage\<close>

lemma covered_permitted:
  assumes "reads_ok (oe_reads env)"
  shows "\<exists>covered. covered_orgs env rq = Some covered \<and> set covered = {i. permitted (oe_reads env) rq i}"
proof (cases "resolvePrincipalId (By_principal (rq_principal rq)) (oe_reads env)")
  case None
  then show ?thesis by (simp add: covered_orgs_def listEffectiveContexts_def permitted_def)
next
  case (Some pid)
  from contexts_spec [OF assms Some] obtain cs where cs: "listEffectiveContexts (By_principal (rq_principal rq)) (oe_reads env) = Some cs"
    and known: "(\<lambda>e. (eg_org e, eg_role e)) ` set cs = known_contexts (oe_reads env) pid" by blast
  have "i \<in> eg_org ` set (filter (\<lambda>c. role_text (eg_role c) = rq_role rq) cs) \<longleftrightarrow> (\<exists>r. rq_role rq = role_text r \<and> (i, r) \<in> known_contexts (oe_reads env) pid)" for i
    unfolding known [symmetric] by (auto simp: eq_commute [of "rq_role rq"])
  then have "set (map eg_org (filter (\<lambda>c. role_text (eg_role c) = rq_role rq) cs)) = {i. permitted (oe_reads env) rq i}"
    using Some by (auto simp: known_contexts_def permitted_def set_eq_iff)
  with cs show ?thesis by (simp add: covered_orgs_def)
qed

lemma shown_orgs_filter:
  "shown_orgs env covered orgs = Inr shown \<Longrightarrow>
    shown = filter (\<lambda>org. org_id org \<in> set covered \<and> companyParentOf (rd_orgs (oe_reads env)) (org_id org) (oe_operators env) = Inr None) orgs"
  by (induction orgs arbitrary: shown) (auto split: if_splits sum.splits simp: map_sum_def)

lemma entry_of_org: "entry_of env b covered org = Inr e \<Longrightarrow> de_org e = org_id org \<and> de_name e = org_name org"
  by (auto simp: entry_of_def directoryEntry_def Let_def)

lemma map_result_map: "map_result f xs = Inr ys \<Longrightarrow> (\<And>x y. f x = Inr y \<Longrightarrow> g y = h x) \<Longrightarrow> map g ys = map h xs"
  by (induction xs arbitrary: ys) auto

section \<open>Order and pages\<close>

text \<open>What \<open>localeCompare\<close> promises: a total preorder, with opposite signs in opposite directions.\<close>

definition collation :: "('a \<Rightarrow> 'a \<Rightarrow> int) \<Rightarrow> bool" where
  "collation cmp \<longleftrightarrow> (\<forall>a b. cmp a b < 0 \<longleftrightarrow> 0 < cmp b a) \<and> (\<forall>a b c. cmp a b \<le> 0 \<longrightarrow> cmp b c \<le> 0 \<longrightarrow> cmp a c \<le> 0)"

lemma collation_facts:
  assumes "collation cmp"
  shows "cmp a b \<le> 0 \<or> cmp b a \<le> 0" "cmp a b = 0 \<longleftrightarrow> cmp b a = 0" "cmp a b \<le> 0 \<Longrightarrow> cmp b c \<le> 0 \<Longrightarrow> cmp a c \<le> 0"
    "cmp a b < 0 \<Longrightarrow> cmp b c \<le> 0 \<Longrightarrow> cmp a c < 0" "cmp a b \<le> 0 \<Longrightarrow> cmp b c < 0 \<Longrightarrow> cmp a c < 0"
proof -
  have sign: "cmp x y < 0 \<longleftrightarrow> 0 < cmp y x" for x y using assms by (auto simp: collation_def)
  show zero: "cmp x y = 0 \<longleftrightarrow> cmp y x = 0" for x y using sign [of x y] sign [of y x] by linarith
  show le: "cmp x y \<le> 0 \<Longrightarrow> cmp y z \<le> 0 \<Longrightarrow> cmp x z \<le> 0" for x y z using assms by (auto simp: collation_def)
  show "cmp a b \<le> 0 \<or> cmp b a \<le> 0" using sign [of b a] by linarith
  show "cmp a b < 0 \<Longrightarrow> cmp b c \<le> 0 \<Longrightarrow> cmp a c < 0" using le [of a b c] le [of b c a] sign [of a b] zero [of a c] by linarith
  show "cmp a b \<le> 0 \<Longrightarrow> cmp b c < 0 \<Longrightarrow> cmp a c < 0" using le [of a b c] le [of c a b] sign [of b c] zero [of a c] by linarith
qed

lemma listed_before_total: "collation cmp \<Longrightarrow> listed_before cmp a b \<or> listed_before cmp b a"
  using collation_facts(1,2) [of cmp "fst a" "fst b"] collation_facts(1) [of cmp "snd a" "snd b"]
  by (auto simp: listed_before_def)

lemma listed_before_trans:
  assumes "collation cmp" "listed_before cmp a b" "listed_before cmp b c"
  shows "listed_before cmp a c"
proof -
  note facts = collation_facts [OF assms(1)]
  have ab: "cmp (fst a) (fst b) < 0 \<or> (cmp (fst a) (fst b) = 0 \<and> cmp (snd a) (snd b) \<le> 0)"
    and bc: "cmp (fst b) (fst c) < 0 \<or> (cmp (fst b) (fst c) = 0 \<and> cmp (snd b) (snd c) \<le> 0)"
    using assms(2,3) by (auto simp: listed_before_def split: if_splits)
  have "cmp (fst a) (fst c) = 0" if "cmp (fst a) (fst b) = 0" "cmp (fst b) (fst c) = 0"
  proof -
    have "cmp (fst b) (fst a) = 0" "cmp (fst c) (fst b) = 0" using that facts(2) by blast+
    then have "cmp (fst a) (fst c) \<le> 0" "cmp (fst c) (fst a) \<le> 0"
      using that facts(3) [of "fst a" "fst b" "fst c"] facts(3) [of "fst c" "fst b" "fst a"] by simp_all
    moreover have "cmp (fst a) (fst c) < 0 \<longleftrightarrow> 0 < cmp (fst c) (fst a)" using assms(1) by (simp add: collation_def)
    ultimately show ?thesis by linarith
  qed
  with ab bc facts(3) [of "snd a" "snd b" "snd c"] facts(4,5) [of "fst a" "fst b" "fst c"] show ?thesis
    by (auto simp: listed_before_def)
qed

lemma pages_partition: "concat (map (\<lambda>k. take n (drop (k * n) xs)) [0..<m]) = take (m * n) xs"
proof (induction m)
  case (Suc m)
  have "take (m * n) xs @ take n (drop (m * n) xs) = take (m * n + n) xs" by (simp add: take_add)
  with Suc show ?case by (simp add: add.commute)
qed simp

lemma directory_pages: "concat (map (\<lambda>k. dr_entries (directory_page (int k + 1) es)) [0..<Suc (length es div 20)]) = es"
proof -
  have "dr_entries (directory_page (int k + 1) es) = take 20 (drop (k * 20) es)" for k
    by (simp add: directory_page_def ORGANIZATION_DIRECTORY_PAGE_SIZE_def nat_mult_distrib)
  then have "concat (map (\<lambda>k. dr_entries (directory_page (int k + 1) es)) [0..<Suc (length es div 20)]) = take (Suc (length es div 20) * 20) es"
    by (simp only: pages_partition)
  moreover have "length es \<le> Suc (length es div 20) * 20" by simp
  ultimately show ?thesis by simp
qed

section \<open>The directory\<close>

text \<open>The companies in scope of a request: those the caller may act at below the active organization.\<close>

definition in_scope :: "org_env \<Rightarrow> org_request \<Rightarrow> string set" where
  "in_scope env rq = {i. permitted (oe_reads env) rq i \<and> (rq_org rq, i) \<in> (tree_rel (rd_orgs (oe_reads env)))\<^sup>* \<and> i \<notin> set (oe_operators env)}"

lemma directory_run:
  assumes "reads_ok (oe_reads env)"
  obtains ids where "set ids = in_scope env rq"
    "\<And>filters pageV d. directory_listOrganizations env rq filters pageV = Some (Answer d) \<longleftrightarrow>
        rq_role rq \<in> set ORGANIZATION_DIRECTORY_ROLES \<and> validDirectoryFilters (or_else filters []) \<and> permitted (oe_reads env) rq (rq_org rq)
      \<and> (\<exists>x. ask (oe_is_deleted env) (rq_org rq) = Inr x \<and> x \<noteq> Some True)
      \<and> (map_of (or_else filters []) ''accountManager'' \<noteq> None \<longrightarrow> oe_managers env \<noteq> None)
      \<and> (\<exists>n es. directory_number pageV = Some n \<and> directory_entries env (or_else filters []) ids = Inr es \<and> d = directory_page n es)"
proof -
  obtain covered where c: "covered_orgs env rq = Some covered" "set covered = {i. permitted (oe_reads env) rq i}"
    using covered_permitted [OF assms] by blast
  from assms have "acyclic_tree (rd_orgs (oe_reads env))" "distinct (map org_id (rd_orgs (oe_reads env)))" by (simp_all add: reads_ok_def)
  from descendants_return [OF this] obtain below where
    b: "descendantOrgIdsIncludingSelf (rd_orgs (oe_reads env)) (rq_org rq) = Some below" "set below = {y. (rq_org rq, y) \<in> (tree_rel (rd_orgs (oe_reads env)))\<^sup>*}" by blast
  obtain res where res: "resolveActiveContext (By_principal (rq_principal rq)) (Some \<lparr>sel_org = Some (rq_org rq), sel_role = Some (rq_role rq)\<rparr>) (oe_reads env) = Some res"
    and perm: "if permitted (oe_reads env) rq (rq_org rq) then \<exists>ctx roles. res = Authorized ctx roles \<and> ac_org ctx = rq_org rq \<and> role_text (ac_role ctx) = rq_role rq
       else \<exists>reason. res = Denied reason"
    using resolve_permitted [OF assms, of rq "rq_org rq"] by blast
  show ?thesis
  proof (rule that [of "listed_org env below covered"])
    show "set (listed_org env below covered) = in_scope env rq" by (auto simp: listed_org_def in_scope_def c b)
  next
    fix filters pageV d
    show "directory_listOrganizations env rq filters pageV = Some (Answer d) \<longleftrightarrow>
        rq_role rq \<in> set ORGANIZATION_DIRECTORY_ROLES \<and> validDirectoryFilters (or_else filters []) \<and> permitted (oe_reads env) rq (rq_org rq)
      \<and> (\<exists>x. ask (oe_is_deleted env) (rq_org rq) = Inr x \<and> x \<noteq> Some True)
      \<and> (map_of (or_else filters []) ''accountManager'' \<noteq> None \<longrightarrow> oe_managers env \<noteq> None)
      \<and> (\<exists>n es. directory_number pageV = Some n \<and> directory_entries env (or_else filters []) (listed_org env below covered) = Inr es \<and> d = directory_page n es)"
    proof (cases "permitted (oe_reads env) rq (rq_org rq)")
      case False
      with perm res show ?thesis by (auto simp: directory_listOrganizations_def split: option.splits)
    next
      case True
      with perm res c(1) b(1) show ?thesis
        by (cases "ask (oe_is_deleted env) (rq_org rq)"; cases "directory_number pageV")
          (auto simp: directory_listOrganizations_def map_sum_def split: option.splits bool.splits sum.splits)
    qed
  qed
qed

lemma map_sum_Inr_iff: "map_sum id f r = Inr y \<longleftrightarrow> (\<exists>x. r = Inr x \<and> y = f x)"
  by (cases r) auto

lemma directory_entries_cases:
  assumes "directory_entries env f covered0 = Inr es"
  obtains deleted covered shown b raw where "deleted_among env covered0 = Inr deleted" "covered = filter (\<lambda>i. i \<notin> set deleted) covered0"
    "shown = filter (\<lambda>org. org_id org \<in> set covered \<and> companyParentOf (rd_orgs (oe_reads env)) (org_id org) (oe_operators env) = Inr None) (rd_orgs (oe_reads env))"
    "directory_batches env f (map org_id shown) = Inr b"
    "map_result (entry_of env b covered) (filter (\<lambda>org. has_manager b f (org_id org)) shown) = Inr raw"
    "es = js_sort (entry_before env) (filter (\<lambda>e. matchesDirectoryFilters (oe_nfkc env) e f) raw)"
proof -
  from assms obtain deleted where d: "deleted_among env covered0 = Inr deleted"
    and r1: "bind_result (shown_orgs env (filter (\<lambda>i. i \<notin> set deleted) covered0) (rd_orgs (oe_reads env))) (\<lambda>shown.
        bind_result (directory_batches env f (map org_id shown)) (\<lambda>b.
        map_sum id (\<lambda>es. js_sort (entry_before env) (filter (\<lambda>e. matchesDirectoryFilters (oe_nfkc env) e f) es))
          (map_result (entry_of env b (filter (\<lambda>i. i \<notin> set deleted) covered0)) (filter (\<lambda>org. has_manager b f (org_id org)) shown)))) = Inr es"
    unfolding directory_entries_def Let_def bind_result_Inr [of "deleted_among env covered0"] by blast
  from r1 obtain shown where shown: "shown_orgs env (filter (\<lambda>i. i \<notin> set deleted) covered0) (rd_orgs (oe_reads env)) = Inr shown"
    and r2: "bind_result (directory_batches env f (map org_id shown)) (\<lambda>b.
        map_sum id (\<lambda>es. js_sort (entry_before env) (filter (\<lambda>e. matchesDirectoryFilters (oe_nfkc env) e f) es))
          (map_result (entry_of env b (filter (\<lambda>i. i \<notin> set deleted) covered0)) (filter (\<lambda>org. has_manager b f (org_id org)) shown))) = Inr es"
    unfolding bind_result_Inr [of "shown_orgs env _ _"] by blast
  from r2 obtain b where b: "directory_batches env f (map org_id shown) = Inr b"
    and r3: "map_sum id (\<lambda>es. js_sort (entry_before env) (filter (\<lambda>e. matchesDirectoryFilters (oe_nfkc env) e f) es))
          (map_result (entry_of env b (filter (\<lambda>i. i \<notin> set deleted) covered0)) (filter (\<lambda>org. has_manager b f (org_id org)) shown)) = Inr es"
    unfolding bind_result_Inr [of "directory_batches env f _"] by blast
  from r3 [unfolded map_sum_Inr_iff] obtain raw where
    raw: "map_result (entry_of env b (filter (\<lambda>i. i \<notin> set deleted) covered0)) (filter (\<lambda>org. has_manager b f (org_id org)) shown) = Inr raw"
      "es = js_sort (entry_before env) (filter (\<lambda>e. matchesDirectoryFilters (oe_nfkc env) e f) raw)" by blast
  from that [OF d refl shown_orgs_filter [OF shown] b raw] show ?thesis .
qed

lemma no_filters [simp]: "matchesDirectoryFilters nfkc e []" "has_manager b [] i"
  by (simp_all add: matchesDirectoryFilters_def has_manager_def)

lemma entries_exact:
  assumes ok: "reads_ok (oe_reads env)" and cmp: "collation (oe_compare env)"
    and run: "directory_entries env f covered0 = Inr es" and c0: "set covered0 = in_scope env rq"
  shows "\<exists>deleted. deleted_among env covered0 = Inr deleted \<and> sorted_wrt (entry_before env) es \<and> distinct (map de_org es)
    \<and> (let S = {i \<in> in_scope env rq. i \<notin> set deleted \<and> companyParentOf (rd_orgs (oe_reads env)) i (oe_operators env) = Inr None}
       in de_org ` set es \<subseteq> S \<and> (f = [] \<longrightarrow> de_org ` set es = S))"
proof -
  obtain deleted covered shown b raw where
    d: "deleted_among env covered0 = Inr deleted" "covered = filter (\<lambda>i. i \<notin> set deleted) covered0"
    and shown: "shown = filter (\<lambda>org. org_id org \<in> set covered \<and> companyParentOf (rd_orgs (oe_reads env)) (org_id org) (oe_operators env) = Inr None) (rd_orgs (oe_reads env))"
    and "directory_batches env f (map org_id shown) = Inr b"
    and raw: "map_result (entry_of env b covered) (filter (\<lambda>org. has_manager b f (org_id org)) shown) = Inr raw"
    and es: "es = js_sort (entry_before env) (filter (\<lambda>e. matchesDirectoryFilters (oe_nfkc env) e f) raw)"
    by (rule directory_entries_cases [OF run])
  have ids: "map de_org raw = map org_id (filter (\<lambda>org. has_manager b f (org_id org)) shown)"
    by (rule map_result_map [OF raw]) (simp add: entry_of_org)
  have "distinct (map org_id (rd_orgs (oe_reads env)))" using ok by (simp add: reads_ok_def)
  then have "distinct (map de_org raw)" unfolding ids shown by (simp add: distinct_map_filter)
  then have "distinct (map de_org es)" unfolding es by (simp add: distinct_map_filter)
  moreover have "sorted_wrt (entry_before env) es" unfolding es
    by (rule sorted_wrt_js_sort) (use listed_before_total [OF cmp] listed_before_trans [OF cmp] in \<open>auto simp: entry_before_def\<close>)
  moreover have known: "i \<in> org_id ` set (rd_orgs (oe_reads env))" if "i \<in> in_scope env rq" for i
  proof -
    from that have "rd_org (oe_reads env) i \<noteq> None" by (auto simp: in_scope_def permitted_def)
    with ok show ?thesis by (simp add: reads_ok_def)
  qed
  let ?S = "{i \<in> in_scope env rq. i \<notin> set deleted \<and> companyParentOf (rd_orgs (oe_reads env)) i (oe_operators env) = Inr None}"
  have shown_ids: "org_id ` set shown = ?S" using known by (auto simp: shown d(2) c0)
  have raw_ids: "de_org ` set raw = org_id ` {org \<in> set shown. has_manager b f (org_id org)}" using arg_cong [OF ids, of set] by simp
  have "de_org ` set es \<subseteq> ?S" unfolding shown_ids [symmetric] using raw_ids by (auto simp: es)
  moreover have "de_org ` set es = ?S" if "f = []" unfolding shown_ids [symmetric] using raw_ids by (simp add: es that)
  ultimately show ?thesis using d(1) unfolding Let_def by blast
qed

text \<open>C29. The directory is exactly what the caller may see. When a page of the list of companies is answered,
  there is one sorted list without repeats of which every page, in any order of asking, is a part and
  which the pages put together are; every entry is a company the caller may act at in that role
  now, below the active organization, top-level, not an operator and not deleted; and without filters
  every such company is in it.\<close>

theorem directory_is_exact:
  assumes "reachable_store st" "oe_reads env = reads_of st" "collation (oe_compare env)"
    and "directory_listOrganizations env rq filters pageV = Some (Answer d)"
  shows "\<exists>es ids deleted. set ids = in_scope env rq \<and> deleted_among env ids = Inr deleted
    \<and> (\<forall>k \<ge> 1. k \<le> MAX_SAFE \<longrightarrow> directory_listOrganizations env rq filters (Some (js_int k)) = Some (Answer (directory_page k es)))
    \<and> (\<exists>n. directory_number pageV = Some n \<and> d = directory_page n es)
    \<and> concat (map (\<lambda>k. dr_entries (directory_page (int k + 1) es)) [0..<Suc (length es div 20)]) = es
    \<and> sorted_wrt (entry_before env) es \<and> distinct (map de_org es)
    \<and> (let S = {i \<in> in_scope env rq. i \<notin> set deleted \<and> companyParentOf (listOrganizations st) i (oe_operators env) = Inr None}
       in de_org ` set es \<subseteq> S \<and> (or_else filters [] = [] \<longrightarrow> de_org ` set es = S))"
proof -
  have ok: "reads_ok (oe_reads env)" using reads_of_ok [OF reachable_store_ok [OF assms(1)]] assms(2) by simp
  have orgs: "rd_orgs (oe_reads env) = listOrganizations st" by (simp add: assms(2) reads_of_def)
  obtain ids where scope: "set ids = in_scope env rq"
    and runs: "\<And>filters pageV d. directory_listOrganizations env rq filters pageV = Some (Answer d) \<longleftrightarrow>
        rq_role rq \<in> set ORGANIZATION_DIRECTORY_ROLES \<and> validDirectoryFilters (or_else filters []) \<and> permitted (oe_reads env) rq (rq_org rq)
      \<and> (\<exists>x. ask (oe_is_deleted env) (rq_org rq) = Inr x \<and> x \<noteq> Some True)
      \<and> (map_of (or_else filters []) ''accountManager'' \<noteq> None \<longrightarrow> oe_managers env \<noteq> None)
      \<and> (\<exists>n es. directory_number pageV = Some n \<and> directory_entries env (or_else filters []) ids = Inr es \<and> d = directory_page n es)"
    by (rule directory_run [OF ok, of rq]) blast
  from assms(4) obtain n es where n: "directory_number pageV = Some n" "d = directory_page n es"
    and es: "directory_entries env (or_else filters []) ids = Inr es" unfolding runs by blast
  have "directory_listOrganizations env rq filters (Some (js_int k)) = Some (Answer (directory_page k es))" if "1 \<le> k" "k \<le> MAX_SAFE" for k
  proof -
    have "directory_number (Some (js_int k)) = Some k" using that by (simp add: directory_number_def nullish_def safe_integer_js_int js_int_def [of k, symmetric], simp add: js_int_def)
    with assms(4) es show ?thesis unfolding runs by blast
  qed
  moreover from entries_exact [OF ok assms(3) es scope] obtain deleted where "deleted_among env ids = Inr deleted"
      "sorted_wrt (entry_before env) es \<and> distinct (map de_org es)
    \<and> (let S = {i \<in> in_scope env rq. i \<notin> set deleted \<and> companyParentOf (listOrganizations st) i (oe_operators env) = Inr None}
       in de_org ` set es \<subseteq> S \<and> (or_else filters [] = [] \<longrightarrow> de_org ` set es = S))" unfolding orgs by blast
  ultimately show ?thesis using n scope directory_pages [of es] by blast
qed

section \<open>Reading one at a time and in batches\<close>

text \<open>A port with both reads: what a batch holds of a row is what reading that row alone gives.\<close>

locale agreeing_reader =
  fixes one :: "'a reader" and many :: "'a batch_reader" and absent :: 'a
  assumes agrees: "many = Some f \<Longrightarrow> \<exists>g. one = Some g \<and> (\<forall>ids m i. f ids = Some m \<longrightarrow> i \<in> set ids \<longrightarrow> g i = Some (or_else (map_of m i) absent))"
begin

lemma batch_is_single: "ask_many many ids = Inr (Some m) \<Longrightarrow> i \<in> set ids \<Longrightarrow> ask one i = Inr (Some (or_else (map_of m i) absent))"
  using agrees by (cases many) (fastforce simp: ask_many_def ask_def port_def split: if_splits option.splits)+

end

lemma batch_of: "map_of (foldl (\<lambda>m i. AList.update i (h i) m) m0 ids) i = (if i \<in> set ids then Some (h i) else map_of m0 i)"
  by (induction ids arbitrary: m0) auto

interpretation memory_adapter: agreeing_reader "Some (memory_snapshot rows)" "Some (memory_snapshots rows)" Missing for rows
  by unfold_locales (auto simp: memory_snapshot_def memory_snapshots_def batch_of or_else_def)

interpretation unconfigured_adapter: agreeing_reader "Some unconfigured_snapshot" "Some unconfigured_snapshots" Missing
  by unfold_locales (auto simp: unconfigured_snapshot_def unconfigured_snapshots_def batch_of or_else_def)

text \<open>Every port of an environment agrees with itself.\<close>

definition ports_agree :: "org_env \<Rightarrow> bool" where
  "ports_agree env \<longleftrightarrow> agreeing_reader (Some (oe_snapshot env)) (Some (oe_snapshots env)) Missing
     \<and> agreeing_reader (oe_status env) (oe_status_many env) Status_absent
     \<and> agreeing_reader (oe_approved env) (oe_approved_many env) Approved_absent \<and> (oe_approved_many env = None \<longrightarrow> oe_approved env = None)
     \<and> agreeing_reader (oe_terms env) (oe_terms_many env) no_terms \<and> (oe_terms_many env = None \<longrightarrow> oe_terms env = None)"

section \<open>The list says what the view says\<close>

lemma projected_lookup:
  assumes "projectOrganizationFields nt a p = Inr fs" "name \<in> set (ORGANIZATION_FIELDS_BY_AUDIENCE a)"
  shows "\<exists>x. map_of fs name = Some x \<and> project_field nt p name = Inr x"
proof -
  have "name \<in> fst ` set fs" using projected_names [OF assms(1)] assms(2) by (metis set_map)
  then obtain x where "map_of fs name = Some x" by (metis domD dom_map_of_conv_image_fst)
  with projected_field [OF assms(1)] show ?thesis by (blast dest: map_of_SomeD)
qed

lemma directory_batches_cases:
  assumes "directory_batches env f ids = Inr b" "i \<in> set ids"
  shows "ask_many (oe_status_many env) ids = Inr (db_status b)" "ask_many (oe_approved_many env) ids = Inr (db_approved b)"
    "ask_many (oe_terms_many env) ids = Inr (db_terms b)" "ask_many (Some (oe_snapshots env)) ids = Inr (Some (db_snaps b))"
  using assms by (auto simp: directory_batches_def ask_many_def map_sum_Inr_iff)

lemma ask_many_None: "ask_many many ids = Inr None \<Longrightarrow> i \<in> set ids \<Longrightarrow> many = None"
  by (cases many) (auto simp: ask_many_def map_sum_Inr_iff split: if_splits)

text \<open>What a listed row is made of is what its view is made of.\<close>

lemma listed_inputs:
  assumes ports: "ports_agree env" and b: "directory_batches env f ids = Inr b" and i: "i \<in> set ids"
  shows "port (oe_snapshot env i) = Inr (or_else (map_of (db_snaps b) i) Missing)"
    "batch_status env (db_status b) i = ask (oe_status env) i"
    "\<exists>r. ask (oe_approved env) i = Inr r \<and> or_else r Approved_absent = or_else (Option.bind (db_approved b) (\<lambda>m. map_of m i)) Approved_absent"
    "\<exists>t. ask (oe_terms env) i = Inr t \<and> tm_currency (or_else t no_terms) = Option.bind (Option.bind (db_terms b) (\<lambda>m. map_of m i)) tm_currency"
proof -
  note asked = directory_batches_cases [OF b i]
  from ports have snaps: "agreeing_reader (Some (oe_snapshot env)) (Some (oe_snapshots env)) Missing"
    and status: "agreeing_reader (oe_status env) (oe_status_many env) Status_absent"
    and approved: "agreeing_reader (oe_approved env) (oe_approved_many env) Approved_absent" "oe_approved_many env = None \<Longrightarrow> oe_approved env = None"
    and terms: "agreeing_reader (oe_terms env) (oe_terms_many env) no_terms" "oe_terms_many env = None \<Longrightarrow> oe_terms env = None"
    by (simp_all add: ports_agree_def)
  show "port (oe_snapshot env i) = Inr (or_else (map_of (db_snaps b) i) Missing)"
    using agreeing_reader.batch_is_single [OF snaps asked(4) i] by (simp add: ask_def map_sum_Inr_iff)
  show "batch_status env (db_status b) i = ask (oe_status env) i"
    using agreeing_reader.batch_is_single [OF status _ i] asked(1) by (cases "db_status b") (simp_all add: batch_status_def)
  show "\<exists>r. ask (oe_approved env) i = Inr r \<and> or_else r Approved_absent = or_else (Option.bind (db_approved b) (\<lambda>m. map_of m i)) Approved_absent"
  proof (cases "db_approved b")
    case None
    with asked(2) ask_many_None [of "oe_approved_many env" ids i] i approved(2) show ?thesis by (simp add: ask_def or_else_def)
  next
    case (Some m)
    with asked(2) agreeing_reader.batch_is_single [OF approved(1) _ i, of m] show ?thesis by (simp add: or_else_def)
  qed
  show "\<exists>t. ask (oe_terms env) i = Inr t \<and> tm_currency (or_else t no_terms) = Option.bind (Option.bind (db_terms b) (\<lambda>m. map_of m i)) tm_currency"
  proof (cases "db_terms b")
    case None
    with asked(3) ask_many_None [of "oe_terms_many env" ids i] i terms(2) show ?thesis by (simp add: ask_def or_else_def no_terms_def)
  next
    case (Some m)
    with asked(3) agreeing_reader.batch_is_single [OF terms(1) _ i, of m] show ?thesis
      by (cases "map_of m i") (simp_all add: or_else_def no_terms_def)
  qed
qed

text \<open>The fields both show.\<close>

fun listed_field :: "dir_entry \<Rightarrow> org_field_name \<Rightarrow> org_field option" where
  "listed_field e Legal_name = Some (de_legal e)"
| "listed_field e Common_name_en = Some (de_en e)"
| "listed_field e Common_name_ar = Some (de_ar e)"
| "listed_field e Currency_code = Some (de_currency e)"
| "listed_field e Approved_to_hire = Some (de_approved e)"
| "listed_field e Status = Some (de_status e)"
| "listed_field e _ = None"

lemma listed_project:
  assumes entry: "directoryEntry org row subs rec approved terms stores mgr = Inr e" and listed: "listed_field e name = Some x"
    and p: "pj_row p = row" "pj_status p = rec" "or_else (pj_approved p) Approved_absent = approved"
      "pj_terms p = Some (own, others)" "tm_currency own = Option.bind terms tm_currency"
    and profile: "stored_profile p name = None"
  shows "project_field nt p name = Inr x"
proof -
  let ?field = "\<lambda>name. case row of None \<Rightarrow> Inr (unavailable name Not_imported) | Some r \<Rightarrow> plainField name r"
  from entry have "?field Legal_name = Inr (de_legal e)" "?field Common_name_en = Inr (de_en e)" "?field Common_name_ar = Inr (de_ar e)"
    and cur: "storedCurrency row (Option.bind terms tm_currency) = Inr (de_currency e)"
    and app: "(case approved of Approved_value b \<Rightarrow> Inr (available Approved_to_hire (FFlag b)) | Approved_absent \<Rightarrow> ?field Approved_to_hire) = Inr (de_approved e)"
    and status: "listed_status row rec = Inr (de_status e)"
    by (auto simp: directoryEntry_def Let_def)
  note names = this(1-3)
  have field: "row_field nt p name = ?field name" if "name \<in> {Legal_name, Common_name_en, Common_name_ar, Approved_to_hire}"
    using that p(1) by (auto simp: row_field_def split: option.splits)
  consider "name \<in> {Legal_name, Common_name_en, Common_name_ar}" | "name = Currency_code" | "name = Approved_to_hire" | "name = Status"
    using listed by (cases name) auto
  then show ?thesis
  proof cases
    case 1
    with field names listed profile show ?thesis by (auto simp: project_field_def)
  next
    case 2
    with cur listed p show ?thesis by (simp add: project_field_def)
  next
    case 3
    with app listed p profile field show ?thesis
      by (cases "pj_approved p") (auto simp: project_field_def or_else_def split: approved_record.splits)
  next
    case 4
    with status listed p profile show ?thesis
      by (auto simp: project_field_def listed_status_def row_field_def or_else_def split: option.splits status_record.splits if_splits)
  qed
qed

lemma map_result_source: "map_result f xs = Inr ys \<Longrightarrow> y \<in> set ys \<Longrightarrow> \<exists>x \<in> set xs. f x = Inr y"
  by (induction xs arbitrary: ys) auto

lemma entry_source:
  assumes "directory_entries env f covered0 = Inr es" "e \<in> set es"
  shows "\<exists>b covered shown org. directory_batches env f (map org_id shown) = Inr b \<and> org \<in> set shown \<and> entry_of env b covered org = Inr e
    \<and> companyParentOf (rd_orgs (oe_reads env)) (org_id org) (oe_operators env) = Inr None"
proof -
  obtain deleted covered shown b raw where "deleted_among env covered0 = Inr deleted" "covered = filter (\<lambda>i. i \<notin> set deleted) covered0"
    and shown: "shown = filter (\<lambda>org. org_id org \<in> set covered \<and> companyParentOf (rd_orgs (oe_reads env)) (org_id org) (oe_operators env) = Inr None) (rd_orgs (oe_reads env))"
    and b: "directory_batches env f (map org_id shown) = Inr b"
    and raw: "map_result (entry_of env b covered) (filter (\<lambda>org. has_manager b f (org_id org)) shown) = Inr raw"
    and es: "es = js_sort (entry_before env) (filter (\<lambda>e. matchesDirectoryFilters (oe_nfkc env) e f) raw)"
    by (rule directory_entries_cases [OF assms(1)])
  from assms(2) have "e \<in> set raw" by (auto simp: es)
  from map_result_source [OF raw this] obtain org where org: "org \<in> set shown" "entry_of env b covered org = Inr e" by auto
  then have "companyParentOf (rd_orgs (oe_reads env)) (org_id org) (oe_operators env) = Inr None" by (simp add: shown)
  with b org show ?thesis by blast
qed

lemma view_source:
  assumes "organization_view env a org = Inr v" and top: "companyParentOf (rd_orgs (oe_reads env)) (org_id org) (oe_operators env) = Inr None"
  shows "\<exists>snap statusRecord approvedRecord profile ownTerms row. port (oe_snapshot env (org_id org)) = Inr snap \<and> ask (oe_status env) (org_id org) = Inr statusRecord
    \<and> ask (oe_approved env) (org_id org) = Inr approvedRecord \<and> ask (oe_profiles env) (org_id org) = Inr profile \<and> ask (oe_terms env) (org_id org) = Inr ownTerms
    \<and> snapshotRow (oe_dates env) snap (org_id org) None = Inr row
    \<and> projectOrganizationFields (oe_number env) a \<lparr>pj_row = row, pj_parent = No_parent, pj_status = statusRecord,
         pj_terms = Some (or_else ownTerms no_terms, no_terms), pj_approved = approvedRecord, pj_profile = profile\<rparr> = Inr (ov_fields v)"
  using assms(1) unfolding organization_view_def top bind_result_simps
  by (auto simp: parent_snapshot_def or_else_def [of None])

lemma read_source: "organization_read env rq = Answer v \<Longrightarrow> \<exists>a org. organization_view env a org = Inr v"
  by (cases "authorize env rq (rq_org rq)"; cases "find (\<lambda>o'. org_id o' = rq_org rq) (rd_orgs (oe_reads env))")
    (auto simp: organization_read_def map_sum_Inr_iff split: option.splits)

text \<open>C30. The list says what the view says. Where batches and single reads of the ports agree, every field an
  entry of the directory shows is, in the view of that company for whoever may read it, the same
  field with the same value and source; for the common names this needs that no edited profile is
  stored, which the view prefers and the directory does not read.\<close>

theorem directory_agrees_with_view:
  assumes "reachable_store st" "oe_reads env = reads_of st" "ports_agree env"
    and "directory_listOrganizations env rq filters pageV = Some (Answer d)" "e \<in> set (dr_entries d)"
    and "organization_read env reader_rq = Answer v" "ov_org v = de_org e"
    and "listed_field e name = Some x" and "name \<in> {Common_name_en, Common_name_ar} \<longrightarrow> oe_profiles env = None"
  shows "map_of (ov_fields v) name = Some x \<and> ov_parent v = None"
proof -
  have ok: "reads_ok (oe_reads env)" using reads_of_ok [OF reachable_store_ok [OF assms(1)]] assms(2) by simp
  obtain ids where "set ids = in_scope env rq"
    and runs: "\<And>filters pageV d. directory_listOrganizations env rq filters pageV = Some (Answer d) \<longleftrightarrow>
        rq_role rq \<in> set ORGANIZATION_DIRECTORY_ROLES \<and> validDirectoryFilters (or_else filters []) \<and> permitted (oe_reads env) rq (rq_org rq)
      \<and> (\<exists>x. ask (oe_is_deleted env) (rq_org rq) = Inr x \<and> x \<noteq> Some True)
      \<and> (map_of (or_else filters []) ''accountManager'' \<noteq> None \<longrightarrow> oe_managers env \<noteq> None)
      \<and> (\<exists>n es. directory_number pageV = Some n \<and> directory_entries env (or_else filters []) ids = Inr es \<and> d = directory_page n es)"
    by (rule directory_run [OF ok, of rq]) blast
  from assms(4) obtain n es where es: "directory_entries env (or_else filters []) ids = Inr es" "d = directory_page n es" unfolding runs by blast
  have "e \<in> set es" using assms(5) unfolding es(2) directory_page_def by (auto dest!: in_set_takeD in_set_dropD)
  from entry_source [OF es(1) this] obtain b covered shown org where b: "directory_batches env (or_else filters []) (map org_id shown) = Inr b" "org \<in> set shown"
    and e: "entry_of env b covered org = Inr e" and top: "companyParentOf (rd_orgs (oe_reads env)) (org_id org) (oe_operators env) = Inr None" by blast
  have i: "org_id org \<in> set (map org_id shown)" using b(2) by simp
  from e obtain row rec where row: "snapshotRow (oe_dates env) (or_else (map_of (db_snaps b) (org_id org)) Missing) (org_id org) None = Inr row"
    and rec: "batch_status env (db_status b) (org_id org) = Inr rec"
    and entry: "directoryEntry org row (covered_child_count env covered (org_id org)) rec
         (or_else (Option.bind (db_approved b) (\<lambda>m. map_of m (org_id org))) Approved_absent)
         (Option.bind (db_terms b) (\<lambda>m. map_of m (org_id org)))
         (map_option (\<lambda>m. or_else (map_of m (org_id org)) 0) (db_stores b))
         (map_option (\<lambda>m. map_of m (org_id org)) (db_managers b)) = Inr e" by (auto simp: entry_of_def)
  from read_source [OF assms(6)] obtain a org' where v: "organization_view env a org' = Inr v" by blast
  have same: "org_id org' = org_id org" using view_fields [OF v] assms(7) entry_of_org [OF e] by simp
  from view_source [OF v] top obtain snap statusRecord approvedRecord profile ownTerms row' where
    one: "port (oe_snapshot env (org_id org)) = Inr snap" "ask (oe_status env) (org_id org) = Inr statusRecord"
      "ask (oe_approved env) (org_id org) = Inr approvedRecord" "ask (oe_profiles env) (org_id org) = Inr profile" "ask (oe_terms env) (org_id org) = Inr ownTerms"
      "snapshotRow (oe_dates env) snap (org_id org) None = Inr row'"
    and fields: "projectOrganizationFields (oe_number env) a \<lparr>pj_row = row', pj_parent = No_parent, pj_status = statusRecord,
         pj_terms = Some (or_else ownTerms no_terms, no_terms), pj_approved = approvedRecord, pj_profile = profile\<rparr> = Inr (ov_fields v)"
    unfolding same by blast
  note same_inputs = listed_inputs [OF assms(3) b(1) i]
  have row': "row' = row" and status: "statusRecord = rec" using same_inputs(1,2) one row rec by simp_all
  have "stored_profile \<lparr>pj_row = row', pj_parent = No_parent, pj_status = statusRecord,
         pj_terms = Some (or_else ownTerms no_terms, no_terms), pj_approved = approvedRecord, pj_profile = profile\<rparr> name = None"
  proof (cases "name \<in> {Common_name_en, Common_name_ar}")
    case True
    with assms(9) one(4) show ?thesis by (auto simp: stored_profile_def ask_def)
  next
    case False
    with assms(8) show ?thesis by (cases name) (auto simp: stored_profile_def ORGANIZATION_PROFILE_SOURCES_def)
  qed
  then have project: "project_field (oe_number env) \<lparr>pj_row = row', pj_parent = No_parent, pj_status = statusRecord,
         pj_terms = Some (or_else ownTerms no_terms, no_terms), pj_approved = approvedRecord, pj_profile = profile\<rparr> name = Inr x"
    using same_inputs(3,4) one(3,5) by (intro listed_project [OF entry assms(8), where own = "or_else ownTerms no_terms"]) (simp_all add: row' status)
  have "name \<in> set (ORGANIZATION_FIELDS_BY_AUDIENCE a)"
    using assms(8) by (cases a; cases name) (simp_all add: ADMIN_FIELDS_def STAFF_FIELDS_def EMPLOYER_FIELDS_def)
  from projected_lookup [OF fields this] project have "map_of (ov_fields v) name = Some x" by auto
  moreover have "ov_parent v = None" using view_fields [OF v] top same by simp
  ultimately show ?thesis by blast
qed

section \<open>The directory at work\<close>

lemma demo_chains: "company_chain sample_orgs ''kw'' [''hq''] = [''kw'']" "company_chain sample_orgs ''shop'' [''hq''] = [''shop'', ''kw'']"
  by (simp_all add: company_chain_def ancestorOrgIdsIncludingSelf_def indexOrganizations_def by_id_def sample_orgs_def parent_row_def)

lemma demo_parents: "companyParentOf sample_orgs ''kw'' [''hq''] = Inr None" "companyParentOf sample_orgs ''shop'' [''hq''] = Inr (Some ''kw'')"
  by (simp_all add: companyParentOf_def demo_chains Let_def) (simp_all add: sample_orgs_def)

lemma demo_compare: "collation (oe_compare demo_env)"
  by (auto simp: collation_def demo_env_def split: if_splits)

lemma demo_reads: "oe_reads demo_env = reads_of granted_store" "oe_operators demo_env = [''hq'']"
  by (simp_all add: demo_env_def)

lemma demo_scope: "in_scope demo_env (demo_request ''hq'' ''staff'') = {''kw'', ''shop''}"
  using demo_tree by (auto simp: in_scope_def demo_reads sample_reads demo_request_def [of "''hq''" "''staff''", symmetric] demo_permitted) (simp_all add: demo_request_def)

definition demo_entry :: dir_entry where
  "demo_entry = \<lparr>de_org = ''kw'', de_name = ''Kuwait'', de_subs = 1, de_legal = unavailable Legal_name Not_imported, de_en = unavailable Common_name_en Not_imported,
     de_ar = unavailable Common_name_ar Not_imported, de_currency = unavailable Currency_code Not_imported, de_approved = unavailable Approved_to_hire Not_imported,
     de_status = unavailable Status Not_imported, de_stores = None, de_manager = None\<rparr>"

lemma demo_ports: "oe_snapshot demo_env = memory_snapshot []" "oe_snapshots demo_env = memory_snapshots []" "oe_status demo_env = None" "oe_status_many demo_env = None"
  "oe_terms demo_env = None" "oe_terms_many demo_env = None" "oe_approved demo_env = None" "oe_approved_many demo_env = None" "oe_store_counts demo_env = None"
  "oe_managers demo_env = None" "oe_is_deleted demo_env = None" "oe_deleted_among demo_env = None" "oe_profiles demo_env = None"
  by (simp_all add: demo_env_def)

definition demo_kw :: organization where
  "demo_kw = \<lparr>org_id = ''kw'', org_name = ''Kuwait'', org_parent = Some ''hq''\<rparr>"

lemma demo_kw_id [simp]: "org_id demo_kw = ''kw''" "org_name demo_kw = ''Kuwait''"
  by (simp_all add: demo_kw_def)

lemma demo_batches: "directory_batches demo_env [] [''kw''] = Inr \<lparr>db_status = None, db_approved = None, db_terms = None, db_stores = None,
    db_snaps = [(''kw'', Missing)], db_managers = None\<rparr>"
  by (simp add: directory_batches_def demo_ports ask_many_def memory_snapshots_def port_def)

lemma demo_shown:
  assumes "set ids = {''kw'', ''shop''}"
  shows "shown_orgs demo_env ids (rd_orgs (oe_reads demo_env)) = Inr [demo_kw]" "covered_child_count demo_env ids ''kw'' = 1"
proof -
  have ids: "''hq'' \<notin> set ids" "''kw'' \<in> set ids" "''shop'' \<in> set ids" using assms by simp_all
  have "rd_orgs (oe_reads demo_env) = sample_orgs" by (simp add: demo_reads sample_reads)
  moreover have "sample_orgs = [\<lparr>org_id = ''hq'', org_name = ''HQ'', org_parent = None\<rparr>, demo_kw, \<lparr>org_id = ''shop'', org_name = ''Shop'', org_parent = Some ''kw''\<rparr>]"
    by (simp add: sample_orgs_def demo_kw_def)
  moreover have "shown_orgs demo_env ids [\<lparr>org_id = ''hq'', org_name = ''HQ'', org_parent = None\<rparr>, demo_kw, \<lparr>org_id = ''shop'', org_name = ''Shop'', org_parent = Some ''kw''\<rparr>]
      = Inr [demo_kw]"
    using ids by (simp add: demo_reads(1,2) sample_reads(3) demo_parents)
  ultimately show "shown_orgs demo_env ids (rd_orgs (oe_reads demo_env)) = Inr [demo_kw]" by simp
  show "covered_child_count demo_env ids ''kw'' = 1"
    using ids unfolding covered_child_count_def children_of_def demo_reads(1) sample_reads(3) sample_orgs_def by simp
qed

lemma demo_entry_of:
  assumes "set ids = {''kw'', ''shop''}"
  shows "entry_of demo_env \<lparr>db_status = None, db_approved = None, db_terms = None, db_stores = None, db_snaps = [(''kw'', Missing)], db_managers = None\<rparr> ids demo_kw
      = Inr demo_entry"
  unfolding entry_of_def demo_entry_def
  by (simp add: or_else_def del: One_nat_def, simp add: snapshotRow_def batch_status_def ask_def demo_ports del: One_nat_def,
      simp only: demo_shown(2) [OF assms], simp add: directoryEntry_def storedCurrency_def listed_status_def del: One_nat_def)

lemma demo_entries:
  assumes "set ids = {''kw'', ''shop''}"
  shows "directory_entries demo_env [] ids = Inr [demo_entry]"
proof -
  have "deleted_among demo_env ids = Inr []" by (simp add: deleted_among_def demo_ports)
  moreover have "filter (\<lambda>i. i \<notin> set []) ids = ids" by simp
  moreover have "map org_id [demo_kw] = [''kw'']" by simp
  ultimately show ?thesis
    unfolding directory_entries_def by (simp only: bind_result_simps Let_def demo_shown(1) [OF assms] demo_batches) (simp add: demo_entry_of [OF assms] del: bind_result_Inr)
qed

lemma demo_ok: "reads_ok (oe_reads demo_env)"
  using reads_of_ok [OF reachable_store_ok [OF granted_reachable]] by (simp add: demo_reads)

lemma demo_page: "directory_listOrganizations demo_env (demo_request ''hq'' ''staff'') None None = Some (Answer (directory_page 1 [demo_entry]))"
proof -
  obtain ids where ids: "set ids = in_scope demo_env (demo_request ''hq'' ''staff'')"
    and runs: "\<And>filters pageV d. directory_listOrganizations demo_env (demo_request ''hq'' ''staff'') filters pageV = Some (Answer d) \<longleftrightarrow>
        rq_role (demo_request ''hq'' ''staff'') \<in> set ORGANIZATION_DIRECTORY_ROLES \<and> validDirectoryFilters (or_else filters [])
      \<and> permitted (oe_reads demo_env) (demo_request ''hq'' ''staff'') (rq_org (demo_request ''hq'' ''staff''))
      \<and> (\<exists>x. ask (oe_is_deleted demo_env) (rq_org (demo_request ''hq'' ''staff'')) = Inr x \<and> x \<noteq> Some True)
      \<and> (map_of (or_else filters []) ''accountManager'' \<noteq> None \<longrightarrow> oe_managers demo_env \<noteq> None)
      \<and> (\<exists>n es. directory_number pageV = Some n \<and> directory_entries demo_env (or_else filters []) ids = Inr es \<and> d = directory_page n es)"
    by (rule directory_run [OF demo_ok, of "demo_request ''hq'' ''staff''"]) blast
  have "directory_entries demo_env [] ids = Inr [demo_entry]" using ids by (intro demo_entries) (simp add: demo_scope)
  moreover have "permitted (oe_reads demo_env) (demo_request ''hq'' ''staff'') ''hq''" by (simp add: demo_reads demo_permitted)
  ultimately show ?thesis unfolding runs
    by (simp add: or_else_def validDirectoryFilters_def directory_number_def nullish_def ask_def demo_ports ORGANIZATION_DIRECTORY_ROLES_def demo_request_def [of "''hq''"])
qed

theorem directory_is_exact_witness:
  "directory_listOrganizations demo_env (demo_request ''hq'' ''staff'') None None = Some (Answer (directory_page 1 [demo_entry]))
    \<and> (\<exists>es. directory_listOrganizations demo_env (demo_request ''hq'' ''staff'') None (Some (js_int 2)) = Some (Answer (directory_page 2 es)) \<and> de_org ` set es = {''kw''})"
proof -
  have "permitted (oe_reads demo_env) (demo_request ''hq'' ''staff'') i \<longleftrightarrow> i \<in> {''hq'', ''kw'', ''shop''}" for i by (simp add: demo_reads demo_permitted)
  have orgs: "listOrganizations granted_store = sample_orgs" using sample_reads(3) by (simp add: reads_of_def)
  from directory_is_exact [OF granted_reachable demo_reads(1) demo_compare demo_page] obtain es ids deleted where
    "set ids = in_scope demo_env (demo_request ''hq'' ''staff'')" and d: "deleted_among demo_env ids = Inr deleted"
    and pages: "\<forall>k\<ge>1. k \<le> MAX_SAFE \<longrightarrow> directory_listOrganizations demo_env (demo_request ''hq'' ''staff'') None (Some (js_int k)) = Some (Answer (directory_page k es))"
    and S: "de_org ` set es = {i \<in> in_scope demo_env (demo_request ''hq'' ''staff''). i \<notin> set deleted
       \<and> companyParentOf (listOrganizations granted_store) i (oe_operators demo_env) = Inr None}"
    by (auto simp: Let_def or_else_def)
  have "deleted = []" using d by (auto simp: deleted_among_def demo_ports split: if_splits)
  then have "de_org ` set es = {''kw''}" unfolding S by (auto simp: demo_scope orgs demo_reads(2) demo_parents)
  moreover have "directory_listOrganizations demo_env (demo_request ''hq'' ''staff'') None (Some (js_int 2)) = Some (Answer (directory_page 2 es))"
    using pages by (simp add: MAX_SAFE_def)
  ultimately show ?thesis using demo_page by blast
qed

theorem directory_agrees_with_view_witness:
  "\<exists>v. organization_read demo_env (demo_request ''kw'' ''staff'') = Answer v \<and> map_of (ov_fields v) Status = Some (de_status demo_entry)"
proof -
  have agree: "ports_agree demo_env"
    unfolding ports_agree_def demo_ports by (intro conjI memory_adapter.agreeing_reader_axioms impI refl) (unfold_locales, simp)+
  have "readable demo_env (demo_request ''kw'' ''staff'')"
    using demo_permitted [of "''kw''" "''staff''" "''kw''"]
    by (simp add: readable_def demo_reads demo_ports ask_def) (simp add: demo_request_def ORGANIZATION_AUDIENCE_BY_ROLE_def)
  have "authorize demo_env (demo_request ''kw'' ''staff'') ''kw'' = Inr (Some Staff_audience)"
    using resolve_permitted [OF demo_ok, of "demo_request ''kw'' ''staff''" "''kw''"] demo_permitted [of "''kw''" "''staff''" "''kw''"]
    by (auto simp: authorize_def demo_reads demo_ports ask_def demo_request_def ORGANIZATION_AUDIENCE_BY_ROLE_def)
  moreover have "find (\<lambda>o'. org_id o' = ''kw'') (rd_orgs (oe_reads demo_env)) = Some demo_kw"
    unfolding demo_reads(1) sample_reads(3) by (simp add: sample_orgs_def demo_kw_def)
  moreover have "\<exists>v. organization_view demo_env Staff_audience demo_kw = Inr v"
  proof -
    have "\<exists>x. project_field nt \<lparr>pj_row = None, pj_parent = No_parent, pj_status = None, pj_terms = Some (no_terms, no_terms), pj_approved = None, pj_profile = None\<rparr> name = Inr x" for nt name
      by (simp add: project_field_def storedCurrency_def storedDecimal_def stored_profile_def row_field_def no_terms_def term_of_def)
    then have "\<exists>fs. projectOrganizationFields nt a \<lparr>pj_row = None, pj_parent = No_parent, pj_status = None, pj_terms = Some (no_terms, no_terms), pj_approved = None, pj_profile = None\<rparr> = Inr fs" for nt a
      unfolding projectOrganizationFields_def by (intro map_result_ok) (metis map_sum.simps(2))
    then show ?thesis
      by (simp add: organization_view_def demo_reads(1,2) sample_reads(3) demo_parents demo_ports memory_snapshot_def port_def ask_def snapshotRow_def
          parent_snapshot_def or_else_def)
  qed
  ultimately have "\<exists>v. organization_read demo_env (demo_request ''kw'' ''staff'') = Answer v \<and> ov_org v = ''kw''"
    using view_fields [of demo_env Staff_audience demo_kw] by (auto simp: organization_read_def demo_request_def [of "''kw''"])
  then obtain v where v: "organization_read demo_env (demo_request ''kw'' ''staff'') = Answer v" "ov_org v = ''kw''" by blast
  have "demo_entry \<in> set (dr_entries (directory_page 1 [demo_entry]))" by (simp add: directory_page_def ORGANIZATION_DIRECTORY_PAGE_SIZE_def)
  from directory_agrees_with_view [OF granted_reachable demo_reads(1) agree demo_page this v(1), of Status] v show ?thesis by (simp add: demo_entry_def)
qed

end
