(* ===== verification/Document_State.thy ===== *)
theory Document_State
  imports Idempotency Js_Values Json_Text Base64url
begin

declare map_of_eq_Some_iff [simp del] Some_eq_map_of_iff [simp del]

text \<open>
  Private documents, the state a transaction reads and writes: \<^verbatim>\<open>DocumentState\<close> of
  \<^verbatim>\<open>packages/private-documents/src/index.ts\<close>, \<^verbatim>\<open>LifecycleState\<close> of \<^verbatim>\<open>lifecycle-state.ts\<close>,
  the JSON they are stored as, with members in the order the operations create them, and the
  validation of such JSON. Bytes are characters. The text of a number is a parameter \<open>nt\<close>.
\<close>

section \<open>Base64 with padding\<close>

definition std_digit :: "char \<Rightarrow> char" where
  "std_digit c = (if c = CHR ''-'' then CHR ''+'' else if c = CHR 0x5F then CHR ''/'' else c)"

definition url_digit :: "char \<Rightarrow> char" where
  "url_digit c = (if c = CHR ''+'' then CHR ''-'' else if c = CHR ''/'' then CHR 0x5F else c)"

text \<open>\<open>toString('base64')\<close>, and \<open>Buffer.from(s, 'base64')\<close>, which takes either alphabet and skips
  every other character.\<close>

definition b64_text :: "string \<Rightarrow> string" where
  "b64_text bs = map std_digit (b64_encode bs) @ replicate ((3 - length bs mod 3) mod 3) (CHR ''='')"

definition b64_bytes :: "string \<Rightarrow> string" where
  "b64_bytes s = b64_decode (map url_digit (filter (\<lambda>c. alnum c \<or> c \<in> {CHR ''+'', CHR ''/'', CHR ''-'', CHR 0x5F}) s))"

lemma url_std_digit: "b64_alphabet c \<Longrightarrow> url_digit (std_digit c) = c"
  by (auto simp: url_digit_def std_digit_def b64_alphabet_def alnum_def Let_def)

lemma std_digit_alphabet: "b64_alphabet c \<Longrightarrow> alnum (std_digit c) \<or> std_digit c \<in> {CHR ''+'', CHR ''/'', CHR ''-'', CHR 0x5F}"
proof (cases "c = CHR ''-'' \<or> c = CHR 0x5F")
  case False
  assume "b64_alphabet c"
  then have "alnum c \<or> byte c = byte (CHR 0x5F) \<or> byte c = byte (CHR ''-'')" by (auto simp: b64_alphabet_def)
  with False have "alnum c" by (simp only: of_char_eq_iff) simp
  with False show ?thesis by (simp add: std_digit_def)
qed (auto simp: std_digit_def)

lemma b64_bytes_text [simp]: "b64_bytes (b64_text bs) = bs"
proof -
  have keep: "filter (\<lambda>c. alnum c \<or> c \<in> {CHR ''+'', CHR ''/'', CHR ''-'', CHR 0x5F}) (map std_digit (b64_encode bs)) = map std_digit (b64_encode bs)"
    using b64_encode_alphabet [of bs] std_digit_alphabet by (auto simp: filter_id_conv list_all_iff simp del: insert_iff)
  have pad: "filter (\<lambda>c. alnum c \<or> c \<in> {CHR ''+'', CHR ''/'', CHR ''-'', CHR 0x5F}) (replicate n (CHR ''='')) = []" for n
    by (induction n) (simp_all add: alnum_def)
  have "map (url_digit \<circ> std_digit) (b64_encode bs) = b64_encode bs"
    using b64_encode_alphabet [of bs] by (intro map_idI) (simp add: url_std_digit list_all_iff)
  then show ?thesis by (simp only: b64_bytes_def b64_text_def filter_append keep pad) (simp add: b64_round_trip)
qed

section \<open>Documents\<close>

record scope =
  sc_org :: string
  sc_person :: "string option"

record document_data =
  dc_scope :: scope
  dc_type :: string
  dc_mime :: string
  dc_size :: int
  dc_data :: string

record stored_document = document_data +
  dc_id :: string
  dc_version :: string

record metadata =
  md_id :: string
  md_version :: string
  md_type :: string
  md_mime :: string
  md_size :: int

section \<open>The journal of uploads\<close>

definition CANDIDATE_DOCUMENT_TYPES :: "string list" where
  "CANDIDATE_DOCUMENT_TYPES = [''personal-photo'', ''resume'', ''civil-id-front'', ''civil-id-back'']"

record upload_ticket =
  tk_id :: string
  tk_objectKey :: string
  tk_principal :: string
  tk_org :: string
  tk_type :: string
  tk_mime :: string
  tk_size :: int
  tk_expected :: "string option"
  tk_issued :: int
  tk_expires :: int
  tk_expectedDigest :: "string option"
  tk_contentMd5 :: "string option"
  tk_data :: "string option"
  tk_digest :: "string option"
  tk_committed :: "bool option"

record receipt =
  rc_principal :: string
  rc_key :: string
  rc_fingerprint :: string
  rc_expires :: int
  rc_response :: stored_response

datatype cleanup_status = Held | Purged

record cleanup_entry =
  cl_id :: string
  cl_document :: string
  cl_version :: string
  cl_retired :: int
  cl_status :: cleanup_status

datatype audit_operation = Finalized | Removed_document | Listed | Issued_delivery | Delivered

record audit_entry =
  au_id :: string
  au_operation :: audit_operation
  au_principal :: string
  au_at :: int

record lifecycle_state =
  lf_uploads :: "upload_ticket list"
  lf_receipts :: "receipt list"
  lf_cleanup :: "cleanup_entry list"
  lf_audit :: "audit_entry list"

definition emptyLifecycleState :: lifecycle_state where
  "emptyLifecycleState = \<lparr>lf_uploads = [], lf_receipts = [], lf_cleanup = [], lf_audit = []\<rparr>"

record document_state =
  ds_documents :: "stored_document list"
  ds_retired :: "stored_document list"
  ds_lifecycle :: "lifecycle_state option"

definition empty_documents :: document_state where
  "empty_documents = \<lparr>ds_documents = [], ds_retired = [], ds_lifecycle = None\<rparr>"

section \<open>The state as JSON\<close>

definition opt_member :: "string \<Rightarrow> ('a \<Rightarrow> json) \<Rightarrow> 'a option \<Rightarrow> (string \<times> json) list" where
  "opt_member k f x = (case x of None \<Rightarrow> [] | Some v \<Rightarrow> [(k, f v)])"

definition scope_json :: "scope \<Rightarrow> json" where
  "scope_json sc = JObj ((''orgId'', JStr (sc_org sc)) # opt_member ''personId'' JStr (sc_person sc))"

definition document_json :: "stored_document \<Rightarrow> json" where
  "document_json d = JObj [(''scope'', scope_json (dc_scope d)), (''type'', JStr (dc_type d)), (''mime'', JStr (dc_mime d)),
     (''size'', js_int (dc_size d)), (''data'', JStr (dc_data d)), (''acl'', JStr ''private''),
     (''id'', JStr (dc_id d)), (''version'', JStr (dc_version d))]"

definition metadata_json :: "metadata \<Rightarrow> json" where
  "metadata_json m = JObj [(''id'', JStr (md_id m)), (''version'', JStr (md_version m)), (''type'', JStr (md_type m)),
     (''mime'', JStr (md_mime m)), (''size'', js_int (md_size m))]"

definition ticket_json :: "upload_ticket \<Rightarrow> json" where
  "ticket_json t = JObj ([(''id'', JStr (tk_id t)), (''objectKey'', JStr (tk_objectKey t)), (''principalId'', JStr (tk_principal t)),
     (''orgId'', JStr (tk_org t)), (''type'', JStr (tk_type t)), (''mime'', JStr (tk_mime t)), (''size'', js_int (tk_size t)),
     (''expectedVersion'', case tk_expected t of None \<Rightarrow> JNull | Some v \<Rightarrow> JStr v),
     (''issuedAt'', js_int (tk_issued t)), (''expiresAt'', js_int (tk_expires t))]
     @ opt_member ''expectedDigest'' JStr (tk_expectedDigest t) @ opt_member ''contentMd5'' JStr (tk_contentMd5 t)
     @ opt_member ''data'' JStr (tk_data t) @ opt_member ''digest'' JStr (tk_digest t) @ opt_member ''committed'' JBool (tk_committed t))"

definition response_json :: "stored_response \<Rightarrow> json" where
  "response_json r = JObj ((''status'', js_int (sr_status r))
     # opt_member ''headers'' (\<lambda>h. JObj (map (\<lambda>(k, v). (k, JStr v)) h)) (sr_headers r) @ opt_member ''body'' id (sr_body r))"

definition receipt_json :: "receipt \<Rightarrow> json" where
  "receipt_json r = JObj [(''principalRef'', JStr (rc_principal r)), (''key'', JStr (rc_key r)), (''fingerprint'', JStr (rc_fingerprint r)),
     (''expiresAt'', js_int (rc_expires r)), (''response'', response_json (rc_response r))]"

fun cleanup_status_text :: "cleanup_status \<Rightarrow> string" where
  "cleanup_status_text Held = ''held''"
| "cleanup_status_text Purged = ''deleted''"

definition cleanup_json :: "cleanup_entry \<Rightarrow> json" where
  "cleanup_json c = JObj [(''id'', JStr (cl_id c)), (''documentId'', JStr (cl_document c)), (''version'', JStr (cl_version c)),
     (''retiredAt'', js_int (cl_retired c)), (''status'', JStr (cleanup_status_text (cl_status c)))]"

fun audit_operation_text :: "audit_operation \<Rightarrow> string" where
  "audit_operation_text Finalized = ''finalize''"
| "audit_operation_text Removed_document = ''remove''"
| "audit_operation_text Listed = ''list''"
| "audit_operation_text Issued_delivery = ''issueDelivery''"
| "audit_operation_text Delivered = ''deliver''"

definition audit_json :: "audit_entry \<Rightarrow> json" where
  "audit_json a = JObj [(''id'', JStr (au_id a)), (''operation'', JStr (audit_operation_text (au_operation a))),
     (''principalRef'', JStr (au_principal a)), (''at'', js_int (au_at a))]"

definition lifecycle_json :: "lifecycle_state \<Rightarrow> json" where
  "lifecycle_json l = JObj [(''format'', js_int 1), (''uploads'', JArr (map ticket_json (lf_uploads l))),
     (''receipts'', JArr (map receipt_json (lf_receipts l))), (''cleanup'', JArr (map cleanup_json (lf_cleanup l))),
     (''audit'', JArr (map audit_json (lf_audit l)))]"

definition state_json :: "document_state \<Rightarrow> json" where
  "state_json s = JObj ([(''format'', js_int 1), (''documents'', JArr (map document_json (ds_documents s))),
     (''retired'', JArr (map document_json (ds_retired s)))] @ opt_member ''lifecycle'' lifecycle_json (ds_lifecycle s))"

section \<open>What the code asks of values\<close>

definition is_record :: "json option \<Rightarrow> bool" where
  "is_record v = (case v of Some (JObj m) \<Rightarrow> True | _ \<Rightarrow> False)"

definition exact :: "json \<Rightarrow> string list \<Rightarrow> bool" where
  "exact v names = (case v of JObj m \<Rightarrow> set (map fst m) \<subseteq> set names | _ \<Rightarrow> False)"

definition array_of :: "json option \<Rightarrow> json list option" where
  "array_of v = (case v of Some (JArr xs) \<Rightarrow> Some xs | _ \<Rightarrow> None)"

definition is_text :: "json option \<Rightarrow> (string \<Rightarrow> bool) \<Rightarrow> bool" where
  "is_text v P = (case v of Some (JStr s) \<Rightarrow> P s | _ \<Rightarrow> False)"

definition text_of :: "json option \<Rightarrow> string" where
  "text_of v = (case v of Some (JStr s) \<Rightarrow> s | _ \<Rightarrow> [])"

text \<open>\<open>String(v)\<close>, which \<open>RegExp.test\<close> and template literals apply.\<close>

fun js_text :: "(rat \<Rightarrow> string) \<Rightarrow> json \<Rightarrow> string" where
  "js_text nt (JStr s) = s"
| "js_text nt JNull = ''null''"
| "js_text nt (JBool b) = (if b then ''true'' else ''false'')"
| "js_text nt (JNum n) = (case n of None \<Rightarrow> ''NaN'' | Some r \<Rightarrow> nt r)"
| "js_text nt (JArr xs) = js_join '','' (map (\<lambda>x. case x of JNull \<Rightarrow> [] | _ \<Rightarrow> js_text nt x) xs)"
| "js_text nt (JObj m) = ''[object Object]''"

definition js_text_of :: "(rat \<Rightarrow> string) \<Rightarrow> json option \<Rightarrow> string" where
  "js_text_of nt v = (case v of None \<Rightarrow> ''undefined'' | Some j \<Rightarrow> js_text nt j)"

text \<open>\<open>/^[0-9a-f]{8}-[0-9a-f]{4}-4[0-9a-f]{3}-[89ab][0-9a-f]{3}-[0-9a-f]{12}$/\<close> and
  \<open>/^[\w-]{1,128}$/\<close>.\<close>

definition uuid :: "string \<Rightarrow> bool" where
  "uuid s \<longleftrightarrow> uuid_v4 s \<and> list_all (\<lambda>c. c \<notin> set ''ABCDEF'') s"

definition name_ok :: "string \<Rightarrow> bool" where
  "name_ok s \<longleftrightarrow> s \<noteq> [] \<and> length s \<le> 128 \<and> list_all b64_alphabet s"

definition instant :: "json option \<Rightarrow> bool" where
  "instant v = nonNegativeInteger v"

section \<open>Uploads\<close>

datatype document_code = Denied_code | Invalid_code | Unavailable_code

datatype upload_value = Plain json | Buffer string

type_synonym upload_input = "(string, upload_value) js_map"

definition DOCUMENT_TYPES :: "string list" where
  "DOCUMENT_TYPES = [''personal-photo'', ''resume'', ''civil-id-front'', ''civil-id-back'', ''video'', ''video-thumbnail'',
     ''company-logo'', ''commercial-licence'']"

definition orgType :: "string \<Rightarrow> bool" where
  "orgType t \<longleftrightarrow> t = ''company-logo'' \<or> t = ''commercial-licence''"

definition scopeOf :: "json option \<Rightarrow> document_code + scope" where
  "scopeOf v = (case v of
       Some (JObj m) \<Rightarrow>
         (if \<not> exact (JObj m) [''orgId'', ''personId''] \<or> \<not> is_text (map_of m ''orgId'') name_ok
             \<or> (map_of m ''personId'' \<noteq> None \<and> \<not> is_text (map_of m ''personId'') name_ok) then Inl Invalid_code
          else Inr \<lparr>sc_org = text_of (map_of m ''orgId''), sc_person = map_option (\<lambda>p. text_of (Some p)) (map_of m ''personId'')\<rparr>)
     | _ \<Rightarrow> Inl Invalid_code)"

definition privateAcl :: "upload_value option \<Rightarrow> bool" where
  "privateAcl v \<longleftrightarrow> v = None \<or> v = Some (Plain (JStr ''private''))"

definition PNG_MAGIC :: string where
  "PNG_MAGIC = map of_byte [137, 80, 78, 71, 13, 10, 26, 10]"

definition JPEG_MAGIC :: string where
  "JPEG_MAGIC = map of_byte [255, 216, 255]"

definition is_image :: "string \<Rightarrow> string \<Rightarrow> bool" where
  "is_image mime bytes \<longleftrightarrow> mime = ''image/png'' \<and> take 8 bytes = PNG_MAGIC \<or> mime = ''image/jpeg'' \<and> take 3 bytes = JPEG_MAGIC"

text \<open>\<open>toString('ascii')\<close> drops the high bit of every byte.\<close>

definition ascii :: "string \<Rightarrow> string" where
  "ascii bytes = map (\<lambda>c. of_byte (byte c mod 128)) bytes"

definition validateContent :: "string \<Rightarrow> string \<Rightarrow> string \<Rightarrow> bool" where
  "validateContent type mime bytes =
     (let pdf = mime = ''application/pdf'' \<and> ascii (take 5 bytes) = ''%PDF-'';
          mp4 = mime = ''video/mp4'' \<and> length bytes \<ge> 16 \<and> ascii (take 4 (drop 4 bytes)) = ''ftyp''
      in type \<in> set DOCUMENT_TYPES \<and> bytes \<noteq> [] \<and> length bytes \<le> (if type = ''video'' then 100 else 10) * 1024 * 1024
         \<and> (if type = ''video'' then mp4 else if type = ''resume'' then pdf
            else if type = ''commercial-licence'' then pdf \<or> is_image mime bytes else is_image mime bytes))"

fun plain :: "upload_value option \<Rightarrow> json option" where
  "plain (Some (Plain v)) = Some v"
| "plain (Some (Buffer b)) = Some (JObj [(''0'', JNull)])"
| "plain None = None"

text \<open>A buffer where JSON is expected is an object whose members are none of the expected ones.
  An input that is not an object is \<open>None\<close>.\<close>

definition uploadOf :: "upload_input option \<Rightarrow> document_code + document_data" where
  "uploadOf v = (case v of
       None \<Rightarrow> Inl Invalid_code
     | Some m \<Rightarrow>
         (if \<not> set (map fst m) \<subseteq> set [''scope'', ''type'', ''mime'', ''bytes'', ''acl''] then Inl Invalid_code
          else case (map_of m ''type'', map_of m ''mime'', map_of m ''bytes'') of
            (Some (Plain (JStr type)), Some (Plain (JStr mime)), Some (Buffer bytes)) \<Rightarrow>
              (if \<not> privateAcl (map_of m ''acl'') then Inl Invalid_code
               else bind_result (scopeOf (plain (map_of m ''scope''))) (\<lambda>scope.
                 if \<not> validateContent type mime bytes \<or> orgType type \<noteq> (sc_person scope = None) then Inl Invalid_code
                 else Inr \<lparr>dc_scope = scope, dc_type = type, dc_mime = mime, dc_size = int (length bytes), dc_data = b64_text bytes\<rparr>))
          | _ \<Rightarrow> Inl Invalid_code))"

section \<open>Validation\<close>

definition plain_member :: "string \<Rightarrow> json option \<Rightarrow> upload_input" where
  "plain_member k v = (case v of None \<Rightarrow> [] | Some j \<Rightarrow> [(k, Plain j)])"

definition valid_document :: "json \<Rightarrow> bool" where
  "valid_document v \<longleftrightarrow>
     exact v [''id'', ''version'', ''type'', ''mime'', ''size'', ''scope'', ''acl'', ''data''] \<and> is_text (json_get v ''id'') uuid
     \<and> is_text (json_get v ''version'') uuid \<and> json_get v ''acl'' = Some (JStr ''private'') \<and> is_text (json_get v ''data'') (\<lambda>_. True)
     \<and> Js_Values.safe_integer (json_get v ''size'') \<noteq> None \<and> is_text (json_get v ''type'') (\<lambda>_. True) \<and> is_text (json_get v ''mime'') (\<lambda>_. True)
     \<and> (let bytes = b64_bytes (text_of (json_get v ''data''))
        in b64_text bytes = text_of (json_get v ''data'') \<and> Js_Values.safe_integer (json_get v ''size'') = Some (int (length bytes))
           \<and> (\<not> isl (uploadOf (Some (plain_member ''scope'' (json_get v ''scope'') @ plain_member ''type'' (json_get v ''type'')
                 @ plain_member ''mime'' (json_get v ''mime'') @ [(''bytes'', Buffer bytes)] @ plain_member ''acl'' (json_get v ''acl''))))))"

definition IMAGE_TYPES :: "string list" where
  "IMAGE_TYPES = [''image/png'', ''image/jpeg'']"

definition md5_text :: "string \<Rightarrow> bool" where
  "md5_text s \<longleftrightarrow> length s = 24 \<and> list_all (\<lambda>c. alnum c \<or> c \<in> {CHR ''+'', CHR ''/''}) (take 22 s) \<and> drop 22 s = ''==''"

definition valid_ticket :: "(rat \<Rightarrow> string) \<Rightarrow> json \<Rightarrow> bool" where
  "valid_ticket nt v \<longleftrightarrow> (let m = json_get v; id = js_text_of nt (m ''id'') in
     exact v [''id'', ''objectKey'', ''principalId'', ''orgId'', ''type'', ''mime'', ''size'', ''expectedVersion'', ''issuedAt'', ''expiresAt'',
       ''data'', ''digest'', ''committed'', ''expectedDigest'', ''contentMd5'']
     \<and> uuid id \<and> m ''objectKey'' = Some (JStr (''uploads/'' @ id))
     \<and> name_ok (js_text_of nt (m ''principalId'')) \<and> name_ok (js_text_of nt (m ''orgId''))
     \<and> is_text (m ''type'') (\<lambda>t. t \<in> set CANDIDATE_DOCUMENT_TYPES)
     \<and> (if m ''type'' = Some (JStr ''resume'') then m ''mime'' = Some (JStr ''application/pdf'') else is_text (m ''mime'') (\<lambda>t. t \<in> set IMAGE_TYPES))
     \<and> positiveInteger (m ''size'') \<and> int_of (m ''size'') \<le> 10 * 1024 * 1024
     \<and> (m ''expectedVersion'' = Some JNull \<or> uuid (js_text_of nt (m ''expectedVersion'')))
     \<and> instant (m ''issuedAt'') \<and> instant (m ''expiresAt'') \<and> int_of (m ''expiresAt'') > int_of (m ''issuedAt'')
     \<and> int_of (m ''expiresAt'') - int_of (m ''issuedAt'') \<le> 300000
     \<and> (m ''expectedDigest'' = None \<or> is_text (m ''expectedDigest'') reference_ok)
     \<and> (m ''contentMd5'' = None \<or> is_text (m ''contentMd5'') md5_text)
     \<and> (case m ''committed'' of None \<Rightarrow> True | Some c \<Rightarrow> (case c of JBool b \<Rightarrow> True | _ \<Rightarrow> False))
     \<and> (if m ''data'' = None then m ''digest'' = None
        else is_text (m ''data'') (\<lambda>s. reference_ok (js_text_of nt (m ''digest'')) \<and> b64_text (b64_bytes s) = s
               \<and> int (length (b64_bytes s)) = int_of (m ''size''))))"

definition valid_metadata :: "(rat \<Rightarrow> string) \<Rightarrow> json \<Rightarrow> bool" where
  "valid_metadata nt v \<longleftrightarrow> (let m = json_get v in
     exact v [''id'', ''version'', ''type'', ''mime'', ''size''] \<and> uuid (js_text_of nt (m ''id'')) \<and> uuid (js_text_of nt (m ''version''))
     \<and> is_text (m ''type'') (\<lambda>t. t \<in> set CANDIDATE_DOCUMENT_TYPES)
     \<and> is_text (m ''mime'') (\<lambda>t. t \<in> set (''application/pdf'' # IMAGE_TYPES)) \<and> Js_Values.safe_integer (m ''size'') \<noteq> None)"

definition valid_direct :: "json \<Rightarrow> bool" where
  "valid_direct v \<longleftrightarrow> exact v [''url'', ''headers''] \<and> is_text (json_get v ''url'') (\<lambda>s. length s < 8192)
     \<and> (case json_get v ''headers'' of None \<Rightarrow> False
        | Some h \<Rightarrow> exact h [''content-type'', ''content-length'', ''content-md5'', ''if-none-match''])"

definition valid_response :: "(rat \<Rightarrow> string) \<Rightarrow> json \<Rightarrow> bool" where
  "valid_response nt r \<longleftrightarrow> exact r [''status'', ''body''] \<and> Js_Values.safe_integer (json_get r ''status'') \<in> {Some 200, Some 201, Some 204}
     \<and> (case json_get r ''body'' of None \<Rightarrow> True | Some b \<Rightarrow>
          exact b [''uploadId'', ''objectKey'', ''credential'', ''expiresAt'', ''metadata'', ''removed'', ''directUpload'']
          \<and> (case json_get b ''directUpload'' of None \<Rightarrow> True | Some d \<Rightarrow> valid_direct d)
          \<and> (case json_get b ''metadata'' of None \<Rightarrow> True | Some md \<Rightarrow> valid_metadata nt md))"

text \<open>\<open>/^v1\.\d{13}\.[0-9a-f-]{36}$/\<close>.\<close>

definition stored_key :: "string \<Rightarrow> bool" where
  "stored_key key \<longleftrightarrow> length key = 53 \<and> take 3 key = ''v1.'' \<and> list_all digit_char (take 13 (drop 3 key)) \<and> key ! 16 = CHR ''.''
     \<and> list_all (\<lambda>c. hex_char c \<or> c = CHR ''-'') (drop 17 key)"

definition valid_receipt :: "(rat \<Rightarrow> string) \<Rightarrow> json \<Rightarrow> bool" where
  "valid_receipt nt v \<longleftrightarrow> (let m = json_get v in
     exact v [''principalRef'', ''key'', ''fingerprint'', ''expiresAt'', ''response'']
     \<and> reference_ok (js_text_of nt (m ''principalRef'')) \<and> reference_ok (js_text_of nt (m ''fingerprint''))
     \<and> stored_key (js_text_of nt (m ''key'')) \<and> instant (m ''expiresAt'')
     \<and> (case m ''response'' of None \<Rightarrow> False | Some r \<Rightarrow> valid_response nt r))"

definition valid_cleanup :: "(rat \<Rightarrow> string) \<Rightarrow> json \<Rightarrow> bool" where
  "valid_cleanup nt v \<longleftrightarrow> (let m = json_get v; doc = js_text_of nt (m ''documentId''); ver = js_text_of nt (m ''version'') in
     exact v [''id'', ''documentId'', ''version'', ''retiredAt'', ''status''] \<and> uuid doc \<and> uuid ver
     \<and> m ''id'' = Some (JStr (doc @ '':'' @ ver)) \<and> instant (m ''retiredAt'') \<and> is_text (m ''status'') (\<lambda>s. s \<in> set [''held'', ''deleted'']))"

definition valid_audit :: "(rat \<Rightarrow> string) \<Rightarrow> json \<Rightarrow> bool" where
  "valid_audit nt v \<longleftrightarrow> (let m = json_get v in
     exact v [''id'', ''operation'', ''principalRef'', ''at''] \<and> uuid (js_text_of nt (m ''id''))
     \<and> is_text (m ''operation'') (\<lambda>s. s \<in> set [''finalize'', ''remove'', ''list'', ''issueDelivery'', ''deliver''])
     \<and> reference_ok (js_text_of nt (m ''principalRef'')) \<and> instant (m ''at''))"

definition strings_of :: "json option list \<Rightarrow> string list" where
  "strings_of vs = List.map_filter (\<lambda>v. case v of Some (JStr s) \<Rightarrow> Some s | _ \<Rightarrow> None) vs"

text \<open>A set holds two values as one only where both are the same text.\<close>

definition validateLifecycleState :: "(rat \<Rightarrow> string) \<Rightarrow> json \<Rightarrow> bool" where
  "validateLifecycleState nt v \<longleftrightarrow>
     exact v [''format'', ''uploads'', ''receipts'', ''cleanup'', ''audit''] \<and> json_get v ''format'' = Some (js_int 1)
     \<and> (case (array_of (json_get v ''uploads''), array_of (json_get v ''receipts''), array_of (json_get v ''cleanup''), array_of (json_get v ''audit'')) of
          (Some uploads, Some receipts, Some cleanup, Some audit) \<Rightarrow>
            list_all (valid_ticket nt) uploads \<and> distinct (strings_of (map (\<lambda>t. json_get t ''id'') uploads))
            \<and> list_all (valid_receipt nt) receipts
            \<and> distinct (map (\<lambda>r. js_text_of nt (json_get r ''principalRef'') @ '':'' @ js_text_of nt (json_get r ''key'')) receipts)
            \<and> list_all (valid_cleanup nt) cleanup \<and> distinct (strings_of (map (\<lambda>c. json_get c ''id'') cleanup))
            \<and> list_all (valid_audit nt) audit
        | _ \<Rightarrow> False)"

definition validateState :: "(rat \<Rightarrow> string) \<Rightarrow> json \<Rightarrow> bool" where
  "validateState nt v \<longleftrightarrow>
     json_get v ''format'' = Some (js_int 1) \<and> exact v [''format'', ''documents'', ''retired'', ''lifecycle'']
     \<and> (case (array_of (json_get v ''documents''), array_of (json_get v ''retired'')) of
          (Some documents, Some retired) \<Rightarrow>
            (case json_get v ''lifecycle'' of None \<Rightarrow> True | Some l \<Rightarrow> validateLifecycleState nt l)
            \<and> list_all valid_document (documents @ retired) \<and> distinct (strings_of (map (\<lambda>d. json_get d ''id'') documents))
        | _ \<Rightarrow> False)"

section \<open>Validation of typed states\<close>

definition scope_ok :: "scope \<Rightarrow> bool" where
  "scope_ok sc \<longleftrightarrow> name_ok (sc_org sc) \<and> (case sc_person sc of None \<Rightarrow> True | Some p \<Rightarrow> name_ok p)"

definition data_ok :: "document_data \<Rightarrow> bool" where
  "data_ok d \<longleftrightarrow> scope_ok (dc_scope d) \<and> orgType (dc_type d) = (sc_person (dc_scope d) = None)
     \<and> b64_text (b64_bytes (dc_data d)) = dc_data d \<and> dc_size d = int (length (b64_bytes (dc_data d)))
     \<and> validateContent (dc_type d) (dc_mime d) (b64_bytes (dc_data d))"

definition document_ok :: "stored_document \<Rightarrow> bool" where
  "document_ok d \<longleftrightarrow> data_ok (document_data.truncate d) \<and> uuid (dc_id d) \<and> uuid (dc_version d)"

definition time_ok :: "int \<Rightarrow> bool" where
  "time_ok n \<longleftrightarrow> safe_count n"

definition ticket_ok :: "upload_ticket \<Rightarrow> bool" where
  "ticket_ok t \<longleftrightarrow> uuid (tk_id t) \<and> tk_objectKey t = ''uploads/'' @ tk_id t \<and> name_ok (tk_principal t) \<and> name_ok (tk_org t)
     \<and> tk_type t \<in> set CANDIDATE_DOCUMENT_TYPES
     \<and> (if tk_type t = ''resume'' then tk_mime t = ''application/pdf'' else tk_mime t \<in> set IMAGE_TYPES)
     \<and> 0 < tk_size t \<and> tk_size t \<le> 10 * 1024 * 1024 \<and> (case tk_expected t of None \<Rightarrow> True | Some v \<Rightarrow> uuid v)
     \<and> time_ok (tk_issued t) \<and> time_ok (tk_expires t) \<and> tk_issued t < tk_expires t \<and> tk_expires t - tk_issued t \<le> 300000
     \<and> (case tk_expectedDigest t of None \<Rightarrow> True | Some s \<Rightarrow> reference_ok s)
     \<and> (case tk_contentMd5 t of None \<Rightarrow> True | Some s \<Rightarrow> md5_text s)
     \<and> (case tk_data t of None \<Rightarrow> tk_digest t = None
        | Some s \<Rightarrow> (case tk_digest t of None \<Rightarrow> False | Some g \<Rightarrow> reference_ok g) \<and> b64_text (b64_bytes s) = s \<and> int (length (b64_bytes s)) = tk_size t)"

definition cleanup_ok :: "cleanup_entry \<Rightarrow> bool" where
  "cleanup_ok c \<longleftrightarrow> uuid (cl_document c) \<and> uuid (cl_version c) \<and> cl_id c = cl_document c @ '':'' @ cl_version c \<and> time_ok (cl_retired c)"

definition audit_ok :: "audit_entry \<Rightarrow> bool" where
  "audit_ok a \<longleftrightarrow> uuid (au_id a) \<and> reference_ok (au_principal a) \<and> time_ok (au_at a)"

definition lifecycle_ok :: "(rat \<Rightarrow> string) \<Rightarrow> lifecycle_state \<Rightarrow> bool" where
  "lifecycle_ok nt l \<longleftrightarrow> list_all ticket_ok (lf_uploads l) \<and> distinct (map tk_id (lf_uploads l))
     \<and> list_all (\<lambda>r. valid_receipt nt (receipt_json r)) (lf_receipts l)
     \<and> distinct (map (\<lambda>r. rc_principal r @ '':'' @ rc_key r) (lf_receipts l))
     \<and> list_all cleanup_ok (lf_cleanup l) \<and> distinct (map cl_id (lf_cleanup l)) \<and> list_all audit_ok (lf_audit l)"

definition state_ok :: "(rat \<Rightarrow> string) \<Rightarrow> document_state \<Rightarrow> bool" where
  "state_ok nt s \<longleftrightarrow> list_all document_ok (ds_documents s @ ds_retired s) \<and> distinct (map dc_id (ds_documents s))
     \<and> (case ds_lifecycle s of None \<Rightarrow> True | Some l \<Rightarrow> lifecycle_ok nt l)"

lemma is_text_simps [simp]: "is_text (Some (JStr s)) P = P s" "is_text None P = False" "is_text (Some JNull) P = False"
  "text_of (Some (JStr s)) = s" "array_of (Some (JArr xs)) = Some xs" "js_text_of nt (Some (JStr s)) = s"
  by (simp_all add: is_text_def text_of_def array_of_def js_text_of_def)

lemma exact_JObj [simp]: "exact (JObj m) names = (set (map fst m) \<subseteq> set names)"
  by (simp add: exact_def)

lemma opt_member_simps [simp]: "opt_member k f None = []" "opt_member k f (Some v) = [(k, f v)]"
  by (simp_all add: opt_member_def)

lemma scopeOf_json [simp]: "scopeOf (Some (scope_json sc)) = (if scope_ok sc then Inr sc else Inl Invalid_code)"
  by (cases sc; cases "sc_person sc") (auto simp: scopeOf_def scope_json_def scope_ok_def)

lemma valid_document_json [simp]: "valid_document (document_json d) = document_ok d"
proof -
  have "\<bar>int (length bs)\<bar> \<le> MAX_SAFE" if "validateContent t m bs" for t m bs
    using that by (auto simp: validateContent_def Let_def MAX_SAFE_def split: if_splits)
  then show ?thesis
    by (auto simp: valid_document_def document_json_def document_ok_def data_ok_def Let_def safe_integer_js_int plain_member_def uploadOf_def
        document_data.truncate_def privateAcl_def)
qed

lemma int_of_js [simp]: "int_of (Some (js_int n)) = (if \<bar>n\<bar> \<le> MAX_SAFE then n else 0)"
  "positiveInteger (Some (js_int n)) = (0 < n \<and> n \<le> MAX_SAFE)" "instant (Some (js_int n)) = time_ok n"
  by (auto simp: int_of_def positiveInteger_def instant_def nonNegativeInteger_def safe_integer_js_int time_ok_def safe_count_def)

lemma uuid_shape: "uuid s \<Longrightarrow> s \<noteq> []" "\<not> uuid ''null''"
  by (auto simp: uuid_def uuid_v4_def)

lemma opt_member_lookup [simp]: "map_of (opt_member k f x) k' = (if k' = k then map_option f x else None)"
  "map_of (opt_member k f x @ ys) k' = (if k' = k \<and> x \<noteq> None then map_option f x else map_of ys k')"
  by (cases x; simp)+

lemma opt_member_keys [simp]: "fst ` set (opt_member k f x) \<subseteq> S \<longleftrightarrow> x = None \<or> k \<in> S"
  by (cases x) simp_all

lemma ticket_members [simp]:
  "json_get (ticket_json t) ''id'' = Some (JStr (tk_id t))" "json_get (ticket_json t) ''objectKey'' = Some (JStr (tk_objectKey t))"
  "json_get (ticket_json t) ''principalId'' = Some (JStr (tk_principal t))" "json_get (ticket_json t) ''orgId'' = Some (JStr (tk_org t))"
  "json_get (ticket_json t) ''type'' = Some (JStr (tk_type t))" "json_get (ticket_json t) ''mime'' = Some (JStr (tk_mime t))"
  "json_get (ticket_json t) ''size'' = Some (js_int (tk_size t))"
  "json_get (ticket_json t) ''expectedVersion'' = Some (case tk_expected t of None \<Rightarrow> JNull | Some v \<Rightarrow> JStr v)"
  "json_get (ticket_json t) ''issuedAt'' = Some (js_int (tk_issued t))" "json_get (ticket_json t) ''expiresAt'' = Some (js_int (tk_expires t))"
  "json_get (ticket_json t) ''expectedDigest'' = map_option JStr (tk_expectedDigest t)"
  "json_get (ticket_json t) ''contentMd5'' = map_option JStr (tk_contentMd5 t)"
  "json_get (ticket_json t) ''data'' = map_option JStr (tk_data t)" "json_get (ticket_json t) ''digest'' = map_option JStr (tk_digest t)"
  "json_get (ticket_json t) ''committed'' = map_option JBool (tk_committed t)"
  by (simp_all add: ticket_json_def del: map_of_append)

lemma ticket_exact: "exact (ticket_json t) [''id'', ''objectKey'', ''principalId'', ''orgId'', ''type'', ''mime'', ''size'', ''expectedVersion'',
    ''issuedAt'', ''expiresAt'', ''data'', ''digest'', ''committed'', ''expectedDigest'', ''contentMd5'']"
  by (simp add: ticket_json_def image_Un)

lemma is_text_opt [simp]: "is_text (map_option JStr x) P = (case x of None \<Rightarrow> False | Some s \<Rightarrow> P s)"
  by (cases x) simp_all

lemma valid_ticket_json [simp]: "valid_ticket nt (ticket_json t) = ticket_ok t"
proof -
  have num: "\<bar>tk_size t\<bar> \<le> MAX_SAFE" if "0 < tk_size t" "tk_size t \<le> 10 * 1024 * 1024"
    using that by (simp add: MAX_SAFE_def)
  have expected: "(Some (case tk_expected t of None \<Rightarrow> JNull | Some v \<Rightarrow> JStr v) = Some JNull
      \<or> uuid (js_text_of nt (Some (case tk_expected t of None \<Rightarrow> JNull | Some v \<Rightarrow> JStr v)))) = (case tk_expected t of None \<Rightarrow> True | Some v \<Rightarrow> uuid v)"
    by (cases "tk_expected t") simp_all
  have digest: "reference_ok (js_text_of nt (map_option JStr (tk_digest t))) = (case tk_digest t of None \<Rightarrow> False | Some g \<Rightarrow> reference_ok g)"
    by (cases "tk_digest t") (simp_all add: js_text_of_def reference_ok_def)
  have committed: "(case map_option JBool (tk_committed t) of None \<Rightarrow> True | Some c \<Rightarrow> (case c of JBool b \<Rightarrow> True | _ \<Rightarrow> False))"
    by (cases "tk_committed t") simp_all
  have dat: "(if map_option JStr (tk_data t) = None then map_option JStr (tk_digest t) = None
        else is_text (map_option JStr (tk_data t)) P) = (case tk_data t of None \<Rightarrow> tk_digest t = None | Some s \<Rightarrow> P s)" for P
    by (cases "tk_data t") simp_all
  have opt: "(map_option JStr x = None \<or> is_text (map_option JStr x) P) = (case x of None \<Rightarrow> True | Some s \<Rightarrow> P s)" for x P
    by (cases x) simp_all
  have size: "(positiveInteger (Some (js_int (tk_size t))) \<and> int_of (Some (js_int (tk_size t))) \<le> 10 * 1024 * 1024)
      = (0 < tk_size t \<and> tk_size t \<le> 10 * 1024 * 1024)"
    by (auto simp: MAX_SAFE_def)
  have times: "(instant (Some (js_int a)) \<and> instant (Some (js_int b)) \<and> int_of (Some (js_int b)) > int_of (Some (js_int a))
      \<and> int_of (Some (js_int b)) - int_of (Some (js_int a)) \<le> 300000 \<and> R)
      = (time_ok a \<and> time_ok b \<and> a < b \<and> b - a \<le> 300000 \<and> R)" for a b R
    by (auto simp: time_ok_def safe_count_def)
  have sized: "int_of (Some (js_int (tk_size t))) = tk_size t" if "tk_size t \<le> 10 * 1024 * 1024" "0 < tk_size t"
    using that by (simp add: MAX_SAFE_def)
  show ?thesis
  proof (cases "0 < tk_size t \<and> tk_size t \<le> 10 * 1024 * 1024")
    case True
    then have fits: "int_of (Some (js_int (tk_size t))) = tk_size t" using sized by simp
    have size1: "positiveInteger (Some (js_int (tk_size t)))" using True by (simp add: MAX_SAFE_def)
    show ?thesis
      unfolding valid_ticket_def Let_def ticket_members expected digest dat opt ticket_ok_def fits times
      using committed ticket_exact [of t] size1 True
      by (simp only: is_text_simps js_text_of_def option.case js_text.simps option.inject json.inject simp_thms)
  next
    case False
    then show ?thesis
      unfolding valid_ticket_def Let_def ticket_members ticket_ok_def using size by blast
  qed
qed

lemma valid_cleanup_json [simp]: "valid_cleanup nt (cleanup_json c) = cleanup_ok c"
  by (cases "cl_status c") (auto simp: valid_cleanup_def cleanup_json_def cleanup_ok_def Let_def)

lemma valid_audit_json [simp]: "valid_audit nt (audit_json a) = audit_ok a"
  by (cases "au_operation a") (auto simp: valid_audit_def audit_json_def audit_ok_def Let_def)

lemma strings_of_map: "strings_of (map (\<lambda>x. Some (JStr (f x))) xs) = map f xs"
  by (induction xs) (simp_all add: strings_of_def)

lemma ids_json [simp]: "json_get (document_json d) ''id'' = Some (JStr (dc_id d))"
  "json_get (cleanup_json c) ''id'' = Some (JStr (cl_id c))" "json_get (receipt_json r) ''principalRef'' = Some (JStr (rc_principal r))"
  "json_get (receipt_json r) ''key'' = Some (JStr (rc_key r))"
  by (simp_all add: document_json_def cleanup_json_def receipt_json_def)

lemma validateLifecycleState_json [simp]: "validateLifecycleState nt (lifecycle_json l) = lifecycle_ok nt l"
  by (simp add: validateLifecycleState_def lifecycle_json_def lifecycle_ok_def list.pred_map comp_def strings_of_map)

lemma validateState_json [simp]: "validateState nt (state_json s) = state_ok nt s"
  by (cases "ds_lifecycle s") (auto simp: validateState_def state_json_def state_ok_def list.pred_map comp_def strings_of_map)

section \<open>Reading a state back\<close>

definition text_at :: "json \<Rightarrow> string \<Rightarrow> string" where
  "text_at v k = text_of (json_get v k)"

definition opt_text :: "json \<Rightarrow> string \<Rightarrow> string option" where
  "opt_text v k = (case json_get v k of Some (JStr s) \<Rightarrow> Some s | _ \<Rightarrow> None)"

definition elements :: "json \<Rightarrow> string \<Rightarrow> json list" where
  "elements v k = (case array_of (json_get v k) of None \<Rightarrow> [] | Some xs \<Rightarrow> xs)"

definition document_of :: "json \<Rightarrow> stored_document" where
  "document_of v = \<lparr>dc_scope = (case json_get v ''scope'' of None \<Rightarrow> \<lparr>sc_org = [], sc_person = None\<rparr>
       | Some sc \<Rightarrow> \<lparr>sc_org = text_at sc ''orgId'', sc_person = opt_text sc ''personId''\<rparr>),
     dc_type = text_at v ''type'', dc_mime = text_at v ''mime'', dc_size = int_of (json_get v ''size''),
     dc_data = text_at v ''data'', dc_id = text_at v ''id'', dc_version = text_at v ''version''\<rparr>"

definition ticket_of :: "json \<Rightarrow> upload_ticket" where
  "ticket_of v = \<lparr>tk_id = text_at v ''id'', tk_objectKey = text_at v ''objectKey'', tk_principal = text_at v ''principalId'',
     tk_org = text_at v ''orgId'', tk_type = text_at v ''type'', tk_mime = text_at v ''mime'', tk_size = int_of (json_get v ''size''),
     tk_expected = opt_text v ''expectedVersion'', tk_issued = int_of (json_get v ''issuedAt''), tk_expires = int_of (json_get v ''expiresAt''),
     tk_expectedDigest = opt_text v ''expectedDigest'', tk_contentMd5 = opt_text v ''contentMd5'', tk_data = opt_text v ''data'',
     tk_digest = opt_text v ''digest'', tk_committed = (case json_get v ''committed'' of Some (JBool b) \<Rightarrow> Some b | _ \<Rightarrow> None)\<rparr>"

definition response_of :: "json \<Rightarrow> stored_response" where
  "response_of v = \<lparr>sr_status = int_of (json_get v ''status''),
     sr_headers = (case json_get v ''headers'' of Some (JObj m) \<Rightarrow> Some (map (\<lambda>(k, x). (k, text_of (Some x))) m) | _ \<Rightarrow> None),
     sr_body = json_get v ''body''\<rparr>"

definition receipt_of :: "json \<Rightarrow> receipt" where
  "receipt_of v = \<lparr>rc_principal = text_at v ''principalRef'', rc_key = text_at v ''key'', rc_fingerprint = text_at v ''fingerprint'',
     rc_expires = int_of (json_get v ''expiresAt''),
     rc_response = response_of (case json_get v ''response'' of None \<Rightarrow> JNull | Some r \<Rightarrow> r)\<rparr>"

definition cleanup_of :: "json \<Rightarrow> cleanup_entry" where
  "cleanup_of v = \<lparr>cl_id = text_at v ''id'', cl_document = text_at v ''documentId'', cl_version = text_at v ''version'',
     cl_retired = int_of (json_get v ''retiredAt''), cl_status = (if text_at v ''status'' = ''held'' then Held else Purged)\<rparr>"

definition audit_operation_of :: "string \<Rightarrow> audit_operation" where
  "audit_operation_of s = (if s = ''finalize'' then Finalized else if s = ''remove'' then Removed_document
     else if s = ''list'' then Listed else if s = ''issueDelivery'' then Issued_delivery else Delivered)"

definition audit_of :: "json \<Rightarrow> audit_entry" where
  "audit_of v = \<lparr>au_id = text_at v ''id'', au_operation = audit_operation_of (text_at v ''operation''),
     au_principal = text_at v ''principalRef'', au_at = int_of (json_get v ''at'')\<rparr>"

definition lifecycle_of :: "json \<Rightarrow> lifecycle_state" where
  "lifecycle_of v = \<lparr>lf_uploads = map ticket_of (elements v ''uploads''), lf_receipts = map receipt_of (elements v ''receipts''),
     lf_cleanup = map cleanup_of (elements v ''cleanup''), lf_audit = map audit_of (elements v ''audit'')\<rparr>"

definition state_of :: "json \<Rightarrow> document_state" where
  "state_of v = \<lparr>ds_documents = map document_of (elements v ''documents''), ds_retired = map document_of (elements v ''retired''),
     ds_lifecycle = map_option lifecycle_of (json_get v ''lifecycle'')\<rparr>"

lemma opt_text_simps [simp]: "json_get v k = Some (JStr s) \<Longrightarrow> text_at v k = s" "json_get v k = Some (JStr s) \<Longrightarrow> opt_text v k = Some s"
  "json_get v k = None \<Longrightarrow> opt_text v k = None" "json_get v k = Some JNull \<Longrightarrow> opt_text v k = None"
  by (simp_all add: text_at_def opt_text_def)

lemma document_of_json: "document_ok d \<Longrightarrow> document_of (document_json d) = d"
proof -
  assume ok: "document_ok d"
  then have "\<bar>dc_size d\<bar> \<le> MAX_SAFE"
    by (auto simp: document_ok_def data_ok_def document_data.truncate_def validateContent_def Let_def MAX_SAFE_def split: if_splits)
  then show ?thesis
    by (cases d; cases "dc_scope d"; cases "sc_person (dc_scope d)") (simp_all add: document_of_def document_json_def scope_json_def)
qed

lemma opt_text_option [simp]: "json_get v k = map_option JStr x \<Longrightarrow> opt_text v k = x"
  by (cases x) simp_all

lemma ticket_of_json: "ticket_ok t \<Longrightarrow> ticket_of (ticket_json t) = t"
proof -
  assume ok: "ticket_ok t"
  have "\<bar>tk_size t\<bar> \<le> MAX_SAFE" "\<bar>tk_issued t\<bar> \<le> MAX_SAFE" "\<bar>tk_expires t\<bar> \<le> MAX_SAFE"
    using ok by (simp_all add: ticket_ok_def time_ok_def safe_count_def MAX_SAFE_def)
  moreover have "opt_text (ticket_json t) ''expectedVersion'' = tk_expected t" by (cases "tk_expected t") simp_all
  moreover have "(case map_option JBool (tk_committed t) of Some (JBool b) \<Rightarrow> Some b | _ \<Rightarrow> None) = tk_committed t" by (cases "tk_committed t") simp_all
  ultimately show ?thesis by (simp add: ticket_of_def)
qed

lemma cleanup_of_json: "cleanup_ok c \<Longrightarrow> cleanup_of (cleanup_json c) = c"
  by (cases c; cases "cl_status c") (simp_all add: cleanup_of_def cleanup_json_def cleanup_ok_def time_ok_def safe_count_def)

lemma audit_of_json: "audit_ok a \<Longrightarrow> audit_of (audit_json a) = a"
  by (cases a; cases "au_operation a") (simp_all add: audit_of_def audit_json_def audit_ok_def time_ok_def safe_count_def audit_operation_of_def)

lemma receipt_of_json: "valid_receipt nt (receipt_json r) \<Longrightarrow> receipt_of (receipt_json r) = r"
proof -
  assume v: "valid_receipt nt (receipt_json r)"
  let ?p = "rc_response r"
  have members: "json_get (receipt_json r) ''response'' = Some (response_json ?p)" "json_get (receipt_json r) ''expiresAt'' = Some (js_int (rc_expires r))"
    "json_get (response_json ?p) ''status'' = Some (js_int (sr_status ?p))" "json_get (response_json ?p) ''body'' = sr_body ?p"
    "json_get (response_json ?p) ''headers'' = map_option (\<lambda>h. JObj (map (\<lambda>(k, v). (k, JStr v)) h)) (sr_headers ?p)"
    by (simp_all add: receipt_json_def response_json_def option.map_id0 option.map_id del: map_of_append)
  have "exact (response_json ?p) [''status'', ''body'']" "Js_Values.safe_integer (Some (js_int (sr_status ?p))) \<in> {Some 200, Some 201, Some 204}"
    "time_ok (rc_expires r)"
    using v unfolding valid_receipt_def valid_response_def Let_def members option.case by simp_all
  then have "sr_headers ?p = None" "\<bar>sr_status ?p\<bar> \<le> MAX_SAFE" "\<bar>rc_expires r\<bar> \<le> MAX_SAFE"
    by (auto simp: response_json_def image_Un safe_integer_js_int time_ok_def safe_count_def split: if_splits)
  then have "response_of (response_json ?p) = ?p" by (simp add: response_of_def members)
  then show ?thesis
    using \<open>\<bar>rc_expires r\<bar> \<le> MAX_SAFE\<close> by (simp add: receipt_of_def members) (simp add: receipt_json_def)
qed

lemma elements_member: "json_get v k = Some (JArr xs) \<Longrightarrow> elements v k = xs"
  by (simp add: elements_def)

lemma lifecycle_of_json: "lifecycle_ok nt l \<Longrightarrow> lifecycle_of (lifecycle_json l) = l"
  by (cases l) (auto simp: lifecycle_of_def lifecycle_ok_def lifecycle_json_def elements_member comp_def list_all_iff
      intro!: map_idI ticket_of_json receipt_of_json cleanup_of_json audit_of_json)

theorem state_of_json: "state_ok nt s \<Longrightarrow> state_of (state_json s) = s"
proof -
  assume ok: "state_ok nt s"
  have members: "json_get (state_json s) ''documents'' = Some (JArr (map document_json (ds_documents s)))"
    "json_get (state_json s) ''retired'' = Some (JArr (map document_json (ds_retired s)))"
    "json_get (state_json s) ''lifecycle'' = map_option lifecycle_json (ds_lifecycle s)"
    by (simp_all add: state_json_def)
  have "map (document_of \<circ> document_json) (ds_documents s) = ds_documents s" "map (document_of \<circ> document_json) (ds_retired s) = ds_retired s"
    using ok by (auto simp: state_ok_def list_all_iff document_of_json intro!: map_idI)
  moreover have "map_option lifecycle_of (map_option lifecycle_json (ds_lifecycle s)) = ds_lifecycle s"
    using ok by (cases "ds_lifecycle s") (auto simp: state_ok_def lifecycle_of_json)
  ultimately show ?thesis by (simp add: state_of_def members elements_member)
qed

section \<open>A file that holds the state\<close>

text \<open>\<open>FileDocumentStore.transaction\<close>: the text of the file, read, changed by a transaction body and
  written back; an error of the body or of a check leaves the file as it is. Locking, modes
  and owners of files are not part of the model. \<open>parse\<close> is \<open>JSON.parse\<close>.\<close>

definition MAX_STATE_BYTES :: nat where
  "MAX_STATE_BYTES = 256 * 1024 * 1024"

datatype 'e file_error = State_unavailable | Body_error 'e

definition file_create :: "(rat \<Rightarrow> string) \<Rightarrow> string" where
  "file_create nt = js_stringify nt (state_json empty_documents)"

definition file_transaction :: "(string \<Rightarrow> json option) \<Rightarrow> (rat \<Rightarrow> string) \<Rightarrow> (document_state \<Rightarrow> 'e + ('a \<times> document_state)) \<Rightarrow> string
    \<Rightarrow> ('e file_error + 'a) \<times> string" where
  "file_transaction parse nt fn raw =
     (if length (utf8 raw) > MAX_STATE_BYTES then (Inl State_unavailable, raw)
      else case parse raw of
        None \<Rightarrow> (Inl State_unavailable, raw)
      | Some v \<Rightarrow>
          (if \<not> validateState nt v then (Inl State_unavailable, raw)
           else case fn (state_of v) of
             Inl e \<Rightarrow> (Inl (Body_error e), raw)
           | Inr (x, st) \<Rightarrow>
               (let text = js_stringify nt (state_json st)
                in if \<not> validateState nt (state_json st) then (Inl State_unavailable, raw)
                   else if text = raw then (Inr x, raw)
                   else if length (utf8 text) > MAX_STATE_BYTES then (Inl State_unavailable, raw)
                   else (Inr x, text))))"

end
