(* ===== verification/Documents.thy ===== *)
theory Documents
  imports Document_State Active_Context
begin

declare map_of_eq_Some_iff [simp del] Some_eq_map_of_iff [simp del]

text \<open>
  Private documents, the operations: the class \<^verbatim>\<open>PrivateDocuments\<close> of
  \<^verbatim>\<open>packages/private-documents/src/index.ts\<close>. An operation is a transaction body over the state;
  a result on the left rolls the transaction back. What the environment answers before the
  transaction and during it are two environments. HMAC, identifiers, clocks, \<open>new URL\<close> and
  \<open>JSON.parse\<close> are parameters. The operational log is not part of the model.
\<close>

section \<open>Configuration and environment\<close>

record document_config =
  do_mac :: "string \<Rightarrow> string"
  do_origin :: string
  do_path :: string
  do_own :: "string option"
  do_number :: "rat \<Rightarrow> string"
  do_parse :: "string \<Rightarrow> json option"
  do_url :: "string \<Rightarrow> (string \<times> string option) option"

text \<open>\<open>do_url\<close> gives the origin of a URL and the first value of its parameter \<open>t\<close>;
  \<open>de_authenticate\<close> is \<open>None\<close> where the adapter throws.\<close>

record document_env =
  de_authenticate :: "string \<Rightarrow> request_identity option option"
  de_reads :: authz_reads
  de_deleted :: "(string \<Rightarrow> bool option) option"

record parsed_url =
  pu_protocol :: string
  pu_port :: string
  pu_origin :: string

definition path_ok :: "string \<Rightarrow> bool" where
  "path_ok p \<longleftrightarrow> (case p of [] \<Rightarrow> False | c # cs \<Rightarrow> c = CHR ''/'' \<and> cs \<noteq> [] \<and> list_all (\<lambda>c. b64_alphabet c \<or> c = CHR ''/'') cs)"

text \<open>The constructor: the path of deliveries, unless it throws.\<close>

definition configured :: "parsed_url option \<Rightarrow> string \<Rightarrow> nat \<Rightarrow> string option \<Rightarrow> string option \<Rightarrow> string option" where
  "configured url origin keyBytes deliveryPath own = (case url of None \<Rightarrow> None | Some u \<Rightarrow>
     (if pu_protocol u \<noteq> ''https:'' \<or> pu_port u \<noteq> [] \<or> pu_origin u \<noteq> origin \<or> keyBytes < 32 then None
      else if (case deliveryPath of None \<Rightarrow> False | Some p \<Rightarrow> \<not> path_ok p) then None
      else if (case own of None \<Rightarrow> False | Some i \<Rightarrow> \<not> name_ok i) then None
      else Some (case deliveryPath of None \<Rightarrow> ''/private-documents/delivery'' | Some p \<Rightarrow> p)))"

section \<open>Who may touch a document\<close>

definition presented :: "json option \<Rightarrow> string option" where
  "presented credential = (case credential of
     Some (JStr c) \<Rightarrow> if c = [] \<or> length c > 8192 then None else Some c | _ \<Rightarrow> None)"

definition authenticate :: "document_env \<Rightarrow> string \<Rightarrow> document_code + request_identity" where
  "authenticate env c = (case de_authenticate env c of
     None \<Rightarrow> Inl Unavailable_code | Some None \<Rightarrow> Inl Denied_code | Some (Some identity) \<Rightarrow> Inr identity)"

definition authorize_scope :: "document_config \<Rightarrow> document_env \<Rightarrow> request_identity \<Rightarrow> scope \<Rightarrow> document_code + string" where
  "authorize_scope cfg env identity scope =
     (case sc_person scope of
        Some person \<Rightarrow>
          (if Some (sc_org scope) = do_own cfg then
             (case resolvePrincipalId identity (de_reads env) of
                None \<Rightarrow> Inl Denied_code
              | Some p \<Rightarrow> if p \<noteq> person \<or> rd_org (de_reads env) (sc_org scope) = None then Inl Denied_code else Inr p)
           else (case resolveActiveContext identity (Some \<lparr>sel_org = Some (sc_org scope), sel_role = Some ''candidate''\<rparr>) (de_reads env) of
                Some (Authorized ctx roles) \<Rightarrow> if ac_principal ctx \<noteq> person then Inl Denied_code else Inr (ac_principal ctx)
              | _ \<Rightarrow> Inl Denied_code))
      | None \<Rightarrow>
          (case resolveActiveContext identity (Some \<lparr>sel_org = Some (sc_org scope), sel_role = Some ''org-owner''\<rparr>) (de_reads env) of
             Some (Authorized ctx roles) \<Rightarrow>
               (case de_deleted env of
                  None \<Rightarrow> Inr (ac_principal ctx)
                | Some deleted \<Rightarrow> (case deleted (sc_org scope) of
                      None \<Rightarrow> Inl Unavailable_code
                    | Some d \<Rightarrow> if d then Inl Denied_code else Inr (ac_principal ctx)))
           | _ \<Rightarrow> Inl Denied_code))"

definition find_document :: "document_config \<Rightarrow> document_env \<Rightarrow> request_identity \<Rightarrow> document_state \<Rightarrow> json option \<Rightarrow> document_code + stored_document" where
  "find_document cfg env identity st i = (case i of
     Some (JStr s) \<Rightarrow>
       (if \<not> uuid s then Inl Denied_code
        else case find (\<lambda>d. dc_id d = s) (ds_documents st) of
          None \<Rightarrow> Inl Denied_code
        | Some d \<Rightarrow> bind_result (authorize_scope cfg env identity (dc_scope d)) (\<lambda>_. Inr d))
   | _ \<Rightarrow> Inl Denied_code)"

definition document_run :: "document_config \<Rightarrow> document_env \<Rightarrow> document_env \<Rightarrow> json option
    \<Rightarrow> (request_identity \<Rightarrow> document_state \<Rightarrow> document_code + ('a \<times> document_state)) \<Rightarrow> document_state \<Rightarrow> document_code + ('a \<times> document_state)" where
  "document_run cfg before during credential fn st = (case presented credential of
     None \<Rightarrow> Inl Denied_code
   | Some c \<Rightarrow> bind_result (authenticate before c) (\<lambda>identity.
       (let principalId = resolvePrincipalId identity (de_reads before)
        in if do_own cfg \<noteq> None \<and> principalId = None then Inl Denied_code
           else if \<not> validateState (do_number cfg) (state_json st) then Inl Unavailable_code
           else if do_own cfg \<noteq> None then
             bind_result (authenticate during c) (\<lambda>current.
               if resolvePrincipalId current (de_reads during) \<noteq> principalId then Inl Denied_code else fn current st)
           else fn identity st)))"

section \<open>The operations\<close>

definition metadata_of :: "stored_document \<Rightarrow> metadata" where
  "metadata_of d = \<lparr>md_id = dc_id d, md_version = dc_version d, md_type = dc_type d, md_mime = dc_mime d, md_size = dc_size d\<rparr>"

definition identified :: "document_data \<Rightarrow> string \<Rightarrow> string \<Rightarrow> stored_document" where
  "identified d i v = document_data.extend d (stored_document.fields i v)"

fun update_first :: "('a \<Rightarrow> bool) \<Rightarrow> ('a \<Rightarrow> 'a) \<Rightarrow> 'a list \<Rightarrow> 'a list" where
  "update_first P f [] = []"
| "update_first P f (x # xs) = (if P x then f x # xs else x # update_first P f xs)"

fun remove_first :: "('a \<Rightarrow> bool) \<Rightarrow> 'a list \<Rightarrow> 'a list" where
  "remove_first P [] = []"
| "remove_first P (x # xs) = (if P x then xs else x # remove_first P xs)"

definition upload_body :: "document_config \<Rightarrow> document_env \<Rightarrow> upload_input option \<Rightarrow> string \<Rightarrow> string \<Rightarrow> request_identity \<Rightarrow> document_state
    \<Rightarrow> document_code + (metadata \<times> document_state)" where
  "upload_body cfg env input i v identity st =
     bind_result (uploadOf input) (\<lambda>data.
     bind_result (authorize_scope cfg env identity (dc_scope data)) (\<lambda>_.
       (let d = identified data i v in Inr (metadata_of d, st\<lparr>ds_documents := ds_documents st @ [d]\<rparr>))))"

definition upload :: "document_config \<Rightarrow> document_env \<Rightarrow> document_env \<Rightarrow> json option \<Rightarrow> upload_input option \<Rightarrow> string \<Rightarrow> string \<Rightarrow> document_state
    \<Rightarrow> document_code + (metadata \<times> document_state)" where
  "upload cfg before during credential input i v = document_run cfg before during credential (upload_body cfg during input i v)"

definition document_metadata :: "document_config \<Rightarrow> document_env \<Rightarrow> document_env \<Rightarrow> json option \<Rightarrow> json option \<Rightarrow> document_state
    \<Rightarrow> document_code + (metadata \<times> document_state)" where
  "document_metadata cfg before during credential i = document_run cfg before during credential (\<lambda>identity st.
     bind_result (find_document cfg during identity st i) (\<lambda>d. Inr (metadata_of d, st)))"

definition copy_options_ok :: "json option \<Rightarrow> bool" where
  "copy_options_ok options = (case options of None \<Rightarrow> True
     | Some v \<Rightarrow> exact v [''acl''] \<and> (case json_get v ''acl'' of None \<Rightarrow> True | Some a \<Rightarrow> a = JStr ''private''))"

definition copy :: "document_config \<Rightarrow> document_env \<Rightarrow> document_env \<Rightarrow> json option \<Rightarrow> json option \<Rightarrow> json option \<Rightarrow> json option \<Rightarrow> string \<Rightarrow> string
    \<Rightarrow> document_state \<Rightarrow> document_code + (metadata \<times> document_state)" where
  "copy cfg before during credential i target options j v = document_run cfg before during credential (\<lambda>identity st.
     if \<not> copy_options_ok options then Inl Invalid_code
     else bind_result (find_document cfg during identity st i) (\<lambda>source.
          bind_result (scopeOf target) (\<lambda>scope.
            if orgType (dc_type source) \<noteq> (sc_person scope = None) then Inl Invalid_code
            else bind_result (authorize_scope cfg during identity scope) (\<lambda>_.
              (let d = source\<lparr>dc_scope := scope, dc_id := j, dc_version := v\<rparr>
               in Inr (metadata_of d, st\<lparr>ds_documents := ds_documents st @ [d]\<rparr>))))))"

definition replace_body :: "document_config \<Rightarrow> document_env \<Rightarrow> json option \<Rightarrow> upload_input option \<Rightarrow> string \<Rightarrow> request_identity \<Rightarrow> document_state
    \<Rightarrow> document_code + (metadata \<times> document_state)" where
  "replace_body cfg env i input v identity st =
     bind_result (find_document cfg env identity st i) (\<lambda>previous.
     bind_result (uploadOf input) (\<lambda>data.
       if dc_type data \<noteq> dc_type previous \<or> dc_scope data \<noteq> dc_scope previous then Inl Invalid_code
       else (let d = identified data (dc_id previous) v
             in Inr (metadata_of d, st\<lparr>ds_retired := ds_retired st @ [previous],
                  ds_documents := update_first (\<lambda>x. dc_id x = dc_id previous) (\<lambda>_. d) (ds_documents st)\<rparr>))))"

definition replace_document :: "document_config \<Rightarrow> document_env \<Rightarrow> document_env \<Rightarrow> json option \<Rightarrow> json option \<Rightarrow> upload_input option \<Rightarrow> string
    \<Rightarrow> document_state \<Rightarrow> document_code + (metadata \<times> document_state)" where
  "replace_document cfg before during credential i input v = document_run cfg before during credential (replace_body cfg during i input v)"

definition remove_body :: "document_config \<Rightarrow> document_env \<Rightarrow> json option \<Rightarrow> request_identity \<Rightarrow> document_state
    \<Rightarrow> document_code + (unit \<times> document_state)" where
  "remove_body cfg env i identity st =
     bind_result (find_document cfg env identity st i) (\<lambda>d.
       Inr ((), st\<lparr>ds_retired := ds_retired st @ [d], ds_documents := remove_first (\<lambda>x. dc_id x = dc_id d) (ds_documents st)\<rparr>))"

definition remove_document :: "document_config \<Rightarrow> document_env \<Rightarrow> document_env \<Rightarrow> json option \<Rightarrow> json option \<Rightarrow> document_state
    \<Rightarrow> document_code + (unit \<times> document_state)" where
  "remove_document cfg before during credential i = document_run cfg before during credential (remove_body cfg during i)"

section \<open>Deliveries\<close>

text \<open>The clock's reading; one that is not an integer counts as out of range.\<close>

definition clock :: "int \<Rightarrow> document_code + int" where
  "clock n = (if safe_count n then Inr n else Inl Unavailable_code)"

definition ttl_ok :: "json option \<Rightarrow> int option" where
  "ttl_ok v = (case v of None \<Rightarrow> Some 60 | Some (JNum (Some r)) \<Rightarrow>
       (if of_int \<lfloor>r\<rfloor> = r \<and> 1 \<le> \<lfloor>r\<rfloor> \<and> \<lfloor>r\<rfloor> \<le> 300 then Some \<lfloor>r\<rfloor> else None)
     | _ \<Rightarrow> None)"

definition subject_of :: "document_config \<Rightarrow> string \<Rightarrow> string" where
  "subject_of cfg pid = do_mac cfg (''subject:'' @ pid)"

definition claim_json :: "document_config \<Rightarrow> stored_document \<Rightarrow> string \<Rightarrow> int \<Rightarrow> int \<Rightarrow> json" where
  "claim_json cfg d pid now expiresAt = JObj [(''v'', js_int 1), (''id'', JStr (dc_id d)), (''version'', JStr (dc_version d)),
     (''subject'', JStr (subject_of cfg pid)), (''iat'', js_int now), (''exp'', js_int expiresAt)]"

definition claim_payload :: "document_config \<Rightarrow> json \<Rightarrow> string" where
  "claim_payload cfg claim = b64_encode (utf8 (js_stringify (do_number cfg) claim))"

definition delivery_token :: "document_config \<Rightarrow> string \<Rightarrow> string" where
  "delivery_token cfg payload = payload @ ''.'' @ do_mac cfg (''delivery:'' @ payload)"

definition delivery_url :: "document_config \<Rightarrow> string \<Rightarrow> string" where
  "delivery_url cfg token = do_origin cfg @ do_path cfg @ ''?t='' @ token"

definition issue_body :: "document_config \<Rightarrow> document_env \<Rightarrow> json option \<Rightarrow> json option \<Rightarrow> int \<Rightarrow> request_identity \<Rightarrow> document_state
    \<Rightarrow> document_code + ((string \<times> int) \<times> document_state)" where
  "issue_body cfg env i ttl now identity st = (case ttl_ok ttl of
     None \<Rightarrow> Inl Invalid_code
   | Some seconds \<Rightarrow>
       bind_result (find_document cfg env identity st i) (\<lambda>d.
       bind_result (authorize_scope cfg env identity (dc_scope d)) (\<lambda>pid.
       bind_result (clock now) (\<lambda>now.
         (let expiresAt = now + seconds * 1000
          in Inr ((delivery_url cfg (delivery_token cfg (claim_payload cfg (claim_json cfg d pid now expiresAt))), expiresAt), st))))))"

definition issue_delivery :: "document_config \<Rightarrow> document_env \<Rightarrow> document_env \<Rightarrow> json option \<Rightarrow> json option \<Rightarrow> json option \<Rightarrow> int \<Rightarrow> document_state
    \<Rightarrow> document_code + ((string \<times> int) \<times> document_state)" where
  "issue_delivery cfg before during credential i ttl now = document_run cfg before during credential (issue_body cfg during i ttl now)"

record delivery =
  dl_bytes :: string
  dl_headers :: "(string \<times> string) list"

definition delivery_of :: "stored_document \<Rightarrow> delivery" where
  "delivery_of d = \<lparr>dl_bytes = b64_bytes (dc_data d), dl_headers = [(''Content-Type'', dc_mime d), (''Content-Length'', show_int (dc_size d)),
     (''Content-Disposition'', ''attachment''), (''Cache-Control'', ''private, no-store''), (''X-Content-Type-Options'', ''nosniff''),
     (''Referrer-Policy'', ''no-referrer'')]\<rparr>"

text \<open>The payload of a link that is shaped, addressed and signed as issued.\<close>

definition signed_payload :: "document_config \<Rightarrow> string \<Rightarrow> string option" where
  "signed_payload cfg link =
     (if length link > 4096 then None
      else case do_url cfg link of
        None \<Rightarrow> None
      | Some (origin, token) \<Rightarrow>
          (case token of
             None \<Rightarrow> None
           | Some t \<Rightarrow>
               (if t = [] \<or> origin \<noteq> do_origin cfg \<or> link \<noteq> delivery_url cfg t then None
                else case js_split (CHR ''.'') t of
                  [payload, signature] \<Rightarrow>
                    (if payload = [] \<or> signature = [] \<or> \<not> list_all b64_alphabet (payload @ signature) then None
                     else if signature \<noteq> do_mac cfg (''delivery:'' @ payload) then None else Some payload)
                | _ \<Rightarrow> None)))"

definition claim_current :: "json \<Rightarrow> int \<Rightarrow> bool" where
  "claim_current claim now \<longleftrightarrow> is_record (Some claim) \<and> json_get claim ''v'' = Some (js_int 1)
     \<and> (case (Js_Values.safe_integer (json_get claim ''exp''), Js_Values.safe_integer (json_get claim ''iat'')) of
          (Some expires, Some issued) \<Rightarrow> now < expires \<and> issued \<le> now \<and> expires - issued \<le> 300000 \<and> issued < expires
        | _ \<Rightarrow> False)"

definition deliver_body :: "document_config \<Rightarrow> document_env \<Rightarrow> json option \<Rightarrow> int \<Rightarrow> request_identity \<Rightarrow> document_state
    \<Rightarrow> document_code + (delivery \<times> document_state)" where
  "deliver_body cfg env link now identity st = (case link of
     Some (JStr l) \<Rightarrow>
       (case signed_payload cfg l of
          None \<Rightarrow> Inl Denied_code
        | Some payload \<Rightarrow>
            (case do_parse cfg (b64_decode payload) of
               None \<Rightarrow> Inl Denied_code
             | Some claim \<Rightarrow>
                 bind_result (clock now) (\<lambda>now.
                   if \<not> claim_current claim now then Inl Denied_code
                   else bind_result (find_document cfg env identity st (json_get claim ''id'')) (\<lambda>d.
                        bind_result (authorize_scope cfg env identity (dc_scope d)) (\<lambda>pid.
                          if json_get claim ''version'' \<noteq> Some (JStr (dc_version d))
                             \<or> json_get claim ''subject'' \<noteq> Some (JStr (subject_of cfg pid)) then Inl Denied_code
                          else Inr (delivery_of d, st))))))
   | _ \<Rightarrow> Inl Denied_code)"

definition deliver :: "document_config \<Rightarrow> document_env \<Rightarrow> document_env \<Rightarrow> json option \<Rightarrow> json option \<Rightarrow> int \<Rightarrow> document_state
    \<Rightarrow> document_code + (delivery \<times> document_state)" where
  "deliver cfg before during credential link now = document_run cfg before during credential (deliver_body cfg during link now)"

text \<open>The HTTP adapter: status, further headers, and the bytes or the error. Every answer also
  carries \<open>SECURITY_HEADERS\<close>.\<close>

definition SECURITY_HEADERS :: "(string \<times> string) list" where
  "SECURITY_HEADERS = [(''Cache-Control'', ''private, no-store''), (''X-Content-Type-Options'', ''nosniff''),
     (''Referrer-Policy'', ''no-referrer''), (''Content-Security-Policy'', ''default-src ''@ [CHR 0x27] @ ''none'' @ [CHR 0x27] @ ''; sandbox'')]"

fun code_text :: "document_code \<Rightarrow> string" where
  "code_text Denied_code = ''denied''"
| "code_text Invalid_code = ''invalid''"
| "code_text Unavailable_code = ''unavailable''"

definition bearer :: "string option \<Rightarrow> string" where
  "bearer h = (case h of None \<Rightarrow> [] | Some s \<Rightarrow> if take 7 s = ''Bearer '' then drop 7 s else [])"

definition handleDelivery :: "document_config \<Rightarrow> document_env \<Rightarrow> document_env \<Rightarrow> string option \<Rightarrow> string \<Rightarrow> string option \<Rightarrow> int \<Rightarrow> document_state
    \<Rightarrow> nat \<times> (string \<times> string) list \<times> (string + string)" where
  "handleDelivery cfg before during url verb authorization now st =
     (let json = [(''Content-Type'', ''application/json'')]
      in case url of
           None \<Rightarrow> (404, json, Inl ''not_found'')
         | Some u \<Rightarrow>
             (if take (length (do_path cfg) + 1) u \<noteq> do_path cfg @ ''?'' then (404, json, Inl ''not_found'')
              else if verb \<noteq> ''GET'' then (405, (''Allow'', ''GET'') # json, Inl ''method_not_allowed'')
              else case deliver cfg before during (Some (JStr (bearer authorization))) (Some (JStr (do_origin cfg @ u))) now st of
                Inl code \<Rightarrow> (if code = Unavailable_code then 503 else 403, json, Inl (code_text code))
              | Inr (d, _) \<Rightarrow> (200, dl_headers d, Inr (dl_bytes d))))"

section \<open>What every operation keeps\<close>

lemma document_run_Inr:
  assumes "document_run cfg before during credential fn st = Inr r"
  obtains c identity where "presented credential = Some c" "authenticate before c = Inr identity \<or> authenticate during c = Inr identity"
    "do_own cfg \<noteq> None \<Longrightarrow> authenticate during c = Inr identity" "state_ok (do_number cfg) st" "fn identity st = Inr r"
  using assms by (auto simp: document_run_def Let_def split: option.splits if_splits)

lemma find_document_Inr:
  assumes "find_document cfg env identity st i = Inr d"
  obtains pid where "d \<in> set (ds_documents st)" "uuid (dc_id d)" "i = Some (JStr (dc_id d))"
    "find (\<lambda>x. dc_id x = dc_id d) (ds_documents st) = Some d" "authorize_scope cfg env identity (dc_scope d) = Inr pid"
proof -
  obtain s where i: "i = Some (JStr s)" using assms by (auto simp: find_document_def split: option.splits json.splits)
  have u: "uuid s" using assms by (cases "uuid s") (simp_all add: find_document_def i)
  obtain x where x: "find (\<lambda>d. dc_id d = s) (ds_documents st) = Some x"
    using assms u by (cases "find (\<lambda>d. dc_id d = s) (ds_documents st)") (simp_all add: find_document_def i)
  obtain pid where a: "authorize_scope cfg env identity (dc_scope x) = Inr pid"
    using assms u x by (cases "authorize_scope cfg env identity (dc_scope x)") (simp_all add: find_document_def i)
  have d: "x = d" using assms u x a by (simp add: find_document_def i)
  have at: "d \<in> set (ds_documents st)" "dc_id d = s" using find_SomeD [OF x] unfolding d by simp_all
  show ?thesis by (rule that [of pid]) (use i u x a at in \<open>simp_all only: d\<close>)
qed

lemma set_update_first: "x \<in> set xs \<Longrightarrow> x \<in> set (update_first P f xs) \<or> find P xs = Some x"
  by (induction xs) auto

lemma set_update_first_sub: "set (update_first P f xs) \<subseteq> set xs \<union> (case find P xs of None \<Rightarrow> {} | Some x \<Rightarrow> {f x})"
  by (induction xs) auto

lemma set_remove_first: "x \<in> set xs \<Longrightarrow> x \<in> set (remove_first P xs) \<or> find P xs = Some x"
  by (induction xs) auto

lemma set_remove_first_sub: "set (remove_first P xs) \<subseteq> set xs"
  by (induction xs) auto

lemma map_update_first: "(\<And>x. find P xs = Some x \<Longrightarrow> g (f x) = g x) \<Longrightarrow> map g (update_first P f xs) = map g xs"
  by (induction xs) auto

lemma distinct_remove_first: "distinct (map g xs) \<Longrightarrow> distinct (map g (remove_first P xs))"
  by (induction xs) (use set_remove_first_sub in fastforce)+

text \<open>Retired documents are only added to, and a document that leaves the current ones is retired.\<close>

definition keeps_documents :: "document_state \<Rightarrow> document_state \<Rightarrow> bool" where
  "keeps_documents st st' \<longleftrightarrow> (\<exists>ys. ds_retired st' = ds_retired st @ ys)
     \<and> set (ds_documents st) \<subseteq> set (ds_documents st') \<union> set (ds_retired st')"

lemma keeps_refl [simp]: "keeps_documents st st"
  by (simp add: keeps_documents_def)

lemma keeps_trans: "keeps_documents a b \<Longrightarrow> keeps_documents b c \<Longrightarrow> keeps_documents a c"
  by (auto simp: keeps_documents_def)

lemma keeps_same: "ds_documents st' = ds_documents st \<Longrightarrow> ds_retired st' = ds_retired st \<Longrightarrow> keeps_documents st st'"
  by (simp add: keeps_documents_def)

lemma identified_simps [simp]:
  "dc_id (identified d i v) = i" "dc_version (identified d i v) = v" "dc_scope (identified d i v) = dc_scope d" "dc_type (identified d i v) = dc_type d"
  "dc_mime (identified d i v) = dc_mime d" "dc_size (identified d i v) = dc_size d" "dc_data (identified d i v) = dc_data d"
  "document_data.truncate (identified d i v) = d"
  by (simp_all add: identified_def document_data.extend_def stored_document.fields_def document_data.truncate_def)

lemma scopeOf_ok: "scopeOf v = Inr sc \<Longrightarrow> scope_ok sc"
proof (cases "\<exists>m. v = Some (JObj m)")
  case True
  then obtain m where v: "v = Some (JObj m)" by blast
  assume r: "scopeOf v = Inr sc"
  obtain org where org: "map_of m ''orgId'' = Some (JStr org)" "name_ok org"
    using r by (cases "map_of m ''orgId''"; cases "the (map_of m ''orgId'')") (simp_all add: scopeOf_def v is_text_def split: if_splits)
  show ?thesis
  proof (cases "map_of m ''personId''")
    case None
    with r org show ?thesis by (auto simp: scopeOf_def v scope_ok_def split: if_splits)
  next
    case (Some p)
    then obtain person where "p = JStr person" "name_ok person"
      using r by (cases p) (simp_all add: scopeOf_def v is_text_def split: if_splits)
    with Some r org show ?thesis by (auto simp: scopeOf_def v scope_ok_def split: if_splits)
  qed
qed (auto simp: scopeOf_def split: option.splits json.splits)

lemma uploadOf_ok: "uploadOf input = Inr d \<Longrightarrow> data_ok d"
proof -
  assume r: "uploadOf input = Inr d"
  then obtain m type mime bytes where m: "input = Some m" "map_of m ''type'' = Some (Plain (JStr type))" "map_of m ''mime'' = Some (Plain (JStr mime))"
      "map_of m ''bytes'' = Some (Buffer bytes)"
    by (auto simp: uploadOf_def split: option.splits upload_value.splits json.splits if_splits)
  then show ?thesis using r scopeOf_ok
    by (auto simp: uploadOf_def data_ok_def split: if_splits)
qed

lemma upload_body_Inr:
  assumes "upload_body cfg env input i v identity st = Inr (m, st')"
  obtains data pid where "uploadOf input = Inr data" "authorize_scope cfg env identity (dc_scope data) = Inr pid"
    "m = metadata_of (identified data i v)" "st' = st\<lparr>ds_documents := ds_documents st @ [identified data i v]\<rparr>"
proof -
  obtain data where data: "uploadOf input = Inr data" using assms by (cases "uploadOf input") (simp_all add: upload_body_def)
  obtain pid where pid: "authorize_scope cfg env identity (dc_scope data) = Inr pid"
    using assms data by (cases "authorize_scope cfg env identity (dc_scope data)") (simp_all add: upload_body_def)
  show ?thesis by (rule that [OF data pid]) (use assms data pid in \<open>simp_all add: upload_body_def Let_def\<close>)
qed

lemma replace_body_Inr:
  assumes "replace_body cfg env i input v identity st = Inr (m, st')"
  obtains previous data where "find_document cfg env identity st i = Inr previous" "uploadOf input = Inr data"
    "dc_type data = dc_type previous" "dc_scope data = dc_scope previous" "m = metadata_of (identified data (dc_id previous) v)"
    "st' = st\<lparr>ds_retired := ds_retired st @ [previous],
        ds_documents := update_first (\<lambda>x. dc_id x = dc_id previous) (\<lambda>_. identified data (dc_id previous) v) (ds_documents st)\<rparr>"
proof -
  obtain previous where p: "find_document cfg env identity st i = Inr previous"
    using assms by (cases "find_document cfg env identity st i") (simp_all add: replace_body_def)
  obtain data where data: "uploadOf input = Inr data" using assms p by (cases "uploadOf input") (simp_all add: replace_body_def)
  have same: "dc_type data = dc_type previous" "dc_scope data = dc_scope previous"
    using assms p data by (simp_all add: replace_body_def split: if_splits)
  show ?thesis by (rule that [OF p data same]) (use assms p data same in \<open>simp_all add: replace_body_def Let_def\<close>)
qed

lemma remove_body_Inr:
  assumes "remove_body cfg env i identity st = Inr (u, st')"
  obtains d where "find_document cfg env identity st i = Inr d"
    "st' = st\<lparr>ds_retired := ds_retired st @ [d], ds_documents := remove_first (\<lambda>x. dc_id x = dc_id d) (ds_documents st)\<rparr>"
  using assms by (cases "find_document cfg env identity st i") (auto simp: remove_body_def)

lemma upload_body_keeps: "upload_body cfg env input i v identity st = Inr (m, st') \<Longrightarrow> keeps_documents st st'"
  by (erule upload_body_Inr) (auto simp: keeps_documents_def)

lemma replace_body_keeps: "replace_body cfg env i input v identity st = Inr (m, st') \<Longrightarrow> keeps_documents st st'"
proof (erule replace_body_Inr)
  fix previous :: stored_document and data
  assume "find_document cfg env identity st i = Inr previous"
    and st': "st' = st\<lparr>ds_retired := ds_retired st @ [previous],
        ds_documents := update_first (\<lambda>x. dc_id x = dc_id previous) (\<lambda>_. identified data (dc_id previous) v) (ds_documents st)\<rparr>"
  then have "find (\<lambda>x. dc_id x = dc_id previous) (ds_documents st) = Some previous" by (auto elim: find_document_Inr)
  then show ?thesis unfolding keeps_documents_def st'
    using set_update_first [of _ "ds_documents st" "\<lambda>x. dc_id x = dc_id previous" "\<lambda>_. identified data (dc_id previous) v"] by fastforce
qed

lemma remove_body_keeps: "remove_body cfg env i identity st = Inr (u, st') \<Longrightarrow> keeps_documents st st'"
proof (erule remove_body_Inr)
  fix d :: stored_document
  assume "find_document cfg env identity st i = Inr d"
    and st': "st' = st\<lparr>ds_retired := ds_retired st @ [d], ds_documents := remove_first (\<lambda>x. dc_id x = dc_id d) (ds_documents st)\<rparr>"
  then have "find (\<lambda>x. dc_id x = dc_id d) (ds_documents st) = Some d" by (auto elim: find_document_Inr)
  then show ?thesis unfolding keeps_documents_def st'
    using set_remove_first [of _ "ds_documents st" "\<lambda>x. dc_id x = dc_id d"] by fastforce
qed

lemma state_ok_documents:
  "state_ok nt st \<Longrightarrow> list_all document_ok (docs @ retired) \<Longrightarrow> distinct (map dc_id docs) \<Longrightarrow>
    state_ok nt (st\<lparr>ds_documents := docs, ds_retired := retired\<rparr>)"
  by (simp add: state_ok_def)

lemma uploaded_ok: "uploadOf input = Inr data \<Longrightarrow> uuid i \<Longrightarrow> uuid v \<Longrightarrow> document_ok (identified data i v)"
  by (simp add: document_ok_def uploadOf_ok)

lemma upload_body_ok:
  assumes "upload_body cfg env input i v identity st = Inr (m, st')" "state_ok nt st" "uuid i" "uuid v" "i \<notin> dc_id ` set (ds_documents st)"
  shows "state_ok nt st'"
  using assms(1) by (rule upload_body_Inr) (use assms(2-) in \<open>auto simp: state_ok_def uploaded_ok\<close>)

lemma replace_body_ok:
  assumes r: "replace_body cfg env i input v identity st = Inr (m, st')" and ok: "state_ok nt st" and v: "uuid v"
  shows "state_ok nt st'"
  using r
proof (rule replace_body_Inr)
  fix previous :: stored_document and data
  let ?P = "\<lambda>x. dc_id x = dc_id previous" and ?d = "identified data (dc_id previous) v"
  assume f: "find_document cfg env identity st i = Inr previous" and data: "uploadOf input = Inr data"
    and st': "st' = st\<lparr>ds_retired := ds_retired st @ [previous], ds_documents := update_first ?P (\<lambda>_. ?d) (ds_documents st)\<rparr>"
  from f have at: "find ?P (ds_documents st) = Some previous" "previous \<in> set (ds_documents st)" "uuid (dc_id previous)" by (auto elim: find_document_Inr)
  have "map dc_id (update_first ?P (\<lambda>_. ?d) (ds_documents st)) = map dc_id (ds_documents st)"
    by (rule map_update_first) (auto dest: find_SomeD)
  moreover have "list_all document_ok (update_first ?P (\<lambda>_. ?d) (ds_documents st))"
    using set_update_first_sub [of ?P "\<lambda>_. ?d" "ds_documents st"] at data v ok uploaded_ok [OF data at(3) v]
    by (auto simp: list_all_iff state_ok_def)
  ultimately show ?thesis using ok at(2) unfolding st' state_ok_def by (simp add: list_all_iff ball_Un)
qed

lemma remove_body_ok:
  assumes r: "remove_body cfg env i identity st = Inr (u, st')" and ok: "state_ok nt st"
  shows "state_ok nt st'"
  using r
proof (rule remove_body_Inr)
  fix d :: stored_document
  let ?P = "\<lambda>x. dc_id x = dc_id d"
  assume f: "find_document cfg env identity st i = Inr d"
    and st': "st' = st\<lparr>ds_retired := ds_retired st @ [d], ds_documents := remove_first ?P (ds_documents st)\<rparr>"
  from f have "d \<in> set (ds_documents st)" by (auto elim: find_document_Inr)
  moreover have "list_all document_ok (remove_first ?P (ds_documents st))"
    using set_remove_first_sub [of ?P "ds_documents st"] ok by (auto simp: list_all_iff state_ok_def)
  ultimately show ?thesis using ok distinct_remove_first [of dc_id "ds_documents st" ?P] unfolding st' state_ok_def by (simp add: list_all_iff ball_Un)
qed

section \<open>What a delivery link reaches\<close>

lemma js_int_inject [simp]: "js_int a = js_int b \<longleftrightarrow> a = b"
  by (simp add: js_int_def)

lemma no_dot: "list_all b64_alphabet s \<Longrightarrow> CHR ''.'' \<notin> set s"
  by (auto simp: list_all_iff b64_alphabet_def alnum_def Let_def)

lemma split_whole: "js_split c t = [b] \<Longrightarrow> t = b"
  by (induction t arbitrary: b) (auto split: if_splits list.splits)

lemma split_token: "js_split (CHR ''.'') t = [a, b] \<Longrightarrow> t = a @ ''.'' @ b"
  by (induction t arbitrary: a) (auto split: if_splits list.splits dest: split_whole)

text \<open>An accepted link is the one issued for its payload: the text of a link is a function of the payload.\<close>

lemma signed_payload_link: "signed_payload cfg link = Some payload \<Longrightarrow> link = delivery_url cfg (delivery_token cfg payload)"
proof -
  assume s: "signed_payload cfg link = Some payload"
  then obtain origin t where u: "do_url cfg link = Some (origin, Some t)" by (auto simp: signed_payload_def split: if_splits option.splits)
  with s have t: "link = delivery_url cfg t" by (auto simp: signed_payload_def split: if_splits)
  from s u obtain sig where sp: "js_split (CHR ''.'') t = [payload, sig]" "sig = do_mac cfg (''delivery:'' @ payload)"
    by (auto simp: signed_payload_def split: if_splits list.splits)
  with split_token [OF sp(1)] t show ?thesis by (simp add: delivery_token_def)
qed

lemma delivery_url_inject: "delivery_url cfg a = delivery_url cfg b \<longleftrightarrow> a = b"
  by (simp add: delivery_url_def)

text \<open>The hypothesis on \<open>new URL\<close>: a link of URL-safe characters keeps its token, and fits.\<close>

lemma signed_payload_issued:
  assumes "do_url cfg (delivery_url cfg (delivery_token cfg payload)) = Some (do_origin cfg, Some (delivery_token cfg payload))"
    and "length (delivery_url cfg (delivery_token cfg payload)) \<le> 4096"
    and "payload \<noteq> []" "list_all b64_alphabet payload" "do_mac cfg (''delivery:'' @ payload) \<noteq> []" "list_all b64_alphabet (do_mac cfg (''delivery:'' @ payload))"
  shows "signed_payload cfg (delivery_url cfg (delivery_token cfg payload)) = Some payload"
  using assms no_dot [OF assms(4)] no_dot [OF assms(6)] by (simp add: signed_payload_def delivery_token_def)

lemma claim_members [simp]:
  "json_get (claim_json cfg d pid iat ex) ''v'' = Some (js_int 1)" "json_get (claim_json cfg d pid iat ex) ''id'' = Some (JStr (dc_id d))"
  "json_get (claim_json cfg d pid iat ex) ''version'' = Some (JStr (dc_version d))"
  "json_get (claim_json cfg d pid iat ex) ''subject'' = Some (JStr (subject_of cfg pid))"
  "json_get (claim_json cfg d pid iat ex) ''iat'' = Some (js_int iat)" "json_get (claim_json cfg d pid iat ex) ''exp'' = Some (js_int ex)"
  "is_record (Some (claim_json cfg d pid iat ex))"
  by (simp_all add: claim_json_def is_record_def del: One_nat_def)

lemma find_document_by_id:
  "uuid i \<Longrightarrow> find_document cfg env identity st (Some (JStr i)) =
     (case find (\<lambda>d. dc_id d = i) (ds_documents st) of None \<Rightarrow> Inl Denied_code
      | Some d \<Rightarrow> bind_result (authorize_scope cfg env identity (dc_scope d)) (\<lambda>_. Inr d))"
  by (simp add: find_document_def)

lemma find_unique: "distinct (map f xs) \<Longrightarrow> x \<in> set xs \<Longrightarrow> find (\<lambda>y. f y = f x) xs = Some x"
  by (induction xs) auto

definition issued_link :: "document_config \<Rightarrow> stored_document \<Rightarrow> string \<Rightarrow> int \<Rightarrow> int \<Rightarrow> string" where
  "issued_link cfg d pid now expiresAt = delivery_url cfg (delivery_token cfg (claim_payload cfg (claim_json cfg d pid now expiresAt)))"

text \<open>Whom an operation acts for, or why it is refused.\<close>

definition caller :: "document_config \<Rightarrow> document_env \<Rightarrow> document_env \<Rightarrow> json option \<Rightarrow> document_state \<Rightarrow> document_code + request_identity" where
  "caller cfg before during credential st = map_sum id fst (document_run cfg before during credential (\<lambda>identity st. Inr (identity, st)) st)"

lemma document_run_caller: "document_run cfg before during credential fn st = bind_result (caller cfg before during credential st) (\<lambda>identity. fn identity st)"
  by (cases "presented credential"; cases "authenticate before (the (presented credential))"; cases "authenticate during (the (presented credential))")
    (simp_all add: caller_def document_run_def Let_def)

lemma caller_ok: "caller cfg before during credential st = Inr identity \<Longrightarrow> state_ok (do_number cfg) st"
  by (cases "document_run cfg before during credential (\<lambda>identity st. Inr (identity, st)) st") (auto simp: caller_def elim: document_run_Inr)

definition link_documented :: "document_config \<Rightarrow> stored_document \<Rightarrow> string \<Rightarrow> int \<Rightarrow> int \<Rightarrow> bool" where
  "link_documented cfg d pid iat ex \<longleftrightarrow>
     (let claim = claim_json cfg d pid iat ex; payload = claim_payload cfg claim; link = issued_link cfg d pid iat ex
      in do_url cfg link = Some (do_origin cfg, Some (delivery_token cfg payload)) \<and> length link \<le> 4096
         \<and> do_parse cfg (utf8 (js_stringify (do_number cfg) claim)) = Some claim
         \<and> do_mac cfg (''delivery:'' @ payload) \<noteq> [] \<and> list_all b64_alphabet (do_mac cfg (''delivery:'' @ payload)))"

lemma deliver_issued:
  assumes documented: "link_documented cfg d pid iat ex" and subjects: "inj (subject_of cfg)" and u: "uuid (dc_id d)"
    and times: "safe_count iat" "safe_count ex" "iat < ex" "ex - iat \<le> 300000"
  shows "deliver_body cfg env (Some (JStr (issued_link cfg d pid iat ex))) now identity st = Inr (dl, st') \<longleftrightarrow>
     st' = st \<and> safe_count now \<and> iat \<le> now \<and> now < ex \<and> (\<exists>d'. find (\<lambda>x. dc_id x = dc_id d) (ds_documents st) = Some d'
       \<and> dc_version d' = dc_version d \<and> authorize_scope cfg env identity (dc_scope d') = Inr pid \<and> dl = delivery_of d')"
proof -
  let ?claim = "claim_json cfg d pid iat ex"
  have payload: "signed_payload cfg (issued_link cfg d pid iat ex) = Some (claim_payload cfg ?claim)"
    unfolding issued_link_def
    by (rule signed_payload_issued) (use documented in \<open>simp_all add: link_documented_def Let_def issued_link_def claim_payload_def b64_encode_alphabet claim_json_def\<close>)
  have parsed: "do_parse cfg (b64_decode (claim_payload cfg ?claim)) = Some ?claim"
    using documented by (simp add: link_documented_def Let_def claim_payload_def b64_round_trip)
  have current: "claim_current ?claim n \<longleftrightarrow> iat \<le> n \<and> n < ex" for n
    using times by (auto simp: claim_current_def safe_integer_js_int safe_count_def)
  have same: "subject_of cfg pid = subject_of cfg q \<longleftrightarrow> q = pid" "subject_of cfg q = subject_of cfg pid \<longleftrightarrow> q = pid" for q using subjects by (auto simp: inj_def)
  show ?thesis
    unfolding deliver_body_def option.case json.case payload parsed claim_members find_document_by_id [OF u] current clock_def
    by (cases "find (\<lambda>x. dc_id x = dc_id d) (ds_documents st)"; cases "safe_count now"; cases "iat \<le> now \<and> now < ex";
        cases "authorize_scope cfg env identity (dc_scope (the (find (\<lambda>x. dc_id x = dc_id d) (ds_documents st))))")
      (auto simp: same)
qed

end
