(* ===== verification/Document_Content.thy ===== *)
theory Document_Content
  imports Document_State "HOL-Library.Word"
begin

unbundle bit_operations_syntax

text \<open>
  Which bytes a candidate may upload: \<^verbatim>\<open>packages/private-documents/src/candidate-content.ts\<close>. Bytes
  are characters; \<open>inflate\<close> is \<open>inflateSync\<close> of \<^verbatim>\<open>node:zlib\<close> with a bound on its output: the
  bytes and how many it consumed, or nothing. A walk over an offset is one over the bytes that
  are left. Regular expressions are written out as matchers of a text at its start.
\<close>

section \<open>Checksums\<close>

fun crc_shift :: "nat \<Rightarrow> 32 word \<Rightarrow> 32 word" where
  "crc_shift 0 crc = crc"
| "crc_shift (Suc n) crc = crc_shift n (drop_bit 1 crc XOR (if crc AND 1 \<noteq> 0 then 0xEDB88320 else 0))"

definition crc_step :: "32 word \<Rightarrow> char \<Rightarrow> 32 word" where
  "crc_step crc b = crc_shift 8 (crc XOR of_nat (byte b))"

definition crc32 :: "string \<Rightarrow> 32 word" where
  "crc32 bytes = foldl crc_step 0xFFFFFFFF bytes XOR 0xFFFFFFFF"

fun big_endian :: "string \<Rightarrow> nat" where
  "big_endian bytes = foldl (\<lambda>n b. 256 * n + byte b) 0 bytes"

section \<open>PNG\<close>

record png_state =
  pn_width :: nat
  pn_height :: nat
  pn_channels :: nat
  pn_data :: "string list"
  pn_ended :: bool

definition png_channels :: "nat \<Rightarrow> nat" where
  "png_channels colour = (if colour = 0 then 1 else if colour = 2 then 3 else if colour = 4 then 2 else if colour = 6 then 4 else 0)"

definition png_header :: "string \<Rightarrow> png_state \<Rightarrow> png_state option" where
  "png_header payload s =
     (let width = big_endian (take 4 payload); height = big_endian (take 4 (drop 4 payload));
          channels = png_channels (byte (payload ! 9))
      in if width = 0 \<or> height = 0 \<or> width * height > 16000000 \<or> byte (payload ! 8) \<noteq> 8 \<or> channels = 0
            \<or> byte (payload ! 10) \<noteq> 0 \<or> byte (payload ! 11) \<noteq> 0 \<or> byte (payload ! 12) \<noteq> 0 then None
         else Some (s\<lparr>pn_width := width, pn_height := height, pn_channels := channels\<rparr>))"

text \<open>The chunks from an offset on: the state at the final chunk, or nothing.\<close>

function png_chunks :: "string \<Rightarrow> png_state \<Rightarrow> png_state option" where
  "png_chunks rest s =
     (if length rest < 12 then None
      else let chunk = big_endian (take 4 rest)
           in if 12 + chunk > length rest then None
              else let type = ascii (take 4 (drop 4 rest)); payload = take chunk (drop 8 rest); after = drop (12 + chunk) rest
                   in if crc32 (take (4 + chunk) (drop 4 rest)) \<noteq> of_nat (big_endian (take 4 (drop (8 + chunk) rest))) then None
                      else if pn_width s = 0 \<and> type \<noteq> ''IHDR'' then None
                      else if type = ''IHDR'' then
                        (if pn_width s \<noteq> 0 \<or> chunk \<noteq> 13 then None
                         else case png_header payload s of None \<Rightarrow> None | Some s' \<Rightarrow> png_chunks after s')
                      else if type = ''IDAT'' then
                        (if pn_ended s then None else png_chunks after (s\<lparr>pn_data := pn_data s @ [payload]\<rparr>))
                      else if type = ''IEND'' then (if chunk \<noteq> 0 \<or> pn_data s = [] \<or> after \<noteq> [] then None else Some s)
                      else if type \<noteq> ''sRGB'' \<and> type \<noteq> ''gAMA'' \<and> type \<noteq> ''pHYs'' then None
                      else png_chunks after (s\<lparr>pn_ended := pn_ended s \<or> pn_data s \<noteq> []\<rparr>))"
  by pat_completeness auto
termination by (relation "measure (\<lambda>(rest, s). length rest)") auto

definition png :: "(string \<Rightarrow> nat \<Rightarrow> (string \<times> nat) option) \<Rightarrow> string \<Rightarrow> bool" where
  "png inflate bytes \<longleftrightarrow> take 8 bytes = PNG_MAGIC \<and>
     (case png_chunks (drop 8 bytes) \<lparr>pn_width = 0, pn_height = 0, pn_channels = 0, pn_data = [], pn_ended = False\<rparr> of
        None \<Rightarrow> False
      | Some s \<Rightarrow>
          (let stride = pn_width s * pn_channels s + 1; expected = stride * pn_height s; compressed = concat (pn_data s)
           in case inflate compressed expected of
                None \<Rightarrow> False
              | Some (decoded, consumed) \<Rightarrow> length decoded = expected \<and> consumed = length compressed
                  \<and> list_all (\<lambda>row. byte (decoded ! (row * stride)) \<le> 4) [0..<pn_height s]))"

section \<open>JPEG\<close>

text \<open>Past the entropy-coded bytes of a scan.\<close>

fun skip_entropy :: "string \<Rightarrow> string" where
  "skip_entropy [] = []"
| "skip_entropy [b] = (if byte b = 255 then [b] else [])"
| "skip_entropy (b # c # r) = (if byte b \<noteq> 255 then skip_entropy (c # r)
     else if byte c = 0 \<or> (208 \<le> byte c \<and> byte c \<le> 215) then skip_entropy r else b # c # r)"

lemma skip_entropy_length [termination_simp]: "length (skip_entropy s) \<le> length s"
  by (induction s rule: skip_entropy.induct) auto

definition frame_ok :: "string \<Rightarrow> nat \<Rightarrow> bool" where
  "frame_ok seg len \<longleftrightarrow> len \<ge> 11 \<and> byte (seg ! 2) = 8 \<and>
     (let height = big_endian (take 2 (drop 3 seg)); width = big_endian (take 2 (drop 5 seg)); components = byte (seg ! 7)
      in width \<noteq> 0 \<and> height \<noteq> 0 \<and> width * height \<le> 16000000 \<and> components \<in> {1, 3} \<and> len = 8 + components * 3)"

text \<open>From a marker on: \<open>frame\<close> and \<open>scan\<close> say whether one was seen.\<close>

function jpeg_segments :: "string \<Rightarrow> bool \<Rightarrow> bool \<Rightarrow> bool" where
  "jpeg_segments rest frame scan =
     (case rest of
        [] \<Rightarrow> False
      | b # r \<Rightarrow>
          (if byte b \<noteq> 255 then False
           else case dropWhile (\<lambda>c. byte c = 255) r of
             [] \<Rightarrow> False
           | m # seg \<Rightarrow>
               (let marker = byte m
                in if marker = 217 then frame \<and> scan \<and> seg = []
                   else if marker = 0 \<or> marker = 216 \<or> (208 \<le> marker \<and> marker \<le> 215) \<or> length seg < 2 then False
                   else let len = big_endian (take 2 seg)
                        in if len < 2 \<or> len > length seg then False
                           else if (marker = 192 \<or> marker = 194) \<and> (frame \<or> \<not> frame_ok seg len) then False
                           else let frame' = (frame \<or> marker = 192 \<or> marker = 194); after = drop len seg
                                in if marker = 218 then
                                     (if \<not> frame' \<or> len < 6 then False
                                      else if skip_entropy after = after then False
                                      else jpeg_segments (skip_entropy after) frame' True)
                                   else jpeg_segments after frame' scan)))"
  by pat_completeness auto
termination
proof (relation "measure (\<lambda>(rest, f, s). length rest)", simp_all)
  have seg: "length seg < length r + 1" if "dropWhile P r = m # seg" for P r m and seg :: string
    using length_dropWhile_le [of P r] that by simp
  show "length (skip_entropy (drop n seg)) < Suc (length r)" if "dropWhile (\<lambda>c. byte c = 255) r = m # seg" for r m n and seg :: string
    using seg [OF that] skip_entropy_length [of "drop n seg"] by simp
  show "length seg - n < Suc (length r)" if "dropWhile (\<lambda>c. byte c = 255) r = m # seg" for r m n and seg :: string
    using seg [OF that] by simp
qed

definition jpeg :: "string \<Rightarrow> bool" where
  "jpeg bytes \<longleftrightarrow> map byte (take 2 bytes) = [255, 216] \<and> jpeg_segments (drop 2 bytes) False False"

section \<open>PDF\<close>

type_synonym 'a matcher = "string \<Rightarrow> 'a option"

text \<open>A literal, \<open>\s*\<close>, \<open>\s+\<close> and \<open>(\d+)\<close>: what is left after them. None of them can give back what
  the next one needs, so the longest match is the only one.\<close>

definition lit :: "string \<Rightarrow> string matcher" where
  "lit p s = (if take (length p) s = p then Some (drop (length p) s) else None)"

definition spaces :: "string matcher" where
  "spaces s = Some (dropWhile js_space s)"

definition some_spaces :: "string matcher" where
  "some_spaces s = (if takeWhile js_space s = [] then None else Some (dropWhile js_space s))"

definition some_digits :: "(nat \<times> string) matcher" where
  "some_digits s = (if takeWhile digit_char s = [] then None else Some (read_nat (takeWhile digit_char s), dropWhile digit_char s))"

abbreviation and_then :: "'a option \<Rightarrow> ('a \<Rightarrow> 'b option) \<Rightarrow> 'b option" where
  "and_then \<equiv> Option.bind"

definition word_char :: "char \<Rightarrow> bool" where
  "word_char c \<longleftrightarrow> alnum c \<or> c = CHR 0x5F"

definition word_end :: "string \<Rightarrow> bool" where
  "word_end s \<longleftrightarrow> (case s of [] \<Rightarrow> True | c # r \<Rightarrow> \<not> word_char c)"

text \<open>The first place a matcher matches at: the text before it and the match.\<close>

fun search :: "'a matcher \<Rightarrow> string \<Rightarrow> (string \<times> 'a) option" where
  "search m [] = map_option (Pair []) (m [])"
| "search m (c # s) = (case m (c # s) of Some x \<Rightarrow> Some ([], x) | None \<Rightarrow> map_option (\<lambda>(before, x). (c # before, x)) (search m s))"

definition occurs :: "'a matcher \<Rightarrow> string \<Rightarrow> bool" where
  "occurs m s \<longleftrightarrow> search m s \<noteq> None"

fun count_text :: "string \<Rightarrow> string \<Rightarrow> nat" where
  "count_text p [] = 0"
| "count_text p (c # s) = (if take (length p) (c # s) = p then 1 else 0) + count_text p s"

text \<open>\<open>/\bendobj\b/g\<close>: \<open>w\<close> says whether the character before is of a word.\<close>

fun count_word :: "string \<Rightarrow> bool \<Rightarrow> string \<Rightarrow> nat" where
  "count_word p w [] = 0"
| "count_word p w (c # s) = (if \<not> w \<and> take (length p) (c # s) = p \<and> word_end (drop (length p) (c # s)) then 1 else 0) + count_word p (word_char c) s"

definition pdf_version :: "unit matcher" where
  "pdf_version s = and_then (lit ''%PDF-1.'' s) (\<lambda>r. case r of
       d # e # _ \<Rightarrow> if d \<in> set ''01234567'' \<and> (e = CHR 0x0D \<or> e = CHR 0x0A) then Some () else None | _ \<Rightarrow> None)"

definition PDF_ACTIVE :: "string list" where
  "PDF_ACTIVE = [''JavaScript'', ''JS'', ''Launch'', ''OpenAction'', ''AA'', ''EmbeddedFile'', ''Encrypt'', ''XFA'']"

definition active_name :: "unit matcher" where
  "active_name s = and_then (lit ''/'' s) (\<lambda>r.
     if list_ex (\<lambda>name. case lit name r of None \<Rightarrow> False | Some t \<Rightarrow> word_end t) PDF_ACTIVE then Some () else None)"

definition pdf_tail :: "nat matcher" where
  "pdf_tail s = and_then (lit ''startxref'' s) (\<lambda>r. and_then (some_spaces r) (\<lambda>r. and_then (some_digits r) (\<lambda>(n, r).
     and_then (some_spaces r) (\<lambda>r. and_then (lit ''%%EOF'' r) (\<lambda>r. if dropWhile js_space r = [] then Some n else None)))))"

definition type_name :: "string \<Rightarrow> unit matcher" where
  "type_name name s = and_then (lit ''/Type'' s) (\<lambda>r. and_then (spaces r) (\<lambda>r. and_then (lit name r) (\<lambda>r. if word_end r then Some () else None)))"

definition trailer_start :: "string matcher" where
  "trailer_start s = and_then (lit ''trailer'' s) (\<lambda>r. and_then (spaces r) (lit ''<<''))"

definition trailer_end :: "unit matcher" where
  "trailer_end s = and_then (lit ''>>'' s) (\<lambda>r. and_then (spaces r) (\<lambda>r. map_option (\<lambda>_. ()) (lit ''startxref'' r)))"

text \<open>The cross-reference section: its count, the text of its rows, the trailer dictionary. The
  shortest rows and dictionary are taken; a later \<open>trailer\<close> could only end where this one can.\<close>

definition xref_section :: "(nat \<times> string \<times> string) matcher" where
  "xref_section s = and_then (lit (''xref'' @ [CHR 0x0A] @ ''0 '') s) (\<lambda>r. and_then (some_digits r) (\<lambda>(n, r). and_then (lit [CHR 0x0A] r) (\<lambda>r.
     and_then (search trailer_start r) (\<lambda>(rows, r). and_then (search trailer_end r) (\<lambda>(dict, _). Some (n, rows, dict))))))"

definition root_reference :: "unit matcher" where
  "root_reference s = and_then (lit ''/Root'' s) (\<lambda>r. and_then (some_spaces r) (\<lambda>r. and_then (some_digits r) (\<lambda>(n, r). and_then (some_spaces r) (\<lambda>r.
     and_then (lit ''0'' r) (\<lambda>r. and_then (some_spaces r) (\<lambda>r. map_option (\<lambda>_. ()) (lit ''R'' r)))))))"

definition trim_end :: "string \<Rightarrow> string" where
  "trim_end s = rev (dropWhile js_space (rev s))"

text \<open>\<open>split(/\r?\n/)\<close>.\<close>

definition split_lines :: "string \<Rightarrow> string list" where
  "split_lines s = (let rows = js_split (CHR 0x0A) s;
       chop = (\<lambda>r. if r \<noteq> [] \<and> last r = CHR 0x0D then butlast r else r)
     in map chop (butlast rows) @ [last rows])"

definition xref_row :: "nat matcher" where
  "xref_row row = (if length (takeWhile digit_char row) = 10 then
       (case lit '' 00000 n'' (drop 10 row) of
          None \<Rightarrow> None
        | Some r \<Rightarrow> if r = [] \<or> (length r = 1 \<and> list_all js_space r) then Some (read_nat (take 10 row)) else None)
     else None)"

definition pdf :: "string \<Rightarrow> bool" where
  "pdf s \<longleftrightarrow> pdf_version s \<noteq> None \<and> \<not> occurs active_name s \<and> count_text ''%%EOF'' s = 1
     \<and> occurs (type_name ''/Catalog'') s \<and> occurs (type_name ''/Page'') s
     \<and> (case search pdf_tail s of
          None \<Rightarrow> False
        | Some (_, offset) \<Rightarrow>
            int offset \<le> MAX_SAFE \<and> take 5 (drop offset s) = ''xref'' @ [CHR 0x0A]
            \<and> (case xref_section (drop offset s) of
                 None \<Rightarrow> False
               | Some (n, rows_text, dict) \<Rightarrow>
                   (let rows = split_lines (trim_end rows_text)
                    in occurs root_reference dict \<and> length rows = n \<and> hd rows = ''0000000000 65535 f ''
                       \<and> list_all (\<lambda>i. case xref_row (rows ! i) of
                            None \<Rightarrow> False | Some p \<Rightarrow> lit (show_nat i @ '' 0 obj'') (drop p s) \<noteq> None) [1..<length rows]
                       \<and> count_word ''endobj'' False s = length rows - 1)))"

section \<open>Admission\<close>

definition validateCandidateContent :: "(string \<Rightarrow> nat \<Rightarrow> (string \<times> nat) option) \<Rightarrow> string \<Rightarrow> string \<Rightarrow> string \<Rightarrow> bool" where
  "validateCandidateContent inflate type mime bytes \<longleftrightarrow> bytes \<noteq> [] \<and> length bytes \<le> 10 * 1024 * 1024
     \<and> (if type = ''resume'' \<and> mime = ''application/pdf'' then pdf bytes
        else if type \<noteq> ''resume'' \<and> mime = ''image/png'' then png inflate bytes
        else if type \<noteq> ''resume'' \<and> mime = ''image/jpeg'' then jpeg bytes
        else False)"

end
