(* ===== verification/Candidate_Documents.thy ===== *)
theory Candidate_Documents
  imports Documents Document_Content
begin

declare map_of_eq_Some_iff [simp del] Some_eq_map_of_iff [simp del]

text \<open>
  Candidate documents: the class \<^verbatim>\<open>CandidateDocuments\<close> of
  \<^verbatim>\<open>packages/private-documents/src/candidate-lifecycle.ts\<close> over the operations of \<open>Documents\<close>
  and the executor of \<open>Idempotency\<close>. An operation takes the state of the store to its answer and
  the next state; a transaction that throws leaves the state as it was. The environment before
  a transaction and during it are two environments, the executor's reading of the clock and the
  transaction's are two readings; within a transaction each is one. SHA-256, identifiers and the
  object store of direct uploads are parameters. The operational log is not part of the model.
\<close>

section \<open>Options, errors\<close>

record direct_port =
  dp_authorize :: "upload_ticket \<Rightarrow> json option"
  dp_read :: "upload_ticket \<Rightarrow> string option"

record candidate_config =
  cn_config :: document_config
  cn_org :: string
  cn_sha :: "string \<Rightarrow> string"
  cn_inflate :: "string \<Rightarrow> nat \<Rightarrow> (string \<times> nat) option"
  cn_direct :: "direct_port option"

definition primitive :: "candidate_config \<Rightarrow> document_config" where
  "primitive cn = (cn_config cn)\<lparr>do_own := Some (cn_org cn)\<rparr>"

datatype life_error = Lifecycle nat string | Document document_code | Thrown

definition deny :: "life_error + 'a" where
  "deny = Inl (Lifecycle 403 ''denied'')"

definition life_invalid :: "life_error + 'a" where
  "life_invalid = Inl (Lifecycle 400 ''invalid'')"

definition life_conflict :: "life_error + 'a" where
  "life_conflict = Inl (Lifecycle 409 ''conflict'')"

definition life_unavailable :: "life_error + 'a" where
  "life_unavailable = Inl (Lifecycle 503 ''unavailable'')"

record admission_rule =
  ad_mimes :: "string list"
  ad_bytes :: int

definition CANDIDATE_DOCUMENT_ADMISSION :: "string \<Rightarrow> admission_rule" where
  "CANDIDATE_DOCUMENT_ADMISSION type = \<lparr>ad_mimes = (if type = ''resume'' then [''application/pdf''] else [''image/png'', ''image/jpeg'']),
     ad_bytes = 10 * 1024 * 1024\<rparr>"

definition request_body :: "json option \<Rightarrow> string list \<Rightarrow> life_error + json" where
  "request_body v names = (case v of Some b \<Rightarrow> if exact b names then Inr b else life_invalid | None \<Rightarrow> life_invalid)"

definition document_kind :: "json option \<Rightarrow> life_error + string" where
  "document_kind v = (case v of Some (JStr s) \<Rightarrow> if s \<in> set CANDIDATE_DOCUMENT_TYPES then Inr s else life_invalid | _ \<Rightarrow> life_invalid)"

definition version_of :: "json option \<Rightarrow> life_error + string option" where
  "version_of v = (case v of
       Some JNull \<Rightarrow> Inr None
     | Some (JStr s) \<Rightarrow> if length s = 36 \<and> list_all (\<lambda>c. hex_char c \<or> c = CHR ''-'') s then Inr (Some s) else life_invalid
     | _ \<Rightarrow> life_invalid)"

section \<open>Principals and tickets\<close>

definition candidate_now :: "int \<Rightarrow> life_error + int" where
  "candidate_now n = (if safe_count n then Inr n else life_unavailable)"

definition candidate_principal :: "candidate_config \<Rightarrow> document_env \<Rightarrow> json option \<Rightarrow> life_error + string" where
  "candidate_principal cn env credential = (case presented credential of
     None \<Rightarrow> deny
   | Some c \<Rightarrow> (case de_authenticate env c of
        None \<Rightarrow> Inl Thrown
      | Some None \<Rightarrow> deny
      | Some (Some identity) \<Rightarrow> (case resolvePrincipalId identity (de_reads env) of
            None \<Rightarrow> deny
          | Some pid \<Rightarrow> if rd_org (de_reads env) (cn_org cn) = None then deny else Inr pid)))"

definition upload_token :: "candidate_config \<Rightarrow> upload_ticket \<Rightarrow> string" where
  "upload_token cn t = do_mac (cn_config cn) (js_stringify (do_number (cn_config cn)) (JArr [JStr ''upload-v1'', JStr (tk_id t), JStr (tk_objectKey t),
     JStr (tk_principal t), JStr (tk_org t), js_int (tk_issued t), js_int (tk_expires t)]))"

definition journal :: "document_state \<Rightarrow> lifecycle_state" where
  "journal st = (case ds_lifecycle st of None \<Rightarrow> emptyLifecycleState | Some l \<Rightarrow> l)"

definition with_journal :: "(lifecycle_state \<Rightarrow> lifecycle_state) \<Rightarrow> document_state \<Rightarrow> document_state" where
  "with_journal f st = st\<lparr>ds_lifecycle := Some (f (journal st))\<rparr>"

definition ticket :: "candidate_config \<Rightarrow> document_state \<Rightarrow> string \<Rightarrow> string \<Rightarrow> life_error + upload_ticket" where
  "ticket cn st pid i = (case find (\<lambda>t. tk_id t = i) (lf_uploads (journal st)) of
     None \<Rightarrow> deny
   | Some t \<Rightarrow> if tk_principal t \<noteq> pid \<or> tk_org t \<noteq> cn_org cn then deny else Inr t)"

definition live_ticket :: "int \<Rightarrow> upload_ticket \<Rightarrow> life_error + unit" where
  "live_ticket now t = bind_result (candidate_now now) (\<lambda>now. if now \<ge> tk_expires t \<or> now < tk_issued t then deny else Inr ())"

definition owned_by :: "candidate_config \<Rightarrow> string \<Rightarrow> string \<Rightarrow> stored_document \<Rightarrow> bool" where
  "owned_by cn pid type d \<longleftrightarrow> sc_person (dc_scope d) = Some pid \<and> sc_org (dc_scope d) = cn_org cn \<and> dc_type d = type"

definition current_document :: "candidate_config \<Rightarrow> document_state \<Rightarrow> string \<Rightarrow> string \<Rightarrow> life_error + stored_document option" where
  "current_document cn st pid type = (case filter (owned_by cn pid type) (ds_documents st) of
     [] \<Rightarrow> Inr None | [d] \<Rightarrow> Inr (Some d) | _ \<Rightarrow> life_unavailable)"

definition enqueue_cleanup :: "int \<Rightarrow> stored_document \<Rightarrow> document_state \<Rightarrow> document_state" where
  "enqueue_cleanup now d = with_journal (\<lambda>l.
     (let i = dc_id d @ '':'' @ dc_version d
      in if list_ex (\<lambda>c. cl_id c = i) (lf_cleanup l) then l
         else l\<lparr>lf_cleanup := lf_cleanup l @ [\<lparr>cl_id = i, cl_document = dc_id d, cl_version = dc_version d, cl_retired = now, cl_status = Held\<rparr>]\<rparr>))"

definition add_audit :: "candidate_config \<Rightarrow> string \<Rightarrow> audit_operation \<Rightarrow> string \<Rightarrow> int \<Rightarrow> document_state \<Rightarrow> document_state" where
  "add_audit cn i oper pid now = with_journal (\<lambda>l. l\<lparr>lf_audit := lf_audit l @
     [\<lparr>au_id = i, au_operation = oper, au_principal = cn_sha cn (utf8 pid), au_at = now\<rparr>]\<rparr>)"

definition set_ticket :: "string \<Rightarrow> (upload_ticket \<Rightarrow> upload_ticket) \<Rightarrow> document_state \<Rightarrow> document_state" where
  "set_ticket i f = with_journal (\<lambda>l. l\<lparr>lf_uploads := update_first (\<lambda>t. tk_id t = i) f (lf_uploads l)\<rparr>)"

text \<open>The primitive bound to a transaction already open; its errors are the primitive's.\<close>

definition bound :: "document_code + ('a \<times> document_state) \<Rightarrow> life_error + ('a \<times> document_state)" where
  "bound r = map_sum Document id r"

section \<open>One mutation, once\<close>

text \<open>The body of a mutation, with the check that runs before a stored answer is given.\<close>

record mutation_body =
  mb_run :: "document_state \<Rightarrow> string \<Rightarrow> life_error + (stored_response \<times> document_state)"
  mb_preflight :: "document_state \<Rightarrow> string \<Rightarrow> life_error + unit"

text \<open>\<open>executeAtomic\<close>: next to the state, the error the operation left behind; no outcome where the
  transaction throws.\<close>

definition candidate_atomic :: "candidate_config \<Rightarrow> document_env \<Rightarrow> json option \<Rightarrow> string \<Rightarrow> mutation_body \<Rightarrow> int
    \<Rightarrow> document_state \<times> life_error option \<Rightarrow> atomic_input \<Rightarrow> operation \<Rightarrow> (document_state \<times> life_error option) \<times> atomic_outcome option" where
  "candidate_atomic cn env credential pid body now se i operation =
     (let st = fst se; s = with_journal id st
      in case candidate_now now of
           Inl e \<Rightarrow> ((st, None), None)
         | Inr n \<Rightarrow>
             (if date_reached n (ai_expires i) then ((s, None), Some Expired_key)
              else if candidate_principal cn env credential \<noteq> Inr pid then ((st, None), None)
              else case mb_preflight body s pid of
                Inl e \<Rightarrow> ((st, Some e), None)
              | Inr _ \<Rightarrow>
                  (case find (\<lambda>r. rc_key r = ai_key i \<and> rc_principal r = ai_principal i) (lf_receipts (journal s)) of
                     Some old \<Rightarrow> ((s, None), Some (if rc_fingerprint old \<noteq> ai_fingerprint i then Conflict else Replayed_response (rc_response old)))
                   | None \<Rightarrow>
                       (case mb_run body s pid of
                          Inl e \<Rightarrow> ((st, Some e), None)
                        | Inr (response, s') \<Rightarrow>
                            ((with_journal (\<lambda>l. l\<lparr>lf_receipts := lf_receipts l @
                                [\<lparr>rc_principal = ai_principal i, rc_key = ai_key i, rc_fingerprint = ai_fingerprint i,
                                  rc_expires = (case ai_expires i of None \<Rightarrow> 0 | Some e \<Rightarrow> e), rc_response = response\<rparr>]\<rparr>) s', None),
                             Some (Executed response))))))"

fun reason_text :: "refusal_reason \<Rightarrow> string" where
  "reason_text Missing_key = ''missing_key''"
| "reason_text Invalid_key = ''invalid_key''"
| "reason_text Key_in_future = ''key_in_future''"
| "reason_text Key_expired = ''key_expired''"
| "reason_text Invalid_request = ''invalid_request''"
| "reason_text Key_payload_mismatch = ''key_payload_mismatch''"
| "reason_text Operation_failed = ''operation_failed''"

definition mutation_route :: "string \<Rightarrow> string" where
  "mutation_route oper = (if oper = ''authorize'' then ''/candidate-documents/uploads''
     else if oper = ''bytes'' then ''/candidate-documents/uploads/{uploadId}/bytes'' else ''/candidate-documents/'' @ oper)"

definition mutation_request_of :: "candidate_config \<Rightarrow> string \<Rightarrow> string option \<Rightarrow> string \<Rightarrow> json \<Rightarrow> mutation_request" where
  "mutation_request_of cn pid key oper payload = \<lparr>mr_key = key, mr_principal = cn_sha cn (utf8 pid),
     mr_method = (if oper = ''bytes'' then ''PUT'' else ''POST''), mr_route = mutation_route oper,
     mr_payload = JObj [(''orgId'', JStr (cn_org cn)), (''request'', payload)]\<rparr>"

definition default_options :: idem_options where
  "default_options = \<lparr>io_retention = DEFAULT_IDEMPOTENCY_RETENTION_MS, io_skew = DEFAULT_IDEMPOTENCY_FUTURE_SKEW_MS\<rparr>"

definition fingerprint_hash :: "candidate_config \<Rightarrow> json \<Rightarrow> string" where
  "fingerprint_hash cn v = cn_sha cn (utf8 (js_stringify (do_number (cn_config cn)) v))"

definition mutation :: "candidate_config \<Rightarrow> document_env \<Rightarrow> document_env \<Rightarrow> json option \<Rightarrow> string option \<Rightarrow> string \<Rightarrow> json \<Rightarrow> mutation_body
    \<Rightarrow> int \<Rightarrow> int \<Rightarrow> document_state \<Rightarrow> (life_error + stored_response) \<times> document_state" where
  "mutation cn before during credential key oper payload body executor_now now st =
     (case candidate_principal cn before credential of
        Inl e \<Rightarrow> (Inl (case e of Lifecycle a b \<Rightarrow> e | _ \<Rightarrow> Lifecycle 503 ''unavailable''), st)
      | Inr pid \<Rightarrow>
          (if requestIsValid (mutation_request_of cn pid key oper payload) \<and> key \<noteq> None \<and> key_time (the key) \<noteq> None \<and> \<not> safe_count executor_now
           then (life_unavailable, st)
           else case execute (fingerprint_hash cn) default_options (candidate_atomic cn during credential pid body now) (js_date executor_now) (st, None)
              (mutation_request_of cn pid key oper payload) ([], None) of
             ((st', Some (Lifecycle a b)), result) \<Rightarrow> (Inl (Lifecycle a b), st')
           | ((st', operationError), Done replayed response) \<Rightarrow> (Inr response, st')
           | ((st', operationError), Refusal status reason) \<Rightarrow>
               (Inl (Lifecycle status (if status = 503 then ''unavailable'' else reason_text reason)), st')))"

section \<open>Authorizing an upload\<close>

definition no_preflight :: "document_state \<Rightarrow> string \<Rightarrow> life_error + unit" where
  "no_preflight st pid = Inr ()"

definition new_ticket :: "candidate_config \<Rightarrow> string \<Rightarrow> string \<Rightarrow> string \<Rightarrow> string \<Rightarrow> int \<Rightarrow> string option \<Rightarrow> (string \<times> string) option \<Rightarrow> int \<Rightarrow> upload_ticket" where
  "new_ticket cn i pid type mime bytes expected digests now = \<lparr>tk_id = i, tk_objectKey = ''uploads/'' @ i, tk_principal = pid, tk_org = cn_org cn,
     tk_type = type, tk_mime = mime, tk_size = bytes, tk_expected = expected, tk_issued = now, tk_expires = now + 60000,
     tk_expectedDigest = map_option fst digests, tk_contentMd5 = map_option snd digests, tk_data = None, tk_digest = None, tk_committed = None\<rparr>"

definition authorize_response :: "candidate_config \<Rightarrow> upload_ticket \<Rightarrow> json option \<Rightarrow> stored_response" where
  "authorize_response cn t direct = \<lparr>sr_status = 201, sr_headers = None, sr_body = Some (JObj ([(''uploadId'', JStr (tk_id t)),
     (''objectKey'', JStr (tk_objectKey t)), (''credential'', JStr (upload_token cn t)), (''expiresAt'', js_int (tk_expires t))]
     @ opt_member ''directUpload'' id direct))\<rparr>"

definition authorize_run :: "candidate_config \<Rightarrow> string \<Rightarrow> string \<Rightarrow> string \<Rightarrow> int \<Rightarrow> string option \<Rightarrow> (string \<times> string) option \<Rightarrow> int
    \<Rightarrow> document_state \<Rightarrow> string \<Rightarrow> life_error + (stored_response \<times> document_state)" where
  "authorize_run cn i type mime bytes expected digests now st pid =
     bind_result (current_document cn st pid type) (\<lambda>d.
       if map_option dc_version d \<noteq> expected then life_conflict
       else bind_result (candidate_now now) (\<lambda>now.
         (let t = new_ticket cn i pid type mime bytes expected digests now;
              s = with_journal (\<lambda>l. l\<lparr>lf_uploads := lf_uploads l @ [t]\<rparr>) st
          in case cn_direct cn of
               None \<Rightarrow> Inr (authorize_response cn t None, s)
             | Some port \<Rightarrow> (case dp_authorize port t of
                   None \<Rightarrow> Inl Thrown
                 | Some direct \<Rightarrow> Inr (authorize_response cn t (Some direct), s)))))"

definition upload_request :: "candidate_config \<Rightarrow> json option \<Rightarrow> life_error + (json \<times> string \<times> string \<times> int \<times> string option \<times> (string \<times> string) option)" where
  "upload_request cn input =
     bind_result (request_body input [''type'', ''mime'', ''size'', ''expectedVersion'', ''sha256'', ''contentMd5'']) (\<lambda>b.
     bind_result (document_kind (json_get b ''type'')) (\<lambda>type.
     bind_result (version_of (json_get b ''expectedVersion'')) (\<lambda>expected.
       if cn_direct cn \<noteq> None \<and> (\<not> is_text (json_get b ''sha256'') reference_ok \<or> \<not> is_text (json_get b ''contentMd5'') md5_text) then life_invalid
       else (let rule = CANDIDATE_DOCUMENT_ADMISSION type
             in if \<not> is_text (json_get b ''mime'') (\<lambda>m. m \<in> set (ad_mimes rule)) \<or> \<not> positiveInteger (json_get b ''size'')
                   \<or> int_of (json_get b ''size'') > ad_bytes rule then life_invalid
                else Inr (b, type, text_of (json_get b ''mime''), int_of (json_get b ''size''), expected,
                  if cn_direct cn = None then None else Some (text_of (json_get b ''sha256''), text_of (json_get b ''contentMd5'')))))))"

definition authorizeUpload :: "candidate_config \<Rightarrow> document_env \<Rightarrow> document_env \<Rightarrow> json option \<Rightarrow> string option \<Rightarrow> json option \<Rightarrow> string \<Rightarrow> int \<Rightarrow> int
    \<Rightarrow> document_state \<Rightarrow> (life_error + stored_response) \<times> document_state" where
  "authorizeUpload cn before during credential key input i executor_now now st = (case upload_request cn input of
     Inl e \<Rightarrow> (Inl e, st)
   | Inr (b, type, mime, bytes, expected, digests) \<Rightarrow> mutation cn before during credential key ''authorize'' b
       \<lparr>mb_run = authorize_run cn i type mime bytes expected digests now, mb_preflight = no_preflight\<rparr> executor_now now st)"

section \<open>Uploading the bytes\<close>

definition put_run :: "candidate_config \<Rightarrow> string \<Rightarrow> string \<Rightarrow> int \<Rightarrow> document_state \<Rightarrow> string \<Rightarrow> life_error + (stored_response \<times> document_state)" where
  "put_run cn i bytes now st pid =
     bind_result (ticket cn st pid i) (\<lambda>t.
     bind_result (live_ticket now t) (\<lambda>_.
       if tk_committed t = Some True then life_conflict
       else if int (length bytes) \<noteq> tk_size t then life_invalid
       else if \<not> validateCandidateContent (cn_inflate cn) (tk_type t) (tk_mime t) bytes then life_invalid
       else (let digest = cn_sha cn bytes
             in if (case tk_digest t of None \<Rightarrow> False | Some g \<Rightarrow> g \<noteq> [] \<and> g \<noteq> digest) then life_conflict
                else Inr (\<lparr>sr_status = 204, sr_headers = None, sr_body = None\<rparr>,
                  set_ticket i (\<lambda>t. t\<lparr>tk_data := Some (b64_text bytes), tk_digest := Some digest\<rparr>) st))))"

definition put_preflight :: "candidate_config \<Rightarrow> string \<Rightarrow> string \<Rightarrow> string \<Rightarrow> int \<Rightarrow> document_state \<Rightarrow> string \<Rightarrow> life_error + unit" where
  "put_preflight cn i objectKey uploadCredential now st pid =
     bind_result (ticket cn st pid i) (\<lambda>t.
     bind_result (live_ticket now t) (\<lambda>_.
       if objectKey \<noteq> tk_objectKey t \<or> uploadCredential \<noteq> upload_token cn t then deny else Inr ()))"

definition put_bytes :: "candidate_config \<Rightarrow> document_env \<Rightarrow> document_env \<Rightarrow> json option \<Rightarrow> string option \<Rightarrow> string \<Rightarrow> string \<Rightarrow> string \<Rightarrow> string \<Rightarrow> int \<Rightarrow> int
    \<Rightarrow> document_state \<Rightarrow> (life_error + stored_response) \<times> document_state" where
  "put_bytes cn before during credential key i objectKey uploadCredential bytes executor_now now =
     mutation cn before during credential key ''bytes''
       (JObj [(''id'', JStr i), (''objectKey'', JStr objectKey), (''uploadCredential'', JStr (cn_sha cn (utf8 uploadCredential))), (''digest'', JStr (cn_sha cn bytes))])
       \<lparr>mb_run = put_run cn i bytes now, mb_preflight = put_preflight cn i objectKey uploadCredential now\<rparr> executor_now now"

section \<open>Finalizing and removing\<close>

definition present :: "string option \<Rightarrow> string option" where
  "present s = (case s of Some (c # cs) \<Rightarrow> Some (c # cs) | _ \<Rightarrow> None)"

text \<open>The ticket with the bytes a direct upload left in the object store, where it has none yet.\<close>

definition fetched :: "candidate_config \<Rightarrow> upload_ticket \<Rightarrow> life_error + upload_ticket" where
  "fetched cn t = (case (present (tk_data t), cn_direct cn) of
     (None, Some port) \<Rightarrow> (case dp_read port t of
          None \<Rightarrow> Inl Thrown
        | Some bytes \<Rightarrow> Inr (t\<lparr>tk_data := Some (b64_text bytes), tk_digest := Some (cn_sha cn bytes)\<rparr>))
   | _ \<Rightarrow> Inr t)"

text \<open>The bytes of a ticket, checked.\<close>

definition ticket_bytes :: "candidate_config \<Rightarrow> upload_ticket \<Rightarrow> life_error + string" where
  "ticket_bytes cn t = (case (present (tk_data t), present (tk_digest t)) of
     (Some data, Some digest) \<Rightarrow>
       (let bytes = b64_bytes data
        in if cn_sha cn bytes \<noteq> digest \<or> (case tk_expectedDigest t of None \<Rightarrow> False | Some g \<Rightarrow> cn_sha cn bytes \<noteq> g) \<or> int (length bytes) \<noteq> tk_size t
           then life_invalid
           else if \<not> validateCandidateContent (cn_inflate cn) (tk_type t) (tk_mime t) bytes then life_invalid
           else Inr bytes)
   | _ \<Rightarrow> life_conflict)"

definition ticket_input :: "candidate_config \<Rightarrow> string \<Rightarrow> upload_ticket \<Rightarrow> string \<Rightarrow> upload_input" where
  "ticket_input cn pid t bytes = [(''scope'', Plain (JObj [(''orgId'', JStr (cn_org cn)), (''personId'', JStr pid)])), (''type'', Plain (JStr (tk_type t))),
     (''mime'', Plain (JStr (tk_mime t))), (''bytes'', Buffer bytes)]"

text \<open>Identifiers are taken in the order the code asks for them; the new document's are \<open>j\<close> and
  \<open>v\<close>, a replacement's version is \<open>v\<close>, the audit entry's is \<open>a\<close>.\<close>

definition finalize_run :: "candidate_config \<Rightarrow> document_env \<Rightarrow> json option \<Rightarrow> string \<Rightarrow> string \<Rightarrow> string \<Rightarrow> string \<Rightarrow> int \<Rightarrow> document_state \<Rightarrow> string
    \<Rightarrow> life_error + (stored_response \<times> document_state)" where
  "finalize_run cn env credential i j v a now st pid =
     bind_result (ticket cn st pid i) (\<lambda>t.
     bind_result (live_ticket now t) (\<lambda>_.
       if tk_committed t = Some True then life_conflict
       else bind_result (fetched cn t) (\<lambda>t.
            bind_result (ticket_bytes cn t) (\<lambda>bytes.
            bind_result (current_document cn st pid (tk_type t)) (\<lambda>previous.
              if map_option dc_version previous \<noteq> tk_expected t then life_conflict
              else bind_result (bound (case previous of
                     Some d \<Rightarrow> replace_document (primitive cn) env env credential (Some (JStr (dc_id d))) (Some (ticket_input cn pid t bytes)) v (set_ticket i (\<lambda>_. t) st)
                   | None \<Rightarrow> upload (primitive cn) env env credential (Some (ticket_input cn pid t bytes)) j v (set_ticket i (\<lambda>_. t) st))) (\<lambda>(m, s).
                     (let s1 = (case previous of None \<Rightarrow> s | Some d \<Rightarrow> enqueue_cleanup now d s);
                          s2 = set_ticket i (\<lambda>_. t\<lparr>tk_committed := Some True, tk_data := None, tk_digest := None\<rparr>) s1
                      in Inr (\<lparr>sr_status = 200, sr_headers = None, sr_body = Some (JObj [(''metadata'', metadata_json m)])\<rparr>,
                           add_audit cn a Finalized pid now s2))))))))"

definition finalize :: "candidate_config \<Rightarrow> document_env \<Rightarrow> document_env \<Rightarrow> json option \<Rightarrow> string option \<Rightarrow> json option \<Rightarrow> string \<Rightarrow> string \<Rightarrow> string \<Rightarrow> int \<Rightarrow> int
    \<Rightarrow> document_state \<Rightarrow> (life_error + stored_response) \<times> document_state" where
  "finalize cn before during credential key input j v a executor_now now st = (case request_body input [''uploadId''] of
     Inl e \<Rightarrow> (Inl e, st)
   | Inr b \<Rightarrow> (case json_get b ''uploadId'' of
         Some (JStr i) \<Rightarrow> mutation cn before during credential key ''finalize'' b
           \<lparr>mb_run = finalize_run cn during credential i j v a now, mb_preflight = no_preflight\<rparr> executor_now now st
       | _ \<Rightarrow> (life_invalid, st)))"

definition remove_run :: "candidate_config \<Rightarrow> document_env \<Rightarrow> json option \<Rightarrow> string \<Rightarrow> string option \<Rightarrow> string \<Rightarrow> int \<Rightarrow> document_state \<Rightarrow> string
    \<Rightarrow> life_error + (stored_response \<times> document_state)" where
  "remove_run cn env credential type expected a now st pid =
     bind_result (current_document cn st pid type) (\<lambda>previous. case previous of
       None \<Rightarrow> life_conflict
     | Some d \<Rightarrow>
         (if Some (dc_version d) \<noteq> expected then life_conflict
          else bind_result (bound (remove_document (primitive cn) env env credential (Some (JStr (dc_id d))) st)) (\<lambda>(u, s).
            Inr (\<lparr>sr_status = 200, sr_headers = None, sr_body = Some (JObj [(''removed'', JBool True)])\<rparr>,
              add_audit cn a Removed_document pid now (enqueue_cleanup now d s)))))"

definition remove_candidate :: "candidate_config \<Rightarrow> document_env \<Rightarrow> document_env \<Rightarrow> json option \<Rightarrow> string option \<Rightarrow> json option \<Rightarrow> string \<Rightarrow> int \<Rightarrow> int
    \<Rightarrow> document_state \<Rightarrow> (life_error + stored_response) \<times> document_state" where
  "remove_candidate cn before during credential key input a executor_now now st =
     (case bind_result (request_body input [''type'', ''expectedVersion'']) (\<lambda>b.
           bind_result (document_kind (json_get b ''type'')) (\<lambda>type.
           bind_result (version_of (json_get b ''expectedVersion'')) (\<lambda>expected. Inr (b, type, expected)))) of
        Inl e \<Rightarrow> (Inl e, st)
      | Inr (b, type, expected) \<Rightarrow> mutation cn before during credential key ''remove'' b
          \<lparr>mb_run = remove_run cn during credential type expected a now, mb_preflight = no_preflight\<rparr> executor_now now st)"

section \<open>Reads\<close>

definition own_document :: "candidate_config \<Rightarrow> document_state \<Rightarrow> string \<Rightarrow> json option \<Rightarrow> life_error + unit" where
  "own_document cn st pid i = (case i of
     Some (JStr s) \<Rightarrow> (case find (\<lambda>d. dc_id d = s) (ds_documents st) of
          None \<Rightarrow> deny
        | Some d \<Rightarrow> if sc_person (dc_scope d) \<noteq> Some pid \<or> sc_org (dc_scope d) \<noteq> cn_org cn \<or> dc_type d \<notin> set CANDIDATE_DOCUMENT_TYPES then deny else Inr ())
   | _ \<Rightarrow> deny)"

text \<open>The transaction of a read: the principal is the one from before, and an audit entry is left.\<close>

definition audited_read :: "candidate_config \<Rightarrow> document_env \<Rightarrow> document_env \<Rightarrow> json option \<Rightarrow> audit_operation \<Rightarrow> string \<Rightarrow> int
    \<Rightarrow> (string \<Rightarrow> document_state \<Rightarrow> life_error + 'a) \<Rightarrow> document_state \<Rightarrow> (life_error + 'a) \<times> document_state" where
  "audited_read cn before during credential oper a now read st =
     (case bind_result (candidate_principal cn before credential) (\<lambda>pid.
           bind_result (candidate_principal cn during credential) (\<lambda>current.
             if current \<noteq> pid then deny
             else bind_result (read pid st) (\<lambda>x. bind_result (candidate_now now) (\<lambda>now. Inr (x, add_audit cn a oper pid now st))))) of
        Inl e \<Rightarrow> (Inl e, st)
      | Inr (x, s) \<Rightarrow> (Inr x, s))"

definition candidate_issue :: "candidate_config \<Rightarrow> document_env \<Rightarrow> document_env \<Rightarrow> json option \<Rightarrow> json option \<Rightarrow> string \<Rightarrow> int \<Rightarrow> document_state
    \<Rightarrow> (life_error + (string \<times> int)) \<times> document_state" where
  "candidate_issue cn before during credential i a now = audited_read cn before during credential Issued_delivery a now (\<lambda>pid st.
     bind_result (own_document cn st pid i) (\<lambda>_.
     map_sum id fst (bound (issue_delivery (primitive cn) during during credential i None now st))))"

text \<open>\<open>JSON.parse\<close> of a payload the primitive has just parsed.\<close>

definition candidate_deliver :: "candidate_config \<Rightarrow> document_env \<Rightarrow> document_env \<Rightarrow> json option \<Rightarrow> string \<Rightarrow> string \<Rightarrow> int \<Rightarrow> document_state
    \<Rightarrow> (life_error + delivery) \<times> document_state" where
  "candidate_deliver cn before during credential link a now = audited_read cn before during credential Delivered a now (\<lambda>pid st.
     bind_result (bound (deliver (primitive cn) during during credential (Some (JStr link)) now st)) (\<lambda>(d, _).
     bind_result (own_document cn st pid (case signed_payload (cn_config cn) link of None \<Rightarrow> None
        | Some payload \<Rightarrow> (case do_parse (cn_config cn) (b64_decode payload) of None \<Rightarrow> None | Some claim \<Rightarrow> json_get claim ''id''))) (\<lambda>_. Inr d)))"

fun list_types :: "candidate_config \<Rightarrow> document_env \<Rightarrow> json option \<Rightarrow> string \<Rightarrow> document_state \<Rightarrow> string list \<Rightarrow> life_error + metadata list" where
  "list_types cn env credential pid st [] = Inr []"
| "list_types cn env credential pid st (type # types) =
     bind_result (current_document cn st pid type) (\<lambda>d. case d of
       None \<Rightarrow> list_types cn env credential pid st types
     | Some d \<Rightarrow> bind_result (bound (document_metadata (primitive cn) env env credential (Some (JStr (dc_id d))) st)) (\<lambda>(m, _).
         map_sum id (Cons m) (list_types cn env credential pid st types)))"

definition candidate_list :: "candidate_config \<Rightarrow> document_env \<Rightarrow> document_env \<Rightarrow> json option \<Rightarrow> string \<Rightarrow> int \<Rightarrow> document_state
    \<Rightarrow> (life_error + metadata list) \<times> document_state" where
  "candidate_list cn before during credential a now = audited_read cn before during credential Listed a now (\<lambda>pid st.
     list_types cn during credential pid st CANDIDATE_DOCUMENT_TYPES)"

definition cleanup_counts :: "document_state \<Rightarrow> nat \<times> nat" where
  "cleanup_counts st = (length (filter (\<lambda>c. cl_status c = Held) (lf_cleanup (journal st)))
     + length (filter (\<lambda>t. tk_data t \<noteq> None) (lf_uploads (journal st))), 0)"

section \<open>What a mutation does\<close>

lemma journal_with [simp]: "journal (with_journal f st) = f (journal st)" "ds_documents (with_journal f st) = ds_documents st"
  "ds_retired (with_journal f st) = ds_retired st" "with_journal f (with_journal g st) = with_journal (f \<circ> g) st"
  by (simp_all add: journal_def with_journal_def)

lemma journal_frame [simp]: "journal (st\<lparr>ds_documents := docs\<rparr>) = journal st" "journal (st\<lparr>ds_retired := docs\<rparr>) = journal st"
  by (simp_all add: journal_def)

definition receipt_for :: "atomic_input \<Rightarrow> stored_response \<Rightarrow> receipt" where
  "receipt_for i response = \<lparr>rc_principal = ai_principal i, rc_key = ai_key i, rc_fingerprint = ai_fingerprint i,
     rc_expires = (case ai_expires i of None \<Rightarrow> 0 | Some e \<Rightarrow> e), rc_response = response\<rparr>"

definition add_receipt :: "receipt \<Rightarrow> document_state \<Rightarrow> document_state" where
  "add_receipt r = with_journal (\<lambda>l. l\<lparr>lf_receipts := lf_receipts l @ [r]\<rparr>)"

definition receipt_at :: "document_state \<Rightarrow> string \<Rightarrow> string \<Rightarrow> receipt option" where
  "receipt_at st key pid = find (\<lambda>r. rc_key r = key \<and> rc_principal r = pid) (lf_receipts (journal st))"

definition mutation_input :: "candidate_config \<Rightarrow> string \<Rightarrow> string \<Rightarrow> string \<Rightarrow> json \<Rightarrow> string \<Rightarrow> atomic_input" where
  "mutation_input cn pid k oper payload digits =
     input_of (fingerprint_hash cn) default_options (mutation_request_of cn pid (Some k) oper payload) k digits"

lemma candidate_atomic_cases:
  assumes "candidate_atomic cn env credential pid body now (st, None) i operation = ((st', e), out)"
  shows "(out = None \<and> st' = st)
    \<or> ((out = Some Expired_key \<or> out = Some Conflict) \<and> e = None \<and> st' = with_journal id st)
    \<or> (\<exists>old. out = Some (Replayed_response (rc_response old)) \<and> e = None \<and> st' = with_journal id st \<and> candidate_principal cn env credential = Inr pid
         \<and> mb_preflight body st' pid = Inr () \<and> receipt_at st (ai_key i) (ai_principal i) = Some old \<and> rc_fingerprint old = ai_fingerprint i)
    \<or> (\<exists>response s'. out = Some (Executed response) \<and> e = None \<and> candidate_principal cn env credential = Inr pid \<and> safe_count now
         \<and> \<not> date_reached now (ai_expires i) \<and> mb_preflight body (with_journal id st) pid = Inr () \<and> receipt_at st (ai_key i) (ai_principal i) = None
         \<and> mb_run body (with_journal id st) pid = Inr (response, s') \<and> st' = add_receipt (receipt_for i response) s')"
proof (cases "safe_count now")
  case False
  then show ?thesis using assms by (simp add: candidate_atomic_def candidate_now_def life_unavailable_def Let_def)
next
  case safe: True
  let ?s = "with_journal id st"
  show ?thesis
  proof (cases "date_reached now (ai_expires i) \<or> candidate_principal cn env credential \<noteq> Inr pid")
    case True
    then show ?thesis using assms safe by (auto simp: candidate_atomic_def candidate_now_def Let_def split: if_splits)
  next
    case False
    then have ok: "\<not> date_reached now (ai_expires i)" "candidate_principal cn env credential = Inr pid" by simp_all
    show ?thesis
    proof (cases "mb_preflight body ?s pid")
      case (Inl x)
      then show ?thesis using assms safe ok by (simp add: candidate_atomic_def candidate_now_def Let_def)
    next
      case pre: (Inr u)
      show ?thesis
      proof (cases "receipt_at st (ai_key i) (ai_principal i)")
        case (Some old)
        then show ?thesis using assms safe ok pre
          by (auto simp: candidate_atomic_def candidate_now_def Let_def receipt_at_def split: if_splits)
      next
        case None
        then show ?thesis using assms safe ok pre
          by (cases "mb_run body ?s pid")
            (auto simp: candidate_atomic_def candidate_now_def Let_def receipt_at_def add_receipt_def receipt_for_def)
      qed
    qed
  qed
qed

text \<open>A mutation leaves the state, or only opens the journal, or runs its body and keeps the answer.\<close>

lemma mutation_cases:
  assumes m: "mutation cn before during credential key oper payload body n0 now st = (res, st')"
  obtains (refused) e where "res = Inl e" "st' = st \<or> st' = with_journal id st"
  | (replayed) pid k digits old where "res = Inr (rc_response old)" "st' = with_journal id st" "candidate_principal cn before credential = Inr pid"
      "candidate_principal cn during credential = Inr pid" "key = Some k" "key_time k = Some digits" "mb_preflight body st' pid = Inr ()"
      "receipt_at st (map js_lower k) (cn_sha cn (utf8 pid)) = Some old"
      "rc_fingerprint old = ai_fingerprint (mutation_input cn pid k oper payload digits)"
  | (executed) pid k digits response s' where "res = Inr response" "candidate_principal cn before credential = Inr pid"
      "candidate_principal cn during credential = Inr pid" "safe_count now" "key = Some k" "key_time k = Some digits"
      "requestIsValid (mutation_request_of cn pid key oper payload)"
      "mb_preflight body (with_journal id st) pid = Inr ()" "receipt_at st (map js_lower k) (cn_sha cn (utf8 pid)) = None"
      "mb_run body (with_journal id st) pid = Inr (response, s')"
      "st' = add_receipt (receipt_for (mutation_input cn pid k oper payload digits) response) s'"
proof (cases "candidate_principal cn before credential")
  case (Inl e)
  then show thesis using m by (intro refused) (auto simp: mutation_def)
next
  case (Inr pid)
  let ?req = "mutation_request_of cn pid key oper payload"
  let ?exec = "candidate_atomic cn during credential pid body now"
  obtain st1 e result where run: "execute (fingerprint_hash cn) default_options ?exec (js_date n0) (st, None) ?req ([], None) = ((st1, e), result)"
    by (metis surj_pair)
  show thesis
  proof (cases "requestIsValid ?req \<and> key \<noteq> None \<and> key_time (the key) \<noteq> None \<and> \<not> safe_count n0")
    case True
    then have "res = Inl (Lifecycle 503 ''unavailable'') \<and> st' = st"
      using m Inr by (simp add: mutation_def life_unavailable_def split: if_splits)
    then show thesis by (intro refused) simp_all
  next
    case False
    have split: "(res, st') = (case ((st1, e), result) of
             ((st', Some (Lifecycle a b)), result) \<Rightarrow> (Inl (Lifecycle a b), st')
           | ((st', operationError), Done replayed response) \<Rightarrow> (Inr response, st')
           | ((st', operationError), Refusal status reason) \<Rightarrow>
               (Inl (Lifecycle status (if status = 503 then ''unavailable'' else reason_text reason)), st'))"
      using m Inr False unfolding mutation_def run [symmetric] by (simp only: sum.case if_False)
    from execute_cases [of "fingerprint_hash cn" default_options ?exec "js_date n0" "(st, None)" ?req "([], None)"] show thesis
    proof (elim disjE exE conjE)
      fix status reason
      assume "execute (fingerprint_hash cn) default_options ?exec (js_date n0) (st, None) ?req ([], None) = ((st, None), Refusal status reason)"
      then have "st1 = st" "e = None" "result = Refusal status reason" using run by simp_all
      then show thesis using split by (intro refused) simp_all
    next
      fix k digits se out
      assume valid: "requestIsValid ?req" and k: "mr_key ?req = Some k" "key_time k = Some digits"
        and ex: "?exec (st, None) (input_of (fingerprint_hash cn) default_options ?req k digits) ([], None) = (se, out)"
        and r: "execute (fingerprint_hash cn) default_options ?exec (js_date n0) (st, None) ?req ([], None) = (se,
            case out of Some (Executed response) \<Rightarrow> Done False response
            | Some (Replayed_response response) \<Rightarrow> Done True response
            | Some Conflict \<Rightarrow> Refusal 409 Key_payload_mismatch | Some Expired_key \<Rightarrow> Refusal 409 Key_expired
            | Some Failed \<Rightarrow> Refusal 503 Operation_failed | None \<Rightarrow> Refusal 503 Operation_failed)"
      have key: "key = Some k" using k by (simp add: mutation_request_of_def)
      have inp: "input_of (fingerprint_hash cn) default_options ?req k digits = mutation_input cn pid k oper payload digits"
        by (simp add: mutation_input_def key)
      have fields: "ai_key (mutation_input cn pid k oper payload digits) = map js_lower k"
        "ai_principal (mutation_input cn pid k oper payload digits) = cn_sha cn (utf8 pid)"
        by (simp_all add: mutation_input_def mutation_request_of_def)
      have se: "se = (st1, e)" using r run by simp
      from candidate_atomic_cases [OF ex [unfolded se inp]] show thesis
      proof (elim disjE exE conjE)
        assume "out = None" "st1 = st"
        then have "\<exists>e. res = Inl e" "st' = st" using split r run by (auto split: option.splits life_error.splits)
        then show thesis using refused by blast
      next
        assume "out = Some Expired_key" "e = None" "st1 = with_journal id st"
        then show thesis using split r run by (intro refused) auto
      next
        assume "out = Some Conflict" "e = None" "st1 = with_journal id st"
        then show thesis using split r run by (intro refused) auto
      next
        fix old
        assume "out = Some (Replayed_response (rc_response old))" "e = None" "st1 = with_journal id st"
          "candidate_principal cn during credential = Inr pid" "mb_preflight body st1 pid = Inr ()"
          "receipt_at st (ai_key (mutation_input cn pid k oper payload digits)) (ai_principal (mutation_input cn pid k oper payload digits)) = Some old"
          "rc_fingerprint old = ai_fingerprint (mutation_input cn pid k oper payload digits)"
        then show thesis using split r run fields by (intro replayed [OF _ _ Inr _ key k(2)]) auto
      next
        fix response s'
        assume "out = Some (Executed response)" "e = None" "candidate_principal cn during credential = Inr pid" "safe_count now"
          "mb_preflight body (with_journal id st) pid = Inr ()"
          "receipt_at st (ai_key (mutation_input cn pid k oper payload digits)) (ai_principal (mutation_input cn pid k oper payload digits)) = None"
          "mb_run body (with_journal id st) pid = Inr (response, s')"
          "st1 = add_receipt (receipt_for (mutation_input cn pid k oper payload digits) response) s'"
        then show thesis using split r run fields valid by (intro executed [OF _ Inr _ _ key k(2)]) auto
      qed
    qed
  qed
qed

end
