(* ===== verification/Document_History.thy ===== *)
theory Document_History
  imports Candidate_Documents
begin

declare map_of_eq_Some_iff [simp del] Some_eq_map_of_iff [simp del]

text \<open>
  Private documents, what holds over histories: every sequence of operations of \<open>Documents\<close> and
  \<open>Candidate_Documents\<close> on one store. Identifiers that an operation draws are new in the state;
  environments, credentials, inputs and clocks are arbitrary.
\<close>

section \<open>What the bodies do\<close>

lemma bind_InrE:
  assumes "bind_result r f = Inr y"
  obtains x where "r = Inr x" "f x = Inr y"
  using assms by (cases r) simp_all

lemma ensure_life: "(if b then deny else r) = Inr x \<longleftrightarrow> \<not> b \<and> r = Inr x" "(if b then life_invalid else r) = Inr x \<longleftrightarrow> \<not> b \<and> r = Inr x"
  "(if b then life_conflict else r) = Inr x \<longleftrightarrow> \<not> b \<and> r = Inr x"
  by (simp_all add: deny_def life_invalid_def life_conflict_def)

lemma current_document_Inr:
  "current_document cn st pid type = Inr d \<Longrightarrow> filter (owned_by cn pid type) (ds_documents st) = (case d of None \<Rightarrow> [] | Some x \<Rightarrow> [x])"
  by (auto simp: current_document_def life_unavailable_def split: list.splits)

lemma authorize_run_Inr:
  assumes "authorize_run cn i type mime n expected digests now st pid = Inr (response, st')"
  obtains t direct d where "t = new_ticket cn i pid type mime n expected digests now" "safe_count now"
    "st' = with_journal (\<lambda>l. l\<lparr>lf_uploads := lf_uploads l @ [t]\<rparr>) st" "response = authorize_response cn t direct"
    "current_document cn st pid type = Inr d" "map_option dc_version d = expected"
    "direct = None \<and> cn_direct cn = None \<or> (\<exists>port v. cn_direct cn = Some port \<and> direct = Some v \<and> dp_authorize port t = Some v)"
proof -
  obtain d' where d: "current_document cn st pid type = Inr d'" "map_option dc_version d' = expected"
    using assms by (cases "current_document cn st pid type") (simp_all add: authorize_run_def ensure_life)
  have now: "safe_count now"
    using assms d by (cases "safe_count now") (simp_all add: authorize_run_def candidate_now_def life_unavailable_def)
  show thesis
  proof (cases "cn_direct cn")
    case None
    then show thesis using assms d now by (intro that [OF refl now _ _ d]) (auto simp: authorize_run_def candidate_now_def Let_def)
  next
    case (Some port)
    then obtain v where v: "dp_authorize port (new_ticket cn i pid type mime n expected digests now) = Some v"
      using assms d now by (cases "dp_authorize port (new_ticket cn i pid type mime n expected digests now)") (simp_all add: authorize_run_def candidate_now_def Let_def)
    show thesis using assms d now Some v by (intro that [OF refl now _ _ d, of "Some v"]) (auto simp: authorize_run_def candidate_now_def Let_def)
  qed
qed

lemma ticket_Inr:
  assumes "ticket cn st pid i = Inr t"
  shows "find (\<lambda>t. tk_id t = i) (lf_uploads (journal st)) = Some t \<and> t \<in> set (lf_uploads (journal st)) \<and> tk_id t = i \<and> tk_principal t = pid \<and> tk_org t = cn_org cn"
proof (cases "find (\<lambda>t. tk_id t = i) (lf_uploads (journal st))")
  case (Some x)
  then have "x = t" "tk_principal t = pid" "tk_org t = cn_org cn"
    using assms by (simp_all add: ticket_def deny_def split: if_splits)
  with Some find_SomeD [OF Some] show ?thesis by simp
qed (use assms in \<open>simp add: ticket_def deny_def\<close>)

lemma live_ticket_Inr: "live_ticket now t = Inr u \<longleftrightarrow> safe_count now \<and> tk_issued t \<le> now \<and> now < tk_expires t"
  by (cases "safe_count now") (auto simp: live_ticket_def candidate_now_def life_unavailable_def deny_def)

lemma put_run_Inr:
  assumes "put_run cn i bytes now st pid = Inr (response, st')"
  obtains t where "ticket cn st pid i = Inr t" "tk_committed t \<noteq> Some True" "int (length bytes) = tk_size t"
    "response = \<lparr>sr_status = 204, sr_headers = None, sr_body = None\<rparr>"
    "st' = set_ticket i (\<lambda>t. t\<lparr>tk_data := Some (b64_text bytes), tk_digest := Some (cn_sha cn bytes)\<rparr>) st"
proof -
  from assms obtain t where t: "ticket cn st pid i = Inr t" by (auto simp: put_run_def elim: bind_InrE)
  from assms t obtain u where "live_ticket now t = Inr u" by (auto simp: put_run_def elim: bind_InrE)
  with assms t show thesis by (intro that [OF t]) (auto simp: put_run_def ensure_life Let_def)
qed

definition ticket_data :: "candidate_config \<Rightarrow> string \<Rightarrow> upload_ticket \<Rightarrow> string \<Rightarrow> document_data" where
  "ticket_data cn pid t bytes = \<lparr>dc_scope = \<lparr>sc_org = cn_org cn, sc_person = Some pid\<rparr>, dc_type = tk_type t, dc_mime = tk_mime t,
     dc_size = int (length bytes), dc_data = b64_text bytes\<rparr>"

lemma uploadOf_ticket: "uploadOf (Some (ticket_input cn pid t bytes)) = Inr data \<Longrightarrow> data = ticket_data cn pid t bytes"
  by (auto simp: uploadOf_def ticket_input_def ticket_data_def privateAcl_def scopeOf_def split: if_splits)

definition filled :: "upload_ticket \<Rightarrow> upload_ticket \<Rightarrow> bool" where
  "filled t t' \<longleftrightarrow> t' = t \<or> (\<exists>b digest. t' = t\<lparr>tk_data := Some (b64_text b), tk_digest := Some digest\<rparr>)"

lemma fetched_filled: "fetched cn t = Inr t' \<Longrightarrow> filled t t'"
  by (auto simp: fetched_def filled_def split: option.splits)

lemma ticket_bytes_Inr:
  "ticket_bytes cn t = Inr bytes \<Longrightarrow> \<exists>data digest. tk_data t = Some data \<and> tk_digest t = Some digest \<and> bytes = b64_bytes data
     \<and> int (length bytes) = tk_size t \<and> cn_sha cn bytes = digest \<and> (case tk_expectedDigest t of None \<Rightarrow> True | Some g \<Rightarrow> cn_sha cn bytes = g)
     \<and> validateCandidateContent (cn_inflate cn) (tk_type t) (tk_mime t) bytes"
  by (auto simp: ticket_bytes_def present_def ensure_life Let_def life_conflict_def split: option.splits list.splits)

definition committed_ticket :: "upload_ticket \<Rightarrow> upload_ticket" where
  "committed_ticket t = t\<lparr>tk_committed := Some True, tk_data := None, tk_digest := None\<rparr>"

lemma committed_filled: "filled t t' \<Longrightarrow> committed_ticket t' = committed_ticket t"
  by (auto simp: filled_def committed_ticket_def)

lemma finalize_run_Inr:
  assumes "finalize_run cn env credential i j v a now st pid = Inr (response, st')"
  obtains t t' bytes previous m s where "ticket cn st pid i = Inr t" "tk_committed t \<noteq> Some True" "safe_count now" "tk_issued t \<le> now" "now < tk_expires t"
    "fetched cn t = Inr t'" "filled t t'" "ticket_bytes cn t' = Inr bytes" "current_document cn st pid (tk_type t) = Inr previous" "map_option dc_version previous = tk_expected t"
    "(case previous of Some d \<Rightarrow> replace_document (primitive cn) env env credential (Some (JStr (dc_id d))) (Some (ticket_input cn pid t' bytes)) v (set_ticket i (\<lambda>_. t') st)
      | None \<Rightarrow> upload (primitive cn) env env credential (Some (ticket_input cn pid t' bytes)) j v (set_ticket i (\<lambda>_. t') st)) = Inr (m, s)"
    "response = \<lparr>sr_status = 200, sr_headers = None, sr_body = Some (JObj [(''metadata'', metadata_json m)])\<rparr>"
    "st' = add_audit cn a Finalized pid now (set_ticket i (\<lambda>_. committed_ticket t) (case previous of None \<Rightarrow> s | Some d \<Rightarrow> enqueue_cleanup now d s))"
proof -
  obtain t where t: "ticket cn st pid i = Inr t" using assms by (auto simp: finalize_run_def elim: bind_InrE)
  obtain u where live: "live_ticket now t = Inr u" using assms t by (auto simp: finalize_run_def elim: bind_InrE)
  have open': "tk_committed t \<noteq> Some True" using assms t live by (auto simp: finalize_run_def ensure_life)
  obtain t' where t': "fetched cn t = Inr t'"
    using assms t live open' by (cases "fetched cn t") (simp_all add: finalize_run_def)
  have types: "tk_type t' = tk_type t" "tk_expected t' = tk_expected t" using fetched_filled [OF t'] by (auto simp: filled_def)
  obtain bytes where bytes: "ticket_bytes cn t' = Inr bytes"
    using assms t live open' t' by (cases "ticket_bytes cn t'") (simp_all add: finalize_run_def)
  obtain previous where previous: "current_document cn st pid (tk_type t) = Inr previous"
    using assms t live open' t' bytes types by (cases "current_document cn st pid (tk_type t)") (simp_all add: finalize_run_def)
  have version: "map_option dc_version previous = tk_expected t"
    using assms t live open' t' bytes types previous by (auto simp: finalize_run_def ensure_life)
  let ?prim = "case previous of Some d \<Rightarrow> replace_document (primitive cn) env env credential (Some (JStr (dc_id d))) (Some (ticket_input cn pid t' bytes)) v (set_ticket i (\<lambda>_. t') st)
      | None \<Rightarrow> upload (primitive cn) env env credential (Some (ticket_input cn pid t' bytes)) j v (set_ticket i (\<lambda>_. t') st)"
  have rest: "bind_result (bound ?prim) (\<lambda>(m, s).
       Inr (\<lparr>sr_status = 200, sr_headers = None, sr_body = Some (JObj [(''metadata'', metadata_json m)])\<rparr>,
            add_audit cn a Finalized pid now (set_ticket i (\<lambda>_. committed_ticket t') (case previous of None \<Rightarrow> s | Some d \<Rightarrow> enqueue_cleanup now d s)))) = Inr (response, st')"
    using assms t live open' t' bytes types previous version by (simp add: finalize_run_def Let_def committed_ticket_def)
  then obtain m s where ms: "?prim = Inr (m, s)" by (cases ?prim) (auto simp: bound_def)
  show thesis
    by (rule that [OF t open' _ _ _ t' fetched_filled [OF t'] bytes previous version ms])
      (use live rest ms committed_filled [OF fetched_filled [OF t']] in \<open>auto simp: live_ticket_Inr bound_def\<close>)
qed

lemma remove_run_Inr:
  assumes "remove_run cn env credential type expected a now st pid = Inr (response, st')"
  obtains d s where "current_document cn st pid type = Inr (Some d)" "Some (dc_version d) = expected"
    "remove_document (primitive cn) env env credential (Some (JStr (dc_id d))) st = Inr ((), s)"
    "response = \<lparr>sr_status = 200, sr_headers = None, sr_body = Some (JObj [(''removed'', JBool True)])\<rparr>"
    "st' = add_audit cn a Removed_document pid now (enqueue_cleanup now d s)"
proof -
  obtain x where x: "current_document cn st pid type = Inr x" using assms by (cases "current_document cn st pid type") (simp_all add: remove_run_def)
  then obtain d where d: "current_document cn st pid type = Inr (Some d)" using assms by (cases x) (simp_all add: remove_run_def life_conflict_def)
  have v: "Some (dc_version d) = expected" using assms d by (auto simp: remove_run_def ensure_life)
  obtain s where s: "remove_document (primitive cn) env env credential (Some (JStr (dc_id d))) st = Inr ((), s)"
    using assms d v by (cases "remove_document (primitive cn) env env credential (Some (JStr (dc_id d))) st") (auto simp: remove_run_def bound_def)
  show thesis by (rule that [OF d v s]) (use assms d v s in \<open>auto simp: remove_run_def bound_def\<close>)
qed

section \<open>States of a history\<close>

definition versions :: "document_state \<Rightarrow> string list" where
  "versions st = map dc_version (ds_documents st @ ds_retired st)"

definition history_ok :: "(rat \<Rightarrow> string) \<Rightarrow> document_state \<Rightarrow> bool" where
  "history_ok nt st \<longleftrightarrow> state_ok nt st \<and> distinct (versions st)"

definition fresh :: "document_state \<Rightarrow> string \<Rightarrow> bool" where
  "fresh st i \<longleftrightarrow> uuid i \<and> i \<notin> dc_id ` set (ds_documents st @ ds_retired st) \<and> i \<notin> set (versions st)
     \<and> i \<notin> tk_id ` set (lf_uploads (journal st))"

lemma versions_with_journal [simp]: "versions (with_journal f st) = versions st"
  by (simp add: versions_def)

lemma journal_ok: "state_ok nt st \<Longrightarrow> lifecycle_ok nt (journal st)"
  by (auto simp: state_ok_def journal_def lifecycle_ok_def emptyLifecycleState_def split: option.splits)

lemma with_journal_ok: "state_ok nt st \<Longrightarrow> lifecycle_ok nt (f (journal st)) \<Longrightarrow> state_ok nt (with_journal f st)"
  by (auto simp: state_ok_def with_journal_def)

lemma with_journal_history: "history_ok nt st \<Longrightarrow> lifecycle_ok nt (f (journal st)) \<Longrightarrow> history_ok nt (with_journal f st)"
  by (simp add: history_ok_def with_journal_ok)

lemma keeps_with_journal [simp]: "keeps_documents (with_journal f st) st' = keeps_documents st st'" "keeps_documents st (with_journal f st') = keeps_documents st st'"
  by (simp_all add: keeps_documents_def)

lemma upload_history:
  assumes "upload_body cfg env input i v identity st = Inr (m, st')" "history_ok nt st" "fresh st i" "fresh st v"
  shows "history_ok nt st'"
proof -
  have "state_ok nt st'" by (rule upload_body_ok [OF assms(1)]) (use assms in \<open>auto simp: history_ok_def fresh_def\<close>)
  moreover from assms(1) have "distinct (versions st')"
    by (rule upload_body_Inr) (use assms(2-) in \<open>auto simp: history_ok_def versions_def fresh_def\<close>)
  ultimately show ?thesis by (simp add: history_ok_def)
qed

lemma versions_update_first:
  "find P xs = Some x \<Longrightarrow> mset (map g (update_first P (\<lambda>_. y) xs)) + {#g x#} = mset (map g xs) + {#g y#}"
  by (induction xs) auto

lemma versions_remove_first: "find P xs = Some x \<Longrightarrow> mset (map g (remove_first P xs)) + {#g x#} = mset (map g xs)"
  by (induction xs) auto

lemma replace_versions:
  assumes "replace_body cfg env i input v identity st = Inr (m, st')"
  shows "mset (versions st') = add_mset v (mset (versions st))"
  using assms
proof (rule replace_body_Inr)
  fix previous :: stored_document and data
  let ?P = "\<lambda>x. dc_id x = dc_id previous" and ?d = "identified data (dc_id previous) v"
  assume f: "find_document cfg env identity st i = Inr previous"
    and st': "st' = st\<lparr>ds_retired := ds_retired st @ [previous], ds_documents := update_first ?P (\<lambda>_. ?d) (ds_documents st)\<rparr>"
  from f have "find ?P (ds_documents st) = Some previous" by (auto elim: find_document_Inr)
  from versions_update_first [OF this, of dc_version ?d] show ?thesis
    by (simp add: st' versions_def)
qed

lemma remove_versions:
  assumes "remove_body cfg env i identity st = Inr (u, st')"
  shows "mset (versions st') = mset (versions st)"
  using assms
proof (rule remove_body_Inr)
  fix d :: stored_document
  let ?P = "\<lambda>x. dc_id x = dc_id d"
  assume f: "find_document cfg env identity st i = Inr d"
    and st': "st' = st\<lparr>ds_retired := ds_retired st @ [d], ds_documents := remove_first ?P (ds_documents st)\<rparr>"
  from f have "find ?P (ds_documents st) = Some d" by (auto elim: find_document_Inr)
  from versions_remove_first [OF this, of dc_version] show ?thesis
    by (simp add: st' versions_def)
qed

lemma replace_history:
  assumes r: "replace_body cfg env i input v identity st = Inr (m, st')" and ok: "history_ok nt st" and v: "fresh st v"
  shows "history_ok nt st'"
proof -
  have "state_ok nt st'" by (rule replace_body_ok [OF r]) (use ok v in \<open>auto simp: history_ok_def fresh_def\<close>)
  moreover have "distinct (v # versions st)" using ok v by (simp add: history_ok_def fresh_def)
  then have "distinct (versions st')" using replace_versions [OF r] by (metis mset.simps(2) mset_eq_imp_distinct_iff)
  ultimately show ?thesis by (simp add: history_ok_def)
qed

lemma remove_history: "remove_body cfg env i identity st = Inr (u, st') \<Longrightarrow> history_ok nt st \<Longrightarrow> history_ok nt st'"
  using remove_versions mset_eq_imp_distinct_iff remove_body_ok unfolding history_ok_def by metis

section \<open>The journal stays valid\<close>

lemma js_split_text: "js_split d s = x # xs \<Longrightarrow> s = x @ concat (map (\<lambda>y. d # y) xs)"
proof (induction s arbitrary: x xs)
  case (Cons c s)
  obtain p ps where p: "js_split d s = p # ps" by (metis js_split_nonempty neq_Nil_conv)
  note whole = Cons.IH [OF p]
  have "c = d \<Longrightarrow> x = [] \<and> xs = p # ps" "c \<noteq> d \<Longrightarrow> x = c # p \<and> xs = ps" using Cons.prems p by simp_all
  then show ?case by (subst whole) (cases "c = d"; simp)
qed simp

lemma lower_hex: "any_hex c \<Longrightarrow> hex_char (js_lower c)"
  unfolding any_hex_def hex_char_def by (elim disjE) (simp_all add: js_lower_digit, auto simp: js_lower_def digit_char_def hex_letters)

lemma lower_key_stored: "key_time k = Some digits \<Longrightarrow> stored_key (map js_lower k)"
proof -
  assume "key_time k = Some digits"
  then obtain v u where k: "js_split (CHR ''.'') k = [v, digits, u]" "v = ''v1'' \<or> v = ''V1''" "length digits = 13" "list_all digit_char digits" "uuid_v4 u"
    by (auto simp: key_time_def split: list.splits if_splits)
  obtain a b c d e where u: "js_split (CHR ''-'') u = [a, b, c, d, e]" "length a = 8" "length b = 4" "length c = 4" "length d = 4" "length e = 12"
      "list_all any_hex (a @ b @ c @ d @ e)"
    using k(5) by (auto simp: uuid_v4_def split: list.splits)
  have whole: "k = v @ ''.'' @ digits @ ''.'' @ a @ ''-'' @ b @ ''-'' @ c @ ''-'' @ d @ ''-'' @ e"
    using js_split_text [OF k(1)] js_split_text [OF u(1)] by simp
  have "map js_lower ''v1'' = ''v1''" "map js_lower ''V1'' = ''v1''" by code_simp+
  then have low: "map js_lower v = ''v1''" using k(2) by auto
  have signs: "js_lower (CHR ''.'') = CHR ''.''" "js_lower (CHR ''-'') = CHR ''-''" by (simp_all add: js_lower_dot js_lower_dash)
  have "map js_lower k = ''v1.'' @ digits @ ''.'' @ map js_lower (a @ ''-'' @ b @ ''-'' @ c @ ''-'' @ d @ ''-'' @ e)"
    unfolding whole by (simp add: low lowered_digits [OF k(4)] signs)
  moreover have "list_all (\<lambda>c. hex_char c \<or> c = CHR ''-'') (map js_lower (a @ ''-'' @ b @ ''-'' @ c @ ''-'' @ d @ ''-'' @ e))"
    using u(7) by (auto simp: list_all_iff signs lower_hex)
  ultimately show ?thesis
    using k(3,4) u(2-6) by (simp add: stored_key_def nth_append)
qed

definition candidate_ok :: "candidate_config \<Rightarrow> bool" where
  "candidate_ok cn \<longleftrightarrow> name_ok (cn_org cn) \<and> (\<forall>s. reference_ok (cn_sha cn s))
     \<and> (case cn_direct cn of None \<Rightarrow> True | Some port \<Rightarrow> (\<forall>t. case dp_authorize port t of None \<Rightarrow> True | Some v \<Rightarrow> valid_direct v))"

lemma reference_colon: "reference_ok p \<Longrightarrow> reference_ok q \<Longrightarrow> p @ '':'' @ k = q @ '':'' @ l \<longleftrightarrow> p = q \<and> k = l"
  by (simp add: reference_ok_def)

lemma add_receipt_history:
  assumes ok: "history_ok nt s" and cn: "candidate_ok cn" and key: "key_time k = Some digits" and resp: "valid_response nt (response_json response)"
    and none: "receipt_at s (map js_lower k) (cn_sha cn (utf8 pid)) = None"
  shows "history_ok nt (add_receipt (receipt_for (mutation_input cn pid k oper payload digits) response) s)"
proof -
  let ?r = "receipt_for (mutation_input cn pid k oper payload digits) response"
  have fields: "rc_principal ?r = cn_sha cn (utf8 pid)" "rc_key ?r = map js_lower k" "rc_response ?r = response"
    "rc_fingerprint ?r = mutationFingerprint (fingerprint_hash cn) (mutation_request_of cn pid (Some k) oper payload)"
    by (simp_all add: receipt_for_def mutation_input_def mutation_request_of_def)
  have sha: "reference_ok (cn_sha cn x)" for x using cn by (simp add: candidate_ok_def)
  have "reference_ok (rc_fingerprint ?r)" by (simp add: fields mutationFingerprint_def fingerprint_hash_def sha)
  moreover have "time_ok (rc_expires ?r)"
    using key by (auto simp: receipt_for_def mutation_input_def js_date_def time_ok_def safe_count_def MAX_SAFE_def default_options_def
        DEFAULT_IDEMPOTENCY_RETENTION_MS_def split: option.splits)
  ultimately have valid: "valid_receipt nt (receipt_json ?r)"
    using sha lower_key_stored [OF key] resp by (simp add: valid_receipt_def receipt_json_def fields)
  have "rc_principal ?r @ '':'' @ rc_key ?r \<notin> (\<lambda>r. rc_principal r @ '':'' @ rc_key r) ` set (lf_receipts (journal s))"
  proof
    assume "rc_principal ?r @ '':'' @ rc_key ?r \<in> (\<lambda>r. rc_principal r @ '':'' @ rc_key r) ` set (lf_receipts (journal s))"
    then obtain old where old: "old \<in> set (lf_receipts (journal s))" "rc_principal old @ '':'' @ rc_key old = rc_principal ?r @ '':'' @ rc_key ?r" by auto
    have "reference_ok (rc_principal old)"
      using journal_ok [of nt s] ok old(1) by (auto simp: history_ok_def lifecycle_ok_def list_all_iff valid_receipt_def Let_def)
    with old(2) sha have "rc_principal old = rc_principal ?r" "rc_key old = rc_key ?r"
      using reference_colon [of "rc_principal old" "cn_sha cn (utf8 pid)" "rc_key old" "map js_lower k"] by (simp_all add: fields)
    with none old(1) show False by (auto simp: receipt_at_def find_None_iff fields)
  qed
  then show ?thesis
    unfolding add_receipt_def using ok journal_ok [of nt s] valid
    by (intro with_journal_history) (simp_all add: history_ok_def lifecycle_ok_def)
qed

lemma set_ticket_history:
  assumes "history_ok nt s" "\<And>t. find (\<lambda>t. tk_id t = i) (lf_uploads (journal s)) = Some t \<Longrightarrow> ticket_ok t \<Longrightarrow> ticket_ok (f t) \<and> tk_id (f t) = tk_id t"
  shows "history_ok nt (set_ticket i f s)"
proof -
  let ?l = "journal s"
  have l: "lifecycle_ok nt ?l" using assms(1) by (simp add: history_ok_def journal_ok)
  have ok: "ticket_ok t" if "find (\<lambda>t. tk_id t = i) (lf_uploads ?l) = Some t" for t
    using l find_SomeD [OF that] by (simp add: lifecycle_ok_def list_all_iff)
  have "map tk_id (update_first (\<lambda>t. tk_id t = i) f (lf_uploads ?l)) = map tk_id (lf_uploads ?l)"
    by (rule map_update_first) (use assms(2) ok in blast)
  moreover have "list_all ticket_ok (update_first (\<lambda>t. tk_id t = i) f (lf_uploads ?l))"
    using set_update_first_sub [of "\<lambda>t. tk_id t = i" f "lf_uploads ?l"] l assms(2) ok
    by (auto simp: list_all_iff lifecycle_ok_def split: option.splits)
  ultimately show ?thesis
    unfolding set_ticket_def using assms(1) l by (intro with_journal_history) (simp_all add: lifecycle_ok_def)
qed

lemma enqueue_history:
  assumes "history_ok nt s" "uuid (dc_id d)" "uuid (dc_version d)" "safe_count now"
  shows "history_ok nt (enqueue_cleanup now d s)"
  unfolding enqueue_cleanup_def using assms journal_ok [of nt s]
  by (intro with_journal_history) (auto simp: history_ok_def lifecycle_ok_def cleanup_ok_def time_ok_def list_ex_iff Let_def)

lemma audit_history: "history_ok nt s \<Longrightarrow> candidate_ok cn \<Longrightarrow> uuid a \<Longrightarrow> safe_count now \<Longrightarrow> history_ok nt (add_audit cn a oper pid now s)"
  unfolding add_audit_def using journal_ok [of nt s]
  by (intro with_journal_history) (auto simp: history_ok_def lifecycle_ok_def audit_ok_def time_ok_def candidate_ok_def)

section \<open>Steps\<close>

lemma journal_only [simp]:
  "ds_documents (set_ticket i f st) = ds_documents st" "ds_retired (set_ticket i f st) = ds_retired st"
  "ds_documents (enqueue_cleanup now d st) = ds_documents st" "ds_retired (enqueue_cleanup now d st) = ds_retired st"
  "ds_documents (add_audit cn a oper pid now st) = ds_documents st" "ds_retired (add_audit cn a oper pid now st) = ds_retired st"
  "ds_documents (add_receipt r st) = ds_documents st" "ds_retired (add_receipt r st) = ds_retired st"
  by (simp_all add: set_ticket_def enqueue_cleanup_def add_audit_def add_receipt_def)

lemma keeps_journal_only [simp]:
  "keeps_documents a (set_ticket i f b) = keeps_documents a b" "keeps_documents (set_ticket i f a) b = keeps_documents a b"
  "keeps_documents a (enqueue_cleanup now d b) = keeps_documents a b" "keeps_documents a (add_audit cn x oper pid now b) = keeps_documents a b"
  "keeps_documents a (add_receipt r b) = keeps_documents a b"
  by (simp_all add: keeps_documents_def)

lemma uploads_frame [simp]:
  "lf_uploads (journal (enqueue_cleanup now d st)) = lf_uploads (journal st)" "lf_uploads (journal (add_audit cn a oper pid now st)) = lf_uploads (journal st)"
  "lf_uploads (journal (add_receipt r st)) = lf_uploads (journal st)"
  "lf_uploads (journal (set_ticket i f st)) = update_first (\<lambda>t. tk_id t = i) f (lf_uploads (journal st))"
  by (simp_all add: enqueue_cleanup_def add_audit_def add_receipt_def set_ticket_def Let_def)

lemma open_journal [simp]: "history_ok nt (with_journal id st) = history_ok nt st" if "state_ok nt st"
  using that with_journal_history [of nt st id] journal_ok [OF that] by (auto simp: history_ok_def)

lemma open_journal_history: "history_ok nt st \<Longrightarrow> history_ok nt (with_journal id st)"
  by (simp add: history_ok_def with_journal_ok journal_ok)

lemma fresh_open [simp]: "fresh (with_journal id st) i = fresh st i"
  by (simp add: fresh_def)

lemma fresh_set_ticket: "(\<And>t. tk_id t = i \<Longrightarrow> tk_id (f t) = i) \<Longrightarrow> fresh (set_ticket i f st) j = fresh st j"
proof -
  assume "\<And>t. tk_id t = i \<Longrightarrow> tk_id (f t) = i"
  then have "map tk_id (update_first (\<lambda>t. tk_id t = i) f us) = map tk_id us" for us by (intro map_update_first) (auto dest: find_SomeD)
  then have "tk_id ` set (update_first (\<lambda>t. tk_id t = i) f us) = tk_id ` set us" for us by (metis list.set_map)
  then show ?thesis by (simp add: fresh_def versions_def)
qed

definition named :: "candidate_config \<Rightarrow> document_env \<Rightarrow> json option \<Rightarrow> bool" where
  "named cn env credential \<longleftrightarrow> (case candidate_principal cn env credential of Inl _ \<Rightarrow> True | Inr pid \<Rightarrow> name_ok pid)"

inductive document_step :: "(rat \<Rightarrow> string) \<Rightarrow> document_state \<Rightarrow> document_state \<Rightarrow> bool" for nt where
  uploading: "do_number cfg = nt \<Longrightarrow> fresh st i \<Longrightarrow> fresh st v \<Longrightarrow> upload cfg before during credential input i v st = Inr (m, st') \<Longrightarrow> document_step nt st st'"
| copying: "do_number cfg = nt \<Longrightarrow> fresh st j \<Longrightarrow> fresh st v \<Longrightarrow> copy cfg before during credential i target options j v st = Inr (m, st') \<Longrightarrow>
    document_step nt st st'"
| replacing: "do_number cfg = nt \<Longrightarrow> fresh st v \<Longrightarrow> replace_document cfg before during credential i input v st = Inr (m, st') \<Longrightarrow> document_step nt st st'"
| removing: "do_number cfg = nt \<Longrightarrow> remove_document cfg before during credential i st = Inr (u, st') \<Longrightarrow> document_step nt st st'"

inductive candidate_step :: "candidate_config \<Rightarrow> document_state \<Rightarrow> document_state \<Rightarrow> bool" for cn where
  authorizing: "fresh st i \<Longrightarrow> named cn before credential \<Longrightarrow> now + 60000 \<le> MAX_SAFE \<Longrightarrow> authorizeUpload cn before during credential key input i n0 now st = (r, st') \<Longrightarrow>
    candidate_step cn st st'"
| putting: "put_bytes cn before during credential key i objectKey uploadCredential bytes n0 now st = (r, st') \<Longrightarrow> candidate_step cn st st'"
| finalizing: "fresh st j \<Longrightarrow> fresh st v \<Longrightarrow> uuid a \<Longrightarrow> finalize cn before during credential key input j v a n0 now st = (r, st') \<Longrightarrow>
    candidate_step cn st st'"
| removing_own: "uuid a \<Longrightarrow> remove_candidate cn before during credential key input a n0 now st = (r, st') \<Longrightarrow> candidate_step cn st st'"
| issuing: "uuid a \<Longrightarrow> candidate_issue cn before during credential i a now st = (u, st') \<Longrightarrow> candidate_step cn st st'"
| delivering: "uuid a \<Longrightarrow> candidate_deliver cn before during credential link a now st = (d, st') \<Longrightarrow> candidate_step cn st st'"
| listing: "uuid a \<Longrightarrow> candidate_list cn before during credential a now st = (ms, st') \<Longrightarrow> candidate_step cn st st'"

definition history_step :: "candidate_config \<Rightarrow> document_state \<Rightarrow> document_state \<Rightarrow> bool" where
  "history_step cn st st' \<longleftrightarrow> document_step (do_number (cn_config cn)) st st' \<or> candidate_step cn st st'"

definition history_reaches :: "candidate_config \<Rightarrow> document_state \<Rightarrow> document_state \<Rightarrow> bool" where
  "history_reaches cn = (history_step cn)\<^sup>*\<^sup>*"

lemma copy_history:
  assumes c: "copy cfg before during credential i target options j v st = Inr (m, st')" and ok: "history_ok nt st" "fresh st j" "fresh st v"
  shows "history_ok nt st' \<and> keeps_documents st st' \<and> ds_lifecycle st' = ds_lifecycle st"
  using c unfolding copy_def
proof (rule document_run_Inr)
  fix c identity
  assume "(if \<not> copy_options_ok options then Inl Invalid_code
     else bind_result (find_document cfg during identity st i) (\<lambda>source.
          bind_result (scopeOf target) (\<lambda>scope.
            if orgType (dc_type source) \<noteq> (sc_person scope = None) then Inl Invalid_code
            else bind_result (authorize_scope cfg during identity scope) (\<lambda>_.
              (let d = source\<lparr>dc_scope := scope, dc_id := j, dc_version := v\<rparr>
               in Inr (metadata_of d, st\<lparr>ds_documents := ds_documents st @ [d]\<rparr>)))))) = Inr (m, st')"
  then obtain source scope where s: "find_document cfg during identity st i = Inr source" "scopeOf target = Inr scope"
      "orgType (dc_type source) = (sc_person scope = None)"
      and st': "st' = st\<lparr>ds_documents := ds_documents st @ [source\<lparr>dc_scope := scope, dc_id := j, dc_version := v\<rparr>]\<rparr>"
    by (cases "find_document cfg during identity st i"; cases "scopeOf target") (auto simp: Let_def split: if_splits)
  have "document_ok source" using s(1) ok(1) by (auto simp: history_ok_def state_ok_def list_all_iff elim: find_document_Inr)
  then have "document_ok (source\<lparr>dc_scope := scope, dc_id := j, dc_version := v\<rparr>)"
    using s(3) scopeOf_ok [OF s(2)] ok(2,3) by (simp add: document_ok_def data_ok_def document_data.truncate_def fresh_def)
  then show ?thesis using ok by (auto simp: st' history_ok_def state_ok_def versions_def fresh_def keeps_documents_def)
qed

theorem document_step_history:
  "document_step nt st st' \<Longrightarrow> history_ok nt st \<Longrightarrow> history_ok nt st' \<and> keeps_documents st st' \<and> ds_lifecycle st' = ds_lifecycle st"
proof (induction rule: document_step.induct)
  case (uploading cfg st i v before during credential input m st')
  from uploading(4) obtain identity where b: "upload_body cfg during input i v identity st = Inr (m, st')"
    unfolding upload_def by (rule document_run_Inr)
  moreover from b have "ds_lifecycle st' = ds_lifecycle st" by (rule upload_body_Inr) simp
  ultimately show ?case using upload_history upload_body_keeps uploading by blast
next
  case (copying cfg st j v before during credential i target options m st')
  then show ?case using copy_history by blast
next
  case (replacing cfg st v before during credential i input m st')
  from replacing(3) obtain identity where b: "replace_body cfg during i input v identity st = Inr (m, st')"
    unfolding replace_document_def by (rule document_run_Inr)
  moreover from b have "ds_lifecycle st' = ds_lifecycle st" by (rule replace_body_Inr) simp
  ultimately show ?case using replace_history replace_body_keeps replacing by blast
next
  case (removing cfg before during credential i st u st')
  from removing(2) obtain identity where b: "remove_body cfg during i identity st = Inr (u, st')"
    unfolding remove_document_def by (rule document_run_Inr)
  moreover from b have "ds_lifecycle st' = ds_lifecycle st" by (rule remove_body_Inr) simp
  ultimately show ?case using remove_history remove_body_keeps removing by blast
qed

lemma receipts_frame [simp]:
  "lf_receipts (journal (enqueue_cleanup now d st)) = lf_receipts (journal st)" "lf_receipts (journal (add_audit cn a oper pid now st)) = lf_receipts (journal st)"
  "lf_receipts (journal (set_ticket i f st)) = lf_receipts (journal st)" "lf_receipts (journal (add_receipt r st)) = lf_receipts (journal st) @ [r]"
  by (simp_all add: enqueue_cleanup_def add_audit_def add_receipt_def set_ticket_def Let_def)

definition run_keeps :: "(rat \<Rightarrow> string) \<Rightarrow> document_state \<Rightarrow> life_error + (stored_response \<times> document_state) \<Rightarrow> bool" where
  "run_keeps nt st r \<longleftrightarrow> (case r of Inl e \<Rightarrow> True | Inr (response, s) \<Rightarrow>
     history_ok nt s \<and> keeps_documents st s \<and> valid_response nt (response_json response) \<and> lf_receipts (journal s) = lf_receipts (journal st))"

lemma mutation_history:
  assumes m: "mutation cn before during credential key oper payload body n0 now st = (r, st')" and ok: "history_ok nt st" and cn: "candidate_ok cn"
    and run: "\<And>pid. candidate_principal cn before credential = Inr pid \<Longrightarrow> safe_count now \<Longrightarrow> run_keeps nt (with_journal id st) (mb_run body (with_journal id st) pid)"
  shows "history_ok nt st' \<and> keeps_documents st st'"
  using m
proof (cases rule: mutation_cases)
  case (refused e)
  then show ?thesis using ok open_journal_history by auto
next
  case (replayed pid k digits old)
  then show ?thesis using ok open_journal_history by auto
next
  case (executed pid k digits response s')
  from run [OF executed(2,4)] executed(10) have s': "history_ok nt s'" "keeps_documents st s'" "valid_response nt (response_json response)"
    "lf_receipts (journal s') = lf_receipts (journal st)" by (simp_all add: run_keeps_def)
  have "receipt_at s' (map js_lower k) (cn_sha cn (utf8 pid)) = None" using executed(9) s'(4) by (simp add: receipt_at_def)
  from add_receipt_history [OF s'(1) cn executed(6) s'(3) this] s'(2) executed(11) show ?thesis by simp
qed

lemma response_members [simp]: "exact (response_json r) [''status'', ''body''] = (sr_headers r = None)"
  "json_get (response_json r) ''status'' = Some (js_int (sr_status r))" "json_get (response_json r) ''body'' = sr_body r"
  by (simp_all add: response_json_def image_Un option.map_id del: map_of_append)

lemma authorize_keeps:
  assumes ok: "history_ok nt st" and cn: "candidate_ok cn" and i: "fresh st i" and pid: "name_ok pid"
    and type: "type \<in> set CANDIDATE_DOCUMENT_TYPES" "mime \<in> set (ad_mimes (CANDIDATE_DOCUMENT_ADMISSION type))" "0 < n" "n \<le> 10 * 1024 * 1024"
    and digests: "case digests of None \<Rightarrow> True | Some (s, d) \<Rightarrow> reference_ok s \<and> md5_text d" and now: "now + 60000 \<le> MAX_SAFE"
  shows "run_keeps nt st (authorize_run cn i type mime n expected digests now st pid)"
proof (cases "authorize_run cn i type mime n expected digests now st pid")
  case (Inr r)
  obtain response s where r: "r = (response, s)" by force
  from Inr [unfolded r] obtain t direct d where t: "t = new_ticket cn i pid type mime n expected digests now" "safe_count now"
    "s = with_journal (\<lambda>l. l\<lparr>lf_uploads := lf_uploads l @ [t]\<rparr>) st" "response = authorize_response cn t direct"
    "current_document cn st pid type = Inr d" "map_option dc_version d = expected"
    "direct = None \<and> cn_direct cn = None \<or> (\<exists>port v. cn_direct cn = Some port \<and> direct = Some v \<and> dp_authorize port t = Some v)"
    by (rule authorize_run_Inr)
  have "case expected of None \<Rightarrow> True | Some v \<Rightarrow> uuid v"
  proof (cases d)
    case (Some x)
    then have "x \<in> set (filter (owned_by cn pid type) (ds_documents st))" using current_document_Inr [OF t(5)] by simp
    then have "x \<in> set (ds_documents st)" by simp
    then have "uuid (dc_version x)" using ok by (auto simp: history_ok_def state_ok_def list_all_iff document_ok_def)
    then show ?thesis using t(6) Some by auto
  qed (use t(6) in auto)
  then have "ticket_ok t"
    using i pid type digests now t(2) cn
    by (auto simp: t(1) ticket_ok_def new_ticket_def fresh_def time_ok_def safe_count_def candidate_ok_def CANDIDATE_DOCUMENT_ADMISSION_def IMAGE_TYPES_def
        split: option.splits if_splits)
  moreover have "tk_id t \<notin> tk_id ` set (lf_uploads (journal st))" using i by (simp add: t(1) new_ticket_def fresh_def)
  ultimately have "history_ok nt s"
    unfolding t(3) using ok journal_ok [of nt st] by (intro with_journal_history) (auto simp: history_ok_def lifecycle_ok_def)
  moreover have "case direct of None \<Rightarrow> True | Some v \<Rightarrow> valid_direct v"
    using t(7) cn by (auto simp: candidate_ok_def dest: spec [of _ t] split: option.splits)
  then have "valid_response nt (response_json response)"
    unfolding valid_response_def by (cases direct) (simp_all add: t(4) authorize_response_def safe_integer_js_int MAX_SAFE_def)
  ultimately show ?thesis by (simp add: run_keeps_def Inr r t(3))
qed (simp add: run_keeps_def)

lemma put_keeps:
  assumes ok: "history_ok nt st" and cn: "candidate_ok cn"
  shows "run_keeps nt st (put_run cn i bytes now st pid)"
proof (cases "put_run cn i bytes now st pid")
  case (Inr r)
  obtain response s where r: "r = (response, s)" by force
  from Inr [unfolded r] obtain t where t: "ticket cn st pid i = Inr t" "int (length bytes) = tk_size t"
    "response = \<lparr>sr_status = 204, sr_headers = None, sr_body = None\<rparr>"
    "s = set_ticket i (\<lambda>t. t\<lparr>tk_data := Some (b64_text bytes), tk_digest := Some (cn_sha cn bytes)\<rparr>) st"
    by (rule put_run_Inr)
  have "history_ok nt s" unfolding t(4)
    by (rule set_ticket_history [OF ok]) (use cn t(2) ticket_Inr [OF t(1)] in \<open>simp add: ticket_ok_def candidate_ok_def\<close>)
  then show ?thesis by (simp add: run_keeps_def Inr r t(3,4) valid_response_def safe_integer_js_int MAX_SAFE_def)
qed (simp add: run_keeps_def)

lemma current_document_at:
  "current_document cn st pid type = Inr (Some d) \<Longrightarrow> d \<in> set (ds_documents st) \<and> owned_by cn pid type d"
proof -
  assume "current_document cn st pid type = Inr (Some d)"
  then have "d \<in> set (filter (owned_by cn pid type) (ds_documents st))" by (simp add: current_document_Inr)
  then show ?thesis by simp
qed

lemma primitive_number [simp]: "do_number (primitive cn) = do_number (cn_config cn)"
  by (simp add: primitive_def)

text \<open>What a finalization stores: the ticket's bytes, as a new document or in place of the previous
  one, which is retired.\<close>

lemma finalize_stores:
  assumes "(case previous of Some d \<Rightarrow> replace_document cfg env env credential (Some (JStr (dc_id d))) (Some (ticket_input cn pid t bytes)) v s
      | None \<Rightarrow> upload cfg env env credential (Some (ticket_input cn pid t bytes)) j v s) = Inr (m, s')"
  obtains identity i where "i = (case previous of None \<Rightarrow> j | Some d \<Rightarrow> dc_id d)" "uploadOf (Some (ticket_input cn pid t bytes)) = Inr (ticket_data cn pid t bytes)"
    "m = metadata_of (identified (ticket_data cn pid t bytes) i v)"
    "case previous of None \<Rightarrow> upload_body cfg env (Some (ticket_input cn pid t bytes)) j v identity s = Inr (m, s')
        \<and> s' = s\<lparr>ds_documents := ds_documents s @ [identified (ticket_data cn pid t bytes) j v]\<rparr>
     | Some d \<Rightarrow> replace_body cfg env (Some (JStr (dc_id d))) (Some (ticket_input cn pid t bytes)) v identity s = Inr (m, s')
        \<and> (\<exists>x. find_document cfg env identity s (Some (JStr (dc_id d))) = Inr x \<and> dc_id x = dc_id d
           \<and> s' = s\<lparr>ds_retired := ds_retired s @ [x],
               ds_documents := update_first (\<lambda>y. dc_id y = dc_id d) (\<lambda>_. identified (ticket_data cn pid t bytes) (dc_id d) v) (ds_documents s)\<rparr>)"
proof (cases previous)
  case None
  with assms obtain identity where b: "upload_body cfg env (Some (ticket_input cn pid t bytes)) j v identity s = Inr (m, s')"
    by (auto simp: upload_def elim: document_run_Inr)
  from b obtain data where data: "uploadOf (Some (ticket_input cn pid t bytes)) = Inr data" "m = metadata_of (identified data j v)"
      "s' = s\<lparr>ds_documents := ds_documents s @ [identified data j v]\<rparr>" by (rule upload_body_Inr)
  from uploadOf_ticket [OF data(1)] data b None show thesis by (intro that [of j identity]) auto
next
  case (Some d)
  with assms obtain identity where b: "replace_body cfg env (Some (JStr (dc_id d))) (Some (ticket_input cn pid t bytes)) v identity s = Inr (m, s')"
    by (auto simp: replace_document_def elim: document_run_Inr)
  from b obtain x data where x: "find_document cfg env identity s (Some (JStr (dc_id d))) = Inr x"
      and data: "uploadOf (Some (ticket_input cn pid t bytes)) = Inr data" "m = metadata_of (identified data (dc_id x) v)"
      "s' = s\<lparr>ds_retired := ds_retired s @ [x], ds_documents := update_first (\<lambda>y. dc_id y = dc_id x) (\<lambda>_. identified data (dc_id x) v) (ds_documents s)\<rparr>"
    by (rule replace_body_Inr)
  have "dc_id x = dc_id d" using x by (auto elim: find_document_Inr)
  with uploadOf_ticket [OF data(1)] data b x Some show thesis by (intro that [of "dc_id d" identity]) auto
qed

lemma filled_same: "filled t t' \<Longrightarrow> tk_id t' = tk_id t \<and> tk_type t' = tk_type t \<and> tk_mime t' = tk_mime t \<and> tk_size t' = tk_size t \<and> tk_expected t' = tk_expected t"
  by (auto simp: filled_def)

lemma filled_ok: "filled t t' \<Longrightarrow> ticket_ok t \<Longrightarrow> ticket_bytes cn t' = Inr bytes \<Longrightarrow> candidate_ok cn \<Longrightarrow> ticket_ok t'"
  using ticket_bytes_Inr [of cn t' bytes] by (auto simp: filled_def ticket_ok_def candidate_ok_def)

lemma committed_ok: "ticket_ok t \<Longrightarrow> ticket_ok (committed_ticket t)"
  by (simp add: ticket_ok_def committed_ticket_def)

lemma find_update_first:
  "find P xs = Some x \<Longrightarrow> (\<And>y. P y \<Longrightarrow> P (f y)) \<Longrightarrow> find P (update_first P f xs) = Some (f x)"
  by (induction xs) auto

lemma finalize_keeps:
  assumes ok: "history_ok nt st" and cn: "candidate_ok cn" and j: "fresh st j" and v: "fresh st v" and a: "uuid a"
  shows "run_keeps nt st (finalize_run cn env credential i j v a now st pid)"
proof (cases "finalize_run cn env credential i j v a now st pid")
  case (Inr r)
  obtain response s' where r: "r = (response, s')" by force
  from Inr [unfolded r] obtain t t' bytes previous m s where t: "ticket cn st pid i = Inr t" "safe_count now"
      and t': "filled t t'" "ticket_bytes cn t' = Inr bytes" and previous: "current_document cn st pid (tk_type t) = Inr previous"
      and prim: "(case previous of Some d \<Rightarrow> replace_document (primitive cn) env env credential (Some (JStr (dc_id d))) (Some (ticket_input cn pid t' bytes)) v (set_ticket i (\<lambda>_. t') st)
        | None \<Rightarrow> upload (primitive cn) env env credential (Some (ticket_input cn pid t' bytes)) j v (set_ticket i (\<lambda>_. t') st)) = Inr (m, s)"
      and resp: "response = \<lparr>sr_status = 200, sr_headers = None, sr_body = Some (JObj [(''metadata'', metadata_json m)])\<rparr>"
      and s': "s' = add_audit cn a Finalized pid now (set_ticket i (\<lambda>_. committed_ticket t) (case previous of None \<Rightarrow> s | Some d \<Rightarrow> enqueue_cleanup now d s))"
    by (rule finalize_run_Inr) blast
  let ?s0 = "set_ticket i (\<lambda>_. t') st"
  note at = ticket_Inr [OF t(1)]
  have tok: "ticket_ok t" using ok at journal_ok [of nt st] by (auto simp: history_ok_def lifecycle_ok_def list_all_iff)
  have id: "tk_id t' = i" using filled_same [OF t'(1)] at by simp
  have h0: "history_ok nt ?s0" by (rule set_ticket_history [OF ok]) (use at id filled_ok [OF t'(1) tok t'(2) cn] in auto)
  have f0: "fresh ?s0 j" "fresh ?s0 v" using j v id by (simp_all add: fresh_set_ticket)
  from prim obtain identity k where k: "k = (case previous of None \<Rightarrow> j | Some d \<Rightarrow> dc_id d)" "m = metadata_of (identified (ticket_data cn pid t' bytes) k v)"
    and body: "case previous of None \<Rightarrow> upload_body (primitive cn) env (Some (ticket_input cn pid t' bytes)) j v identity ?s0 = Inr (m, s)
        \<and> s = ?s0\<lparr>ds_documents := ds_documents ?s0 @ [identified (ticket_data cn pid t' bytes) j v]\<rparr>
     | Some d \<Rightarrow> replace_body (primitive cn) env (Some (JStr (dc_id d))) (Some (ticket_input cn pid t' bytes)) v identity ?s0 = Inr (m, s)
        \<and> (\<exists>x. find_document (primitive cn) env identity ?s0 (Some (JStr (dc_id d))) = Inr x \<and> dc_id x = dc_id d
           \<and> s = ?s0\<lparr>ds_retired := ds_retired ?s0 @ [x],
               ds_documents := update_first (\<lambda>y. dc_id y = dc_id d) (\<lambda>_. identified (ticket_data cn pid t' bytes) (dc_id d) v) (ds_documents ?s0)\<rparr>)"
    by (rule finalize_stores)
  have hs: "history_ok nt s \<and> keeps_documents st s \<and> journal s = journal ?s0"
  proof (cases previous)
    case None
    with body upload_history [OF _ h0 f0] upload_body_keeps show ?thesis by fastforce
  next
    case (Some d)
    with body replace_history [OF _ h0 f0(2)] replace_body_keeps show ?thesis by fastforce
  qed
  have du: "uuid (dc_id d)" "uuid (dc_version d)" if "previous = Some d" for d
    using current_document_at previous that ok by (auto simp: history_ok_def state_ok_def list_all_iff document_ok_def)
  let ?s1 = "case previous of None \<Rightarrow> s | Some d \<Rightarrow> enqueue_cleanup now d s"
  have h1: "history_ok nt ?s1" using hs du t(2) enqueue_history by (cases previous) auto
  have ups: "lf_uploads (journal ?s1) = update_first (\<lambda>t. tk_id t = i) (\<lambda>_. t') (lf_uploads (journal st))" using hs by (cases previous) simp_all
  have "history_ok nt (set_ticket i (\<lambda>_. committed_ticket t) ?s1)"
    by (rule set_ticket_history [OF h1])
      (use at id ups committed_ok [OF tok] find_update_first [of "\<lambda>t. tk_id t = i" "lf_uploads (journal st)" t "\<lambda>_. t'"] in \<open>auto simp: committed_ticket_def\<close>)
  then have "history_ok nt s'" unfolding s' by (rule audit_history [OF _ cn a t(2)])
  moreover have "keeps_documents st s'" using hs unfolding s' by (cases previous) simp_all
  moreover have "lf_receipts (journal s') = lf_receipts (journal st)" using hs unfolding s' by (cases previous) simp_all
  moreover have "uuid k" using k(1) du j by (cases previous) (simp_all add: fresh_def)
  then have "valid_metadata nt (metadata_json m)"
    using tok filled_same [OF t'(1)] v ticket_bytes_Inr [OF t'(2)]
    by (auto simp: valid_metadata_def metadata_json_def k(2) metadata_of_def ticket_data_def ticket_ok_def fresh_def Let_def IMAGE_TYPES_def safe_integer_js_int
        MAX_SAFE_def split: if_splits)
  then have "valid_response nt (response_json response)" unfolding valid_response_def by (simp add: resp safe_integer_js_int MAX_SAFE_def)
  ultimately show ?thesis by (simp add: run_keeps_def Inr r)
qed (simp add: run_keeps_def)

lemma remove_keeps:
  assumes ok: "history_ok nt st" and cn: "candidate_ok cn" and a: "uuid a" and now: "safe_count now"
  shows "run_keeps nt st (remove_run cn env credential type expected a now st pid)"
proof (cases "remove_run cn env credential type expected a now st pid")
  case (Inr r)
  obtain response s' where r: "r = (response, s')" by force
  from Inr [unfolded r] obtain d s where d: "current_document cn st pid type = Inr (Some d)"
    and prim: "remove_document (primitive cn) env env credential (Some (JStr (dc_id d))) st = Inr ((), s)"
    and resp: "response = \<lparr>sr_status = 200, sr_headers = None, sr_body = Some (JObj [(''removed'', JBool True)])\<rparr>"
    and s': "s' = add_audit cn a Removed_document pid now (enqueue_cleanup now d s)"
    by (rule remove_run_Inr)
  from prim obtain identity where b: "remove_body (primitive cn) env (Some (JStr (dc_id d))) identity st = Inr ((), s)"
    unfolding remove_document_def by (rule document_run_Inr)
  from b have frame: "journal s = journal st" by (rule remove_body_Inr) simp
  have "uuid (dc_id d)" "uuid (dc_version d)"
    using current_document_at [OF d] ok by (auto simp: history_ok_def state_ok_def list_all_iff document_ok_def)
  then have "history_ok nt s'" unfolding s' using remove_history [OF b ok] cn a now by (intro audit_history enqueue_history)
  moreover have "keeps_documents st s'" using remove_body_keeps [OF b] by (simp add: s')
  ultimately show ?thesis
    by (simp add: run_keeps_def Inr r s' frame resp valid_response_def safe_integer_js_int MAX_SAFE_def)
qed (simp add: run_keeps_def)

lemma upload_request_Inr:
  assumes "upload_request cn input = Inr (b, type, mime, n, expected, digests)"
  shows "type \<in> set CANDIDATE_DOCUMENT_TYPES \<and> mime \<in> set (ad_mimes (CANDIDATE_DOCUMENT_ADMISSION type)) \<and> 0 < n \<and> n \<le> 10 * 1024 * 1024
    \<and> (case digests of None \<Rightarrow> True | Some (s, d) \<Rightarrow> reference_ok s \<and> md5_text d)"
proof -
  obtain b' where b: "request_body input [''type'', ''mime'', ''size'', ''expectedVersion'', ''sha256'', ''contentMd5''] = Inr b'"
    using assms by (auto simp: upload_request_def elim: bind_InrE)
  obtain ty where ty: "document_kind (json_get b' ''type'') = Inr ty" using assms b by (auto simp: upload_request_def elim: bind_InrE)
  obtain ex where ex: "version_of (json_get b' ''expectedVersion'') = Inr ex" using assms b ty by (auto simp: upload_request_def elim: bind_InrE)
  have "ty \<in> set CANDIDATE_DOCUMENT_TYPES"
    using ty by (auto simp: document_kind_def life_invalid_def split: option.splits json.splits if_splits)
  moreover have texts: "is_text v P \<Longrightarrow> P (text_of v)" for v P by (auto simp: is_text_def text_of_def split: option.splits json.splits)
  ultimately show ?thesis using assms b ty ex
    by (auto simp: upload_request_def ensure_life Let_def CANDIDATE_DOCUMENT_ADMISSION_def dest!: texts dest: positiveInteger_int_of split: if_splits)
qed

lemma audited_read_cases:
  assumes "audited_read cn before during credential oper a now read st = (r, st')"
  shows "(\<exists>e. r = Inl e) \<and> st' = st \<or> (\<exists>pid x. r = Inr x \<and> candidate_principal cn before credential = Inr pid \<and> candidate_principal cn during credential = Inr pid
    \<and> read pid st = Inr x \<and> safe_count now \<and> st' = add_audit cn a oper pid now st)"
proof (cases "candidate_principal cn before credential")
  case (Inl e)
  then show ?thesis using assms by (auto simp: audited_read_def)
next
  case b: (Inr pid)
  show ?thesis
  proof (cases "candidate_principal cn during credential = Inr pid \<and> \<not> isl (read pid st) \<and> safe_count now")
    case True
    then obtain x where x: "read pid st = Inr x" by (cases "read pid st") auto
    with True assms b have "r = Inr x" "st' = add_audit cn a oper pid now st" by (auto simp: audited_read_def candidate_now_def)
    with True b x show ?thesis by blast
  next
    case False
    then have "isl r \<and> st' = st" using assms b
      by (cases "candidate_principal cn during credential"; cases "read pid st")
        (auto simp: audited_read_def candidate_now_def deny_def life_unavailable_def isl_def split: if_splits intro: sym)
    then show ?thesis by (auto simp: isl_def)
  qed
qed

lemma audited_read_history:
  "audited_read cn before during credential oper a now read st = (r, st') \<Longrightarrow> history_ok nt st \<Longrightarrow> candidate_ok cn \<Longrightarrow> uuid a \<Longrightarrow>
    history_ok nt st' \<and> keeps_documents st st'"
  using audited_read_cases [of cn before during credential oper a now read st r st'] by (auto intro: audit_history)

lemma principal_named: "named cn env credential \<Longrightarrow> candidate_principal cn env credential = Inr pid \<Longrightarrow> name_ok pid"
  by (simp add: named_def)

theorem candidate_step_history:
  "candidate_step cn st st' \<Longrightarrow> candidate_ok cn \<Longrightarrow> history_ok nt st \<Longrightarrow> history_ok nt st' \<and> keeps_documents st st'"
proof (induction rule: candidate_step.induct)
  case (authorizing st i before credential now during key input n0 r st')
  show ?case
  proof (cases "upload_request cn input")
    case (Inl e)
    with authorizing show ?thesis by (auto simp: authorizeUpload_def)
  next
    case (Inr q)
    obtain b type mime n expected digests where q: "upload_request cn input = Inr (b, type, mime, n, expected, digests)" using Inr by (cases q) auto
    note rule = upload_request_Inr [OF q]
    from authorizing(4) have "mutation cn before during credential key ''authorize'' b
       \<lparr>mb_run = authorize_run cn i type mime n expected digests now, mb_preflight = no_preflight\<rparr> n0 now st = (r, st')"
      by (simp add: authorizeUpload_def q)
    then show ?thesis
      by (rule mutation_history [OF _ authorizing(6,5)])
        (use authorizing rule authorize_keeps open_journal_history principal_named in simp)
  qed
next
  case (putting before during credential key i objectKey uploadCredential bytes n0 now st r st')
  from putting(1) show ?case unfolding put_bytes_def
    by (rule mutation_history [OF _ putting(3,2)]) (use putting put_keeps open_journal_history in simp)
next
  case (finalizing st j v a before during credential key input n0 now r st')
  show ?case
  proof (cases "\<exists>b i. request_body input [''uploadId''] = Inr b \<and> json_get b ''uploadId'' = Some (JStr i)")
    case True
    then obtain b i where "request_body input [''uploadId''] = Inr b" "json_get b ''uploadId'' = Some (JStr i)" by blast
    with finalizing(4) have "mutation cn before during credential key ''finalize'' b
         \<lparr>mb_run = finalize_run cn during credential i j v a now, mb_preflight = no_preflight\<rparr> n0 now st = (r, st')"
      by (simp add: finalize_def)
    then show ?thesis
      by (rule mutation_history [OF _ finalizing(6,5)]) (use finalizing finalize_keeps open_journal_history in simp)
  next
    case False
    with finalizing(4) have "st' = st" by (auto simp: finalize_def split: sum.splits option.splits json.splits)
    with finalizing show ?thesis by simp
  qed
next
  case (removing_own a before during credential key input n0 now st r st')
  let ?parse = "bind_result (request_body input [''type'', ''expectedVersion'']) (\<lambda>b.
           bind_result (document_kind (json_get b ''type'')) (\<lambda>type.
           bind_result (version_of (json_get b ''expectedVersion'')) (\<lambda>expected. Inr (b, type, expected))))"
  show ?case
  proof (cases ?parse)
    case (Inl e)
    with removing_own show ?thesis by (auto simp: remove_candidate_def)
  next
    case (Inr q)
    obtain b type expected where q: "q = (b, type, expected)" by (cases q) auto
    from removing_own(2) have "mutation cn before during credential key ''remove'' b
          \<lparr>mb_run = remove_run cn during credential type expected a now, mb_preflight = no_preflight\<rparr> n0 now st = (r, st')"
      unfolding remove_candidate_def Inr q by simp
    then show ?thesis
      by (rule mutation_history [OF _ removing_own(4,3)]) (use removing_own remove_keeps open_journal_history in simp)
  qed
next
  case (issuing a before during credential i now st u st')
  from audited_read_history [OF issuing(2) [unfolded candidate_issue_def] issuing(4,3,1)] show ?case .
next
  case (delivering a before during credential link now st d st')
  from audited_read_history [OF delivering(2) [unfolded candidate_deliver_def] delivering(4,3,1)] show ?case .
next
  case (listing a before during credential now st ms st')
  from audited_read_history [OF listing(2) [unfolded candidate_list_def] listing(4,3,1)] show ?case .
qed

lemma history_step_history:
  "history_step cn st st' \<Longrightarrow> candidate_ok cn \<Longrightarrow> history_ok (do_number (cn_config cn)) st \<Longrightarrow>
    history_ok (do_number (cn_config cn)) st' \<and> keeps_documents st st'"
  unfolding history_step_def using document_step_history candidate_step_history by blast

lemma history_reaches_ok:
  "history_reaches cn st st' \<Longrightarrow> candidate_ok cn \<Longrightarrow> history_ok (do_number (cn_config cn)) st \<Longrightarrow>
    history_ok (do_number (cn_config cn)) st' \<and> keeps_documents st st'"
  unfolding history_reaches_def
proof (induction rule: rtranclp_induct)
  case (step y z)
  then show ?case using history_step_history [OF step(2)] keeps_trans by blast
qed simp

lemma empty_history: "history_ok nt empty_documents"
  by (simp add: history_ok_def state_ok_def empty_documents_def versions_def)

section \<open>Nothing is lost\<close>

definition everything :: "document_state \<Rightarrow> stored_document list" where
  "everything st = ds_documents st @ ds_retired st"

lemma version_names_document:
  assumes "distinct (versions st)" "d \<in> set (everything st)" "e \<in> set (everything st)" "dc_version d = dc_version e"
  shows "d = e"
  using assms unfolding versions_def everything_def by (meson distinct_map inj_onD)

text \<open>C6. Over any operations of the two services on one store, current documents and retired ones are
  kept: retired documents are only added to, a document that is no longer current is retired with its
  bytes, and no version names two documents.\<close>

theorem documents_are_never_lost:
  assumes "candidate_ok cn" "history_reaches cn empty_documents st" "history_reaches cn st st'"
  shows "(\<exists>later. ds_retired st' = ds_retired st @ later) \<and> set (everything st) \<subseteq> set (everything st') \<and> distinct (map dc_version (everything st'))"
proof -
  have "history_ok (do_number (cn_config cn)) st" using history_reaches_ok assms empty_history by blast
  from history_reaches_ok [OF assms(3,1) this] show ?thesis
    by (auto simp: keeps_documents_def everything_def history_ok_def versions_def)
qed

section \<open>A link delivers what it was issued for\<close>

lemma issue_body_documented:
  assumes "find_document cfg env identity st i = Inr d" "authorize_scope cfg env identity (dc_scope d) = Inr pid" "ttl_ok ttl = Some seconds" "safe_count iat"
  shows "issue_body cfg env i ttl iat identity st = Inr ((issued_link cfg d pid iat (iat + seconds * 1000), iat + seconds * 1000), st)"
  using assms by (simp add: issue_body_def issued_link_def clock_def Let_def)

lemma ttl_bounds: "ttl_ok ttl = Some s \<Longrightarrow> 1 \<le> s \<and> s \<le> 300"
  by (auto simp: ttl_ok_def split: option.splits json.splits if_splits)

text \<open>C7. A caller with access to a document is issued a link to it. In any later state the link
  delivers exactly the bytes it was issued for, and does so exactly until it expires, while that
  version is current, to a caller who is then authorized and is the principal it was issued to.\<close>

theorem delivery_link_is_exact:
  assumes cn: "candidate_ok cn" and reach: "history_reaches cn empty_documents st" and nt: "do_number cfg = do_number (cn_config cn)"
    and d: "d \<in> set (ds_documents st)"
    and who: "caller cfg before during credential st = Inr who" "authorize_scope cfg during who (dc_scope d) = Inr pid"
    and ttl: "ttl_ok ttl = Some seconds" and now: "safe_count iat" "safe_count (iat + seconds * 1000)"
    and doc: "link_documented cfg d pid iat (iat + seconds * 1000)" "inj (subject_of cfg)"
    and later: "history_reaches cn st st2"
  shows "issue_delivery cfg before during credential (Some (JStr (dc_id d))) ttl iat st
        = Inr ((issued_link cfg d pid iat (iat + seconds * 1000), iat + seconds * 1000), st)
     \<and> (deliver cfg before2 during2 credential2 (Some (JStr (issued_link cfg d pid iat (iat + seconds * 1000)))) t st2 = Inr (dl, st3) \<longleftrightarrow>
        st3 = st2 \<and> dl = delivery_of d \<and> iat \<le> t \<and> t < iat + seconds * 1000 \<and> d \<in> set (ds_documents st2)
        \<and> (\<exists>who2. caller cfg before2 during2 credential2 st2 = Inr who2 \<and> authorize_scope cfg during2 who2 (dc_scope d) = Inr pid))"
proof (rule conjI)
  let ?nt = "do_number (cn_config cn)" and ?ex = "iat + seconds * 1000"
  have h: "history_ok ?nt st" using history_reaches_ok [OF reach cn empty_history] by blast
  have h2: "history_ok ?nt st2" "keeps_documents st st2" using history_reaches_ok [OF later cn h] by simp_all
  have u: "uuid (dc_id d)" using d h by (auto simp: history_ok_def state_ok_def list_all_iff document_ok_def)
  have "find (\<lambda>x. dc_id x = dc_id d) (ds_documents st) = Some d"
    using d h by (intro find_unique) (simp_all add: history_ok_def state_ok_def)
  then have found: "find_document cfg during who st (Some (JStr (dc_id d))) = Inr d"
    using who(2) u by (simp add: find_document_by_id)
  show "issue_delivery cfg before during credential (Some (JStr (dc_id d))) ttl iat st = Inr ((issued_link cfg d pid iat ?ex, ?ex), st)"
    unfolding issue_delivery_def document_run_caller using who found issue_body_documented ttl now by simp
  have times: "iat < ?ex" "?ex - iat \<le> 300000" using ttl_bounds [OF ttl] by simp_all
  have later_d: "d \<in> set (everything st2)" using d h2(2) by (auto simp: keeps_documents_def everything_def)
  have same: "d' = d" if "find (\<lambda>x. dc_id x = dc_id d) (ds_documents st2) = Some d'" "dc_version d' = dc_version d" for d'
    using version_names_document [of st2 d' d] find_SomeD [OF that(1)] that(2) later_d h2(1) by (simp add: everything_def history_ok_def)
  have current: "find (\<lambda>x. dc_id x = dc_id d) (ds_documents st2) = Some d" if "d \<in> set (ds_documents st2)"
    using that h2(1) by (intro find_unique) (simp_all add: history_ok_def state_ok_def)
  show "deliver cfg before2 during2 credential2 (Some (JStr (issued_link cfg d pid iat ?ex))) t st2 = Inr (dl, st3) \<longleftrightarrow>
      st3 = st2 \<and> dl = delivery_of d \<and> iat \<le> t \<and> t < ?ex \<and> d \<in> set (ds_documents st2)
      \<and> (\<exists>who2. caller cfg before2 during2 credential2 st2 = Inr who2 \<and> authorize_scope cfg during2 who2 (dc_scope d) = Inr pid)"
    (is "?L \<longleftrightarrow> ?R")
  proof
    assume ?L
    then obtain who2 where w: "caller cfg before2 during2 credential2 st2 = Inr who2"
      and b: "deliver_body cfg during2 (Some (JStr (issued_link cfg d pid iat ?ex))) t who2 st2 = Inr (dl, st3)"
      unfolding deliver_def document_run_caller by (rule bind_InrE)
    from b [unfolded deliver_issued [OF doc u now times]] obtain d' where d': "find (\<lambda>x. dc_id x = dc_id d) (ds_documents st2) = Some d'"
        "dc_version d' = dc_version d" "authorize_scope cfg during2 who2 (dc_scope d') = Inr pid" "dl = delivery_of d'" "st3 = st2" "iat \<le> t" "t < ?ex"
      by blast
    with same [OF d'(1,2)] find_SomeD [OF d'(1)] w show ?R by blast
  next
    assume r: ?R
    then obtain who2 where w: "caller cfg before2 during2 credential2 st2 = Inr who2" "authorize_scope cfg during2 who2 (dc_scope d) = Inr pid" by blast
    have "safe_count t" using r now by (simp add: safe_count_def)
    with r w current show ?L unfolding deliver_def document_run_caller w(1) bind_result_simps deliver_issued [OF doc u now times] by blast
  qed
qed

section \<open>The file is the store\<close>

text \<open>C10. On a file that holds a reachable state, a transaction of the file store has exactly the effect
  and the answer of its body, within the limit of 256 MiB: the file then holds the body's next state, or
  is as it was where the body throws. The validation before and after never refuses what the
  operations wrote; the one check that can is the limit, which refuses to read a longer file and to
  write a longer state, and then the file is as it was.\<close>

theorem file_store_implements_transactions:
  assumes cn: "candidate_ok cn" and reach: "history_reaches cn empty_documents st" and nt: "nt = do_number (cn_config cn)"
    and parse: "parse (js_stringify nt (state_json st)) = Some (state_json st)"
    and body: "case fn st of Inl e \<Rightarrow> True | Inr (x, st') \<Rightarrow> history_reaches cn st st'"
  shows "file_transaction parse nt fn (js_stringify nt (state_json st)) =
     (if length (utf8 (js_stringify nt (state_json st))) > 268435456 then (Inl State_unavailable, js_stringify nt (state_json st))
      else case fn st of
        Inl e \<Rightarrow> (Inl (Body_error e), js_stringify nt (state_json st))
      | Inr (x, st') \<Rightarrow>
          (if length (utf8 (js_stringify nt (state_json st'))) > 268435456 then (Inl State_unavailable, js_stringify nt (state_json st))
           else (Inr x, js_stringify nt (state_json st'))))"
proof -
  have h: "history_ok nt st" using history_reaches_ok [OF reach cn empty_history] nt by blast
  then have ok: "state_ok nt st" by (simp add: history_ok_def)
  note limit = MAX_STATE_BYTES_def
  show ?thesis
  proof (cases "fn st")
    case (Inl e)
    then show ?thesis using parse ok state_of_json [OF ok] by (simp add: file_transaction_def limit)
  next
    case (Inr r)
    obtain x st' where r: "r = (x, st')" by force
    have "state_ok nt st'" using body Inr r history_reaches_ok [OF _ cn] h nt by (auto simp: history_ok_def)
    then show ?thesis using parse ok state_of_json [OF ok] body Inr r by (auto simp: file_transaction_def Let_def limit)
  qed
qed

end
