(* ===== verification/Document_Demo.thy ===== *)
theory Document_Demo
  imports Document_History
begin
declare map_of_eq_Some_iff [simp del] Some_eq_map_of_iff [simp del]

section \<open>A concrete history\<close>

definition demo_id :: "char \<Rightarrow> string" where
  "demo_id c = ''00000000-0000-4000-8000-00000000000'' @ [c]"

definition demo_env :: document_env where
  "demo_env = \<lparr>de_authenticate = (\<lambda>c. Some (if c = ''c'' then Some (By_principal ''p'') else None)),
     de_reads = \<lparr>rd_principal = (\<lambda>p. if p = ''p'' then Some \<lparr>pr_id = ''p'', pr_pbuuids = [], pr_display_name = None, pr_email = None\<rparr> else None),
       rd_by_pbuuid = (\<lambda>_. None), rd_org = (\<lambda>i. if i = ''root'' then Some \<lparr>org_id = ''root'', org_name = ''Root'', org_parent = None\<rparr> else None),
       rd_orgs = [\<lparr>org_id = ''root'', org_name = ''Root'', org_parent = None\<rparr>], rd_grants = (\<lambda>_. [])\<rparr>, de_deleted = None\<rparr>"

definition demo_config :: document_config where
  "demo_config = \<lparr>do_mac = b64_encode, do_origin = ''https://h'', do_path = ''/d'', do_own = Some ''root'', do_number = (\<lambda>n. show_int \<lfloor>n\<rfloor>),
     do_parse = (\<lambda>_. None), do_url = (\<lambda>l. if take 14 l = ''https://h/d?t='' then Some (''https://h'', Some (drop 14 l)) else None)\<rparr>"

definition demo_candidates :: candidate_config where
  "demo_candidates = \<lparr>cn_config = demo_config, cn_org = ''root'', cn_sha = (\<lambda>_. replicate 64 (CHR ''0'')), cn_inflate = (\<lambda>_ _. None), cn_direct = None\<rparr>"

text \<open>A JPEG of one pixel's shape: a frame, a scan with one entropy-coded byte, the end.\<close>

definition demo_jpeg :: string where
  "demo_jpeg = map of_byte [255, 216, 255, 192, 0, 11, 8, 0, 1, 0, 1, 1, 1, 17, 0, 255, 218, 0, 6, 1, 1, 0, 0, 7, 255, 217]"

definition demo_input :: "upload_input option" where
  "demo_input = Some [(''scope'', Plain (JObj [(''orgId'', JStr ''root''), (''personId'', JStr ''p'')])), (''type'', Plain (JStr ''personal-photo'')),
     (''mime'', Plain (JStr ''image/jpeg'')), (''bytes'', Buffer demo_jpeg)]"

definition demo_document :: stored_document where
  "demo_document = identified \<lparr>dc_scope = \<lparr>sc_org = ''root'', sc_person = Some ''p''\<rparr>, dc_type = ''personal-photo'', dc_mime = ''image/jpeg'',
     dc_size = 26, dc_data = b64_text demo_jpeg\<rparr> (demo_id CHR ''1'') (demo_id CHR ''2'')"

definition demo_stored :: document_state where
  "demo_stored = empty_documents\<lparr>ds_documents := [demo_document]\<rparr>"

lemma demo_ids: "uuid (demo_id CHR ''1'')" "uuid (demo_id CHR ''2'')" "uuid (demo_id CHR ''3'')" "uuid (demo_id CHR ''4'')"
  by code_simp+

lemma demo_names: "name_ok ''root''" "name_ok ''p''"
  by code_simp+

lemma demo_length: "length demo_jpeg = 26"
  by (simp add: demo_jpeg_def)

lemma demo_jpeg_frame: "frame_ok (map of_byte [0, 11, 8, 0, 1, 0, 1, 1, 1, 17, 0, 255, 218, 0, 6, 1, 1, 0, 0, 7, 255, 217]) 11"
  by (simp add: frame_ok_def)

lemma demo_is_jpeg: "jpeg demo_jpeg"
proof -
  have e: "jpeg_segments (map of_byte [255, 217]) True True"
    by (subst jpeg_segments.simps) simp
  have s: "jpeg_segments (map of_byte [255, 218, 0, 6, 1, 1, 0, 0, 7, 255, 217]) True False"
    using e by (subst jpeg_segments.simps) simp
  have "jpeg_segments (map of_byte [255, 192, 0, 11, 8, 0, 1, 0, 1, 1, 1, 17, 0, 255, 218, 0, 6, 1, 1, 0, 0, 7, 255, 217]) False False"
    using s demo_jpeg_frame by (subst jpeg_segments.simps) simp
  then show ?thesis by (simp add: jpeg_def demo_jpeg_def)
qed

lemma demo_shapes: "validateContent ''personal-photo'' ''image/jpeg'' demo_jpeg" 
  "validateCandidateContent inflate ''personal-photo'' ''image/jpeg'' demo_jpeg"
proof -
  have "take 3 demo_jpeg = JPEG_MAGIC" "demo_jpeg \<noteq> []" by (simp_all add: demo_jpeg_def JPEG_MAGIC_def)
  then show "validateContent ''personal-photo'' ''image/jpeg'' demo_jpeg" "validateCandidateContent inflate ''personal-photo'' ''image/jpeg'' demo_jpeg"
    by (simp_all add: validateContent_def DOCUMENT_TYPES_def is_image_def demo_length validateCandidateContent_def demo_is_jpeg)
qed

lemma demo_candidates_ok: "candidate_ok demo_candidates"
  by (auto simp: candidate_ok_def demo_candidates_def demo_names reference_ok_def list_all_iff hex_char_def digit_char_def)

lemma demo_upload_of: "uploadOf demo_input = Inr \<lparr>dc_scope = \<lparr>sc_org = ''root'', sc_person = Some ''p''\<rparr>, dc_type = ''personal-photo'', dc_mime = ''image/jpeg'',
     dc_size = 26, dc_data = b64_text demo_jpeg\<rparr>"
  by (simp add: uploadOf_def demo_input_def privateAcl_def scopeOf_def demo_shapes demo_names demo_length orgType_def is_text_def text_of_def)

lemma demo_caller: "state_ok (do_number cfg) st \<Longrightarrow> do_own cfg = Some ''root'' \<Longrightarrow> caller cfg demo_env demo_env (Some (JStr ''c'')) st = Inr (By_principal ''p'')"
  by (simp add: caller_def document_run_def presented_def authenticate_def demo_env_def resolvePrincipalId_def)

lemma demo_authorized: "do_own cfg = Some ''root'' \<Longrightarrow> authorize_scope cfg demo_env (By_principal ''p'') \<lparr>sc_org = ''root'', sc_person = Some ''p''\<rparr> = Inr ''p''"
  by (simp add: authorize_scope_def resolvePrincipalId_def demo_env_def)

lemma demo_number: "do_number (cn_config demo_candidates) = do_number demo_config" "do_own demo_config = Some ''root''"
  by (simp_all add: demo_candidates_def demo_config_def)

lemma empty_state_ok: "state_ok nt empty_documents"
  using empty_history by (simp add: history_ok_def)

lemma demo_uploaded: "history_reaches demo_candidates empty_documents demo_stored"
proof -
  have "upload demo_config demo_env demo_env (Some (JStr ''c'')) demo_input (demo_id CHR ''1'') (demo_id CHR ''2'') empty_documents
      = Inr (metadata_of demo_document, demo_stored)"
    unfolding upload_def document_run_caller demo_caller [OF empty_state_ok demo_number(2)] bind_result_simps upload_body_def demo_upload_of
    by (simp add: demo_authorized [OF demo_number(2)] demo_document_def demo_stored_def empty_documents_def Let_def)
  then have "document_step (do_number demo_config) empty_documents demo_stored"
    by (rule uploading [OF refl, rotated -1]) (simp_all add: fresh_def demo_ids empty_documents_def versions_def journal_def emptyLifecycleState_def)
  then show ?thesis by (simp add: history_reaches_def history_step_def demo_number r_into_rtranclp)
qed

definition demo_removed :: document_state where
  "demo_removed = empty_documents\<lparr>ds_retired := [demo_document]\<rparr>"

lemma demo_stored_ok: "history_ok nt demo_stored"
proof -
  have "upload_body demo_config demo_env demo_input (demo_id CHR ''1'') (demo_id CHR ''2'') (By_principal ''p'') empty_documents
      = Inr (metadata_of demo_document, demo_stored)"
    by (simp add: upload_body_def demo_upload_of demo_authorized [OF demo_number(2)] demo_document_def demo_stored_def empty_documents_def Let_def)
  from upload_history [OF this empty_history] show ?thesis
    by (simp add: fresh_def demo_ids empty_documents_def versions_def journal_def emptyLifecycleState_def)
qed

lemma demo_find: "do_own cfg = Some ''root'' \<Longrightarrow> find_document cfg demo_env (By_principal ''p'') demo_stored (Some (JStr (demo_id CHR ''1''))) = Inr demo_document"
  by (simp add: find_document_by_id [OF demo_ids(1)] demo_stored_def demo_document_def demo_authorized)

lemma demo_remove: "history_reaches demo_candidates demo_stored demo_removed"
proof -
  have "state_ok (do_number demo_config) demo_stored" using demo_stored_ok by (simp add: history_ok_def)
  then have "remove_document demo_config demo_env demo_env (Some (JStr ''c'')) (Some (JStr (demo_id CHR ''1''))) demo_stored = Inr ((), demo_removed)"
    unfolding remove_document_def document_run_caller
    by (simp add: demo_caller demo_number remove_body_def demo_find) (simp add: demo_removed_def demo_stored_def empty_documents_def)
  then have "document_step (do_number demo_config) demo_stored demo_removed" by (rule removing [OF refl])
  then show ?thesis by (simp add: history_reaches_def history_step_def demo_number r_into_rtranclp)
qed

theorem documents_are_never_lost_witness:
  "demo_document \<in> set (everything demo_removed) \<and> ds_documents demo_removed = [] \<and> distinct (map dc_version (everything demo_removed))"
  using documents_are_never_lost [OF demo_candidates_ok demo_uploaded demo_remove]
  by (simp add: everything_def demo_removed_def empty_documents_def)

definition demo_claim :: json where
  "demo_claim = claim_json demo_config demo_document ''p'' 0 60000"

definition demo_links :: document_config where
  "demo_links = demo_config\<lparr>do_parse := (\<lambda>s. if s = utf8 (js_stringify (\<lambda>n. show_int \<lfloor>n\<rfloor>) demo_claim) then Some demo_claim else None)\<rparr>"

lemma demo_links_simps: "do_mac demo_links = b64_encode" "do_origin demo_links = ''https://h''" "do_path demo_links = ''/d''" "do_own demo_links = Some ''root''"
  "do_number demo_links = (\<lambda>n. show_int \<lfloor>n\<rfloor>)" "do_url demo_links = (\<lambda>l. if take 14 l = ''https://h/d?t='' then Some (''https://h'', Some (drop 14 l)) else None)"
  "claim_json demo_links = claim_json demo_config"
  by (simp_all add: demo_links_def demo_config_def claim_json_def [abs_def] subject_of_def fun_eq_iff)

lemma digit_chars: "of_byte 48 = CHR ''0''" "of_byte 49 = CHR ''1''" "of_byte 50 = CHR ''2''" "of_byte 54 = CHR ''6''"
  by code_simp+

lemma demo_numbers: "show_nat 0 = ''0''" "show_nat (Suc 0) = ''1''" "show_nat 60000 = ''60000''" "show_nat 26 = ''26''"
  by (simp_all add: show_nat.simps digit_chars)

lemma demo_claim_size: "length (utf8 (js_stringify (\<lambda>n. show_int \<lfloor>n\<rfloor>) demo_claim)) \<le> 300"
  by (simp add: demo_claim_def claim_json_def demo_config_def subject_of_def demo_document_def demo_id_def js_int_def commas_def js_quote_def js_escape_def
      show_int_def b64_digit_def Let_def demo_numbers)

lemma demo_link_documented: "link_documented demo_links demo_document ''p'' 0 60000"
proof -
  let ?payload = "claim_payload demo_links demo_claim"
  have p: "length ?payload \<le> 600"
    using b64_encode_length [of "utf8 (js_stringify (\<lambda>n. show_int \<lfloor>n\<rfloor>) demo_claim)"] demo_claim_size
    by (simp add: claim_payload_def demo_links_simps)
  have "length (b64_encode (''delivery:'' @ ?payload)) \<le> 1218" using b64_encode_length [of "''delivery:'' @ ?payload"] p by simp
  then have "length (issued_link demo_links demo_document ''p'' 0 60000) \<le> 4096"
    using p by (simp add: issued_link_def delivery_url_def delivery_token_def demo_links_simps demo_claim_def [symmetric])
  moreover have "do_url demo_links (issued_link demo_links demo_document ''p'' 0 60000)
      = Some (do_origin demo_links, Some (delivery_token demo_links (claim_payload demo_links (claim_json demo_links demo_document ''p'' 0 60000))))"
    by (simp add: issued_link_def delivery_url_def demo_links_simps)
  moreover have "do_parse demo_links (utf8 (js_stringify (do_number demo_links) (claim_json demo_links demo_document ''p'' 0 60000)))
      = Some (claim_json demo_links demo_document ''p'' 0 60000)"
    unfolding demo_links_simps demo_claim_def [symmetric] by (simp add: demo_links_def)
  moreover have "do_mac demo_links s \<noteq> [] \<and> list_all b64_alphabet (do_mac demo_links s)" if "s \<noteq> []" for s
    using that by (simp only: demo_links_simps b64_encode_alphabet b64_encode_Nil not_False_eq_True simp_thms)
  ultimately show ?thesis by (simp only: link_documented_def Let_def append_is_Nil_conv list.distinct simp_thms)
qed

lemma demo_subjects: "inj (subject_of demo_links)"
proof (rule injI)
  fix p q assume "subject_of demo_links p = subject_of demo_links q"
  then have "b64_decode (b64_encode (''subject:'' @ p)) = b64_decode (b64_encode (''subject:'' @ q))" by (simp add: subject_of_def demo_links_simps)
  then show "p = q" by (simp add: b64_round_trip)
qed

theorem delivery_link_is_exact_witness:
  "deliver demo_links demo_env demo_env (Some (JStr ''c'')) (Some (JStr (issued_link demo_links demo_document ''p'' 0 60000))) 5000 demo_stored
      = Inr (delivery_of demo_document, demo_stored)
   \<and> isl (deliver demo_links demo_env demo_env (Some (JStr ''c'')) (Some (JStr (issued_link demo_links demo_document ''p'' 0 60000))) 5000 demo_removed)
   \<and> isl (deliver demo_links demo_env demo_env (Some (JStr ''c'')) (Some (JStr (issued_link demo_links demo_document ''p'' 0 60000))) 60000 demo_stored)"
proof -
  have at: "demo_document \<in> set (ds_documents demo_stored)" by (simp add: demo_stored_def)
  have num: "do_number demo_links = do_number (cn_config demo_candidates)" by (simp add: demo_links_simps demo_candidates_def demo_config_def)
  have ok: "state_ok (do_number demo_links) demo_stored" using demo_stored_ok by (simp add: history_ok_def)
  have who: "caller demo_links demo_env demo_env (Some (JStr ''c'')) demo_stored = Inr (By_principal ''p'')" using ok demo_caller demo_links_simps(4) by blast
  have scope: "dc_scope demo_document = \<lparr>sc_org = ''root'', sc_person = Some ''p''\<rparr>" by (simp add: demo_document_def)
  have auth: "authorize_scope demo_links demo_env (By_principal ''p'') (dc_scope demo_document) = Inr ''p''"
    by (simp add: scope demo_authorized [OF demo_links_simps(4)])
  have ttl: "ttl_ok None = Some 60" by (simp add: ttl_ok_def)
  have times: "safe_count 0" "safe_count (0 + 60 * 1000)" by (simp_all add: safe_count_def MAX_SAFE_def)
  have doc: "link_documented demo_links demo_document ''p'' 0 (0 + 60 * 1000)" using demo_link_documented by simp
  have stay: "history_reaches demo_candidates demo_stored demo_stored" by (simp add: history_reaches_def)
  note exact = delivery_link_is_exact [OF demo_candidates_ok demo_uploaded num at who auth ttl times doc demo_subjects, THEN conjunct2, simplified]
  have first: "deliver demo_links demo_env demo_env (Some (JStr ''c'')) (Some (JStr (issued_link demo_links demo_document ''p'' 0 60000))) 5000 demo_stored
      = Inr (delivery_of demo_document, demo_stored)"
    unfolding exact [OF stay] using at who auth by simp
  have gone: "deliver demo_links demo_env demo_env (Some (JStr ''c'')) (Some (JStr (issued_link demo_links demo_document ''p'' 0 60000))) 5000 demo_removed \<noteq> Inr (dl, s)" for dl s
    unfolding exact [OF demo_remove] by (simp add: demo_removed_def empty_documents_def)
  have late: "deliver demo_links demo_env demo_env (Some (JStr ''c'')) (Some (JStr (issued_link demo_links demo_document ''p'' 0 60000))) 60000 demo_stored \<noteq> Inr (dl, s)" for dl s
    unfolding exact [OF stay] by simp
  have left: "isl r" if "\<And>dl s. r \<noteq> Inr (dl, s)" for r :: "document_code + (delivery \<times> document_state)"
    using that by (cases r) (auto simp: prod_eq_iff)
  show ?thesis using first left [OF gone] left [OF late] by blast
qed

text \<open>A file whose numbers are written in decimal, and a parser of the two texts it holds.\<close>

theorem file_store_implements_transactions_witness:
  "file_transaction (\<lambda>s. if s = js_stringify (\<lambda>n. show_int \<lfloor>n\<rfloor>) (state_json empty_documents) then Some (state_json empty_documents) else None)
      (\<lambda>n. show_int \<lfloor>n\<rfloor>) (upload demo_config demo_env demo_env (Some (JStr ''c'')) demo_input (demo_id CHR ''1'') (demo_id CHR ''2'')) (file_create (\<lambda>n. show_int \<lfloor>n\<rfloor>))
    = (Inr (metadata_of demo_document), js_stringify (\<lambda>n. show_int \<lfloor>n\<rfloor>) (state_json demo_stored))"
proof -
  let ?nt = "\<lambda>n :: rat. show_int \<lfloor>n\<rfloor>"
  let ?fn = "upload demo_config demo_env demo_env (Some (JStr ''c'')) demo_input (demo_id CHR ''1'') (demo_id CHR ''2'')"
  have nt: "?nt = do_number (cn_config demo_candidates)" by (simp add: demo_candidates_def demo_config_def)
  have run: "?fn empty_documents = Inr (metadata_of demo_document, demo_stored)"
    unfolding upload_def document_run_caller demo_caller [OF empty_state_ok demo_number(2)] bind_result_simps upload_body_def demo_upload_of
    by (simp add: demo_authorized [OF demo_number(2)] demo_document_def demo_stored_def empty_documents_def Let_def)
  have empty: "length (utf8 (js_stringify ?nt (state_json empty_documents))) \<le> MAX_STATE_BYTES"
    by (simp add: state_json_def empty_documents_def js_int_def commas_def js_quote_def js_escape_def show_int_def Let_def MAX_STATE_BYTES_def demo_numbers)
  have stored: "length (utf8 (js_stringify ?nt (state_json demo_stored))) \<le> MAX_STATE_BYTES"
    by (simp add: state_json_def demo_stored_def empty_documents_def js_int_def commas_def js_quote_def js_escape_def show_int_def Let_def MAX_STATE_BYTES_def
        document_json_def scope_json_def demo_document_def demo_id_def b64_text_def demo_jpeg_def b64_digit_def std_digit_def demo_numbers)
  have start: "history_reaches demo_candidates empty_documents empty_documents" by (simp add: history_reaches_def)
  show ?thesis
    using file_store_implements_transactions [OF demo_candidates_ok start nt, of _ ?fn] run empty stored demo_uploaded
    by (simp add: file_create_def MAX_STATE_BYTES_def)
qed

end
