(* ===== verification/Document_Tickets.thy ===== *)
theory Document_Tickets
  imports Document_Demo
begin

declare map_of_eq_Some_iff [simp del] Some_eq_map_of_iff [simp del]

text \<open>
  Candidate documents, the promises of the journal: a ticket commits once, a stored answer is the
  only answer of its key, and the cleanup queue holds what was retired.
\<close>

section \<open>Tickets and answers stay\<close>

definition committed :: "document_state \<Rightarrow> string \<Rightarrow> bool" where
  "committed st i \<longleftrightarrow> (case find (\<lambda>t. tk_id t = i) (lf_uploads (journal st)) of None \<Rightarrow> False | Some t \<Rightarrow> tk_committed t = Some True)"

definition grows :: "document_state \<Rightarrow> document_state \<Rightarrow> bool" where
  "grows st st' \<longleftrightarrow> (\<forall>i. committed st i \<longrightarrow> committed st' i) \<and> (\<exists>rs. lf_receipts (journal st') = lf_receipts (journal st) @ rs)
     \<and> (ds_lifecycle st \<noteq> None \<longrightarrow> ds_lifecycle st' \<noteq> None)"

lemma grows_refl [simp]: "grows st st"
  by (simp add: grows_def)

lemma grows_trans: "grows a b \<Longrightarrow> grows b c \<Longrightarrow> grows a c"
  by (auto simp: grows_def)

lemma grows_same: "ds_lifecycle st' = ds_lifecycle st \<Longrightarrow> grows st st'"
  by (simp add: grows_def committed_def journal_def)

lemma journal_open [simp]: "ds_lifecycle (with_journal f st) \<noteq> None" "ds_lifecycle (set_ticket i g st) \<noteq> None" "ds_lifecycle (add_audit cn a oper pid now st) \<noteq> None"
  "ds_lifecycle (enqueue_cleanup now d st) \<noteq> None" "ds_lifecycle (add_receipt r st) \<noteq> None"
  by (simp_all add: with_journal_def set_ticket_def add_audit_def enqueue_cleanup_def add_receipt_def)

lemma with_journal_same: "ds_lifecycle st \<noteq> None \<Longrightarrow> with_journal id st = st"
  by (auto simp: with_journal_def journal_def)

lemma grows_open: "grows st (with_journal id st)"
  by (simp add: grows_def committed_def)

lemma grows_audit: "grows st (add_audit cn a oper pid now st)"
  by (simp add: grows_def committed_def)

lemma grows_receipt: "grows st (add_receipt r st)"
  by (simp add: grows_def committed_def)

lemma grows_enqueue: "grows st (enqueue_cleanup now d st)"
  by (simp add: grows_def committed_def)

lemma find_append_Some: "find P xs = Some x \<Longrightarrow> find P (xs @ ys) = Some x"
  by (induction xs) auto

lemma find_updated:
  "(\<And>t. tk_id t = i \<Longrightarrow> tk_id (f t) = i) \<Longrightarrow>
    find (\<lambda>t. tk_id t = k) (update_first (\<lambda>t. tk_id t = i) f us) = (if k = i then map_option f (find (\<lambda>t. tk_id t = k) us) else find (\<lambda>t. tk_id t = k) us)"
  by (induction us) auto

lemma grows_set_ticket:
  "(\<And>t. tk_id t = i \<Longrightarrow> tk_id (f t) = i) \<Longrightarrow> (\<And>t. tk_committed t = Some True \<Longrightarrow> find (\<lambda>t. tk_id t = i) (lf_uploads (journal st)) = Some t \<Longrightarrow> tk_committed (f t) = Some True) \<Longrightarrow>
    grows st (set_ticket i f st)"
  by (auto simp: grows_def committed_def find_updated split: option.splits)

definition run_grows :: "document_state \<Rightarrow> life_error + (stored_response \<times> document_state) \<Rightarrow> bool" where
  "run_grows st r \<longleftrightarrow> (case r of Inl e \<Rightarrow> True | Inr (response, s) \<Rightarrow> grows st s)"

lemma authorize_grows: "run_grows st (authorize_run cn i type mime n expected digests now st pid)"
proof (cases "authorize_run cn i type mime n expected digests now st pid")
  case (Inr r)
  obtain response s where r: "r = (response, s)" by force
  from Inr [unfolded r] show ?thesis
    by (rule authorize_run_Inr)
      (auto simp: run_grows_def Inr r grows_def committed_def find_append_Some split: option.splits)
qed (simp add: run_grows_def)

lemma put_grows: "run_grows st (put_run cn i bytes now st pid)"
proof (cases "put_run cn i bytes now st pid")
  case (Inr r)
  obtain response s where r: "r = (response, s)" by force
  from Inr [unfolded r] show ?thesis
    by (rule put_run_Inr) (auto simp: run_grows_def Inr r intro: grows_set_ticket)
qed (simp add: run_grows_def)

lemma primitive_lifecycle:
  "upload cfg before during credential input j v st = Inr (m, s) \<Longrightarrow> ds_lifecycle s = ds_lifecycle st"
  "replace_document cfg before during credential k input v st = Inr (m, s) \<Longrightarrow> ds_lifecycle s = ds_lifecycle st"
  "remove_document cfg before during credential k st = Inr (u, s) \<Longrightarrow> ds_lifecycle s = ds_lifecycle st"
proof -
  show "upload cfg before during credential input j v st = Inr (m, s) \<Longrightarrow> ds_lifecycle s = ds_lifecycle st"
    unfolding upload_def by (erule document_run_Inr) (erule upload_body_Inr, simp)
  show "replace_document cfg before during credential k input v st = Inr (m, s) \<Longrightarrow> ds_lifecycle s = ds_lifecycle st"
    unfolding replace_document_def by (erule document_run_Inr) (erule replace_body_Inr, simp)
  show "remove_document cfg before during credential k st = Inr (u, s) \<Longrightarrow> ds_lifecycle s = ds_lifecycle st"
    unfolding remove_document_def by (erule document_run_Inr) (erule remove_body_Inr, simp)
qed

text \<open>What a finalization does to its ticket.\<close>

lemma finalize_commits:
  assumes f: "finalize_run cn env credential i j v a now st pid = Inr (response, s')"
  shows "\<not> committed st i \<and> committed s' i \<and> grows st s'"
proof -
  from f obtain t t' bytes previous m s where t: "ticket cn st pid i = Inr t" "tk_committed t \<noteq> Some True" "filled t t'"
      and prim: "(case previous of Some d \<Rightarrow> replace_document (primitive cn) env env credential (Some (JStr (dc_id d))) (Some (ticket_input cn pid t' bytes)) v (set_ticket i (\<lambda>_. t') st)
        | None \<Rightarrow> upload (primitive cn) env env credential (Some (ticket_input cn pid t' bytes)) j v (set_ticket i (\<lambda>_. t') st)) = Inr (m, s)"
      and s': "s' = add_audit cn a Finalized pid now (set_ticket i (\<lambda>_. committed_ticket t) (case previous of None \<Rightarrow> s | Some d \<Rightarrow> enqueue_cleanup now d s))"
    by (rule finalize_run_Inr) blast
  note at = ticket_Inr [OF t(1)]
  have "tk_committed t' = tk_committed t" using t(3) by (auto simp: filled_def)
  moreover have "tk_id t' = i" using filled_same [OF t(3)] at by simp
  ultimately have id: "tk_id t' = i" "tk_committed t' = tk_committed t" by simp_all
  have life: "ds_lifecycle s = ds_lifecycle (set_ticket i (\<lambda>_. t') st)"
    using prim primitive_lifecycle by (cases previous) auto
  let ?s1 = "case previous of None \<Rightarrow> s | Some d \<Rightarrow> enqueue_cleanup now d s"
  have "grows st (set_ticket i (\<lambda>_. t') st)" using at id t(2) by (intro grows_set_ticket) auto
  moreover have "grows (set_ticket i (\<lambda>_. t') st) ?s1" using grows_same [OF life] grows_enqueue grows_trans by (cases previous) auto
  moreover have "grows ?s1 (set_ticket i (\<lambda>_. committed_ticket t) ?s1)" using at by (intro grows_set_ticket) (auto simp: committed_ticket_def)
  ultimately have "grows st s'" unfolding s' using grows_trans grows_audit by blast
  moreover have "find (\<lambda>t. tk_id t = i) (lf_uploads (journal ?s1)) = Some t'"
    using life at id by (cases previous) (simp_all add: journal_def [of s] journal_def [symmetric] find_updated)
  then have "committed s' i" using at by (simp add: s' committed_def find_updated committed_ticket_def)
  moreover have "\<not> committed st i" using at t(2) by (simp add: committed_def)
  ultimately show ?thesis by blast
qed

lemma remove_grows: "run_grows st (remove_run cn env credential type expected a now st pid)"
proof (cases "remove_run cn env credential type expected a now st pid")
  case (Inr r)
  obtain response s where r: "r = (response, s)" by force
  from Inr [unfolded r] obtain d s1 where "remove_document (primitive cn) env env credential (Some (JStr (dc_id d))) st = Inr ((), s1)"
    and s: "s = add_audit cn a Removed_document pid now (enqueue_cleanup now d s1)"
    by (rule remove_run_Inr)
  then have "grows st s1" using primitive_lifecycle(3) grows_same by blast
  then have "grows st s" unfolding s using grows_trans grows_enqueue grows_audit by blast
  then show ?thesis by (simp add: run_grows_def Inr r)
qed (simp add: run_grows_def)

lemma mutation_grows:
  assumes m: "mutation cn before during credential key oper payload body n0 now st = (r, st')"
    and run: "\<And>pid. run_grows (with_journal id st) (mb_run body (with_journal id st) pid)"
  shows "grows st st'"
  using m
proof (cases rule: mutation_cases)
  case (executed pid k digits response s')
  have "grows (with_journal id st) s'" using run [of pid] executed(10) by (simp add: run_grows_def)
  with executed(11) show ?thesis using grows_trans grows_open grows_receipt by blast
qed (use grows_open in auto)

lemma finalize_grows: "run_grows st (finalize_run cn env credential i j v a now st pid)"
  using finalize_commits by (fastforce simp: run_grows_def split: sum.splits)

lemma audited_read_grows: "audited_read cn before during credential oper a now read st = (r, st') \<Longrightarrow> grows st st'"
  using audited_read_cases [of cn before during credential oper a now read st r st'] grows_audit by auto

lemma candidate_step_grows: "candidate_step cn st st' \<Longrightarrow> grows st st'"
proof (induction rule: candidate_step.induct)
  case (authorizing st i before credential now during key input n0 r st')
  then show ?case unfolding authorizeUpload_def
    by (cases "upload_request cn input") (auto intro!: mutation_grows authorize_grows split: prod.splits)
next
  case (putting before during credential key i objectKey uploadCredential bytes n0 now st r st')
  then show ?case unfolding put_bytes_def by (rule mutation_grows) (simp add: put_grows)
next
  case (finalizing st j v a before during credential key input n0 now r st')
  then show ?case unfolding finalize_def
    by (auto intro!: mutation_grows finalize_grows split: sum.splits option.splits json.splits)
next
  case (removing_own a before during credential key input n0 now st r st')
  then show ?case unfolding remove_candidate_def
    by (auto intro!: mutation_grows remove_grows split: sum.splits prod.splits)
next
  case (issuing a before during credential i now st u st')
  then show ?case unfolding candidate_issue_def by (blast intro: audited_read_grows)
next
  case (delivering a before during credential link now st d st')
  then show ?case unfolding candidate_deliver_def by (blast intro: audited_read_grows)
next
  case (listing a before during credential now st ms st')
  then show ?case unfolding candidate_list_def by (blast intro: audited_read_grows)
qed

lemma copy_lifecycle: "copy cfg before during credential i target options j v st = Inr (m, s) \<Longrightarrow> ds_lifecycle s = ds_lifecycle st"
  unfolding copy_def by (erule document_run_Inr) (auto simp: Let_def elim!: bind_InrE split: if_splits)

lemma document_step_grows: "document_step nt st st' \<Longrightarrow> grows st st'"
  by (induction rule: document_step.induct) (auto intro!: grows_same dest: primitive_lifecycle copy_lifecycle)

lemma history_reaches_grows: "history_reaches cn st st' \<Longrightarrow> grows st st'"
  unfolding history_reaches_def
  by (induction rule: rtranclp_induct) (auto simp: history_step_def intro: grows_trans candidate_step_grows document_step_grows)

section \<open>A ticket commits once\<close>

lemma filter_update_first:
  "filter P xs = [d] \<Longrightarrow> distinct (map dc_id xs) \<Longrightarrow> P n \<Longrightarrow> filter P (update_first (\<lambda>y. dc_id y = dc_id d) (\<lambda>_. n) xs) = [n]"
proof (induction xs)
  case (Cons x xs)
  show ?case
  proof (cases "x = d")
    case True
    have "d \<in> set (filter P (x # xs))" unfolding Cons.prems(1) by simp
    then have "P x" using True by (metis mem_Collect_eq set_filter)
    with True have "filter P xs = []" using Cons.prems(1) by simp
    with True \<open>P x\<close> Cons.prems show ?thesis by simp
  next
    case False
    then have no: "\<not> P x" and rest: "filter P xs = [d]" using Cons.prems(1) by (auto split: if_splits)
    then have "d \<in> set xs" by (metis filter_set list.set_intros(1) mem_Collect_eq set_filter)
    then have "dc_id x \<noteq> dc_id d" using Cons.prems(2) by force
    with no rest Cons show ?thesis by simp
  qed
qed simp

lemma owned_ticket_data [simp]: "owned_by cn pid type (identified (ticket_data cn pid t bytes) i v) \<longleftrightarrow> type = tk_type t"
  by (auto simp: owned_by_def ticket_data_def)

lemma finalize_replaces:
  assumes f: "finalize_run cn env credential i j v a now st pid = Inr (response, s')" and ok: "history_ok nt st"
  shows "\<exists>t t' bytes previous. ticket cn st pid i = Inr t \<and> fetched cn t = Inr t' \<and> ticket_bytes cn t' = Inr bytes \<and> tk_issued t \<le> now \<and> now < tk_expires t \<and> current_document cn st pid (tk_type t) = Inr previous
    \<and> map_option dc_version previous = tk_expected t \<and> int (length bytes) = tk_size t
    \<and> validateCandidateContent (cn_inflate cn) (tk_type t) (tk_mime t) bytes
    \<and> (let d = identified (ticket_data cn pid t bytes) (case previous of None \<Rightarrow> j | Some p \<Rightarrow> dc_id p) v
       in ds_documents s' = (case previous of None \<Rightarrow> ds_documents st @ [d] | Some p \<Rightarrow> update_first (\<lambda>y. dc_id y = dc_id p) (\<lambda>_. d) (ds_documents st))
          \<and> ds_retired s' = ds_retired st @ (case previous of None \<Rightarrow> [] | Some p \<Rightarrow> [p])
          \<and> lf_cleanup (journal s') = lf_cleanup (journal (case previous of None \<Rightarrow> st | Some p \<Rightarrow> enqueue_cleanup now p st)))"
proof -
  from f obtain t t' bytes previous m s where t: "ticket cn st pid i = Inr t" "tk_issued t \<le> now" "now < tk_expires t" "filled t t'" and at: "fetched cn t = Inr t'"
      and b: "ticket_bytes cn t' = Inr bytes"
      and cur: "current_document cn st pid (tk_type t) = Inr previous" "map_option dc_version previous = tk_expected t"
      and prim: "(case previous of Some d \<Rightarrow> replace_document (primitive cn) env env credential (Some (JStr (dc_id d))) (Some (ticket_input cn pid t' bytes)) v (set_ticket i (\<lambda>_. t') st)
        | None \<Rightarrow> upload (primitive cn) env env credential (Some (ticket_input cn pid t' bytes)) j v (set_ticket i (\<lambda>_. t') st)) = Inr (m, s)"
      and s': "s' = add_audit cn a Finalized pid now (set_ticket i (\<lambda>_. committed_ticket t) (case previous of None \<Rightarrow> s | Some d \<Rightarrow> enqueue_cleanup now d s))"
    by (rule finalize_run_Inr) blast
  let ?s0 = "set_ticket i (\<lambda>_. t') st"
  have same: "ticket_data cn pid t' bytes = ticket_data cn pid t bytes" using filled_same [OF t(4)] by (simp add: ticket_data_def)
  have bytes: "int (length bytes) = tk_size t" "validateCandidateContent (cn_inflate cn) (tk_type t) (tk_mime t) bytes"
    using ticket_bytes_Inr [OF b] filled_same [OF t(4)] by auto
  have life: "ds_lifecycle s = ds_lifecycle ?s0" using prim primitive_lifecycle by (cases previous) auto
  let ?d = "identified (ticket_data cn pid t bytes) (case previous of None \<Rightarrow> j | Some p \<Rightarrow> dc_id p) v"
  have docs: "ds_documents s = (case previous of None \<Rightarrow> ds_documents st @ [?d] | Some p \<Rightarrow> update_first (\<lambda>y. dc_id y = dc_id p) (\<lambda>_. ?d) (ds_documents st))
      \<and> ds_retired s = ds_retired st @ (case previous of None \<Rightarrow> [] | Some p \<Rightarrow> [p])"
  proof (cases previous)
    case None
    from prim show ?thesis by (rule finalize_stores) (simp add: None same)
  next
    case (Some p)
    have p: "p \<in> set (ds_documents st)" using current_document_at cur(1) Some by blast
    have find_p: "find (\<lambda>x. dc_id x = dc_id p) (ds_documents st) = Some p"
      using p ok by (intro find_unique) (simp_all add: history_ok_def state_ok_def)
    from prim show ?thesis
    proof (rule finalize_stores)
      fix identity k
      assume "case previous of None \<Rightarrow> upload_body (primitive cn) env (Some (ticket_input cn pid t' bytes)) j v identity ?s0 = Inr (m, s)
          \<and> s = ?s0\<lparr>ds_documents := ds_documents ?s0 @ [identified (ticket_data cn pid t' bytes) j v]\<rparr>
       | Some d \<Rightarrow> replace_body (primitive cn) env (Some (JStr (dc_id d))) (Some (ticket_input cn pid t' bytes)) v identity ?s0 = Inr (m, s)
          \<and> (\<exists>x. find_document (primitive cn) env identity ?s0 (Some (JStr (dc_id d))) = Inr x \<and> dc_id x = dc_id d
             \<and> s = ?s0\<lparr>ds_retired := ds_retired ?s0 @ [x],
                 ds_documents := update_first (\<lambda>y. dc_id y = dc_id d) (\<lambda>_. identified (ticket_data cn pid t' bytes) (dc_id d) v) (ds_documents ?s0)\<rparr>)"
      then obtain x where x: "find_document (primitive cn) env identity ?s0 (Some (JStr (dc_id p))) = Inr x" "dc_id x = dc_id p"
        and s: "s = ?s0\<lparr>ds_retired := ds_retired ?s0 @ [x],
                 ds_documents := update_first (\<lambda>y. dc_id y = dc_id p) (\<lambda>_. identified (ticket_data cn pid t' bytes) (dc_id p) v) (ds_documents ?s0)\<rparr>"
        by (auto simp: Some)
      have "find (\<lambda>z. dc_id z = dc_id x) (ds_documents st) = Some x" using x(1) by (auto elim: find_document_Inr)
      then have "Some p = Some x" unfolding x(2) find_p .
      then have "x = p" by (simp only: option.inject)
      then show ?thesis by (simp add: s Some same)
    qed
  qed
  have queue: "lf_cleanup (journal s') = lf_cleanup (journal (case previous of None \<Rightarrow> st | Some p \<Rightarrow> enqueue_cleanup now p st))"
  proof -
    have js: "journal s = journal ?s0" using life by (simp add: journal_def)
    show ?thesis by (cases previous) (simp_all add: s' add_audit_def set_ticket_def enqueue_cleanup_def js Let_def)
  qed
  have same_docs: "ds_documents s' = ds_documents s" "ds_retired s' = ds_retired s" by (cases previous; simp add: s')+
  note docs = docs [folded same_docs]
  show ?thesis unfolding Let_def
    by (intro exI conjI, rule t(1), rule at, rule b, rule t(2), rule t(3), rule cur(1), rule cur(2), rule bytes(1), rule bytes(2),
        rule docs [THEN conjunct1], rule docs [THEN conjunct2], rule queue)
qed

lemma finalize_mutation:
  assumes "finalize cn before during credential key (Some b) j v a n0 now st = (r, st')" "json_get b ''uploadId'' = Some (JStr i)"
  shows "(isl r \<and> st' = st) \<or> mutation cn before during credential key ''finalize'' b
    \<lparr>mb_run = finalize_run cn during credential i j v a now, mb_preflight = no_preflight\<rparr> n0 now st = (r, st')"
  using assms by (cases "request_body (Some b) [''uploadId'']") (auto simp: finalize_def request_body_def life_invalid_def split: if_splits)

text \<open>C8. A finalization that stores an answer commits its ticket, in its time and only where the
  document the ticket was issued against is still the current one: the checked bytes become the
  candidate's one current document of the type. No later finalization of the ticket, by anyone and
  with any key, changes the store.\<close>

theorem upload_ticket_commits_once:
  assumes cn: "candidate_ok cn" and reach: "history_reaches cn empty_documents st"
    and first: "finalize cn before during credential key (Some b) j v a n0 now st = (Inr r, st1)" "json_get b ''uploadId'' = Some (JStr i)"
    and stored: "lf_receipts (journal st1) \<noteq> lf_receipts (journal st)"
    and later: "history_reaches cn st1 st2"
    and second: "finalize cn before2 during2 credential2 key2 (Some b2) j2 v2 a2 n2 now2 st2 = (r2, st3)" "json_get b2 ''uploadId'' = Some (JStr i)"
  shows "st3 = st2 \<and> (\<exists>pid t t' bytes previous. candidate_principal cn during credential = Inr pid \<and> ticket cn st pid i = Inr t
    \<and> fetched cn t = Inr t' \<and> ticket_bytes cn t' = Inr bytes \<and> tk_issued t \<le> now \<and> now < tk_expires t \<and> current_document cn st pid (tk_type t) = Inr previous \<and> map_option dc_version previous = tk_expected t
    \<and> int (length bytes) = tk_size t \<and> validateCandidateContent (cn_inflate cn) (tk_type t) (tk_mime t) bytes
    \<and> current_document cn st1 pid (tk_type t)
        = Inr (Some (identified (ticket_data cn pid t bytes) (case previous of None \<Rightarrow> j | Some p \<Rightarrow> dc_id p) v)))"
proof -
  have h: "history_ok (do_number (cn_config cn)) st" using history_reaches_ok [OF reach cn empty_history] by simp
  from finalize_mutation [OF first] have m: "mutation cn before during credential key ''finalize'' b
    \<lparr>mb_run = finalize_run cn during credential i j v a now, mb_preflight = no_preflight\<rparr> n0 now st = (Inr r, st1)" by auto
  from m obtain pid s' rc where run: "candidate_principal cn during credential = Inr pid"
      "finalize_run cn during credential i j v a now (with_journal id st) pid = Inr (r, s')" "st1 = add_receipt rc s'"
    by (cases rule: mutation_cases) (use stored in auto)
  from finalize_commits [OF run(2)] have "committed st1 i" using grows_receipt [of s' rc] run(3) by (simp add: grows_def)
  then have c2: "committed st2 i" using history_reaches_grows [OF later] by (simp add: grows_def)
  have "ds_lifecycle st2 \<noteq> None" using history_reaches_grows [OF later] run(3) by (simp add: grows_def)
  note same2 = with_journal_same [OF this]
  have "st3 = st2"
  proof (cases "isl r2 \<and> st3 = st2")
    case False
    with finalize_mutation [OF second] have "mutation cn before2 during2 credential2 key2 ''finalize'' b2
      \<lparr>mb_run = finalize_run cn during2 credential2 i j2 v2 a2 now2, mb_preflight = no_preflight\<rparr> n2 now2 st2 = (r2, st3)" by auto
    then show ?thesis
    proof (cases rule: mutation_cases)
      case (executed pid k digits response s')
      then show ?thesis using finalize_commits c2 same2 by (metis mutation_body.select_convs(1))
    qed (use same2 in auto)
  qed simp
  moreover
  from finalize_replaces [OF run(2) open_journal_history [OF h]] obtain t t' bytes previous where
      t: "ticket cn (with_journal id st) pid i = Inr t" "fetched cn t = Inr t'" "ticket_bytes cn t' = Inr bytes" "tk_issued t \<le> now" "now < tk_expires t"
      "current_document cn (with_journal id st) pid (tk_type t) = Inr previous" "map_option dc_version previous = tk_expected t" "int (length bytes) = tk_size t"
      "validateCandidateContent (cn_inflate cn) (tk_type t) (tk_mime t) bytes"
      and docs: "ds_documents s' = (case previous of None \<Rightarrow> ds_documents st @ [identified (ticket_data cn pid t bytes) j v]
         | Some p \<Rightarrow> update_first (\<lambda>y. dc_id y = dc_id p) (\<lambda>_. identified (ticket_data cn pid t bytes) (dc_id p) v) (ds_documents st))"
    by (auto simp: Let_def split: option.splits)
  have "filter (owned_by cn pid (tk_type t)) (ds_documents s') = [identified (ticket_data cn pid t bytes) (case previous of None \<Rightarrow> j | Some p \<Rightarrow> dc_id p) v]"
    using current_document_Inr [OF t(6)] docs h by (cases previous) (auto simp: history_ok_def state_ok_def intro: filter_update_first)
  then have "current_document cn st1 pid (tk_type t) = Inr (Some (identified (ticket_data cn pid t bytes) (case previous of None \<Rightarrow> j | Some p \<Rightarrow> dc_id p) v))"
    by (simp add: current_document_def run(3))
  moreover have "ticket cn st pid i = Inr t" "current_document cn st pid (tk_type t) = Inr previous"
    using t(1,6) by (simp_all add: ticket_def current_document_def)
  ultimately show ?thesis using run(1) t by blast
qed

section \<open>A stored answer is the only answer\<close>

datatype candidate_call = Authorize_upload "json option" string | Put_bytes string string string string
  | Finalize_upload "json option" string string string | Remove_current "json option" string

fun call :: "candidate_config \<Rightarrow> document_env \<Rightarrow> document_env \<Rightarrow> json option \<Rightarrow> string option \<Rightarrow> candidate_call \<Rightarrow> int \<Rightarrow> int \<Rightarrow> document_state
    \<Rightarrow> (life_error + stored_response) \<times> document_state" where
  "call cn before during credential key (Authorize_upload input i) = authorizeUpload cn before during credential key input i"
| "call cn before during credential key (Put_bytes i objectKey uploadCredential bytes) = put_bytes cn before during credential key i objectKey uploadCredential bytes"
| "call cn before during credential key (Finalize_upload input j v a) = finalize cn before during credential key input j v a"
| "call cn before during credential key (Remove_current input a) = remove_candidate cn before during credential key input a"

definition run_same :: "document_state \<Rightarrow> life_error + (stored_response \<times> document_state) \<Rightarrow> bool" where
  "run_same st r \<longleftrightarrow> (case r of Inl e \<Rightarrow> True | Inr (response, s) \<Rightarrow> lf_receipts (journal s) = lf_receipts (journal st))"

lemma authorize_same: "run_same st (authorize_run cn i type mime n expected digests now st pid)"
  by (cases "authorize_run cn i type mime n expected digests now st pid") (auto simp: run_same_def elim!: authorize_run_Inr)

lemma put_same: "run_same st (put_run cn i bytes now st pid)"
  by (cases "put_run cn i bytes now st pid") (auto simp: run_same_def elim!: put_run_Inr)

lemma finalize_same: "run_same st (finalize_run cn env credential i j v a now st pid)"
proof (cases "finalize_run cn env credential i j v a now st pid")
  case (Inr r)
  obtain response s' where r: "r = (response, s')" by force
  from Inr [unfolded r] show ?thesis
  proof (rule finalize_run_Inr)
    fix t t' bytes previous m s
    assume prim: "(case previous of Some d \<Rightarrow> replace_document (primitive cn) env env credential (Some (JStr (dc_id d))) (Some (ticket_input cn pid t' bytes)) v (set_ticket i (\<lambda>_. t') st)
        | None \<Rightarrow> upload (primitive cn) env env credential (Some (ticket_input cn pid t' bytes)) j v (set_ticket i (\<lambda>_. t') st)) = Inr (m, s)"
      and s': "s' = add_audit cn a Finalized pid now (set_ticket i (\<lambda>_. committed_ticket t) (case previous of None \<Rightarrow> s | Some d \<Rightarrow> enqueue_cleanup now d s))"
    have "ds_lifecycle s = ds_lifecycle (set_ticket i (\<lambda>_. t') st)" using prim primitive_lifecycle by (cases previous) auto
    then have "journal s = journal (set_ticket i (\<lambda>_. t') st)" by (simp add: journal_def)
    then show ?thesis by (cases previous) (simp_all add: run_same_def Inr r s')
  qed
qed (simp add: run_same_def)

lemma remove_same: "run_same st (remove_run cn env credential type expected a now st pid)"
proof (cases "remove_run cn env credential type expected a now st pid")
  case (Inr r)
  obtain response s where r: "r = (response, s)" by force
  from Inr [unfolded r] show ?thesis
  proof (rule remove_run_Inr)
    fix d s1
    assume "remove_document (primitive cn) env env credential (Some (JStr (dc_id d))) st = Inr ((), s1)"
      and s: "s = add_audit cn a Removed_document pid now (enqueue_cleanup now d s1)"
    then have "journal s1 = journal st" using primitive_lifecycle(3) by (simp add: journal_def)
    then show ?thesis by (simp add: run_same_def Inr r s)
  qed
qed (simp add: run_same_def)

lemma call_mutation:
  assumes "call cn before during credential key c n0 now st = (r, st')"
  shows "(isl r \<and> st' = st) \<or> (\<exists>oper payload body. mutation cn before during credential key oper payload body n0 now st = (r, st')
    \<and> (\<forall>s pid. run_same s (mb_run body s pid)))"
proof (cases c)
  case (Authorize_upload input i)
  show ?thesis
  proof (cases "upload_request cn input")
    case (Inr q)
    obtain b type mime n expected digests where q: "q = (b, type, mime, n, expected, digests)" by (cases q) auto
    from assms show ?thesis unfolding Authorize_upload call.simps authorizeUpload_def Inr q
      by (intro disjI2 exI conjI) (assumption | simp add: authorize_same)+
  qed (use assms Authorize_upload in \<open>auto simp: authorizeUpload_def\<close>)
next
  case (Put_bytes i objectKey uploadCredential bytes)
  from assms show ?thesis unfolding Put_bytes call.simps put_bytes_def by (intro disjI2 exI conjI) (assumption | simp add: put_same)+
next
  case (Finalize_upload input j v a)
  show ?thesis
  proof (cases "\<exists>b i. request_body input [''uploadId''] = Inr b \<and> json_get b ''uploadId'' = Some (JStr i)")
    case True
    then obtain b i where b: "request_body input [''uploadId''] = Inr b" "json_get b ''uploadId'' = Some (JStr i)" by blast
    have "mutation cn before during credential key ''finalize'' b
         \<lparr>mb_run = finalize_run cn during credential i j v a now, mb_preflight = no_preflight\<rparr> n0 now st = (r, st')"
      using assms b by (simp add: Finalize_upload finalize_def)
    then show ?thesis by (intro disjI2 exI conjI) (assumption | simp add: finalize_same)+
  next
    case False
    then have "isl r \<and> st' = st" using assms
      by (auto simp: Finalize_upload finalize_def life_invalid_def split: sum.splits option.splits json.splits)
    then show ?thesis ..
  qed
next
  case (Remove_current input a)
  let ?parse = "bind_result (request_body input [''type'', ''expectedVersion'']) (\<lambda>b.
           bind_result (document_kind (json_get b ''type'')) (\<lambda>type.
           bind_result (version_of (json_get b ''expectedVersion'')) (\<lambda>expected. Inr (b, type, expected))))"
  show ?thesis
  proof (cases ?parse)
    case (Inl e)
    with assms show ?thesis by (auto simp: Remove_current remove_candidate_def)
  next
    case (Inr q)
    obtain b type expected where q: "q = (b, type, expected)" by (cases q) auto
    from assms show ?thesis unfolding Remove_current call.simps remove_candidate_def Inr q sum.case prod.case
      by (intro disjI2 exI conjI) (assumption | simp add: remove_same)+
  qed
qed

lemma receipt_at_with_journal [simp]: "receipt_at (with_journal id st) k p = receipt_at st k p"
  by (simp add: receipt_at_def)

lemma receipt_at_grows: "grows st st' \<Longrightarrow> receipt_at st k p = Some rc \<Longrightarrow> receipt_at st' k p = Some rc"
  by (auto simp: grows_def receipt_at_def find_append_Some)

lemma find_none_append: "find P xs = None \<Longrightarrow> P x \<Longrightarrow> find P (xs @ [x]) = Some x"
  by (induction xs) (auto split: if_splits)

text \<open>C9. Once a call of a principal is answered under a key, every later call of that principal under
  that key, whatever it asks for and in whatever state, leaves the store alone and is answered with
  the stored response or refused.\<close>

theorem stored_answer_is_final:
  assumes first: "call cn before during credential (Some k) c n0 now st = (Inr r, st1)" "candidate_principal cn before credential = Inr pid"
    and later: "history_reaches cn st1 st2"
    and second: "call cn before2 during2 credential2 (Some k2) c2 n2 now2 st2 = (r2, st3)" "candidate_principal cn before2 credential2 = Inr pid"
    and same: "map js_lower k2 = map js_lower k"
  shows "st3 = st2 \<and> (isl r2 \<or> r2 = Inr r)"
proof -
  from call_mutation [OF first(1)] obtain oper payload body where
      m: "mutation cn before during credential (Some k) oper payload body n0 now st = (Inr r, st1)" and frame: "\<forall>s pid. run_same s (mb_run body s pid)" by auto
  have "\<exists>rc. receipt_at st1 (map js_lower k) (cn_sha cn (utf8 pid)) = Some rc \<and> rc_response rc = r \<and> ds_lifecycle st1 \<noteq> None"
    using m
  proof (cases rule: mutation_cases)
    case (replayed pid' k' digits old)
    then show ?thesis using first(2) by auto
  next
    case (executed pid' k' digits response s')
    have p: "pid' = pid" "k' = k" "response = r" using executed first(2) by simp_all
    let ?rc = "receipt_for (mutation_input cn pid k oper payload digits) r"
    have "lf_receipts (journal s') = lf_receipts (journal st)" using frame executed(10) by (force simp: run_same_def split: sum.splits)
    moreover have "rc_key ?rc = map js_lower k" "rc_principal ?rc = cn_sha cn (utf8 pid)" "rc_response ?rc = r"
      by (simp_all add: receipt_for_def mutation_input_def mutation_request_of_def)
    moreover have "find (\<lambda>r. rc_key r = map js_lower k \<and> rc_principal r = cn_sha cn (utf8 pid)) (lf_receipts (journal st)) = None"
      using executed(9) by (simp add: receipt_at_def p)
    ultimately have "find (\<lambda>r. rc_key r = map js_lower k \<and> rc_principal r = cn_sha cn (utf8 pid)) (lf_receipts (journal s') @ [?rc]) = Some ?rc"
      by (intro find_none_append) simp_all
    then have "receipt_at st1 (map js_lower k) (cn_sha cn (utf8 pid)) = Some ?rc"
      unfolding receipt_at_def executed(11) p by (simp add: add_receipt_def)
    then show ?thesis using executed(11) \<open>rc_response ?rc = r\<close> by auto
  qed simp
  then obtain rc where rc: "receipt_at st1 (map js_lower k) (cn_sha cn (utf8 pid)) = Some rc" "rc_response rc = r" "ds_lifecycle st1 \<noteq> None" by blast
  note g = history_reaches_grows [OF later]
  have rc2: "receipt_at st2 (map js_lower k2) (cn_sha cn (utf8 pid)) = Some rc" using receipt_at_grows [OF g rc(1)] same by simp
  have "ds_lifecycle st2 \<noteq> None" using g rc(3) by (simp add: grows_def)
  note open2 = with_journal_same [OF this]
  from call_mutation [OF second(1)] show ?thesis
  proof (elim disjE exE conjE)
    fix oper2 payload2 body2
    assume "mutation cn before2 during2 credential2 (Some k2) oper2 payload2 body2 n2 now2 st2 = (r2, st3)"
    then show ?thesis
    proof (cases rule: mutation_cases)
      case (executed pid' k' digits response s')
      then show ?thesis using rc2 second(2) by simp
    qed (use open2 rc2 rc(2) second(2) in auto)
  qed simp
qed

end
