(* ===== verification/Ticket_Demo.thy ===== *)
theory Ticket_Demo
  imports Document_Tickets
begin

declare map_of_eq_Some_iff [simp del] Some_eq_map_of_iff [simp del]

text \<open>
  Candidate documents, a concrete history: an upload is authorized, its bytes are put, it is
  finalized, and finalized again under another key.
\<close>

section \<open>A call that runs\<close>

lemma atomic_runs:
  assumes "safe_count now" "\<not> date_reached now (ai_expires i)" "candidate_principal cn env credential = Inr pid"
    and "mb_preflight body (with_journal id st) pid = Inr ()" "receipt_at st (ai_key i) (ai_principal i) = None"
    and "mb_run body (with_journal id st) pid = Inr (response, s')"
  shows "candidate_atomic cn env credential pid body now (st, None) i operation = ((add_receipt (receipt_for i response) s', None), Some (Executed response))"
  using assms by (simp add: candidate_atomic_def candidate_now_def Let_def receipt_at_def add_receipt_def receipt_for_def)

lemma mutation_runs:
  assumes pid: "candidate_principal cn before credential = Inr pid" "candidate_principal cn during credential = Inr pid"
    and clock: "safe_count n0" "js_date n0 = Some n0" "safe_count now"
    and key: "key_time k = Some digits" "k \<noteq> []" "int (read_nat digits) \<le> n0 + io_skew default_options" "n0 < int (read_nat digits) + io_retention default_options"
    and live: "\<not> date_reached now (js_date (int (read_nat digits) + io_retention default_options))"
    and valid: "requestIsValid (mutation_request_of cn pid (Some k) oper payload)"
    and run: "mb_preflight body (with_journal id st) pid = Inr ()" "receipt_at st (map js_lower k) (cn_sha cn (utf8 pid)) = None"
      "mb_run body (with_journal id st) pid = Inr (response, s')"
  shows "mutation cn before during credential (Some k) oper payload body n0 now st
    = (Inr response, add_receipt (receipt_for (mutation_input cn pid k oper payload digits) response) s')"
proof -
  let ?i = "mutation_input cn pid k oper payload digits" and ?req = "mutation_request_of cn pid (Some k) oper payload"
  have i: "ai_expires ?i = js_date (int (read_nat digits) + io_retention default_options)" "ai_key ?i = map js_lower k" "ai_principal ?i = cn_sha cn (utf8 pid)"
    by (simp_all add: mutation_input_def mutation_request_of_def input_of_def)
  have at: "candidate_atomic cn during credential pid body now (st, None) ?i ([], None) = ((add_receipt (receipt_for ?i response) s', None), Some (Executed response))"
    using clock pid run live by (intro atomic_runs) (simp_all add: i)
  have inp: "\<lparr>ai_principal = mr_principal ?req, ai_key = map js_lower k, ai_fingerprint = mutationFingerprint (fingerprint_hash cn) ?req,
      ai_expires = js_date (int (read_nat digits) + io_retention default_options)\<rparr> = ?i"
    by (simp add: mutation_input_def input_of_def)
  have k: "mr_key ?req = Some k" by (simp add: mutation_request_of_def)
  have "execute (fingerprint_hash cn) default_options (candidate_atomic cn during credential pid body now) (js_date n0) (st, None) ?req ([], None)
      = ((add_receipt (receipt_for ?i response) s', None), Done False response)"
  proof -
    have no: "\<not> n0 + io_skew default_options < int (read_nat digits)" "\<not> int (read_nat digits) + io_retention default_options \<le> n0" using key by simp_all
    show ?thesis using key valid clock no unfolding execute_def k Let_def by (simp only: inp at option.case if_False prod.case atomic_outcome.case simp_thms)
  qed
  then show ?thesis using pid(1) clock(1) by (simp add: mutation_def)
qed

section \<open>The history\<close>

definition demo_key :: "char \<Rightarrow> string" where
  "demo_key c = ''v1.0000000000000.'' @ demo_id c"

lemma demo_keys: "key_time (demo_key CHR ''1'') = Some (replicate 13 CHR ''0'')" "key_time (demo_key CHR ''2'') = Some (replicate 13 CHR ''0'')"
  "key_time (demo_key CHR ''3'') = Some (replicate 13 CHR ''0'')" "key_time (demo_key CHR ''4'') = Some (replicate 13 CHR ''0'')"
  by code_simp+

lemma demo_key_distinct: "map js_lower (demo_key CHR ''1'') \<noteq> map js_lower (demo_key CHR ''2'')" "map js_lower (demo_key CHR ''1'') \<noteq> map js_lower (demo_key CHR ''3'')"
  "map js_lower (demo_key CHR ''2'') \<noteq> map js_lower (demo_key CHR ''3'')"
  by code_simp+

lemma demo_zero: "read_nat (replicate 13 CHR ''0'') = 0"
  by code_simp

lemma demo_who: "candidate_principal demo_candidates demo_env (Some (JStr ''c'')) = Inr ''p''"
  by (simp add: candidate_principal_def presented_def demo_env_def demo_candidates_def resolvePrincipalId_def)

lemma demo_request_valid:
  "isJsonValue payload \<Longrightarrow> route_ok (mutation_route oper) \<Longrightarrow> requestIsValid (mutation_request_of demo_candidates ''p'' (Some k) oper payload)"
  by (simp add: requestIsValid_def mutation_request_of_def demo_candidates_def reference_ok_def list_all_iff hex_char_def digit_char_def)

lemma demo_routes: "route_ok (mutation_route ''authorize'')" "route_ok (mutation_route ''bytes'')" "route_ok (mutation_route ''finalize'')"
  by code_simp+

lemma demo_options: "io_skew default_options = 300000" "io_retention default_options = 604800000"
  by (simp_all add: default_options_def DEFAULT_IDEMPOTENCY_FUTURE_SKEW_MS_def DEFAULT_IDEMPOTENCY_RETENTION_MS_def)

lemma demo_runs:
  assumes "key_time k = Some (replicate 13 CHR ''0'')" "isJsonValue payload" "route_ok (mutation_route oper)"
    and "mb_preflight body (with_journal id st) ''p'' = Inr ()" "receipt_at st (map js_lower k) (replicate 64 CHR ''0'') = None"
    and "mb_run body (with_journal id st) ''p'' = Inr (response, s')"
  shows "mutation demo_candidates demo_env demo_env (Some (JStr ''c'')) (Some k) oper payload body 0 0 st
    = (Inr response, add_receipt (receipt_for (mutation_input demo_candidates ''p'' k oper payload (replicate 13 CHR ''0'')) response) s')"
proof (rule mutation_runs [OF demo_who demo_who])
  show "k \<noteq> []" using assms(1) by (auto simp: key_time_def)
  show "receipt_at st (map js_lower k) (cn_sha demo_candidates (utf8 ''p'')) = None" using assms(5) by (simp add: demo_candidates_def)
qed (use assms in \<open>simp_all add: demo_request_valid demo_zero demo_options js_date_def safe_count_def MAX_SAFE_def date_reached_def\<close>)

definition demo_request :: json where
  "demo_request = JObj [(''type'', JStr ''personal-photo''), (''mime'', JStr ''image/jpeg''), (''size'', js_int 26), (''expectedVersion'', JNull)]"

definition demo_finalize :: json where
  "demo_finalize = JObj [(''uploadId'', JStr (demo_id CHR ''3''))]"

definition demo_ticket :: upload_ticket where
  "demo_ticket = new_ticket demo_candidates (demo_id CHR ''3'') ''p'' ''personal-photo'' ''image/jpeg'' 26 None None 0"

definition demo_authorized_state :: document_state where
  "demo_authorized_state = snd (authorizeUpload demo_candidates demo_env demo_env (Some (JStr ''c'')) (Some (demo_key CHR ''1'')) (Some demo_request) (demo_id CHR ''3'') 0 0 empty_documents)"

definition demo_put_state :: document_state where
  "demo_put_state = snd (put_bytes demo_candidates demo_env demo_env (Some (JStr ''c'')) (Some (demo_key CHR ''2'')) (demo_id CHR ''3'')
     (''uploads/'' @ demo_id CHR ''3'') (upload_token demo_candidates demo_ticket) demo_jpeg 0 0 demo_authorized_state)"

definition demo_final :: document_state where
  "demo_final = snd (finalize demo_candidates demo_env demo_env (Some (JStr ''c'')) (Some (demo_key CHR ''3'')) (Some demo_finalize)
     (demo_id CHR ''1'') (demo_id CHR ''2'') (demo_id CHR ''4'') 0 0 demo_put_state)"

lemma demo_upload_request: "upload_request demo_candidates (Some demo_request) = Inr (demo_request, ''personal-photo'', ''image/jpeg'', 26, None, None)"
  by (simp add: upload_request_def request_body_def demo_request_def document_kind_def CANDIDATE_DOCUMENT_TYPES_def version_of_def demo_candidates_def
      CANDIDATE_DOCUMENT_ADMISSION_def is_text_def text_of_def positiveInteger_def int_of_def js_int_def Js_Values.safe_integer_def MAX_SAFE_def)


lemma demo_sha: "cn_sha demo_candidates s = replicate 64 CHR ''0''" "cn_direct demo_candidates = None" "cn_org demo_candidates = ''root''" "cn_config demo_candidates = demo_config"
  by (simp_all add: demo_candidates_def)

lemma receipt_at_add: "receipt_at (add_receipt rc st) k p = None \<longleftrightarrow> receipt_at st k p = None \<and> \<not> (rc_key rc = k \<and> rc_principal rc = p)"
  by (auto simp: receipt_at_def add_receipt_def find_None_iff)

lemma demo_receipt_key: "rc_key (receipt_for (mutation_input cn pid k oper payload digits) response) = map js_lower k"
  by (simp add: receipt_for_def mutation_input_def mutation_request_of_def input_of_def)

lemma demo_authorize:
  "\<exists>rc response. authorizeUpload demo_candidates demo_env demo_env (Some (JStr ''c'')) (Some (demo_key CHR ''1'')) (Some demo_request) (demo_id CHR ''3'') 0 0 empty_documents
      = (Inr response, demo_authorized_state)
    \<and> demo_authorized_state = add_receipt rc (with_journal (\<lambda>l. l\<lparr>lf_uploads := [demo_ticket]\<rparr>) empty_documents) \<and> rc_key rc = map js_lower (demo_key CHR ''1'')"
proof -
  have run: "authorize_run demo_candidates (demo_id CHR ''3'') ''personal-photo'' ''image/jpeg'' 26 None None 0 (with_journal id empty_documents) ''p''
      = Inr (authorize_response demo_candidates demo_ticket None, with_journal (\<lambda>l. l\<lparr>lf_uploads := [demo_ticket]\<rparr>) empty_documents)"
    by (simp add: authorize_run_def current_document_def candidate_now_def safe_count_def MAX_SAFE_def demo_sha demo_ticket_def empty_documents_def with_journal_def journal_def
        emptyLifecycleState_def Let_def)
  have none: "receipt_at empty_documents k p = None" for k p by (simp add: receipt_at_def empty_documents_def journal_def emptyLifecycleState_def)
  have demo_json: "isJsonValue demo_request" by (simp add: demo_request_def js_int_def)
  let ?rc = "receipt_for (mutation_input demo_candidates ''p'' (demo_key CHR ''1'') ''authorize'' demo_request (replicate 13 CHR ''0'')) (authorize_response demo_candidates demo_ticket None)"
  have "authorizeUpload demo_candidates demo_env demo_env (Some (JStr ''c'')) (Some (demo_key CHR ''1'')) (Some demo_request) (demo_id CHR ''3'') 0 0 empty_documents
      = (Inr (authorize_response demo_candidates demo_ticket None), add_receipt ?rc (with_journal (\<lambda>l. l\<lparr>lf_uploads := [demo_ticket]\<rparr>) empty_documents))"
    unfolding authorizeUpload_def demo_upload_request sum.case prod.case
    by (rule demo_runs [OF demo_keys(1) _ demo_routes(1)])
      (simp_all only: mutation_body.select_convs run no_preflight_def none demo_json)
  then show ?thesis unfolding demo_authorized_state_def using demo_receipt_key by (intro exI [of _ ?rc] exI) (simp only: snd_conv simp_thms)
qed


lemma demo_authorized_reads: "ds_documents demo_authorized_state = []" "lf_uploads (journal demo_authorized_state) = [demo_ticket]"
  "receipt_at demo_authorized_state (map js_lower (demo_key CHR ''2'')) p = None" "receipt_at demo_authorized_state (map js_lower (demo_key CHR ''3'')) p = None"
proof -
  from demo_authorize obtain rc where st: "demo_authorized_state = add_receipt rc (with_journal (\<lambda>l. l\<lparr>lf_uploads := [demo_ticket]\<rparr>) empty_documents)"
      "rc_key rc = map js_lower (demo_key CHR ''1'')" by blast
  have none: "receipt_at (with_journal (\<lambda>l. l\<lparr>lf_uploads := [demo_ticket]\<rparr>) empty_documents) k p = None" for k
    by (simp add: receipt_at_def) (simp add: empty_documents_def journal_def emptyLifecycleState_def)
  show "receipt_at demo_authorized_state (map js_lower (demo_key CHR ''2'')) p = None" "receipt_at demo_authorized_state (map js_lower (demo_key CHR ''3'')) p = None"
    unfolding st(1) receipt_at_add none st(2) using demo_key_distinct by simp_all
  show "ds_documents demo_authorized_state = []" "lf_uploads (journal demo_authorized_state) = [demo_ticket]"
    by (simp_all add: st(1) add_receipt_def) (simp add: empty_documents_def)
qed

definition demo_filled :: upload_ticket where
  "demo_filled = demo_ticket\<lparr>tk_data := Some (b64_text demo_jpeg), tk_digest := Some (replicate 64 CHR ''0'')\<rparr>"

lemma demo_ticket_simps: "tk_id demo_ticket = demo_id CHR ''3''" "tk_objectKey demo_ticket = ''uploads/'' @ demo_id CHR ''3''" "tk_principal demo_ticket = ''p''"
  "tk_org demo_ticket = ''root''" "tk_issued demo_ticket = 0" "tk_expires demo_ticket = 60000" "tk_size demo_ticket = 26" "tk_type demo_ticket = ''personal-photo''"
  "tk_mime demo_ticket = ''image/jpeg''" "tk_committed demo_ticket = None" "tk_digest demo_ticket = None" "tk_expected demo_ticket = None" "tk_expectedDigest demo_ticket = None"
  by (simp_all add: demo_ticket_def new_ticket_def demo_sha)

lemma demo_live: "live_ticket 0 demo_ticket = Inr ()" "live_ticket 0 demo_filled = Inr ()"
  by (simp_all add: live_ticket_def candidate_now_def safe_count_def MAX_SAFE_def demo_ticket_simps demo_filled_def)

lemma demo_put:
  "\<exists>rc response. put_bytes demo_candidates demo_env demo_env (Some (JStr ''c'')) (Some (demo_key CHR ''2'')) (demo_id CHR ''3'')
      (''uploads/'' @ demo_id CHR ''3'') (upload_token demo_candidates demo_ticket) demo_jpeg 0 0 demo_authorized_state = (Inr response, demo_put_state)
    \<and> demo_put_state = add_receipt rc (with_journal (\<lambda>l. l\<lparr>lf_uploads := [demo_filled]\<rparr>) demo_authorized_state) \<and> rc_key rc = map js_lower (demo_key CHR ''2'')"
proof -
  let ?st = "with_journal id demo_authorized_state"
  have t: "ticket demo_candidates ?st ''p'' (demo_id CHR ''3'') = Inr demo_ticket" by (simp add: ticket_def demo_authorized_reads demo_ticket_simps demo_sha)
  have pre: "put_preflight demo_candidates (demo_id CHR ''3'') (''uploads/'' @ demo_id CHR ''3'') (upload_token demo_candidates demo_ticket) 0 ?st ''p'' = Inr ()"
    by (simp add: put_preflight_def t demo_live demo_ticket_simps)
  have set: "set_ticket (demo_id CHR ''3'') (\<lambda>t. t\<lparr>tk_data := Some (b64_text demo_jpeg), tk_digest := Some (replicate 64 CHR ''0'')\<rparr>) ?st
      = with_journal (\<lambda>l. l\<lparr>lf_uploads := [demo_filled]\<rparr>) demo_authorized_state"
    using demo_authorized_reads(2) by (simp add: set_ticket_def with_journal_def journal_def demo_filled_def demo_ticket_simps)
  have run: "put_run demo_candidates (demo_id CHR ''3'') demo_jpeg 0 ?st ''p'' = Inr (\<lparr>sr_status = 204, sr_headers = None, sr_body = None\<rparr>,
      with_journal (\<lambda>l. l\<lparr>lf_uploads := [demo_filled]\<rparr>) demo_authorized_state)"
    by (simp add: put_run_def t demo_live demo_ticket_simps demo_length demo_shapes demo_sha set [unfolded demo_sha])
  let ?p = "JObj [(''id'', JStr (demo_id CHR ''3'')), (''objectKey'', JStr (''uploads/'' @ demo_id CHR ''3'')),
      (''uploadCredential'', JStr (cn_sha demo_candidates (utf8 (upload_token demo_candidates demo_ticket)))), (''digest'', JStr (cn_sha demo_candidates demo_jpeg))]"
  let ?rc = "receipt_for (mutation_input demo_candidates ''p'' (demo_key CHR ''2'') ''bytes'' ?p (replicate 13 CHR ''0'')) \<lparr>sr_status = 204, sr_headers = None, sr_body = None\<rparr>"
  have "put_bytes demo_candidates demo_env demo_env (Some (JStr ''c'')) (Some (demo_key CHR ''2'')) (demo_id CHR ''3'')
      (''uploads/'' @ demo_id CHR ''3'') (upload_token demo_candidates demo_ticket) demo_jpeg 0 0 demo_authorized_state
    = (Inr \<lparr>sr_status = 204, sr_headers = None, sr_body = None\<rparr>, add_receipt ?rc (with_journal (\<lambda>l. l\<lparr>lf_uploads := [demo_filled]\<rparr>) demo_authorized_state))"
    unfolding put_bytes_def by (rule demo_runs [OF demo_keys(2) _ demo_routes(2)]) (simp_all only: mutation_body.select_convs run pre demo_authorized_reads, simp)
  then show ?thesis unfolding demo_put_state_def using demo_receipt_key by (intro exI [of _ ?rc] exI) (simp only: snd_conv simp_thms)
qed


lemma demo_put_reads: "ds_documents demo_put_state = []" "lf_uploads (journal demo_put_state) = [demo_filled]"
  "receipt_at demo_put_state (map js_lower (demo_key CHR ''3'')) p = None"
proof -
  from demo_put obtain rc where st: "demo_put_state = add_receipt rc (with_journal (\<lambda>l. l\<lparr>lf_uploads := [demo_filled]\<rparr>) demo_authorized_state)"
      "rc_key rc = map js_lower (demo_key CHR ''2'')" by blast
  have none: "receipt_at (with_journal (\<lambda>l. l\<lparr>lf_uploads := [demo_filled]\<rparr>) demo_authorized_state) (map js_lower (demo_key CHR ''3'')) p = None"
    using demo_authorized_reads(4) [of p] by (simp add: receipt_at_def)
  show "receipt_at demo_put_state (map js_lower (demo_key CHR ''3'')) p = None"
    unfolding st(1) receipt_at_add none st(2) using demo_key_distinct by simp
  show "ds_documents demo_put_state = []" "lf_uploads (journal demo_put_state) = [demo_filled]"
    by (simp_all add: st(1) add_receipt_def demo_authorized_reads)
qed

lemma demo_retired: "ds_retired demo_put_state = []"
proof -
  from demo_authorize obtain rc where a: "demo_authorized_state = add_receipt rc (with_journal (\<lambda>l. l\<lparr>lf_uploads := [demo_ticket]\<rparr>) empty_documents)" by blast
  from demo_put obtain rc' where p: "demo_put_state = add_receipt rc' (with_journal (\<lambda>l. l\<lparr>lf_uploads := [demo_filled]\<rparr>) demo_authorized_state)" by blast
  have "ds_retired demo_put_state = ds_retired empty_documents" unfolding p a add_receipt_def journal_with(3) ..
  then show ?thesis by (simp add: empty_documents_def)
qed

lemma demo_fresh: "fresh st (demo_id c)" if "uuid (demo_id c)" "everything st = []" "lf_uploads (journal st) = [] \<or> lf_uploads (journal st) = [t] \<and> tk_id t \<noteq> demo_id c"
  using that by (auto simp: fresh_def everything_def versions_def)

lemma demo_named: "named demo_candidates demo_env (Some (JStr ''c''))"
  using demo_who demo_names by (simp add: named_def)

lemma demo_reaches_put: "history_reaches demo_candidates empty_documents demo_put_state"
proof -
  from demo_authorize obtain r where a: "authorizeUpload demo_candidates demo_env demo_env (Some (JStr ''c'')) (Some (demo_key CHR ''1'')) (Some demo_request) (demo_id CHR ''3'') 0 0 empty_documents
      = (r, demo_authorized_state)" by blast
  have f: "fresh empty_documents (demo_id CHR ''3'')"
    by (rule demo_fresh [OF demo_ids(3)]) (simp_all add: everything_def empty_documents_def journal_def emptyLifecycleState_def)
  have "candidate_step demo_candidates empty_documents demo_authorized_state"
    by (rule authorizing [OF f demo_named _ a]) (simp add: MAX_SAFE_def)
  moreover from demo_put have "candidate_step demo_candidates demo_authorized_state demo_put_state" by (blast intro: putting)
  ultimately have "history_step demo_candidates empty_documents demo_authorized_state" "history_step demo_candidates demo_authorized_state demo_put_state"
    by (simp_all add: history_step_def)
  then show ?thesis unfolding history_reaches_def by (rule converse_rtranclp_into_rtranclp [OF _ r_into_rtranclp])
qed

lemma demo_put_ok: "history_ok (do_number demo_config) (with_journal id demo_put_state)"
  using history_reaches_ok [OF demo_reaches_put demo_candidates_ok empty_history] open_journal_history by (simp add: demo_number)

lemma demo_bytes: "fetched demo_candidates demo_filled = Inr demo_filled" "ticket_bytes demo_candidates demo_filled = Inr demo_jpeg"
proof -
  have "b64_text demo_jpeg \<noteq> []"
  proof
    assume "b64_text demo_jpeg = []"
    then have "b64_bytes (b64_text demo_jpeg) = b64_bytes (b64_text [])" by (simp add: b64_text_def)
    then show False using demo_length by (simp only: b64_bytes_text) simp
  qed
  then have p: "present (Some (b64_text demo_jpeg)) = Some (b64_text demo_jpeg)" by (cases "b64_text demo_jpeg") (simp_all add: present_def)
  have q: "present (Some (replicate 64 CHR ''0'')) = Some (replicate 64 CHR ''0'')" by (simp add: present_def numeral_eq_Suc)
  show "fetched demo_candidates demo_filled = Inr demo_filled" by (simp add: fetched_def demo_sha split: option.splits)
  show "ticket_bytes demo_candidates demo_filled = Inr demo_jpeg"
    by (simp add: ticket_bytes_def demo_filled_def p q demo_sha demo_shapes demo_length demo_ticket_simps)
qed

lemma demo_finalized:
  "\<exists>rc response. finalize demo_candidates demo_env demo_env (Some (JStr ''c'')) (Some (demo_key CHR ''3'')) (Some demo_finalize)
      (demo_id CHR ''1'') (demo_id CHR ''2'') (demo_id CHR ''4'') 0 0 demo_put_state = (Inr response, demo_final)
    \<and> lf_receipts (journal demo_final) = lf_receipts (journal demo_put_state) @ [rc]"
proof -
  let ?st = "with_journal id demo_put_state"
  have t: "ticket demo_candidates ?st ''p'' (demo_id CHR ''3'') = Inr demo_filled" 
    by (simp add: ticket_def demo_put_reads demo_filled_def demo_ticket_simps demo_sha)
  have cur: "current_document demo_candidates ?st ''p'' ''personal-photo'' = Inr None" by (simp add: current_document_def demo_put_reads)
  have same: "set_ticket (demo_id CHR ''3'') (\<lambda>_. demo_filled) ?st = ?st"
    using demo_put_reads(2) by (simp add: set_ticket_def with_journal_def journal_def demo_filled_def demo_ticket_simps)
  have ok: "state_ok (do_number (primitive demo_candidates)) ?st" using demo_put_ok by (simp add: history_ok_def primitive_def demo_sha)
  have own: "do_own (primitive demo_candidates) = Some ''root''" by (simp add: primitive_def demo_sha)
  have inp: "Some (ticket_input demo_candidates ''p'' demo_filled demo_jpeg) = demo_input"
    by (simp add: ticket_input_def demo_input_def demo_filled_def demo_ticket_simps demo_sha)
  obtain m s where up: "upload (primitive demo_candidates) demo_env demo_env (Some (JStr ''c'')) demo_input (demo_id CHR ''1'') (demo_id CHR ''2'') ?st = Inr (m, s)"
      "ds_lifecycle s = ds_lifecycle ?st"
    unfolding upload_def document_run_caller demo_caller [OF ok own] bind_result_simps upload_body_def demo_upload_of
    by (simp add: demo_authorized [OF own] Let_def)
  have not: "tk_committed demo_filled \<noteq> Some True" "tk_type demo_filled = ''personal-photo''" "tk_expected demo_filled = None"
    by (simp_all add: demo_filled_def demo_ticket_simps)
  obtain response s' where run: "finalize_run demo_candidates demo_env (Some (JStr ''c'')) (demo_id CHR ''3'') (demo_id CHR ''1'') (demo_id CHR ''2'') (demo_id CHR ''4'') 0 ?st ''p''
      = Inr (response, s')"
    unfolding finalize_run_def t bind_result_simps demo_live demo_bytes not cur option.case inp same up bound_def map_sum.simps
    using not by (simp add: Let_def)
  have "run_same ?st (Inr (response, s'))" using finalize_same run by metis
  then have frame: "lf_receipts (journal s') = lf_receipts (journal demo_put_state)" by (simp add: run_same_def)
  let ?rc = "receipt_for (mutation_input demo_candidates ''p'' (demo_key CHR ''3'') ''finalize'' demo_finalize (replicate 13 CHR ''0'')) response"
  have b: "request_body (Some demo_finalize) [''uploadId''] = Inr demo_finalize" "json_get demo_finalize ''uploadId'' = Some (JStr (demo_id CHR ''3''))" "isJsonValue demo_finalize"
    by (simp_all add: request_body_def demo_finalize_def)
  have "finalize demo_candidates demo_env demo_env (Some (JStr ''c'')) (Some (demo_key CHR ''3'')) (Some demo_finalize)
      (demo_id CHR ''1'') (demo_id CHR ''2'') (demo_id CHR ''4'') 0 0 demo_put_state = (Inr response, add_receipt ?rc s')"
    unfolding finalize_def b sum.case option.case json.case
    by (rule demo_runs [OF demo_keys(3) b(3) demo_routes(3)]) (simp_all only: mutation_body.select_convs no_preflight_def run demo_put_reads)
  then show ?thesis unfolding demo_final_def using frame by (intro exI [of _ ?rc] exI) (simp add: add_receipt_def)
qed


section \<open>Witnesses\<close>

theorem upload_ticket_commits_once_witness:
  "current_document demo_candidates demo_final ''p'' ''personal-photo'' = Inr (Some demo_document)
   \<and> snd (finalize demo_candidates demo_env demo_env (Some (JStr ''c'')) (Some (demo_key CHR ''4'')) (Some demo_finalize)
      (demo_id CHR ''5'') (demo_id CHR ''6'') (demo_id CHR ''7'') 1 1 demo_final) = demo_final"
proof -
  let ?again = "finalize demo_candidates demo_env demo_env (Some (JStr ''c'')) (Some (demo_key CHR ''4'')) (Some demo_finalize)
      (demo_id CHR ''5'') (demo_id CHR ''6'') (demo_id CHR ''7'') 1 1 demo_final"
  from demo_finalized obtain rc response where f: "finalize demo_candidates demo_env demo_env (Some (JStr ''c'')) (Some (demo_key CHR ''3'')) (Some demo_finalize)
      (demo_id CHR ''1'') (demo_id CHR ''2'') (demo_id CHR ''4'') 0 0 demo_put_state = (Inr response, demo_final)"
      "lf_receipts (journal demo_final) = lf_receipts (journal demo_put_state) @ [rc]" by blast
  have i: "json_get demo_finalize ''uploadId'' = Some (JStr (demo_id CHR ''3''))" by (simp add: demo_finalize_def)
  have new: "lf_receipts (journal demo_final) \<noteq> lf_receipts (journal demo_put_state)" unfolding f(2) by simp
  have stay: "history_reaches demo_candidates demo_final demo_final" by (simp add: history_reaches_def)
  have split: "?again = (fst ?again, snd ?again)" by simp
  from upload_ticket_commits_once [OF demo_candidates_ok demo_reaches_put f(1) i new stay split i] obtain pid t t' bytes previous where
      w: "snd ?again = demo_final" "candidate_principal demo_candidates demo_env (Some (JStr ''c'')) = Inr pid" "ticket demo_candidates demo_put_state pid (demo_id CHR ''3'') = Inr t"
        "current_document demo_candidates demo_put_state pid (tk_type t) = Inr previous" "fetched demo_candidates t = Inr t'" "ticket_bytes demo_candidates t' = Inr bytes"
        "current_document demo_candidates demo_final pid (tk_type t)
          = Inr (Some (identified (ticket_data demo_candidates pid t bytes) (case previous of None \<Rightarrow> demo_id CHR ''1'' | Some p \<Rightarrow> dc_id p) (demo_id CHR ''2'')))"
    by blast
  have pid: "pid = ''p''" using w(2) demo_who by simp
  have t: "t = demo_filled" using w(3) by (simp add: pid ticket_def demo_put_reads demo_filled_def demo_ticket_simps demo_sha)
  have p: "previous = None" using w(4) by (simp add: pid current_document_def demo_put_reads)
  have b: "bytes = demo_jpeg" using w(5,6) by (simp add: t demo_bytes)
  have "identified (ticket_data demo_candidates ''p'' demo_filled demo_jpeg) (demo_id CHR ''1'') (demo_id CHR ''2'') = demo_document"
    by (simp add: demo_document_def ticket_data_def demo_filled_def demo_ticket_simps demo_sha demo_length)
  moreover have "tk_type demo_filled = ''personal-photo''" by (simp add: demo_filled_def demo_ticket_simps)
  ultimately show ?thesis using w(1,7) by (simp add: pid t p b)
qed

text \<open>The key of the upload, used again to remove the document.\<close>

definition demo_answer :: "life_error + stored_response" where
  "demo_answer = fst (put_bytes demo_candidates demo_env demo_env (Some (JStr ''c'')) (Some (demo_key CHR ''2'')) (demo_id CHR ''3'')
      (''uploads/'' @ demo_id CHR ''3'') (upload_token demo_candidates demo_ticket) demo_jpeg 0 0 demo_authorized_state)"

definition demo_reused :: "(life_error + stored_response) \<times> document_state" where
  "demo_reused = remove_candidate demo_candidates demo_env demo_env (Some (JStr ''c'')) (Some (demo_key CHR ''2''))
      (Some (JObj [(''type'', JStr ''personal-photo''), (''expectedVersion'', JStr (demo_id CHR ''2''))])) (demo_id CHR ''5'') 1 1 demo_final"

theorem stored_answer_is_final_witness:
  "\<not> isl demo_answer \<and> snd demo_reused = demo_final \<and> (isl (fst demo_reused) \<or> fst demo_reused = demo_answer)"
proof -
  let ?put = "Put_bytes (demo_id CHR ''3'') (''uploads/'' @ demo_id CHR ''3'') (upload_token demo_candidates demo_ticket) demo_jpeg"
  let ?remove = "Remove_current (Some (JObj [(''type'', JStr ''personal-photo''), (''expectedVersion'', JStr (demo_id CHR ''2''))])) (demo_id CHR ''5'')"
  from demo_put obtain response where put: "put_bytes demo_candidates demo_env demo_env (Some (JStr ''c'')) (Some (demo_key CHR ''2'')) (demo_id CHR ''3'')
      (''uploads/'' @ demo_id CHR ''3'') (upload_token demo_candidates demo_ticket) demo_jpeg 0 0 demo_authorized_state = (Inr response, demo_put_state)" by blast
  then have first: "call demo_candidates demo_env demo_env (Some (JStr ''c'')) (Some (demo_key CHR ''2'')) ?put 0 0 demo_authorized_state = (Inr response, demo_put_state)"
    by simp
  from demo_finalized obtain r where f: "finalize demo_candidates demo_env demo_env (Some (JStr ''c'')) (Some (demo_key CHR ''3'')) (Some demo_finalize)
      (demo_id CHR ''1'') (demo_id CHR ''2'') (demo_id CHR ''4'') 0 0 demo_put_state = (r, demo_final)" by blast
  have fresh: "fresh demo_put_state (demo_id CHR ''1'')" "fresh demo_put_state (demo_id CHR ''2'')"
    using demo_ids by (simp_all add: fresh_def versions_def demo_put_reads demo_retired demo_filled_def demo_ticket_simps) (simp_all add: demo_id_def)
  have "candidate_step demo_candidates demo_put_state demo_final" by (rule finalizing [OF fresh demo_ids(4) f])
  then have later: "history_reaches demo_candidates demo_put_state demo_final" by (simp add: history_reaches_def history_step_def r_into_rtranclp)
  have second: "call demo_candidates demo_env demo_env (Some (JStr ''c'')) (Some (demo_key CHR ''2'')) ?remove 1 1 demo_final = (fst demo_reused, snd demo_reused)"
    by (simp add: demo_reused_def)
  from stored_answer_is_final [OF first demo_who later second demo_who refl] put show ?thesis by (simp add: demo_answer_def)
qed

end
