(* ===== verification/Profile_Records.thy ===== *)
theory Profile_Records
  imports Catalogue_Store Js_Values
begin

declare map_of_eq_Some_iff [simp del] Some_eq_map_of_iff [simp del]

text \<open>
  Profile records: a person's education, experience, skills and links, the class
  \<^verbatim>\<open>ProfileRecords\<close> of \<^verbatim>\<open>packages/profile-records/src/records.ts\<close> over the in-memory store of
  \<^verbatim>\<open>memory-store.ts\<close>. A transaction works on a copy of the rows and of the audit log, which is
  kept where the work does not throw. Parameters: NFKC, \<open>localeCompare\<close>, the parser of URLs, the text
  of an instant, the catalogue the references are looked up in. Instants are milliseconds, new
  ids arguments.
\<close>

section \<open>Types\<close>

datatype record_kind = Education_kind | Experience_kind | Skill_kind | Link_kind

fun kind_text :: "record_kind \<Rightarrow> string" where
  "kind_text Education_kind = ''education''"
| "kind_text Experience_kind = ''experience''"
| "kind_text Skill_kind = ''skill''"
| "kind_text Link_kind = ''link''"

definition PROFILE_RECORD_KINDS :: "record_kind list" where
  "PROFILE_RECORD_KINDS = [Education_kind, Experience_kind, Skill_kind, Link_kind]"

datatype education_type = Standard_education | Custom_university | Studying_abroad | Not_studying

fun education_type_of :: "string \<Rightarrow> education_type option" where
  "education_type_of s = (if s = ''standard'' then Some Standard_education else if s = ''custom_university'' then Some Custom_university
     else if s = ''studying_abroad'' then Some Studying_abroad else if s = ''not_studying'' then Some Not_studying else None)"

record education_fields =
  ed_type :: education_type
  ed_university :: "string option"
  ed_institution :: "string option"
  ed_degree :: "string option"
  ed_major :: "string option"
  ed_customMajor :: "string option"
  ed_year :: "int option"
  ed_studying :: bool

record experience_fields =
  ex_title :: string
  ex_employer :: string
  ex_start :: int
  ex_end :: "int option"

datatype record_fields = Education_fields education_fields | Experience_fields experience_fields | Skill_fields string | Link_fields string string

datatype record_status = Active_record | Deleted_record

record profile_record =
  pf_id :: string
  pf_kind :: record_kind
  pf_status :: record_status
  pf_fields :: record_fields
  pf_created :: string
  pf_updated :: string
  pf_deleted :: "string option"

record stored_profile_record = profile_record +
  pf_owner :: string

datatype record_operation = Record_create | Record_update | Record_remove | Record_restore | Record_replace

record record_audit =
  ra_operation :: record_operation
  ra_owner :: string
  ra_kind :: record_kind
  ra_before :: nat
  ra_after :: int

datatype catalogue_reference = University | Degree | Major

fun reference_text :: "catalogue_reference \<Rightarrow> string" where
  "reference_text University = ''university''"
| "reference_text Degree = ''degree''"
| "reference_text Major = ''major''"

section \<open>The store\<close>

text \<open>\<open>st_fail\<close> is the hook that makes the next audit write throw.\<close>

record profile_store =
  st_rows :: "(string, stored_profile_record) js_map"
  st_audit :: "record_audit list"
  st_fail :: bool

datatype record_error = Record_error string nat | Store_failure string

definition listAll :: "profile_store \<Rightarrow> string \<Rightarrow> stored_profile_record list" where
  "listAll st owner = filter (\<lambda>r. pf_owner r = owner) (map snd (st_rows st))"

definition listOwned :: "profile_store \<Rightarrow> string \<Rightarrow> record_kind \<Rightarrow> stored_profile_record list" where
  "listOwned st owner kind = filter (\<lambda>r. pf_owner r = owner \<and> pf_kind r = kind) (map snd (st_rows st))"

definition findOwned :: "profile_store \<Rightarrow> string \<Rightarrow> record_kind \<Rightarrow> string \<Rightarrow> stored_profile_record option" where
  "findOwned st owner kind i = (case map_of (st_rows st) i of
     None \<Rightarrow> None | Some r \<Rightarrow> if pf_owner r = owner \<and> pf_kind r = kind then Some r else None)"

definition insertRecord :: "stored_profile_record \<Rightarrow> profile_store \<Rightarrow> record_error + profile_store" where
  "insertRecord r st = (if map_of (st_rows st) (pf_id r) \<noteq> None then Inl (Store_failure ''duplicate profile record id'')
     else Inr (st\<lparr>st_rows := AList.update (pf_id r) r (st_rows st)\<rparr>))"

definition replaceRecord :: "stored_profile_record \<Rightarrow> profile_store \<Rightarrow> record_error + profile_store" where
  "replaceRecord r st = (case map_of (st_rows st) (pf_id r) of
     None \<Rightarrow> Inl (Store_failure ''profile record owner changed'')
   | Some c \<Rightarrow> if pf_owner c \<noteq> pf_owner r \<or> pf_kind c \<noteq> pf_kind r then Inl (Store_failure ''profile record owner changed'')
       else Inr (st\<lparr>st_rows := AList.update (pf_id c) r (st_rows st)\<rparr>))"

definition auditRecord :: "record_audit \<Rightarrow> profile_store \<Rightarrow> record_error + profile_store" where
  "auditRecord e st = (if st_fail st then Inl (Store_failure ''injected audit failure'') else Inr (st\<lparr>st_audit := st_audit st @ [e]\<rparr>))"

text \<open>A thrown error leaves rows and log as they were; the audit hook goes off once.\<close>

definition transaction :: "(profile_store \<Rightarrow> record_error + ('a \<times> profile_store)) \<Rightarrow> profile_store \<Rightarrow> (record_error + 'a) \<times> profile_store" where
  "transaction work st = (case work st of
     Inl e \<Rightarrow> (Inl e, if e = Store_failure ''injected audit failure'' then st\<lparr>st_fail := False\<rparr> else st)
   | Inr (x, st') \<Rightarrow> (Inr x, st'))"

section \<open>Input\<close>

definition MAX_ACTIVE_PER_KIND :: nat where
  "MAX_ACTIVE_PER_KIND = 50"

definition MIN_YEAR :: int where "MIN_YEAR = 1950"

definition MAX_YEAR :: int where "MAX_YEAR = 2100"

record link_url =
  lu_protocol :: string
  lu_username :: string
  lu_password :: string
  lu_href :: string

record record_env =
  re_nfkc :: "string \<Rightarrow> string"
  re_compare :: "string \<Rightarrow> string \<Rightarrow> int"
  re_url :: "string \<Rightarrow> link_url option"
  re_iso :: "int \<Rightarrow> string"

definition bad :: "string \<Rightarrow> record_error + 'a" where
  "bad code = Inl (Record_error code 400)"

definition closedRecord :: "json option \<Rightarrow> string list \<Rightarrow> record_error + json" where
  "closedRecord v allowed = (case v of
     Some (JObj m) \<Rightarrow> if set (map fst m) \<subseteq> set allowed then Inr (JObj m) else bad ''invalid_profile_record''
   | _ \<Rightarrow> bad ''invalid_profile_record'')"

definition record_text :: "record_env \<Rightarrow> json option \<Rightarrow> nat \<Rightarrow> string \<Rightarrow> record_error + string" where
  "record_text env v limit code = (case v of
     Some (JStr s) \<Rightarrow>
       (let cleaned = re_nfkc env (fold_spaces (js_trim s))
        in if length cleaned < 1 \<or> length cleaned > limit \<or> forbidden cleaned then bad code else Inr cleaned)
   | _ \<Rightarrow> bad code)"

definition unset :: "json option \<Rightarrow> bool" where
  "unset v \<longleftrightarrow> nullish v \<or> v = Some (JStr [])"

definition optionalText :: "record_env \<Rightarrow> json option \<Rightarrow> nat \<Rightarrow> string \<Rightarrow> record_error + string option" where
  "optionalText env v limit code = (if unset v then Inr None else map_sum id Some (record_text env v limit code))"

definition year :: "json option \<Rightarrow> string \<Rightarrow> record_error + int" where
  "year v code = (case (case v of
       Some (JStr s) \<Rightarrow> if length s = 4 \<and> list_all digit_char s then Some (of_nat (read_nat s)) else None
     | Some (JNum n) \<Rightarrow> n
     | _ \<Rightarrow> None) of
     Some r \<Rightarrow> if of_int \<lfloor>r\<rfloor> \<noteq> r \<or> \<lfloor>r\<rfloor> < MIN_YEAR \<or> \<lfloor>r\<rfloor> > MAX_YEAR then bad code else Inr \<lfloor>r\<rfloor>
   | None \<Rightarrow> bad code)"

definition optionalYear :: "json option \<Rightarrow> string \<Rightarrow> record_error + int option" where
  "optionalYear v code = (if unset v then Inr None else map_sum id Some (year v code))"

definition referenceId :: "json option \<Rightarrow> string \<Rightarrow> record_error + string option" where
  "referenceId v code = (if unset v then Inr None else case v of
     Some (JStr s) \<Rightarrow> if uuid_any s then Inr (Some (map js_lower s)) else bad code
   | _ \<Rightarrow> bad code)"

definition record_bool :: "json option \<Rightarrow> string \<Rightarrow> record_error + bool" where
  "record_bool v code =
     (if v \<in> {Some (JBool True), Some (JStr ''true''), Some (JStr ''on'')} then Inr True
      else if v \<in> {None, Some (JBool False), Some (JStr ''false'')} then Inr False else bad code)"

definition institution_ok :: "education_fields \<Rightarrow> bool" where
  "institution_ok e \<longleftrightarrow> (case ed_type e of
     Standard_education \<Rightarrow> ed_university e \<noteq> None \<and> ed_institution e = None
   | Not_studying \<Rightarrow> ed_university e = None \<and> ed_institution e = None \<and> \<not> ed_studying e
   | _ \<Rightarrow> ed_institution e \<noteq> None \<and> ed_university e = None)"

definition normalizeEducation :: "record_env \<Rightarrow> json option \<Rightarrow> record_error + record_fields" where
  "normalizeEducation env v =
     bind_result (closedRecord v [''educationType'', ''universityId'', ''institutionName'', ''degreeId'', ''majorId'', ''customMajor'', ''graduationYear'', ''currentlyStudying'']) (\<lambda>raw.
     case (case json_get raw ''educationType'' of Some (JStr s) \<Rightarrow> education_type_of s | _ \<Rightarrow> None) of
       None \<Rightarrow> bad ''invalid_education_type''
     | Some t \<Rightarrow>
       bind_result (referenceId (json_get raw ''universityId'') ''invalid_university'') (\<lambda>university.
       bind_result (optionalText env (json_get raw ''institutionName'') 160 ''invalid_institution_name'') (\<lambda>institution.
       bind_result (referenceId (json_get raw ''degreeId'') ''invalid_degree'') (\<lambda>degree.
       bind_result (referenceId (json_get raw ''majorId'') ''invalid_major'') (\<lambda>major.
       bind_result (optionalText env (json_get raw ''customMajor'') 128 ''invalid_custom_major'') (\<lambda>customMajor.
       bind_result (optionalYear (json_get raw ''graduationYear'') ''invalid_graduation_year'') (\<lambda>graduated.
       bind_result (record_bool (json_get raw ''currentlyStudying'') ''invalid_currently_studying'') (\<lambda>studying.
         (let e = \<lparr>ed_type = t, ed_university = university, ed_institution = institution, ed_degree = degree, ed_major = major,
                ed_customMajor = customMajor, ed_year = graduated, ed_studying = studying\<rparr>
          in if \<not> institution_ok e then bad ''invalid_institution''
             else if major \<noteq> None \<and> customMajor \<noteq> None then bad ''invalid_major''
             else Inr (Education_fields e))))))))))"

definition normalizeExperience :: "record_env \<Rightarrow> json option \<Rightarrow> record_error + record_fields" where
  "normalizeExperience env v =
     bind_result (closedRecord v [''title'', ''employer'', ''startYear'', ''endYear'']) (\<lambda>raw.
     bind_result (record_text env (json_get raw ''title'') 128 ''invalid_experience_title'') (\<lambda>title.
     bind_result (record_text env (json_get raw ''employer'') 128 ''invalid_employer'') (\<lambda>employer.
     bind_result (year (json_get raw ''startYear'') ''invalid_start_year'') (\<lambda>start.
     bind_result (optionalYear (json_get raw ''endYear'') ''invalid_end_year'') (\<lambda>ending.
       if (case ending of None \<Rightarrow> False | Some e \<Rightarrow> e < start) then bad ''invalid_end_year''
       else Inr (Experience_fields \<lparr>ex_title = title, ex_employer = employer, ex_start = start, ex_end = ending\<rparr>))))))"

definition skill_name :: "record_env \<Rightarrow> json option \<Rightarrow> record_error + string" where
  "skill_name env v = bind_result (closedRecord v [''name'']) (\<lambda>raw. record_text env (json_get raw ''name'') 128 ''invalid_skill'')"

definition normalizeSkill :: "record_env \<Rightarrow> json option \<Rightarrow> record_error + record_fields" where
  "normalizeSkill env v = map_sum id Skill_fields (skill_name env v)"

definition normalizeLink :: "record_env \<Rightarrow> json option \<Rightarrow> record_error + record_fields" where
  "normalizeLink env v =
     bind_result (closedRecord v [''title'', ''url'']) (\<lambda>raw.
     bind_result (record_text env (json_get raw ''title'') 128 ''invalid_link_title'') (\<lambda>title.
       case json_get raw ''url'' of
         Some (JStr s) \<Rightarrow>
           (if length s > 2048 then bad ''invalid_link_url''
            else case re_url env (js_trim s) of
              None \<Rightarrow> bad ''invalid_link_url''
            | Some u \<Rightarrow>
                (if (lu_protocol u \<noteq> ''https:'' \<and> lu_protocol u \<noteq> ''http:'') \<or> lu_username u \<noteq> [] \<or> lu_password u \<noteq> [] then bad ''invalid_link_url''
                 else Inr (Link_fields title (lu_href u))))
       | _ \<Rightarrow> bad ''invalid_link_url''))"

fun normalizer :: "record_kind \<Rightarrow> record_env \<Rightarrow> json option \<Rightarrow> record_error + record_fields" where
  "normalizer Education_kind = normalizeEducation"
| "normalizer Experience_kind = normalizeExperience"
| "normalizer Skill_kind = normalizeSkill"
| "normalizer Link_kind = normalizeLink"

definition requireOwner :: "string \<Rightarrow> record_error + unit" where
  "requireOwner owner = ensure (owner \<noteq> []) (Record_error ''unauthorized'' 401)"

definition requireKind :: "json option \<Rightarrow> record_error + record_kind" where
  "requireKind v = (case v of
     Some (JStr s) \<Rightarrow> (case find (\<lambda>k. kind_text k = s) PROFILE_RECORD_KINDS of Some k \<Rightarrow> Inr k | None \<Rightarrow> Inl (Record_error ''not_found'' 404))
   | _ \<Rightarrow> Inl (Record_error ''not_found'' 404))"

definition requireRecordId :: "json option \<Rightarrow> record_error + string" where
  "requireRecordId v = (case v of
     Some (JStr s) \<Rightarrow> if uuid_any s then Inr (map js_lower s) else Inl (Record_error ''not_found'' 404)
   | _ \<Rightarrow> Inl (Record_error ''not_found'' 404))"

section \<open>References and skills\<close>

text \<open>The port answers the status of an item, \<open>Some None\<close> where there is none, \<open>None\<close> where it
  throws.\<close>

type_synonym resolver = "catalogue_reference \<Rightarrow> string \<Rightarrow> record_status option option"

fun educationReferences :: "record_fields \<Rightarrow> (catalogue_reference \<times> string option) list" where
  "educationReferences (Education_fields e) = [(University, ed_university e), (Degree, ed_degree e), (Major, ed_major e)]"
| "educationReferences _ = []"

type_synonym resolved = "(catalogue_reference \<times> string, record_status option) js_map"

fun resolve_all :: "resolver \<Rightarrow> (catalogue_reference \<times> string option) list \<Rightarrow> record_error + resolved" where
  "resolve_all resolve [] = Inr []"
| "resolve_all resolve ((t, None) # refs) = resolve_all resolve refs"
| "resolve_all resolve ((t, Some i) # refs) = (case resolve t i of
     None \<Rightarrow> Inl (Record_error ''reference_unavailable'' 503)
   | Some status \<Rightarrow> map_sum id (AList.update (t, i) status) (resolve_all resolve refs))"

definition resolveReferences :: "resolver \<Rightarrow> record_fields \<Rightarrow> record_error + resolved" where
  "resolveReferences resolve fs = resolve_all resolve (educationReferences fs)"

fun assert_all :: "(catalogue_reference \<Rightarrow> string \<Rightarrow> bool) \<Rightarrow> resolved \<Rightarrow> (catalogue_reference \<times> string option) list \<Rightarrow> record_error + unit" where
  "assert_all kept resolved [] = Inr ()"
| "assert_all kept resolved ((t, None) # refs) = assert_all kept resolved refs"
| "assert_all kept resolved ((t, Some i) # refs) =
     (if \<not> kept t i \<and> map_of resolved (t, i) \<noteq> Some (Some Active_record) then bad (''invalid_'' @ reference_text t)
      else assert_all kept resolved refs)"

definition assertReferences :: "record_fields \<Rightarrow> record_fields option \<Rightarrow> resolved \<Rightarrow> record_error + unit" where
  "assertReferences fs previous resolved =
     assert_all (\<lambda>t i. case previous of None \<Rightarrow> False | Some p \<Rightarrow> map_of (educationReferences p) t = Some (Some i)) resolved (educationReferences fs)"

definition skillKey :: "string \<Rightarrow> string" where
  "skillKey name = map js_lower name"

definition assertUniqueSkills :: "string list \<Rightarrow> record_error + unit" where
  "assertUniqueSkills names = ensure (distinct (map skillKey names)) (Record_error ''duplicate_skill'' 409)"

fun skill_of :: "record_fields \<Rightarrow> string" where
  "skill_of (Skill_fields name) = name"
| "skill_of _ = []"

definition active_records :: "profile_store \<Rightarrow> string \<Rightarrow> record_kind \<Rightarrow> stored_profile_record list" where
  "active_records st owner kind = filter (\<lambda>r. pf_status r = Active_record) (listOwned st owner kind)"

section \<open>The service\<close>

definition publicRecord :: "stored_profile_record \<Rightarrow> profile_record" where
  "publicRecord r = profile_record.truncate r"

definition missing_record :: "record_error + 'a" where
  "missing_record = Inl (Record_error ''not_found'' 404)"

definition over_limit :: "record_error" where
  "over_limit = Record_error ''profile_record_limit'' 409"

definition audit_entry_of :: "record_operation \<Rightarrow> string \<Rightarrow> record_kind \<Rightarrow> nat \<Rightarrow> int \<Rightarrow> record_audit" where
  "audit_entry_of oper owner kind before after = \<lparr>ra_operation = oper, ra_owner = owner, ra_kind = kind, ra_before = before, ra_after = after\<rparr>"

definition fresh_record :: "string \<Rightarrow> string \<Rightarrow> record_kind \<Rightarrow> record_fields \<Rightarrow> string \<Rightarrow> stored_profile_record" where
  "fresh_record i owner kind fs at_time = \<lparr>pf_id = i, pf_kind = kind, pf_status = Active_record, pf_fields = fs, pf_created = at_time,
     pf_updated = at_time, pf_deleted = None, pf_owner = owner\<rparr>"

definition create_record_work :: "string \<Rightarrow> record_kind \<Rightarrow> record_fields \<Rightarrow> string \<Rightarrow> string \<Rightarrow> profile_store \<Rightarrow> record_error + (profile_record \<times> profile_store)" where
  "create_record_work owner kind fs now i st =
     (let active = active_records st owner kind
      in bind_result (ensure (length active < MAX_ACTIVE_PER_KIND) over_limit) (\<lambda>_.
         bind_result (if kind = Skill_kind then assertUniqueSkills (map (skill_of \<circ> pf_fields) active @ [skill_of fs]) else Inr ()) (\<lambda>_.
         bind_result (insertRecord (fresh_record i owner kind fs now) st) (\<lambda>st1.
         bind_result (auditRecord (audit_entry_of Record_create owner kind (length active) (int (length active) + 1)) st1) (\<lambda>st2.
           Inr (publicRecord (fresh_record i owner kind fs now), st2))))))"

definition run_guarded :: "record_error + 'g \<Rightarrow> ('g \<Rightarrow> profile_store \<Rightarrow> record_error + ('a \<times> profile_store)) \<Rightarrow> profile_store \<Rightarrow> (record_error + 'a) \<times> profile_store" where
  "run_guarded guard work st = (case guard of Inl e \<Rightarrow> (Inl e, st) | Inr g \<Rightarrow> transaction (work g) st)"

definition record_create :: "record_env \<Rightarrow> resolver \<Rightarrow> string \<Rightarrow> json option \<Rightarrow> json option \<Rightarrow> int \<Rightarrow> string \<Rightarrow> profile_store
    \<Rightarrow> (record_error + profile_record) \<times> profile_store" where
  "record_create env resolve owner kindInput input now i = run_guarded
     (bind_result (requireOwner owner) (\<lambda>_.
      bind_result (requireKind kindInput) (\<lambda>kind.
      bind_result (normalizer kind env input) (\<lambda>fs.
      bind_result (resolveReferences resolve fs) (\<lambda>resolved.
      bind_result (assertReferences fs None resolved) (\<lambda>_. Inr (kind, fs)))))))
     (\<lambda>(kind, fs). create_record_work owner kind fs (re_iso env now) i)"

definition update_record_work :: "string \<Rightarrow> record_kind \<Rightarrow> string \<Rightarrow> record_fields \<Rightarrow> resolved \<Rightarrow> string \<Rightarrow> profile_store \<Rightarrow> record_error + (profile_record \<times> profile_store)" where
  "update_record_work owner kind i fs resolved now st = (case findOwned st owner kind i of
     None \<Rightarrow> missing_record
   | Some current \<Rightarrow>
       (if pf_status current \<noteq> Active_record then missing_record
        else bind_result (assertReferences fs (Some (pf_fields current)) resolved) (\<lambda>_.
          (let active = active_records st owner kind; next = current\<lparr>pf_fields := fs, pf_updated := now\<rparr>
           in bind_result (if kind = Skill_kind
                then assertUniqueSkills (map (skill_of \<circ> pf_fields) (filter (\<lambda>r. pf_id r \<noteq> i) active) @ [skill_of fs]) else Inr ()) (\<lambda>_.
              bind_result (replaceRecord next st) (\<lambda>st1.
              bind_result (auditRecord (audit_entry_of Record_update owner kind (length active) (int (length active))) st1) (\<lambda>st2.
                Inr (publicRecord next, st2))))))))"

definition record_update :: "record_env \<Rightarrow> resolver \<Rightarrow> string \<Rightarrow> json option \<Rightarrow> json option \<Rightarrow> json option \<Rightarrow> int \<Rightarrow> profile_store
    \<Rightarrow> (record_error + profile_record) \<times> profile_store" where
  "record_update env resolve owner kindInput idInput input now = run_guarded
     (bind_result (requireOwner owner) (\<lambda>_.
      bind_result (requireKind kindInput) (\<lambda>kind.
      bind_result (requireRecordId idInput) (\<lambda>i.
      bind_result (normalizer kind env input) (\<lambda>fs.
      bind_result (resolveReferences resolve fs) (\<lambda>resolved. Inr (kind, i, fs, resolved)))))))
     (\<lambda>(kind, i, fs, resolved). update_record_work owner kind i fs resolved (re_iso env now))"

definition remove_record_work :: "string \<Rightarrow> record_kind \<Rightarrow> string \<Rightarrow> string \<Rightarrow> profile_store \<Rightarrow> record_error + (profile_record \<times> profile_store)" where
  "remove_record_work owner kind i now st = (case findOwned st owner kind i of
     None \<Rightarrow> missing_record
   | Some current \<Rightarrow>
       (if pf_status current \<noteq> Active_record then missing_record
        else (let before = length (active_records st owner kind);
                  next = current\<lparr>pf_status := Deleted_record, pf_deleted := Some now, pf_updated := now\<rparr>
              in bind_result (replaceRecord next st) (\<lambda>st1.
                 bind_result (auditRecord (audit_entry_of Record_remove owner kind before (int before - 1)) st1) (\<lambda>st2.
                   Inr (publicRecord next, st2))))))"

definition owned_id :: "string \<Rightarrow> json option \<Rightarrow> json option \<Rightarrow> record_error + (record_kind \<times> string)" where
  "owned_id owner kindInput idInput =
     bind_result (requireOwner owner) (\<lambda>_.
     bind_result (requireKind kindInput) (\<lambda>kind.
     bind_result (requireRecordId idInput) (\<lambda>i. Inr (kind, i))))"

definition record_remove :: "record_env \<Rightarrow> string \<Rightarrow> json option \<Rightarrow> json option \<Rightarrow> int \<Rightarrow> profile_store \<Rightarrow> (record_error + profile_record) \<times> profile_store" where
  "record_remove env owner kindInput idInput now = run_guarded (owned_id owner kindInput idInput) (\<lambda>(kind, i). remove_record_work owner kind i (re_iso env now))"

definition restore_record_work :: "string \<Rightarrow> record_kind \<Rightarrow> string \<Rightarrow> string \<Rightarrow> profile_store \<Rightarrow> record_error + (profile_record \<times> profile_store)" where
  "restore_record_work owner kind i now st = (case findOwned st owner kind i of
     None \<Rightarrow> missing_record
   | Some current \<Rightarrow>
       (if pf_status current \<noteq> Deleted_record then missing_record
        else (let active = active_records st owner kind;
                  next = current\<lparr>pf_deleted := None, pf_status := Active_record, pf_updated := now\<rparr>
              in bind_result (ensure (length active < MAX_ACTIVE_PER_KIND) over_limit) (\<lambda>_.
                 bind_result (if kind = Skill_kind then assertUniqueSkills (map (skill_of \<circ> pf_fields) active @ [skill_of (pf_fields current)]) else Inr ()) (\<lambda>_.
                 bind_result (replaceRecord next st) (\<lambda>st1.
                 bind_result (auditRecord (audit_entry_of Record_restore owner kind (length active) (int (length active) + 1)) st1) (\<lambda>st2.
                   Inr (publicRecord next, st2))))))))"

definition record_restore :: "record_env \<Rightarrow> string \<Rightarrow> json option \<Rightarrow> json option \<Rightarrow> int \<Rightarrow> profile_store \<Rightarrow> (record_error + profile_record) \<times> profile_store" where
  "record_restore env owner kindInput idInput now = run_guarded (owned_id owner kindInput idInput) (\<lambda>(kind, i). restore_record_work owner kind i (re_iso env now))"

text \<open>\<open>replaceSkills\<close>: the active rows are removed one by one, the new ones inserted in the order given,
  a millisecond apart.\<close>

fun remove_rows :: "string \<Rightarrow> stored_profile_record list \<Rightarrow> profile_store \<Rightarrow> record_error + profile_store" where
  "remove_rows now [] st = Inr st"
| "remove_rows now (r # rows) st = bind_result (replaceRecord (r\<lparr>pf_status := Deleted_record, pf_deleted := Some now, pf_updated := now\<rparr>) st) (remove_rows now rows)"

fun insert_skills :: "record_env \<Rightarrow> string \<Rightarrow> int \<Rightarrow> (string \<times> string) list \<Rightarrow> profile_store \<Rightarrow> record_error + (profile_record list \<times> profile_store)" where
  "insert_skills env owner at_time [] st = Inr ([], st)"
| "insert_skills env owner at_time ((i, name) # skills) st =
     (let r = fresh_record i owner Skill_kind (Skill_fields name) (re_iso env at_time)
      in bind_result (insertRecord r st) (\<lambda>st1.
         bind_result (insert_skills env owner (at_time + 1) skills st1) (\<lambda>(created, st2). Inr (publicRecord r # created, st2))))"

definition replace_work :: "record_env \<Rightarrow> string \<Rightarrow> string list \<Rightarrow> int \<Rightarrow> (nat \<Rightarrow> string) \<Rightarrow> profile_store \<Rightarrow> record_error + (profile_record list \<times> profile_store)" where
  "replace_work env owner names now ids st =
     (let active = active_records st owner Skill_kind
      in bind_result (remove_rows (re_iso env now) active st) (\<lambda>st1.
         bind_result (insert_skills env owner now (zip (map ids [0..<length names]) names) st1) (\<lambda>(created, st2).
         bind_result (auditRecord (audit_entry_of Record_replace owner Skill_kind (length active) (int (length created))) st2) (\<lambda>st3.
           Inr (created, st3)))))"

fun skill_names :: "record_env \<Rightarrow> json list \<Rightarrow> record_error + string list" where
  "skill_names env [] = Inr []"
| "skill_names env (v # vs) =
     bind_result (skill_name env (case v of JStr s \<Rightarrow> Some (JObj [(''name'', JStr s)]) | _ \<Rightarrow> Some v)) (\<lambda>name.
     map_sum id (Cons name) (skill_names env vs))"

definition replaceSkills :: "record_env \<Rightarrow> string \<Rightarrow> json option \<Rightarrow> int \<Rightarrow> (nat \<Rightarrow> string) \<Rightarrow> profile_store \<Rightarrow> (record_error + profile_record list) \<times> profile_store" where
  "replaceSkills env owner input now ids = run_guarded
     (bind_result (requireOwner owner) (\<lambda>_. case input of
        Some (JArr vs) \<Rightarrow>
          (if vs = [] then bad ''empty_skill_list''
           else if length vs > MAX_ACTIVE_PER_KIND then Inl over_limit
           else bind_result (skill_names env vs) (\<lambda>names. bind_result (assertUniqueSkills names) (\<lambda>_. Inr names)))
      | _ \<Rightarrow> bad ''empty_skill_list''))
     (\<lambda>names. replace_work env owner names now ids)"

record background =
  bg_education :: "profile_record list"
  bg_experience :: "profile_record list"
  bg_skill :: "profile_record list"
  bg_link :: "profile_record list"
  bg_removed :: "profile_record list"

definition created_before :: "record_env \<Rightarrow> stored_profile_record \<Rightarrow> stored_profile_record \<Rightarrow> bool" where
  "created_before env a b \<longleftrightarrow> (let c = re_compare env (pf_created a) (pf_created b) in if c \<noteq> 0 then c \<le> 0 else re_compare env (pf_id a) (pf_id b) \<le> 0)"

definition removed_after :: "record_env \<Rightarrow> stored_profile_record \<Rightarrow> stored_profile_record \<Rightarrow> bool" where
  "removed_after env a b \<longleftrightarrow>
     (let t = (\<lambda>r. case pf_deleted r of None \<Rightarrow> [] | Some d \<Rightarrow> d); c = re_compare env (t b) (t a)
      in if c \<noteq> 0 then c \<le> 0 else re_compare env (pf_id a) (pf_id b) \<le> 0)"

definition background_of :: "record_env \<Rightarrow> string \<Rightarrow> profile_store \<Rightarrow> record_error + background" where
  "background_of env owner st = bind_result (requireOwner owner) (\<lambda>_.
     (let rows = listAll st owner;
          active = (\<lambda>kind. map publicRecord (js_sort (created_before env)
            (filter (\<lambda>r. pf_owner r = owner \<and> pf_kind r = kind \<and> pf_status r = Active_record) rows)));
          removed = map publicRecord (js_sort (removed_after env) (filter (\<lambda>r. pf_owner r = owner \<and> pf_status r = Deleted_record) rows))
      in Inr \<lparr>bg_education = active Education_kind, bg_experience = active Experience_kind, bg_skill = active Skill_kind,
           bg_link = active Link_kind, bg_removed = removed\<rparr>))"

end
