(* ===== verification/Record_Histories.thy ===== *)
theory Record_Histories
  imports Profile_Records "HOL-Library.Multiset"
begin

declare map_of_eq_Some_iff [simp del] Some_eq_map_of_iff [simp del]

text \<open>
  Profile records over histories: what every call keeps, what it changes and logs, what comes back
  after a removal.
\<close>

section \<open>Calls\<close>

datatype record_call = Create_record "json option" "json option" string | Update_record "json option" "json option" "json option"
  | Remove_record "json option" "json option" | Restore_record "json option" "json option" | Replace_skills "json option" "nat \<Rightarrow> string"

definition one_record :: "(record_error + profile_record) \<times> profile_store \<Rightarrow> (record_error + profile_record list) \<times> profile_store" where
  "one_record p = (map_sum id (\<lambda>r. [r]) (fst p), snd p)"

fun record_run :: "record_env \<Rightarrow> resolver \<Rightarrow> string \<Rightarrow> int \<Rightarrow> record_call \<Rightarrow> profile_store \<Rightarrow> (record_error + profile_record list) \<times> profile_store" where
  "record_run env resolve owner now (Create_record k v i) st = one_record (record_create env resolve owner k v now i st)"
| "record_run env resolve owner now (Update_record k i v) st = one_record (record_update env resolve owner k i v now st)"
| "record_run env resolve owner now (Remove_record k i) st = one_record (record_remove env owner k i now st)"
| "record_run env resolve owner now (Restore_record k i) st = one_record (record_restore env owner k i now st)"
| "record_run env resolve owner now (Replace_skills v ids) st = replaceSkills env owner v now ids st"

inductive record_step :: "record_env \<Rightarrow> profile_store \<Rightarrow> profile_store \<Rightarrow> bool" for env where
  called: "record_run env resolve owner now c st = (r, st') \<Longrightarrow> record_step env st st'"
| hooked: "record_step env st (st\<lparr>st_fail := b\<rparr>)"

definition empty_records :: profile_store where
  "empty_records = \<lparr>st_rows = [], st_audit = [], st_fail = False\<rparr>"

definition record_reach :: "record_env \<Rightarrow> profile_store \<Rightarrow> bool" where
  "record_reach env st \<longleftrightarrow> (record_step env)\<^sup>*\<^sup>* empty_records st"

section \<open>What holds of the rows\<close>

definition text_kept :: "record_env \<Rightarrow> nat \<Rightarrow> string \<Rightarrow> bool" where
  "text_kept env limit s \<longleftrightarrow> (\<exists>raw. s = re_nfkc env (fold_spaces (js_trim raw))) \<and> s \<noteq> [] \<and> length s \<le> limit \<and> \<not> forbidden s"

definition year_kept :: "int \<Rightarrow> bool" where
  "year_kept y \<longleftrightarrow> MIN_YEAR \<le> y \<and> y \<le> MAX_YEAR"

text \<open>A web link without credentials, as the parser of URLs writes it.\<close>

definition link_kept :: "record_env \<Rightarrow> string \<Rightarrow> bool" where
  "link_kept env href \<longleftrightarrow> (\<exists>raw u. length raw \<le> 2048 \<and> re_url env (js_trim raw) = Some u \<and> lu_href u = href
     \<and> (lu_protocol u = ''https:'' \<or> lu_protocol u = ''http:'') \<and> lu_username u = [] \<and> lu_password u = [])"

fun fields_kept :: "record_env \<Rightarrow> record_kind \<Rightarrow> record_fields \<Rightarrow> bool" where
  "fields_kept env Education_kind (Education_fields e) \<longleftrightarrow> institution_ok e \<and> (ed_major e = None \<or> ed_customMajor e = None)
     \<and> pred_option (text_kept env 160) (ed_institution e) \<and> pred_option (text_kept env 128) (ed_customMajor e) \<and> pred_option year_kept (ed_year e)
     \<and> list_all (\<lambda>(t, i). pred_option (\<lambda>x. uuid_any x \<and> map js_lower x = x) i) (educationReferences (Education_fields e))"
| "fields_kept env Experience_kind (Experience_fields x) \<longleftrightarrow> text_kept env 128 (ex_title x) \<and> text_kept env 128 (ex_employer x)
     \<and> year_kept (ex_start x) \<and> pred_option (\<lambda>e. ex_start x \<le> e \<and> year_kept e) (ex_end x)"
| "fields_kept env Skill_kind (Skill_fields s) \<longleftrightarrow> text_kept env 128 s"
| "fields_kept env Link_kind (Link_fields t u) \<longleftrightarrow> text_kept env 128 t \<and> link_kept env u"
| "fields_kept env _ _ \<longleftrightarrow> False"

definition row_ok :: "record_env \<Rightarrow> stored_profile_record \<Rightarrow> bool" where
  "row_ok env r \<longleftrightarrow> fields_kept env (pf_kind r) (pf_fields r) \<and> (pf_status r = Deleted_record \<longleftrightarrow> pf_deleted r \<noteq> None)"

definition rows_named :: "profile_store \<Rightarrow> bool" where
  "rows_named st \<longleftrightarrow> keyed (st_rows st) \<and> (\<forall>(k, r) \<in> set (st_rows st). pf_id r = k)"

definition skill_keys :: "profile_store \<Rightarrow> string \<Rightarrow> string list" where
  "skill_keys st owner = map (\<lambda>r. skillKey (skill_of (pf_fields r))) (active_records st owner Skill_kind)"

definition records_ok :: "record_env \<Rightarrow> profile_store \<Rightarrow> bool" where
  "records_ok env st \<longleftrightarrow> rows_named st \<and> (\<forall>(k, r) \<in> set (st_rows st). row_ok env r)
     \<and> (\<forall>owner kind. length (active_records st owner kind) \<le> MAX_ACTIVE_PER_KIND) \<and> (\<forall>owner. distinct (skill_keys st owner))"

section \<open>Accepted fields\<close>

lemma record_text_Inr: "record_text env v limit code = Inr s \<Longrightarrow> text_kept env limit s"
  by (auto simp: record_text_def text_kept_def bad_def Let_def Suc_le_eq split: option.splits json.splits if_splits)

lemma optionalText_Inr: "optionalText env v limit code = Inr s \<Longrightarrow> pred_option (text_kept env limit) s"
  by (cases "record_text env v limit code") (auto simp: optionalText_def record_text_Inr split: if_splits)

lemma year_Inr: "year v code = Inr y \<Longrightarrow> year_kept y"
  by (auto simp: year_def year_kept_def bad_def split: option.splits if_splits)

lemma optionalYear_Inr: "optionalYear v code = Inr y \<Longrightarrow> pred_option year_kept y"
  by (cases "year v code") (auto simp: optionalYear_def year_Inr split: if_splits)

lemma referenceId_Inr: "referenceId v code = Inr i \<Longrightarrow> pred_option (\<lambda>x. uuid_any x \<and> map js_lower x = x) i"
  by (auto simp: referenceId_def bad_def uuid_any_lower js_lower_lower split: if_splits option.splits json.splits)

lemma bind_elim: "bind_result r f = Inr b \<Longrightarrow> (\<And>a. r = Inr a \<Longrightarrow> f a = Inr b \<Longrightarrow> P) \<Longrightarrow> P"
  by (cases r) simp_all

lemma checked_Inr: "(if b then bad code else Inr x) = Inr y \<longleftrightarrow> \<not> b \<and> y = x"
  by (auto simp: bad_def)

lemma chosen_Inr: "(case x of None \<Rightarrow> bad code | Some t \<Rightarrow> f t) = Inr y \<Longrightarrow> (\<And>t. x = Some t \<Longrightarrow> f t = Inr y \<Longrightarrow> P) \<Longrightarrow> P"
  by (cases x) (simp_all add: bad_def)

lemma normalizeEducation_Inr:
  assumes "normalizeEducation env v = Inr fs"
  shows "fields_kept env Education_kind fs"
  using assms unfolding normalizeEducation_def
proof (elim bind_elim chosen_Inr)
  fix raw t university institution degree major customMajor graduated studying
  assume r: "referenceId (json_get raw ''universityId'') ''invalid_university'' = Inr university"
      "referenceId (json_get raw ''degreeId'') ''invalid_degree'' = Inr degree" "referenceId (json_get raw ''majorId'') ''invalid_major'' = Inr major"
    and t: "optionalText env (json_get raw ''institutionName'') 160 ''invalid_institution_name'' = Inr institution"
      "optionalText env (json_get raw ''customMajor'') 128 ''invalid_custom_major'' = Inr customMajor"
    and y: "optionalYear (json_get raw ''graduationYear'') ''invalid_graduation_year'' = Inr graduated"
    and fs: "(let e = \<lparr>ed_type = t, ed_university = university, ed_institution = institution, ed_degree = degree, ed_major = major,
                ed_customMajor = customMajor, ed_year = graduated, ed_studying = studying\<rparr>
          in if \<not> institution_ok e then bad ''invalid_institution''
             else if major \<noteq> None \<and> customMajor \<noteq> None then bad ''invalid_major'' else Inr (Education_fields e)) = Inr fs"
  let ?e = "\<lparr>ed_type = t, ed_university = university, ed_institution = institution, ed_degree = degree, ed_major = major,
                ed_customMajor = customMajor, ed_year = graduated, ed_studying = studying\<rparr>"
  have "institution_ok ?e" "major = None \<or> customMajor = None" "fs = Education_fields ?e"
    using fs by (auto simp: Let_def bad_def split: if_splits)
  then show ?thesis using referenceId_Inr [OF r(1)] referenceId_Inr [OF r(2)] referenceId_Inr [OF r(3)] optionalText_Inr [OF t(1)] optionalText_Inr [OF t(2)]
    optionalYear_Inr [OF y] by simp
qed

lemma normalizeExperience_Inr:
  assumes "normalizeExperience env v = Inr fs"
  shows "fields_kept env Experience_kind fs"
  using assms unfolding normalizeExperience_def
proof (elim bind_elim)
  fix raw title employer start ending
  assume t: "record_text env (json_get raw ''title'') 128 ''invalid_experience_title'' = Inr title"
      "record_text env (json_get raw ''employer'') 128 ''invalid_employer'' = Inr employer"
    and y: "year (json_get raw ''startYear'') ''invalid_start_year'' = Inr start" "optionalYear (json_get raw ''endYear'') ''invalid_end_year'' = Inr ending"
    and fs: "(if (case ending of None \<Rightarrow> False | Some e \<Rightarrow> e < start) then bad ''invalid_end_year''
       else Inr (Experience_fields \<lparr>ex_title = title, ex_employer = employer, ex_start = start, ex_end = ending\<rparr>)) = Inr fs"
  have "fs = Experience_fields \<lparr>ex_title = title, ex_employer = employer, ex_start = start, ex_end = ending\<rparr>" "\<not> (case ending of None \<Rightarrow> False | Some e \<Rightarrow> e < start)"
    using fs unfolding checked_Inr by simp_all
  then show ?thesis using record_text_Inr [OF t(1)] record_text_Inr [OF t(2)] year_Inr [OF y(1)] optionalYear_Inr [OF y(2)] by (cases ending) simp_all
qed

lemma skill_name_Inr: "skill_name env v = Inr s \<Longrightarrow> text_kept env 128 s"
  by (auto simp: skill_name_def dest: record_text_Inr)

lemma normalizeLink_Inr:
  assumes "normalizeLink env v = Inr fs"
  shows "fields_kept env Link_kind fs"
  using assms unfolding normalizeLink_def
proof (elim bind_elim)
  fix raw title
  assume t: "record_text env (json_get raw ''title'') 128 ''invalid_link_title'' = Inr title"
    and fs: "(case json_get raw ''url'' of
         Some (JStr s) \<Rightarrow>
           (if length s > 2048 then bad ''invalid_link_url''
            else case re_url env (js_trim s) of
              None \<Rightarrow> bad ''invalid_link_url''
            | Some u \<Rightarrow>
                (if (lu_protocol u \<noteq> ''https:'' \<and> lu_protocol u \<noteq> ''http:'') \<or> lu_username u \<noteq> [] \<or> lu_password u \<noteq> [] then bad ''invalid_link_url''
                 else Inr (Link_fields title (lu_href u))))
       | _ \<Rightarrow> bad ''invalid_link_url'') = Inr fs"
  obtain s where s: "json_get raw ''url'' = Some (JStr s)" using fs by (auto simp: bad_def split: option.splits json.splits)
  have len: "length s \<le> 2048" using fs unfolding s by (auto simp: bad_def not_less split: if_splits)
  obtain u where u: "re_url env (js_trim s) = Some u" using fs unfolding s by (auto simp: bad_def split: option.splits if_splits)
  then have "fs = Link_fields title (lu_href u)" and ok: "lu_protocol u = ''https:'' \<or> lu_protocol u = ''http:''" "lu_username u = []" "lu_password u = []"
    using fs unfolding s by (auto simp: bad_def split: if_splits)
  moreover have "link_kept env (lu_href u)" unfolding link_kept_def using len u ok by blast
  ultimately show ?thesis using record_text_Inr [OF t] by simp
qed

lemma normalizer_Inr: "normalizer kind env v = Inr fs \<Longrightarrow> fields_kept env kind fs"
  by (cases kind; cases "skill_name env v") (auto simp: normalizeSkill_def normalizeEducation_Inr normalizeExperience_Inr normalizeLink_Inr skill_name_Inr)

section \<open>A row put in its place\<close>

definition put_in :: "stored_profile_record \<Rightarrow> profile_store \<Rightarrow> profile_store" where
  "put_in x st = st\<lparr>st_rows := AList.update (pf_id x) x (st_rows st)\<rparr>"

lemma put_in_frame [simp]: "st_audit (put_in x st) = st_audit st" "st_fail (put_in x st) = st_fail st" "map_of (st_rows (put_in x st)) = (map_of (st_rows st))(pf_id x \<mapsto> x)"
  by (simp_all add: put_in_def)

lemma audit_frame [simp]: "active_records (st\<lparr>st_audit := a\<rparr>) = active_records st" "listOwned (st\<lparr>st_audit := a\<rparr>) = listOwned st"
  "active_records (st\<lparr>st_fail := b\<rparr>) = active_records st" "listOwned (st\<lparr>st_fail := b\<rparr>) = listOwned st"
  "rows_named (st\<lparr>st_audit := a\<rparr>) = rows_named st" "rows_named (st\<lparr>st_fail := b\<rparr>) = rows_named st"
  by (simp_all add: active_records_def [abs_def] listOwned_def [abs_def] rows_named_def)

lemma records_ok_frame [simp]: "records_ok env (st\<lparr>st_audit := a\<rparr>) = records_ok env st" "records_ok env (st\<lparr>st_fail := b\<rparr>) = records_ok env st"
  by (simp_all add: records_ok_def skill_keys_def)

lemma mset_update:
  "keyed m \<Longrightarrow> \<forall>(k, r) \<in> set m. f r = k \<Longrightarrow> mset (map snd (AList.update k x m)) = mset (filter (\<lambda>r. f r \<noteq> k) (map snd m)) + {#x#}"
proof (induction m)
  case (Cons p m)
  obtain k' r where p: "p = (k', r)" by force
  show ?case
  proof (cases "k' = k")
    case True
    have "filter (\<lambda>r. f r \<noteq> k) (map snd m) = map snd m"
      using Cons.prems True p by (force simp: filter_id_conv image_iff)
    then show ?thesis using True p Cons.prems by simp
  next
    case False
    then show ?thesis using Cons p by simp
  qed
qed simp

lemma active_records_filter:
  "active_records st owner kind = filter (\<lambda>r. pf_owner r = owner \<and> pf_kind r = kind \<and> pf_status r = Active_record) (map snd (st_rows st))"
  by (simp add: active_records_def listOwned_def conj_ac)

lemma active_put:
  assumes "rows_named st"
  shows "mset (active_records (put_in x st) owner kind) = mset (filter (\<lambda>r. pf_id r \<noteq> pf_id x) (active_records st owner kind))
    + (if pf_owner x = owner \<and> pf_kind x = kind \<and> pf_status x = Active_record then {#x#} else {#})"
proof -
  let ?R = "\<lambda>r. pf_owner r = owner \<and> pf_kind r = kind \<and> pf_status r = Active_record"
  have m: "mset (map snd (AList.update (pf_id x) x (st_rows st))) = mset (filter (\<lambda>r. pf_id r \<noteq> pf_id x) (map snd (st_rows st))) + {#x#}"
    using assms by (intro mset_update) (auto simp: rows_named_def)
  have rows: "st_rows (put_in x st) = AList.update (pf_id x) x (st_rows st)" by (simp add: put_in_def)
  have "mset (active_records (put_in x st) owner kind) = filter_mset ?R (mset (map snd (AList.update (pf_id x) x (st_rows st))))"
    unfolding active_records_filter rows mset_filter ..
  also have "\<dots> = filter_mset ?R (mset (filter (\<lambda>r. pf_id r \<noteq> pf_id x) (map snd (st_rows st)))) + filter_mset ?R {#x#}"
    unfolding m by (rule filter_union_mset)
  also have "filter_mset ?R (mset (filter (\<lambda>r. pf_id r \<noteq> pf_id x) (map snd (st_rows st)))) = mset (filter (\<lambda>r. pf_id r \<noteq> pf_id x) (active_records st owner kind))"
    unfolding active_records_filter by (simp only: mset_filter [symmetric] filter_filter conj_ac)
  finally show ?thesis by simp
qed

lemma put_in_in: "p \<in> set (st_rows (put_in x st)) \<Longrightarrow> p = (pf_id x, x) \<or> p \<in> set (st_rows st)"
  by (auto simp: put_in_def dest: set_alist_update)

lemma rows_named_put:
  assumes "rows_named st"
  shows "rows_named (put_in x st)"
  unfolding rows_named_def
proof (intro conjI ballI)
  show "keyed (st_rows (put_in x st))" using assms by (simp add: rows_named_def put_in_def)
  fix p assume "p \<in> set (st_rows (put_in x st))"
  from put_in_in [OF this] show "case p of (k, r) \<Rightarrow> pf_id r = k" using assms by (auto simp: rows_named_def)
qed

lemma named_lookup: "rows_named st \<Longrightarrow> map_of (st_rows st) i = Some r \<Longrightarrow> pf_id r = i \<and> r \<in> snd ` set (st_rows st)"
proof -
  assume n: "rows_named st" and "map_of (st_rows st) i = Some r"
  then have at: "(i, r) \<in> set (st_rows st)" by (rule_tac map_of_SomeD)
  then have "snd (i, r) \<in> snd ` set (st_rows st)" by (rule imageI)
  moreover have "pf_id r = i" using n at by (auto simp: rows_named_def)
  ultimately show ?thesis by simp
qed

lemma fresh_others:
  assumes "rows_named st" "map_of (st_rows st) i = None"
  shows "filter (\<lambda>r. pf_id r \<noteq> i) (active_records st owner kind) = active_records st owner kind"
proof -
  have "pf_id r \<noteq> i" if r: "r \<in> snd ` set (st_rows st)" for r
  proof -
    obtain k where k: "(k, r) \<in> set (st_rows st)" using r by auto
    then have "pf_id r = k" using assms(1) by (auto simp: rows_named_def)
    moreover have "k \<noteq> i" using k assms(2) by (metis weak_map_of_SomeI option.distinct(1))
    ultimately show ?thesis by simp
  qed
  then show ?thesis unfolding active_records_filter by (intro filter_True) auto
qed

lemma active_in: "r \<in> set (active_records st owner kind) \<longleftrightarrow> r \<in> snd ` set (st_rows st) \<and> pf_owner r = owner \<and> pf_kind r = kind \<and> pf_status r = Active_record"
  by (auto simp: active_records_filter)

section \<open>What a committed call did\<close>

lemma bind_if_Inr: "bind_result (if b then r else Inr ()) f = Inr y \<longleftrightarrow> (b \<longrightarrow> r = Inr ()) \<and> f () = Inr y"
  by (cases b; cases r) auto

lemma audit_Inr: "auditRecord e st = Inr st' \<longleftrightarrow> \<not> st_fail st \<and> st' = st\<lparr>st_audit := st_audit st @ [e]\<rparr>"
  by (auto simp: auditRecord_def)

lemma insert_Inr: "insertRecord r st = Inr st' \<longleftrightarrow> map_of (st_rows st) (pf_id r) = None \<and> st' = st\<lparr>st_rows := AList.update (pf_id r) r (st_rows st)\<rparr>"
  by (auto simp: insertRecord_def)

lemma replace_Inr:
  "rows_named st \<Longrightarrow> replaceRecord r st = Inr st' \<longleftrightarrow> (\<exists>c. findOwned st (pf_owner r) (pf_kind r) (pf_id r) = Some c) \<and> st' = st\<lparr>st_rows := AList.update (pf_id r) r (st_rows st)\<rparr>"
proof (cases "map_of (st_rows st) (pf_id r)")
  case (Some c)
  assume "rows_named st"
  then have "pf_id c = pf_id r" using named_lookup Some by blast
  then show ?thesis by (auto simp: replaceRecord_def findOwned_def Some)
qed (simp add: replaceRecord_def findOwned_def)

lemma insert_put: "insertRecord r st = Inr st' \<longleftrightarrow> map_of (st_rows st) (pf_id r) = None \<and> st' = put_in r st"
  by (auto simp: insertRecord_def put_in_def)

lemma replace_put:
  "rows_named st \<Longrightarrow> replaceRecord r st = Inr st' \<longleftrightarrow> (\<exists>c. findOwned st (pf_owner r) (pf_kind r) (pf_id r) = Some c) \<and> st' = put_in r st"
  by (simp add: replace_Inr put_in_def)

text \<open>One row of the caller's put in its place and one entry logged.\<close>

definition puts_row :: "record_operation \<Rightarrow> int \<Rightarrow> string \<Rightarrow> record_kind \<Rightarrow> stored_profile_record \<Rightarrow> profile_store \<Rightarrow> profile_store \<Rightarrow> bool" where
  "puts_row oper change owner kind x st st' \<longleftrightarrow> pf_owner x = owner \<and> pf_kind x = kind \<and> (let n = length (active_records st owner kind)
     in st' = (put_in x st)\<lparr>st_audit := st_audit st @ [audit_entry_of oper owner kind n (int n + change)]\<rparr>)"

lemma findOwned_Some: "rows_named st \<Longrightarrow> findOwned st owner kind i = Some c \<Longrightarrow>
    map_of (st_rows st) i = Some c \<and> pf_id c = i \<and> pf_owner c = owner \<and> pf_kind c = kind \<and> c \<in> snd ` set (st_rows st)"
  using named_lookup [of st i] by (auto simp: findOwned_def split: option.splits if_splits)

definition keys_with :: "profile_store \<Rightarrow> string \<Rightarrow> string \<Rightarrow> record_fields \<Rightarrow> string list" where
  "keys_with st owner i fs = map (\<lambda>r. skillKey (skill_of (pf_fields r))) (filter (\<lambda>r. pf_id r \<noteq> i) (active_records st owner Skill_kind)) @ [skillKey (skill_of fs)]"

lemma create_record_work_Inr:
  assumes "create_record_work owner kind fs now i st = Inr (p, st')" "rows_named st"
  shows "p = publicRecord (fresh_record i owner kind fs now) \<and> puts_row Record_create 1 owner kind (fresh_record i owner kind fs now) st st'
    \<and> map_of (st_rows st) i = None \<and> length (active_records st owner kind) < MAX_ACTIVE_PER_KIND \<and> (kind = Skill_kind \<longrightarrow> distinct (keys_with st owner i fs))"
  using assms fresh_others [OF assms(2), of i owner Skill_kind]
  by (auto simp: create_record_work_def bind_if_Inr Let_def puts_row_def audit_Inr insert_put fresh_record_def assertUniqueSkills_def keys_with_def comp_def)

lemma update_record_work_Inr:
  assumes "update_record_work owner kind i fs resolved now st = Inr (p, st')" "rows_named st"
  obtains c where "map_of (st_rows st) i = Some c" "pf_id c = i" "c \<in> set (active_records st owner kind)" "p = publicRecord (c\<lparr>pf_fields := fs, pf_updated := now\<rparr>)"
    "puts_row Record_update 0 owner kind (c\<lparr>pf_fields := fs, pf_updated := now\<rparr>) st st'"
    "kind = Skill_kind \<Longrightarrow> distinct (keys_with st owner i fs)" "assertReferences fs (Some (pf_fields c)) resolved = Inr ()"
proof -
  obtain c where c: "findOwned st owner kind i = Some c" using assms(1) by (auto simp: update_record_work_def missing_record_def split: option.splits)
  note at = findOwned_Some [OF assms(2) c]
  have act: "pf_status c = Active_record" using assms(1) by (auto simp: update_record_work_def missing_record_def c split: if_splits)
  show thesis
    by (rule that [of c]) (use assms c at act in \<open>auto simp: update_record_work_def missing_record_def bind_if_Inr Let_def puts_row_def audit_Inr replace_put
      assertUniqueSkills_def keys_with_def comp_def active_in\<close>)
qed

lemma remove_record_work_Inr:
  assumes "remove_record_work owner kind i now st = Inr (p, st')" "rows_named st"
  obtains c where "map_of (st_rows st) i = Some c" "pf_id c = i" "c \<in> set (active_records st owner kind)"
    "p = publicRecord (c\<lparr>pf_status := Deleted_record, pf_deleted := Some now, pf_updated := now\<rparr>)"
    "puts_row Record_remove (- 1) owner kind (c\<lparr>pf_status := Deleted_record, pf_deleted := Some now, pf_updated := now\<rparr>) st st'"
proof -
  obtain c where c: "findOwned st owner kind i = Some c" using assms(1) by (auto simp: remove_record_work_def missing_record_def split: option.splits)
  note at = findOwned_Some [OF assms(2) c]
  have act: "pf_status c = Active_record" using assms(1) by (auto simp: remove_record_work_def missing_record_def c split: if_splits)
  show thesis
    by (rule that [of c]) (use assms c at act in \<open>auto simp: remove_record_work_def missing_record_def Let_def puts_row_def audit_Inr replace_put active_in\<close>)
qed

lemma restore_record_work_Inr:
  assumes "restore_record_work owner kind i now st = Inr (p, st')" "rows_named st"
  obtains c where "map_of (st_rows st) i = Some c" "pf_id c = i" "pf_status c = Deleted_record" "pf_owner c = owner" "pf_kind c = kind" "c \<in> snd ` set (st_rows st)"
    "p = publicRecord (c\<lparr>pf_deleted := None, pf_status := Active_record, pf_updated := now\<rparr>)"
    "puts_row Record_restore 1 owner kind (c\<lparr>pf_deleted := None, pf_status := Active_record, pf_updated := now\<rparr>) st st'"
    "length (active_records st owner kind) < MAX_ACTIVE_PER_KIND" "kind = Skill_kind \<Longrightarrow> distinct (keys_with st owner i (pf_fields c))"
proof -
  obtain c where c: "findOwned st owner kind i = Some c" using assms(1) by (auto simp: restore_record_work_def missing_record_def split: option.splits)
  note at = findOwned_Some [OF assms(2) c]
  have gone: "pf_status c = Deleted_record" using assms(1) by (auto simp: restore_record_work_def missing_record_def c split: if_splits)
  show thesis
    by (rule that [of c]) (use assms c at gone in \<open>auto simp: restore_record_work_def missing_record_def bind_if_Inr Let_def puts_row_def audit_Inr replace_put
      assertUniqueSkills_def keys_with_def comp_def distinct_map_filter\<close>)
qed


section \<open>What a row put in its place keeps\<close>

lemma length_without: "distinct (map f xs) \<Longrightarrow> x \<in> set xs \<Longrightarrow> Suc (length (filter (\<lambda>y. f y \<noteq> f x) xs)) = length xs"
proof (induction xs)
  case (Cons y ys)
  show ?case
  proof (cases "y = x")
    case True
    have "f x \<notin> f ` set ys" using True Cons.prems(1) by simp
    then have "filter (\<lambda>z. f z \<noteq> f x) ys = ys" by (intro filter_True ballI) (metis image_eqI)
    with True show ?thesis by simp
  next
    case False
    then have "x \<in> set ys" "f y \<noteq> f x" using Cons.prems by auto
    with Cons show ?thesis by simp
  qed
qed simp

lemma distinct_ids: "rows_named st \<Longrightarrow> distinct (map pf_id (map snd (st_rows st)))"
proof -
  assume n: "rows_named st"
  have "map pf_id (map snd (st_rows st)) = map fst (st_rows st)" using n by (auto simp: rows_named_def)
  moreover have "distinct (map fst (st_rows st))" using n by (simp add: rows_named_def)
  ultimately show ?thesis by metis
qed

lemma distinct_active_ids: "rows_named st \<Longrightarrow> distinct (map pf_id (active_records st owner kind))"
  unfolding active_records_filter by (rule distinct_map_filter) (rule distinct_ids)

text \<open>How many rows of the list are active after the row is put.\<close>

lemma length_active_put:
  "rows_named st \<Longrightarrow> length (active_records (put_in x st) owner kind) = length (filter (\<lambda>r. pf_id r \<noteq> pf_id x) (active_records st owner kind))
     + (if pf_owner x = owner \<and> pf_kind x = kind \<and> pf_status x = Active_record then 1 else 0)"
proof -
  assume n: "rows_named st"
  have "size (mset (active_records (put_in x st) owner kind)) = size (mset (filter (\<lambda>r. pf_id r \<noteq> pf_id x) (active_records st owner kind)))
     + size (if pf_owner x = owner \<and> pf_kind x = kind \<and> pf_status x = Active_record then {#x#} else {#})"
    unfolding active_put [OF n] by (rule size_union)
  then show ?thesis unfolding size_mset by simp
qed

lemma skill_keys_put:
  "rows_named st \<Longrightarrow> mset (skill_keys (put_in x st) owner) = mset (map (\<lambda>r. skillKey (skill_of (pf_fields r))) (filter (\<lambda>r. pf_id r \<noteq> pf_id x) (active_records st owner Skill_kind)))
     + (if pf_owner x = owner \<and> pf_kind x = Skill_kind \<and> pf_status x = Active_record then {#skillKey (skill_of (pf_fields x))#} else {#})"
  unfolding skill_keys_def mset_map by (subst active_put) (simp_all add: mset_map)

lemma put_in_ok:
  assumes ok: "records_ok env st" and x: "row_ok env x"
    and room: "pf_status x = Active_record \<Longrightarrow> length (filter (\<lambda>r. pf_id r \<noteq> pf_id x) (active_records st (pf_owner x) (pf_kind x))) < MAX_ACTIVE_PER_KIND"
    and skills: "pf_status x = Active_record \<Longrightarrow> pf_kind x = Skill_kind \<Longrightarrow> distinct (keys_with st (pf_owner x) (pf_id x) (pf_fields x))"
  shows "records_ok env (put_in x st)"
proof -
  have n: "rows_named st" using ok by (simp add: records_ok_def)
  have "row_ok env r" if "(k, r) \<in> set (st_rows (put_in x st))" for k r
    using put_in_in [OF that] ok x by (auto simp: records_ok_def)
  moreover have "length (active_records (put_in x st) owner kind) \<le> MAX_ACTIVE_PER_KIND" for owner kind
  proof -
    have "length (filter (\<lambda>r. pf_id r \<noteq> pf_id x) (active_records st owner kind)) \<le> MAX_ACTIVE_PER_KIND"
      using ok length_filter_le [of "\<lambda>r. pf_id r \<noteq> pf_id x" "active_records st owner kind"] by (meson le_trans records_ok_def)
    then show ?thesis using room by (auto simp: length_active_put [OF n])
  qed
  moreover have "distinct (skill_keys (put_in x st) owner)" for owner
  proof -
    let ?key = "\<lambda>r. skillKey (skill_of (pf_fields r))" and ?rest = "filter (\<lambda>r. pf_id r \<noteq> pf_id x) (active_records st owner Skill_kind)"
    have rest: "distinct (map ?key ?rest)" using ok by (auto simp: records_ok_def skill_keys_def intro: distinct_map_filter)
    show ?thesis
    proof (cases "pf_owner x = owner \<and> pf_kind x = Skill_kind \<and> pf_status x = Active_record")
      case True
      then have "mset (skill_keys (put_in x st) owner) = mset (keys_with st owner (pf_id x) (pf_fields x))"
        by (simp add: skill_keys_put [OF n] keys_with_def)
      moreover have "distinct (keys_with st owner (pf_id x) (pf_fields x))" using True skills by blast
      ultimately show ?thesis using mset_eq_imp_distinct_iff by blast
    next
      case False
      then have "mset (skill_keys (put_in x st) owner) = mset (map ?key ?rest)" unfolding skill_keys_put [OF n] by (simp only: if_False add_0_right)
      then show ?thesis using rest mset_eq_imp_distinct_iff by blast
    qed
  qed
  ultimately show ?thesis using rows_named_put [OF n] by (auto simp: records_ok_def)
qed

lemma filter_update: "\<not> P x \<Longrightarrow> (\<And>r. map_of m k = Some r \<Longrightarrow> \<not> P r) \<Longrightarrow> filter P (map snd (AList.update k x m)) = filter P (map snd m)"
  by (induction m) (auto split: if_splits)

text \<open>Only the caller's rows of one kind change.\<close>

definition only_rows :: "string \<Rightarrow> record_kind \<Rightarrow> profile_store \<Rightarrow> profile_store \<Rightarrow> bool" where
  "only_rows owner kind st st' \<longleftrightarrow> (\<forall>o' k'. o' \<noteq> owner \<or> k' \<noteq> kind \<longrightarrow> listOwned st' o' k' = listOwned st o' k')"

lemma put_in_only:
  assumes "\<And>r. map_of (st_rows st) (pf_id x) = Some r \<Longrightarrow> pf_owner r = pf_owner x \<and> pf_kind r = pf_kind x"
  shows "only_rows (pf_owner x) (pf_kind x) st (put_in x st)"
proof -
  have "filter (\<lambda>r. pf_owner r = o' \<and> pf_kind r = k') (map snd (AList.update (pf_id x) x (st_rows st)))
      = filter (\<lambda>r. pf_owner r = o' \<and> pf_kind r = k') (map snd (st_rows st))" if "o' \<noteq> pf_owner x \<or> k' \<noteq> pf_kind x" for o' k'
    using that assms by (intro filter_update) auto
  then show ?thesis by (simp add: only_rows_def listOwned_def put_in_def)
qed

lemma only_rows_trans: "only_rows owner kind a b \<Longrightarrow> only_rows owner kind b c \<Longrightarrow> only_rows owner kind a c"
  by (simp add: only_rows_def)

lemma only_rows_refl [simp]: "only_rows owner kind st st"
  by (simp add: only_rows_def)

text \<open>A deleted row stays as it is, or comes back with its fields.\<close>

definition keeps_deleted :: "profile_store \<Rightarrow> profile_store \<Rightarrow> bool" where
  "keeps_deleted st st' \<longleftrightarrow> (\<forall>i r. map_of (st_rows st) i = Some r \<and> pf_status r = Deleted_record \<longrightarrow>
     map_of (st_rows st') i = Some r \<or> (\<exists>t. map_of (st_rows st') i = Some (r\<lparr>pf_deleted := None, pf_status := Active_record, pf_updated := t\<rparr>)))"

lemma keeps_deleted_refl [simp]: "keeps_deleted st st"
  by (simp add: keeps_deleted_def)

lemma keeps_deleted_put:
  "(\<And>r. map_of (st_rows st) (pf_id x) = Some r \<Longrightarrow> pf_status r = Deleted_record \<Longrightarrow> \<exists>t. x = r\<lparr>pf_deleted := None, pf_status := Active_record, pf_updated := t\<rparr>) \<Longrightarrow>
    keeps_deleted st (put_in x st)"
  by (auto simp: keeps_deleted_def)


section \<open>Every call\<close>

text \<open>What a committed call of \<open>owner\<close> did to the store.\<close>

definition commits :: "record_env \<Rightarrow> record_operation \<Rightarrow> string \<Rightarrow> record_kind \<Rightarrow> profile_store \<Rightarrow> profile_store \<Rightarrow> bool" where
  "commits env oper owner kind st st' \<longleftrightarrow> records_ok env st' \<and> keeps_deleted st st' \<and> only_rows owner kind st st'
     \<and> st_audit st' = st_audit st @ [audit_entry_of oper owner kind (length (active_records st owner kind)) (int (length (active_records st' owner kind)))]"

lemma puts_row_commits:
  assumes ok: "records_ok env st" and p: "puts_row oper change owner kind x st st'" and x: "row_ok env x"
    and same: "\<And>r. map_of (st_rows st) (pf_id x) = Some r \<Longrightarrow> pf_owner r = owner \<and> pf_kind r = kind"
    and room: "pf_status x = Active_record \<Longrightarrow> length (filter (\<lambda>r. pf_id r \<noteq> pf_id x) (active_records st owner kind)) < MAX_ACTIVE_PER_KIND"
    and skills: "pf_status x = Active_record \<Longrightarrow> kind = Skill_kind \<Longrightarrow> distinct (keys_with st owner (pf_id x) (pf_fields x))"
    and count: "int (length (active_records (put_in x st) owner kind)) = int (length (active_records st owner kind)) + change"
    and gone: "\<And>r. map_of (st_rows st) (pf_id x) = Some r \<Longrightarrow> pf_status r = Deleted_record \<Longrightarrow> \<exists>t. x = r\<lparr>pf_deleted := None, pf_status := Active_record, pf_updated := t\<rparr>"
  shows "commits env oper owner kind st st'"
proof -
  have o: "pf_owner x = owner" "pf_kind x = kind" using p by (simp_all add: puts_row_def)
  have st': "st' = (put_in x st)\<lparr>st_audit := st_audit st @ [audit_entry_of oper owner kind (length (active_records st owner kind)) (int (length (active_records (put_in x st) owner kind)))]\<rparr>"
    using p count by (simp add: puts_row_def Let_def)
  have "records_ok env (put_in x st)" using put_in_ok [OF ok x] room skills o by simp
  moreover have "only_rows owner kind st (put_in x st)" using put_in_only [of st x] same o by simp
  moreover have "keeps_deleted st (put_in x st)" using gone by (rule keeps_deleted_put)
  ultimately show ?thesis unfolding commits_def st' by (auto simp: only_rows_def keeps_deleted_def)
qed

lemma row_okD: "records_ok env st \<Longrightarrow> r \<in> snd ` set (st_rows st) \<Longrightarrow> row_ok env r"
  by (auto simp: records_ok_def)

lemma active_bound: "records_ok env st \<Longrightarrow> length (active_records st owner kind) \<le> MAX_ACTIVE_PER_KIND"
  by (simp add: records_ok_def)

lemma fresh_record_simps [simp]: "pf_id (fresh_record i owner kind fs now) = i" "pf_owner (fresh_record i owner kind fs now) = owner"
  "pf_kind (fresh_record i owner kind fs now) = kind" "pf_status (fresh_record i owner kind fs now) = Active_record"
  "pf_fields (fresh_record i owner kind fs now) = fs" "pf_deleted (fresh_record i owner kind fs now) = None"
  by (simp_all add: fresh_record_def)

lemma create_commits:
  assumes w: "create_record_work owner kind fs now i st = Inr (p, st')" and ok: "records_ok env st" and fs: "fields_kept env kind fs"
  shows "commits env Record_create owner kind st st'"
proof -
  have n: "rows_named st" using ok by (simp add: records_ok_def)
  note c = create_record_work_Inr [OF w n]
  let ?x = "fresh_record i owner kind fs now"
  note others = fresh_others [OF n, of i]
  show ?thesis
  proof (rule puts_row_commits [OF ok])
    show "puts_row Record_create 1 owner kind ?x st st'" using c by blast
    show "row_ok env ?x" using fs by (simp add: row_ok_def)
    show "int (length (active_records (put_in ?x st) owner kind)) = int (length (active_records st owner kind)) + 1"
      using c others by (simp add: length_active_put [OF n])
  qed (use c others in simp_all)
qed

lemma update_commits:
  assumes w: "update_record_work owner kind i fs resolved now st = Inr (p, st')" and ok: "records_ok env st" and fs: "fields_kept env kind fs"
  shows "commits env Record_update owner kind st st'"
proof -
  have n: "rows_named st" using ok by (simp add: records_ok_def)
  from update_record_work_Inr [OF w n] obtain c where c: "map_of (st_rows st) i = Some c" "pf_id c = i" "c \<in> set (active_records st owner kind)"
    "puts_row Record_update 0 owner kind (c\<lparr>pf_fields := fs, pf_updated := now\<rparr>) st st'" "kind = Skill_kind \<Longrightarrow> distinct (keys_with st owner i fs)"
    by blast
  have a: "pf_owner c = owner" "pf_kind c = kind" "pf_status c = Active_record" "row_ok env c" using c(3) row_okD [OF ok] by (auto simp: active_in)
  have one: "Suc (length (filter (\<lambda>r. pf_id r \<noteq> i) (active_records st owner kind))) = length (active_records st owner kind)"
    using length_without [OF distinct_active_ids [OF n] c(3)] c(2) by simp
  show ?thesis
    by (rule puts_row_commits [OF ok c(4)]) (use a c one fs active_bound [OF ok, of owner kind] in \<open>simp_all add: row_ok_def length_active_put [OF n]\<close>)
qed

lemma remove_commits:
  assumes w: "remove_record_work owner kind i now st = Inr (p, st')" and ok: "records_ok env st"
  shows "commits env Record_remove owner kind st st'"
proof -
  have n: "rows_named st" using ok by (simp add: records_ok_def)
  from remove_record_work_Inr [OF w n] obtain c where c: "map_of (st_rows st) i = Some c" "pf_id c = i" "c \<in> set (active_records st owner kind)"
    "puts_row Record_remove (- 1) owner kind (c\<lparr>pf_status := Deleted_record, pf_deleted := Some now, pf_updated := now\<rparr>) st st'" by blast
  have a: "pf_owner c = owner" "pf_kind c = kind" "pf_status c = Active_record" "row_ok env c" using c(3) row_okD [OF ok] by (auto simp: active_in)
  have one: "Suc (length (filter (\<lambda>r. pf_id r \<noteq> i) (active_records st owner kind))) = length (active_records st owner kind)"
    using length_without [OF distinct_active_ids [OF n] c(3)] c(2) by simp
  show ?thesis
    by (rule puts_row_commits [OF ok c(4)]) (use a c one in \<open>simp_all add: row_ok_def length_active_put [OF n]\<close>)
qed

lemma restore_commits:
  assumes w: "restore_record_work owner kind i now st = Inr (p, st')" and ok: "records_ok env st"
  shows "commits env Record_restore owner kind st st'"
proof -
  have n: "rows_named st" using ok by (simp add: records_ok_def)
  show ?thesis
  proof (rule restore_record_work_Inr [OF w n])
    fix c
    assume c: "map_of (st_rows st) i = Some c" "pf_id c = i" "pf_status c = Deleted_record" "pf_owner c = owner" "pf_kind c = kind" "c \<in> snd ` set (st_rows st)"
      "puts_row Record_restore 1 owner kind (c\<lparr>pf_deleted := None, pf_status := Active_record, pf_updated := now\<rparr>) st st'"
      "length (active_records st owner kind) < MAX_ACTIVE_PER_KIND" "kind = Skill_kind \<Longrightarrow> distinct (keys_with st owner i (pf_fields c))"
    have "pf_id r \<noteq> i" if "r \<in> set (active_records st owner kind)" for r
    proof
      assume i: "pf_id r = i"
      have "r \<in> snd ` set (st_rows st)" using active_in that by blast
      then obtain k where k: "(k, r) \<in> set (st_rows st)" by auto
      then have "k = i" using n i by (auto simp: rows_named_def)
      moreover have "map_of (st_rows st) k = Some r" using k n by (intro map_of_is_SomeI) (simp_all add: rows_named_def)
      ultimately have "c = r" using c(1) by simp
      then show False using c(3) that by (simp add: active_in)
    qed
    then have none: "filter (\<lambda>r. pf_id r \<noteq> i) (active_records st owner kind) = active_records st owner kind" by (simp add: filter_id_conv)
    have again: "\<exists>t. c\<lparr>pf_deleted := None, pf_status := Active_record, pf_updated := now\<rparr> = r\<lparr>pf_deleted := None, pf_status := Active_record, pf_updated := t\<rparr>"
      if "map_of (st_rows st) (pf_id (c\<lparr>pf_deleted := None, pf_status := Active_record, pf_updated := now\<rparr>)) = Some r" for r
      using that c(1,2) by auto
    show ?thesis
      by (rule puts_row_commits [OF ok c(7) _ _ _ _ _ again])
        (use c none row_okD [OF ok c(6)] in \<open>simp_all add: row_ok_def length_active_put [OF n]\<close>)
  qed
qed


section \<open>Skills replaced\<close>

definition same_deleted :: "profile_store \<Rightarrow> profile_store \<Rightarrow> bool" where
  "same_deleted st st' \<longleftrightarrow> (\<forall>i r. map_of (st_rows st) i = Some r \<and> pf_status r = Deleted_record \<longrightarrow> map_of (st_rows st') i = Some r)"

lemma same_deleted_trans: "same_deleted a b \<Longrightarrow> same_deleted b c \<Longrightarrow> same_deleted a c"
  by (simp add: same_deleted_def)

lemma same_deleted_put: "(\<And>r. map_of (st_rows st) (pf_id x) = Some r \<Longrightarrow> pf_status r = Active_record) \<Longrightarrow> same_deleted st (put_in x st)"
  by (auto simp: same_deleted_def)

lemma set_active_put:
  "rows_named st \<Longrightarrow> set (active_records (put_in x st) owner kind) = {r \<in> set (active_records st owner kind). pf_id r \<noteq> pf_id x}
     \<union> (if pf_owner x = owner \<and> pf_kind x = kind \<and> pf_status x = Active_record then {x} else {})"
proof -
  assume n: "rows_named st"
  have "set_mset (mset (active_records (put_in x st) owner kind)) = set_mset (mset (filter (\<lambda>r. pf_id r \<noteq> pf_id x) (active_records st owner kind))
    + (if pf_owner x = owner \<and> pf_kind x = kind \<and> pf_status x = Active_record then {#x#} else {#}))"
    unfolding active_put [OF n] ..
  then show ?thesis by (simp only: set_mset_union set_mset_mset set_filter) (simp split: if_splits)
qed

definition quiet :: "string \<Rightarrow> profile_store \<Rightarrow> profile_store \<Rightarrow> bool" where
  "quiet owner st st' \<longleftrightarrow> same_deleted st st' \<and> only_rows owner Skill_kind st st' \<and> st_audit st' = st_audit st \<and> st_fail st' = st_fail st"

lemma quiet_trans: "quiet owner a b \<Longrightarrow> quiet owner b c \<Longrightarrow> quiet owner a c"
  using same_deleted_trans only_rows_trans by (simp add: quiet_def) blast

lemma quiet_refl [simp]: "quiet owner st st"
  by (simp add: quiet_def same_deleted_def)

lemma remove_rows_ok:
  "remove_rows now rows st = Inr st' \<Longrightarrow> records_ok env st \<Longrightarrow> distinct (map pf_id rows) \<Longrightarrow>
    \<forall>r \<in> set rows. map_of (st_rows st) (pf_id r) = Some r \<and> pf_owner r = owner \<and> pf_kind r = Skill_kind \<and> pf_status r = Active_record \<and> row_ok env r \<Longrightarrow>
    records_ok env st' \<and> quiet owner st st' \<and> set (active_records st' owner Skill_kind) = {r \<in> set (active_records st owner Skill_kind). pf_id r \<notin> pf_id ` set rows}"
proof (induction rows arbitrary: st)
  case (Cons r rows)
  let ?x = "r\<lparr>pf_status := Deleted_record, pf_deleted := Some now, pf_updated := now\<rparr>"
  have n: "rows_named st" using Cons.prems(2) by (simp add: records_ok_def)
  have r: "map_of (st_rows st) (pf_id r) = Some r" "pf_owner r = owner" "pf_kind r = Skill_kind" "pf_status r = Active_record" "row_ok env r"
    using Cons.prems(4) by simp_all
  from Cons.prems(1) have rest: "remove_rows now rows (put_in ?x st) = Inr st'" by (auto simp: replace_put [OF n])
  have ok: "records_ok env (put_in ?x st)" using r(5) by (intro put_in_ok [OF Cons.prems(2)]) (simp_all add: row_ok_def)
  have q: "quiet owner st (put_in ?x st)" using r put_in_only [of st ?x] same_deleted_put [of st ?x] by (simp add: quiet_def)
  have others: "\<forall>r' \<in> set rows. map_of (st_rows (put_in ?x st)) (pf_id r') = Some r' \<and> pf_owner r' = owner \<and> pf_kind r' = Skill_kind \<and> pf_status r' = Active_record \<and> row_ok env r'"
  proof
    fix r'
    assume in_rows: "r' \<in> set rows"
    then have "pf_id r' \<in> pf_id ` set rows" by (rule imageI)
    moreover have "pf_id r \<notin> pf_id ` set rows" using Cons.prems(3) by simp
    ultimately have "pf_id r' \<noteq> pf_id r" by metis
    moreover have "map_of (st_rows st) (pf_id r') = Some r' \<and> pf_owner r' = owner \<and> pf_kind r' = Skill_kind \<and> pf_status r' = Active_record \<and> row_ok env r'"
      using Cons.prems(4) in_rows by simp
    ultimately show "map_of (st_rows (put_in ?x st)) (pf_id r') = Some r' \<and> pf_owner r' = owner \<and> pf_kind r' = Skill_kind \<and> pf_status r' = Active_record \<and> row_ok env r'"
      by simp
  qed
  have "distinct (map pf_id rows)" using Cons.prems(3) by simp
  from Cons.IH [OF rest ok this others] have ih: "records_ok env st'" "quiet owner (put_in ?x st) st'"
      "set (active_records st' owner Skill_kind) = {r' \<in> set (active_records (put_in ?x st) owner Skill_kind). pf_id r' \<notin> pf_id ` set rows}"
    by blast+
  have act: "set (active_records (put_in ?x st) owner Skill_kind) = {r' \<in> set (active_records st owner Skill_kind). pf_id r' \<noteq> pf_id r}"
    by (simp add: set_active_put [OF n])
  show ?case unfolding ih(3) act using ih(1) quiet_trans [OF q ih(2)] by auto
qed simp

lemma insert_skills_ok:
  "insert_skills env owner t skills st = Inr (made, st') \<Longrightarrow> records_ok env st \<Longrightarrow> list_all (text_kept env 128 \<circ> snd) skills \<Longrightarrow>
    length (active_records st owner Skill_kind) + length skills \<le> MAX_ACTIVE_PER_KIND \<Longrightarrow> distinct (skill_keys st owner @ map (\<lambda>p. skillKey (snd p)) skills) \<Longrightarrow>
    records_ok env st' \<and> quiet owner st st' \<and> length (active_records st' owner Skill_kind) = length (active_records st owner Skill_kind) + length made"
proof (induction skills arbitrary: t st made)
  case (Cons p skills)
  obtain i name where p: "p = (i, name)" by force
  let ?x = "fresh_record i owner Skill_kind (Skill_fields name) (re_iso env t)"
  have n: "rows_named st" using Cons.prems(2) by (simp add: records_ok_def)
  obtain rest where new: "map_of (st_rows st) i = None" and c: "made = publicRecord ?x # rest"
      and more: "insert_skills env owner (t + 1) skills (put_in ?x st) = Inr (rest, st')"
    using Cons.prems(1) by (auto simp: p Let_def insert_put)
  note others = fresh_others [OF n new]
  have keys: "mset (skill_keys (put_in ?x st) owner) = mset (skill_keys st owner @ [skillKey name])"
    by (simp add: skill_keys_put [OF n] others) (simp add: skill_keys_def)
  have ok: "records_ok env (put_in ?x st)"
  proof (rule put_in_ok [OF Cons.prems(2)])
    show "row_ok env ?x" using Cons.prems(3) by (simp add: p row_ok_def)
    show "length (filter (\<lambda>r. pf_id r \<noteq> pf_id ?x) (active_records st (pf_owner ?x) (pf_kind ?x))) < MAX_ACTIVE_PER_KIND"
      using Cons.prems(4) by (simp add: others)
    show "distinct (keys_with st (pf_owner ?x) (pf_id ?x) (pf_fields ?x))"
      using Cons.prems(5) by (simp add: keys_with_def others p skill_keys_def)
  qed
  have q: "quiet owner st (put_in ?x st)" using new put_in_only [of st ?x] same_deleted_put [of st ?x] by (simp add: quiet_def)
  have len: "length (active_records (put_in ?x st) owner Skill_kind) = Suc (length (active_records st owner Skill_kind))"
    by (simp add: length_active_put [OF n] others)
  have "distinct ((skill_keys st owner @ [skillKey name]) @ map (\<lambda>p. skillKey (snd p)) skills)" using Cons.prems(5) by (simp add: p)
  moreover have "mset (skill_keys (put_in ?x st) owner @ map (\<lambda>p. skillKey (snd p)) skills) = mset ((skill_keys st owner @ [skillKey name]) @ map (\<lambda>p. skillKey (snd p)) skills)"
    using keys by simp
  ultimately have "distinct (skill_keys (put_in ?x st) owner @ map (\<lambda>p. skillKey (snd p)) skills)" using mset_eq_imp_distinct_iff by blast
  from Cons.IH [OF more ok _ _ this] Cons.prems(3,4) len show ?case using quiet_trans [OF q] by (simp add: c)
qed simp


lemma insert_skills_count: "insert_skills env owner t skills st = Inr (made, st') \<Longrightarrow> length made = length skills"
proof (induction skills arbitrary: t st made)
  case (Cons p skills)
  obtain i name where p: "p = (i, name)" by force
  obtain st1 rest where "insert_skills env owner (t + 1) skills st1 = Inr (rest, st')"
      and made: "made = publicRecord (fresh_record i owner Skill_kind (Skill_fields name) (re_iso env t)) # rest"
    using Cons.prems by (auto simp: p Let_def)
  from Cons.IH [OF this(1)] made show ?case by simp
qed simp

lemma map_sum_is_Inr: "map_sum f g x = Inr y \<longleftrightarrow> (\<exists>a. x = Inr a \<and> y = g a)"
  by (cases x) auto

lemma skill_names_Inr: "skill_names env vs = Inr names \<Longrightarrow> list_all (text_kept env 128) names \<and> length names = length vs"
proof (induction vs arbitrary: names)
  case (Cons v vs)
  obtain name rest where "skill_name env (case v of JStr s \<Rightarrow> Some (JObj [(''name'', JStr s)]) | _ \<Rightarrow> Some v) = Inr name"
      and rest: "skill_names env vs = Inr rest" and names: "names = name # rest"
    using Cons.prems by (auto elim!: bind_elim split: sum.splits simp: map_sum_is_Inr)
  then have "text_kept env 128 name" using skill_name_Inr by blast
  with Cons.IH [OF rest] names show ?case by simp
qed simp

lemma active_looked_up:
  assumes "rows_named st" "r \<in> set (active_records st owner kind)"
  shows "map_of (st_rows st) (pf_id r) = Some r"
proof -
  have "r \<in> snd ` set (st_rows st)" using assms(2) by (simp add: active_in)
  then obtain k where k: "(k, r) \<in> set (st_rows st)" by auto
  then have "pf_id r = k" using assms(1) by (auto simp: rows_named_def)
  then show ?thesis using k assms(1) by (intro map_of_is_SomeI) (simp_all add: rows_named_def)
qed

lemma replace_commits:
  assumes w: "replace_work env owner names now ids st = Inr (p, st')" and ok: "records_ok env st"
    and names: "list_all (text_kept env 128) names" "length names \<le> MAX_ACTIVE_PER_KIND" "distinct (map skillKey names)"
  shows "commits env Record_replace owner Skill_kind st st'"
proof -
  let ?active = "active_records st owner Skill_kind" and ?skills = "zip (map ids [0..<length names]) names"
  have n: "rows_named st" using ok by (simp add: records_ok_def)
  obtain st1 st2 where gone: "remove_rows (re_iso env now) ?active st = Inr st1" and made: "insert_skills env owner now ?skills st1 = Inr (p, st2)"
      and logged: "auditRecord (audit_entry_of Record_replace owner Skill_kind (length ?active) (int (length p))) st2 = Inr st'"
    using w by (auto simp: replace_work_def Let_def elim!: bind_elim)
  have "\<forall>r \<in> set ?active. map_of (st_rows st) (pf_id r) = Some r \<and> pf_owner r = owner \<and> pf_kind r = Skill_kind \<and> pf_status r = Active_record \<and> row_ok env r"
    using active_looked_up [OF n] row_okD [OF ok] by (auto simp: active_in)
  from remove_rows_ok [OF gone ok distinct_active_ids [OF n] this] have one: "records_ok env st1" "quiet owner st st1"
      "set (active_records st1 owner Skill_kind) = {r \<in> set ?active. pf_id r \<notin> pf_id ` set ?active}" by blast+
  have "set (active_records st1 owner Skill_kind) = {}" unfolding one(3) by (auto intro: imageI)
  then have none: "active_records st1 owner Skill_kind = []" by simp
  then have keys: "skill_keys st1 owner = []" by (simp add: skill_keys_def)
  have snds: "map snd ?skills = names" by simp
  have "map (\<lambda>q. skillKey (snd q)) ?skills = map skillKey (map snd ?skills)" unfolding map_map by (simp add: comp_def)
  then have "map (\<lambda>q. skillKey (snd q)) ?skills = map skillKey names" unfolding snds .
  with keys have "distinct (skill_keys st1 owner @ map (\<lambda>q. skillKey (snd q)) ?skills)" using names(3) by simp
  moreover have "list_all (text_kept env 128 \<circ> snd) ?skills" using names(1) snds by (metis list.pred_map)
  moreover have "length (active_records st1 owner Skill_kind) + length ?skills \<le> MAX_ACTIVE_PER_KIND" using names(2) none by simp
  ultimately have two: "records_ok env st2" "quiet owner st1 st2" "length (active_records st2 owner Skill_kind) = length p"
    using insert_skills_ok [OF made one(1)] none by simp_all
  have "quiet owner st st2" using one(2) two(2) by (rule quiet_trans)
  moreover have "st' = st2\<lparr>st_audit := st_audit st2 @ [audit_entry_of Record_replace owner Skill_kind (length ?active) (int (length p))]\<rparr>"
    using logged by (simp add: audit_Inr)
  moreover have "keeps_deleted st st2" "only_rows owner Skill_kind st st2" "st_audit st2 = st_audit st"
    using \<open>quiet owner st st2\<close> by (auto simp: quiet_def same_deleted_def keeps_deleted_def)
  ultimately show ?thesis using two by (simp add: commits_def keeps_deleted_def only_rows_def)
qed

section \<open>Whole calls\<close>

lemma run_guarded_cases:
  assumes "run_guarded g work st = (r, st')"
  obtains e where "r = Inl e" "st' = st \<or> st' = st\<lparr>st_fail := False\<rparr>"
  | x a where "g = Inr x" "work x st = Inr (a, st')" "r = Inr a"
  using assms by (auto simp: run_guarded_def transaction_def split: sum.splits if_splits prod.splits)

text \<open>A call commits, or leaves rows and log.\<close>

definition call_done :: "record_env \<Rightarrow> record_operation \<Rightarrow> string \<Rightarrow> json option \<Rightarrow> profile_store \<Rightarrow> (record_error + 'a) \<Rightarrow> profile_store \<Rightarrow> bool" where
  "call_done env oper owner k st r st' \<longleftrightarrow> (case r of Inl e \<Rightarrow> st' = st \<or> st' = st\<lparr>st_fail := False\<rparr> | Inr a \<Rightarrow> \<exists>kind. requireKind k = Inr kind \<and> commits env oper owner kind st st')"

lemma guarded_done:
  assumes "run_guarded g work st = (r, st')" "\<And>x a. g = Inr x \<Longrightarrow> work x st = Inr (a, st') \<Longrightarrow> \<exists>kind. requireKind k = Inr kind \<and> commits env oper owner kind st st'"
  shows "call_done env oper owner k st r st'"
  using assms(1) by (rule run_guarded_cases) (use assms(2) in \<open>auto simp: call_done_def\<close>)

lemma create_done: "record_create env resolve owner k v now i st = (r, st') \<Longrightarrow> records_ok env st \<Longrightarrow> call_done env Record_create owner k st r st'"
  unfolding record_create_def by (erule guarded_done) (auto elim!: bind_elim intro: create_commits normalizer_Inr)

lemma update_done: "record_update env resolve owner k i v now st = (r, st') \<Longrightarrow> records_ok env st \<Longrightarrow> call_done env Record_update owner k st r st'"
  unfolding record_update_def by (erule guarded_done) (auto elim!: bind_elim intro: update_commits normalizer_Inr)

lemma remove_done: "record_remove env owner k i now st = (r, st') \<Longrightarrow> records_ok env st \<Longrightarrow> call_done env Record_remove owner k st r st'"
  unfolding record_remove_def by (erule guarded_done) (auto elim!: bind_elim simp: owned_id_def intro: remove_commits)

lemma restore_done: "record_restore env owner k i now st = (r, st') \<Longrightarrow> records_ok env st \<Longrightarrow> call_done env Record_restore owner k st r st'"
  unfolding record_restore_def by (erule guarded_done) (auto elim!: bind_elim simp: owned_id_def intro: restore_commits)

lemma replace_done:
  assumes "replaceSkills env owner v now ids st = (r, st')" and ok: "records_ok env st"
  shows "call_done env Record_replace owner (Some (JStr ''skill'')) st r st'"
  using assms(1) unfolding replaceSkills_def
proof (rule guarded_done)
  fix names p
  assume g: "bind_result (requireOwner owner) (\<lambda>_. case v of
        Some (JArr vs) \<Rightarrow>
          (if vs = [] then bad ''empty_skill_list''
           else if length vs > MAX_ACTIVE_PER_KIND then Inl over_limit
           else bind_result (skill_names env vs) (\<lambda>names. bind_result (assertUniqueSkills names) (\<lambda>_. Inr names)))
      | _ \<Rightarrow> bad ''empty_skill_list'') = Inr names"
    and w: "replace_work env owner names now ids st = Inr (p, st')"
  obtain vs where vs: "length vs \<le> MAX_ACTIVE_PER_KIND" "skill_names env vs = Inr names" "assertUniqueSkills names = Inr ()"
    using g by (cases v) (auto elim!: bind_elim simp: bad_def not_less split: json.splits if_splits)
  then have "skill_names env vs = Inr names" "distinct (map skillKey names)" by (auto simp: assertUniqueSkills_def)
  then have "commits env Record_replace owner Skill_kind st st'" using skill_names_Inr [of env vs names] vs(1) by (intro replace_commits [OF w ok]) simp_all
  then show "\<exists>kind. requireKind (Some (JStr ''skill'')) = Inr kind \<and> commits env Record_replace owner kind st st'"
    by (intro exI [of _ Skill_kind] conjI) (simp add: requireKind_def PROFILE_RECORD_KINDS_def)
qed

lemma one_record_done:
  assumes "one_record p = (r, st')" "\<And>a b. p = (a, b) \<Longrightarrow> call_done env oper owner k st a b"
  shows "call_done env oper owner k st r st'"
  using assms by (cases p; cases "fst p") (auto simp: one_record_def call_done_def)

fun operation_of :: "record_call \<Rightarrow> record_operation" where
  "operation_of (Create_record k v i) = Record_create"
| "operation_of (Update_record k i v) = Record_update"
| "operation_of (Remove_record k i) = Record_remove"
| "operation_of (Restore_record k i) = Record_restore"
| "operation_of (Replace_skills v ids) = Record_replace"

fun kind_input :: "record_call \<Rightarrow> json option" where
  "kind_input (Create_record k v i) = k"
| "kind_input (Update_record k i v) = k"
| "kind_input (Remove_record k i) = k"
| "kind_input (Restore_record k i) = k"
| "kind_input (Replace_skills v ids) = Some (JStr ''skill'')"

lemma run_done:
  assumes "record_run env resolve owner now c st = (r, st')" "records_ok env st"
  shows "call_done env (operation_of c) owner (kind_input c) st r st'"
proof (cases c)
  case (Create_record k v i)
  show ?thesis unfolding Create_record operation_of.simps kind_input.simps by (rule one_record_done [OF assms(1) [unfolded Create_record record_run.simps] create_done [OF _ assms(2)]])
next
  case (Update_record k i v)
  show ?thesis unfolding Update_record operation_of.simps kind_input.simps by (rule one_record_done [OF assms(1) [unfolded Update_record record_run.simps] update_done [OF _ assms(2)]])
next
  case (Remove_record k i)
  show ?thesis unfolding Remove_record operation_of.simps kind_input.simps by (rule one_record_done [OF assms(1) [unfolded Remove_record record_run.simps] remove_done [OF _ assms(2)]])
next
  case (Restore_record k i)
  show ?thesis unfolding Restore_record operation_of.simps kind_input.simps by (rule one_record_done [OF assms(1) [unfolded Restore_record record_run.simps] restore_done [OF _ assms(2)]])
next
  case (Replace_skills v ids)
  show ?thesis unfolding Replace_skills operation_of.simps kind_input.simps by (rule replace_done [OF assms(1) [unfolded Replace_skills record_run.simps] assms(2)])
qed

lemma step_done: "record_step env st st' \<Longrightarrow> records_ok env st \<Longrightarrow> records_ok env st' \<and> keeps_deleted st st'"
proof (induction rule: record_step.induct)
  case (called resolve owner now c st r st')
  then show ?case using run_done [OF called(1,2)] by (auto simp: call_done_def commits_def keeps_deleted_def split: sum.splits)
qed (simp add: keeps_deleted_def)

lemma empty_ok: "records_ok env empty_records"
  by (simp add: records_ok_def rows_named_def empty_records_def active_records_def listOwned_def skill_keys_def)

lemma steps_ok: "(record_step env)\<^sup>*\<^sup>* st st' \<Longrightarrow> records_ok env st \<Longrightarrow> records_ok env st'"
  by (induction rule: rtranclp_induct) (use step_done in blast)+

lemma record_reach_ok: "record_reach env st \<Longrightarrow> records_ok env st"
  unfolding record_reach_def using steps_ok empty_ok by blast

end
