(* ===== verification/Profile_Background.thy ===== *)
theory Profile_Background
  imports Record_Histories
begin

declare map_of_eq_Some_iff [simp del] Some_eq_map_of_iff [simp del]

text \<open>
  Profile records, the properties: what a store that calls built holds, what one call does, how a
  removed record comes back. Also the in-memory catalogue the references are looked up in, and a
  concrete history for the witnesses.
\<close>

section \<open>The catalogue in memory\<close>

type_synonym reference_items = "(string, catalogue_reference \<times> record_status) js_map"

definition set_reference :: "catalogue_reference \<Rightarrow> string \<Rightarrow> record_status \<Rightarrow> reference_items \<Rightarrow> reference_items" where
  "set_reference t i status items = AList.update i (t, status) items"

definition resolve_reference :: "reference_items \<Rightarrow> resolver" where
  "resolve_reference items t i = Some (case map_of items i of
     None \<Rightarrow> None | Some (t', status) \<Rightarrow> if t' = t then Some status else None)"

section \<open>Restoring\<close>

text \<open>Where a restore of a deleted row stands.\<close>

lemma restore_work_eq:
  assumes n: "rows_named st" and c: "map_of (st_rows st) i = Some c" and d: "pf_status c = Deleted_record"
    and o: "pf_owner c = owner" "pf_kind c = kind" "pf_fields c = fs"
    and again: "c\<lparr>pf_deleted := None, pf_status := Active_record, pf_updated := now\<rparr> = again"
  shows "transaction (restore_record_work owner kind i now) st =
    (let active = active_records st owner kind
     in if MAX_ACTIVE_PER_KIND \<le> length active then (Inl (Record_error ''profile_record_limit'' 409), st)
        else if kind = Skill_kind \<and> \<not> distinct (map (skillKey \<circ> skill_of \<circ> pf_fields) active @ [skillKey (skill_of fs)])
          then (Inl (Record_error ''duplicate_skill'' 409), st)
        else if st_fail st then (Inl (Store_failure ''injected audit failure''), st\<lparr>st_fail := False\<rparr>)
        else (Inr (publicRecord again),
          st\<lparr>st_rows := AList.update i again (st_rows st),
            st_audit := st_audit st @ [audit_entry_of Record_restore owner kind (length active) (int (length active) + 1)]\<rparr>))"
proof -
  have i: "pf_id c = i" using named_lookup [OF n c] by simp
  have f: "findOwned st owner kind i = Some c" by (simp add: findOwned_def c o)
  have "pf_owner again = owner" "pf_kind again = kind" "pf_id again = i" unfolding again [symmetric] using o i by simp_all
  then have r: "replaceRecord again st = Inr (st\<lparr>st_rows := AList.update i again (st_rows st)\<rparr>)" unfolding replace_Inr [OF n] using f by simp
  show ?thesis
    by (simp add: transaction_def restore_record_work_def f d o Let_def again r ensure_def over_limit_def assertUniqueSkills_def auditRecord_def comp_def)
qed

text \<open>A row deleted along a whole history is untouched by it.\<close>

lemma stays_deleted:
  assumes "(\<lambda>a b. record_step env a b \<and> (\<exists>r. map_of (st_rows b) i = Some r \<and> pf_status r = Deleted_record))\<^sup>*\<^sup>* st st'"
    and "records_ok env st" "map_of (st_rows st) i = Some d" "pf_status d = Deleted_record"
  shows "records_ok env st' \<and> map_of (st_rows st') i = Some d"
  using assms(1)
proof (induction rule: rtranclp_induct)
  case (step b c)
  then have "records_ok env c" "keeps_deleted b c" using step_done by blast+
  moreover have "map_of (st_rows c) i = Some d \<or> (\<exists>t. map_of (st_rows c) i = Some (d\<lparr>pf_deleted := None, pf_status := Active_record, pf_updated := t\<rparr>))"
    using \<open>keeps_deleted b c\<close> step.IH assms(4) unfolding keeps_deleted_def by blast
  moreover obtain r where "map_of (st_rows c) i = Some r" "pf_status r = Deleted_record" using step.hyps(2) by blast
  ultimately show ?case by auto
qed (use assms in simp)

section \<open>The background of a person\<close>

definition lists_rows :: "profile_record list \<Rightarrow> stored_profile_record list \<Rightarrow> bool" where
  "lists_rows ps rs \<longleftrightarrow> length ps = length rs \<and> set ps = publicRecord ` set rs"

lemma active_of_all:
  "filter (\<lambda>r. pf_owner r = owner \<and> pf_kind r = kind \<and> pf_status r = Active_record) (listAll st owner) = active_records st owner kind"
  by (simp add: active_records_filter listAll_def conj_ac)

lemma background_shows:
  assumes "background_of env owner st = Inr b"
  shows "lists_rows (bg_education b) (active_records st owner Education_kind) \<and> lists_rows (bg_experience b) (active_records st owner Experience_kind)
    \<and> lists_rows (bg_skill b) (active_records st owner Skill_kind) \<and> lists_rows (bg_link b) (active_records st owner Link_kind)
    \<and> lists_rows (bg_removed b) (filter (\<lambda>r. pf_status r = Deleted_record) (listAll st owner))"
proof -
  have "b = \<lparr>bg_education = map publicRecord (js_sort (created_before env) (active_records st owner Education_kind)),
      bg_experience = map publicRecord (js_sort (created_before env) (active_records st owner Experience_kind)),
      bg_skill = map publicRecord (js_sort (created_before env) (active_records st owner Skill_kind)),
      bg_link = map publicRecord (js_sort (created_before env) (active_records st owner Link_kind)),
      bg_removed = map publicRecord (js_sort (removed_after env) (filter (\<lambda>r. pf_status r = Deleted_record) (listAll st owner)))\<rparr>"
    using assms unfolding background_of_def Let_def active_of_all by (auto elim!: bind_elim simp: listAll_def conj_ac)
  then show ?thesis by (simp add: lists_rows_def)
qed

section \<open>A concrete history\<close>

definition demo_records :: record_env where
  "demo_records = \<lparr>re_nfkc = (\<lambda>s. s), re_compare = (\<lambda>a b. 0), re_url = (\<lambda>u. None), re_iso = (\<lambda>n. if n = 1 then ''one'' else if n = 2 then ''two'' else ''three'')\<rparr>"

definition row_name :: string where
  "row_name = ''00000000-0000-4000-8000-000000000001''"

definition demo_skill :: json where
  "demo_skill = JObj [(''name'', JStr '' Woodwork '')]"

definition demo_row :: stored_profile_record where
  "demo_row = fresh_record row_name ''ada'' Skill_kind (Skill_fields ''Woodwork'') ''one''"

definition gone_row :: stored_profile_record where
  "gone_row = demo_row\<lparr>pf_status := Deleted_record, pf_deleted := Some ''two'', pf_updated := ''two''\<rparr>"

definition one_row :: profile_store where
  "one_row = \<lparr>st_rows = [(row_name, demo_row)], st_audit = [audit_entry_of Record_create ''ada'' Skill_kind 0 1], st_fail = False\<rparr>"

definition no_row :: profile_store where
  "no_row = \<lparr>st_rows = [(row_name, gone_row)],
     st_audit = [audit_entry_of Record_create ''ada'' Skill_kind 0 1, audit_entry_of Record_remove ''ada'' Skill_kind 1 0], st_fail = False\<rparr>"

lemma demo_skill_created:
  "record_create demo_records (resolve_reference []) ''ada'' (Some (JStr ''skill'')) (Some demo_skill) 1 row_name empty_records = (Inr (publicRecord demo_row), one_row)"
  by code_simp

lemma demo_skill_removed:
  "record_remove demo_records ''ada'' (Some (JStr ''skill'')) (Some (JStr row_name)) 2 one_row = (Inr (publicRecord gone_row), no_row)"
  by code_simp

lemma demo_one_row: "record_reach demo_records one_row"
proof -
  have "record_run demo_records (resolve_reference []) ''ada'' 1 (Create_record (Some (JStr ''skill'')) (Some demo_skill) row_name) empty_records = (Inr [publicRecord demo_row], one_row)"
    by (simp add: demo_skill_created one_record_def)
  then show ?thesis unfolding record_reach_def by (blast intro: record_step.called)
qed

section \<open>Properties\<close>

text \<open>C12. Whatever calls ran, by whomever and in whatever order, and whatever audit writes failed: no
  person has more than fifty active records of a kind; the names of a person's active skills are
  distinct up to case; each row, removed ones too, has fields its kind's validation accepts (a
  university exactly where the type of education asks for one, references that are identifiers in lower
  case, years in range and in order, text trimmed, folded and normalized, without control characters
  and in its limits, links as the parser of URLs writes an http or https address without
  credentials); a row has a time of removal exactly while it is removed; and the background a
  person is shown lists, kind by kind, exactly the active records and, apart, the removed ones.\<close>

theorem records_stay_within_limits:
  assumes "record_reach env st"
  shows "(\<forall>owner kind. length (active_records st owner kind) \<le> 50)
    \<and> (\<forall>owner. distinct (map (\<lambda>r. skillKey (skill_of (pf_fields r))) (active_records st owner Skill_kind)))
    \<and> (\<forall>(i, r) \<in> set (st_rows st). pf_id r = i \<and> fields_kept env (pf_kind r) (pf_fields r) \<and> (pf_deleted r \<noteq> None \<longleftrightarrow> pf_status r = Deleted_record))
    \<and> (\<forall>owner b. background_of env owner st = Inr b \<longrightarrow> lists_rows (bg_education b) (active_records st owner Education_kind)
         \<and> lists_rows (bg_experience b) (active_records st owner Experience_kind) \<and> lists_rows (bg_skill b) (active_records st owner Skill_kind)
         \<and> lists_rows (bg_link b) (active_records st owner Link_kind) \<and> lists_rows (bg_removed b) (filter (\<lambda>r. pf_status r = Deleted_record) (listAll st owner)))"
  using record_reach_ok [OF assms] background_shows by (auto simp: records_ok_def skill_keys_def rows_named_def row_ok_def MAX_ACTIVE_PER_KIND_def)

theorem records_stay_within_limits_witness:
  "length (active_records one_row ''ada'' Skill_kind) \<le> 50 \<and> active_records one_row ''ada'' Skill_kind = [demo_row]"
proof -
  have "active_records one_row ''ada'' Skill_kind = [demo_row]" by code_simp
  then show ?thesis using records_stay_within_limits [OF demo_one_row] by blast
qed

text \<open>C13. A call that fails, on the input, the catalogue, the limits or the audit write, leaves every row
  and the log as they were. A call that returns has changed rows of its caller and its kind alone,
  has brought a removed row back, if any, with its values, and has logged one entry: its
  operation, its caller, its kind, and the numbers of active rows before and after, as they are.\<close>

theorem record_call_is_audited:
  assumes "record_reach env st" "record_run env resolve owner now c st = (r, st')"
  shows "case r of
      Inl e \<Rightarrow> st_rows st' = st_rows st \<and> st_audit st' = st_audit st
    | Inr ps \<Rightarrow> \<exists>kind. requireKind (kind_input c) = Inr kind \<and> only_rows owner kind st st' \<and> keeps_deleted st st'
        \<and> st_audit st' = st_audit st @ [\<lparr>ra_operation = operation_of c, ra_owner = owner, ra_kind = kind,
             ra_before = length (active_records st owner kind), ra_after = int (length (active_records st' owner kind))\<rparr>]"
  using run_done [OF assms(2) record_reach_ok [OF assms(1)]]
  by (cases r) (auto simp: call_done_def commits_def audit_entry_of_def)

theorem record_call_is_audited_witness:
  "record_run demo_records (resolve_reference []) ''ada'' 2 (Remove_record (Some (JStr ''skill'')) (Some (JStr row_name))) one_row = (Inr [publicRecord gone_row], no_row)
    \<and> (\<exists>kind. requireKind (Some (JStr ''skill'')) = Inr kind \<and> only_rows ''ada'' kind one_row no_row \<and> keeps_deleted one_row no_row)"
proof -
  have "record_run demo_records (resolve_reference []) ''ada'' 2 (Remove_record (Some (JStr ''skill'')) (Some (JStr row_name))) one_row = (Inr [publicRecord gone_row], no_row)"
    by (simp add: demo_skill_removed one_record_def)
  then show ?thesis using record_call_is_audited [OF demo_one_row, of "resolve_reference []" "''ada''" 2 "Remove_record (Some (JStr ''skill'')) (Some (JStr row_name))"] by auto
qed

text \<open>C11. A record removed by its owner comes back: take any calls after the removal, of anyone, that leave
  it removed. Then a restore is refused only where fifty records of the kind are active, where an
  active skill has taken the name meanwhile, or where the audit write fails; each refusal leaves
  rows and log. Otherwise the row is the one that was removed, in every value, with a new time of change.\<close>

theorem removed_record_comes_back:
  assumes "record_reach env st" "record_remove env owner k i now st = (Inr p, st1)"
    "(\<lambda>a b. record_step env a b \<and> (\<exists>r. map_of (st_rows b) (pf_id p) = Some r \<and> pf_status r = Deleted_record))\<^sup>*\<^sup>* st1 st2"
  shows "\<exists>c. map_of (st_rows st) (pf_id p) = Some c \<and> pf_status c = Active_record \<and> pf_owner c = owner \<and>
    (let active = active_records st2 owner (pf_kind c); again = c\<lparr>pf_updated := re_iso env later\<rparr>
     in record_restore env owner k i later st2 =
       (if 50 \<le> length active then (Inl (Record_error ''profile_record_limit'' 409), st2)
        else if pf_kind c = Skill_kind \<and> \<not> distinct (map (skillKey \<circ> skill_of \<circ> pf_fields) active @ [skillKey (skill_of (pf_fields c))])
          then (Inl (Record_error ''duplicate_skill'' 409), st2)
        else if st_fail st2 then (Inl (Store_failure ''injected audit failure''), st2\<lparr>st_fail := False\<rparr>)
        else (Inr (publicRecord again),
          st2\<lparr>st_rows := AList.update (pf_id p) again (st_rows st2),
            st_audit := st_audit st2 @ [audit_entry_of Record_restore owner (pf_kind c) (length active) (int (length active) + 1)]\<rparr>)))"
proof -
  note ok = record_reach_ok [OF assms(1)]
  have n: "rows_named st" using ok by (simp add: records_ok_def)
  obtain kind j where g: "owned_id owner k i = Inr (kind, j)" and w: "remove_record_work owner kind j (re_iso env now) st = Inr (p, st1)"
    using assms(2) unfolding record_remove_def by (auto elim!: run_guarded_cases)
  from remove_record_work_Inr [OF w n] obtain c where c: "map_of (st_rows st) j = Some c" "pf_id c = j" "c \<in> set (active_records st owner kind)"
      "p = publicRecord (c\<lparr>pf_status := Deleted_record, pf_deleted := Some (re_iso env now), pf_updated := re_iso env now\<rparr>)"
      "puts_row Record_remove (- 1) owner kind (c\<lparr>pf_status := Deleted_record, pf_deleted := Some (re_iso env now), pf_updated := re_iso env now\<rparr>) st st1"
    by blast
  let ?gone = "c\<lparr>pf_status := Deleted_record, pf_deleted := Some (re_iso env now), pf_updated := re_iso env now\<rparr>"
  have a: "pf_owner c = owner" "pf_kind c = kind" "pf_status c = Active_record" "pf_deleted c = None"
    using c(3) row_okD [OF ok, of c] by (auto simp: active_in row_ok_def)
  have p: "pf_id p = j" using c(2,4) by (simp add: publicRecord_def profile_record.defs)
  have at: "map_of (st_rows st1) j = Some ?gone" using c(2,5) by (simp add: puts_row_def Let_def)
  have ok1: "records_ok env st1" using remove_commits [OF w ok] by (simp add: commits_def)
  have "records_ok env st2 \<and> map_of (st_rows st2) j = Some ?gone"
    by (rule stays_deleted [OF assms(3) [unfolded p] ok1 at]) simp
  then have n2: "rows_named st2" and at2: "map_of (st_rows st2) j = Some ?gone" by (simp_all add: records_ok_def)
  have back_again: "?gone\<lparr>pf_deleted := None, pf_status := Active_record, pf_updated := re_iso env later\<rparr> = c\<lparr>pf_updated := re_iso env later\<rparr>"
    using a(3,4) by simp
  have "record_restore env owner k i later st2 = transaction (restore_record_work owner kind j (re_iso env later)) st2"
    by (simp add: record_restore_def run_guarded_def g)
  also have "\<dots> = (let active = active_records st2 owner kind
     in if MAX_ACTIVE_PER_KIND \<le> length active then (Inl (Record_error ''profile_record_limit'' 409), st2)
        else if kind = Skill_kind \<and> \<not> distinct (map (skillKey \<circ> skill_of \<circ> pf_fields) active @ [skillKey (skill_of (pf_fields c))])
          then (Inl (Record_error ''duplicate_skill'' 409), st2)
        else if st_fail st2 then (Inl (Store_failure ''injected audit failure''), st2\<lparr>st_fail := False\<rparr>)
        else (Inr (publicRecord (c\<lparr>pf_updated := re_iso env later\<rparr>)),
          st2\<lparr>st_rows := AList.update j (c\<lparr>pf_updated := re_iso env later\<rparr>) (st_rows st2),
            st_audit := st_audit st2 @ [audit_entry_of Record_restore owner kind (length active) (int (length active) + 1)]\<rparr>))"
    by (rule restore_work_eq [OF n2 at2 _ _ _ _ back_again]) (simp_all add: a)
  finally show ?thesis using c(1) a(1-3) by (intro exI [of _ c]) (simp only: p Let_def MAX_ACTIVE_PER_KIND_def simp_thms)
qed

theorem removed_record_comes_back_witness:
  "fst (record_restore demo_records ''ada'' (Some (JStr ''skill'')) (Some (JStr row_name)) 3 no_row) = Inr (publicRecord (demo_row\<lparr>pf_updated := ''three''\<rparr>))"
proof -
  have id: "pf_id (publicRecord gone_row) = row_name" by code_simp
  have row: "map_of (st_rows one_row) row_name = Some demo_row" by (simp add: one_row_def)
  have kind: "pf_kind demo_row = Skill_kind" by (simp add: demo_row_def)
  have none: "active_records no_row ''ada'' Skill_kind = []" by code_simp
  have runs: "\<not> st_fail no_row" by (simp add: no_row_def)
  have at: "re_iso demo_records 3 = ''three''" by (simp add: demo_records_def)
  show ?thesis
    using removed_record_comes_back [OF demo_one_row demo_skill_removed rtranclp.rtrancl_refl, of 3] unfolding id row
    by (elim exE conjE) (simp add: kind none runs at Let_def)
qed

end
