(* ===== verification/Spec2Isabelle.thy ===== *)
theory Spec2Isabelle
  imports Active_Context Gateway_Authz Browser_Write Capacity Pay_Writes Catalogue Org_Decisions Org_Directory Ticket_Demo Profile_Background
begin

text \<open>
  A model of the core logic of the StudentHub platform: who may act where, how a change is approved
  and written once, what the contracts, the catalogue and the organizations promise to their readers,
  how private documents are kept and delivered, and how the coordinator admits work.

  1. The parts and how they meet.

  A request enters the gateway (\<^verbatim>\<open>apps/gateway/src/authz-middleware.ts\<close>) with an actor assertion signed
  by an issuer. The assertion is verified against the issuer registry, its subject resolved to an
  active context (an organization and a role) over the authorization store, and every decision is
  offered to the audit sink. Behind the gateway, the packages answer reads for the audience the role
  gives and take writes in two steps: a preview yields a token, a confirmation commits it once. The
  idempotency contract makes a repeated request answer with the stored response. Private documents are
  kept in one state that every operation reads and writes in a transaction; candidates upload theirs
  with tickets, through the idempotency contract. Outside the
  application, the coordinator (\<^verbatim>\<open>.github/coordinator\<close>) launches agents under the limits of a
  capacity policy.

  2. Which theory models which files.

  Shared vocabulary. Prelude: JavaScript maps, stable sorting, trimming, splitting, decimal texts,
  errors as sums. Json: the values of \<^verbatim>\<open>JSON.parse\<close>, member access, canonical form. Js_Values: truth,
  safe integers, membership as the modules ask for them. Json_Text: \<^verbatim>\<open>JSON.stringify\<close>, proved
  injective. Base64url: UTF-8 and the alphabet of \<^verbatim>\<open>Buffer.toString('base64url')\<close>, proved to read back.

  Authorization, \<^verbatim>\<open>packages/contracts/src/authz\<close>. Org_Tree: \<^verbatim>\<open>organization.ts\<close>. Authz_Store: \<^verbatim>\<open>roles.ts\<close>,
  \<^verbatim>\<open>principal.ts\<close>, \<^verbatim>\<open>grants.ts\<close>, \<^verbatim>\<open>store.ts\<close>. Active_Context: \<^verbatim>\<open>context.ts\<close>. Issuer_Registry:
  \<^verbatim>\<open>registry.ts\<close>. Actor_Assertion: \<^verbatim>\<open>packages/actor-assertion/src\<close> (\<^verbatim>\<open>types.ts\<close>, \<^verbatim>\<open>sign.ts\<close>, \<^verbatim>\<open>verify.ts\<close>).
  Gateway_Authz: \<^verbatim>\<open>apps/gateway/src/authz-middleware.ts\<close>, \<^verbatim>\<open>contracts/src/authz/assertion.ts\<close> and the
  events of \<^verbatim>\<open>authz-audit.ts\<close>.

  Writes. Idempotency: \<^verbatim>\<open>packages/idempotency-contract/src\<close> (the contract and the recording store).
  Safe_Write: \<^verbatim>\<open>packages/safe-write-contract/src/safe-write.ts\<close> with the store of \<^verbatim>\<open>fixtures.ts\<close>.
  Browser_Write: \<^verbatim>\<open>browser-write.ts\<close>, the tokens of the browser's save.

  Pay, \<^verbatim>\<open>packages/pay-contracts/src\<close>. Pay_Terms: \<^verbatim>\<open>decimal.ts\<close> and the parsers. Pay_Contracts:
  \<^verbatim>\<open>contracts.ts\<close> over \<^verbatim>\<open>memory-store.ts\<close>. Pay_Resolution: \<^verbatim>\<open>resolution.ts\<close> and \<^verbatim>\<open>contract-reads.ts\<close>.
  Pay_Normal: the canonical text of terms. Pay_Writes: \<^verbatim>\<open>contract-writes.ts\<close>, \<^verbatim>\<open>contract-changes.ts\<close>, the
  composition with Safe_Write. Bank: \<^verbatim>\<open>bank.ts\<close>, \<^verbatim>\<open>bank-write.ts\<close>, \<^verbatim>\<open>name-code-points.ts\<close>.

  Catalogue, \<^verbatim>\<open>packages/reference-catalogue/src\<close>. Catalogue_Store: \<^verbatim>\<open>types.ts\<close>, \<^verbatim>\<open>memory-store.ts\<close> and the
  details; Catalogue: \<^verbatim>\<open>catalogue.ts\<close>, the service with its cursors.

  Organizations, \<^verbatim>\<open>packages/organizations/src\<close>. Org_Fields: the parsers, derivations and the projection
  of \<^verbatim>\<open>organizations.ts\<close>; Org_Access: the repository and \<^verbatim>\<open>adapter.ts\<close>; Org_Directory: the directory in
  batches; Org_Decisions: the decision, value and view functions of the write files.

  Private documents, \<^verbatim>\<open>packages/private-documents/src\<close>. Document_State: the state, its JSON and its
  validation (\<^verbatim>\<open>index.ts\<close>, \<^verbatim>\<open>lifecycle-state.ts\<close>), the transaction of the file store. Documents: the class
  \<^verbatim>\<open>PrivateDocuments\<close>. Document_Content: \<^verbatim>\<open>candidate-content.ts\<close>. Candidate_Documents:
  \<^verbatim>\<open>candidate-lifecycle.ts\<close>. Document_History: the steps of both services on one store, what they keep.
  Document_Tickets: tickets and stored answers over those steps. Document_Demo, Ticket_Demo: concrete
  histories.

  Profile records, \<^verbatim>\<open>packages/profile-records/src\<close>. Profile_Records: the validation and the operations of
  \<^verbatim>\<open>records.ts\<close> over the store of \<^verbatim>\<open>memory-store.ts\<close>. Record_Histories: calls of any person in any order, what
  they keep. Profile_Background: the properties, with what a person is shown.

  Coordinator, \<^verbatim>\<open>.github/coordinator\<close>. Launch_Vocabulary: \<^verbatim>\<open>launch-vocabulary.mjs\<close>. Capacity:
  \<^verbatim>\<open>capacity-scheduler.mjs\<close>.

  3. How state and operations correspond.

  A class becomes a record of its fields and one definition per method, from the state to the result
  and the next state; an error the code throws is the left of a sum, a promise that rejects likewise.
  A \<^verbatim>\<open>Map\<close> is an association list in insertion order (AList's update keeps the place of a key, as
  the \<^verbatim>\<open>Map\<close> does), a \<^verbatim>\<open>Set\<close> a list without repeats. A method's awaits are sequential; where two
  requests interleave, the histories are lists of steps and the theorems quantify over all of them
  (Idempotency, Safe_Write, Capacity, Pay_Contracts, Catalogue, Active_Context, Document_History, Record_Histories). An
  operation on private documents is a function of two environments, the one it authenticates in and the
  one of its transaction, and of the clocks the two read; a transaction that throws leaves the state as
  it was. Strings are lists of
  code units below 256, so a comparison of strings is the one of code units. Numbers are
  integers or rationals where the code checks for safe integers or decimals; an overflow that the code
  can reach is written out (\<^verbatim>\<open>spent_micros\<close> in Capacity).

  4. What the lemmas show.

  Interfaces are locales, interpreted on the model's own definitions: the walks of the tree, the reads a
  resolver needs (both store and snapshot provide them), the replay store, the digest and signature
  codecs, the contract store, the rows of the catalogue, the adapters of the organizations. Invariants
  are proved for every operation and carried over reachable states: acyclic trees and one row
  per grant, ledgers that never exceed the policy and read back unless the total or a pause's expiry has a
  form their validation refuses, bookings without overlap, unique names,
  records within their limits.
  Refinement: the pay service implements a table of bookings, the file
  store implements transactions on the state. Equivalences: the checks before a write
  say yes exactly when the write then succeeds; the directory agrees with the single view where no edited profile is stored; the
  decisions agree with the resolver. Safety: tokens commit once, assertions are accepted once, mutations
  run once, upload tickets commit once, documents are never lost. Round trips: assertions, browser
  tokens, cursors, bank details, removed records that come back. The numbered properties stand in the theories, each after a text that
  names it.

  5. Bounds and fuel.

  Recursions are structural or have a measure (the ancestors of an organization: the rows not yet
  seen). The walk down the tree has no guard in the code
  and may not end; it is a partial function into an option, and a theorem says exactly when it returns.
  The client that follows the cursors of the catalogue is given a number of pages (\<^verbatim>\<open>walk_pages\<close>);
  the theorem holds for every number above the count of rows.

  6. Parameters.

  SHA-256, HMAC and signatures, random bytes and identifiers, clocks, \<^verbatim>\<open>Date.parse\<close> and the text of a date
  or of a non-integral number, \<^verbatim>\<open>localeCompare\<close>, NFKC and, for the catalogue, \<^verbatim>\<open>toLocaleLowerCase\<close>
  (which may lengthen a text), \<^verbatim>\<open>JSON.parse\<close> of hostile input, URL parsing,
  \<^verbatim>\<open>inflateSync\<close>, the object store of direct uploads, ports of other services. What a theorem
  needs of one is a hypothesis with the name of what is documented (signatures of distinct payloads differ, a parser reads back what was written), and each such
  theorem has a witness with concrete functions.

  7. Not modelled.

  Key pair generation (\<^verbatim>\<open>actor-assertion/src/keys.ts\<close>, a call of the runtime), the bounded delivery of
  \<^verbatim>\<open>authz-audit.ts\<close> (timers), the database adapters (\<^verbatim>\<open>packages/db\<close>: SQL), the HTTP routes, wiring and
  pages of \<^verbatim>\<open>apps/gateway\<close>, the worker, observability, search and its bake-off (ranking by an external
  engine), exports and notifications (formatting for external services), the tools for
  parity, reconciliation, fixtures, legacy import and browser acceptance (scripts over files and
  browsers), the deployment, the transport to the object store (\<^verbatim>\<open>private-documents/src/r2-storage.ts\<close>)
  and the locks, modes and owners of the files of the file store, the login contract (interfaces), the
  profile fields (\<^verbatim>\<open>packages/profile\<close>) and the normalization of imported sources, and of the coordinator everything that drives GitHub, processes and
  files: reconciliation, card contracts, the service, the adapters, the supervisor and the verifier
  receipts.
\<close>

end
